(* ===== verification/Prelude.thy ===== *)
theory Prelude
  imports Main "HOL-Library.AList" "HOL-Library.Word"
begin

text \<open>
  Shared vocabulary of the development.

  \<^item> \<open>u8\<close> \<dots> \<open>i64\<close> name the machine integers of the Rust sources.
  \<^item> \<open>Ok\<close>/\<open>Err\<close> name the two sides of a \<open>Result\<close>, modelled as the sum \<open>'e + 'a\<close>
    (\<open>Inl\<close> the error).
  \<^item> \<open>hmap\<close> is \<open>std::collections::HashMap\<close>: an association list without duplicate keys, whose
    order stands for the (unspecified) iteration order. The interface \<open>hash_map\<close> states what the
    clients rely on, and it is interpreted on the list operations below.
  \<^item> \<open>hset\<close> is \<open>HashSet\<close>/\<open>BTreeSet\<close> as a list without duplicates.
  \<^item> Saturating arithmetic and the unwrapping of options as the Rust library defines them.

  Fact collections: \<open>hm_simps\<close> for the hash maps, \<open>core_defs\<close> for the definitions that are
  always unfolded.
\<close>

named_theorems hm_simps \<open>rewrite rules for hash maps and hash sets\<close>

type_synonym u8 = "8 word"
type_synonym u16 = "16 word"
type_synonym u32 = "32 word"
type_synonym u64 = "64 word"

abbreviation Ok :: "'a \<Rightarrow> 'e + 'a" where "Ok \<equiv> Inr"
abbreviation Err :: "'e \<Rightarrow> 'e + 'a" where "Err \<equiv> Inl"

definition is_ok :: "'e + 'a \<Rightarrow> bool" where
  "is_ok r = (case r of Inl _ \<Rightarrow> False | Inr _ \<Rightarrow> True)"

definition ok :: "'e + 'a \<Rightarrow> 'a option" where
  "ok r = (case r of Inl _ \<Rightarrow> None | Inr x \<Rightarrow> Some x)"

definition unwrap_or :: "'a option \<Rightarrow> 'a \<Rightarrow> 'a" where
  "unwrap_or o1 d = (case o1 of None \<Rightarrow> d | Some x \<Rightarrow> x)"

definition or_opt :: "'a option \<Rightarrow> 'a option \<Rightarrow> 'a option" where
  "or_opt o1 o2 = (case o1 of None \<Rightarrow> o2 | Some x \<Rightarrow> Some x)"

text \<open>A call that may panic instead of returning.\<close>

datatype 'a may_panic = Panics | Returns 'a

lemma is_ok_simps [simp]: "is_ok (Ok x)" "\<not> is_ok (Err e)"
  by (simp_all add: is_ok_def)

lemma ok_simps [simp]: "ok (Ok x) = Some x" "ok (Err e) = None"
  by (simp_all add: ok_def)

lemma unwrap_or_simps [simp]: "unwrap_or None d = d" "unwrap_or (Some x) d = x"
  by (simp_all add: unwrap_or_def)

lemma or_opt_simps [simp]: "or_opt None o2 = o2" "or_opt (Some x) o2 = Some x"
  by (simp_all add: or_opt_def)

subsection \<open>Saturating subtraction on 64-bit values\<close>

definition saturating_sub :: "u64 \<Rightarrow> u64 \<Rightarrow> u64" where
  "saturating_sub a b = (if a < b then 0 else a - b)"

lemma unat_saturating_sub: "unat (saturating_sub a b) = unat a - unat b"
proof (cases "a < b")
  case True
  then show ?thesis by (simp add: saturating_sub_def word_less_nat_alt)
next
  case False
  then have "b \<le> a" by simp
  then show ?thesis using False by (simp add: saturating_sub_def unat_sub)
qed

lemma unat_of_nat_u64: "n < 2 ^ 64 \<Longrightarrow> unat (of_nat n :: u64) = n"
  by (simp add: unat_of_nat take_bit_nat_eq_self)

lemma of_nat_u64_inject:
  "m < 2 ^ 64 \<Longrightarrow> n < 2 ^ 64 \<Longrightarrow> (of_nat m = (of_nat n :: u64)) \<longleftrightarrow> m = n"
  by (metis unat_of_nat_u64)

subsection \<open>Hash maps\<close>

type_synonym ('k, 'v) hmap = "('k \<times> 'v) list"

definition hm_get :: "('k, 'v) hmap \<Rightarrow> 'k \<Rightarrow> 'v option" where
  "hm_get m k = map_of m k"

definition hm_insert :: "'k \<Rightarrow> 'v \<Rightarrow> ('k, 'v) hmap \<Rightarrow> ('k, 'v) hmap" where
  "hm_insert k v m = AList.update k v m"

definition hm_remove :: "'k \<Rightarrow> ('k, 'v) hmap \<Rightarrow> ('k, 'v) hmap" where
  "hm_remove k m = AList.delete k m"

definition hm_retain :: "('k \<Rightarrow> 'v \<Rightarrow> bool) \<Rightarrow> ('k, 'v) hmap \<Rightarrow> ('k, 'v) hmap" where
  "hm_retain p m = filter (\<lambda>(k, v). p k v) m"

definition hm_len :: "('k, 'v) hmap \<Rightarrow> nat" where
  "hm_len m = length m"

definition hm_ok :: "('k, 'v) hmap \<Rightarrow> bool" where
  "hm_ok m = distinct (map fst m)"

text \<open>
  The interface the components use: lookup after each update, the number of entries, and an
  invariant every operation keeps.
\<close>

locale hash_map =
  fixes empty :: 'm
    and get :: "'m \<Rightarrow> 'k \<Rightarrow> 'v option"
    and ins :: "'k \<Rightarrow> 'v \<Rightarrow> 'm \<Rightarrow> 'm"
    and rem :: "'k \<Rightarrow> 'm \<Rightarrow> 'm"
    and retain :: "('k \<Rightarrow> 'v \<Rightarrow> bool) \<Rightarrow> 'm \<Rightarrow> 'm"
    and len :: "'m \<Rightarrow> nat"
    and inv :: "'m \<Rightarrow> bool"
  assumes get_empty: "get empty k = None"
    and get_ins: "get (ins k v m) k' = (if k' = k then Some v else get m k')"
    and get_rem: "inv m \<Longrightarrow> get (rem k m) k' = (if k' = k then None else get m k')"
    and get_retain: "inv m \<Longrightarrow> get (retain p m) k =
        (case get m k of None \<Rightarrow> None | Some v \<Rightarrow> if p k v then Some v else None)"
    and inv_empty: "inv empty"
    and inv_ins: "inv m \<Longrightarrow> inv (ins k v m)"
    and inv_rem: "inv m \<Longrightarrow> inv (rem k m)"
    and inv_retain: "inv m \<Longrightarrow> inv (retain p m)"
    and len_ins: "len (ins k v m) = (if get m k = None then Suc (len m) else len m)"
    and len_rem: "inv m \<Longrightarrow> len (rem k m) = (if get m k = None then len m else len m - 1)"
    and len_retain: "len (retain p m) \<le> len m"
begin

lemma get_ins_same: "get (ins k v m) k = Some v"
  by (simp add: get_ins)

lemma get_ins_other: "k' \<noteq> k \<Longrightarrow> get (ins k v m) k' = get m k'"
  by (simp add: get_ins)

lemma ins_rem_bounded:
  assumes "inv m" and "get m e \<noteq> None" and "len m \<le> n"
  shows "len (ins k v (rem e m)) \<le> n \<or> len m = 0"
  using assms by (auto simp: len_ins len_rem)

end

lemma hm_delete_length:
  "distinct (map fst m) \<Longrightarrow>
    length (AList.delete k m) = (if map_of m k = None then length m else length m - 1)"
proof (induction m)
  case Nil
  then show ?case by simp
next
  case (Cons a m)
  obtain k' v where a: "a = (k', v)" by (cases a)
  show ?case
  proof (cases "k' = k")
    case True
    with Cons.prems a have "k \<notin> fst ` set m" by auto
    then have "AList.delete k m = m" by (rule delete_id)
    with True a show ?thesis by simp
  next
    case False
    with Cons a show ?thesis
      by (cases m) auto
  qed
qed

lemma hm_filter_lookup:
  "distinct (map fst m) \<Longrightarrow>
    map_of (filter (\<lambda>(k, v). p k v) m) k =
      (case map_of m k of None \<Rightarrow> None | Some v \<Rightarrow> if p k v then Some v else None)"
proof (induction m)
  case Nil
  then show ?case by simp
next
  case (Cons a m)
  obtain k' v where a: "a = (k', v)" by (cases a)
  from Cons.prems a have fresh: "map_of m k' = None" and "distinct (map fst m)"
    by (auto simp: map_of_eq_None_iff)
  with Cons.IH a show ?case by (auto split: option.splits)
qed

lemma hm_update_length:
  "length (AList.update k v m) = (if map_of m k = None then Suc (length m) else length m)"
  by (induction m) auto

interpretation hm: hash_map "[]" hm_get hm_insert hm_remove hm_retain hm_len hm_ok
proof unfold_locales
  fix m :: "('k, 'v) hmap" and p k
  show "hm_ok m \<Longrightarrow> hm_ok (hm_retain p m)"
    by (induction m) (auto simp: hm_ok_def hm_retain_def)
qed (auto simp: hm_get_def hm_insert_def hm_remove_def hm_retain_def hm_len_def hm_ok_def
      update_conv' delete_conv' distinct_update distinct_delete hm_update_length
      hm_delete_length hm_filter_lookup)

lemmas hm_laws [hm_simps] =
  hm.get_empty hm.get_ins hm.get_rem hm.get_retain hm.inv_empty hm.inv_ins hm.inv_rem
  hm.inv_retain hm.len_ins hm.len_rem

subsection \<open>Sets as duplicate-free lists\<close>

type_synonym 'a hset = "'a list"

definition hs_contains :: "'a hset \<Rightarrow> 'a \<Rightarrow> bool" where
  "hs_contains s x = (x \<in> set s)"

definition hs_insert :: "'a \<Rightarrow> 'a hset \<Rightarrow> 'a hset" where
  "hs_insert x s = (if x \<in> set s then s else s @ [x])"

definition hs_of_list :: "'a list \<Rightarrow> 'a hset" where
  "hs_of_list xs = foldl (\<lambda>s x. hs_insert x s) [] xs"

lemma hs_contains_insert [hm_simps]:
  "hs_contains (hs_insert x s) y \<longleftrightarrow> y = x \<or> hs_contains s y"
  by (auto simp: hs_contains_def hs_insert_def)

lemma set_hs_insert [simp]: "set (hs_insert x s) = insert x (set s)"
  by (auto simp: hs_insert_def)

lemma set_foldl_hs_insert: "set (foldl (\<lambda>s x. hs_insert x s) s xs) = set s \<union> set xs"
  by (induction xs arbitrary: s) auto

lemma hs_contains_of_list [hm_simps]: "hs_contains (hs_of_list xs) y \<longleftrightarrow> y \<in> set xs"
  by (simp add: hs_contains_def hs_of_list_def set_foldl_hs_insert)

lemma distinct_hs_insert: "distinct s \<Longrightarrow> distinct (hs_insert x s)"
  by (simp add: hs_insert_def)

lemma set_map_filter: "y \<in> set (List.map_filter f xs) \<longleftrightarrow> (\<exists>x\<in>set xs. f x = Some y)"
  by (induction xs) (auto simp: map_filter_simps split: option.splits)

lemma filter_range_slice:
  assumes "\<And>k. k < length xs \<Longrightarrow> key (xs ! k) = k"
  shows "filter (\<lambda>x. lo \<le> key x \<and> key x \<le> hi) xs = take (Suc hi - lo) (drop lo xs)"
  using assms
proof (induction xs rule: rev_induct)
  case (snoc x xs)
  have "key x = length xs" using snoc.prems [of "length xs"] by simp
  moreover have "filter (\<lambda>x. lo \<le> key x \<and> key x \<le> hi) xs = take (Suc hi - lo) (drop lo xs)"
    using snoc.prems by (intro snoc.IH) (metis length_append_singleton less_SucI nth_append)
  ultimately show ?case
    by (auto simp: take_Cons' not_le less_Suc_eq_le)
qed simp

text \<open>The position of the first element that satisfies a predicate.\<close>

fun find_index :: "('a \<Rightarrow> bool) \<Rightarrow> 'a list \<Rightarrow> nat option" where
  "find_index p [] = None"
| "find_index p (x # xs) = (if p x then Some 0 else map_option Suc (find_index p xs))"

lemma find_index_Some: "find_index p xs = Some i \<Longrightarrow> i < length xs \<and> p (xs ! i)"
  by (induction xs arbitrary: i) (auto split: if_splits)

lemma find_index_None: "find_index p xs = None \<longleftrightarrow> (\<forall>x\<in>set xs. \<not> p x)"
  by (induction xs) auto

end
