(* ===== verification/RustStr.thy ===== *)
theory RustStr
  imports Prelude "HOL-Library.Sublist" "HOL-Library.Char_ord" "HOL-Library.List_Lexorder"
begin

text \<open>
  The parts of \<open>str\<close> and \<open>String\<close> the sources use. A \<open>str\<close> is the list of its UTF-8 bytes
  (Isabelle's \<open>char\<close> is a byte), so \<open>len()\<close> is \<open>length\<close>; the Unicode scalar values are the
  groups of a lead byte with its continuation bytes (\<open>utf8_chars\<close>).
\<close>

subsection \<open>Scalar values and white space\<close>

definition char_code :: "char \<Rightarrow> nat" where
  "char_code c = of_char c"

definition is_cont :: "char \<Rightarrow> bool" where
  "is_cont c \<longleftrightarrow> 128 \<le> char_code c \<and> char_code c < 192"

function utf8_chars :: "string \<Rightarrow> string list" where
  "utf8_chars [] = []"
| "utf8_chars (c # cs) = (c # takeWhile is_cont cs) # utf8_chars (dropWhile is_cont cs)"
  by pat_completeness auto
termination
  by (relation "measure length") (auto simp: le_imp_less_Suc length_dropWhile_le)

lemma concat_utf8_chars [simp]: "concat (utf8_chars s) = s"
  by (induction s rule: utf8_chars.induct) auto

lemma utf8_chars_eq_Nil [simp]: "utf8_chars s = [] \<longleftrightarrow> s = []"
  by (cases s) auto

lemma length_utf8_chars_le: "length (utf8_chars s) \<le> length s"
proof (induction s rule: utf8_chars.induct)
  case (2 c cs)
  have "length (dropWhile is_cont cs) \<le> length cs" by (rule length_dropWhile_le)
  with 2 show ?case by simp
qed simp

definition is_ascii :: "string \<Rightarrow> bool" where
  "is_ascii s = list_all (\<lambda>c. char_code c < 128) s"

lemma utf8_chars_ascii: "is_ascii s \<Longrightarrow> utf8_chars s = map (\<lambda>c. [c]) s"
proof (induction s)
  case (Cons c cs)
  then have asc: "is_ascii cs" by (simp add: is_ascii_def)
  then have tw: "takeWhile is_cont cs = []" and dw: "dropWhile is_cont cs = cs"
    by (cases cs; simp add: is_ascii_def is_cont_def)+
  with Cons.IH asc show ?case by simp
qed simp

definition byte :: "nat \<Rightarrow> char" where
  "byte n = char_of n"

definition white_space :: "string list" where
  "white_space =
    map (\<lambda>n. [byte n]) [9, 10, 11, 12, 13, 32]
    @ map (\<lambda>n. [byte 194, byte n]) [133, 160]
    @ [[byte 225, byte 154, byte 128]]
    @ map (\<lambda>n. [byte 226, byte 128, byte n])
        [128, 129, 130, 131, 132, 133, 134, 135, 136, 137, 138, 168, 169, 175]
    @ [[byte 226, byte 129, byte 159], [byte 227, byte 128, byte 128]]"

definition is_whitespace :: "string \<Rightarrow> bool" where
  "is_whitespace g \<longleftrightarrow> g \<in> set white_space"

definition trim :: "string \<Rightarrow> string" where
  "trim s = concat (rev (dropWhile is_whitespace (rev (dropWhile is_whitespace (utf8_chars s)))))"

subsection \<open>Splitting\<close>

fun split_by :: "('a \<Rightarrow> bool) \<Rightarrow> 'a list \<Rightarrow> 'a list list" where
  "split_by p [] = [[]]"
| "split_by p (x # xs) =
    (if p x then [] # split_by p xs
     else (case split_by p xs of [] \<Rightarrow> [[x]] | y # ys \<Rightarrow> (x # y) # ys))"

lemma split_by_not_Nil [simp]: "split_by p xs \<noteq> []"
  by (cases xs) (auto split: list.splits)

lemma split_by_concat: "concat (split_by p xs) = filter (\<lambda>x. \<not> p x) xs"
  by (induction xs) (auto split: list.splits)

lemma split_by_no_sep: "\<forall>x\<in>set xs. \<not> p x \<Longrightarrow> split_by p xs = [xs]"
  by (induction xs) auto

lemma split_by_parts: "ys \<in> set (split_by p xs) \<Longrightarrow> x \<in> set ys \<Longrightarrow> \<not> p x \<and> x \<in> set xs"
proof (induction xs arbitrary: ys)
  case (Cons a xs)
  then show ?case by (fastforce split: if_splits list.splits)
qed simp

lemma length_split_by: "length (split_by p xs) = Suc (length (filter p xs))"
  by (induction xs) (auto split: list.splits)

definition split_char :: "char \<Rightarrow> string \<Rightarrow> string list" where
  "split_char c s = split_by (\<lambda>x. x = c) s"

definition split_whitespace :: "string \<Rightarrow> string list" where
  "split_whitespace s = filter (\<lambda>w. w \<noteq> []) (map concat (split_by is_whitespace (utf8_chars s)))"

lemma split_whitespace_nonempty: "w \<in> set (split_whitespace s) \<Longrightarrow> w \<noteq> []"
  by (simp add: split_whitespace_def)

definition newline :: char where "newline = byte 10"
definition carriage_return :: char where "carriage_return = byte 13"

definition strip_cr :: "string \<Rightarrow> string" where
  "strip_cr l = (if l \<noteq> [] \<and> last l = carriage_return then butlast l else l)"

definition lines :: "string \<Rightarrow> string list" where
  "lines s = (let ps = split_char newline s
     in map strip_cr (butlast ps) @ (if last ps = [] then [] else [last ps]))"

fun split_once :: "char \<Rightarrow> string \<Rightarrow> (string \<times> string) option" where
  "split_once c [] = None"
| "split_once c (x # xs) =
    (if x = c then Some ([], xs) else map_option (\<lambda>(a, b). (x # a, b)) (split_once c xs))"

definition rsplit_once :: "char \<Rightarrow> string \<Rightarrow> (string \<times> string) option" where
  "rsplit_once c s = map_option (\<lambda>(a, b). (rev b, rev a)) (split_once c (rev s))"

lemma split_once_None: "split_once c s = None \<longleftrightarrow> c \<notin> set s"
  by (induction s) auto

lemma split_once_Some: "split_once c s = Some (a, b) \<longleftrightarrow> s = a @ c # b \<and> c \<notin> set a"
proof (induction s arbitrary: a)
  case (Cons x xs)
  show ?case
  proof (cases "x = c")
    case True
    then show ?thesis by (cases a) auto
  next
    case False
    with Cons show ?thesis by (cases a) auto
  qed
qed simp

lemma rsplit_once_None: "rsplit_once c s = None \<longleftrightarrow> c \<notin> set s"
  by (simp add: rsplit_once_def split_once_None)

lemma rsplit_once_Some: "rsplit_once c s = Some (a, b) \<longleftrightarrow> s = a @ c # b \<and> c \<notin> set b"
proof -
  have "rsplit_once c s = Some (a, b) \<longleftrightarrow> split_once c (rev s) = Some (rev b, rev a)"
    by (auto simp: rsplit_once_def)
  also have "\<dots> \<longleftrightarrow> rev s = rev b @ c # rev a \<and> c \<notin> set b"
    by (simp add: split_once_Some)
  also have "rev s = rev b @ c # rev a \<longleftrightarrow> s = a @ c # b"
    by (metis append.assoc append_Cons append_Nil rev_append rev_rev_ident rev_singleton_conv
        rev.simps(2))
  finally show ?thesis .
qed

subsection \<open>Searching\<close>

definition starts_with :: "string \<Rightarrow> string \<Rightarrow> bool" where
  "starts_with s p = prefix p s"

definition ends_with :: "string \<Rightarrow> string \<Rightarrow> bool" where
  "ends_with s p = suffix p s"

definition strip_prefix :: "string \<Rightarrow> string \<Rightarrow> string option" where
  "strip_prefix s p = (if prefix p s then Some (drop (length p) s) else None)"

lemma strip_prefix_Some: "strip_prefix s p = Some r \<longleftrightarrow> s = p @ r"
  by (auto simp: strip_prefix_def prefix_def)

fun contains :: "string \<Rightarrow> string \<Rightarrow> bool" where
  "contains [] p = (p = [])"
| "contains (c # cs) p = (prefix p (c # cs) \<or> contains cs p)"

lemma contains_sublist: "contains s p \<longleftrightarrow> sublist p s"
  by (induction s) (auto simp: sublist_Cons_right)

lemma contains_iff: "contains s p \<longleftrightarrow> (\<exists>a b. s = a @ p @ b)"
  by (simp add: contains_sublist sublist_def)

definition trim_end_char :: "char \<Rightarrow> string \<Rightarrow> string" where
  "trim_end_char c s = rev (dropWhile (\<lambda>x. x = c) (rev s))"

lemma trim_end_char_id: "s = [] \<or> last s \<noteq> c \<Longrightarrow> trim_end_char c s = s"
  by (cases s rule: rev_cases) (auto simp: trim_end_char_def)

definition join :: "string \<Rightarrow> string list \<Rightarrow> string" where
  "join sep xs = (case xs of [] \<Rightarrow> [] | y # ys \<Rightarrow> y @ concat (map (\<lambda>z. sep @ z) ys))"

subsection \<open>Decimal numbers\<close>

definition digit_char :: "nat \<Rightarrow> char" where
  "digit_char d = char_of (48 + d)"

definition digit_val :: "char \<Rightarrow> nat option" where
  "digit_val c = (if 48 \<le> char_code c \<and> char_code c \<le> 57 then Some (char_code c - 48) else None)"

fun show_nat :: "nat \<Rightarrow> string" where
  "show_nat n = (if n < 10 then [digit_char n] else show_nat (n div 10) @ [digit_char (n mod 10)])"

declare show_nat.simps [simp del]

fun digits_val :: "nat \<Rightarrow> string \<Rightarrow> nat option" where
  "digits_val acc [] = Some acc"
| "digits_val acc (c # cs) =
    (case digit_val c of None \<Rightarrow> None | Some d \<Rightarrow> digits_val (10 * acc + d) cs)"

text \<open>
  \<open>str::parse\<close> for an unsigned type with the given largest value: an optional \<open>+\<close>, then at least one
  decimal digit and nothing else; a value above the maximum is an error. (The library stops at the
  first step that overflows, which happens exactly when the whole value is too large.)
\<close>

definition parse_unsigned :: "nat \<Rightarrow> string \<Rightarrow> nat option" where
  "parse_unsigned mx s =
    (let ds = (case s of c # cs \<Rightarrow> if c = CHR ''+'' then cs else s | [] \<Rightarrow> [])
     in if ds = [] then None
        else (case digits_val 0 ds of None \<Rightarrow> None | Some v \<Rightarrow> if v \<le> mx then Some v else None))"

lemma digit_val_digit_char: "d < 10 \<Longrightarrow> digit_val (digit_char d) = Some d"
  by (simp add: digit_val_def digit_char_def char_code_def)

lemma digits_val_append:
  "digits_val acc (xs @ ys) =
    (case digits_val acc xs of None \<Rightarrow> None | Some v \<Rightarrow> digits_val v ys)"
  by (induction xs arbitrary: acc) (auto split: option.splits)

lemma digits_val_show_nat: "digits_val 0 (show_nat n) = Some n"
proof (induction n rule: show_nat.induct)
  case (1 n)
  then show ?case
    by (cases "n < 10")
      (simp_all add: show_nat.simps [of n] digits_val_append digit_val_digit_char)
qed

lemma show_nat_digits: "c \<in> set (show_nat n) \<Longrightarrow> \<exists>d<10. c = digit_char d"
proof (induction n rule: show_nat.induct)
  case (1 n)
  show ?case
  proof (cases "n < 10")
    case True
    with "1.prems" show ?thesis by (auto simp: show_nat.simps [of n])
  next
    case False
    with "1.prems" consider "c \<in> set (show_nat (n div 10))" | "c = digit_char (n mod 10)"
      by (auto simp: show_nat.simps [of n])
    then show ?thesis
    proof cases
      case 1
      with "1.IH" [OF False] show ?thesis by blast
    next
      case 2
      then show ?thesis by (intro exI [of _ "n mod 10"]) simp
    qed
  qed
qed

lemma show_nat_not_Nil [simp]: "show_nat n \<noteq> []"
  by (subst show_nat.simps) simp

lemma digit_char_ne: "d < 10 \<Longrightarrow> char_code c < 48 \<or> 57 < char_code c \<Longrightarrow> digit_char d \<noteq> c"
  by (auto simp: digit_char_def char_code_def)

lemma show_nat_no_char: "char_code c < 48 \<or> 57 < char_code c \<Longrightarrow> c \<notin> set (show_nat n)"
  using show_nat_digits digit_char_ne by metis

lemma parse_unsigned_show_nat: "n \<le> mx \<Longrightarrow> parse_unsigned mx (show_nat n) = Some n"
proof -
  assume le: "n \<le> mx"
  obtain c cs where s: "show_nat n = c # cs" by (cases "show_nat n") auto
  have "CHR ''+'' \<notin> set (show_nat n)"
    by (rule show_nat_no_char) (simp add: char_code_def)
  with s have "c \<noteq> CHR ''+''" by auto
  with s le digits_val_show_nat [of n] show ?thesis
    by (simp add: parse_unsigned_def)
qed

lemma parse_unsigned_le: "parse_unsigned mx s = Some v \<Longrightarrow> v \<le> mx"
  by (auto simp: parse_unsigned_def Let_def split: if_splits option.splits)

lemma show_nat_inject: "show_nat m = show_nat n \<longleftrightarrow> m = n"
  by (metis digits_val_show_nat option.inject)

subsection \<open>Lossy decoding\<close>

text \<open>
  \<open>String::from_utf8_lossy\<close>: \<open>utf8_step\<close> gives, for the bytes at a position, how many belong to the next
  well-formed scalar value or to the longest ill-formed prefix, and whether it is well-formed; every
  ill-formed prefix becomes one U+FFFD.
\<close>

definition in_range :: "nat \<Rightarrow> nat \<Rightarrow> string \<Rightarrow> bool" where
  "in_range lo hi s = (case s of [] \<Rightarrow> False | c # _ \<Rightarrow> lo \<le> char_code c \<and> char_code c \<le> hi)"

definition utf8_second :: "nat \<Rightarrow> nat \<times> nat" where
  "utf8_second b = (if b = 224 then (160, 191) else if b = 237 then (128, 159)
     else if b = 240 then (144, 191) else if b = 244 then (128, 143) else (128, 191))"

definition utf8_step :: "char \<Rightarrow> string \<Rightarrow> nat \<times> bool" where
  "utf8_step c s =
    (let b = char_code c; (lo, hi) = utf8_second b in
     if b < 128 then (1, True)
     else if 194 \<le> b \<and> b \<le> 223 then (if in_range 128 191 s then (2, True) else (1, False))
     else if 224 \<le> b \<and> b \<le> 239 then
       (if \<not> in_range lo hi s then (1, False)
        else if \<not> in_range 128 191 (drop 1 s) then (2, False) else (3, True))
     else if 240 \<le> b \<and> b \<le> 244 then
       (if \<not> in_range lo hi s then (1, False)
        else if \<not> in_range 128 191 (drop 1 s) then (2, False)
        else if \<not> in_range 128 191 (drop 2 s) then (3, False) else (4, True))
     else (1, False))"

function from_utf8_lossy :: "string \<Rightarrow> string" where
  "from_utf8_lossy [] = []"
| "from_utf8_lossy (c # cs) =
    (let (n, valid) = utf8_step c cs
     in (if valid then take n (c # cs) else [byte 239, byte 191, byte 189])
        @ from_utf8_lossy (drop (n - 1) cs))"
  by pat_completeness auto
termination
  by (relation "measure length") (auto simp: le_imp_less_Suc)

lemma utf8_step_ascii: "char_code c < 128 \<Longrightarrow> utf8_step c s = (1, True)"
  by (simp add: utf8_step_def Let_def split: prod.splits)

lemma from_utf8_lossy_ascii: "is_ascii s \<Longrightarrow> from_utf8_lossy s = s"
  by (induction s) (simp_all add: is_ascii_def utf8_step_ascii)

lemma is_ascii_append [simp]: "is_ascii (a @ b) \<longleftrightarrow> is_ascii a \<and> is_ascii b"
  by (simp add: is_ascii_def)

lemma show_nat_ascii: "is_ascii (show_nat n)"
proof -
  have "char_code c < 128" if "c \<in> set (show_nat n)" for c
    using show_nat_digits [OF that] by (auto simp: digit_char_def char_code_def)
  then show ?thesis by (simp add: is_ascii_def list_all_iff)
qed

subsection \<open>Words of an ASCII line\<close>

definition ascii_ws :: "char \<Rightarrow> bool" where
  "ascii_ws c \<longleftrightarrow> char_code c \<in> {9, 10, 11, 12, 13, 32}"

lemma is_whitespace_single:
  "char_code c < 128 \<Longrightarrow> is_whitespace [c] \<longleftrightarrow> ascii_ws c"
proof -
  have "c = byte n \<longleftrightarrow> char_code c = n" if "n < 128" for n
    using that by (auto simp: byte_def char_code_def)
  then show ?thesis by (auto simp: is_whitespace_def white_space_def ascii_ws_def)
qed

lemma split_by_map: "split_by p (map f xs) = map (map f) (split_by (p \<circ> f) xs)"
  by (induction xs) (auto split: list.splits)

lemma split_by_cong: "(\<And>x. x \<in> set xs \<Longrightarrow> p x = q x) \<Longrightarrow> split_by p xs = split_by q xs"
  by (induction xs) (auto split: list.splits)

lemma split_whitespace_ascii:
  assumes "is_ascii s"
  shows "split_whitespace s = filter (\<lambda>w. w \<noteq> []) (split_by ascii_ws s)"
proof -
  have "split_by (is_whitespace \<circ> (\<lambda>c. [c])) s = split_by ascii_ws s"
    using assms by (intro split_by_cong) (simp add: is_ascii_def list_all_iff is_whitespace_single)
  moreover have "concat \<circ> map (\<lambda>c. [c]) = (\<lambda>w. w :: string)" by (auto simp: fun_eq_iff)
  ultimately show ?thesis
    using assms by (simp add: split_whitespace_def utf8_chars_ascii split_by_map comp_def)
qed

lemma split_by_append_sep:
  "p x \<Longrightarrow> split_by p (xs @ x # ys) = split_by p xs @ split_by p ys"
proof (induction xs)
  case (Cons a xs)
  then show ?case by (auto split: list.splits)
qed simp

lemma length_show_nat: "n < 10 ^ Suc k \<Longrightarrow> length (show_nat n) \<le> Suc k"
proof (induction n arbitrary: k rule: show_nat.induct)
  case (1 n)
  show ?case
  proof (cases "n < 10")
    case False
    with 1 have "0 < k" by (cases k) auto
    then obtain j where k: "k = Suc j" by (cases k) auto
    with 1 False have "length (show_nat (n div 10)) \<le> Suc j" by simp
    with False k show ?thesis by (subst show_nat.simps) simp
  qed (subst show_nat.simps, simp)
qed

lemma length_show_nat_u16: "length (show_nat (unat (w :: u16))) \<le> 5"
  using length_show_nat [of "unat w" 4] unsigned_less [of w, where 'a = nat] by simp

lemma control_chars: "newline = CHR 0x0A" "carriage_return = CHR 0x0D"
  by code_simp+

lemma digit_char_simps:
  "digit_char 0 = CHR ''0''" "digit_char 1 = CHR ''1''" "digit_char (Suc 0) = CHR ''1''"
  "digit_char 2 = CHR ''2''"
  "digit_char 3 = CHR ''3''" "digit_char 4 = CHR ''4''" "digit_char 5 = CHR ''5''"
  "digit_char 6 = CHR ''6''" "digit_char 7 = CHR ''7''" "digit_char 8 = CHR ''8''"
  "digit_char 9 = CHR ''9''"
  by code_simp+

lemmas show_nat_eval = show_nat.simps digit_char_simps

lemma lines_Cons:
  assumes "newline \<notin> set l"
  shows "lines (l @ newline # rest) = strip_cr l # lines rest"
proof -
  have "split_by (\<lambda>x. x = newline) l = [l]" using assms by (intro split_by_no_sep) auto
  then have "split_char newline (l @ newline # rest) = l # split_char newline rest"
    by (simp add: split_char_def split_by_append_sep)
  moreover have "split_char newline rest \<noteq> []" by (simp add: split_char_def)
  ultimately show ?thesis by (simp add: lines_def Let_def)
qed

text \<open>A word: non-empty ASCII without white space.\<close>

definition plain_word :: "string \<Rightarrow> bool" where
  "plain_word w \<longleftrightarrow> w \<noteq> [] \<and> list_all (\<lambda>c. char_code c < 128 \<and> \<not> ascii_ws c) w"

lemma plain_word_split: "plain_word w \<Longrightarrow> split_by ascii_ws w = [w]"
  by (intro split_by_no_sep) (auto simp: plain_word_def list_all_iff)

lemma join_simps [simp]:
  "join sep [] = []" "join sep [x] = x" "join sep (x # y # ys) = x @ sep @ join sep (y # ys)"
  by (simp_all add: join_def)

lemma split_by_join_words:
  assumes "ws \<noteq> []" and "list_all plain_word ws"
  shows "split_by ascii_ws (join '' '' ws) = ws"
  using assms
proof (induction ws rule: induct_list012)
  case (3 x y ys)
  have "ascii_ws (CHR '' '')" by (simp add: ascii_ws_def char_code_def)
  with 3 show ?case
    by (simp add: split_by_append_sep [of ascii_ws "CHR '' ''"] plain_word_split)
qed (simp_all add: plain_word_split)

lemma plain_word_ascii: "plain_word w \<Longrightarrow> is_ascii w"
  by (auto simp: plain_word_def is_ascii_def list_all_iff)

lemma join_words_ascii: "list_all plain_word ws \<Longrightarrow> is_ascii (join '' '' ws)"
proof (induction ws rule: induct_list012)
  case (3 x y ys)
  have "is_ascii (CHR '' '' # l) = is_ascii l" for l by (simp add: is_ascii_def char_code_def)
  with 3 plain_word_ascii show ?case by simp
qed (simp_all add: plain_word_ascii, simp add: is_ascii_def)

lemma split_whitespace_join:
  assumes "ws \<noteq> []" and "list_all plain_word ws"
  shows "split_whitespace (join '' '' ws) = ws"
proof -
  have "filter (\<lambda>w. w \<noteq> []) ws = ws"
    using assms(2) by (intro filter_True) (auto simp: plain_word_def list_all_iff)
  then show ?thesis
    by (simp add: split_whitespace_ascii [OF join_words_ascii [OF assms(2)]] split_by_join_words [OF assms])
qed

text \<open>
  \<open>str::replace\<close>: every non-overlapping occurrence, from the left; an empty pattern matches before,
  between and after the characters.
\<close>

function replace_from :: "string \<Rightarrow> string \<Rightarrow> string \<Rightarrow> string" where
  "replace_from pat to s =
    (if pat = [] \<or> s = [] then s
     else if prefix pat s then to @ replace_from pat to (drop (length pat) s)
     else hd s # replace_from pat to (tl s))"
  by pat_completeness auto
termination by (relation "measure (\<lambda>(_, _, s). length s)") (auto simp: neq_Nil_conv)

declare replace_from.simps [simp del]

definition str_replace :: "string \<Rightarrow> string \<Rightarrow> string \<Rightarrow> string" where
  "str_replace pat to s = (if pat = [] then to @ concat (map (\<lambda>c. c @ to) (utf8_chars s)) else replace_from pat to s)"

lemma str_replace_absent: "pat \<noteq> [] \<Longrightarrow> \<not> contains s pat \<Longrightarrow> str_replace pat to s = s"
proof -
  assume pat: "pat \<noteq> []" "\<not> contains s pat"
  then have "replace_from pat to s = s"
  proof (induction pat to s rule: replace_from.induct)
    case (1 pat to s)
    then show ?case by (cases s) (simp_all add: replace_from.simps [of pat to "_ # _"] replace_from.simps [of pat to "[]"])
  qed
  with pat show ?thesis by (simp add: str_replace_def)
qed

definition show_int :: "int \<Rightarrow> string" where
  "show_int i = (if i < 0 then CHR ''-'' # show_nat (nat (- i)) else show_nat (nat i))"

text \<open>Lower-case hexadecimal, two digits per byte.\<close>

definition hex_digit :: "nat \<Rightarrow> char" where
  "hex_digit d = (if d < 10 then char_of (48 + d) else char_of (87 + d))"

definition to_hex :: "string \<Rightarrow> string" where
  "to_hex bs = concat (map (\<lambda>b. [hex_digit (char_code b div 16), hex_digit (char_code b mod 16)]) bs)"

subsection \<open>Letter case\<close>

definition ascii_lower :: "char \<Rightarrow> char" where
  "ascii_lower c = (if 65 \<le> char_code c \<and> char_code c \<le> 90 then char_of (char_code c + 32) else c)"

definition to_ascii_lowercase :: "string \<Rightarrow> string" where
  "to_ascii_lowercase s = map ascii_lower s"

text \<open>
  \<open>str::to_lowercase\<close>: ASCII letters as above; \<open>uni\<close> is the Unicode table for the other scalar values, given the text
  and the position (one rule depends on the context).
\<close>

type_synonym lower_table = "string list \<Rightarrow> nat \<Rightarrow> string"

definition lower_at :: "lower_table \<Rightarrow> string list \<Rightarrow> nat \<Rightarrow> string" where
  "lower_at uni gs i = (case gs ! i of [c] \<Rightarrow> if char_code c < 128 then [ascii_lower c] else uni gs i | _ \<Rightarrow> uni gs i)"

definition to_lowercase :: "lower_table \<Rightarrow> string \<Rightarrow> string" where
  "to_lowercase uni s = (let gs = utf8_chars s in concat (map (lower_at uni gs) [0..<length gs]))"

lemma to_lowercase_ascii:
  assumes "is_ascii s" shows "to_lowercase uni s = to_ascii_lowercase s"
proof -
  have "map (lower_at uni (map (\<lambda>c. [c]) s)) [0..<length s] = map (\<lambda>i. [ascii_lower (s ! i)]) [0..<length s]"
    using assms by (auto simp: lower_at_def is_ascii_def list_all_length)
  also have "\<dots> = map (\<lambda>c. [ascii_lower c]) s" by (rule nth_equalityI) simp_all
  finally show ?thesis
    using assms by (simp add: to_lowercase_def Let_def utf8_chars_ascii to_ascii_lowercase_def)
qed

end
