(* ===== verification/Floats.thy ===== *)
theory Floats
  imports Prelude Complex_Main "HOL-Library.Log_Nat"
begin

text \<open>
  IEEE 754 binary floating point as the sources use it (\<open>f32\<close>, \<open>f64\<close>): a value is NaN, an
  infinity or a finite number, kept as the rational it denotes (the two zeros are identified: no
  modelled operation tells them apart). An arithmetic operation is the exact rational result rounded
  to nearest, ties to even (\<open>fp_round\<close>), with gradual underflow and overflow to infinity.

  The lemmas are the ones the clients need: rounding is monotone and leaves representable
  numbers unchanged, so adding a non-negative number never decreases a value and addition is
  monotone (the law the path search relies on), and the rounding error is at most half a unit in the
  last place.
\<close>

datatype flt = NaN | NInf | PInf | Fin rat

type_synonym f32 = flt
type_synonym f64 = flt

subsection \<open>Rounding\<close>

definition round_half_even :: "rat \<Rightarrow> int" where
  "round_half_even q =
    (let f = \<lfloor>q\<rfloor>; r = q - of_int f
     in if r < 1 / 2 then f else if 1 / 2 < r then f + 1 else if even f then f else f + 1)"

definition bexp :: "rat \<Rightarrow> int" where
  "bexp x =
    (let (n, d) = quotient_of x;
         e = int (floorlog 2 (nat n)) - int (floorlog 2 (nat d))
     in if 2 powi e \<le> x then e else e - 1)"

definition fp_ulp :: "nat \<Rightarrow> int \<Rightarrow> rat \<Rightarrow> rat" where
  "fp_ulp p emin x = 2 powi (max (bexp \<bar>x\<bar>) emin - int p + 1)"

definition fp_near :: "nat \<Rightarrow> int \<Rightarrow> rat \<Rightarrow> rat" where
  "fp_near p emin x =
    (if x = 0 then 0 else of_int (round_half_even (x / fp_ulp p emin x)) * fp_ulp p emin x)"

definition fp_round :: "nat \<Rightarrow> int \<Rightarrow> int \<Rightarrow> rat \<Rightarrow> flt" where
  "fp_round p emin emax x =
    (let r = fp_near p emin x
     in if 2 powi (emax + 1) \<le> r then PInf else if r \<le> - (2 powi (emax + 1)) then NInf else Fin r)"

definition round32 :: "rat \<Rightarrow> f32" where
  "round32 x = fp_round 24 (-126) 127 x"

definition round64 :: "rat \<Rightarrow> f64" where
  "round64 x = fp_round 53 (-1022) 1023 x"

subsection \<open>Comparison and arithmetic\<close>

text \<open>\<open>flt_le\<close> and \<open>flt_less\<close> are Rust's \<open><=\<close> and \<open><\<close>: false when an operand is NaN.\<close>

fun flt_le :: "flt \<Rightarrow> flt \<Rightarrow> bool" where
  "flt_le NaN _ = False"
| "flt_le _ NaN = False"
| "flt_le NInf _ = True"
| "flt_le _ PInf = True"
| "flt_le (Fin a) (Fin b) = (a \<le> b)"
| "flt_le _ _ = False"

definition flt_eq :: "flt \<Rightarrow> flt \<Rightarrow> bool" where
  "flt_eq a b \<longleftrightarrow> flt_le a b \<and> flt_le b a"

definition flt_less :: "flt \<Rightarrow> flt \<Rightarrow> bool" where
  "flt_less a b \<longleftrightarrow> flt_le a b \<and> \<not> flt_le b a"

fun flt_add :: "(rat \<Rightarrow> flt) \<Rightarrow> flt \<Rightarrow> flt \<Rightarrow> flt" where
  "flt_add rnd NaN _ = NaN"
| "flt_add rnd _ NaN = NaN"
| "flt_add rnd PInf NInf = NaN"
| "flt_add rnd NInf PInf = NaN"
| "flt_add rnd PInf _ = PInf"
| "flt_add rnd NInf _ = NInf"
| "flt_add rnd (Fin _) PInf = PInf"
| "flt_add rnd (Fin _) NInf = NInf"
| "flt_add rnd (Fin a) (Fin b) = rnd (a + b)"

definition flt_sgn_inf :: "bool \<Rightarrow> flt" where
  "flt_sgn_inf pos = (if pos then PInf else NInf)"

fun flt_mul :: "(rat \<Rightarrow> flt) \<Rightarrow> flt \<Rightarrow> flt \<Rightarrow> flt" where
  "flt_mul rnd NaN _ = NaN"
| "flt_mul rnd _ NaN = NaN"
| "flt_mul rnd (Fin a) (Fin b) = rnd (a * b)"
| "flt_mul rnd (Fin a) PInf = (if a = 0 then NaN else flt_sgn_inf (0 < a))"
| "flt_mul rnd (Fin a) NInf = (if a = 0 then NaN else flt_sgn_inf (a < 0))"
| "flt_mul rnd PInf (Fin a) = (if a = 0 then NaN else flt_sgn_inf (0 < a))"
| "flt_mul rnd NInf (Fin a) = (if a = 0 then NaN else flt_sgn_inf (a < 0))"
| "flt_mul rnd PInf PInf = PInf"
| "flt_mul rnd PInf NInf = NInf"
| "flt_mul rnd NInf PInf = NInf"
| "flt_mul rnd NInf NInf = PInf"

fun flt_div :: "(rat \<Rightarrow> flt) \<Rightarrow> flt \<Rightarrow> flt \<Rightarrow> flt" where
  "flt_div rnd NaN _ = NaN"
| "flt_div rnd _ NaN = NaN"
| "flt_div rnd (Fin a) (Fin b) =
    (if b = 0 then (if a = 0 then NaN else flt_sgn_inf (0 < a)) else rnd (a / b))"
| "flt_div rnd (Fin a) PInf = Fin 0"
| "flt_div rnd (Fin a) NInf = Fin 0"
| "flt_div rnd PInf (Fin b) = flt_sgn_inf (0 \<le> b)"
| "flt_div rnd NInf (Fin b) = flt_sgn_inf (b < 0)"
| "flt_div rnd PInf PInf = NaN"
| "flt_div rnd PInf NInf = NaN"
| "flt_div rnd NInf PInf = NaN"
| "flt_div rnd NInf NInf = NaN"

text \<open>Division by a zero takes the zero as positive; no modelled divisor is a negative zero.\<close>

definition f32_of_nat :: "nat \<Rightarrow> f32" where
  "f32_of_nat n = round32 (of_nat n)"

definition f64_of_nat :: "nat \<Rightarrow> f64" where
  "f64_of_nat n = round64 (of_nat n)"

text \<open>\<open>f32::max\<close> returns the other operand when one is NaN.\<close>

definition flt_max :: "flt \<Rightarrow> flt \<Rightarrow> flt" where
  "flt_max a b = (if a = NaN then b else if b = NaN then a else if flt_le a b then b else a)"

text \<open>
  \<open>f64::round\<close> goes to the nearest integer, ties away from zero; \<open>clamp\<close> keeps NaN; \<open>as u32\<close>
  truncates and saturates, NaN to zero.
\<close>

definition f64_round :: "f64 \<Rightarrow> f64" where
  "f64_round v = (case v of Fin q \<Rightarrow> Fin (of_int (if 0 \<le> q then \<lfloor>q + 1 / 2\<rfloor> else \<lceil>q - 1 / 2\<rceil>)) | _ \<Rightarrow> v)"

definition f64_clamp :: "f64 \<Rightarrow> f64 \<Rightarrow> f64 \<Rightarrow> f64" where
  "f64_clamp lo hi v = (let w = (if flt_less v lo then lo else v) in if flt_less hi w then hi else w)"

definition f64_as_u32 :: "f64 \<Rightarrow> u32" where
  "f64_as_u32 v = (case v of NaN \<Rightarrow> 0 | NInf \<Rightarrow> 0 | PInf \<Rightarrow> -1
     | Fin q \<Rightarrow> if q < 0 then 0 else if 2 ^ 32 - 1 \<le> q then -1 else of_int \<lfloor>q\<rfloor>)"

subsection \<open>Rounding to an integer\<close>

lemma round_half_even_of_int [simp]: "round_half_even (of_int z) = z"
  by (simp add: round_half_even_def)

lemma round_half_even_near: "\<bar>of_int (round_half_even q) - q\<bar> \<le> 1 / 2"
proof -
  have "of_int \<lfloor>q\<rfloor> \<le> q" and "q < of_int \<lfloor>q\<rfloor> + 1" by linarith+
  then show ?thesis
    by (auto simp: round_half_even_def Let_def)
qed

lemma round_half_even_mono:
  assumes "x \<le> y" shows "round_half_even x \<le> round_half_even y"
proof (cases "\<lfloor>x\<rfloor> = \<lfloor>y\<rfloor>")
  case True
  with assms show ?thesis by (auto simp: round_half_even_def Let_def)
next
  case False
  with assms have "\<lfloor>x\<rfloor> + 1 \<le> \<lfloor>y\<rfloor>" using floor_mono [OF assms] by simp
  moreover have "round_half_even x \<le> \<lfloor>x\<rfloor> + 1" by (simp add: round_half_even_def Let_def)
  moreover have "\<lfloor>y\<rfloor> \<le> round_half_even y" by (simp add: round_half_even_def Let_def)
  ultimately show ?thesis by linarith
qed

lemma round_half_even_minus: "round_half_even (- q) = - round_half_even q"
proof (cases "q = of_int \<lfloor>q\<rfloor>")
  case True
  then show ?thesis by (metis of_int_minus round_half_even_of_int)
next
  case False
  define f where "f = \<lfloor>q\<rfloor>"
  define r where "r = q - of_int f"
  have q: "q = of_int f + r" by (simp add: r_def)
  have "of_int f \<le> q" and "q < of_int f + 1" by (simp_all add: f_def) linarith
  moreover from False have "of_int f \<noteq> q" unfolding f_def by metis
  ultimately have r: "0 < r" "r < 1" by (auto simp: r_def)
  have fl: "\<lfloor>- q\<rfloor> = - f - 1" using r by (simp add: q floor_eq_iff)
  have "- q - of_int (- f - 1) = 1 - r" by (simp add: q)
  then have "round_half_even (- q) = (if 1 - r < 1 / 2 then - f - 1
      else if 1 / 2 < 1 - r then - f else if even (- f - 1) then - f - 1 else - f)"
    by (simp add: round_half_even_def fl Let_def)
  moreover have "round_half_even q = (if r < 1 / 2 then f else if 1 / 2 < r then f + 1
      else if even f then f else f + 1)"
    unfolding round_half_even_def r_def f_def Let_def ..
  ultimately show ?thesis by auto
qed

subsection \<open>The binary exponent\<close>

lemma bexp_bounds:
  assumes "0 < x"
  shows "2 powi bexp x \<le> x" and "x < 2 powi (bexp x + 1)"
proof -
  obtain n d where nd: "quotient_of x = (n, d)" by (cases "quotient_of x")
  then have d: "0 < d" by (rule quotient_of_denom_pos)
  have x: "x = of_int n / of_int d" using nd by (rule quotient_of_div)
  with assms d have n: "0 < n" by (simp add: zero_less_divide_iff)
  define a where "a = floorlog 2 (nat n)"
  define b where "b = floorlog 2 (nat d)"
  have "2 ^ (a - 1) \<le> nat n \<and> nat n < 2 ^ a" "2 ^ (b - 1) \<le> nat d \<and> nat d < 2 ^ b"
    using floorlog_bounds [of "nat n" 2] floorlog_bounds [of "nat d" 2] n d
    by (auto simp: a_def b_def)
  moreover have ab: "0 < a" "0 < b" using n d by (auto simp: a_def b_def floorlog_def)
  ultimately have *: "(2::int) ^ (a - 1) \<le> n" "n < 2 ^ a" "(2::int) ^ (b - 1) \<le> d" "d < 2 ^ b"
    using n d by (simp_all add: nat_less_iff le_nat_iff)
  have r: "(2::rat) ^ (a - 1) \<le> of_int n" "(of_int n :: rat) < 2 ^ a"
    "(2::rat) ^ (b - 1) \<le> of_int d" "(of_int d :: rat) < 2 ^ b"
    using * by (metis of_int_le_iff of_int_less_iff of_int_numeral of_int_power)+
  have pw: "(2::rat) powi int k = 2 ^ k" for k by simp
  have pa: "(2::rat) ^ a = 2 * 2 ^ (a - 1)" "(2::rat) ^ b = 2 * 2 ^ (b - 1)"
    using ab by (cases a; simp) (cases b; use ab in simp)
  have up: "x < 2 powi (int a - int b + 1)"
  proof -
    have "x < 2 ^ a / of_int d" unfolding x using r d by (simp add: divide_strict_right_mono)
    also have "\<dots> \<le> 2 ^ a / 2 ^ (b - 1)"
      by (rule divide_left_mono [OF r(3)]) (use d in simp_all)
    also have "\<dots> = 2 powi (int a - int b + 1)"
      by (simp add: power_int_add power_int_diff pa)
    finally show ?thesis .
  qed
  have lo: "2 powi (int a - int b - 1) \<le> x"
  proof -
    have "(2::rat) powi (int a - int b - 1) = 2 ^ (a - 1) / 2 ^ b"
      by (simp add: power_int_diff pa)
    also have "\<dots> \<le> of_int n / 2 ^ b" using r by (simp add: divide_right_mono)
    also have "\<dots> \<le> of_int n / of_int d"
      by (rule divide_left_mono [OF less_imp_le [OF r(4)]]) (use n d in simp_all)
    finally show ?thesis by (simp add: x)
  qed
  have e: "bexp x = (if 2 powi (int a - int b) \<le> x then int a - int b else int a - int b - 1)"
    by (simp add: bexp_def nd a_def b_def Let_def)
  show "2 powi bexp x \<le> x" using e lo by simp
  show "x < 2 powi (bexp x + 1)" using e up by simp
qed

lemma bexp_mono:
  assumes "0 < x" "x \<le> y" shows "bexp x \<le> bexp y"
proof -
  have "(2::rat) powi bexp x < 2 powi (bexp y + 1)"
    using assms bexp_bounds [of x] bexp_bounds [of y] by linarith
  then have "\<not> bexp y + 1 \<le> bexp x"
    using power_int_increasing [of "bexp y + 1" "bexp x" "2::rat"] by auto
  then show ?thesis by simp
qed

lemma bexp_unique:
  assumes "2 powi e \<le> x" and "x < 2 powi (e + 1)"
  shows "bexp x = e"
proof -
  have "0 < (2::rat) powi e" by simp
  with assms(1) have x: "0 < x" by linarith
  have "(2::rat) powi e < 2 powi (bexp x + 1)" "(2::rat) powi bexp x < 2 powi (e + 1)"
    using assms bexp_bounds [OF x] by linarith+
  then have "\<not> bexp x + 1 \<le> e" "\<not> e + 1 \<le> bexp x"
    using power_int_increasing [of "bexp x + 1" e "2::rat"]
      power_int_increasing [of "e + 1" "bexp x" "2::rat"] by auto
  then show ?thesis by simp
qed

subsection \<open>Rounding to the nearest representable number\<close>

lemma fp_ulp_pos [simp]: "0 < fp_ulp p emin x"
  by (simp add: fp_ulp_def)

lemma fp_ulp_nonzero [simp]: "fp_ulp p emin x \<noteq> 0"
  by (simp add: fp_ulp_def)

lemma fp_near_0 [simp]: "fp_near p emin 0 = 0"
  by (simp add: fp_near_def)

lemma fp_near_minus: "fp_near p emin (- x) = - fp_near p emin x"
  by (simp add: fp_near_def fp_ulp_def round_half_even_minus)

lemma fp_near_error: "\<bar>fp_near p emin x - x\<bar> \<le> fp_ulp p emin x / 2"
proof (cases "x = 0")
  case True
  then show ?thesis by (simp add: less_imp_le)
next
  case False
  let ?u = "fp_ulp p emin x"
  have "\<bar>of_int (round_half_even (x / ?u)) - x / ?u\<bar> * ?u \<le> 1 / 2 * ?u"
    by (rule mult_right_mono [OF round_half_even_near]) (simp add: less_imp_le)
  also have "\<bar>of_int (round_half_even (x / ?u)) - x / ?u\<bar> * ?u =
      \<bar>(of_int (round_half_even (x / ?u)) - x / ?u) * ?u\<bar>"
    by (simp add: abs_mult less_imp_le)
  also have "(of_int (round_half_even (x / ?u)) - x / ?u) * ?u = fp_near p emin x - x"
    using False fp_ulp_pos [of p emin x] by (simp add: fp_near_def left_diff_distrib)
  finally show ?thesis by simp
qed

lemma fp_near_nonneg: "0 \<le> x \<Longrightarrow> 0 \<le> fp_near p emin x"
proof -
  assume x: "0 \<le> x"
  have "round_half_even 0 \<le> round_half_even (x / fp_ulp p emin x)"
    by (rule round_half_even_mono) (simp add: x less_imp_le)
  moreover have "round_half_even 0 = 0" using round_half_even_of_int [of 0] by simp
  ultimately show ?thesis by (simp add: fp_near_def less_imp_le)
qed

lemma fp_near_le_binade:
  assumes "0 < x" and "0 < p" and "x < 2 powi (e + 1)" and "emin \<le> e"
  shows "fp_near p emin x \<le> 2 powi (e + 1)"
proof -
  let ?m = "max (bexp x) emin"
  have "2 powi bexp x < (2::rat) powi (e + 1)" using bexp_bounds(1) [OF assms(1)] assms(3) by linarith
  then have "\<not> e + 1 \<le> bexp x" using power_int_increasing [of "e + 1" "bexp x" "2::rat"] by auto
  with assms(4) have me: "?m + 1 \<le> e + 1" by simp
  have u: "fp_ulp p emin x = 2 powi (?m - int p + 1)" using assms(1) by (simp add: fp_ulp_def)
  have top: "of_int (2 ^ p) * fp_ulp p emin x = 2 powi (?m + 1)"
    by (simp add: u power_int_add power_int_diff)
  have "x < 2 powi (?m + 1)"
    using bexp_bounds(2) [OF assms(1)] power_int_increasing [of "bexp x + 1" "?m + 1" "2::rat"]
    by force
  then have "x / fp_ulp p emin x \<le> of_int (2 ^ p)"
    using top fp_ulp_pos [of p emin x] by (simp add: pos_divide_le_eq)
  then have "round_half_even (x / fp_ulp p emin x) \<le> 2 ^ p"
    using round_half_even_mono round_half_even_of_int by metis
  then have "(of_int (round_half_even (x / fp_ulp p emin x)) :: rat) \<le> of_int (2 ^ p)"
    by (simp only: of_int_le_iff)
  then have "fp_near p emin x \<le> of_int (2 ^ p) * fp_ulp p emin x"
    using assms(1) by (auto simp: fp_near_def intro: mult_right_mono less_imp_le)
  also have "\<dots> \<le> 2 powi (e + 1)"
    unfolding top using me by (intro power_int_increasing) auto
  finally show ?thesis .
qed

lemma fp_near_ge_binade:
  assumes "0 < p" and "2 powi e \<le> x" and "emin \<le> e"
  shows "2 powi e \<le> fp_near p emin x"
proof -
  have "0 < (2::rat) powi e" by simp
  with assms(2) have x: "0 < x" by linarith
  have "(2::rat) powi e < 2 powi (bexp x + 1)" using bexp_bounds(2) [OF x] assms(2) by linarith
  then have "\<not> bexp x + 1 \<le> e" using power_int_increasing [of "bexp x + 1" e "2::rat"] by auto
  then have eb: "e \<le> bexp x" by simp
  with assms(3) have m: "max (bexp x) emin = bexp x" by simp
  have u: "fp_ulp p emin x = 2 powi (bexp x - int p + 1)" using x m by (simp add: fp_ulp_def)
  have "(2::rat) ^ p = 2 * 2 ^ (p - 1)" using assms(1) by (cases p) auto
  then have bot: "of_int (2 ^ (p - 1)) * fp_ulp p emin x = 2 powi bexp x"
    by (simp add: u power_int_add power_int_diff)
  have "of_int (2 ^ (p - 1)) \<le> x / fp_ulp p emin x"
    using bot bexp_bounds(1) [OF x] fp_ulp_pos [of p emin x] by (simp add: pos_le_divide_eq)
  then have "2 ^ (p - 1) \<le> round_half_even (x / fp_ulp p emin x)"
    using round_half_even_mono round_half_even_of_int by metis
  then have "(of_int (2 ^ (p - 1)) :: rat) \<le> of_int (round_half_even (x / fp_ulp p emin x))"
    by (simp only: of_int_le_iff)
  then have "of_int (2 ^ (p - 1)) * fp_ulp p emin x \<le> fp_near p emin x"
    using x by (auto simp: fp_near_def intro: mult_right_mono less_imp_le)
  then have "2 powi bexp x \<le> fp_near p emin x" by (simp only: bot)
  moreover have "(2::rat) powi e \<le> 2 powi bexp x" using eb by (intro power_int_increasing) auto
  ultimately show ?thesis by linarith
qed

lemma fp_near_mono_pos:
  assumes "0 < p" and "0 < x" and "x \<le> y"
  shows "fp_near p emin x \<le> fp_near p emin y"
proof (cases "max (bexp x) emin = max (bexp y) emin")
  case True
  with assms have u: "fp_ulp p emin x = fp_ulp p emin y" by (simp add: fp_ulp_def)
  have "x / fp_ulp p emin y \<le> y / fp_ulp p emin y"
    using assms(3) by (simp add: divide_right_mono less_imp_le)
  then have "(of_int (round_half_even (x / fp_ulp p emin y)) :: rat) \<le>
      of_int (round_half_even (y / fp_ulp p emin y))"
    by (simp add: round_half_even_mono)
  then show ?thesis
    using assms u by (auto simp: fp_near_def intro: mult_right_mono less_imp_le)
next
  case False
  define e where "e = max (bexp x) emin"
  have "bexp x \<le> bexp y" using assms(2,3) by (rule bexp_mono)
  with False have lt: "e + 1 \<le> bexp y" by (simp add: e_def max_def split: if_splits)
  have "x < 2 powi (e + 1)"
    using bexp_bounds(2) [OF assms(2)] power_int_increasing [of "bexp x + 1" "e + 1" "2::rat"]
    by (force simp: e_def)
  then have "fp_near p emin x \<le> 2 powi (e + 1)"
    using assms by (intro fp_near_le_binade) (auto simp: e_def)
  also have "\<dots> \<le> fp_near p emin y"
  proof (rule fp_near_ge_binade [OF assms(1)])
    have "(2::rat) powi (e + 1) \<le> 2 powi bexp y" using lt by (intro power_int_increasing) auto
    then show "2 powi (e + 1) \<le> y" using bexp_bounds(1) [of y] assms by linarith
  qed (simp add: e_def)
  finally show ?thesis .
qed

lemma fp_near_mono:
  assumes "0 < p" and "x \<le> y"
  shows "fp_near p emin x \<le> fp_near p emin y"
proof (cases "0 < x")
  case True
  with assms show ?thesis by (intro fp_near_mono_pos)
next
  case False
  show ?thesis
  proof (cases "0 \<le> y")
    case True
    have "0 \<le> fp_near p emin (- x)" using False by (intro fp_near_nonneg) simp
    then have "fp_near p emin x \<le> 0" by (simp add: fp_near_minus)
    also have "\<dots> \<le> fp_near p emin y" using True by (rule fp_near_nonneg)
    finally show ?thesis .
  next
    case y: False
    then have "fp_near p emin (- y) \<le> fp_near p emin (- x)"
      using assms by (intro fp_near_mono_pos) auto
    then show ?thesis by (simp add: fp_near_minus)
  qed
qed

subsection \<open>Order and addition on floats\<close>

lemma flt_le_refl: "a \<noteq> NaN \<Longrightarrow> flt_le a a"
  by (cases a) auto

lemma flt_le_trans: "flt_le a b \<Longrightarrow> flt_le b c \<Longrightarrow> flt_le a c"
  by (cases a; cases b; cases c) auto

lemma flt_le_total: "a \<noteq> NaN \<Longrightarrow> b \<noteq> NaN \<Longrightarrow> flt_le a b \<or> flt_le b a"
  by (cases a; cases b) auto

lemma flt_le_antisym: "flt_le a b \<Longrightarrow> flt_le b a \<Longrightarrow> a = b"
  by (cases a; cases b) auto

lemma flt_le_not_NaN: "flt_le a b \<Longrightarrow> a \<noteq> NaN \<and> b \<noteq> NaN"
  by (cases a; cases b) auto

lemma flt_less_iff: "a \<noteq> NaN \<Longrightarrow> b \<noteq> NaN \<Longrightarrow> flt_less a b \<longleftrightarrow> \<not> flt_le b a"
  using flt_le_total by (auto simp: flt_less_def)

lemma flt_less_imp_le: "flt_less a b \<Longrightarrow> flt_le a b"
  by (simp add: flt_less_def)

lemma fp_round_not_NaN [simp]: "fp_round p emin emax x \<noteq> NaN"
  by (simp add: fp_round_def Let_def)

lemma fp_round_mono:
  assumes "0 < p" and "x \<le> y"
  shows "flt_le (fp_round p emin emax x) (fp_round p emin emax y)"
proof -
  have "fp_near p emin x \<le> fp_near p emin y" using assms by (rule fp_near_mono)
  then show ?thesis by (auto simp: fp_round_def Let_def)
qed

text \<open>The values a float variable can hold: those that rounding leaves unchanged.\<close>

definition is_f32 :: "flt \<Rightarrow> bool" where
  "is_f32 v = (case v of Fin a \<Rightarrow> round32 a = Fin a | _ \<Rightarrow> True)"

lemma round32_mono: "x \<le> y \<Longrightarrow> flt_le (round32 x) (round32 y)"
  by (simp add: round32_def fp_round_mono)

lemma round64_mono: "x \<le> y \<Longrightarrow> flt_le (round64 x) (round64 y)"
  by (simp add: round64_def fp_round_mono)

lemma round32_not_NaN [simp]: "round32 x \<noteq> NaN"
  by (simp add: round32_def)

lemma fp_near_idem:
  assumes "0 < p" shows "fp_near p emin (fp_near p emin x) = fp_near p emin x"
proof -
  have pos: "fp_near p emin (fp_near p emin x) = fp_near p emin x" if x: "0 < x" for x
  proof (cases "fp_near p emin x = 0")
    case False
    let ?m = "max (bexp x) emin"
    let ?y = "fp_near p emin x"
    from x False have y: "0 < ?y" using fp_near_nonneg [of x p emin] by simp
    have u: "fp_ulp p emin x = 2 powi (?m - int p + 1)" using x by (simp add: fp_ulp_def)
    have hi: "?y \<le> 2 powi (?m + 1)"
    proof (rule fp_near_le_binade [OF x assms])
      show "x < 2 powi (?m + 1)"
        using bexp_bounds(2) [OF x] power_int_increasing [of "bexp x + 1" "?m + 1" "2::rat"]
        by force
    qed simp
    have dv: "\<exists>k. ?y / fp_ulp p emin ?y = of_int k"
    proof (cases "?y = 2 powi (?m + 1)")
      case True
      have "bexp ?y = ?m + 1"
        unfolding True by (rule bexp_unique) (simp_all add: power_int_add)
      then have "fp_ulp p emin ?y = 2 powi (?m + 1 - int p + 1)" using y by (simp add: fp_ulp_def)
      moreover have "(2::rat) ^ p = 2 * 2 ^ (p - 1)" using assms by (cases p) auto
      ultimately have "?y / fp_ulp p emin ?y = of_int (2 ^ (p - 1))"
        by (simp add: True power_int_add power_int_diff)
      then show ?thesis by blast
    next
      case lt: False
      with hi have lt: "?y < 2 powi (?m + 1)" by simp
      have "max (bexp ?y) emin = ?m"
      proof (cases "bexp x \<le> emin")
        case True
        have "(2::rat) powi bexp ?y < 2 powi (?m + 1)" using bexp_bounds(1) [OF y] lt by linarith
        then have "\<not> ?m + 1 \<le> bexp ?y"
          using power_int_increasing [of "?m + 1" "bexp ?y" "2::rat"] by auto
        with True show ?thesis by simp
      next
        case False
        then have "2 powi bexp x \<le> ?y"
          using bexp_bounds(1) [OF x] assms by (intro fp_near_ge_binade) auto
        with False lt have "bexp ?y = bexp x" by (intro bexp_unique) auto
        then show ?thesis by simp
      qed
      then have "fp_ulp p emin ?y = fp_ulp p emin x" using x y by (simp add: fp_ulp_def)
      then show ?thesis using x fp_ulp_pos [of p emin x]
        by (auto simp: fp_near_def)
    qed
    then obtain k where k: "?y / fp_ulp p emin ?y = of_int k" by blast
    with y have "fp_near p emin ?y = of_int k * fp_ulp p emin ?y"
      by (simp add: fp_near_def)
    also have "\<dots> = ?y" using k fp_ulp_pos [of p emin ?y] by (simp add: nonzero_divide_eq_eq)
    finally show ?thesis .
  qed simp
  consider "0 < x" | "x = 0" | "0 < - x" by linarith
  then show ?thesis
  proof cases
    case 3
    from pos [OF this] show ?thesis by (simp add: fp_near_minus)
  qed (simp_all add: pos)
qed

lemma is_f32_round32 [simp]: "is_f32 (round32 x)"
  by (auto simp: is_f32_def round32_def fp_round_def Let_def fp_near_idem split: if_splits)

lemma flt_add_not_NaN:
  "\<lbrakk>a \<noteq> NaN; b \<noteq> NaN; a \<noteq> NInf; b \<noteq> NInf\<rbrakk> \<Longrightarrow> flt_add round32 a b \<noteq> NaN"
  by (cases a; cases b) auto

lemma flt_le_PInf: "a \<noteq> NaN \<Longrightarrow> flt_le a PInf"
  by (cases a) auto

lemma flt_add_mono32:
  assumes "flt_le a b" and "c \<noteq> NaN" and "a \<noteq> NInf" and "c \<noteq> NInf"
  shows "flt_le (flt_add round32 a c) (flt_add round32 b c)"
  using assms by (cases a; cases b; cases c) (auto simp: round32_mono flt_le_PInf)

lemma flt_add_inflate32:
  assumes "is_f32 a" and "a \<noteq> NaN" and "a \<noteq> NInf" and "flt_le (Fin 0) c"
  shows "flt_le a (flt_add round32 a c)"
proof (cases a)
  case (Fin x)
  show ?thesis
  proof (cases c)
    case c: (Fin y)
    with assms have "flt_le (round32 x) (round32 (x + y))" by (intro round32_mono) simp
    with Fin c assms show ?thesis by (simp add: is_f32_def)
  qed (use Fin assms in auto)
qed (use assms in \<open>cases c; auto\<close>)+

lemma is_f32_flt_add [simp]: "is_f32 (flt_add round32 a c)"
  by (cases a; cases c) (simp_all, simp_all add: is_f32_def)

subsection \<open>Representable numbers\<close>

lemma powi_diff_int: "(2::rat) powi a / 2 powi b = 2 powi (a - b)"
  by (simp add: power_int_diff)

lemma fp_near_representable:
  assumes "0 < k" and "k < 2 ^ p" and "emin - int p + 1 \<le> e"
  shows "fp_near p emin (of_int k * 2 powi e) = of_int k * 2 powi e"
proof -
  let ?x = "of_int k * 2 powi e :: rat"
  have x: "0 < ?x" using assms(1) by simp
  have "(of_int k :: rat) < 2 ^ p" using assms(2) by (metis of_int_less_iff of_int_numeral of_int_power)
  then have "?x < 2 ^ p * 2 powi e" by simp
  also have "\<dots> = 2 powi (int p + e)" by (simp add: power_int_add)
  finally have "2 powi bexp ?x < (2::rat) powi (int p + e)" using bexp_bounds(1) [OF x] by linarith
  then have "bexp ?x < int p + e"
    by (rule contrapos_pp) (simp add: power_int_increasing not_less)
  then obtain d where d: "e = max (bexp ?x) emin - int p + 1 + int d"
    using assms(3) zle_iff_zadd [of "max (bexp ?x) emin - int p + 1" e] by auto
  then have "max (bexp ?x) emin - int p + 1 = e - int d" by linarith
  with x have ulp: "fp_ulp p emin ?x = 2 powi (e - int d)" by (simp only: fp_ulp_def abs_of_pos)
  have "?x / fp_ulp p emin ?x = of_int k * 2 powi (int d)"
    unfolding ulp times_divide_eq_right [symmetric] powi_diff_int by simp
  also have "\<dots> = of_int (k * 2 ^ d)" by simp
  finally have "fp_near p emin ?x = of_int (k * 2 ^ d) * fp_ulp p emin ?x"
    using x unfolding fp_near_def by (simp only: round_half_even_of_int) simp
  also have "\<dots> = of_int k * (2 powi int d * 2 powi (e - int d))" by (simp add: ulp)
  also have "\<dots> = ?x" by (subst power_int_add [symmetric]) simp_all
  finally show ?thesis .
qed

lemma f32_of_nat_exact:
  assumes "n < 2 ^ 24" shows "f32_of_nat n = Fin (of_nat n)"
proof (cases "n = 0")
  case False
  with assms have "fp_near 24 (-126) (of_int (int n) * 2 powi 0) = of_int (int n) * 2 powi 0"
    by (intro fp_near_representable) auto
  moreover have "(of_nat n :: rat) < 2 powi 128"
  proof -
    have "(of_nat n :: rat) < of_nat (2 ^ 24)" using assms by (simp only: of_nat_less_iff)
    also have "\<dots> \<le> 2 powi 128" by simp
    finally show ?thesis .
  qed
  ultimately show ?thesis by (simp add: f32_of_nat_def round32_def fp_round_def Let_def)
qed (simp add: f32_of_nat_def round32_def fp_round_def)

lemma f64_clamp_between:
  assumes "lo \<le> hi"
  shows "v \<noteq> NaN \<Longrightarrow> \<exists>q. f64_clamp (Fin lo) (Fin hi) v = Fin q \<and> lo \<le> q \<and> q \<le> hi"
  using assms by (cases v) (auto simp: f64_clamp_def flt_less_def Let_def)

lemma f64_as_u32_between:
  assumes "of_nat lo \<le> q" and "q \<le> of_nat hi" and "hi < 2 ^ 32 - 1"
  shows "lo \<le> unat (f64_as_u32 (Fin q)) \<and> unat (f64_as_u32 (Fin q)) \<le> hi"
proof -
  have q0: "0 \<le> q" using assms(1) by (meson of_nat_0_le_iff order_trans)
  have "(of_nat hi :: rat) < of_nat (2 ^ 32 - 1)" using assms(3) by (simp only: of_nat_less_iff)
  with assms(2) have q1: "q < 2 ^ 32 - 1" by simp
  define n where "n = nat \<lfloor>q\<rfloor>"
  with q0 have n: "\<lfloor>q\<rfloor> = int n" by simp
  have "int lo \<le> \<lfloor>q\<rfloor>" using assms(1) by (simp add: le_floor_iff)
  moreover have "\<lfloor>q\<rfloor> \<le> int hi" using assms(2) by (metis floor_mono floor_of_nat)
  ultimately have "lo \<le> n" "n \<le> hi" by (simp_all add: n)
  moreover have "f64_as_u32 (Fin q) = of_nat n" using q0 q1 by (simp add: f64_as_u32_def n)
  moreover have "unat (of_nat n :: u32) = n"
    using \<open>n \<le> hi\<close> assms(3) by (simp add: unat_of_nat take_bit_nat_eq_self)
  ultimately show ?thesis by simp
qed

lemma flt_max_Fin: "0 < b \<Longrightarrow> flt_max v (Fin b) = PInf \<or> (\<exists>c>0. flt_max v (Fin b) = Fin c)"
  by (cases v) (auto simp: flt_max_def not_le intro: less_trans)

lemma f64_of_nat_finite:
  assumes "n < 2 ^ 64" shows "f64_of_nat n \<noteq> PInf \<and> f64_of_nat n \<noteq> NInf"
proof -
  have "0 \<le> fp_near 53 (-1022) (of_nat n)" by (intro fp_near_nonneg) simp
  moreover have "- (2 powi 1024) < (0 :: rat)" by simp
  ultimately have nonneg: "\<not> fp_near 53 (-1022) (of_nat n) \<le> - (2 powi 1024)" by linarith
  have "(of_nat n :: rat) \<le> of_nat (2 ^ 64)" using assms by (simp only: of_nat_le_iff)
  then have "fp_near 53 (-1022) (of_nat n) \<le> fp_near 53 (-1022) (of_int 1 * 2 powi 64)"
    by (intro fp_near_mono) simp_all
  also have "\<dots> = of_int 1 * 2 powi 64" by (rule fp_near_representable) simp_all
  also have "\<dots> < (2 :: rat) powi 1024" by simp
  finally show ?thesis using nonneg by (auto simp: f64_of_nat_def round64_def fp_round_def Let_def)
qed

subsection \<open>Close to the exact result\<close>

lemma fp_ulp_le:
  assumes "0 < x" and "x < 2 powi (e + 1)" and "emin \<le> e"
  shows "fp_ulp p emin x \<le> 2 powi (e - int p + 1)"
proof -
  have "2 powi bexp x < (2::rat) powi (e + 1)" using bexp_bounds(1) [OF assms(1)] assms(2) by linarith
  then have "\<not> e + 1 \<le> bexp x" using power_int_increasing [of "e + 1" "bexp x" "2::rat"] by auto
  then have "max (bexp x) emin - int p + 1 \<le> e - int p + 1" using assms(3) by simp
  then show ?thesis using assms(1) by (simp add: fp_ulp_def power_int_increasing)
qed

lemma round64_close:
  assumes "0 \<le> x" and "x < 2 powi (e + 1)" and "- 1022 \<le> e" and "e < 1023"
  shows "\<exists>r. round64 x = Fin r \<and> 0 \<le> r \<and> \<bar>r - x\<bar> \<le> 2 powi (e - 53)"
proof -
  let ?r = "fp_near 53 (- 1022) x"
  have r0: "0 \<le> ?r" using assms(1) by (rule fp_near_nonneg)
  have err: "\<bar>?r - x\<bar> \<le> 2 powi (e - 53)"
  proof (cases "x = 0")
    case False
    with assms have x: "0 < x" by simp
    have "fp_ulp 53 (- 1022) x / 2 \<le> 2 powi (e - int 53 + 1) / 2"
      using fp_ulp_le [OF x assms(2,3), of 53] by simp
    also have "\<dots> = 2 powi (e - 53)" by (simp add: power_int_diff power_int_add)
    finally show ?thesis using fp_near_error [of 53 "- 1022" x] by linarith
  qed (simp add: fp_near_def)
  have "(2::rat) powi (e - 53) \<le> 2 powi (e + 1)" by (intro power_int_increasing) auto
  moreover have "2 * (2::rat) powi (e + 1) = 2 powi (e + 2)" by (simp add: power_int_add)
  moreover have "(2::rat) powi (e + 2) \<le> 2 powi 1024" using assms(4) by (intro power_int_increasing) auto
  ultimately have lt: "?r < 2 powi 1024" using err assms(2) by linarith
  have "- (2 powi 1024) < (0::rat)" by simp
  then have "\<not> ?r \<le> - (2 powi 1024)" using r0 by linarith
  with lt r0 err show ?thesis by (auto simp: round64_def fp_round_def Let_def)
qed

lemma f64_of_nat_exact:
  assumes "n < 2 ^ 53" shows "f64_of_nat n = Fin (of_nat n)"
proof (cases "n = 0")
  case False
  with assms have "fp_near 53 (-1022) (of_int (int n) * 2 powi 0) = of_int (int n) * 2 powi 0"
    by (intro fp_near_representable) auto
  moreover have "(of_nat n :: rat) < 2 powi 1024"
  proof -
    have "(of_nat n :: rat) < of_nat (2 ^ 53)" using assms by (simp only: of_nat_less_iff)
    also have "\<dots> \<le> 2 powi 1024" by simp
    finally show ?thesis .
  qed
  moreover have "\<not> (of_nat n :: rat) \<le> - (2 powi 1024)"
  proof -
    have "- (2 powi 1024) < (0::rat)" "(0::rat) \<le> of_nat n" by simp_all
    then show ?thesis by linarith
  qed
  ultimately show ?thesis by (simp add: f64_of_nat_def round64_def fp_round_def Let_def)
qed (simp add: f64_of_nat_def round64_def fp_round_def)

lemma percent_close:
  assumes "p \<le> n" and "0 < n" and "n < 2 ^ 53"
  shows "\<exists>z. flt_mul round64 (flt_div round64 (f64_of_nat p) (f64_of_nat n)) (Fin 100) = Fin z \<and> 0 \<le> z \<and>
    \<bar>z - 100 * of_nat p / of_nat n\<bar> < 1 / 2 ^ 40"
proof -
  let ?x = "of_nat p / of_nat n :: rat"
  have x: "0 \<le> ?x" "?x \<le> 1" using assms by (simp_all add: divide_le_eq)
  then have "?x < 2 powi (0 + 1)" by simp
  from round64_close [OF x(1) this] obtain r where r: "round64 ?x = Fin r" "0 \<le> r" "\<bar>r - ?x\<bar> \<le> 2 powi - 53"
    by auto
  have small: "(2::rat) powi - 53 < 1 / 100" by (simp add: power_int_minus)
  have "0 \<le> r * 100" using r(2) by simp
  moreover have "r < 128 / 100" using r(3) x(2) small by linarith
  then have "r * 100 < 2 powi (6 + 1)" by simp
  ultimately obtain z where z: "round64 (r * 100) = Fin z" "0 \<le> z" "\<bar>z - r * 100\<bar> \<le> 2 powi - 47"
    using round64_close [of "r * 100" 6] by auto
  have "100 * (2::rat) powi - 53 + 2 powi - 47 < 1 / 2 ^ 40" by (simp add: power_int_minus)
  moreover have "100 * ?x = 100 * of_nat p / of_nat n" by simp
  ultimately have "\<bar>z - 100 * of_nat p / of_nat n\<bar> < 1 / 2 ^ 40" using r(3) z(3) by linarith
  moreover have "f64_of_nat p = Fin (of_nat p)" "f64_of_nat n = Fin (of_nat n)"
    using assms by (simp_all add: f64_of_nat_exact)
  ultimately show ?thesis using assms z(1,2) r(1) by auto
qed

end
