(* ===== verification/Json.thy ===== *)
theory Json
  imports RustStr Floats
begin

text \<open>
  JSON values as \<open>serde_json::Value\<close> holds them: integers, floating-point numbers, strings, arrays and
  objects. An object is the list of its members; serde writes a struct's fields in declaration
  order under their (possibly renamed) keys. Printing and parsing are the library's and appear as
  parameters where the sources call them.
\<close>

datatype json =
    JNull
  | JBool bool
  | JInt int
  | JFloat flt
  | JStr string
  | JArr "json list"
  | JObj "(string \<times> json) list"

definition json_get :: "json \<Rightarrow> string \<Rightarrow> json option" where
  "json_get v k = (case v of JObj kvs \<Rightarrow> map_of kvs k | _ \<Rightarrow> None)"

definition json_as_str :: "json \<Rightarrow> string option" where
  "json_as_str v = (case v of JStr s \<Rightarrow> Some s | _ \<Rightarrow> None)"

definition json_as_u64 :: "json \<Rightarrow> nat option" where
  "json_as_u64 v = (case v of JInt i \<Rightarrow> if 0 \<le> i \<and> i < 2 ^ 64 then Some (nat i) else None | _ \<Rightarrow> None)"

definition json_is_null :: "json \<Rightarrow> bool" where
  "json_is_null v = (v = JNull)"

definition json_opt :: "('a \<Rightarrow> json) \<Rightarrow> 'a option \<Rightarrow> json" where
  "json_opt f o1 = (case o1 of None \<Rightarrow> JNull | Some x \<Rightarrow> f x)"

lemma json_get_JObj [simp]: "json_get (JObj kvs) k = map_of kvs k"
  by (simp add: json_get_def)

lemma json_as_str_JStr [simp]: "json_as_str (JStr s) = Some s"
  by (simp add: json_as_str_def)

end
