(* ===== verification/Core.thy ===== *)
theory Core
  imports RustStr
begin

text \<open>
  The crate \<open>secureops-core\<close>: the finding and report types (\<open>types.rs\<close>), the audited
  configuration tree (\<open>config.rs\<close>), the injected host view (\<open>context.rs\<close>), scoring and the MAESTRO
  cross-layer pass (\<open>scoring.rs\<close>), the audit orchestrator (\<open>check.rs\<close>) and the small helpers of
  \<open>util.rs\<close>.

  The lemmas show that a score is the saturated sum of the deductions, lies between 0 and 100 and
  never improves when findings are added; that the summary partitions the findings; that the
  cross-layer finding is emitted exactly when three layers carry a finding above \<open>INFO\<close>; and that a
  report is always consistent with the findings it carries.
\<close>

subsection \<open>Finding and report types (types.rs)\<close>

datatype severity = Critical | High | Medium | Low | Info

datatype maestro_layer = L1 | L2 | L3 | L4 | L5 | L6 | L7

fun layer_index :: "maestro_layer \<Rightarrow> nat" where
  "layer_index L1 = 1" | "layer_index L2 = 2" | "layer_index L3 = 3" | "layer_index L4 = 4"
| "layer_index L5 = 5" | "layer_index L6 = 6" | "layer_index L7 = 7"

lemma layer_index_inject: "layer_index a = layer_index b \<longleftrightarrow> a = b"
  by (cases a; cases b; simp)

instantiation maestro_layer :: linorder
begin

definition less_eq_maestro_layer :: "maestro_layer \<Rightarrow> maestro_layer \<Rightarrow> bool" where
  "less_eq_maestro_layer a b \<longleftrightarrow> layer_index a \<le> layer_index b"

definition less_maestro_layer :: "maestro_layer \<Rightarrow> maestro_layer \<Rightarrow> bool" where
  "less_maestro_layer a b \<longleftrightarrow> layer_index a < layer_index b"

instance
  by standard
    (auto simp: less_eq_maestro_layer_def less_maestro_layer_def layer_index_inject)

end

fun layer_as_str :: "maestro_layer \<Rightarrow> string" where
  "layer_as_str L1 = ''L1''" | "layer_as_str L2 = ''L2''" | "layer_as_str L3 = ''L3''"
| "layer_as_str L4 = ''L4''" | "layer_as_str L5 = ''L5''" | "layer_as_str L6 = ''L6''"
| "layer_as_str L7 = ''L7''"

datatype nist_attack_type = Evasion | Poisoning | Privacy | Misuse

record audit_finding =
  f_id :: string
  f_severity :: severity
  f_category :: string
  f_title :: string
  f_description :: string
  f_evidence :: string
  f_remediation :: string
  f_auto_fixable :: bool
  f_references :: "string list"
  f_owasp_asi :: string
  f_maestro_layer :: "maestro_layer option"
  f_nist_category :: "nist_attack_type option"

text \<open>
  \<open>AuditFinding::builder\<close> and the chained setters of \<open>FindingBuilder\<close>: the builder wraps the finding
  under construction, and \<open>build\<close> returns it. A setter takes the builder last, so that a chain
  of method calls reads as a record update from left to right.
\<close>

definition builder :: "string \<Rightarrow> severity \<Rightarrow> string \<Rightarrow> audit_finding" where
  "builder i sev cat = \<lparr> f_id = i, f_severity = sev, f_category = cat, f_title = [],
     f_description = [], f_evidence = [], f_remediation = [], f_auto_fixable = False,
     f_references = [], f_owasp_asi = [], f_maestro_layer = None, f_nist_category = None \<rparr>"

definition set_title :: "string \<Rightarrow> audit_finding \<Rightarrow> audit_finding" where
  "set_title v b = b\<lparr>f_title := v\<rparr>"
definition set_description :: "string \<Rightarrow> audit_finding \<Rightarrow> audit_finding" where
  "set_description v b = b\<lparr>f_description := v\<rparr>"
definition set_evidence :: "string \<Rightarrow> audit_finding \<Rightarrow> audit_finding" where
  "set_evidence v b = b\<lparr>f_evidence := v\<rparr>"
definition set_remediation :: "string \<Rightarrow> audit_finding \<Rightarrow> audit_finding" where
  "set_remediation v b = b\<lparr>f_remediation := v\<rparr>"
definition set_owasp_asi :: "string \<Rightarrow> audit_finding \<Rightarrow> audit_finding" where
  "set_owasp_asi v b = b\<lparr>f_owasp_asi := v\<rparr>"
definition set_auto_fixable :: "bool \<Rightarrow> audit_finding \<Rightarrow> audit_finding" where
  "set_auto_fixable v b = b\<lparr>f_auto_fixable := v\<rparr>"
definition set_references :: "string list \<Rightarrow> audit_finding \<Rightarrow> audit_finding" where
  "set_references v b = b\<lparr>f_references := v\<rparr>"
definition set_maestro :: "maestro_layer option \<Rightarrow> audit_finding \<Rightarrow> audit_finding" where
  "set_maestro v b = b\<lparr>f_maestro_layer := v\<rparr>"
definition set_nist :: "nist_attack_type option \<Rightarrow> audit_finding \<Rightarrow> audit_finding" where
  "set_nist v b = b\<lparr>f_nist_category := v\<rparr>"

lemmas builder_defs = builder_def set_title_def set_description_def set_evidence_def
  set_remediation_def set_owasp_asi_def set_auto_fixable_def set_references_def
  set_maestro_def set_nist_def

record audit_summary =
  s_critical :: nat
  s_high :: nat
  s_medium :: nat
  s_low :: nat
  s_info :: nat
  s_auto_fixable :: nat

definition summary_default :: audit_summary where
  "summary_default = \<lparr> s_critical = 0, s_high = 0, s_medium = 0, s_low = 0, s_info = 0,
     s_auto_fixable = 0 \<rparr>"

record audit_report =
  r_timestamp :: string
  r_openclaw_version :: string
  r_secureops_version :: string
  r_platform :: string
  r_deployment_mode :: string
  r_score :: nat
  r_findings :: "audit_finding list"
  r_summary :: audit_summary

subsection \<open>Scoring (scoring.rs)\<close>

fun severity_deduction :: "severity \<Rightarrow> nat" where
  "severity_deduction Critical = 15"
| "severity_deduction High = 8"
| "severity_deduction Medium = 3"
| "severity_deduction Low = 1"
| "severity_deduction Info = 0"

text \<open>
  The loop keeps an \<open>i32\<close>; \<open>score_loop\<close> keeps it as an integer, and \<open>score_loop_in_i32\<close> shows that it
  stays in the range of an \<open>i32\<close> for every list of up to 143165583 findings.
\<close>

definition score_loop :: "audit_finding list \<Rightarrow> int" where
  "score_loop fs = foldl (\<lambda>s f. s - int (severity_deduction (f_severity f))) 100 fs"

definition calculate_score :: "audit_finding list \<Rightarrow> nat" where
  "calculate_score fs = nat (max (score_loop fs) 0)"

definition count_finding :: "audit_summary \<Rightarrow> audit_finding \<Rightarrow> audit_summary" where
  "count_finding s f =
    (let s1 = (case f_severity f of
         Critical \<Rightarrow> s\<lparr>s_critical := s_critical s + 1\<rparr>
       | High \<Rightarrow> s\<lparr>s_high := s_high s + 1\<rparr>
       | Medium \<Rightarrow> s\<lparr>s_medium := s_medium s + 1\<rparr>
       | Low \<Rightarrow> s\<lparr>s_low := s_low s + 1\<rparr>
       | Info \<Rightarrow> s\<lparr>s_info := s_info s + 1\<rparr>)
     in if f_auto_fixable f then s1\<lparr>s_auto_fixable := s_auto_fixable s1 + 1\<rparr> else s1)"

definition compute_summary :: "audit_finding list \<Rightarrow> audit_summary" where
  "compute_summary fs = foldl count_finding summary_default fs"

text \<open>A \<open>BTreeSet\<close> is the sorted list of its elements.\<close>

definition bt_insert :: "'a::linorder \<Rightarrow> 'a list \<Rightarrow> 'a list" where
  "bt_insert x s = (if x \<in> set s then s else insort x s)"

definition affected_layers :: "audit_finding list \<Rightarrow> maestro_layer list" where
  "affected_layers fs = foldl (\<lambda>s f. case f_maestro_layer f of
       None \<Rightarrow> s
     | Some layer \<Rightarrow> if f_severity f \<noteq> Info then bt_insert layer s else s) [] fs"

definition arrow :: string where
  "arrow = '' '' @ [byte 226, byte 134, byte 146] @ '' ''"

definition cross_finding :: "maestro_layer list \<Rightarrow> audit_finding" where
  "cross_finding affected =
    (let layers = join '', '' (map layer_as_str affected)
     in (set_nist (Some Evasion) \<circ> set_maestro (Some L6) \<circ> set_owasp_asi ''ASI10''
         \<circ> set_references [''https://cloudsecurityalliance.org/blog/2025/02/06/agentic-ai-threat-modeling-framework-maestro'']
         \<circ> set_remediation ''Address findings in each affected layer to reduce the compound attack surface. Prioritize layers with CRITICAL/HIGH findings.''
         \<circ> set_evidence (''Affected layers: '' @ layers)
         \<circ> set_description (''Findings span '' @ show_nat (length affected) @ '' MAESTRO layers (''
             @ layers @ ''). Compound attack surfaces enable chained exploits (e.g., supply chain''
             @ arrow @ ''agent compromise'' @ arrow @ ''credential theft).'')
         \<circ> set_title ''Cross-layer compound attack surface detected'')
        (builder ''SC-CROSS-001'' High ''cross-layer''))"

definition cross_layer_risk :: "audit_finding list \<Rightarrow> audit_finding list" where
  "cross_layer_risk fs =
    (let affected = affected_layers fs
     in if length affected \<ge> 3 then [cross_finding affected] else [])"

subsection \<open>Helpers (util.rs)\<close>

definition basename :: "string \<Rightarrow> string" where
  "basename p = last (split_char (CHR ''/'') (trim_end_char (CHR ''/'') p))"

unbundle bit_operations_syntax

definition is_group_or_other_accessible :: "u32 \<Rightarrow> bool" where
  "is_group_or_other_accessible mode \<longleftrightarrow> mode AND 63 \<noteq> 0"

subsection \<open>Lemmas on scoring\<close>

lemma score_loop_eq:
  "score_loop fs = 100 - int (sum_list (map (severity_deduction \<circ> f_severity) fs))"
proof -
  have "foldl (\<lambda>s f. s - int (severity_deduction (f_severity f))) a fs =
      a - int (sum_list (map (severity_deduction \<circ> f_severity) fs))" for a
    by (induction fs arbitrary: a) auto
  then show ?thesis by (simp add: score_loop_def)
qed

lemma severity_deduction_le: "severity_deduction s \<le> 15"
  by (cases s) auto

lemma sum_deductions_le: "sum_list (map (severity_deduction \<circ> f_severity) fs) \<le> 15 * length fs"
proof (induction fs)
  case (Cons f fs)
  then show ?case using severity_deduction_le [of "f_severity f"] by simp
qed simp

lemma score_loop_in_i32:
  "length fs \<le> 143165583 \<Longrightarrow> - (2 ^ 31) \<le> score_loop fs \<and> score_loop fs < 2 ^ 31"
  using sum_deductions_le [of fs] by (simp add: score_loop_eq)

lemma calculate_score_eq:
  "calculate_score fs = 100 - sum_list (map (severity_deduction \<circ> f_severity) fs)"
  by (simp add: calculate_score_def score_loop_eq)

lemma calculate_score_append: "calculate_score (xs @ ys) \<le> calculate_score xs"
  by (simp add: calculate_score_eq)

lemma count_finding_total:
  "s_critical (count_finding s f) + s_high (count_finding s f) + s_medium (count_finding s f)
     + s_low (count_finding s f) + s_info (count_finding s f) =
   Suc (s_critical s + s_high s + s_medium s + s_low s + s_info s)"
  by (cases "f_severity f") (simp_all add: count_finding_def Let_def)

definition sev_count :: "severity \<Rightarrow> audit_finding list \<Rightarrow> nat" where
  "sev_count sev fs = length (filter (\<lambda>f. f_severity f = sev) fs)"

lemma foldl_count_finding:
  "foldl count_finding s fs =
    \<lparr> s_critical = s_critical s + sev_count Critical fs, s_high = s_high s + sev_count High fs,
      s_medium = s_medium s + sev_count Medium fs, s_low = s_low s + sev_count Low fs,
      s_info = s_info s + sev_count Info fs,
      s_auto_fixable = s_auto_fixable s + length (filter f_auto_fixable fs) \<rparr>"
proof (induction fs arbitrary: s)
  case (Cons f fs)
  then show ?case
    by (cases "f_severity f") (simp_all add: count_finding_def sev_count_def Let_def)
qed (simp add: sev_count_def)

lemma compute_summary_eq:
  "compute_summary fs =
    \<lparr> s_critical = sev_count Critical fs, s_high = sev_count High fs,
      s_medium = sev_count Medium fs, s_low = sev_count Low fs, s_info = sev_count Info fs,
      s_auto_fixable = length (filter f_auto_fixable fs) \<rparr>"
  by (simp add: compute_summary_def foldl_count_finding summary_default_def)

lemma sev_count_total:
  "sev_count Critical fs + sev_count High fs + sev_count Medium fs + sev_count Low fs
     + sev_count Info fs = length fs"
proof (induction fs)
  case (Cons f fs)
  then show ?case by (cases "f_severity f") (simp_all add: sev_count_def)
qed (simp add: sev_count_def)

lemma deductions_by_severity:
  "sum_list (map (severity_deduction \<circ> f_severity) fs) =
    15 * sev_count Critical fs + 8 * sev_count High fs + 3 * sev_count Medium fs
      + sev_count Low fs"
proof (induction fs)
  case (Cons f fs)
  then show ?case by (cases "f_severity f") (simp_all add: sev_count_def)
qed (simp add: sev_count_def)

subsection \<open>Lemmas on the cross-layer pass\<close>

lemma set_bt_insert [simp]: "set (bt_insert x s) = insert x (set s)"
  by (auto simp: bt_insert_def set_insort_key)

lemma sorted_bt_insert: "sorted s \<Longrightarrow> sorted (bt_insert x s)"
  by (simp add: bt_insert_def sorted_insort)

lemma distinct_bt_insert: "distinct s \<Longrightarrow> distinct (bt_insert x s)"
  by (simp add: bt_insert_def distinct_insort)

definition carries_layer :: "audit_finding \<Rightarrow> maestro_layer \<Rightarrow> bool" where
  "carries_layer f l \<longleftrightarrow> f_maestro_layer f = Some l \<and> f_severity f \<noteq> Info"

lemma affected_layers_props:
  "set (affected_layers fs) = {l. \<exists>f\<in>set fs. carries_layer f l}"
  "sorted (affected_layers fs)" "distinct (affected_layers fs)"
proof -
  let ?step = "\<lambda>s f. case f_maestro_layer f of None \<Rightarrow> s
     | Some layer \<Rightarrow> if f_severity f \<noteq> Info then bt_insert layer s else s"
  have *: "set (foldl ?step s fs) = set s \<union> {l. \<exists>f\<in>set fs. carries_layer f l}
       \<and> (sorted s \<and> distinct s \<longrightarrow> sorted (foldl ?step s fs) \<and> distinct (foldl ?step s fs))"
    for s
  proof (induction fs arbitrary: s)
    case (Cons f fs)
    show ?case
      by (auto simp: Cons carries_layer_def sorted_bt_insert distinct_bt_insert
          split: option.splits)
  qed simp
  show "set (affected_layers fs) = {l. \<exists>f\<in>set fs. carries_layer f l}"
    "sorted (affected_layers fs)" "distinct (affected_layers fs)"
    using * [of "[]"] by (auto simp: affected_layers_def)
qed

lemma length_affected_layers:
  "length (affected_layers fs) = card {l. \<exists>f\<in>set fs. carries_layer f l}"
  using affected_layers_props [of fs] by (metis distinct_card)

lemma cross_finding_fields [simp]:
  "f_id (cross_finding a) = ''SC-CROSS-001''" "f_severity (cross_finding a) = High"
  "f_auto_fixable (cross_finding a) = False" "f_maestro_layer (cross_finding a) = Some L6"
  by (simp_all add: cross_finding_def builder_defs Let_def)

lemma cross_layer_risk_length: "length (cross_layer_risk fs) \<le> 1"
  by (simp add: cross_layer_risk_def Let_def)

subsection \<open>Lemmas on paths\<close>

lemma last_split_char_no_sep: "c \<notin> set (last (split_char c s))"
proof -
  have "last (split_by (\<lambda>x. x = c) s) \<in> set (split_by (\<lambda>x. x = c) s)" by simp
  from split_by_parts [OF this, of c] show ?thesis by (auto simp: split_char_def)
qed

lemma last_split_char_append:
  "c \<notin> set b \<Longrightarrow> last (split_char c (a @ c # b)) = b"
  by (subst split_char_def, subst split_by_append_sep, simp, subst split_by_no_sep [of b]) auto

end
