(* ===== verification/AuditRun.thy ===== *)
theory AuditRun
  imports Core Floats
begin

text \<open>
  The audited configuration tree (\<open>secureops-core/src/config.rs\<close>), the injected view of the host
  (\<open>context.rs\<close>) and the orchestrator \<open>run_audit\<close> (\<open>check.rs\<close>). Every configuration field is
  optional, as in the source. A \<open>Check\<close> is its category with its \<open>run\<close> method; the host view is a
  record of the trait's methods, so that a check is a function of it.

  The lemmas show that a report always agrees with its own findings, and that the cross-layer
  finding is appended after the findings of the checks in their order.
\<close>

subsection \<open>Configuration (config.rs)\<close>

record gateway_auth =
  ga_mode :: "string option"
  ga_token :: "string option"
  ga_password :: "string option"

record tls_config =
  tls_enabled :: "bool option"
  tls_cert :: "string option"
  tls_key :: "string option"

record mdns_config =
  mdns_mode :: "string option"

record control_ui_config =
  cu_dangerously_disable_device_auth :: "bool option"
  cu_allow_insecure_auth :: "bool option"

record gateway_config =
  gw_bind :: "string option"
  gw_port :: "u16 option"
  gw_auth_token :: "string option"
  gw_auth :: "gateway_auth option"
  gw_tls :: "tls_config option"
  gw_mdns :: "mdns_config option"
  gw_control_ui :: "control_ui_config option"
  gw_trusted_proxies :: "string list option"

record exec_config =
  ex_approvals :: "string option"
  ex_auto_approve :: "string list option"

record sandbox_config =
  sb_mode :: "string option"
  sb_scope :: "string option"
  sb_workspace_access :: "string option"

record tools_exec =
  te_host :: "string option"

record tools_config =
  tc_exec :: "tools_exec option"

record session_config =
  se_dm_scope :: "string option"

record logging_config =
  lg_redact_sensitive :: "string option"

datatype failure_mode = BlockAll | SafeMode | ReadOnly

datatype risk_profile = Strict | Standard | Permissive

record monitors_toggle =
  mt_credentials :: "bool option"
  mt_memory :: "bool option"
  mt_skills :: "bool option"
  mt_cost :: "bool option"

record cost_limits =
  cl_hourly_limit_usd :: "f64 option"
  cl_daily_limit_usd :: "f64 option"
  cl_monthly_limit_usd :: "f64 option"
  cl_circuit_breaker_enabled :: "bool option"

record memory_settings =
  ms_integrity_checks :: "bool option"
  ms_prompt_injection_scan :: "bool option"
  ms_quarantine_enabled :: "bool option"
  ms_trust_levels :: "bool option"

record skills_settings =
  sk_block_unaudited :: "bool option"
  sk_scan_on_install :: "bool option"
  sk_ioc_check_enabled :: "bool option"

record network_settings =
  nw_egress_allowlist_enabled :: "bool option"
  nw_egress_allowlist :: "string list option"

record risk_profile_def =
  rp_failure_mode :: "failure_mode option"
  rp_approval_required :: "bool option"
  rp_allowed_tools :: "string list option"
  rp_blocked_tools :: "string list option"
  rp_max_cost_per_session :: "f64 option"

record behavioral_settings =
  bh_baseline_enabled :: "bool option"
  bh_deviation_threshold :: "f64 option"
  bh_window_minutes :: "u64 option"

record secureops_config =
  so_monitors :: "monitors_toggle option"
  so_cost :: "cost_limits option"
  so_memory :: "memory_settings option"
  so_skills :: "skills_settings option"
  so_network :: "network_settings option"
  so_failure_mode :: "failure_mode option"
  so_risk_profile :: "risk_profile option"
  so_risk_profiles :: "(string, risk_profile_def) hmap option"
  so_behavioral :: "behavioral_settings option"

record openclaw_config =
  oc_gateway :: "gateway_config option"
  oc_exec :: "exec_config option"
  oc_sandbox :: "sandbox_config option"
  oc_tools :: "tools_config option"
  oc_session :: "session_config option"
  oc_logging :: "logging_config option"
  oc_secureops :: "secureops_config option"

definition openclaw_default :: openclaw_config where
  "openclaw_default = \<lparr> oc_gateway = None, oc_exec = None, oc_sandbox = None, oc_tools = None,
     oc_session = None, oc_logging = None, oc_secureops = None \<rparr>"

text \<open>\<open>parse\<close> is \<open>serde_json::from_str\<close> at the configuration type; it is a parameter.\<close>

definition from_json_or_default :: "(string \<Rightarrow> openclaw_config option) \<Rightarrow> string \<Rightarrow> openclaw_config"
  where "from_json_or_default parse content = unwrap_or (parse content) openclaw_default"

definition cfg_failure_mode :: "openclaw_config \<Rightarrow> failure_mode" where
  "cfg_failure_mode c = unwrap_or (Option.bind (oc_secureops c) so_failure_mode) BlockAll"

definition cfg_risk_profile :: "openclaw_config \<Rightarrow> risk_profile" where
  "cfg_risk_profile c = unwrap_or (Option.bind (oc_secureops c) so_risk_profile) Standard"

record docker_limits =
  dl_memory :: "string option"
  dl_cpus :: "string option"

record docker_resources =
  dr_limits :: "docker_limits option"

record docker_deploy =
  dd_resources :: "docker_resources option"

record docker_service_config =
  ds_read_only :: "bool option"
  ds_cap_drop :: "string list option"
  ds_security_opt :: "string list option"
  ds_networks :: "string list option"
  ds_network_mode :: "string option"
  ds_volumes :: "string list option"
  ds_deploy :: "docker_deploy option"

record docker_network =
  dn_driver :: "string option"
  dn_internal :: "bool option"

record docker_compose_config =
  dc_services :: "(string, docker_service_config) hmap option"
  dc_networks :: "(string, docker_network) hmap option"

subsection \<open>The host view (context.rs)\<close>

record file_info =
  fi_path :: string
  fi_permissions :: "u32 option"
  fi_content :: "string option"
  fi_exists :: "bool option"
  fi_size :: "u64 option"

record channel_config =
  ch_name :: string
  ch_dm_policy :: "string option"
  ch_group_policy :: "string option"
  ch_allowlist :: "string list option"

record skill_metadata =
  sm_name :: string
  sm_source :: "string option"
  sm_github_account_age :: "int option"
  sm_installed_at :: "string option"

record audit_context =
  cx_state_dir :: string
  cx_config :: openclaw_config
  cx_platform :: string
  cx_deployment_mode :: string
  cx_openclaw_version :: string
  cx_file_info :: "string \<Rightarrow> file_info"
  cx_read_file :: "string \<Rightarrow> string option"
  cx_list_dir :: "string \<Rightarrow> string list"
  cx_file_exists :: "string \<Rightarrow> bool"
  cx_get_file_permissions :: "string \<Rightarrow> u32 option"
  cx_channels :: "channel_config list"
  cx_skills :: "skill_metadata list"
  cx_docker_compose :: "docker_compose_config option"
  cx_session_logs :: "string list"
  cx_connection_logs :: "string list"

subsection \<open>The orchestrator (check.rs)\<close>

record audit_options =
  ao_deep :: bool
  ao_fix :: bool
  ao_json :: bool

record check =
  ck_category :: string
  ck_run :: "audit_context \<Rightarrow> audit_options \<Rightarrow> audit_finding list"

definition run_audit ::
  "audit_context \<Rightarrow> check list \<Rightarrow> audit_options \<Rightarrow> string \<Rightarrow> string \<Rightarrow> audit_report" where
  "run_audit ctx checks opts timestamp secureops_version =
    (let findings0 = foldl (\<lambda>acc c. acc @ ck_run c ctx opts) [] checks;
         cross = cross_layer_risk findings0;
         findings = findings0 @ cross;
         score = calculate_score findings;
         summary = compute_summary findings
     in \<lparr> r_timestamp = timestamp,
          r_openclaw_version = cx_openclaw_version ctx,
          r_secureops_version = secureops_version,
          r_platform = cx_platform ctx,
          r_deployment_mode = cx_deployment_mode ctx,
          r_score = score,
          r_findings = findings,
          r_summary = summary \<rparr>)"

lemma foldl_append_concat: "foldl (\<lambda>acc c. acc @ g c) a cs = a @ concat (map g cs)"
  by (induction cs arbitrary: a) auto

definition check_findings :: "check list \<Rightarrow> audit_context \<Rightarrow> audit_options \<Rightarrow> audit_finding list"
  where "check_findings checks ctx opts = concat (map (\<lambda>c. ck_run c ctx opts) checks)"

lemma run_audit_findings:
  "r_findings (run_audit ctx checks opts ts v) =
    check_findings checks ctx opts @ cross_layer_risk (check_findings checks ctx opts)"
  by (simp add: run_audit_def Let_def foldl_append_concat check_findings_def)

lemma run_audit_score:
  "r_score (run_audit ctx checks opts ts v) = calculate_score (r_findings (run_audit ctx checks opts ts v))"
  by (simp add: run_audit_def Let_def)

lemma run_audit_summary:
  "r_summary (run_audit ctx checks opts ts v) =
    compute_summary (r_findings (run_audit ctx checks opts ts v))"
  by (simp add: run_audit_def Let_def)

text \<open>
  A contract of the checks lifts to the whole audit: if every check only produces findings that
  satisfy a predicate, so does the report, up to the cross-layer finding.
\<close>

locale check_contract =
  fixes checks :: "check list" and P :: "audit_finding \<Rightarrow> bool"
  assumes check_ok: "c \<in> set checks \<Longrightarrow> f \<in> set (ck_run c ctx opts) \<Longrightarrow> P f"
begin

lemma audit_ok:
  "f \<in> set (r_findings (run_audit ctx checks opts ts v)) \<Longrightarrow>
    P f \<or> f_id f = ''SC-CROSS-001'' \<and> f_severity f = High"
  by (auto simp: run_audit_findings check_findings_def cross_layer_risk_def Let_def
      dest: check_ok split: if_splits)

end

subsection \<open>Properties\<close>

lemma cross_layer_risk_iff:
  "cross_layer_risk fs = (if 3 \<le> card {l. \<exists>f\<in>set fs. carries_layer f l}
     then [cross_finding (affected_layers fs)] else [])"
  by (simp add: cross_layer_risk_def Let_def length_affected_layers)

lemma finite_layers: "finite (A :: maestro_layer set)"
proof -
  have "A \<subseteq> {L1, L2, L3, L4, L5, L6, L7}"
  proof
    fix l :: maestro_layer show "l \<in> {L1, L2, L3, L4, L5, L6, L7}" by (cases l) simp_all
  qed
  then show ?thesis by (rule finite_subset) simp
qed

lemma cross_layer_risk_mono:
  assumes "cross_layer_risk fs \<noteq> []" and "set fs \<subseteq> set gs"
  shows "cross_layer_risk gs \<noteq> []"
proof -
  have "card {l. \<exists>f\<in>set fs. carries_layer f l} \<le> card {l. \<exists>f\<in>set gs. carries_layer f l}"
    using assms(2) by (intro card_mono finite_layers) auto
  with assms(1) show ?thesis by (auto simp: cross_layer_risk_iff split: if_splits)
qed

lemma cross_deduction:
  "sum_list (map (severity_deduction \<circ> f_severity) (cross_layer_risk fs))
    = (if cross_layer_risk fs = [] then 0 else 8)"
  by (simp add: cross_layer_risk_def Let_def)

text \<open>
  C33: the audit report is consistent with its findings, whatever the checks. The findings are those of the
  checks, in order, followed by the cross-layer finding exactly when at least three MAESTRO layers
  carry a finding above \<open>INFO\<close>; the counters partition the findings; and the score is
  100 less 15, 8, 3 and 1 for each critical, high, medium and low finding, but not below 0.
\<close>

theorem report_consistent:
  "let r = run_audit ctx checks opts ts v; base = check_findings checks ctx opts; s = r_summary r in
     r_findings r = base @ (if 3 \<le> card {l. \<exists>f\<in>set base. carries_layer f l}
        then [cross_finding (affected_layers base)] else [])
   \<and> s_critical s + s_high s + s_medium s + s_low s + s_info s = length (r_findings r)
   \<and> s_auto_fixable s = length (filter f_auto_fixable (r_findings r))
   \<and> r_score r = 100 - (15 * s_critical s + 8 * s_high s + 3 * s_medium s + s_low s)"
  using sev_count_total
  by (simp add: Let_def run_audit_summary compute_summary_eq run_audit_score calculate_score_eq
      deductions_by_severity) (simp add: run_audit_findings cross_layer_risk_iff)

text \<open>
  running more checks never raises the score, even though the cross-layer pass looks at all findings at
  once; and the loop's \<open>i32\<close> neither overflows nor wraps on a report of up to 143165583 findings.
\<close>

theorem more_checks_lower_score:
  "r_score (run_audit ctx (checks @ extra) opts ts v) \<le> r_score (run_audit ctx checks opts ts v)
   \<and> (length (r_findings (run_audit ctx checks opts ts v)) \<le> 143165583 \<longrightarrow>
       - (2 ^ 31) \<le> score_loop (r_findings (run_audit ctx checks opts ts v))
     \<and> score_loop (r_findings (run_audit ctx checks opts ts v)) < 2 ^ 31)"
proof -
  let ?d = "\<lambda>fs. sum_list (map (severity_deduction \<circ> f_severity) fs)"
  let ?a = "check_findings checks ctx opts" and ?b = "check_findings extra ctx opts"
  have "?d (cross_layer_risk ?a) \<le> ?d (cross_layer_risk (?a @ ?b))"
    using cross_layer_risk_mono [of ?a "?a @ ?b"] by (auto simp: cross_deduction)
  moreover have "check_findings (checks @ extra) ctx opts = ?a @ ?b" by (simp add: check_findings_def)
  ultimately have "?d (?a @ cross_layer_risk ?a)
      \<le> ?d (check_findings (checks @ extra) ctx opts
          @ cross_layer_risk (check_findings (checks @ extra) ctx opts))"
    by simp
  then show ?thesis
    using score_loop_in_i32 by (simp add: run_audit_score run_audit_findings calculate_score_eq)
qed

definition demo_check :: check where
  "demo_check = \<lparr> ck_category = ''demo'',
     ck_run = (\<lambda>_ _. [set_maestro (Some L1) (builder ''A'' High ''demo''),
       set_maestro (Some L2) (builder ''B'' Low ''demo''), set_maestro (Some L3) (builder ''C'' Info ''demo'')]) \<rparr>"

lemma more_checks_lower_score_witness:
  "\<forall>ctx. r_score (run_audit ctx ([demo_check] @ [demo_check]) (\<lparr> ao_deep = False, ao_fix = False, ao_json = False \<rparr>) [] [])
     \<le> r_score (run_audit ctx [demo_check] (\<lparr> ao_deep = False, ao_fix = False, ao_json = False \<rparr>) [] [])
   \<and> score_loop (r_findings (run_audit ctx [demo_check]
        (\<lparr> ao_deep = False, ao_fix = False, ao_json = False \<rparr>) [] [])) < 2 ^ 31"
proof
  fix ctx
  let ?o = "\<lparr> ao_deep = False, ao_fix = False, ao_json = False \<rparr>"
  have "length (r_findings (run_audit ctx [demo_check] ?o [] [])) \<le> 4"
    using cross_layer_risk_length [of "ck_run demo_check ctx ?o"]
    by (simp add: run_audit_findings check_findings_def demo_check_def)
  then show "r_score (run_audit ctx ([demo_check] @ [demo_check]) ?o [] [])
     \<le> r_score (run_audit ctx [demo_check] ?o [] [])
   \<and> score_loop (r_findings (run_audit ctx [demo_check] ?o [] [])) < 2 ^ 31"
    using more_checks_lower_score [of ctx "[demo_check]" "[demo_check]" ?o "[]" "[]"] by simp
qed

end
