(* ===== verification/Policy.thy ===== *)
theory Policy
  imports Core Json
begin

text \<open>
  The policy decision point, \<open>secureops-policy/src/lib.rs\<close>: requests and verdicts, the decision cache,
  the Rego engine \<open>RegoPdp\<close>, the allowlist engine and the Cedar engine \<open>CedarPdp\<close>.

  The evaluators \<open>regorus\<close> and \<open>cedar-policy\<close> and the library hasher are parameters (\<open>rego_api\<close>,
  \<open>cedar_api\<close>, \<open>H\<close>). The policies bundled in the source are translated rule by rule
  (\<open>rego_default_allow\<close>, \<open>rego_default_escalate\<close>, \<open>cedar_default_permit\<close>). A mutex is modelled
  with its poisoned flag, because the code takes a branch on it. \<open>Instant\<close>s are numbers of
  nanoseconds; an operation that reads the clock takes the time as an argument.

  The lemmas show that a verdict \<open>Allow\<close> always comes from the evaluator (or from a live cache
  entry written by it), that the cache never serves an expired entry and stays within its capacity,
  that a reload is atomic and leaves no stale verdict, and that the allowlist engines agree.
\<close>

subsection \<open>Requests and verdicts\<close>

datatype policy_error = Load string | Compile string | Evaluation string | Reload string

datatype decision = Allow | Deny | Escalate

fun decision_as_str :: "decision \<Rightarrow> string" where
  "decision_as_str Allow = ''ALLOW''"
| "decision_as_str Deny = ''DENY''"
| "decision_as_str Escalate = ''ESCALATE''"

definition is_allowed :: "decision \<Rightarrow> bool" where
  "is_allowed d = (case d of Allow \<Rightarrow> True | _ \<Rightarrow> False)"

datatype action = Connect | Resolve | Open | Exec | Capability

record syscall_event =
  sy_syscall :: string
  sy_target :: "string option"
  sy_age_ms :: u64

record decision_request =
  rq_action :: action
  rq_destination_host :: "string option"
  rq_destination_port :: "u16 option"
  rq_pid :: u32
  rq_comm :: "string option"
  rq_recent_syscalls :: "syscall_event list"
  rq_attributes :: "(string, string) hmap"

definition request_connect :: "u32 \<Rightarrow> string \<Rightarrow> u16 \<Rightarrow> decision_request" where
  "request_connect pid host port = \<lparr> rq_action = Connect, rq_destination_host = Some host,
     rq_destination_port = Some port, rq_pid = pid, rq_comm = None, rq_recent_syscalls = [],
     rq_attributes = [] \<rparr>"

record decision_response =
  rs_decision :: decision
  rs_reason :: string
  rs_severity :: "severity option"
  rs_policy_version :: "string option"
  rs_cached :: bool

definition response_new :: "decision \<Rightarrow> string \<Rightarrow> decision_response" where
  "response_new d reason = \<lparr> rs_decision = d, rs_reason = reason, rs_severity = None,
     rs_policy_version = None, rs_cached = False \<rparr>"

definition response_fail_closed :: "string \<Rightarrow> decision_response" where
  "response_fail_closed reason = response_new Deny reason"

datatype policy_language = Rego | Cedar

record policy_bundle =
  pb_version :: string
  pb_language :: policy_language
  pb_source :: string
  pb_data :: json

subsection \<open>Serialization of a request\<close>

text \<open>
  The serde attributes: \<open>Action\<close> is lowercase, \<open>DecisionRequest\<close> is camelCase, and \<open>SyscallEvent\<close> has no
  renaming, so its fields keep their Rust names.
\<close>

fun action_wire :: "action \<Rightarrow> string" where
  "action_wire Connect = ''connect''"
| "action_wire Resolve = ''resolve''"
| "action_wire Open = ''open''"
| "action_wire Exec = ''exec''"
| "action_wire Capability = ''capability''"

definition syscall_event_json :: "syscall_event \<Rightarrow> json" where
  "syscall_event_json e = JObj
     [(''syscall'', JStr (sy_syscall e)), (''target'', json_opt JStr (sy_target e)),
      (''age_ms'', JInt (uint (sy_age_ms e)))]"

definition request_json :: "decision_request \<Rightarrow> json" where
  "request_json r = JObj
     [(''action'', JStr (action_wire (rq_action r))),
      (''destinationHost'', json_opt JStr (rq_destination_host r)),
      (''destinationPort'', json_opt (\<lambda>p. JInt (uint p)) (rq_destination_port r)),
      (''pid'', JInt (uint (rq_pid r))),
      (''comm'', json_opt JStr (rq_comm r)),
      (''recentSyscalls'', JArr (map syscall_event_json (rq_recent_syscalls r))),
      (''attributes'', JObj (map (\<lambda>(k, v). (k, JStr v)) (rq_attributes r)))]"

subsection \<open>The bundled Rego policy\<close>

text \<open>
  \<open>DEFAULT_REGO_POLICY\<close>, rule by rule. A reference is undefined (\<open>None\<close>) when a member is missing, and
  an undefined expression makes the rule body fail; \<open>x[_]\<close> ranges over the elements of an array or
  the values of an object. \<open>lower\<close> is the Rego builtin.
\<close>

definition rego_iter :: "json option \<Rightarrow> json list" where
  "rego_iter v = (case v of Some (JArr xs) \<Rightarrow> xs | Some (JObj kvs) \<Rightarrow> map snd kvs | _ \<Rightarrow> [])"

definition rego_ref :: "json option \<Rightarrow> string \<Rightarrow> json option" where
  "rego_ref v k = Option.bind v (\<lambda>x. json_get x k)"

definition rego_listed :: "json \<Rightarrow> json \<Rightarrow> bool" where
  "rego_listed data input = list_ex (\<lambda>h. json_get input ''destinationHost'' = Some h)
     (rego_iter (json_get data ''allowedHosts''))"

definition rego_default_allow :: "json \<Rightarrow> json \<Rightarrow> bool" where
  "rego_default_allow data input =
    ((json_get input ''action'' = Some (JStr ''connect'') \<and> rego_listed data input)
     \<or> (json_get input ''action'' = Some (JStr ''resolve'') \<and> rego_listed data input)
     \<or> (case json_get input ''action'' of None \<Rightarrow> False
        | Some a \<Rightarrow> a \<noteq> JStr ''connect'' \<and> a \<noteq> JStr ''resolve''))"

definition rego_int_less :: "json option \<Rightarrow> int \<Rightarrow> bool" where
  "rego_int_less v n = (case v of
       Some (JInt i) \<Rightarrow> i < n
     | Some JNull \<Rightarrow> True
     | Some (JBool _) \<Rightarrow> True
     | Some (JFloat x) \<Rightarrow> flt_less x (Fin (of_int n))
     | _ \<Rightarrow> False)"

definition rego_suspicious_event :: "(string \<Rightarrow> string) \<Rightarrow> json \<Rightarrow> bool" where
  "rego_suspicious_event lower event =
    (json_get event ''syscall'' = Some (JStr ''openat'')
     \<and> (case json_get event ''target'' of Some (JStr t) \<Rightarrow> contains (lower t) ''.env'' | _ \<Rightarrow> False)
     \<and> rego_int_less (json_get event ''ageMs'') 5000)"

definition rego_default_escalate :: "(string \<Rightarrow> string) \<Rightarrow> json \<Rightarrow> json \<Rightarrow> bool" where
  "rego_default_escalate lower data input =
    (json_get input ''action'' = Some (JStr ''connect'')
     \<and> \<not> rego_default_allow data input
     \<and> list_ex (rego_suspicious_event lower) (rego_iter (json_get input ''recentSyscalls'')))"

subsection \<open>The decision cache\<close>

record cache_entry =
  ce_resp :: decision_response
  ce_inserted :: nat

fun action_debug :: "action \<Rightarrow> string" where
  "action_debug Connect = ''Connect''"
| "action_debug Resolve = ''Resolve''"
| "action_debug Open = ''Open''"
| "action_debug Exec = ''Exec''"
| "action_debug Capability = ''Capability''"

text \<open>
  The library's \<open>DefaultHasher\<close> does not fix its algorithm: \<open>H\<close> is the hash of the values fed to it,
  in order.
\<close>

type_synonym hasher = "string \<times> string \<times> u16 option \<times> u32 \<times> string \<Rightarrow> u64"

definition hash_request :: "hasher \<Rightarrow> decision_request \<Rightarrow> string \<Rightarrow> u64" where
  "hash_request H r policy_version =
    H (action_debug (rq_action r), unwrap_or (rq_destination_host r) [], rq_destination_port r,
       rq_pid r, policy_version)"

record decision_cache =
  dc_ttl :: nat
  dc_capacity :: nat
  dc_poisoned :: bool
  dc_entries :: "(u64, cache_entry) hmap"

definition cache_new :: "nat \<Rightarrow> nat \<Rightarrow> decision_cache" where
  "cache_new capacity ttl = \<lparr> dc_ttl = ttl, dc_capacity = capacity, dc_poisoned = False,
     dc_entries = [] \<rparr>"

definition cache_get ::
  "hasher \<Rightarrow> decision_cache \<Rightarrow> decision_request \<Rightarrow> string \<Rightarrow> nat
     \<Rightarrow> decision_response option \<times> decision_cache" where
  "cache_get H c r policy_version now =
    (let key = hash_request H r policy_version in
     if dc_poisoned c then (None, c)
     else case hm_get (dc_entries c) key of
         Some entry \<Rightarrow>
           if now - ce_inserted entry < dc_ttl c
           then (Some ((ce_resp entry)\<lparr>rs_cached := True\<rparr>), c)
           else (None, c\<lparr>dc_entries := hm_remove key (dc_entries c)\<rparr>)
       | None \<Rightarrow> (None, c))"

text \<open>\<open>min_by_key\<close> returns the first minimum in iteration order.\<close>

fun oldest_entry :: "(u64, cache_entry) hmap \<Rightarrow> (u64 \<times> cache_entry) option" where
  "oldest_entry [] = None"
| "oldest_entry (x # xs) =
    (case oldest_entry xs of None \<Rightarrow> Some x
     | Some y \<Rightarrow> if ce_inserted (snd y) < ce_inserted (snd x) then Some y else Some x)"

definition oldest_key :: "(u64, cache_entry) hmap \<Rightarrow> u64 option" where
  "oldest_key m = map_option fst (oldest_entry m)"

definition cache_put ::
  "hasher \<Rightarrow> decision_cache \<Rightarrow> decision_request \<Rightarrow> string \<Rightarrow> decision_response \<Rightarrow> nat
     \<Rightarrow> decision_cache" where
  "cache_put H c r policy_version resp now =
    (let key = hash_request H r policy_version in
     if dc_poisoned c then c
     else
       let m = (if hm_len (dc_entries c) \<ge> dc_capacity c
                then (case oldest_key (dc_entries c) of
                        Some k \<Rightarrow> hm_remove k (dc_entries c) | None \<Rightarrow> dc_entries c)
                else dc_entries c)
       in c\<lparr>dc_entries := hm_insert key \<lparr> ce_resp = resp, ce_inserted = now \<rparr> m\<rparr>)"

definition cache_clear :: "decision_cache \<Rightarrow> decision_cache" where
  "cache_clear c = (if dc_poisoned c then c else c\<lparr>dc_entries := []\<rparr>)"

subsection \<open>RegoPdp\<close>

text \<open>
  The interface of \<open>regorus\<close> and \<open>serde_json\<close> that \<open>RegoPdp\<close> calls: \<open>'e\<close> is an engine, \<open>'v\<close> a Rego value.
  Errors carry their message.
\<close>

record ('e, 'v) rego_api =
  rg_new :: 'e
  rg_add_policy :: "string \<Rightarrow> string \<Rightarrow> 'e \<Rightarrow> string + 'e"
  rg_value_from_json :: "string \<Rightarrow> string + 'v"
  rg_add_data :: "'v \<Rightarrow> 'e \<Rightarrow> string + 'e"
  rg_set_input :: "'v \<Rightarrow> 'e \<Rightarrow> 'e"
  rg_eval_bool :: "string \<Rightarrow> 'e \<Rightarrow> (string + bool) \<times> 'e"
  rg_to_string :: "json \<Rightarrow> string + string"

record 'e rego_pdp =
  rp_cache :: decision_cache
  rp_engine :: 'e
  rp_engine_poisoned :: bool
  rp_bundle_version :: string

definition rego_load_bundle ::
  "('e, 'v) rego_api \<Rightarrow> policy_bundle \<Rightarrow> policy_error + 'e" where
  "rego_load_bundle api bundle =
    (case rg_add_policy api ''secureops.rego'' (pb_source bundle) (rg_new api) of
       Inl e \<Rightarrow> Err (Compile e)
     | Inr engine \<Rightarrow>
         if json_is_null (pb_data bundle) then Ok engine
         else case rg_to_string api (pb_data bundle) of
             Inl e \<Rightarrow> Err (Compile e)
           | Inr data_json \<Rightarrow> (case rg_value_from_json api data_json of
               Inl e \<Rightarrow> Err (Compile e)
             | Inr data \<Rightarrow> (case rg_add_data api data engine of
                 Inl e \<Rightarrow> Err (Compile e)
               | Inr engine' \<Rightarrow> Ok engine')))"

definition language_debug :: "policy_language \<Rightarrow> string" where
  "language_debug l = (case l of Rego \<Rightarrow> ''Rego'' | Cedar \<Rightarrow> ''Cedar'')"

definition sixty_seconds :: nat where
  "sixty_seconds = 60000000000"

definition rego_new :: "('e, 'v) rego_api \<Rightarrow> policy_bundle \<Rightarrow> policy_error + 'e rego_pdp" where
  "rego_new api bundle =
    (if pb_language bundle \<noteq> Rego
     then Err (Compile (''only Rego supported, got '' @ language_debug (pb_language bundle)))
     else case rego_load_bundle api bundle of
         Inl e \<Rightarrow> Err e
       | Inr engine \<Rightarrow> Ok \<lparr> rp_cache = cache_new 1000 sixty_seconds, rp_engine = engine,
             rp_engine_poisoned = False, rp_bundle_version = pb_version bundle \<rparr>)"

text \<open>\<open>with_default_policy\<close> takes the text of \<open>DEFAULT_REGO_POLICY\<close> as \<open>src\<close>.\<close>

definition rego_default_data :: "string list \<Rightarrow> json" where
  "rego_default_data hosts = JObj [(''allowedHosts'', JArr (map JStr hosts))]"

definition rego_with_default_policy ::
  "('e, 'v) rego_api \<Rightarrow> string \<Rightarrow> string list \<Rightarrow> policy_error + 'e rego_pdp" where
  "rego_with_default_policy api src allowed_hosts =
    rego_new api \<lparr> pb_version = ''default-v1'', pb_language = Rego, pb_source = src,
      pb_data = rego_default_data allowed_hosts \<rparr>"

text \<open>
  \<open>from_dir\<close>: the two files of a directory. \<open>read\<close> is what reading a file gives, \<open>present\<close> whether \<open>data.json\<close> exists and \<open>parse\<close> the JSON parser.
\<close>

definition rego_from_dir ::
  "('e, 'v) rego_api \<Rightarrow> (string \<Rightarrow> string + string) \<Rightarrow> bool \<Rightarrow> (string \<Rightarrow> string + json) \<Rightarrow> string \<Rightarrow> policy_error + 'e rego_pdp" where
  "rego_from_dir api read present parse dir =
    (case read ''policy.rego'' of
       Inl e \<Rightarrow> Err (Load (''policy.rego: '' @ e))
     | Inr src \<Rightarrow>
         (case (if \<not> present then Ok JNull
                else case read ''data.json'' of
                    Inl e \<Rightarrow> Err (Load (''data.json: '' @ e))
                  | Inr txt \<Rightarrow> (case parse txt of Inl e \<Rightarrow> Err (Load (''data.json parse: '' @ e)) | Inr v \<Rightarrow> Ok v)) of
            Inl e \<Rightarrow> Err e
          | Inr data \<Rightarrow> rego_new api \<lparr> pb_version = ''file://'' @ dir, pb_language = Rego, pb_source = src, pb_data = data \<rparr>))"

definition query_allow :: string where "query_allow = ''data.secureops.policy.allow''"
definition query_escalate :: string where "query_escalate = ''data.secureops.policy.escalate''"

definition rego_eval_decision ::
  "('e, 'v) rego_api \<Rightarrow> 'e rego_pdp \<Rightarrow> decision_request \<Rightarrow> decision \<times> 'e rego_pdp" where
  "rego_eval_decision api pdp req =
    (case rg_to_string api (request_json req) of
       Inl _ \<Rightarrow> (Deny, pdp)
     | Inr input_json \<Rightarrow> (case rg_value_from_json api input_json of
         Inl _ \<Rightarrow> (Deny, pdp)
       | Inr input \<Rightarrow>
           if rp_engine_poisoned pdp then (Deny, pdp)
           else
             let e1 = rg_set_input api input (rp_engine pdp);
                 (r1, e2) = rg_eval_bool api query_allow e1;
                 allow = unwrap_or (ok r1) False
             in if allow then (Allow, pdp\<lparr>rp_engine := e2\<rparr>)
                else
                  let (r2, e3) = rg_eval_bool api query_escalate e2;
                      escalate = unwrap_or (ok r2) False
                  in (if escalate then Escalate else Deny, pdp\<lparr>rp_engine := e3\<rparr>)))"

text \<open>\<open>t1\<close> is the clock at the cache lookup, \<open>t2\<close> at the insertion.\<close>

definition rego_evaluate ::
  "('e, 'v) rego_api \<Rightarrow> hasher \<Rightarrow> 'e rego_pdp \<Rightarrow> decision_request \<Rightarrow> nat \<Rightarrow> nat
     \<Rightarrow> decision \<times> 'e rego_pdp" where
  "rego_evaluate api H pdp req t1 t2 =
    (case cache_get H (rp_cache pdp) req (rp_bundle_version pdp) t1 of
       (Some cached, c) \<Rightarrow> (rs_decision cached, pdp\<lparr>rp_cache := c\<rparr>)
     | (None, c) \<Rightarrow>
         let (d, pdp1) = rego_eval_decision api (pdp\<lparr>rp_cache := c\<rparr>) req
         in (d, pdp1\<lparr>rp_cache := cache_put H (rp_cache pdp1) req (rp_bundle_version pdp1)
                   (response_new d ''rego'') t2\<rparr>))"

definition rego_evaluate_detailed ::
  "('e, 'v) rego_api \<Rightarrow> hasher \<Rightarrow> 'e rego_pdp \<Rightarrow> decision_request \<Rightarrow> nat \<Rightarrow> nat
     \<Rightarrow> decision_response \<times> 'e rego_pdp" where
  "rego_evaluate_detailed api H pdp req t1 t2 =
    (case cache_get H (rp_cache pdp) req (rp_bundle_version pdp) t1 of
       (Some cached, c) \<Rightarrow> (cached, pdp\<lparr>rp_cache := c\<rparr>)
     | (None, c) \<Rightarrow>
         let (d, pdp1) = rego_eval_decision api (pdp\<lparr>rp_cache := c\<rparr>) req;
             resp = \<lparr> rs_decision = d, rs_reason = ''evaluated by Rego (secureops.policy)'',
                      rs_severity = (if d = Escalate then Some High else None),
                      rs_policy_version = Some (rp_bundle_version pdp1), rs_cached = False \<rparr>
         in (resp, pdp1\<lparr>rp_cache := cache_put H (rp_cache pdp1) req (rp_bundle_version pdp1)
                   resp t2\<rparr>))"

definition rego_reload ::
  "('e, 'v) rego_api \<Rightarrow> 'e rego_pdp \<Rightarrow> policy_bundle \<Rightarrow> (policy_error + unit) \<times> 'e rego_pdp" where
  "rego_reload api pdp bundle =
    (if pb_language bundle \<noteq> Rego then (Err (Reload ''only Rego supported''), pdp)
     else case rego_load_bundle api bundle of
         Inl e \<Rightarrow> (Err e, pdp)
       | Inr new_engine \<Rightarrow>
           if rp_engine_poisoned pdp then (Err (Reload ''engine lock poisoned''), pdp)
           else (Ok (), pdp\<lparr>rp_engine := new_engine, rp_cache := cache_clear (rp_cache pdp)\<rparr>))"

definition rego_version :: "'e rego_pdp \<Rightarrow> string option" where
  "rego_version pdp = Some (rp_bundle_version pdp)"

subsection \<open>AllowlistEngine\<close>

definition allowlist_evaluate :: "string hset \<Rightarrow> decision_request \<Rightarrow> decision" where
  "allowlist_evaluate allow_hosts req =
    (if rq_action req = Connect \<or> rq_action req = Resolve
     then if hs_contains allow_hosts (unwrap_or (rq_destination_host req) []) then Allow else Deny
     else Allow)"

subsection \<open>CedarPdp\<close>

text \<open>
  The interface of \<open>cedar-policy\<close>: parsing entity identifiers, building a request with its context,
  and the authorizer's verdict for the loaded policy set (\<open>True\<close> for \<open>Decision::Allow\<close>).
\<close>

record ('u, 'q, 'ps) cedar_api =
  cd_policy_set :: "string \<Rightarrow> string + 'ps"
  cd_uid :: "string \<Rightarrow> 'u option"
  cd_context_request :: "'u \<Rightarrow> 'u \<Rightarrow> 'u \<Rightarrow> json \<Rightarrow> 'q option"
  cd_authorized :: "'q \<Rightarrow> 'ps \<Rightarrow> bool"

record 'ps cedar_pdp =
  cp_cache :: decision_cache
  cp_policies :: 'ps
  cp_allow_hosts :: "string hset"
  cp_bundle_version :: string

definition cedar_new ::
  "('u, 'q, 'ps) cedar_api \<Rightarrow> string \<Rightarrow> string list \<Rightarrow> string \<Rightarrow> policy_error + 'ps cedar_pdp" where
  "cedar_new api src hosts version =
    (case cd_policy_set api src of
       Inl e \<Rightarrow> Err (Compile e)
     | Inr ps \<Rightarrow> Ok \<lparr> cp_cache = cache_new 1000 sixty_seconds, cp_policies = ps,
           cp_allow_hosts = hs_of_list hosts, cp_bundle_version = version \<rparr>)"

definition cedar_uid_text :: "string \<Rightarrow> string \<Rightarrow> string" where
  "cedar_uid_text ty name = ty @ ''::'' @ [CHR 0x22] @ name @ [CHR 0x22]"

definition cedar_allowed_by_policy :: "string hset \<Rightarrow> decision_request \<Rightarrow> bool" where
  "cedar_allowed_by_policy hosts req =
    (if rq_action req = Connect \<or> rq_action req = Resolve
     then hs_contains hosts (unwrap_or (rq_destination_host req) []) else True)"

definition replace_quote :: "string \<Rightarrow> string" where
  "replace_quote s = map (\<lambda>c. if c = CHR 0x22 then CHR 0x27 else c) s"

definition eval_cedar :: "('u, 'q, 'ps) cedar_api \<Rightarrow> 'ps cedar_pdp \<Rightarrow> decision_request \<Rightarrow> decision"
  where
  "eval_cedar api pdp req =
    (let host = unwrap_or (rq_destination_host req) [];
         allowed = cedar_allowed_by_policy (cp_allow_hosts pdp) req
     in case cd_uid api (cedar_uid_text ''Agent'' (''pid-'' @ show_nat (unat (rq_pid req)))) of
          None \<Rightarrow> Deny
        | Some prin \<Rightarrow> (case cd_uid api (cedar_uid_text ''Action'' (action_wire (rq_action req))) of
            None \<Rightarrow> Deny
          | Some act \<Rightarrow> (case cd_uid api (cedar_uid_text ''Resource'' (replace_quote host)) of
              None \<Rightarrow> Deny
            | Some resource \<Rightarrow>
                (case cd_context_request api prin act resource
                        (JObj [(''allowedByPolicy'', JBool allowed)]) of
                  None \<Rightarrow> Deny
                | Some q \<Rightarrow> if cd_authorized api q (cp_policies pdp) then Allow else Deny))))"

definition cedar_evaluate ::
  "('u, 'q, 'ps) cedar_api \<Rightarrow> hasher \<Rightarrow> 'ps cedar_pdp \<Rightarrow> decision_request \<Rightarrow> nat \<Rightarrow> nat
     \<Rightarrow> decision \<times> 'ps cedar_pdp" where
  "cedar_evaluate api H pdp req t1 t2 =
    (case cache_get H (cp_cache pdp) req (cp_bundle_version pdp) t1 of
       (Some cached, c) \<Rightarrow> (rs_decision cached, pdp\<lparr>cp_cache := c\<rparr>)
     | (None, c) \<Rightarrow>
         let d = eval_cedar api pdp req
         in (d, pdp\<lparr>cp_cache := cache_put H c req (cp_bundle_version pdp)
                  (response_new d ''cedar'') t2\<rparr>))"

definition cedar_evaluate_detailed ::
  "('u, 'q, 'ps) cedar_api \<Rightarrow> hasher \<Rightarrow> 'ps cedar_pdp \<Rightarrow> decision_request \<Rightarrow> nat \<Rightarrow> nat
     \<Rightarrow> decision_response \<times> 'ps cedar_pdp" where
  "cedar_evaluate_detailed api H pdp req t1 t2 =
    (case cache_get H (cp_cache pdp) req (cp_bundle_version pdp) t1 of
       (Some cached, c) \<Rightarrow> (cached, pdp\<lparr>cp_cache := c\<rparr>)
     | (None, c) \<Rightarrow>
         let d = eval_cedar api pdp req;
             resp = \<lparr> rs_decision = d,
                      rs_reason = ''evaluated by Cedar (secureops default policy)'',
                      rs_severity = (if d = Escalate then Some High else None),
                      rs_policy_version = Some (cp_bundle_version pdp), rs_cached = False \<rparr>
         in (resp, pdp\<lparr>cp_cache := cache_put H c req (cp_bundle_version pdp) resp t2\<rparr>))"

definition cedar_version :: "'ps cedar_pdp \<Rightarrow> string option" where
  "cedar_version pdp = Some (cp_bundle_version pdp)"

text \<open>\<open>DEFAULT_CEDAR_POLICY\<close>: its two \<open>permit\<close> rules; Cedar denies by default.\<close>

definition cedar_default_permit :: "action \<Rightarrow> bool option \<Rightarrow> bool" where
  "cedar_default_permit a allowedByPolicy =
    ((a = Connect \<or> a = Resolve) \<and> allowedByPolicy = Some True
     \<or> (a = Exec \<or> a = Open \<or> a = Capability))"

subsection \<open>Lemmas on the cache\<close>

definition cache_inv :: "decision_cache \<Rightarrow> bool" where
  "cache_inv c \<longleftrightarrow> hm_ok (dc_entries c) \<and> hm_len (dc_entries c) \<le> max 1 (dc_capacity c)"

lemma oldest_entry_None: "oldest_entry m = None \<longleftrightarrow> m = []"
  by (cases m) (auto split: option.splits if_splits)

lemma oldest_entry_least:
  "oldest_entry m = Some x \<Longrightarrow>
    x \<in> set m \<and> (\<forall>y\<in>set m. ce_inserted (snd x) \<le> ce_inserted (snd y))"
proof (induction m arbitrary: x)
  case (Cons a m)
  show ?case
  proof (cases "oldest_entry m")
    case None
    then have "m = []" by (simp add: oldest_entry_None)
    with Cons.prems show ?thesis by simp
  next
    case (Some y)
    with Cons.prems Cons.IH [OF Some] show ?thesis
      by (auto split: if_splits intro: order_trans less_imp_le)
  qed
qed simp

lemma oldest_key_present: "hm_ok m \<Longrightarrow> oldest_key m = Some k \<Longrightarrow> hm_get m k \<noteq> None"
  by (auto simp: oldest_key_def hm_get_def map_of_eq_None_iff image_iff
      dest!: oldest_entry_least intro: bexI [rotated])

lemma cache_inv_new [simp]: "cache_inv (cache_new cap ttl)"
  by (simp add: cache_inv_def cache_new_def hm_ok_def hm_len_def)

lemma cache_get_cases:
  "cache_get H c r v t = (Some resp, c') \<longleftrightarrow>
    c' = c \<and> \<not> dc_poisoned c \<and> (\<exists>e. hm_get (dc_entries c) (hash_request H r v) = Some e
      \<and> t - ce_inserted e < dc_ttl c \<and> resp = (ce_resp e)\<lparr>rs_cached := True\<rparr>)"
  by (auto simp: cache_get_def Let_def split: option.splits if_splits)

lemma cache_get_frame:
  "cache_get H c r v t = (o1, c') \<Longrightarrow>
    dc_ttl c' = dc_ttl c \<and> dc_capacity c' = dc_capacity c \<and> dc_poisoned c' = dc_poisoned c"
  by (auto simp: cache_get_def Let_def split: option.splits if_splits)

lemma cache_get_inv: "cache_inv c \<Longrightarrow> cache_get H c r v t = (o1, c') \<Longrightarrow> cache_inv c'"
  by (auto simp: cache_get_def Let_def cache_inv_def hm_laws split: option.splits if_splits)

lemma cache_put_frame [simp]:
  "dc_ttl (cache_put H c r v resp t) = dc_ttl c"
  "dc_capacity (cache_put H c r v resp t) = dc_capacity c"
  "dc_poisoned (cache_put H c r v resp t) = dc_poisoned c"
  by (simp_all add: cache_put_def Let_def)

lemma cache_put_inv:
  assumes "cache_inv c" shows "cache_inv (cache_put H c r v resp t)"
proof (cases "dc_poisoned c \<or> hm_len (dc_entries c) < dc_capacity c")
  case True
  with assms show ?thesis
    by (auto simp: cache_put_def cache_inv_def hm_laws Let_def)
next
  case False
  show ?thesis
  proof (cases "oldest_key (dc_entries c)")
    case None
    then have "dc_entries c = []" by (simp add: oldest_key_def oldest_entry_None)
    with False show ?thesis
      by (simp add: cache_put_def cache_inv_def hm_laws oldest_key_def) (simp add: hm_len_def)
  next
    case (Some k)
    with assms have "hm_get (dc_entries c) k \<noteq> None"
      by (auto simp: cache_inv_def dest: oldest_key_present)
    with assms False Some show ?thesis
      by (auto simp: cache_put_def cache_inv_def hm_laws Let_def)
  qed
qed

lemma cache_put_get:
  assumes "\<not> dc_poisoned c" and "t' - t < dc_ttl c"
    and "hash_request H r' v = hash_request H r v"
  shows "cache_get H (cache_put H c r v resp t) r' v t' =
    (Some (resp\<lparr>rs_cached := True\<rparr>), cache_put H c r v resp t)"
  using assms by (simp add: cache_get_cases) (simp add: cache_put_def hm_laws Let_def)

lemma cache_clear_inv: "cache_inv c \<Longrightarrow> cache_inv (cache_clear c)"
  by (auto simp: cache_clear_def cache_inv_def hm_laws hm_len_def)

lemma cache_get_clear:
  "\<not> dc_poisoned c \<Longrightarrow> cache_get H (cache_clear c) r v t = (None, cache_clear c)"
  by (simp add: cache_get_def cache_clear_def hm_laws)

lemma hash_request_cong:
  assumes "rq_action r' = rq_action r" "rq_destination_host r' = rq_destination_host r"
    "rq_destination_port r' = rq_destination_port r" "rq_pid r' = rq_pid r"
  shows "hash_request H r' v = hash_request H r v"
  using assms by (simp add: hash_request_def)

subsection \<open>Engines behind the cache\<close>

text \<open>
  \<open>RegoPdp\<close> and \<open>CedarPdp\<close> consult the cache in the same way. The interface: \<open>cache_of\<close>, \<open>ver\<close> and \<open>raw\<close>
  are the engine's cache, bundle version and uncached evaluation; \<open>ev\<close> is its cached evaluation. What
  holds of every such engine is proved here once.
\<close>

locale cached_engine =
  fixes H :: hasher
    and cache_of :: "'p \<Rightarrow> decision_cache"
    and ver :: "'p \<Rightarrow> string"
    and raw :: "'p \<Rightarrow> decision_request \<Rightarrow> decision"
    and ev :: "'p \<Rightarrow> decision_request \<Rightarrow> nat \<Rightarrow> nat \<Rightarrow> decision \<times> 'p"
  assumes hit: "cache_get H (cache_of p) r (ver p) t1 = (Some resp, c) \<Longrightarrow>
      fst (ev p r t1 t2) = rs_decision resp \<and> cache_of (snd (ev p r t1 t2)) = c"
    and miss: "cache_get H (cache_of p) r (ver p) t1 = (None, c) \<Longrightarrow>
      fst (ev p r t1 t2) = raw p r \<and>
      (\<exists>resp. rs_decision resp = raw p r \<and>
        cache_of (snd (ev p r t1 t2)) = cache_put H c r (ver p) resp t2)"
    and ver_ev: "ver (snd (ev p r t1 t2)) = ver p"
begin

lemma verdict_source:
  assumes "fst (ev p r t1 t2) = d"
  shows "raw p r = d \<or> (\<exists>e. hm_get (dc_entries (cache_of p)) (hash_request H r (ver p)) = Some e
    \<and> t1 - ce_inserted e < dc_ttl (cache_of p) \<and> rs_decision (ce_resp e) = d)"
proof (cases "cache_get H (cache_of p) r (ver p) t1")
  case (Pair o1 c)
  show ?thesis
  proof (cases o1)
    case None
    with Pair miss [of p r t1 c t2] assms show ?thesis by simp
  next
    case (Some resp)
    with Pair have g: "cache_get H (cache_of p) r (ver p) t1 = (Some resp, c)" by simp
    from hit [OF g, of t2] assms have "rs_decision resp = d" by simp
    with g show ?thesis by (fastforce simp: cache_get_cases)
  qed
qed

lemma ev_inv: "cache_inv (cache_of p) \<Longrightarrow> cache_inv (cache_of (snd (ev p r t1 t2)))"
proof -
  assume inv: "cache_inv (cache_of p)"
  obtain o1 c where g: "cache_get H (cache_of p) r (ver p) t1 = (o1, c)" by fastforce
  with inv have c: "cache_inv c" by (rule cache_get_inv)
  show ?thesis
  proof (cases o1)
    case None
    with g miss [of p r t1 c t2] c show ?thesis by (auto simp: cache_put_inv)
  next
    case (Some resp)
    with g hit [of p r t1 resp c t2] c show ?thesis by simp
  qed
qed

lemma repeat_within_ttl:
  assumes np: "\<not> dc_poisoned (cache_of p)" and key: "hash_request H r' (ver p) = hash_request H r (ver p)"
    and miss1: "fst (cache_get H (cache_of p) r (ver p) t1) = None"
    and fresh: "t3 - t2 < dc_ttl (cache_of p)"
  shows "fst (ev (snd (ev p r t1 t2)) r' t3 t4) = raw p r"
proof -
  obtain c where g: "cache_get H (cache_of p) r (ver p) t1 = (None, c)"
    using miss1 by (cases "cache_get H (cache_of p) r (ver p) t1") simp
  from miss [OF g, of t2] obtain resp where d: "rs_decision resp = raw p r"
    and c2: "cache_of (snd (ev p r t1 t2)) = cache_put H c r (ver p) resp t2" by blast
  have "cache_get H (cache_of (snd (ev p r t1 t2))) r' (ver (snd (ev p r t1 t2))) t3 =
      (Some (resp\<lparr>rs_cached := True\<rparr>), cache_put H c r (ver p) resp t2)"
    unfolding c2 ver_ev using np key fresh cache_get_frame [OF g] by (intro cache_put_get) simp_all
  from hit [OF this, of t4] d show ?thesis by simp
qed

end

lemma rego_eval_decision_frame:
  "rego_eval_decision api pdp req = (d, pdp') \<Longrightarrow>
    rp_cache pdp' = rp_cache pdp \<and> rp_bundle_version pdp' = rp_bundle_version pdp"
  by (auto simp: rego_eval_decision_def Let_def split: sum.splits if_splits prod.splits)

lemma rego_eval_decision_cache_indep:
  "fst (rego_eval_decision api (pdp\<lparr>rp_cache := c\<rparr>) req) = fst (rego_eval_decision api pdp req)"
  by (auto simp: rego_eval_decision_def Let_def split: sum.splits prod.splits)

definition rego_raw :: "('e, 'v) rego_api \<Rightarrow> 'e rego_pdp \<Rightarrow> decision_request \<Rightarrow> decision" where
  "rego_raw api pdp req = fst (rego_eval_decision api pdp req)"

interpretation rego: cached_engine H rp_cache rp_bundle_version "rego_raw api"
    "rego_evaluate api H" for H api
proof unfold_locales
  fix p :: "'a rego_pdp" and r t1 t2 resp c
  assume "cache_get H (rp_cache p) r (rp_bundle_version p) t1 = (Some resp, c)"
  then show "fst (rego_evaluate api H p r t1 t2) = rs_decision resp
      \<and> rp_cache (snd (rego_evaluate api H p r t1 t2)) = c"
    by (simp add: rego_evaluate_def)
next
  fix p :: "'a rego_pdp" and r t1 t2 c
  assume g: "cache_get H (rp_cache p) r (rp_bundle_version p) t1 = (None, c)"
  obtain d p1 where e: "rego_eval_decision api (p\<lparr>rp_cache := c\<rparr>) r = (d, p1)" by fastforce
  from rego_eval_decision_frame [OF e] have p1: "rp_cache p1 = c"
    "rp_bundle_version p1 = rp_bundle_version p" by simp_all
  have d: "d = rego_raw api p r"
    using rego_eval_decision_cache_indep [where pdp = p and c = c and api = api and req = r] e by (simp add: rego_raw_def)
  show "fst (rego_evaluate api H p r t1 t2) = rego_raw api p r \<and>
      (\<exists>resp. rs_decision resp = rego_raw api p r \<and>
        rp_cache (snd (rego_evaluate api H p r t1 t2)) =
          cache_put H c r (rp_bundle_version p) resp t2)"
    using g e p1 d by (auto simp: rego_evaluate_def response_new_def
        intro!: exI [of _ "response_new d ''rego''"])
next
  fix p :: "'a rego_pdp" and r t1 t2
  show "rp_bundle_version (snd (rego_evaluate api H p r t1 t2)) = rp_bundle_version p"
    by (auto simp: rego_evaluate_def split: prod.splits option.splits
        dest!: rego_eval_decision_frame)
qed

interpretation cedar: cached_engine H cp_cache cp_bundle_version "eval_cedar api"
    "cedar_evaluate api H" for H api
  by unfold_locales
    (auto simp: cedar_evaluate_def response_new_def Let_def split: prod.splits option.splits
      intro!: exI [of _ "response_new _ ''cedar''"])

subsection \<open>Lemmas on the bundled policies\<close>

definition is_egress :: "action \<Rightarrow> bool" where
  "is_egress a \<longleftrightarrow> a = Connect \<or> a = Resolve"

lemma action_wire_inject: "action_wire a = action_wire b \<longleftrightarrow> a = b"
  by (cases a; cases b; simp)

lemma request_json_get [simp]:
  "json_get (request_json r) ''action'' = Some (JStr (action_wire (rq_action r)))"
  "json_get (request_json r) ''destinationHost'' = Some (json_opt JStr (rq_destination_host r))"
  "json_get (request_json r) ''recentSyscalls'' =
     Some (JArr (map syscall_event_json (rq_recent_syscalls r)))"
  by (simp_all add: request_json_def)

lemma syscall_event_json_no_ageMs [simp]: "json_get (syscall_event_json e) ''ageMs'' = None"
  by (simp add: syscall_event_json_def)

lemma no_suspicious_event: "\<not> rego_suspicious_event lower (syscall_event_json e)"
  by (simp add: rego_suspicious_event_def rego_int_less_def)

lemma rego_default_escalate_never: "\<not> rego_default_escalate lower data (request_json r)"
  by (auto simp: rego_default_escalate_def rego_iter_def list_ex_iff no_suspicious_event)

lemma rego_listed_default:
  "rego_listed (rego_default_data hosts) (request_json r) \<longleftrightarrow>
    (\<exists>h. rq_destination_host r = Some h \<and> h \<in> set hosts)"
  by (cases "rq_destination_host r")
    (auto simp: rego_listed_def rego_default_data_def rego_iter_def list_ex_iff json_opt_def)

lemma rego_default_allow_default:
  "rego_default_allow (rego_default_data hosts) (request_json r) \<longleftrightarrow>
    (is_egress (rq_action r) \<longrightarrow> (\<exists>h. rq_destination_host r = Some h \<and> h \<in> set hosts))"
  unfolding rego_default_allow_def rego_listed_default is_egress_def
  by (cases "rq_action r") simp_all

lemma rego_raw_Allow:
  "rego_raw api pdp req = Allow \<longleftrightarrow>
    (\<exists>s v. rg_to_string api (request_json req) = Ok s \<and> rg_value_from_json api s = Ok v
      \<and> \<not> rp_engine_poisoned pdp
      \<and> fst (rg_eval_bool api query_allow (rg_set_input api v (rp_engine pdp))) = Ok True)"
  by (auto simp: rego_raw_def rego_eval_decision_def ok_def Let_def unwrap_or_def
      split: sum.splits prod.splits option.splits)

inductive cache_reachable :: "hasher \<Rightarrow> nat \<Rightarrow> nat \<Rightarrow> decision_cache \<Rightarrow> bool"
  for H cap ttl where
  new: "cache_reachable H cap ttl (cache_new cap ttl)"
| get: "cache_reachable H cap ttl c \<Longrightarrow> cache_get H c r v t = (o1, c') \<Longrightarrow>
    cache_reachable H cap ttl c'"
| put: "cache_reachable H cap ttl c \<Longrightarrow> cache_reachable H cap ttl (cache_put H c r v resp t)"
| clear: "cache_reachable H cap ttl c \<Longrightarrow> cache_reachable H cap ttl (cache_clear c)"

lemma cache_reachable_inv:
  "cache_reachable H cap ttl c \<Longrightarrow> cache_inv c \<and> dc_capacity c = cap \<and> dc_ttl c = ttl"
proof (induction rule: cache_reachable.induct)
  case new
  then show ?case by simp (simp add: cache_new_def)
next
  case (get c r v t o1 c')
  then show ?case using cache_get_inv cache_get_frame by metis
next
  case (put c r v resp t)
  then show ?case by (simp add: cache_put_inv)
next
  case (clear c)
  then show ?case by (simp add: cache_clear_inv) (simp add: cache_clear_def)
qed

subsection \<open>Properties\<close>


text \<open>A concrete evaluator of the bundled policy: an engine is the pair of its data and its input.\<close>

definition demo_rego_api :: "json \<Rightarrow> (json \<times> json, json) rego_api" where
  "demo_rego_api input = \<lparr> rg_new = (JNull, JNull), rg_add_policy = (\<lambda>_ _ e. Ok e),
     rg_value_from_json = (\<lambda>_. Ok input), rg_add_data = (\<lambda>v (_, i). Ok (v, i)),
     rg_set_input = (\<lambda>v (d, _). (d, v)),
     rg_eval_bool = (\<lambda>q (d, i). (Ok (if q = query_allow then rego_default_allow d i
        else rego_default_escalate (\<lambda>s. s) d i), (d, i))),
     rg_to_string = (\<lambda>_. Ok ''{}'') \<rparr>"

definition demo_hasher :: hasher where
  "demo_hasher x = (case x of (a, h, p, pid, v) \<Rightarrow> of_nat (length a + length h) + ucast pid)"

definition demo_pdp :: "(json \<times> json) rego_pdp" where
  "demo_pdp = \<lparr> rp_cache = cache_new 1000 sixty_seconds,
     rp_engine = (rego_default_data [''a.com''], JNull), rp_engine_poisoned = False,
     rp_bundle_version = ''default-v1'' \<rparr>"

lemmas demo_defs = demo_rego_api_def demo_hasher_def demo_pdp_def


text \<open>
  The bundled Rego policy decides exactly like the allowlist engine and never escalates: the
  requests it is given carry the age of a system call as \<open>age_ms\<close>, while its escalation rule
  reads \<open>ageMs\<close>, so the rule for a secret read followed by a connect cannot fire. The hypotheses say
  that the evaluator returns the value of the two bundled rules on the serialized request.
\<close>

theorem default_rego_is_allowlist:
  assumes "rg_to_string api (request_json req) = Ok s" and "rg_value_from_json api s = Ok v"
    and "\<not> rp_engine_poisoned pdp"
    and "rg_eval_bool api query_allow (rg_set_input api v (rp_engine pdp)) =
       (Ok (rego_default_allow (rego_default_data hosts) (request_json req)), e2)"
    and "fst (rg_eval_bool api query_escalate e2) =
       Ok (rego_default_escalate lower (rego_default_data hosts) (request_json req))"
    and "[] \<notin> set hosts"
  shows "rego_raw api pdp req = allowlist_evaluate (hs_of_list hosts) req
    \<and> rego_raw api pdp req \<noteq> Escalate"
proof -
  obtain r2 e3 where e3: "rg_eval_bool api query_escalate e2 = (r2, e3)" by fastforce
  with assms(5) have r2: "r2 = Ok False" by (simp add: rego_default_escalate_never)
  have "rego_raw api pdp req =
      (if rego_default_allow (rego_default_data hosts) (request_json req) then Allow else Deny)"
    using assms e3 r2 by (simp add: rego_raw_def rego_eval_decision_def)
  then show ?thesis
    using assms(6) by (auto simp: rego_default_allow_default allowlist_evaluate_def is_egress_def
        hs_contains_of_list unwrap_or_def split: option.splits)
qed

text \<open>The request of an exfiltration in progress: a secret was read 200 ms before the connect.\<close>

definition exfil_request :: decision_request where
  "exfil_request = (request_connect 7 ''evil.com'' 443)\<lparr>rq_recent_syscalls :=
     [\<lparr> sy_syscall = ''openat'', sy_target = Some ''/home/agent/.env'', sy_age_ms = 200 \<rparr>]\<rparr>"

theorem default_rego_is_allowlist_witness:
  "rego_raw (demo_rego_api (request_json exfil_request)) demo_pdp exfil_request = Deny"
proof -
  let ?api = "demo_rego_api (request_json exfil_request)"
  let ?d = "rego_default_data [''a.com'']"
  have "rego_raw ?api demo_pdp exfil_request = allowlist_evaluate (hs_of_list [''a.com'']) exfil_request
      \<and> rego_raw ?api demo_pdp exfil_request \<noteq> Escalate"
    by (rule default_rego_is_allowlist [where s = "''{}''" and v = "request_json exfil_request"
          and ?e2.0 = "(?d, request_json exfil_request)" and lower = "\<lambda>s. s"])
      (simp_all add: demo_defs query_allow_def query_escalate_def)
  then show ?thesis
    by (simp add: allowlist_evaluate_def exfil_request_def request_connect_def hs_contains_of_list)
qed

text \<open>
  A cached verdict ignores everything the cache key leaves out. Once a request has been
  evaluated, every request with the same action, host, port and process within the time to live
  gets the same verdict, whatever its recent system calls, command name and attributes are, and
  whatever the policy would decide for it.
\<close>

theorem cached_verdict_ignores_context:
  assumes "\<not> dc_poisoned (rp_cache pdp)"
    and "fst (cache_get H (rp_cache pdp) r (rp_bundle_version pdp) t1) = None"
    and "t3 - t2 < dc_ttl (rp_cache pdp)"
  shows "fst (rego_evaluate api H (snd (rego_evaluate api H pdp r t1 t2))
      (r\<lparr>rq_comm := c', rq_recent_syscalls := sys', rq_attributes := attrs'\<rparr>) t3 t4) =
    fst (rego_evaluate api H pdp r t1 t2)"
proof -
  let ?r' = "r\<lparr>rq_comm := c', rq_recent_syscalls := sys', rq_attributes := attrs'\<rparr>"
  obtain c where g: "cache_get H (rp_cache pdp) r (rp_bundle_version pdp) t1 = (None, c)"
    using assms(2) by (cases "cache_get H (rp_cache pdp) r (rp_bundle_version pdp) t1") simp
  have "hash_request H ?r' (rp_bundle_version pdp) = hash_request H r (rp_bundle_version pdp)"
    by (rule hash_request_cong) simp_all
  from rego.repeat_within_ttl [OF assms(1) this assms(2,3), of api t4]
  show ?thesis using rego.miss [OF g, of api t2] by simp
qed

theorem cached_verdict_ignores_context_witness:
  "fst (rego_evaluate (demo_rego_api (request_json (request_connect 7 ''evil.com'' 443))) demo_hasher
     (snd (rego_evaluate (demo_rego_api (request_json (request_connect 7 ''evil.com'' 443)))
        demo_hasher demo_pdp (request_connect 7 ''evil.com'' 443) 0 1))
     ((request_connect 7 ''evil.com'' 443)\<lparr>rq_comm := None,
        rq_recent_syscalls := rq_recent_syscalls exfil_request, rq_attributes := []\<rparr>) 2 3) = Deny"
proof -
  let ?r = "request_connect 7 ''evil.com'' 443"
  let ?api = "demo_rego_api (request_json ?r)"
  have p: "\<not> dc_poisoned (rp_cache demo_pdp)"
    and m: "fst (cache_get demo_hasher (rp_cache demo_pdp) ?r (rp_bundle_version demo_pdp) 0) = None"
    and t: "2 - 1 < dc_ttl (rp_cache demo_pdp)"
    by (simp_all add: demo_pdp_def cache_new_def cache_get_def hm_laws sixty_seconds_def)
  have "fst (rego_evaluate ?api demo_hasher demo_pdp ?r 0 1) = Deny"
    by (simp add: rego_evaluate_def demo_defs cache_get_def cache_new_def hm_laws
        rego_eval_decision_def rego_default_allow_default is_egress_def request_connect_def
        rego_default_escalate_never [unfolded request_connect_def] query_allow_def
        query_escalate_def)
  with cached_verdict_ignores_context [where api = ?api and ?t4.0 = 3, OF p m t]
  show ?thesis by (simp only:)
qed

text \<open>
  A hot reload is atomic. If it reports an error, the engine, its cache and its version are
  unchanged; if it succeeds, the new bundle's engine is active and the next evaluation is made by it
  (no verdict of the old policy survives), while the reported version stays the old one.
\<close>

theorem rego_reload_atomic:
  "case rego_reload api pdp bundle of
     (Inl e, pdp') \<Rightarrow> pdp' = pdp
   | (Inr u, pdp') \<Rightarrow>
       rego_load_bundle api bundle = Ok (rp_engine pdp')
       \<and> (dc_poisoned (rp_cache pdp)
          \<or> fst (rego_evaluate api H pdp' req t1 t2) = rego_raw api pdp' req)
       \<and> rego_version pdp' = rego_version pdp"
proof (cases "fst (rego_reload api pdp bundle)")
  case (Inl e)
  then show ?thesis
    by (auto simp: rego_reload_def split: sum.splits if_splits)
next
  case (Inr u)
  then obtain e where e: "rego_load_bundle api bundle = Ok e"
    and np: "pb_language bundle = Rego" "\<not> rp_engine_poisoned pdp"
    by (auto simp: rego_reload_def split: sum.splits if_splits)
  let ?p = "pdp\<lparr>rp_engine := e, rp_cache := cache_clear (rp_cache pdp)\<rparr>"
  have "dc_poisoned (rp_cache pdp) \<or> fst (rego_evaluate api H ?p req t1 t2) = rego_raw api ?p req"
    using rego.miss [of H ?p req t1 "cache_clear (rp_cache pdp)" api t2]
      cache_get_clear [of "rp_cache pdp" H req "rp_bundle_version pdp" t1] by auto
  with e np show ?thesis by (simp add: rego_reload_def rego_version_def)
qed



text \<open>
  The Cedar engine with its bundled policy and the allowlist engine decide alike: if the Cedar
  library accepts the identifiers and the context and evaluates the bundled rules, the verdict is
  that of the allowlist; if it rejects any of them, the verdict is \<open>Deny\<close>.
\<close>

theorem default_cedar_is_allowlist:
  assumes "\<And>q. cd_context_request api prin act res
         (JObj [(''allowedByPolicy'', JBool (cedar_allowed_by_policy (cp_allow_hosts pdp) req))]) = Some q
       \<Longrightarrow> cd_authorized api q (cp_policies pdp) =
           cedar_default_permit (rq_action req) (Some (cedar_allowed_by_policy (cp_allow_hosts pdp) req))"
    and "cd_uid api (cedar_uid_text ''Agent'' (''pid-'' @ show_nat (unat (rq_pid req)))) = Some prin"
    and "cd_uid api (cedar_uid_text ''Action'' (action_wire (rq_action req))) = Some act"
    and "cd_uid api (cedar_uid_text ''Resource'' (replace_quote (unwrap_or (rq_destination_host req) [])))
       = Some res"
  shows "eval_cedar api pdp req =
    (if cd_context_request api prin act res
         (JObj [(''allowedByPolicy'', JBool (cedar_allowed_by_policy (cp_allow_hosts pdp) req))]) = None
     then Deny else allowlist_evaluate (cp_allow_hosts pdp) req)"
  using assms by (cases "rq_action req")
    (auto simp: eval_cedar_def cedar_allowed_by_policy_def cedar_default_permit_def
      allowlist_evaluate_def Let_def split: option.splits)

definition demo_cedar_api :: "(string, string \<times> json, unit) cedar_api" where
  "demo_cedar_api = \<lparr> cd_policy_set = (\<lambda>_. Ok ()), cd_uid = Some,
     cd_context_request = (\<lambda>_ a _ ctx. Some (a, ctx)),
     cd_authorized = (\<lambda>(_, ctx) _. json_get ctx ''allowedByPolicy'' = Some (JBool True)) \<rparr>"

theorem default_cedar_is_allowlist_witness:
  "eval_cedar demo_cedar_api \<lparr> cp_cache = cache_new 1000 sixty_seconds, cp_policies = (),
      cp_allow_hosts = [''a.com''], cp_bundle_version = ''default-cedar-v1'' \<rparr>
      (request_connect 1 ''b.com'' 443) = Deny"
  using default_cedar_is_allowlist [where api = demo_cedar_api
      and pdp = "\<lparr> cp_cache = cache_new 1000 sixty_seconds, cp_policies = (),
        cp_allow_hosts = [''a.com''], cp_bundle_version = ''default-cedar-v1'' \<rparr>"
      and req = "request_connect 1 ''b.com'' 443"]
  by (simp add: demo_cedar_api_def cedar_default_permit_def request_connect_def
      allowlist_evaluate_def hs_contains_def)

end
