(* ===== verification/Proxy.thy ===== *)
theory Proxy
  imports Core
begin

text \<open>
  The egress enforcement point, \<open>secureops-proxy/src/lib.rs\<close>: the forward proxy's connection handler,
  the allowlist decision point it consults today, the DNS sinkhole and the audit bridge.

  A connection is a run of \<open>handle_connection\<close> over the results of the reads from the client; what
  it does to the outside is the list of its effects (writes to the client, the dial to the
  upstream, the splice). The decision point, the dialer and the success of the two writes
  that can fail visibly are parameters. The DNS message codec is \<open>hickory_proto\<close> and is a parameter.

  The lemmas show that no upstream is ever dialled without an \<open>Allow\<close> for exactly that host and port,
  that every other outcome is a single error response, that the request buffer is bounded, and that the
  sinkhole forwards a query only when its first name is allowlisted.
\<close>

subsection \<open>Types\<close>

datatype pdecision = PAllow | PDeny | PEscalate

record sock_addr =
  sa_ip :: string
  sa_port :: u16

record peeked_host =
  ph_sni :: "string option"
  ph_requested_host :: "string option"
  ph_dest :: sock_addr

record connection_request =
  cr_host :: peeked_host
  cr_pid :: "u32 option"

datatype fail_mode = Closed | FailOpen

datatype enforcement_tier = KernelDeny | ObserveOnly | ProxyOnly

datatype target_os = Linux | MacOs | OtherOs

definition tier_current :: "target_os \<Rightarrow> enforcement_tier" where
  "tier_current os = (case os of Linux \<Rightarrow> KernelDeny | MacOs \<Rightarrow> ObserveOnly | OtherOs \<Rightarrow> ProxyOnly)"

record egress_proxy =
  ep_fail_mode :: fail_mode
  ep_tier :: enforcement_tier

definition proxy_new :: "target_os \<Rightarrow> egress_proxy" where
  "proxy_new os = \<lparr> ep_fail_mode = Closed, ep_tier = tier_current os \<rparr>"

type_synonym authorizer = "connection_request \<Rightarrow> string + pdecision"

subsection \<open>Error handling of the proxy object\<close>

datatype on_error_outcome = HardRst pdecision | AllowUnsafe | AssertionFailed

text \<open>\<open>debug\<close> tells whether debug assertions are compiled in.\<close>

definition on_error :: "bool \<Rightarrow> egress_proxy \<Rightarrow> on_error_outcome" where
  "on_error debug p = (case ep_fail_mode p of
       Closed \<Rightarrow> HardRst PDeny
     | FailOpen \<Rightarrow> if debug \<and> ep_tier p = ObserveOnly then AssertionFailed else AllowUnsafe)"

subsection \<open>One proxied connection\<close>

definition parse_connect_target :: "string \<Rightarrow> (string \<times> u16) option" where
  "parse_connect_target target = (case rsplit_once (CHR '':'') target of
       Some (host, port) \<Rightarrow> (case parse_unsigned 65535 port of
           None \<Rightarrow> None | Some p \<Rightarrow> Some (host, of_nat p))
     | None \<Rightarrow> Some (target, 443))"

definition crlf :: string where "crlf = [carriage_return, newline]"

datatype head_result = ReadFailed string | Eof | Head string | Pending

text \<open>
  The read loop: one element per \<open>read\<close>, an error or the bytes read (none at end of file). \<open>Pending\<close>
  means that the client has sent nothing more yet.
\<close>

fun read_head :: "string \<Rightarrow> (string + string) list \<Rightarrow> head_result" where
  "read_head buf [] = Pending"
| "read_head buf (Inl e # reads) = ReadFailed e"
| "read_head buf (Inr bs # reads) =
    (if bs = [] then Eof
     else let buf' = buf @ bs
          in if contains buf' (crlf @ crlf) \<or> length buf' > 16 * 1024 then Head buf'
             else read_head buf' reads)"

datatype effect = WriteClient string | Dial string u16 | Splice

definition http_400 :: string where "http_400 = ''HTTP/1.1 400 Bad Request'' @ crlf @ crlf"
definition http_403 :: string where "http_403 = ''HTTP/1.1 403 Forbidden'' @ crlf @ crlf"
definition http_502 :: string where "http_502 = ''HTTP/1.1 502 Bad Gateway'' @ crlf @ crlf"
definition http_200 :: string where
  "http_200 = ''HTTP/1.1 200 Connection Established'' @ crlf @ crlf"

definition connect_request :: "string \<Rightarrow> u16 \<Rightarrow> connection_request" where
  "connect_request host port = \<lparr> cr_host = \<lparr> ph_sni = None, ph_requested_host = Some host,
     ph_dest = \<lparr> sa_ip = ''0.0.0.0'', sa_port = port \<rparr> \<rparr>, cr_pid = None \<rparr>"

record net_env =
  ne_authorize :: authorizer
  ne_dial :: "string \<Rightarrow> u16 \<Rightarrow> bool"
  ne_write_ok :: bool
  ne_copy_ok :: bool

definition first_line :: "string \<Rightarrow> string" where
  "first_line head = (case lines head of [] \<Rightarrow> [] | l # _ \<Rightarrow> l)"

definition decide :: "net_env \<Rightarrow> fail_mode \<Rightarrow> string \<Rightarrow> u16 \<Rightarrow> pdecision" where
  "decide env fm host port = (case ne_authorize env (connect_request host port) of
       Inr d \<Rightarrow> d
     | Inl _ \<Rightarrow> (case fm of Closed \<Rightarrow> PDeny | FailOpen \<Rightarrow> PAllow))"

definition handle_connection ::
  "net_env \<Rightarrow> fail_mode \<Rightarrow> (string + string) list \<Rightarrow> effect list \<times> (string + unit) option" where
  "handle_connection env fm reads =
    (case read_head [] reads of
       Pending \<Rightarrow> ([], None)
     | ReadFailed e \<Rightarrow> ([], Some (Err e))
     | Eof \<Rightarrow> ([], Some (Ok ()))
     | Head buf \<Rightarrow>
         let head = from_utf8_lossy buf;
             parts = split_whitespace (first_line head)
         in if length parts < 2 \<or> parts ! 0 \<noteq> ''CONNECT''
            then ([WriteClient http_400], Some (Ok ()))
            else case parse_connect_target (parts ! 1) of
                None \<Rightarrow> ([WriteClient http_400], Some (Ok ()))
              | Some (host, port) \<Rightarrow>
                  if decide env fm host port \<noteq> PAllow
                  then ([WriteClient http_403], Some (Ok ()))
                  else if \<not> ne_dial env host port
                  then ([Dial host port, WriteClient http_502], Some (Ok ()))
                  else if \<not> ne_write_ok env
                  then ([Dial host port, WriteClient http_200], Some (Err ''write failed''))
                  else if \<not> ne_copy_ok env
                  then ([Dial host port, WriteClient http_200, Splice], Some (Err ''copy failed''))
                  else ([Dial host port, WriteClient http_200, Splice], Some (Ok ())))"

text \<open>\<open>EgressProxy::start\<close> spawns one handler per accepted connection, with the proxy's fail mode.\<close>

definition serve ::
  "egress_proxy \<Rightarrow> (net_env \<times> (string + string) list) list \<Rightarrow> effect list list" where
  "serve p conns = map (\<lambda>(env, reads). fst (handle_connection env (ep_fail_mode p) reads)) conns"

subsection \<open>AllowlistPdp\<close>

definition request_host :: "connection_request \<Rightarrow> string \<Rightarrow> string" where
  "request_host req d = unwrap_or (or_opt (ph_requested_host (cr_host req)) (ph_sni (cr_host req))) d"

definition allowlist_pdp_authorize :: "string hset \<Rightarrow> authorizer" where
  "allowlist_pdp_authorize allow_hosts req =
    Ok (if hs_contains allow_hosts (request_host req []) then PAllow else PDeny)"

subsection \<open>DnsSinkhole\<close>

record dns_message =
  dm_id :: u16
  dm_response :: bool
  dm_rd :: bool
  dm_ra :: bool
  dm_nxdomain :: bool
  dm_queries :: "string list"

record dns_sinkhole =
  sh_allow_hosts :: "string hset"
  sh_upstream :: sock_addr

definition sinkhole_new :: dns_sinkhole where
  "sinkhole_new = \<lparr> sh_allow_hosts = [], sh_upstream = \<lparr> sa_ip = ''8.8.8.8'', sa_port = 53 \<rparr> \<rparr>"

definition with_allowlist :: "string list \<Rightarrow> dns_sinkhole \<Rightarrow> dns_sinkhole" where
  "with_allowlist hosts s = s\<lparr>sh_allow_hosts := hs_of_list hosts\<rparr>"

definition with_upstream :: "sock_addr \<Rightarrow> dns_sinkhole \<Rightarrow> dns_sinkhole" where
  "with_upstream addr s = s\<lparr>sh_upstream := addr\<rparr>"

definition build_nxdomain :: "(dns_message \<Rightarrow> string option) \<Rightarrow> dns_message \<Rightarrow> string" where
  "build_nxdomain encode query =
    unwrap_or (encode \<lparr> dm_id = dm_id query, dm_response = True, dm_rd = dm_rd query, dm_ra = False,
      dm_nxdomain = True, dm_queries = dm_queries query \<rparr>) []"

datatype dns_effect = ToUpstream sock_addr string | Reply string

text \<open>
  One round of the sinkhole's loop on a received datagram. \<open>ToUpstream\<close> is the call of
  \<open>forward_to_upstream\<close> and \<open>upstream\<close> its result (\<open>None\<close> on error or timeout), \<open>decode\<close> and
  \<open>encode\<close> are the DNS library's codec.
\<close>

definition sinkhole_step ::
  "(string \<Rightarrow> dns_message option) \<Rightarrow> (dns_message \<Rightarrow> string option) \<Rightarrow> (string \<Rightarrow> string option)
     \<Rightarrow> dns_sinkhole \<Rightarrow> string \<Rightarrow> dns_effect list" where
  "sinkhole_step decode encode upstream s raw =
    (case decode raw of
       None \<Rightarrow> []
     | Some msg \<Rightarrow> (case dm_queries msg of
         [] \<Rightarrow> []
       | qname # _ \<Rightarrow>
           if hs_contains (sh_allow_hosts s) (trim_end_char (CHR ''.'') qname)
           then ToUpstream (sh_upstream s) raw
                # (case upstream raw of Some reply \<Rightarrow> [Reply reply] | None \<Rightarrow> [])
           else [Reply (build_nxdomain encode msg)]))"

subsection \<open>Audit bridge\<close>

text \<open>\<open>dbg\<close> is the standard library's \<open>{:?}\<close> of a string.\<close>

definition debug_opt :: "(string \<Rightarrow> string) \<Rightarrow> string option \<Rightarrow> string" where
  "debug_opt dbg o1 = (case o1 of None \<Rightarrow> ''None'' | Some s \<Rightarrow> ''Some('' @ dbg s @ '')'')"

definition egress_finding ::
  "(string \<Rightarrow> string) \<Rightarrow> connection_request \<Rightarrow> pdecision \<Rightarrow> audit_finding" where
  "egress_finding dbg req d =
    (let host = request_host req ''<unknown>'';
         pid_str = (case cr_pid req of None \<Rightarrow> ''?'' | Some p \<Rightarrow> show_nat (unat p));
         who = ''host='' @ host @ '' pid='' @ pid_str;
         (severity, owasp, title, description) = (case d of
            PAllow \<Rightarrow> (Info, ''ASI01'', ''Egress connection allowed'',
              who @ '' - allowed by policy'')
          | PDeny \<Rightarrow> (High, ''ASI05'', ''Egress connection BLOCKED - potential data exfiltration'',
              who @ '' - denied by policy, 0 bytes left the box'')
          | PEscalate \<Rightarrow> (Critical, ''ASI05'', ''Egress connection ESCALATED - suspicious exfil pattern'',
              who @ '' - escalated (exfil chain suspected, circuit breaker tripped)''))
     in (set_nist (if d \<noteq> PAllow then Some Evasion else None) \<circ> set_maestro (Some L4)
         \<circ> set_owasp_asi owasp \<circ> set_references [''PRODUCT.md B.5'', ''OWASP ASI-05'']
         \<circ> set_remediation ''Review egress allowlist and check for prompt injection (PRODUCT.md B.5/B.6)''
         \<circ> set_evidence (''SNI='' @ debug_opt dbg (ph_sni (cr_host req)) @ '' requested_host=''
              @ debug_opt dbg (ph_requested_host (cr_host req)) @ '' pid='' @ pid_str @ '' dest=''
              @ sa_ip (ph_dest (cr_host req)) @ '':'' @ show_nat (unat (sa_port (ph_dest (cr_host req)))))
         \<circ> set_description description \<circ> set_title title)
        (builder (''SC-EGRESS-'' @ (case d of PAllow \<Rightarrow> ''000'' | PDeny \<Rightarrow> ''001'' | PEscalate \<Rightarrow> ''002''))
           severity ''egress''))"

subsection \<open>Lemmas on the handler\<close>

lemma read_head_prefix:
  "read_head buf reads = Head h \<Longrightarrow> \<exists>bs rest. reads = map Inr bs @ rest \<and> h = buf @ concat bs"
proof (induction buf reads rule: read_head.induct)
  case (3 buf bs reads)
  show ?case
  proof (cases "contains (buf @ bs) (crlf @ crlf) \<or> length (buf @ bs) > 16 * 1024")
    case True
    with "3.prems" have "h = buf @ bs" by (simp split: if_splits)
    then show ?thesis by (intro exI [of _ "[bs]"] exI [of _ reads]) simp
  next
    case False
    with 3 obtain bs' rest where "reads = map Inr bs' @ rest" "h = (buf @ bs) @ concat bs'"
      by (auto split: if_splits)
    then show ?thesis by (intro exI [of _ "bs # bs'"] exI [of _ rest]) simp
  qed
qed simp_all

lemma read_head_bound:
  assumes "\<forall>r\<in>set reads. \<forall>bs. r = Inr bs \<longrightarrow> length bs \<le> 1024" and "length buf \<le> 16 * 1024"
    and "read_head buf reads = Head h"
  shows "length h \<le> 17 * 1024"
  using assms
proof (induction buf reads rule: read_head.induct)
  case (3 buf bs reads)
  then have "length bs \<le> 1024" by simp
  with 3 show ?case by (auto simp: Let_def split: if_splits)
qed simp_all

definition dials :: "effect list \<Rightarrow> (string \<times> u16) list" where
  "dials es = List.map_filter (\<lambda>e. case e of Dial h p \<Rightarrow> Some (h, p) | _ \<Rightarrow> None) es"

lemma dials_simps [simp]:
  "dials [] = []" "dials (WriteClient b # es) = dials es" "dials (Splice # es) = dials es"
  "dials (Dial h p # es) = (h, p) # dials es"
  by (simp_all add: dials_def map_filter_simps)

lemma handle_connection_dial:
  "(h, p) \<in> set (dials (fst (handle_connection env fm reads))) \<Longrightarrow> decide env fm h p = PAllow"
  by (auto simp: handle_connection_def Let_def split: head_result.splits option.splits if_splits)

lemma splice_needs_dial:
  "Splice \<in> set (fst (handle_connection env fm reads)) \<Longrightarrow>
    dials (fst (handle_connection env fm reads)) \<noteq> []"
  by (auto simp: handle_connection_def Let_def split: head_result.splits option.splits if_splits)

lemma decide_closed: "decide env Closed h p = PAllow \<longleftrightarrow>
    ne_authorize env (connect_request h p) = Ok PAllow"
  by (auto simp: decide_def split: sum.splits)


lemma handle_connection_no_dial:
  "dials (fst (handle_connection env fm reads)) = [] \<Longrightarrow>
    fst (handle_connection env fm reads) \<in> {[], [WriteClient http_400], [WriteClient http_403]}"
  by (auto simp: handle_connection_def Let_def split: head_result.splits option.splits if_splits)

lemma length_dials_le_1: "length (dials (fst (handle_connection env fm reads))) \<le> 1"
  by (auto simp: handle_connection_def Let_def split: head_result.splits option.splits)

subsection \<open>What a decision point promises its enforcement point\<close>

locale decision_point =
  fixes authorize :: authorizer
    and permitted :: "string \<Rightarrow> u16 \<Rightarrow> bool"
  assumes allow_permitted: "authorize (connect_request h p) = Ok PAllow \<longleftrightarrow> permitted h p"
begin

lemma dial_permitted:
  assumes "ne_authorize env = authorize"
    and "(h, p) \<in> set (dials (fst (handle_connection env Closed reads)))"
  shows "permitted h p"
  using handle_connection_dial [OF assms(2)] assms(1) by (simp add: decide_closed allow_permitted)

lemma decide_permitted:
  "ne_authorize env = authorize \<Longrightarrow> decide env Closed h p = PAllow \<longleftrightarrow> permitted h p"
  by (simp add: decide_closed allow_permitted)

end

interpretation allowlist: decision_point "allowlist_pdp_authorize hosts" "\<lambda>h p. hs_contains hosts h"
  for hosts
  by unfold_locales (simp add: allowlist_pdp_authorize_def request_host_def connect_request_def)

subsection \<open>Parsing a CONNECT request\<close>

definition connect_line :: "string \<Rightarrow> u16 \<Rightarrow> string" where
  "connect_line host port = ''CONNECT '' @ host @ '':'' @ show_nat (unat port) @ '' HTTP/1.1''"

definition plain_host :: "string \<Rightarrow> bool" where
  "plain_host host = list_all (\<lambda>c. char_code c < 128 \<and> \<not> ascii_ws c) host"

lemma parse_connect_target_show:
  "parse_connect_target (host @ '':'' @ show_nat (unat (port :: u16))) = Some (host, port)"
proof -
  have "CHR '':'' \<notin> set (show_nat (unat port))"
    by (rule show_nat_no_char) (simp add: char_code_def)
  then have "rsplit_once (CHR '':'') (host @ CHR '':'' # show_nat (unat port))
      = Some (host, show_nat (unat port))"
    by (simp add: rsplit_once_Some)
  moreover have "parse_unsigned 65535 (show_nat (unat port)) = Some (unat port)"
    using unsigned_less [of port, where 'a = nat] by (intro parse_unsigned_show_nat) simp
  ultimately show ?thesis by (simp add: parse_connect_target_def)
qed

lemma read_head_chunks:
  assumes "\<forall>b\<in>set bs. b \<noteq> []" and "concat bs \<noteq> []"
    and "\<forall>q. strict_prefix q (buf @ concat bs) \<longrightarrow> \<not> contains q (crlf @ crlf)"
    and "contains (buf @ concat bs) (crlf @ crlf)" and "length (buf @ concat bs) \<le> 16 * 1024"
  shows "read_head buf (map Inr bs) = Head (buf @ concat bs)"
  using assms
proof (induction bs arbitrary: buf)
  case (Cons b bs)
  show ?case
  proof (cases "concat bs = []")
    case True
    with Cons.prems show ?thesis by (auto simp: Let_def)
  next
    case False
    with Cons.prems(3) have "\<not> contains (buf @ b) (crlf @ crlf)"
      by (auto simp: strict_prefix_def)
    moreover have "read_head (buf @ b) (map Inr bs) = Head ((buf @ b) @ concat bs)"
      using Cons.prems False by (intro Cons.IH) auto
    moreover have "length (buf @ b) \<le> 16 * 1024" using Cons.prems(5) by simp
    ultimately show ?thesis using Cons.prems(1) by (simp add: Let_def)
  qed
qed simp

lemma crlf_only_at_end:
  assumes "carriage_return \<notin> set a" and "strict_prefix q (a @ crlf @ crlf)"
  shows "\<not> contains q (crlf @ crlf)"
proof
  assume "contains q (crlf @ crlf)"
  then obtain u v where q: "q = u @ crlf @ crlf @ v" by (auto simp: contains_iff)
  from assms(2) obtain w where w: "a @ crlf @ crlf = q @ w" "w \<noteq> []"
    by (auto simp: strict_prefix_def prefix_def)
  with q have eq: "a @ crlf @ crlf = u @ crlf @ crlf @ v @ w" by simp
  from arg_cong [OF eq, of length] have "length a = length u + length v + length w"
    by (simp add: crlf_def)
  with w(2) have "length u < length a" by (cases w) auto
  with eq have "carriage_return = a ! length u"
    by (metis (no_types, lifting) append_Cons crlf_def nth_append nth_append_length)
  with \<open>length u < length a\<close> assms(1) show False by (metis nth_mem)
qed


lemma first_line_connect:
  assumes "newline \<notin> set a"
  shows "first_line (a @ crlf @ crlf) = a"
proof -
  have "split_char newline (a @ crlf @ crlf) = [a @ [carriage_return], [carriage_return], []]"
  proof -
    have "split_by (\<lambda>x. x = newline) (a @ [carriage_return]) = [a @ [carriage_return]]"
      using assms
      by (intro split_by_no_sep) (auto simp: newline_def carriage_return_def byte_def)
    moreover have "carriage_return \<noteq> newline" by (simp add: newline_def carriage_return_def byte_def)
    ultimately show ?thesis
      using split_by_append_sep
          [of "\<lambda>x. x = newline" newline "a @ [carriage_return]" "carriage_return # [newline]"]
      by (simp add: split_char_def crlf_def)
  qed
  then show ?thesis by (simp add: first_line_def lines_def Let_def strip_cr_def)
qed

lemma connect_line_ascii: "plain_host host \<Longrightarrow> is_ascii (connect_line host port)"
  using show_nat_ascii [of "unat port"]
  by (auto simp: connect_line_def plain_host_def is_ascii_def list_all_iff char_code_def)

lemma connect_line_chars:
  assumes "plain_host host"
  shows "newline \<notin> set (connect_line host port) \<and> carriage_return \<notin> set (connect_line host port)"
proof -
  have "\<not> ascii_ws c" if "c \<in> set host" for c
    using that assms by (auto simp: plain_host_def list_all_iff)
  moreover have "ascii_ws newline" "ascii_ws carriage_return"
    by (simp_all add: ascii_ws_def newline_def carriage_return_def byte_def char_code_def)
  ultimately have "newline \<notin> set host" "carriage_return \<notin> set host" by blast+
  moreover have "newline \<notin> set (show_nat (unat port))" "carriage_return \<notin> set (show_nat (unat port))"
    by (rule show_nat_no_char, simp add: newline_def carriage_return_def byte_def char_code_def)+
  ultimately show ?thesis
    by (auto simp: connect_line_def control_chars)
qed

lemma split_whitespace_connect:
  assumes "plain_host host"
  shows "split_whitespace (connect_line host port)
    = [''CONNECT'', host @ '':'' @ show_nat (unat port), ''HTTP/1.1'']"
proof -
  let ?t = "host @ '':'' @ show_nat (unat port)"
  have ws: "ascii_ws (CHR '' '')" by (simp add: ascii_ws_def char_code_def)
  have digits: "\<not> ascii_ws c" if "c \<in> set (show_nat (unat port))" for c
    using show_nat_no_char [of c "unat port"] that by (auto simp: ascii_ws_def)
  have t: "split_by ascii_ws ?t = [?t]"
    using assms digits
    by (intro split_by_no_sep) (auto simp: plain_host_def list_all_iff ascii_ws_def char_code_def)
  have lit: "split_by ascii_ws ''CONNECT'' = [''CONNECT'']"
    "split_by ascii_ws ''HTTP/1.1'' = [''HTTP/1.1'']"
    by (rule split_by_no_sep, simp add: ascii_ws_def char_code_def)+
  have line: "connect_line host port = ''CONNECT'' @ CHR '' '' # (?t @ CHR '' '' # ''HTTP/1.1'')"
    by (simp add: connect_line_def)
  have "split_by ascii_ws (connect_line host port) = [''CONNECT''] @ [?t] @ [''HTTP/1.1'']"
    unfolding line split_by_append_sep [of ascii_ws, OF ws] t lit by simp
  then show ?thesis
    using split_whitespace_ascii [OF connect_line_ascii [OF assms]] by simp
qed

lemma read_head_connect:
  assumes "plain_host host" and "length host \<le> 16000"
    and "\<forall>b\<in>set bs. b \<noteq> []" and "concat bs = connect_line host port @ crlf @ crlf"
  shows "read_head [] (map Inr bs) = Head (connect_line host port @ crlf @ crlf)"
proof -
  have "length (show_nat (unat port)) \<le> 5" by (rule length_show_nat_u16)
  then have "length (concat bs) \<le> 16 * 1024"
    using assms(2) unfolding assms(4) by (simp add: connect_line_def crlf_def)
  moreover have "contains (concat bs) (crlf @ crlf)"
    unfolding assms(4) contains_iff by (metis append_Nil2)
  moreover have "\<forall>q. strict_prefix q (concat bs) \<longrightarrow> \<not> contains q (crlf @ crlf)"
    using crlf_only_at_end connect_line_chars [OF assms(1)] unfolding assms(4) by blast
  ultimately show ?thesis
    using read_head_chunks [of bs "[]"] assms(3,4) by (simp add: connect_line_def)
qed

subsection \<open>Properties\<close>

text \<open>
  C4: the egress proxy as constructed fails closed. Whatever its clients send and however the decision
  point, the dialer and the sockets behave, every upstream a connection dials was allowed by the decision
  point for exactly that host and port (an error of the decision point is not an allow), a connection
  dials at most once, splices only after a dial, and without a dial writes at most one 400 or 403.
\<close>

theorem proxy_fail_closed:
  "list_all2 (\<lambda>(env, reads) es.
       list_all (\<lambda>(h, p). ne_authorize env (connect_request h p) = Ok PAllow) (dials es)
     \<and> length (dials es) \<le> 1
     \<and> (if dials es = [] then es \<in> {[], [WriteClient http_400], [WriteClient http_403]}
        else hd es = Dial (fst (hd (dials es))) (snd (hd (dials es)))))
    conns (serve (proxy_new os) conns)"
proof -
  have "hd (fst (handle_connection env Closed reads))
      = Dial (fst (hd (dials (fst (handle_connection env Closed reads)))))
             (snd (hd (dials (fst (handle_connection env Closed reads)))))"
    if "dials (fst (handle_connection env Closed reads)) \<noteq> []" for env reads
    using that
    by (auto simp: handle_connection_def Let_def split: head_result.splits option.splits if_splits)
  then show ?thesis
    using handle_connection_dial handle_connection_no_dial length_dials_le_1
    by (fastforce simp: serve_def proxy_new_def list_all2_conv_all_nth list_all_iff decide_closed
        split: prod.splits)
qed

text \<open>
  a \<open>CONNECT host:port HTTP/1.1\<close> request is understood exactly, however the network splits it into
  reads: the decision point is asked about that host and that port, anything but an allow is answered by
  a 403 with no dial, and an allow dials that host and port and splices.
\<close>

theorem connect_round_trip:
  assumes "plain_host host" and "length host \<le> 16000"
    and "\<forall>b\<in>set bs. b \<noteq> []" and "concat bs = connect_line host port @ crlf @ crlf"
    and "ne_dial env host port" and "ne_write_ok env" and "ne_copy_ok env"
  shows "handle_connection env fm (map Ok bs) =
    (if decide env fm host port = PAllow
     then ([Dial host port, WriteClient http_200, Splice], Some (Ok ()))
     else ([WriteClient http_403], Some (Ok ())))"
proof -
  have "is_ascii (connect_line host port @ crlf @ crlf)"
    using connect_line_ascii [OF assms(1)]
    by (simp add: crlf_def is_ascii_def carriage_return_def newline_def byte_def char_code_def)
  then have "from_utf8_lossy (connect_line host port @ crlf @ crlf) = connect_line host port @ crlf @ crlf"
    by (rule from_utf8_lossy_ascii)
  then show ?thesis
    using assms read_head_connect [OF assms(1-4)] connect_line_chars [OF assms(1), of port]
    by (simp add: handle_connection_def Let_def first_line_connect split_whitespace_connect
        parse_connect_target_show [simplified])
qed

definition demo_env :: net_env where
  "demo_env = \<lparr> ne_authorize = allowlist_pdp_authorize [''api.example.com''], ne_dial = (\<lambda>_ _. True),
     ne_write_ok = True, ne_copy_ok = True \<rparr>"

lemma connect_round_trip_witness:
  "handle_connection demo_env Closed
     (map Ok [''CONNECT evil.test'', '':443 HTTP/1.1'' @ crlf, crlf]) = ([WriteClient http_403], Some (Ok ()))"
proof -
  have "decide demo_env Closed ''evil.test'' 443 \<noteq> PAllow"
    using allowlist.decide_permitted [of demo_env "[''api.example.com'']"]
    by (simp add: demo_env_def hs_contains_def)
  moreover have "concat [''CONNECT evil.test'', '':443 HTTP/1.1'' @ crlf, crlf]
      = connect_line ''evil.test'' 443 @ crlf @ crlf"
    by (simp add: connect_line_def show_nat_eval)
  ultimately show ?thesis
    by (subst connect_round_trip [where host = "''evil.test''" and port = 443])
      (simp_all add: plain_host_def ascii_ws_def char_code_def demo_env_def crlf_def)
qed

text \<open>
  with the allowlist decision point, a fail-closed connection dials only a host of the allowlist,
  whatever bytes the client sends.
\<close>

theorem allowlist_egress:
  assumes "ne_authorize env = allowlist_pdp_authorize hosts"
  shows "list_all (\<lambda>(h, p). hs_contains hosts h) (dials (fst (handle_connection env Closed reads)))"
  using allowlist.dial_permitted [OF assms] by (auto simp: list_all_iff)

lemma allowlist_egress_witness:
  "list_all (\<lambda>(h, p). hs_contains [''api.example.com''] h)
    (dials (fst (handle_connection demo_env Closed [Ok (''CONNECT evil.test:443'' @ crlf @ crlf)])))"
  by (rule allowlist_egress) (simp add: demo_env_def)

definition query_allowed :: "string list \<Rightarrow> dns_message \<Rightarrow> bool" where
  "query_allowed hosts msg = (case dm_queries msg of [] \<Rightarrow> False
     | n # _ \<Rightarrow> trim_end_char (CHR ''.'') n \<in> set hosts)"

lemma sinkhole_forwards_iff:
  "ToUpstream a q \<in> set (sinkhole_step decode encode upstream
       (with_upstream addr (with_allowlist hosts sinkhole_new)) raw) \<longleftrightarrow>
    a = addr \<and> q = raw \<and> (\<exists>msg. decode raw = Some msg \<and> query_allowed hosts msg)"
proof (cases "decode raw")
  case (Some msg)
  then show ?thesis
    by (cases "dm_queries msg") (auto simp: sinkhole_step_def with_upstream_def with_allowlist_def
        hm_simps query_allowed_def split: option.splits)
qed (simp add: sinkhole_step_def)

lemma sinkhole_answers:
  assumes "decode raw = Some msg" and "dm_queries msg \<noteq> []" and "\<not> query_allowed hosts msg"
  shows "sinkhole_step decode encode upstream
      (with_upstream addr (with_allowlist hosts sinkhole_new)) raw = [Reply (build_nxdomain encode msg)]"
  using assms
  by (auto simp: sinkhole_step_def with_upstream_def with_allowlist_def hm_simps query_allowed_def
      split: list.splits)

text \<open>
  the DNS sinkhole fails closed. With a codec whose encoder is total and inverted by its decoder, a
  query whose first name (without trailing dots) is not on the allowlist never reaches the resolver and is
  answered by one datagram, which the client decodes as a response with the query's id and questions
  and the code \<open>NXDOMAIN\<close>; a datagram does reach the resolver only if it decodes and its first name
  is on the allowlist.
\<close>

theorem sinkhole_fail_closed:
  assumes codec: "\<forall>m. \<exists>b. encode m = Some b \<and> decode b = Some m"
    and "decode raw = Some msg" and "dm_queries msg \<noteq> []" and "\<not> query_allowed hosts msg"
  shows "(\<exists>b r. sinkhole_step decode encode upstream
          (with_upstream addr (with_allowlist hosts sinkhole_new)) raw = [Reply b]
      \<and> decode b = Some r \<and> dm_nxdomain r \<and> dm_response r \<and> dm_id r = dm_id msg
      \<and> dm_queries r = dm_queries msg)
    \<and> (\<forall>raw' a q. ToUpstream a q \<in> set (sinkhole_step decode encode upstream
          (with_upstream addr (with_allowlist hosts sinkhole_new)) raw') \<longrightarrow>
        (\<exists>m. decode raw' = Some m \<and> query_allowed hosts m))"
proof -
  have "\<exists>r. decode (build_nxdomain encode msg) = Some r \<and> dm_nxdomain r \<and> dm_response r
      \<and> dm_id r = dm_id msg \<and> dm_queries r = dm_queries msg"
    using codec [rule_format, of "\<lparr> dm_id = dm_id msg, dm_response = True, dm_rd = dm_rd msg,
      dm_ra = False, dm_nxdomain = True, dm_queries = dm_queries msg \<rparr>"]
    by (auto simp: build_nxdomain_def)
  with sinkhole_answers [of decode, OF assms(2-4)] show ?thesis by (auto simp: sinkhole_forwards_iff)
qed

text \<open>A codec for the witness: flags, id and names, each as a length-prefixed field.\<close>

definition demo_enc :: "dns_message \<Rightarrow> string option" where
  "demo_enc m = Some (show_nat (unat (dm_id m)) @ ''.''
     @ [if dm_response m then CHR ''1'' else CHR ''0'', if dm_rd m then CHR ''1'' else CHR ''0'',
        if dm_ra m then CHR ''1'' else CHR ''0'', if dm_nxdomain m then CHR ''1'' else CHR ''0'']
     @ concat (map (\<lambda>n. show_nat (length n) @ ''.'' @ n) (dm_queries m)))"

fun demo_names :: "nat \<Rightarrow> string \<Rightarrow> string list option" where
  "demo_names 0 s = Some []"
| "demo_names (Suc k) s = (if s = [] then Some [] else
    (case split_once (CHR ''.'') s of None \<Rightarrow> None
     | Some (l, r) \<Rightarrow> (case digits_val 0 l of None \<Rightarrow> None
         | Some n \<Rightarrow> map_option ((#) (take n r)) (demo_names k (drop n r)))))"

definition demo_dec :: "string \<Rightarrow> dns_message option" where
  "demo_dec s = (case split_once (CHR ''.'') s of
     Some (i, a # b # c # d # r) \<Rightarrow>
       (case (digits_val 0 i, demo_names (length r) r) of
          (Some n, Some qs) \<Rightarrow> Some \<lparr> dm_id = of_nat n, dm_response = (a = CHR ''1''),
             dm_rd = (b = CHR ''1''), dm_ra = (c = CHR ''1''), dm_nxdomain = (d = CHR ''1''),
             dm_queries = qs \<rparr>
        | _ \<Rightarrow> None)
   | _ \<Rightarrow> None)"

lemma split_once_number:
  "split_once (CHR ''.'') (show_nat n @ CHR ''.'' # r) = Some (show_nat n, r)"
  using show_nat_no_char [of "CHR ''.''" n] by (simp add: split_once_Some char_code_def)

lemma demo_names_round_trip:
  "length qs \<le> k \<Longrightarrow> demo_names k (concat (map (\<lambda>n. show_nat (length n) @ ''.'' @ n) qs)) = Some qs"
proof (induction qs arbitrary: k)
  case Nil
  then show ?case by (cases k) simp_all
next
  case (Cons q qs)
  then obtain j where "k = Suc j" "length qs \<le> j" by (cases k) auto
  with Cons.IH [of j] show ?case by (simp add: split_once_number digits_val_show_nat)
qed

lemma demo_codec: "\<exists>b. demo_enc m = Some b \<and> demo_dec b = Some m"
proof -
  let ?r = "concat (map (\<lambda>n. show_nat (length n) @ ''.'' @ n) (dm_queries m))"
  have "length qs \<le> length (concat (map (\<lambda>n. show_nat (length n) @ ''.'' @ n) qs))" for qs
    by (induction qs) simp_all
  then have "demo_names (length ?r) ?r = Some (dm_queries m)" by (rule demo_names_round_trip)
  then show ?thesis
    by (cases m) (simp add: demo_enc_def demo_dec_def split_once_number digits_val_show_nat)
qed

definition demo_query :: dns_message where
  "demo_query = \<lparr> dm_id = 7, dm_response = False, dm_rd = True, dm_ra = False, dm_nxdomain = False,
     dm_queries = [''c2.evil.test.''] \<rparr>"

lemma sinkhole_fail_closed_witness:
  "\<exists>b r. sinkhole_step demo_dec demo_enc (\<lambda>_. None)
       (with_upstream \<lparr> sa_ip = ''1.1.1.1'', sa_port = 53 \<rparr> (with_allowlist [''a.test''] sinkhole_new))
       (the (demo_enc demo_query)) = [Reply b]
     \<and> demo_dec b = Some r \<and> dm_nxdomain r \<and> dm_queries r = [''c2.evil.test.'']"
proof -
  have "demo_dec (the (demo_enc demo_query)) = Some demo_query"
    using demo_codec [of demo_query] by auto
  from sinkhole_fail_closed [of demo_enc demo_dec, OF _ this, of "[''a.test'']" "\<lambda>_. None"
      "\<lparr> sa_ip = ''1.1.1.1'', sa_port = 53 \<rparr>"]
  show ?thesis
    using demo_codec by (auto simp: query_allowed_def demo_query_def trim_end_char_def)
qed

text \<open>
  only the first question of a datagram is checked. A datagram whose first name is on the
  allowlist is forwarded to the resolver whole, whatever other names it asks for.
\<close>

theorem sinkhole_checks_first_question_only:
  assumes "decode raw = Some msg" and "dm_queries msg = n # exfil # ns" and "n \<in> set hosts"
    and "n = [] \<or> last n \<noteq> CHR ''.''"
  shows "ToUpstream addr raw \<in> set (sinkhole_step decode encode upstream
      (with_upstream addr (with_allowlist hosts sinkhole_new)) raw)"
  using assms by (simp add: sinkhole_forwards_iff query_allowed_def trim_end_char_id)

lemma sinkhole_checks_first_question_only_witness:
  "ToUpstream \<lparr> sa_ip = ''1.1.1.1'', sa_port = 53 \<rparr> ''raw'' \<in> set (sinkhole_step
      (\<lambda>_. Some (demo_query\<lparr> dm_queries := [''a.test'', ''secret.c2.evil.test''] \<rparr>)) demo_enc (\<lambda>_. None)
      (with_upstream \<lparr> sa_ip = ''1.1.1.1'', sa_port = 53 \<rparr> (with_allowlist [''a.test''] sinkhole_new))
      ''raw'')"
  by (rule sinkhole_checks_first_question_only) (auto simp: demo_query_def)

end
