(* ===== verification/Hex.thy ===== *)
theory Hex
  imports RustStr
begin

text \<open>
  The hexadecimal codec that \<open>secureops-auditlog\<close> and \<open>secureops-crypto\<close> each carry in the same
  words: \<open>to_hex\<close> (in the string theory) and \<open>from_hex\<close>, which slices the text by byte index and so
  panics when a pair does not end on a character boundary. The lemmas show that it inverts
  \<open>to_hex\<close> and never panics on its output.
\<close>

subsection \<open>Hexadecimal\<close>

definition hex_val :: "char \<Rightarrow> nat option" where
  "hex_val c = (let n = char_code c in
     if 48 \<le> n \<and> n \<le> 57 then Some (n - 48)
     else if 97 \<le> n \<and> n \<le> 102 then Some (n - 87)
     else if 65 \<le> n \<and> n \<le> 70 then Some (n - 55) else None)"

text \<open>\<open>u8::from_str_radix(_, 16)\<close> on a two-byte slice; a leading plus sign is accepted.\<close>

definition from_str_radix16 :: "char \<Rightarrow> char \<Rightarrow> nat option" where
  "from_str_radix16 a b = (if a = CHR ''+'' then hex_val b
     else case (hex_val a, hex_val b) of (Some x, Some y) \<Rightarrow> Some (16 * x + y) | _ \<Rightarrow> None)"

text \<open>
  The slice of each pair panics when it does not end on a character boundary; the collection stops at the
  first pair that is not a number.
\<close>

fun from_hex_pairs :: "string \<Rightarrow> string option may_panic" where
  "from_hex_pairs (a # b # rest) =
    (if rest \<noteq> [] \<and> is_cont (hd rest) then Panics
     else case from_str_radix16 a b of None \<Rightarrow> Returns None
       | Some v \<Rightarrow> (case from_hex_pairs rest of
           Panics \<Rightarrow> Panics
         | Returns None \<Rightarrow> Returns None
         | Returns (Some bs) \<Rightarrow> Returns (Some (char_of v # bs))))"
| "from_hex_pairs _ = Returns (Some [])"

definition from_hex :: "string \<Rightarrow> string option may_panic" where
  "from_hex s = (if length s mod 2 \<noteq> 0 then Returns None else from_hex_pairs s)"

definition utf8_valid :: "string \<Rightarrow> bool" where
  "utf8_valid s \<longleftrightarrow> from_utf8_lossy s = s"

subsection \<open>Graphic lines\<close>

text \<open>A line of graphic ASCII characters is valid UTF-8, has nothing to trim and no line break.\<close>

definition is_graphic :: "char \<Rightarrow> bool" where
  "is_graphic c \<longleftrightarrow> 33 \<le> char_code c \<and> char_code c < 127"

lemma graphic_not_whitespace: "is_graphic c \<Longrightarrow> \<not> is_whitespace [c]"
  by (auto simp: is_graphic_def is_whitespace_def white_space_def byte_def char_code_def)

lemma graphic_line:
  assumes "list_all is_graphic s" shows "utf8_valid s" "trim s = s" "strip_cr s = s" "newline \<notin> set s"
proof -
  have ascii: "is_ascii s" using assms by (auto simp: is_ascii_def list_all_iff is_graphic_def)
  then show "utf8_valid s" by (simp add: utf8_valid_def from_utf8_lossy_ascii)
  have "dropWhile is_whitespace (map (\<lambda>c. [c]) t) = map (\<lambda>c. [c]) t" if "list_all is_graphic t" for t
    using that by (cases t) (auto simp: graphic_not_whitespace)
  then have "trim s = concat (rev (map (\<lambda>c. [c]) (rev s)))"
    using assms by (simp add: trim_def rev_map utf8_chars_ascii [OF ascii])
  then show "trim s = s" by (simp add: rev_map)
  have "\<not> is_graphic carriage_return" "\<not> is_graphic newline"
    by (simp_all add: is_graphic_def carriage_return_def newline_def byte_def char_code_def)
  then show "strip_cr s = s" "newline \<notin> set s"
    using assms by (auto simp: strip_cr_def list_all_iff dest: last_in_set)
qed

lemma graphic_char: "is_graphic c = (33 \<le> (of_char c :: nat) \<and> (of_char c :: nat) < 127)"
  by (simp add: is_graphic_def char_code_def)

subsection \<open>Hexadecimal round trip\<close>

lemma hex_val_digit: "d < 16 \<Longrightarrow> hex_val (hex_digit d) = Some d"
  by (auto simp: hex_val_def hex_digit_def char_code_def Let_def)

lemma hex_digit_plain: "d < 16 \<Longrightarrow> hex_digit d \<noteq> CHR ''+'' \<and> \<not> is_cont (hex_digit d)"
proof -
  assume "d < 16"
  then have "char_code (hex_digit d) \<ge> 48" "char_code (hex_digit d) < 128"
    by (auto simp: hex_digit_def char_code_def)
  then show ?thesis by (auto simp: is_cont_def char_code_def)
qed

lemma char_code_less: "char_code c < 256"
  by (simp add: char_code_def)

lemma from_str_radix16_byte:
  "from_str_radix16 (hex_digit (char_code c div 16)) (hex_digit (char_code c mod 16)) = Some (char_code c)"
proof -
  have "char_code c div 16 < 16" using char_code_less [of c] by simp
  then show ?thesis
    using hex_digit_plain [of "char_code c div 16"]
    by (simp add: from_str_radix16_def hex_val_digit)
qed

lemma to_hex_simps [simp]:
  "to_hex [] = []"
  "to_hex (c # cs) = hex_digit (char_code c div 16) # hex_digit (char_code c mod 16) # to_hex cs"
  by (simp_all add: to_hex_def)

lemma to_hex_hd: "cs \<noteq> [] \<Longrightarrow> \<not> is_cont (hd (to_hex cs))"
  using char_code_less [of "hd cs"] hex_digit_plain [of "char_code (hd cs) div 16"]
  by (cases cs) simp_all

lemma to_hex_eq_Nil [simp]: "to_hex cs = [] \<longleftrightarrow> cs = []"
  by (cases cs) simp_all

lemma from_hex_pairs_to_hex: "from_hex_pairs (to_hex cs) = Returns (Some cs)"
proof (induction cs)
  case (Cons c cs)
  moreover have "char_of (char_code c) = c" by (simp add: char_code_def)
  ultimately show ?case using to_hex_hd [of cs] by (auto simp: from_str_radix16_byte)
qed simp

lemma length_to_hex [simp]: "length (to_hex cs) = 2 * length cs"
  by (induction cs) simp_all

lemma from_hex_to_hex: "from_hex (to_hex cs) = Returns (Some cs)"
  by (simp add: from_hex_def from_hex_pairs_to_hex)

lemma to_hex_inject: "to_hex a = to_hex b \<longleftrightarrow> a = b"
  by (metis from_hex_to_hex may_panic.inject option.inject)

lemma from_hex_panics: "from_hex [CHR ''a'', CHR 0xC3, CHR 0xA9, CHR ''a''] = Panics"
  by code_simp

end
