(* ===== verification/AuditLog.thy ===== *)
theory AuditLog
  imports Json Hex
begin

text \<open>
  The tamper-evident audit log, \<open>secureops-auditlog/src/lib.rs\<close>: the hash chain, its signer, the JSONL
  persistence and its recovery, verification, export and anchoring.

  SHA-256 (\<open>sha\<close>), the canonical JSON printer (\<open>canon\<close>), ed25519 and the JSON codec of entries
  (\<open>ser\<close>, \<open>deser\<close>) are third-party code and parameters. The persisted file is the string of
  its bytes, \<open>None\<close> when it does not exist; the outcome of each file operation is an argument.

  The lemmas show that a log built by appends verifies, that a verified log commits to its whole history
  (two verified logs with the same head have the same payloads, or their own entries contain a collision
  of the hash), that export returns exactly the requested slice, that recovery inverts persistence, and
  where the code falls short of this.
\<close>

definition chain_hash :: "(string \<Rightarrow> string) \<Rightarrow> (json \<Rightarrow> string) \<Rightarrow> string \<Rightarrow> json \<Rightarrow> string" where
  "chain_hash sha canon prev payload = to_hex (sha (prev @ canon payload))"

subsection \<open>Types\<close>

datatype audit_log_error =
    ChainBroken u64 string
  | SignatureInvalid u64
  | Signing string
  | Serialize string
  | AnchorError string
  | InvalidRange u64 u64

record log_entry =
  le_seq :: u64
  le_timestamp :: string
  le_prev_hash :: string
  le_payload :: json
  le_hash :: string
  le_signature :: string

definition recompute_hash_matches ::
  "(string \<Rightarrow> string) \<Rightarrow> (json \<Rightarrow> string) \<Rightarrow> log_entry \<Rightarrow> bool" where
  "recompute_hash_matches sha canon e \<longleftrightarrow> chain_hash sha canon (le_prev_hash e) (le_payload e) = le_hash e"

record signer =
  sg_sign :: "string \<Rightarrow> audit_log_error + string"
  sg_verify :: "string \<Rightarrow> string \<Rightarrow> (audit_log_error + bool) may_panic"

record audit_log =
  al_next_seq :: u64
  al_prev_hash :: string
  al_signer :: signer
  al_anchor :: "(string \<Rightarrow> audit_log_error + string) option"
  al_entries :: "log_entry list"
  al_persist_path :: "string option"

subsection \<open>InMemorySigner\<close>

text \<open>The key pair of ed25519: signing and verification of bytes.\<close>

record ed25519_key =
  ed_sign :: "string \<Rightarrow> string"
  ed_verify :: "string \<Rightarrow> string \<Rightarrow> bool"

definition in_memory_sign :: "ed25519_key \<Rightarrow> string \<Rightarrow> audit_log_error + string" where
  "in_memory_sign key h = Ok (to_hex (ed_sign key h))"

definition in_memory_verify ::
  "ed25519_key \<Rightarrow> string \<Rightarrow> string \<Rightarrow> (audit_log_error + bool) may_panic" where
  "in_memory_verify key h sig = (case from_hex sig of
       Panics \<Rightarrow> Panics
     | Returns None \<Rightarrow> Returns (Err (Signing ''signature not hex''))
     | Returns (Some bs) \<Rightarrow> Returns (if length bs \<noteq> 64 then Err (Signing ''signature not 64 bytes'')
         else Ok (ed_verify key h bs)))"

definition in_memory_signer :: "ed25519_key \<Rightarrow> signer" where
  "in_memory_signer key = \<lparr> sg_sign = in_memory_sign key, sg_verify = in_memory_verify key \<rparr>"

subsection \<open>AuditLog\<close>

definition genesis_hash :: string where
  "genesis_hash = replicate 64 (CHR ''0'')"

definition log_new :: "signer \<Rightarrow> audit_log" where
  "log_new sg = \<lparr> al_next_seq = 0, al_prev_hash = genesis_hash, al_signer = sg, al_anchor = None,
     al_entries = [], al_persist_path = None \<rparr>"

definition with_anchor :: "(string \<Rightarrow> audit_log_error + string) \<Rightarrow> audit_log \<Rightarrow> audit_log" where
  "with_anchor a lg = lg\<lparr>al_anchor := Some a\<rparr>"

text \<open>What the file operations of one append do; a failing write leaves some of its bytes behind.\<close>

datatype append_io = IoOk | OpenFails string | WriteFails string nat | FlushFails string

type_synonym entry_printer = "log_entry \<Rightarrow> string + string"

definition persist ::
  "entry_printer \<Rightarrow> append_io \<Rightarrow> log_entry \<Rightarrow> string option \<Rightarrow>
     (audit_log_error + log_entry) \<times> string option" where
  "persist ser io entry file = (case io of
     OpenFails e \<Rightarrow> (Err (Serialize e), file)
   | _ \<Rightarrow> let content = unwrap_or file [] in
       (case ser entry of
          Inl e \<Rightarrow> (Err (Serialize e), Some content)
        | Inr line \<Rightarrow> (case io of
            WriteFails e n \<Rightarrow> (Err (Serialize e), Some (content @ take n (line @ [newline])))
          | FlushFails e \<Rightarrow> (Err (Serialize e), Some (content @ line @ [newline]))
          | _ \<Rightarrow> (Ok entry, Some (content @ line @ [newline])))))"

definition log_append ::
  "(string \<Rightarrow> string) \<Rightarrow> (json \<Rightarrow> string) \<Rightarrow> entry_printer \<Rightarrow> append_io \<Rightarrow> json \<Rightarrow> string \<Rightarrow>
     audit_log \<times> string option \<Rightarrow> (audit_log_error + log_entry) \<times> audit_log \<times> string option" where
  "log_append sha canon ser io payload now = (\<lambda>(lg, file).
    let prev = al_prev_hash lg;
        hash = chain_hash sha canon prev payload
    in case sg_sign (al_signer lg) hash of
         Inl e \<Rightarrow> (Err e, lg, file)
       | Inr signature \<Rightarrow>
           let entry = \<lparr> le_seq = al_next_seq lg, le_timestamp = now, le_prev_hash = prev,
                 le_payload = payload, le_hash = hash, le_signature = signature \<rparr>;
               lg' = lg\<lparr> al_next_seq := al_next_seq lg + 1, al_prev_hash := hash,
                 al_entries := al_entries lg @ [entry] \<rparr>
           in case al_persist_path lg of
                None \<Rightarrow> (Ok entry, lg', file)
              | Some _ \<Rightarrow> let (r, file') = persist ser io entry file in (r, lg', file'))"

datatype open_error = IoError | CorruptEntry | ChainBrokenAt u64 | HashMismatchAt u64

fun read_entries :: "(string \<Rightarrow> log_entry option) \<Rightarrow> string list \<Rightarrow> open_error + log_entry list" where
  "read_entries deser [] = Ok []"
| "read_entries deser (l # ls) =
    (if \<not> utf8_valid l then Err IoError
     else if trim l = [] then read_entries deser ls
     else case deser (trim l) of
         None \<Rightarrow> Err CorruptEntry
       | Some e \<Rightarrow> (case read_entries deser ls of Inl x \<Rightarrow> Err x | Inr es \<Rightarrow> Ok (e # es)))"

fun check_links :: "(string \<Rightarrow> string) \<Rightarrow> (json \<Rightarrow> string) \<Rightarrow> string \<Rightarrow> log_entry list \<Rightarrow> open_error + unit"
where
  "check_links sha canon expected [] = Ok ()"
| "check_links sha canon expected (e # es) =
    (if le_prev_hash e \<noteq> expected then Err (ChainBrokenAt (le_seq e))
     else if \<not> recompute_hash_matches sha canon e then Err (HashMismatchAt (le_seq e))
     else check_links sha canon (le_hash e) es)"

text \<open>\<open>open_ok\<close> tells whether an existing file can be opened.\<close>

definition open_log ::
  "(string \<Rightarrow> string) \<Rightarrow> (json \<Rightarrow> string) \<Rightarrow> (string \<Rightarrow> log_entry option) \<Rightarrow> string \<Rightarrow> bool \<Rightarrow> string option
     \<Rightarrow> signer \<Rightarrow> open_error + audit_log" where
  "open_log sha canon deser path open_ok file sg =
    (case (case file of None \<Rightarrow> Ok [] | Some content \<Rightarrow>
             if open_ok then read_entries deser (lines content) else Err IoError) of
       Inl x \<Rightarrow> Err x
     | Inr entries \<Rightarrow>
         let (next, prev) = (if entries = [] then (0, genesis_hash)
               else (le_seq (last entries) + 1, le_hash (last entries)))
         in case check_links sha canon genesis_hash entries of
              Inl x \<Rightarrow> Err x
            | Inr _ \<Rightarrow> Ok \<lparr> al_next_seq = next, al_prev_hash = prev, al_signer = sg, al_anchor = None,
                al_entries = entries, al_persist_path = Some path \<rparr>)"

fun verify_from ::
  "(string \<Rightarrow> string) \<Rightarrow> (json \<Rightarrow> string) \<Rightarrow> signer \<Rightarrow> nat \<Rightarrow> string \<Rightarrow> log_entry list \<Rightarrow>
     (audit_log_error + bool) may_panic" where
  "verify_from sha canon sg i expected [] = Returns (Ok True)"
| "verify_from sha canon sg i expected (e # es) =
    (if le_seq e \<noteq> of_nat i
     then Returns (Err (ChainBroken (le_seq e) (''non-contiguous seq (expected '' @ show_nat i @ '')'')))
     else if le_prev_hash e \<noteq> expected
     then Returns (Err (ChainBroken (le_seq e) ''prev_hash does not match predecessor''))
     else if \<not> recompute_hash_matches sha canon e
     then Returns (Err (ChainBroken (le_seq e) ''payload tampered (hash mismatch)''))
     else case sg_verify sg (le_hash e) (le_signature e) of
         Panics \<Rightarrow> Panics
       | Returns (Inl x) \<Rightarrow> Returns (Err x)
       | Returns (Inr False) \<Rightarrow> Returns (Err (SignatureInvalid (le_seq e)))
       | Returns (Inr True) \<Rightarrow> verify_from sha canon sg (Suc i) (le_hash e) es)"

definition verify_chain ::
  "(string \<Rightarrow> string) \<Rightarrow> (json \<Rightarrow> string) \<Rightarrow> audit_log \<Rightarrow> (audit_log_error + bool) may_panic" where
  "verify_chain sha canon lg = verify_from sha canon (al_signer lg) 0 genesis_hash (al_entries lg)"

definition export_segment :: "audit_log \<Rightarrow> u64 \<Rightarrow> u64 \<Rightarrow> audit_log_error + log_entry list" where
  "export_segment lg a b = (if a > b then Err (InvalidRange a b)
     else Ok (filter (\<lambda>e. a \<le> le_seq e \<and> le_seq e \<le> b) (al_entries lg)))"

definition anchor_now :: "audit_log \<Rightarrow> audit_log_error + string option" where
  "anchor_now lg = (case al_anchor lg of None \<Rightarrow> Ok None
     | Some anchor_head \<Rightarrow> (case anchor_head (al_prev_hash lg) of
         Inl e \<Rightarrow> Err e | Inr proof \<Rightarrow> Ok (Some proof)))"

lemma genesis_is_hex: "genesis_hash = to_hex (replicate 32 (char_of (0 :: nat)))"
proof -
  have "hex_digit 0 = CHR ''0''" by code_simp
  then have "to_hex (replicate n (char_of (0 :: nat))) = replicate (2 * n) (CHR ''0'')" for n
    by (induction n) (simp_all add: char_code_def)
  from this [of 32] show ?thesis by (simp add: genesis_hash_def)
qed

subsection \<open>One append\<close>

definition next_entry ::
  "(string \<Rightarrow> string) \<Rightarrow> (json \<Rightarrow> string) \<Rightarrow> audit_log \<Rightarrow> json \<Rightarrow> string \<Rightarrow> string \<Rightarrow> log_entry" where
  "next_entry sha canon lg payload now s = \<lparr> le_seq = al_next_seq lg, le_timestamp = now,
     le_prev_hash = al_prev_hash lg, le_payload = payload,
     le_hash = chain_hash sha canon (al_prev_hash lg) payload, le_signature = s \<rparr>"

definition push_entry :: "audit_log \<Rightarrow> log_entry \<Rightarrow> audit_log" where
  "push_entry lg e = lg\<lparr> al_next_seq := al_next_seq lg + 1, al_prev_hash := le_hash e,
     al_entries := al_entries lg @ [e] \<rparr>"

lemma push_entry_simps [simp]:
  "al_next_seq (push_entry lg e) = al_next_seq lg + 1" "al_prev_hash (push_entry lg e) = le_hash e"
  "al_entries (push_entry lg e) = al_entries lg @ [e]" "al_signer (push_entry lg e) = al_signer lg"
  "al_persist_path (push_entry lg e) = al_persist_path lg" "al_anchor (push_entry lg e) = al_anchor lg"
  by (simp_all add: push_entry_def)

lemma log_append_cases:
  assumes "log_append sha canon ser io payload now (lg, file) = (r, lg', file')"
  shows "lg' = lg \<or> (\<exists>s. sg_sign (al_signer lg) (chain_hash sha canon (al_prev_hash lg) payload) = Ok s
      \<and> lg' = push_entry lg (next_entry sha canon lg payload now s))"
  using assms
  by (auto simp: log_append_def Let_def next_entry_def push_entry_def
      split: sum.splits option.splits prod.splits)

lemma log_append_signed:
  assumes "sg_sign (al_signer lg) (chain_hash sha canon (al_prev_hash lg) payload) = Ok s"
  shows "log_append sha canon ser io payload now (lg, file) =
    (let e = next_entry sha canon lg payload now s in
     case al_persist_path lg of None \<Rightarrow> (Ok e, push_entry lg e, file)
     | Some _ \<Rightarrow> (fst (persist ser io e file), push_entry lg e, snd (persist ser io e file)))"
  using assms
  by (auto simp: log_append_def Let_def next_entry_def push_entry_def split: option.splits prod.splits)

subsection \<open>What a signer promises\<close>

text \<open>\<open>trusted\<close> is the assumption on the key material under which the law holds.\<close>

locale signer_backend =
  fixes sg :: signer and trusted :: bool
  assumes sign_verifies: "trusted \<Longrightarrow> sg_sign sg h = Ok s \<Longrightarrow> sg_verify sg h s = Returns (Ok True)"
begin

lemma append_signature_ok:
  assumes trusted and "al_signer lg = sg"
    and "log_append sha canon ser io payload now (lg, file) = (r, lg', file')"
  shows "lg' = lg \<or> (\<exists>e. lg' = push_entry lg e
       \<and> le_seq e = al_next_seq lg \<and> le_prev_hash e = al_prev_hash lg
       \<and> le_payload e = payload \<and> le_timestamp e = now \<and> recompute_hash_matches sha canon e
       \<and> sg_verify sg (le_hash e) (le_signature e) = Returns (Ok True))"
  using log_append_cases [OF assms(3)]
proof
  assume "\<exists>s. sg_sign (al_signer lg) (chain_hash sha canon (al_prev_hash lg) payload) = Ok s
      \<and> lg' = push_entry lg (next_entry sha canon lg payload now s)"
  then obtain s where s: "sg_sign sg (chain_hash sha canon (al_prev_hash lg) payload) = Ok s"
    and lg': "lg' = push_entry lg (next_entry sha canon lg payload now s)"
    using assms(2) by auto
  show ?thesis
    by (rule disjI2, rule exI [of _ "next_entry sha canon lg payload now s"])
      (simp add: lg' next_entry_def recompute_hash_matches_def sign_verifies [OF assms(1) s])
qed simp

end

definition ed25519_ok :: "ed25519_key \<Rightarrow> bool" where
  "ed25519_ok key \<longleftrightarrow> (\<forall>m. ed_verify key m (ed_sign key m) \<and> length (ed_sign key m) = 64)"

interpretation mem: signer_backend "in_memory_signer key" "ed25519_ok key" for key
  by unfold_locales
    (auto simp: in_memory_signer_def in_memory_sign_def in_memory_verify_def from_hex_to_hex
      ed25519_ok_def)

subsection \<open>Verified chains\<close>

text \<open>The chain property of a list of entries, without sequence numbers and signatures.\<close>

fun linked :: "(string \<Rightarrow> string) \<Rightarrow> (json \<Rightarrow> string) \<Rightarrow> string \<Rightarrow> log_entry list \<Rightarrow> bool" where
  "linked sha canon prev [] = True"
| "linked sha canon prev (e # es) \<longleftrightarrow>
    le_prev_hash e = prev \<and> recompute_hash_matches sha canon e \<and> linked sha canon (le_hash e) es"

definition head_of :: "string \<Rightarrow> log_entry list \<Rightarrow> string" where
  "head_of prev es = (if es = [] then prev else le_hash (last es))"

lemma head_of_simps [simp]: "head_of p [] = p" "head_of p (e # es) = head_of (le_hash e) es"
  "head_of p (es @ [e]) = le_hash e"
  by (simp_all add: head_of_def)

lemma check_links_linked: "check_links sha canon p es = Ok () \<longleftrightarrow> linked sha canon p es"
  by (induction es arbitrary: p) auto

lemma linked_append:
  "linked sha canon p (es @ fs) \<longleftrightarrow> linked sha canon p es \<and> linked sha canon (head_of p es) fs"
  by (induction es arbitrary: p) auto

lemma verify_from_True:
  "verify_from sha canon sg i p es = Returns (Ok True) \<longleftrightarrow>
    linked sha canon p es \<and> (\<forall>k<length es. le_seq (es ! k) = of_nat (i + k)
      \<and> sg_verify sg (le_hash (es ! k)) (le_signature (es ! k)) = Returns (Ok True))"
proof (induction es arbitrary: i p)
  case (Cons e es)
  show ?case
    by (auto simp: Cons.IH All_less_Suc2 split: may_panic.splits sum.splits bool.splits)
qed simp

lemma verify_from_append:
  "verify_from sha canon sg i p (es @ [e]) = Returns (Ok True) \<longleftrightarrow>
    verify_from sha canon sg i p es = Returns (Ok True) \<and> le_prev_hash e = head_of p es
    \<and> recompute_hash_matches sha canon e \<and> le_seq e = of_nat (i + length es)
    \<and> sg_verify sg (le_hash e) (le_signature e) = Returns (Ok True)"
  by (auto simp: verify_from_True linked_append nth_append All_less_Suc)

subsection \<open>Reachable logs\<close>

inductive log_reach ::
  "(string \<Rightarrow> string) \<Rightarrow> (json \<Rightarrow> string) \<Rightarrow> entry_printer \<Rightarrow> signer \<Rightarrow> audit_log \<times> string option \<Rightarrow> bool"
  for sha canon ser sg where
    new: "log_reach sha canon ser sg (log_new sg, file)"
  | persisted: "log_reach sha canon ser sg ((log_new sg)\<lparr>al_persist_path := Some path\<rparr>, None)"
  | anchored: "log_reach sha canon ser sg (lg, file) \<Longrightarrow> log_reach sha canon ser sg (with_anchor a lg, file)"
  | app: "log_reach sha canon ser sg st \<Longrightarrow>
      log_reach sha canon ser sg (snd (log_append sha canon ser io payload now st))"

definition log_ok :: "(string \<Rightarrow> string) \<Rightarrow> (json \<Rightarrow> string) \<Rightarrow> signer \<Rightarrow> audit_log \<Rightarrow> bool" where
  "log_ok sha canon sg lg \<longleftrightarrow> al_signer lg = sg
     \<and> verify_from sha canon sg 0 genesis_hash (al_entries lg) = Returns (Ok True)
     \<and> al_prev_hash lg = head_of genesis_hash (al_entries lg)
     \<and> al_next_seq lg = of_nat (length (al_entries lg))"

lemma log_ok_start: "log_ok sha canon sg (log_new sg)"
    "log_ok sha canon sg ((log_new sg)\<lparr>al_persist_path := Some path\<rparr>)"
    "log_ok sha canon sg (with_anchor a lg) = log_ok sha canon sg lg"
  by (simp_all add: log_ok_def log_new_def with_anchor_def)

lemma log_ok_push:
  assumes "log_ok sha canon sg lg" and "le_seq e = al_next_seq lg" and "le_prev_hash e = al_prev_hash lg"
    and "recompute_hash_matches sha canon e"
    and "sg_verify sg (le_hash e) (le_signature e) = Returns (Ok True)"
  shows "log_ok sha canon sg (push_entry lg e)"
  using assms by (simp add: log_ok_def verify_from_append)

context signer_backend
begin

lemma log_ok_append:
  assumes trusted and "log_ok sha canon sg (fst st)"
  shows "log_ok sha canon sg (fst (snd (log_append sha canon ser io payload now st)))"
proof -
  obtain lg fl where st: "st = (lg, fl)" by (cases st)
  obtain r lg' fl' where ap: "log_append sha canon ser io payload now (lg, fl) = (r, lg', fl')"
    using prod_cases3 by blast
  have "al_signer lg = sg" using assms(2) st by (simp add: log_ok_def)
  from append_signature_ok [OF assms(1) this ap] assms(2)
  show ?thesis unfolding st ap by (auto intro!: log_ok_push)
qed

lemma reach_log_ok:
  assumes trusted
  shows "log_reach sha canon ser sg st \<Longrightarrow> log_ok sha canon sg (fst st)"
  by (induction rule: log_reach.induct) (simp_all add: log_ok_start log_ok_append [OF assms])

end

lemma log_ok_seq:
  assumes "log_ok sha canon sg lg" and "k < length (al_entries lg)"
  shows "le_seq (al_entries lg ! k) = of_nat k"
  using assms by (simp add: log_ok_def verify_from_True)

subsection \<open>Two chains with the same head\<close>

definition preimage :: "(json \<Rightarrow> string) \<Rightarrow> log_entry \<Rightarrow> string" where
  "preimage canon e = le_prev_hash e @ canon (le_payload e)"

definition hash_collision ::
  "(string \<Rightarrow> string) \<Rightarrow> (json \<Rightarrow> string) \<Rightarrow> log_entry list \<Rightarrow> log_entry list \<Rightarrow> bool" where
  "hash_collision sha canon es fs \<longleftrightarrow> (\<exists>e\<in>set es. \<exists>f\<in>set fs.
     preimage canon e \<noteq> preimage canon f \<and> sha (preimage canon e) = sha (preimage canon f))"

definition hashes_to_zero :: "(string \<Rightarrow> string) \<Rightarrow> (json \<Rightarrow> string) \<Rightarrow> log_entry list \<Rightarrow> bool" where
  "hashes_to_zero sha canon es \<longleftrightarrow>
     (\<exists>e\<in>set es. sha (preimage canon e) = replicate 32 (char_of (0 :: nat)))"

lemma recompute_preimage:
  "recompute_hash_matches sha canon e \<longleftrightarrow> le_hash e = to_hex (sha (preimage canon e))"
  by (auto simp: recompute_hash_matches_def chain_hash_def preimage_def)

lemma linked_head_length:
  assumes "\<And>x. length (sha x) = 32" and "linked sha canon genesis_hash es"
  shows "length (head_of genesis_hash es) = 64"
proof (cases es rule: rev_cases)
  case (snoc xs x)
  with assms show ?thesis by (simp add: linked_append recompute_preimage)
qed (simp add: genesis_hash_def)

lemma same_head_same_payloads:
  assumes len: "\<And>x. length (sha x) = 32"
  shows "linked sha canon genesis_hash es \<Longrightarrow> linked sha canon genesis_hash fs \<Longrightarrow>
    head_of genesis_hash es = head_of genesis_hash fs \<Longrightarrow>
    \<not> hash_collision sha canon es fs \<Longrightarrow> \<not> hashes_to_zero sha canon (es @ fs) \<Longrightarrow>
    map (canon \<circ> le_payload) es = map (canon \<circ> le_payload) fs"
proof (induction es arbitrary: fs rule: rev_induct)
  case Nil
  then show ?case
    by (cases fs rule: rev_cases)
      (auto simp: linked_append recompute_preimage genesis_is_hex to_hex_inject hashes_to_zero_def)
next
  case (snoc x xs)
  show ?case
  proof (cases fs rule: rev_cases)
    case Nil
    with snoc.prems show ?thesis
      by (auto simp: linked_append recompute_preimage genesis_is_hex to_hex_inject hashes_to_zero_def)
  next
    case (snoc ys y)
    note fs = snoc
    have link: "linked sha canon genesis_hash xs" "linked sha canon genesis_hash ys"
      "le_prev_hash x = head_of genesis_hash xs" "le_prev_hash y = head_of genesis_hash ys"
      "sha (preimage canon x) = sha (preimage canon y)"
      using snoc.prems by (auto simp: fs linked_append recompute_preimage to_hex_inject)
    then have pre: "preimage canon x = preimage canon y"
      using snoc.prems(4) by (auto simp: fs hash_collision_def)
    moreover have "length (le_prev_hash x) = length (le_prev_hash y)"
      using linked_head_length [OF len] link by simp
    ultimately have "le_prev_hash x = le_prev_hash y" "canon (le_payload x) = canon (le_payload y)"
      by (auto simp: preimage_def)
    moreover have "map (canon \<circ> le_payload) xs = map (canon \<circ> le_payload) ys"
      using snoc.prems(4,5) link calculation(1)
      by (intro snoc.IH) (auto simp: fs hash_collision_def hashes_to_zero_def)
    ultimately show ?thesis by (simp add: fs comp_def)
  qed
qed

subsection \<open>Persistence\<close>

text \<open>What the JSON codec has to do on one entry: print a trimmed, non-empty line and read it back.\<close>

definition entry_codec :: "entry_printer \<Rightarrow> (string \<Rightarrow> log_entry option) \<Rightarrow> log_entry \<Rightarrow> bool" where
  "entry_codec ser deser e \<longleftrightarrow> (case ser e of Inl _ \<Rightarrow> False | Inr l \<Rightarrow>
     deser l = Some e \<and> l \<noteq> [] \<and> trim l = l \<and> strip_cr l = l \<and> utf8_valid l \<and> newline \<notin> set l)"

definition print_entries :: "entry_printer \<Rightarrow> log_entry list \<Rightarrow> string" where
  "print_entries ser es = concat (map (\<lambda>e. case ser e of Inl _ \<Rightarrow> [] | Inr l \<Rightarrow> l @ [newline]) es)"

lemma lines_Nil [simp]: "lines [] = []"
  by (simp add: lines_def split_char_def)

lemma read_print_entries:
  "list_all (entry_codec ser deser) es \<Longrightarrow> read_entries deser (lines (print_entries ser es)) = Ok es"
  by (induction es)
    (auto simp: print_entries_def entry_codec_def lines_Cons split: sum.splits)

lemma open_log_printed:
  assumes "list_all (entry_codec ser deser) es"
  shows "open_log sha canon deser path True (Some (print_entries ser es)) sg =
    (case check_links sha canon genesis_hash es of
       Inl x \<Rightarrow> Err x
     | Inr _ \<Rightarrow> Ok \<lparr> al_next_seq = (if es = [] then 0 else le_seq (last es) + 1),
         al_prev_hash = head_of genesis_hash es, al_signer = sg, al_anchor = None,
         al_entries = es, al_persist_path = Some path \<rparr>)"
  using read_print_entries [OF assms]
  by (auto simp: open_log_def Let_def head_of_def split: sum.splits)

lemma persist_IoOk:
  assumes "entry_codec ser deser e" and "unwrap_or file [] = print_entries ser es"
  shows "persist ser IoOk e file = (Ok e, Some (print_entries ser (es @ [e])))"
  using assms by (auto simp: persist_def entry_codec_def print_entries_def Let_def split: sum.splits)

lemma check_links_gap:
  assumes "linked sha canon p es" and "le_prev_hash e \<noteq> head_of p es"
  shows "check_links sha canon p (es @ [e]) = Err (ChainBrokenAt (le_seq e))"
  using assms by (induction es arbitrary: p) auto

lemma in_memory_sign_total: "sg_sign (in_memory_signer key) h = Ok (to_hex (ed_sign key h))"
  by (simp add: in_memory_signer_def in_memory_sign_def)

text \<open>A persisted log after successful appends of the payloads and times \<open>ps\<close>.\<close>

definition append_all ::
  "(string \<Rightarrow> string) \<Rightarrow> (json \<Rightarrow> string) \<Rightarrow> entry_printer \<Rightarrow> (json \<times> string) list \<Rightarrow>
     audit_log \<times> string option \<Rightarrow> audit_log \<times> string option" where
  "append_all sha canon ser ps st = foldl (\<lambda>st (p, t). snd (log_append sha canon ser IoOk p t st)) st ps"

definition fresh_persisted :: "ed25519_key \<Rightarrow> string \<Rightarrow> audit_log \<times> string option" where
  "fresh_persisted key path = ((log_new (in_memory_signer key))\<lparr>al_persist_path := Some path\<rparr>, None)"

definition in_sync :: "(string \<Rightarrow> string) \<Rightarrow> (json \<Rightarrow> string) \<Rightarrow> entry_printer \<Rightarrow> ed25519_key \<Rightarrow> string \<Rightarrow>
    audit_log \<times> string option \<Rightarrow> bool" where
  "in_sync sha canon ser key path st \<longleftrightarrow> log_ok sha canon (in_memory_signer key) (fst st)
     \<and> al_persist_path (fst st) = Some path \<and> al_anchor (fst st) = None
     \<and> unwrap_or (snd st) [] = print_entries ser (al_entries (fst st))"

lemma in_sync_append:
  assumes "ed25519_ok key" and sync: "in_sync sha canon ser key path st"
    and codec: "entry_codec ser deser (last (al_entries (fst (snd (log_append sha canon ser IoOk p t st)))))"
  shows "in_sync sha canon ser key path (snd (log_append sha canon ser IoOk p t st))
    \<and> snd (snd (log_append sha canon ser IoOk p t st)) \<noteq> None
    \<and> is_ok (fst (log_append sha canon ser IoOk p t st))"
proof -
  obtain lg fl where st: "st = (lg, fl)" by (cases st)
  let ?h = "chain_hash sha canon (al_prev_hash lg) p"
  let ?e = "next_entry sha canon lg p t (to_hex (ed_sign key ?h))"
  have lg: "al_signer lg = in_memory_signer key" "al_persist_path lg = Some path" "al_anchor lg = None"
    "unwrap_or fl [] = print_entries ser (al_entries lg)"
    using sync by (simp_all add: in_sync_def st log_ok_def)
  have ap: "log_append sha canon ser IoOk p t st =
      (fst (persist ser IoOk ?e fl), push_entry lg ?e, snd (persist ser IoOk ?e fl))"
    unfolding st by (subst log_append_signed) (auto simp: lg in_memory_sign_total Let_def)
  with codec have "entry_codec ser deser ?e" by simp
  note pe = persist_IoOk [OF this lg(4)]
  have "log_ok sha canon (in_memory_signer key) (push_entry lg ?e)"
    using mem.log_ok_append [OF assms(1), of sha canon st ser IoOk p t] sync by (simp add: in_sync_def ap)
  then show ?thesis by (simp add: ap pe in_sync_def lg)
qed

lemma in_sync_append_all:
  assumes "ed25519_ok key"
  shows "list_all (entry_codec ser deser) (al_entries (fst (append_all sha canon ser ps (fresh_persisted key path))))
    \<Longrightarrow> in_sync sha canon ser key path (append_all sha canon ser ps (fresh_persisted key path))"
proof (induction ps rule: rev_induct)
  case Nil
  then show ?case
    using log_ok_start(2) [of sha canon "in_memory_signer key" path]
    by (simp add: append_all_def fresh_persisted_def in_sync_def print_entries_def log_new_def)
next
  case (snoc q ps)
  let ?st = "append_all sha canon ser ps (fresh_persisted key path)"
  obtain p t where q: "q = (p, t)" by (cases q)
  have step: "append_all sha canon ser (ps @ [q]) (fresh_persisted key path)
      = snd (log_append sha canon ser IoOk p t ?st)"
    by (simp add: append_all_def q)
  obtain r lg' fl' where ap: "log_append sha canon ser IoOk p t ?st = (r, lg', fl')"
    using prod_cases3 by blast
  from log_append_cases [of _ _ _ _ _ _ "fst ?st" "snd ?st", unfolded prod.collapse, OF ap] snoc.prems
  have "list_all (entry_codec ser deser) (al_entries (fst ?st))" by (auto simp: step ap)
  with snoc.IH have sync: "in_sync sha canon ser key path ?st" by simp
  have "al_entries lg' \<noteq> []"
    using ap sync by (auto simp: log_append_def Let_def in_sync_def log_ok_def in_memory_sign_total
        split: prod.splits option.splits)
  then have "entry_codec ser deser (last (al_entries (fst (snd (log_append sha canon ser IoOk p t ?st)))))"
    using snoc.prems by (simp add: step ap list_all_iff)
  from in_sync_append [OF assms sync this] show ?case by (simp add: step)
qed

subsection \<open>Properties\<close>


text \<open>A checksum instead of SHA-256, a printer and a key for the witnesses.\<close>

definition demo_sha :: "string \<Rightarrow> string" where
  "demo_sha s = char_of (Suc (length s)) # take 31 (rev s @ replicate 31 (CHR ''x''))"

definition demo_canon :: "json \<Rightarrow> string" where
  "demo_canon v = (case v of JStr s \<Rightarrow> s | _ \<Rightarrow> ''null'')"

definition demo_key :: ed25519_key where
  "demo_key = \<lparr> ed_sign = (\<lambda>m. replicate 64 (CHR ''s'')), ed_verify = (\<lambda>m s. s = replicate 64 (CHR ''s'')) \<rparr>"

definition demo_ser :: entry_printer where
  "demo_ser e = Ok (show_nat (unat (le_seq e)))"

definition demo_log :: "string \<Rightarrow> audit_log \<times> string option" where
  "demo_log t = snd (log_append demo_sha demo_canon demo_ser IoOk (JStr ''kill'') t
     (log_new (in_memory_signer demo_key), None))"

lemma demo_log_reach: "log_reach demo_sha demo_canon demo_ser (in_memory_signer demo_key) (demo_log t)"
  unfolding demo_log_def by (intro log_reach.app log_reach.new)

lemma demo_key_ok: "ed25519_ok demo_key"
  by (simp add: ed25519_ok_def demo_key_def)


text \<open>
  C5: a verified log commits to its whole history. If two logs both pass verification (with any keys) and
  their heads agree, they hold the same payloads in the same order, unless two entries of the
  two logs are themselves a collision of SHA-256 or one of them hashes to the all-zero genesis value. So
  an edited, dropped, inserted or reordered entry shows in the head.
\<close>

theorem same_head_same_history:
  assumes "\<And>x. length (sha x) = 32"
    and "verify_chain sha canon lg1 = Returns (Ok True)" and "verify_chain sha canon lg2 = Returns (Ok True)"
    and "head_of genesis_hash (al_entries lg1) = head_of genesis_hash (al_entries lg2)"
    and "\<not> hash_collision sha canon (al_entries lg1) (al_entries lg2)"
    and "\<not> hashes_to_zero sha canon (al_entries lg1 @ al_entries lg2)"
  shows "map (canon \<circ> le_payload) (al_entries lg1) = map (canon \<circ> le_payload) (al_entries lg2)"
  using assms by (intro same_head_same_payloads) (simp_all add: verify_chain_def verify_from_True)

lemma demo_entries: "al_entries (fst (demo_log t)) = [next_entry demo_sha demo_canon
    (log_new (in_memory_signer demo_key)) (JStr ''kill'') t (to_hex (replicate 64 (CHR ''s'')))]"
  by (simp add: demo_log_def log_append_def log_new_def in_memory_signer_def in_memory_sign_def Let_def
      demo_key_def next_entry_def)

theorem same_head_same_history_witness:
  "map (demo_canon \<circ> le_payload) (al_entries (fst (demo_log ''12:00'')))
    = map (demo_canon \<circ> le_payload) (al_entries (fst (demo_log ''13:00'')))"
proof (rule same_head_same_history [where sha = demo_sha])
  show "length (demo_sha x) = 32" for x by (simp add: demo_sha_def)
  show "verify_chain demo_sha demo_canon (fst (demo_log ''12:00'')) = Returns (Ok True)"
    "verify_chain demo_sha demo_canon (fst (demo_log ''13:00'')) = Returns (Ok True)"
    using mem.reach_log_ok [OF demo_key_ok demo_log_reach] by (simp_all add: log_ok_def verify_chain_def)
qed (auto simp: demo_entries next_entry_def hash_collision_def hashes_to_zero_def preimage_def demo_sha_def
    log_new_def genesis_hash_def demo_canon_def
    dest!: arg_cong [where f = "\<lambda>l. of_char (hd l) :: nat"])

text \<open>
  timestamps are not covered by the chain or by the signatures. Whatever timestamps are written over
  those of a log's entries, verification gives the same result as before.
\<close>

theorem timestamps_not_authenticated:
  "verify_chain sha canon (lg\<lparr>al_entries := map (\<lambda>e. e\<lparr>le_timestamp := f e\<rparr>) (al_entries lg)\<rparr>)
    = verify_chain sha canon lg"
proof -
  have "verify_from sha canon sg i p (map (\<lambda>e. e\<lparr>le_timestamp := f e\<rparr>) es)
      = verify_from sha canon sg i p es" for sg i p es
    by (induction es arbitrary: i p)
      (auto simp: recompute_hash_matches_def split: may_panic.splits sum.splits bool.splits)
  then show ?thesis by (simp add: verify_chain_def)
qed

text \<open>
  export of a range of a verified log returns exactly the slice of the entries with these sequence
  numbers, in order; a reversed range is an error.
\<close>

theorem export_segment_slice:
  assumes "verify_chain sha canon lg = Returns (Ok True)" and "length (al_entries lg) < 2 ^ 64"
  shows "export_segment lg a b = (if a > b then Err (InvalidRange a b)
    else Ok (take (Suc (unat b) - unat a) (drop (unat a) (al_entries lg))))"
proof -
  have seq: "le_seq (al_entries lg ! k) = of_nat k" if "k < length (al_entries lg)" for k
    using assms(1) that by (simp add: verify_chain_def verify_from_True)
  have "unat (le_seq (al_entries lg ! k)) = k" if "k < length (al_entries lg)" for k
    using seq [OF that] assms(2) that by (simp add: unat_of_nat_u64)
  then have "filter (\<lambda>e. a \<le> le_seq e \<and> le_seq e \<le> b) (al_entries lg)
      = take (Suc (unat b) - unat a) (drop (unat a) (al_entries lg))"
    by (subst filter_range_slice [where key = "\<lambda>e. unat (le_seq e)" and lo = "unat a" and hi = "unat b", symmetric])
      (simp_all add: word_le_nat_alt)
  then show ?thesis by (simp add: export_segment_def)
qed

theorem export_segment_slice_witness:
  "export_segment (fst (demo_log ''12:00'')) 0 7 = Ok (take 8 (drop 0 (al_entries (fst (demo_log ''12:00'')))))"
proof -
  have "verify_chain demo_sha demo_canon (fst (demo_log ''12:00'')) = Returns (Ok True)"
    using mem.reach_log_ok [OF demo_key_ok demo_log_reach] by (simp add: log_ok_def verify_chain_def)
  from export_segment_slice [OF this, of 0 7] show ?thesis by (simp add: demo_entries)
qed

text \<open>
  recovery inverts persistence. If every append to a fresh persisted log succeeded and the JSON codec
  reads back the entries that were written, then opening the file gives the log as it was in memory: the same
  entries, chain head and next sequence number.
\<close>

theorem recovery_round_trip:
  assumes "ed25519_ok key" and "append_all sha canon ser ps (fresh_persisted key path) = (lg, file)"
    and "list_all (entry_codec ser deser) (al_entries lg)" and "ps \<noteq> []" and "file = Some content"
  shows "open_log sha canon deser path True (Some content) (in_memory_signer key) = Ok lg"
proof -
  have sync: "in_sync sha canon ser key path (lg, Some content)"
    using in_sync_append_all [OF assms(1), of ser deser sha canon ps path] assms by simp
  then have ok: "log_ok sha canon (in_memory_signer key) lg"
    and content: "content = print_entries ser (al_entries lg)" by (simp_all add: in_sync_def)
  have "check_links sha canon genesis_hash (al_entries lg) = Ok ()"
    using ok by (simp add: log_ok_def verify_from_True check_links_linked)
  moreover have "al_next_seq lg = (if al_entries lg = [] then 0 else le_seq (last (al_entries lg)) + 1)"
    using ok log_ok_seq [OF ok, of "length (al_entries lg) - 1"]
    by (cases "al_entries lg" rule: rev_cases) (simp_all add: log_ok_def)
  ultimately show ?thesis
    using sync ok by (simp add: content open_log_printed [OF assms(3)] in_sync_def log_ok_def)
qed

definition demo_first :: log_entry where
  "demo_first = next_entry demo_sha demo_canon (log_new (in_memory_signer demo_key)) (JStr ''kill'') ''12:00''
     (to_hex (replicate 64 (CHR ''s'')))"

definition demo_deser :: "string \<Rightarrow> log_entry option" where
  "demo_deser s = (if s = ''0'' then Some demo_first else None)"

lemma demo_persisted:
  "append_all demo_sha demo_canon demo_ser [(JStr ''kill'', ''12:00'')] (fresh_persisted demo_key ''log'')
    = (push_entry (fst (fresh_persisted demo_key ''log'')) demo_first, Some (''0'' @ [newline]))"
  by (simp add: append_all_def fresh_persisted_def log_append_def log_new_def in_memory_signer_def
      in_memory_sign_def Let_def demo_key_def next_entry_def demo_first_def persist_def demo_ser_def
      push_entry_def show_nat_eval)

lemma single_line: "utf8_valid ''0''" "trim ''0'' = ''0''" "strip_cr ''0'' = ''0''" "newline \<notin> set ''0''"
  by (rule graphic_line; simp add: graphic_char)+

lemma demo_first_codec: "entry_codec demo_ser demo_deser demo_first"
  using single_line
  by (simp add: entry_codec_def demo_ser_def demo_deser_def show_nat_eval demo_first_def next_entry_def log_new_def)

theorem recovery_round_trip_witness:
  "open_log demo_sha demo_canon demo_deser ''log'' True (Some (''0'' @ [newline])) (in_memory_signer demo_key)
    = Ok (push_entry (fst (fresh_persisted demo_key ''log'')) demo_first)"
  by (rule recovery_round_trip [OF demo_key_ok demo_persisted])
    (simp_all add: demo_first_codec fresh_persisted_def log_new_def)

text \<open>
  a failed write is not rolled back. When opening the file fails during an append, the caller gets an
  error but the chain in memory has advanced; after one more, successful, append the log in memory still
  verifies, and the file has a gap: the next start refuses to open it.
\<close>

theorem failed_persist_breaks_recovery:
  assumes "ed25519_ok key" and "in_sync sha canon ser key path st"
    and "list_all (entry_codec ser deser) (al_entries (fst st))"
    and "log_append sha canon ser (OpenFails msg) p1 t1 st = (r1, st1)"
    and "log_append sha canon ser IoOk p2 t2 st1 = (r2, lg2, file2)"
    and "entry_codec ser deser (last (al_entries lg2))"
    and "chain_hash sha canon (al_prev_hash (fst st)) p1 \<noteq> al_prev_hash (fst st)"
  shows "r1 = Err (Serialize msg) \<and> is_ok r2 \<and> verify_chain sha canon lg2 = Returns (Ok True)
    \<and> open_log sha canon deser path True file2 (in_memory_signer key)
        = Err (ChainBrokenAt (al_next_seq (fst st) + 1))"
proof -
  obtain lg fl where st: "st = (lg, fl)" by (cases st)
  define e1 where "e1 = next_entry sha canon lg p1 t1 (to_hex (ed_sign key (chain_hash sha canon (al_prev_hash lg) p1)))"
  define e2 where "e2 = next_entry sha canon (push_entry lg e1) p2 t2
    (to_hex (ed_sign key (chain_hash sha canon (le_hash e1) p2)))"
  have lg: "al_signer lg = in_memory_signer key" "al_persist_path lg = Some path"
    "unwrap_or fl [] = print_entries ser (al_entries lg)" "al_prev_hash lg = head_of genesis_hash (al_entries lg)"
    "linked sha canon genesis_hash (al_entries lg)"
    using assms(2) by (simp_all add: in_sync_def st log_ok_def verify_from_True)
  have "r1 = Err (Serialize msg) \<and> st1 = (push_entry lg e1, fl)"
    using assms(4) unfolding st
    by (subst (asm) log_append_signed) (auto simp: lg in_memory_sign_total Let_def persist_def e1_def)
  moreover from this have two: "r2 = fst (persist ser IoOk e2 fl)" "lg2 = push_entry (push_entry lg e1) e2"
      "file2 = snd (persist ser IoOk e2 fl)"
    using assms(5)
    by (auto simp: log_append_signed lg in_memory_sign_total Let_def e2_def)
  moreover have codec: "entry_codec ser deser e2" using assms(6) two by simp
  note pe = persist_IoOk [OF this lg(3)]
  have "check_links sha canon genesis_hash (al_entries lg @ [e2]) = Err (ChainBrokenAt (le_seq e2))"
    using assms(7) by (intro check_links_gap lg(5)) (simp add: e2_def e1_def next_entry_def st lg(4))
  then have "open_log sha canon deser path True file2 (in_memory_signer key) = Err (ChainBrokenAt (le_seq e2))"
    using codec assms(3) by (simp add: two pe st open_log_printed)
  moreover have "log_ok sha canon (in_memory_signer key) lg2"
    using assms(2,4,5) mem.log_ok_append [OF assms(1)] by (metis fst_conv in_sync_def snd_conv)
  ultimately show ?thesis
    by (simp add: pe verify_chain_def log_ok_def st) (simp add: e2_def next_entry_def)
qed

definition demo_second :: log_entry where
  "demo_second = \<lparr> le_seq = 1, le_timestamp = ''t2'',
     le_prev_hash = chain_hash demo_sha demo_canon genesis_hash (JStr ''a''), le_payload = JStr ''b'',
     le_hash = chain_hash demo_sha demo_canon (chain_hash demo_sha demo_canon genesis_hash (JStr ''a'')) (JStr ''b''),
     le_signature = to_hex (replicate 64 (CHR ''s'')) \<rparr>"

theorem failed_persist_breaks_recovery_witness:
  "open_log demo_sha demo_canon (\<lambda>s. if s = ''1'' then Some demo_second else None) ''log'' True
      (snd (snd (log_append demo_sha demo_canon demo_ser IoOk (JStr ''b'') ''t2''
        (snd (log_append demo_sha demo_canon demo_ser (OpenFails ''disk full'') (JStr ''a'') ''t1''
          (fresh_persisted demo_key ''log''))))))
      (in_memory_signer demo_key) = Err (ChainBrokenAt 1)"
proof -
  let ?st = "fresh_persisted demo_key ''log''"
  let ?st1 = "snd (log_append demo_sha demo_canon demo_ser (OpenFails ''disk full'') (JStr ''a'') ''t1'' ?st)"
  have sync: "in_sync demo_sha demo_canon demo_ser demo_key ''log'' ?st"
    using in_sync_append_all [OF demo_key_ok, of demo_ser demo_deser demo_sha demo_canon "[]" "''log''"]
    by (simp add: append_all_def fresh_persisted_def log_new_def)
  have ents: "al_entries (fst (snd (log_append demo_sha demo_canon demo_ser IoOk (JStr ''b'') ''t2'' ?st1)))
      = [next_entry demo_sha demo_canon (fst ?st) (JStr ''a'') ''t1'' (to_hex (replicate 64 (CHR ''s''))), demo_second]"
    by (simp add: fresh_persisted_def log_append_def log_new_def in_memory_signer_def in_memory_sign_def
        Let_def demo_key_def next_entry_def persist_def demo_ser_def demo_second_def)
  have "utf8_valid ''1''" "trim ''1'' = ''1''" "strip_cr ''1'' = ''1''" "newline \<notin> set ''1''"
    by (rule graphic_line; simp add: graphic_char)+
  then have codec: "entry_codec demo_ser (\<lambda>s. if s = ''1'' then Some demo_second else None) demo_second"
    by (simp add: entry_codec_def demo_ser_def demo_second_def show_nat_eval)
  have "demo_sha (genesis_hash @ ''a'') \<noteq> replicate 32 (char_of (0 :: nat))"
    by (auto simp: demo_sha_def genesis_hash_def dest!: arg_cong [where f = "\<lambda>l. of_char (hd l) :: nat"])
  then have "to_hex (demo_sha (genesis_hash @ ''a'')) \<noteq> genesis_hash"
    by (metis genesis_is_hex to_hex_inject)
  then have "chain_hash demo_sha demo_canon (al_prev_hash (fst ?st)) (JStr ''a'') \<noteq> al_prev_hash (fst ?st)"
    by (simp add: fresh_persisted_def log_new_def chain_hash_def demo_canon_def)
  with failed_persist_breaks_recovery [OF demo_key_ok sync, of "\<lambda>s. if s = ''1'' then Some demo_second else None"
      "''disk full''" "JStr ''a''" "''t1''" _ ?st1 "JStr ''b''" "''t2''"]
  show ?thesis
    by (simp add: codec ents prod_eq_iff) (simp add: fresh_persisted_def log_new_def)
qed

end
