(* ===== verification/SelfHeal.thy ===== *)
theory SelfHeal
  imports RustStr Floats
begin

text \<open>
  Self-healing playbooks, \<open>secureops-selfheal/src/lib.rs\<close> with the dry backends of \<open>gcp.rs\<close> and
  \<open>azure.rs\<close>: playbooks, the circuit breaker, the engine's class-specific execution paths and
  the parser of playbook steps.

  A cloud backend is a record of operations on a state of its own, so a run of the engine is a function of
  the breaker, the backend's state and the audit trail; the time of a run is an argument. YAML
  (\<open>serde_yaml\<close>) is not modelled: the embedded playbooks are the values their YAML denotes.

  The lemmas show when the cloud is touched at all, what the reversible path does on each failure, that the
  breaker opens exactly when the error rate of its window exceeded one fifth, and that steps are parsed as
  they are written.
\<close>

subsection \<open>Types\<close>

datatype playbook_class = Safe | Reversible | Destructive

record playbook =
  pk_id :: string
  pk_matches :: "string list"
  pk_class :: playbook_class
  pk_dry_run :: "string option"
  pk_snapshot :: "string option"
  pk_execute :: string
  pk_health_check :: "string option"
  pk_rollback :: "string option"
  pk_audit_required :: bool

record 's cloud_backend =
  cb_dry_run :: "string \<Rightarrow> 's \<Rightarrow> (string + string) \<times> 's"
  cb_snapshot :: "string \<Rightarrow> 's \<Rightarrow> (string + string) \<times> 's"
  cb_execute :: "string \<Rightarrow> 's \<Rightarrow> (string + string) \<times> 's"
  cb_health_check :: "string \<Rightarrow> 's \<Rightarrow> (string + bool) \<times> 's"
  cb_rollback :: "string \<Rightarrow> string \<Rightarrow> 's \<Rightarrow> (string + unit) \<times> 's"

datatype approval = Approved string | Denied string | Timeout

datatype exec_state = Completed | RolledBack | Aborted | Failed

record audit_record =
  ar_playbook_id :: string
  ar_action :: string
  ar_before :: "string option"
  ar_after :: "string option"
  ar_state :: exec_state
  ar_actor :: "string option"

record exec_outcome =
  eo_state :: exec_state
  eo_executed :: bool

subsection \<open>CircuitBreaker\<close>

record circuit_breaker =
  br_window_ms :: u64
  br_threshold :: f32
  br_min_samples :: nat
  br_samples :: "(playbook_class, (bool \<times> u64) list) hmap"
  br_halted :: "(playbook_class, bool) hmap"

definition breaker_new :: "u64 \<Rightarrow> f32 \<Rightarrow> nat \<Rightarrow> circuit_breaker" where
  "breaker_new window threshold min_samples = \<lparr> br_window_ms = window, br_threshold = threshold,
     br_min_samples = min_samples, br_samples = [], br_halted = [] \<rparr>"

definition breaker_default :: circuit_breaker where
  "breaker_default = breaker_new 300000 (round32 (1 / 5)) 3"

definition record_at :: "playbook_class \<Rightarrow> bool \<Rightarrow> u64 \<Rightarrow> circuit_breaker \<Rightarrow> circuit_breaker" where
  "record_at cls good now_ms b =
    (let dq0 = unwrap_or (hm_get (br_samples b) cls) [] @ [(good, now_ms)];
         dq = dropWhile (\<lambda>(_, t). saturating_sub now_ms t > br_window_ms b) dq0;
         total = length dq;
         errors = length (filter (\<lambda>(g, _). \<not> g) dq);
         b' = b\<lparr>br_samples := hm_insert cls dq (br_samples b)\<rparr>
     in if total \<ge> br_min_samples b
           \<and> flt_less (br_threshold b) (flt_div round32 (f32_of_nat errors) (f32_of_nat total))
        then b'\<lparr>br_halted := hm_insert cls True (br_halted b)\<rparr> else b')"

definition is_open :: "circuit_breaker \<Rightarrow> playbook_class \<Rightarrow> bool" where
  "is_open b cls = unwrap_or (hm_get (br_halted b) cls) False"

definition reset_class :: "playbook_class \<Rightarrow> circuit_breaker \<Rightarrow> circuit_breaker" where
  "reset_class cls b = b\<lparr> br_halted := hm_insert cls False (br_halted b),
     br_samples := hm_remove cls (br_samples b) \<rparr>"

subsection \<open>PlaybookEngine\<close>

record 's engine_state =
  es_breaker :: circuit_breaker
  es_cloud :: 's
  es_audit :: "audit_record list"

definition audit ::
  "playbook \<Rightarrow> string \<Rightarrow> string option \<Rightarrow> exec_state \<Rightarrow> string option \<Rightarrow> 's engine_state \<Rightarrow> 's engine_state" where
  "audit pb action after state actor w = (if pk_audit_required pb
     then w\<lparr>es_audit := es_audit w @ [\<lparr> ar_playbook_id = pk_id pb, ar_action = action, ar_before = None,
        ar_after = after, ar_state = state, ar_actor = actor \<rparr>]\<rparr> else w)"

definition finalize_execute ::
  "playbook \<Rightarrow> string + string \<Rightarrow> string option \<Rightarrow> u64 \<Rightarrow> 's engine_state \<Rightarrow> exec_outcome \<times> 's engine_state"
where
  "finalize_execute pb result actor now w =
    (let (state, after) = (case result of Inr a \<Rightarrow> (Completed, Some a) | Inl e \<Rightarrow> (Failed, Some e));
         w1 = w\<lparr>es_breaker := record_at (pk_class pb) (state = Completed) now (es_breaker w)\<rparr>
     in (\<lparr> eo_state = state, eo_executed = True \<rparr>, audit pb ''execute'' after state actor w1))"

definition run ::
  "'s cloud_backend \<Rightarrow> playbook \<Rightarrow> approval option \<Rightarrow> u64 \<Rightarrow> 's engine_state \<Rightarrow> exec_outcome \<times> 's engine_state"
where
  "run cloud pb approv now w =
    (if is_open (es_breaker w) (pk_class pb)
     then (\<lparr> eo_state = Aborted, eo_executed = False \<rparr>, audit pb ''blocked'' None Aborted None w)
     else case pk_class pb of
       Safe \<Rightarrow>
         let s1 = (case pk_dry_run pb of Some dr \<Rightarrow> snd (cb_dry_run cloud dr (es_cloud w)) | None \<Rightarrow> es_cloud w);
             (result, s2) = cb_execute cloud (pk_execute pb) s1
         in finalize_execute pb result None now (w\<lparr>es_cloud := s2\<rparr>)
     | Reversible \<Rightarrow>
         let (snap, s1) = (case pk_snapshot pb of
               Some st \<Rightarrow> (case cb_snapshot cloud st (es_cloud w) of (r, s') \<Rightarrow> (ok r, s'))
             | None \<Rightarrow> (None, es_cloud w));
             (exec, s2) = cb_execute cloud (pk_execute pb) s1;
             (healthy, s3) = (case exec of
               Inr _ \<Rightarrow> (case pk_health_check pb of
                   Some hc \<Rightarrow> (case cb_health_check cloud hc s2 of (r, s') \<Rightarrow> (unwrap_or (ok r) False, s'))
                 | None \<Rightarrow> (True, s2))
             | Inl _ \<Rightarrow> (False, s2))
         in if is_ok exec \<and> healthy
            then (\<lparr> eo_state = Completed, eo_executed = True \<rparr>,
              audit pb ''execute'' (ok exec) Completed None
                (w\<lparr> es_cloud := s3, es_breaker := record_at Reversible True now (es_breaker w) \<rparr>))
            else
              let s4 = (case (pk_rollback pb, snap) of
                    (Some rb, Some s) \<Rightarrow> snd (cb_rollback cloud rb s s3) | _ \<Rightarrow> s3)
              in (\<lparr> eo_state = RolledBack, eo_executed = is_ok exec \<rparr>,
                audit pb ''rollback'' None RolledBack None
                  (w\<lparr> es_cloud := s4, es_breaker := record_at Reversible False now (es_breaker w) \<rparr>))
     | Destructive \<Rightarrow>
         (case approv of
            Some (Approved by) \<Rightarrow>
              let (result, s1) = cb_execute cloud (pk_execute pb) (es_cloud w)
              in finalize_execute pb result (Some by) now (w\<lparr>es_cloud := s1\<rparr>)
          | _ \<Rightarrow> (\<lparr> eo_state = Aborted, eo_executed = False \<rparr>,
                  audit pb ''await_approval'' None Aborted None w)))"

subsection \<open>Playbook steps\<close>

datatype cloud_action =
    PutBucketAcl string string
  | RevokeSecurityGroupIngress string string string
  | StartCloudTrail string
  | GcsRemoveIamMember string string
  | DeleteK8sPod string string
  | AzureNsgRevokeRule string string string
  | GcpFirewallRevoke string string
  | Unknown string

definition step_args :: "string list \<Rightarrow> (string, string) hmap" where
  "step_args parts = foldl (\<lambda>m (k, v). hm_insert k v m) [] (List.map_filter (split_once (CHR ''='')) parts)"

definition parse_step :: "string \<Rightarrow> cloud_action" where
  "parse_step step =
    (let parts = split_whitespace step;
         op1 = (case parts of [] \<Rightarrow> [] | p # _ \<Rightarrow> p);
         kv = step_args (tl parts);
         g = (\<lambda>k. unwrap_or (hm_get kv k) [])
     in if op1 = ''s3.put_bucket_acl'' then PutBucketAcl (g ''bucket'') (g ''acl'')
        else if op1 = ''ec2.revoke_ingress''
        then RevokeSecurityGroupIngress (g ''sg'') (g ''cidr'') (g ''port'')
        else if op1 = ''cloudtrail.start_logging'' then StartCloudTrail (g ''name'')
        else if op1 = ''gcs.remove_iam_member'' then GcsRemoveIamMember (g ''bucket'') (g ''member'')
        else if op1 = ''k8s.delete_pod'' then DeleteK8sPod (g ''namespace'') (g ''pod'')
        else if op1 = ''azure.nsg_revoke_rule'' then AzureNsgRevokeRule (g ''nsg'') (g ''cidr'') (g ''port'')
        else if op1 = ''gcp.firewall_revoke'' then GcpFirewallRevoke (g ''firewall'') (g ''cidr'')
        else Unknown step)"

subsection \<open>The dry backends\<close>

text \<open>Their state is the list of recorded actions; \<open>dbg\<close> is the derived \<open>{:?}\<close> of an action.\<close>

definition gcp_execute ::
  "(cloud_action \<Rightarrow> string) \<Rightarrow> string \<Rightarrow> cloud_action list \<Rightarrow> (string + string) \<times> cloud_action list" where
  "gcp_execute dbg step calls =
    (let action = parse_step step; calls' = calls @ [action]
     in case action of
          GcsRemoveIamMember bucket member \<Rightarrow>
            (Ok (''gcs.remove_iam_member ok bucket='' @ bucket @ '' member='' @ member), calls')
        | GcpFirewallRevoke firewall cidr \<Rightarrow>
            (Ok (''gcp.firewall_revoke ok firewall='' @ firewall @ '' cidr='' @ cidr), calls')
        | Unknown raw \<Rightarrow> (Err (''gcp backend: unknown step '' @ raw), calls')
        | other \<Rightarrow> (Err (''gcp backend does not handle '' @ dbg other), calls'))"

definition gcp_cloud :: "(cloud_action \<Rightarrow> string) \<Rightarrow> cloud_action list cloud_backend" where
  "gcp_cloud dbg = \<lparr>
     cb_dry_run = (\<lambda>step calls. (Ok (''gcp dry_run ok: '' @ step), calls @ [parse_step step])),
     cb_snapshot = (\<lambda>step calls. (Ok ''gcp-snapshot'', calls @ [parse_step step])),
     cb_execute = gcp_execute dbg,
     cb_health_check = (\<lambda>_ calls. (Ok True, calls)),
     cb_rollback = (\<lambda>step _ calls. (Ok (), calls @ [parse_step step])) \<rparr>"

definition azure_execute ::
  "(cloud_action \<Rightarrow> string) \<Rightarrow> string \<Rightarrow> cloud_action list \<Rightarrow> (string + string) \<times> cloud_action list" where
  "azure_execute dbg step calls =
    (let action = parse_step step; calls' = calls @ [action]
     in case action of
          AzureNsgRevokeRule nsg cidr port \<Rightarrow>
            (Ok (''azure.nsg_revoke_rule ok nsg='' @ nsg @ '' cidr='' @ cidr @ '' port='' @ port), calls')
        | Unknown raw \<Rightarrow> (Err (''azure backend: unknown step '' @ raw), calls')
        | other \<Rightarrow> (Err (''azure backend does not handle '' @ dbg other), calls'))"

definition azure_cloud :: "(cloud_action \<Rightarrow> string) \<Rightarrow> cloud_action list cloud_backend" where
  "azure_cloud dbg = \<lparr>
     cb_dry_run = (\<lambda>step calls. (Ok (''azure dry_run ok: '' @ step), calls @ [parse_step step])),
     cb_snapshot = (\<lambda>step calls. (Ok ''azure-snapshot'', calls @ [parse_step step])),
     cb_execute = azure_execute dbg,
     cb_health_check = (\<lambda>_ calls. (Ok True, calls)),
     cb_rollback = (\<lambda>step _ calls. (Ok (), calls @ [parse_step step])) \<rparr>"

subsection \<open>The embedded playbooks\<close>

definition sample_playbooks :: "playbook list" where
  "sample_playbooks = [
    \<lparr> pk_id = ''s3-public-acl'', pk_matches = [''SC-S3-001''], pk_class = Reversible,
      pk_dry_run = Some ''aws s3api get-bucket-acl --bucket {bucket}'',
      pk_snapshot = Some ''capture current bucket acl'',
      pk_execute = ''s3.put_bucket_acl bucket={bucket} acl=private'',
      pk_health_check = Some ''aws s3api get-bucket-acl --bucket {bucket} | assert not public'',
      pk_rollback = Some ''restore bucket acl from snapshot'', pk_audit_required = True \<rparr>,
    \<lparr> pk_id = ''sg-open-ssh-world'', pk_matches = [''SC-SG-022''], pk_class = Reversible,
      pk_dry_run = None, pk_snapshot = Some ''capture security group ingress rules'',
      pk_execute = ''ec2.revoke_ingress sg={sg} cidr=0.0.0.0/0 port=22'',
      pk_health_check = Some ''assert no 0.0.0.0/0 on port 22'',
      pk_rollback = Some ''re-add captured ingress rules'', pk_audit_required = True \<rparr>,
    \<lparr> pk_id = ''gcs-public-bucket'', pk_matches = [''SC-GCS-003''], pk_class = Reversible,
      pk_dry_run = None, pk_snapshot = Some ''capture iam policy on {bucket}'',
      pk_execute = ''gcs.remove_iam_member bucket={bucket} member=allUsers'',
      pk_health_check = Some ''assert allUsers not present'',
      pk_rollback = Some ''restore iam policy from snapshot'', pk_audit_required = True \<rparr>,
    \<lparr> pk_id = ''k8s-privileged-pod'', pk_matches = [''SC-K8S-011''], pk_class = Destructive,
      pk_dry_run = None, pk_snapshot = None,
      pk_execute = ''k8s.delete_pod namespace={namespace} pod={pod}'',
      pk_health_check = None, pk_rollback = None, pk_audit_required = True \<rparr>,
    \<lparr> pk_id = ''enable-cloudtrail'', pk_matches = [''SC-AWS-CT-001''], pk_class = Safe,
      pk_dry_run = Some ''aws cloudtrail get-trail-status --name {trail}'', pk_snapshot = None,
      pk_execute = ''cloudtrail.start_logging name={trail}'',
      pk_health_check = None, pk_rollback = None, pk_audit_required = True \<rparr>,
    \<lparr> pk_id = ''azure-nsg-open-rdp'', pk_matches = [''SC-AZ-NSG-014''], pk_class = Reversible,
      pk_dry_run = None, pk_snapshot = Some ''capture nsg inbound rules'',
      pk_execute = ''azure.nsg_revoke_rule nsg={nsg} cidr=0.0.0.0/0 port=3389'',
      pk_health_check = Some ''assert no 0.0.0.0/0 on port 3389'',
      pk_rollback = Some ''re-add captured nsg rules'', pk_audit_required = True \<rparr>]"

subsection \<open>Lemmas on the engine\<close>

definition approved :: "approval option \<Rightarrow> bool" where
  "approved a = (case a of Some (Approved _) \<Rightarrow> True | _ \<Rightarrow> False)"

definition blocked :: "'s engine_state \<Rightarrow> playbook \<Rightarrow> approval option \<Rightarrow> bool" where
  "blocked w pb a \<longleftrightarrow> is_open (es_breaker w) (pk_class pb) \<or> pk_class pb = Destructive \<and> \<not> approved a"

lemma audit_simps [simp]:
  "es_breaker (audit pb act af st ac w) = es_breaker w" "es_cloud (audit pb act af st ac w) = es_cloud w"
  by (simp_all add: audit_def)

lemma finalize_execute_simps:
  "eo_executed (fst (finalize_execute pb r ac now w))"
  "eo_state (fst (finalize_execute pb r ac now w)) = (if is_ok r then Completed else Failed)"
  "es_cloud (snd (finalize_execute pb r ac now w)) = es_cloud w"
  by (cases r; simp add: finalize_execute_def)+

lemma run_blocked:
  assumes "blocked w pb a"
  shows "\<exists>act. run cloud pb a now w =
    (\<lparr> eo_state = Aborted, eo_executed = False \<rparr>, audit pb act None Aborted None w)"
  using assms by (auto simp: run_def blocked_def approved_def split: option.splits approval.splits)

lemma run_safe:
  assumes "\<not> blocked w pb a" and "pk_class pb = Safe"
  shows "run cloud pb a now w =
    (let s1 = (case pk_dry_run pb of Some dr \<Rightarrow> snd (cb_dry_run cloud dr (es_cloud w)) | None \<Rightarrow> es_cloud w)
     in finalize_execute pb (fst (cb_execute cloud (pk_execute pb) s1)) None now
          (w\<lparr>es_cloud := snd (cb_execute cloud (pk_execute pb) s1)\<rparr>))"
  using assms by (simp add: run_def blocked_def Let_def split: prod.splits)

lemma run_destructive:
  assumes "\<not> blocked w pb a" and "pk_class pb = Destructive"
  shows "\<exists>by. a = Some (Approved by) \<and> run cloud pb a now w =
    finalize_execute pb (fst (cb_execute cloud (pk_execute pb) (es_cloud w))) (Some by) now
      (w\<lparr>es_cloud := snd (cb_execute cloud (pk_execute pb) (es_cloud w))\<rparr>)"
  using assms
  by (auto simp: run_def blocked_def approved_def Let_def split: prod.splits option.splits approval.splits)

lemma run_reversible_state:
  assumes "\<not> blocked w pb a" and "pk_class pb = Reversible"
  shows "eo_state (fst (run cloud pb a now w)) \<in> {Completed, RolledBack}"
  using assms by (auto simp: run_def blocked_def Let_def split: prod.splits)

lemma run_not_blocked_state:
  "\<not> blocked w pb a \<Longrightarrow> eo_state (fst (run cloud pb a now w)) \<noteq> Aborted"
  using run_safe [of w pb a cloud now] run_destructive [of w pb a cloud now]
    run_reversible_state [of w pb a cloud now]
  by (cases "pk_class pb") (auto simp: finalize_execute_simps Let_def split: if_splits)

subsection \<open>A backend that records its actions\<close>

locale recording_backend =
  fixes cb :: "cloud_action list cloud_backend" and supports :: "cloud_action \<Rightarrow> bool"
  assumes execute_log: "snd (cb_execute cb st c) = c @ [parse_step st]"
    and execute_ok: "is_ok (fst (cb_execute cb st c)) = supports (parse_step st)"
    and snapshot_log: "snd (cb_snapshot cb st c) = c @ [parse_step st]"
    and snapshot_ok: "is_ok (fst (cb_snapshot cb st c))"
    and health: "cb_health_check cb st c = (Ok True, c)"
    and rollback_log: "snd (cb_rollback cb st h c) = c @ [parse_step st]"
begin

lemma reversible_run:
  assumes "\<not> is_open (es_breaker w) Reversible" and "pk_class pb = Reversible"
    and "pk_snapshot pb = Some sn" and "pk_rollback pb = Some rb"
  shows "eo_state (fst (run cb pb a now w))
       = (if supports (parse_step (pk_execute pb)) then Completed else RolledBack)
    \<and> es_cloud (snd (run cb pb a now w)) = es_cloud w @ [parse_step sn, parse_step (pk_execute pb)]
       @ (if supports (parse_step (pk_execute pb)) then [] else [parse_step rb])"
proof -
  obtain h where h: "cb_snapshot cb sn (es_cloud w) = (Ok h, es_cloud w @ [parse_step sn])"
    using snapshot_log [of sn "es_cloud w"] snapshot_ok [of sn "es_cloud w"]
    by (cases "cb_snapshot cb sn (es_cloud w)") (auto simp: is_ok_def split: sum.splits)
  obtain r where r: "cb_execute cb (pk_execute pb) (es_cloud w @ [parse_step sn])
        = (r, es_cloud w @ [parse_step sn, parse_step (pk_execute pb)])"
      "is_ok r = supports (parse_step (pk_execute pb))"
    using execute_log [of "pk_execute pb" "es_cloud w @ [parse_step sn]"]
      execute_ok [of "pk_execute pb" "es_cloud w @ [parse_step sn]"]
    by (cases "cb_execute cb (pk_execute pb) (es_cloud w @ [parse_step sn])") auto
  show ?thesis
    using assms r(2) by (cases r; cases "pk_health_check pb")
      (simp_all add: run_def h r(1) health rollback_log)
qed

end

definition gcp_supports :: "cloud_action \<Rightarrow> bool" where
  "gcp_supports act = (case act of GcsRemoveIamMember _ _ \<Rightarrow> True | GcpFirewallRevoke _ _ \<Rightarrow> True | _ \<Rightarrow> False)"

definition azure_supports :: "cloud_action \<Rightarrow> bool" where
  "azure_supports act = (case act of AzureNsgRevokeRule _ _ _ \<Rightarrow> True | _ \<Rightarrow> False)"

interpretation gcp: recording_backend "gcp_cloud dbg" gcp_supports for dbg
  by unfold_locales
    (simp_all add: gcp_cloud_def gcp_execute_def gcp_supports_def Let_def split: cloud_action.splits)

interpretation azure: recording_backend "azure_cloud dbg" azure_supports for dbg
  by unfold_locales
    (simp_all add: azure_cloud_def azure_execute_def azure_supports_def Let_def split: cloud_action.splits)

subsection \<open>Lemmas on steps\<close>

fun show_action :: "cloud_action \<Rightarrow> string list" where
  "show_action (PutBucketAcl b a) = [''s3.put_bucket_acl'', ''bucket='' @ b, ''acl='' @ a]"
| "show_action (RevokeSecurityGroupIngress s c p) =
    [''ec2.revoke_ingress'', ''sg='' @ s, ''cidr='' @ c, ''port='' @ p]"
| "show_action (StartCloudTrail n) = [''cloudtrail.start_logging'', ''name='' @ n]"
| "show_action (GcsRemoveIamMember b m) = [''gcs.remove_iam_member'', ''bucket='' @ b, ''member='' @ m]"
| "show_action (DeleteK8sPod n p) = [''k8s.delete_pod'', ''namespace='' @ n, ''pod='' @ p]"
| "show_action (AzureNsgRevokeRule n c p) =
    [''azure.nsg_revoke_rule'', ''nsg='' @ n, ''cidr='' @ c, ''port='' @ p]"
| "show_action (GcpFirewallRevoke f c) = [''gcp.firewall_revoke'', ''firewall='' @ f, ''cidr='' @ c]"
| "show_action (Unknown raw) = [raw]"

lemma parse_shown:
  assumes "list_all plain_word (show_action a)" and "\<And>raw. a \<noteq> Unknown raw"
  shows "parse_step (join '' '' (show_action a)) = a"
proof -
  have "split_whitespace (join '' '' (show_action a)) = show_action a"
    using assms(1) by (intro split_whitespace_join) (cases a, simp_all)
  then show ?thesis
    using assms(2)
    by (cases a) (simp_all add: parse_step_def step_args_def map_filter_simps hm_simps Let_def)
qed

subsection \<open>Lemmas on the breaker\<close>

lemma fifth_f32: "round32 (1 / 5) = Fin (13421773 / 67108864)"
proof -
  have "bexp (1 / 5) = - 3" by (rule bexp_unique) simp_all
  then have ulp: "fp_ulp 24 (-126) (1 / 5) = 1 / 67108864" by (simp add: fp_ulp_def power_int_minus)
  have "round_half_even (67108864 / 5) = 13421773"
    by (simp add: round_half_even_def Let_def floor_divide_of_int_eq [of 67108864 5, simplified])
  then have "fp_near 24 (-126) (1 / 5) = 13421773 / 67108864" by (simp add: fp_near_def ulp)
  then show ?thesis by (simp add: round32_def fp_round_def Let_def)
qed

lemma above_fifth_f32: "round32 (6710887 / 33554432) = Fin (6710887 / 33554432)"
proof -
  have "fp_near 24 (-126) (of_int 6710887 * 2 powi (-25)) = of_int 6710887 * 2 powi (-25)"
    by (rule fp_near_representable) simp_all
  moreover have "(2 :: rat) powi (-25) = 1 / 33554432" by (simp add: power_int_minus)
  ultimately have "fp_near 24 (-126) (6710887 / 33554432) = 6710887 / 33554432" by simp
  then show ?thesis by (simp add: round32_def fp_round_def Let_def)
qed

text \<open>The comparison of the rounded error rate with the rounded threshold is the exact one.\<close>

lemma rate_exceeds_fifth:
  assumes "0 < n" and "n < 2 ^ 20" and "e \<le> n"
  shows "flt_less (round32 (1 / 5)) (flt_div round32 (f32_of_nat e) (f32_of_nat n)) \<longleftrightarrow> n < 5 * e"
proof -
  have rate: "flt_div round32 (f32_of_nat e) (f32_of_nat n) = round32 (of_nat e / of_nat n)"
    using assms by (simp add: f32_of_nat_exact)
  show ?thesis
  proof (cases "n < 5 * e")
    case True
    then have "(of_nat n :: rat) + 1 \<le> 5 * of_nat e"
      by (metis of_nat_1 of_nat_add of_nat_le_iff of_nat_mult of_nat_numeral Suc_eq_plus1 Suc_leI)
    moreover have "(of_nat n :: rat) < 2 ^ 20"
      using assms(2) by (metis of_nat_less_iff of_nat_numeral of_nat_power)
    ultimately have "6710887 / 33554432 * of_nat n \<le> (of_nat e :: rat)" by simp
    then have "6710887 / 33554432 \<le> (of_nat e / of_nat n :: rat)"
      using assms(1) by (simp add: pos_le_divide_eq)
    from round32_mono [OF this]
    have "flt_le (Fin (6710887 / 33554432)) (round32 (of_nat e / of_nat n))" by (simp add: above_fifth_f32)
    with True show ?thesis
      by (cases "round32 (of_nat e / of_nat n)") (auto simp: rate fifth_f32 flt_less_def)
  next
    case False
    then have "(5 * of_nat e :: rat) \<le> of_nat n"
      by (metis not_less of_nat_le_iff of_nat_mult of_nat_numeral)
    then have "(of_nat e / of_nat n :: rat) \<le> 1 / 5" using assms(1) by (simp add: pos_divide_le_eq)
    from round32_mono [OF this] False show ?thesis by (simp add: rate flt_less_def)
  qed
qed

text \<open>
  The specification: the samples still in the window at a time, and whether a history of results contains a
  moment at which more than a fifth of at least three of them were errors.
\<close>

definition recent :: "u64 \<Rightarrow> u64 \<Rightarrow> (bool \<times> u64) list \<Rightarrow> (bool \<times> u64) list" where
  "recent window now h = filter (\<lambda>(_, t). unat now - unat t \<le> unat window) h"

definition bad_moment :: "u64 \<Rightarrow> (bool \<times> u64) list \<Rightarrow> bool" where
  "bad_moment window h \<longleftrightarrow> h \<noteq> [] \<and> (let r = recent window (snd (last h)) h in
     3 \<le> length r \<and> length r < 5 * length (filter (\<lambda>(g, _). \<not> g) r))"

definition chronological :: "(bool \<times> u64) list \<Rightarrow> bool" where
  "chronological h = sorted (map snd h)"

definition record_history :: "playbook_class \<Rightarrow> (bool \<times> u64) list \<Rightarrow> circuit_breaker \<Rightarrow> circuit_breaker" where
  "record_history cls h b = foldl (\<lambda>b (g, t). record_at cls g t b) b h"

lemma stale_iff: "saturating_sub now t > w \<longleftrightarrow> \<not> unat now - unat t \<le> unat w"
  by (simp add: word_less_nat_alt unat_saturating_sub not_le)

lemma dropWhile_stale:
  assumes "chronological h"
  shows "dropWhile (\<lambda>(_, t). saturating_sub now t > w) h = recent w now h"
  using assms
proof (induction h)
  case (Cons x h)
  obtain g t where x: "x = (g, t)" by (cases x)
  have IH: "dropWhile (\<lambda>(_, t). saturating_sub now t > w) h = recent w now h"
    using Cons by (simp add: chronological_def)
  show ?case
  proof (cases "saturating_sub now t > w")
    case False
    have "unat now - unat u \<le> unat w" if "(g', u) \<in> set h" for g' u
    proof -
      have "t \<le> u" using Cons.prems that by (force simp: chronological_def x)
      then have "unat t \<le> unat u" by (simp add: word_le_nat_alt)
      with False show ?thesis by (simp add: stale_iff)
    qed
    then have "recent w now h = h" unfolding recent_def by (intro filter_True) auto
    with False show ?thesis by (simp add: x recent_def) (simp add: stale_iff)
  qed (use IH in \<open>simp add: x recent_def, simp add: stale_iff\<close>)
qed (simp add: recent_def)

lemma recent_recent:
  assumes "s \<le> now" shows "recent w now (recent w s h @ [x]) = recent w now (h @ [x])"
proof -
  have "unat s \<le> unat now" using assms by (simp add: word_le_nat_alt)
  then have "(\<lambda>(_, t). unat s - unat t \<le> unat w \<and> unat now - unat t \<le> unat w)
      = (\<lambda>(_ :: bool, t :: u64). unat now - unat t \<le> unat w)"
    by (intro ext) auto
  then show ?thesis by (simp add: recent_def case_prod_beta')
qed

lemma chronological_recent: "chronological h \<Longrightarrow> chronological (recent w now h)"
  unfolding chronological_def recent_def by (induction h) auto

lemma chronological_snoc:
  "chronological (h @ [(g, t)]) \<longleftrightarrow> chronological h \<and> (\<forall>x\<in>set h. snd x \<le> t)"
  by (auto simp: chronological_def sorted_append)

lemma record_at_other [simp]:
  "br_window_ms (record_at c g t b) = br_window_ms b" "br_threshold (record_at c g t b) = br_threshold b"
  "br_min_samples (record_at c g t b) = br_min_samples b"
  "d \<noteq> c \<Longrightarrow> is_open (record_at c g t b) d = is_open b d"
  by (simp_all add: record_at_def Let_def is_open_def hm_simps)

lemma record_history_snoc:
  "record_history c (h @ [(g, t)]) b = record_at c g t (record_history c h b)"
  by (simp add: record_history_def)

lemma record_history_other [simp]:
  "br_window_ms (record_history c h b) = br_window_ms b"
  "br_threshold (record_history c h b) = br_threshold b"
  "br_min_samples (record_history c h b) = br_min_samples b"
  "d \<noteq> c \<Longrightarrow> is_open (record_history c h b) d = is_open b d"
  by (induction h rule: rev_induct) (auto simp: record_history_snoc, simp_all add: record_history_def)

lemma breaker_default_simps [simp]:
  "br_window_ms breaker_default = 300000" "br_threshold breaker_default = round32 (1 / 5)"
  "br_min_samples breaker_default = 3" "br_samples breaker_default = []" "br_halted breaker_default = []"
  by (simp_all add: breaker_default_def breaker_new_def)

lemma samples_after_history:
  assumes "chronological h" and "h \<noteq> []"
  shows "hm_get (br_samples (record_history c h breaker_default)) c = Some (recent 300000 (snd (last h)) h)"
  using assms
proof (induction h rule: rev_induct)
  case (snoc x h)
  obtain g t where x: "x = (g, t)" by (cases x)
  let ?b = "record_history c h breaker_default"
  have dq: "hm_get (br_samples (record_history c (h @ [x]) breaker_default)) c =
      Some (dropWhile (\<lambda>(_, u). saturating_sub t u > 300000)
        (unwrap_or (hm_get (br_samples ?b) c) [] @ [(g, t)]))"
    by (simp add: x record_history_snoc record_at_def Let_def hm_simps)
  show ?case
  proof (cases "h = []")
    case True
    have "chronological [(g, t)]" by (simp add: chronological_def)
    from dropWhile_stale [OF this, where now = t and w = 300000] show ?thesis
      unfolding dq by (simp add: True x record_history_def hm_simps)
  next
    case False
    have ch: "chronological h" and le: "snd (last h) \<le> t"
      using snoc.prems(1) False by (auto simp: x chronological_snoc)
    have "chronological (recent 300000 (snd (last h)) h @ [(g, t)])"
      using snoc.prems(1) by (auto simp: x chronological_snoc chronological_recent) (auto simp: recent_def)
    from dropWhile_stale [OF this, where now = t and w = 300000] show ?thesis
      unfolding dq using snoc.IH [OF ch False] recent_recent [OF le] by (simp add: x)
  qed
qed simp

lemma is_open_after_snoc:
  assumes "chronological (h @ [(g, t)])" and "length h < 2 ^ 20 - 1"
  shows "is_open (record_history c (h @ [(g, t)]) breaker_default) c \<longleftrightarrow>
    is_open (record_history c h breaker_default) c \<or> bad_moment 300000 (h @ [(g, t)])"
proof -
  let ?b = "record_history c h breaker_default" and ?r = "recent 300000 t (h @ [(g, t)])"
  define dq where "dq = dropWhile (\<lambda>(_, u). saturating_sub t u > 300000)
        (unwrap_or (hm_get (br_samples ?b) c) [] @ [(g, t)])"
  have "hm_get (br_samples (record_at c g t ?b)) c = Some dq"
    by (simp add: record_at_def Let_def hm_simps dq_def)
  then have dq: "dq = ?r"
    using samples_after_history [OF assms(1)] by (simp add: record_history_snoc)
  have "(g, t) \<in> set ?r" by (simp add: recent_def)
  then have pos: "0 < length ?r" by (cases ?r) auto
  have "length ?r \<le> length (h @ [(g, t)])" unfolding recent_def by (rule length_filter_le)
  then have bound: "length ?r < 2 ^ 20" using assms(2) by simp
  let ?e = "length (filter (\<lambda>(g, _). \<not> g) ?r)"
  have "is_open (record_at c g t ?b) c \<longleftrightarrow> is_open ?b c \<or> 3 \<le> length ?r
      \<and> flt_less (round32 (1 / 5)) (flt_div round32 (f32_of_nat ?e) (f32_of_nat (length ?r)))"
    unfolding dq [symmetric] dq_def
    by (auto simp: record_at_def Let_def is_open_def hm_simps)
  also have "\<dots> \<longleftrightarrow> is_open ?b c \<or> 3 \<le> length ?r \<and> length ?r < 5 * ?e"
    using rate_exceeds_fifth [OF pos bound, of ?e] by (simp add: length_filter_le)
  finally show ?thesis by (simp add: record_history_snoc bad_moment_def Let_def)
qed

subsection \<open>Properties\<close>

text \<open>
  C6: the engine aborts a run exactly when the breaker of the playbook's class is open or a destructive
  playbook has no approval; an aborted run leaves the cloud untouched, whatever the backend, as well as
  the breaker, and reports that nothing was executed. Any other run executes or rolls back.
\<close>

theorem run_aborts_iff_blocked:
  "(eo_state (fst (run cloud pb a now w)) = Aborted \<longleftrightarrow> blocked w pb a)
   \<and> (if blocked w pb a
      then es_cloud (snd (run cloud pb a now w)) = es_cloud w
         \<and> es_breaker (snd (run cloud pb a now w)) = es_breaker w
         \<and> eo_executed (fst (run cloud pb a now w)) = False
      else True)"
  using run_blocked [of w pb a cloud now] run_not_blocked_state [of w pb a cloud now] by auto

text \<open>
  C30: the circuit breaker opens exactly when it should. After any chronological sequence of fewer than
  \<open>2 ^ 20\<close> results of a class, the class is halted if and only if at some moment more than a
  fifth of the results of the last five minutes, at least three, were errors. The rounding of the rate and
  of the threshold \<open>0.2\<close> to \<open>f32\<close> makes no difference.
\<close>

theorem breaker_opens_iff:
  assumes "chronological h" and "length h < 2 ^ 20"
  shows "is_open (record_history c h breaker_default) c \<longleftrightarrow> (\<exists>n\<le>length h. bad_moment 300000 (take n h))"
  using assms
proof (induction h rule: rev_induct)
  case Nil
  then show ?case by (simp add: record_history_def is_open_def bad_moment_def hm_simps)
next
  case (snoc x h)
  obtain g t where x: "x = (g, t)" by (cases x)
  have "chronological h" using snoc.prems(1) by (simp add: x chronological_snoc)
  with snoc have "is_open (record_history c h breaker_default) c \<longleftrightarrow>
      (\<exists>n\<le>length h. bad_moment 300000 (take n (h @ [x])))" by auto
  moreover have "is_open (record_history c (h @ [x]) breaker_default) c \<longleftrightarrow>
      is_open (record_history c h breaker_default) c \<or> bad_moment 300000 (h @ [x])"
    unfolding x using snoc.prems by (intro is_open_after_snoc) (simp_all add: x)
  ultimately show ?case by (auto simp: le_Suc_eq)
qed

theorem breaker_opens_iff_witness:
  "is_open (record_history Safe [(False, 0), (True, 10), (True, 20)] breaker_default) Safe"
proof -
  let ?h = "[(False, 0), (True, 10), (True, 20)] :: (bool \<times> u64) list"
  have "bad_moment 300000 ?h" by (simp add: bad_moment_def recent_def)
  then have "\<exists>n\<le>length ?h. bad_moment 300000 (take n ?h)" by (intro exI [of _ 3]) simp
  moreover have "chronological ?h" by (simp add: chronological_def)
  ultimately show ?thesis using breaker_opens_iff [of ?h Safe] by simp
qed

text \<open>
  a reversible run on the dry GCP backend snapshots, then executes, and on an unsupported step rolls
  back: the backend has recorded exactly these actions in this order, and the outcome says which.
\<close>

theorem gcp_reversible_run:
  assumes "\<not> is_open (es_breaker w) Reversible" and "pk_class pb = Reversible"
    and "pk_snapshot pb = Some sn" and "pk_rollback pb = Some rb"
  shows "eo_state (fst (run (gcp_cloud dbg) pb a now w))
       = (if gcp_supports (parse_step (pk_execute pb)) then Completed else RolledBack)
    \<and> es_cloud (snd (run (gcp_cloud dbg) pb a now w)) = es_cloud w @ [parse_step sn, parse_step (pk_execute pb)]
       @ (if gcp_supports (parse_step (pk_execute pb)) then [] else [parse_step rb])"
  by (rule gcp.reversible_run [OF assms])

definition demo_world :: "cloud_action list engine_state" where
  "demo_world = \<lparr> es_breaker = breaker_default, es_cloud = [], es_audit = [] \<rparr>"

theorem gcp_reversible_run_witness:
  "eo_state (fst (run (gcp_cloud (\<lambda>_. [])) (sample_playbooks ! 2) None 0 demo_world)) = Completed"
proof -
  have "parse_step ''gcs.remove_iam_member bucket={bucket} member=allUsers''
      = GcsRemoveIamMember ''{bucket}'' ''allUsers''"
    using parse_shown [of "GcsRemoveIamMember ''{bucket}'' ''allUsers''"]
    by (simp add: plain_word_def ascii_ws_def char_code_def)
  moreover have "pk_class (sample_playbooks ! 2) = Reversible"
    "pk_snapshot (sample_playbooks ! 2) = Some ''capture iam policy on {bucket}''"
    "pk_rollback (sample_playbooks ! 2) = Some ''restore iam policy from snapshot''"
    "pk_execute (sample_playbooks ! 2) = ''gcs.remove_iam_member bucket={bucket} member=allUsers''"
    "\<not> is_open (es_breaker demo_world) Reversible"
    by (simp_all add: sample_playbooks_def demo_world_def is_open_def hm_simps)
  ultimately show ?thesis
    using gcp_reversible_run [of demo_world "sample_playbooks ! 2"] by (simp add: gcp_supports_def)
qed

text \<open>
  a reversible run proceeds without a snapshot. When the snapshot fails, the step is executed all the
  same, and if the health check then fails there is no rollback: the cloud stays as the failed
  execution left it, while the outcome and the audit trail say that it was rolled back.
\<close>

theorem failed_snapshot_not_rolled_back:
  assumes "pk_class pb = Reversible" and "\<not> is_open (es_breaker w) Reversible" and "pk_audit_required pb"
    and "pk_snapshot pb = Some sn" and "pk_health_check pb = Some hc"
    and "cb_snapshot cloud sn (es_cloud w) = (Err e, s1)"
    and "cb_execute cloud (pk_execute pb) s1 = (Ok out, s2)"
    and "cb_health_check cloud hc s2 = (Ok False, s3)"
  shows "eo_state (fst (run cloud pb a now w)) = RolledBack
    \<and> es_cloud (snd (run cloud pb a now w)) = s3
    \<and> ar_state (last (es_audit (snd (run cloud pb a now w)))) = RolledBack"
  using assms by (simp add: run_def audit_def split: option.splits)

theorem failed_snapshot_not_rolled_back_witness:
  "es_cloud (snd (run \<lparr> cb_dry_run = (\<lambda>_ s. (Ok [], s)), cb_snapshot = (\<lambda>_ s. (Err ''denied'', s)),
        cb_execute = (\<lambda>_ s. (Ok [], s @ [CHR ''x''])), cb_health_check = (\<lambda>_ s. (Ok False, s)),
        cb_rollback = (\<lambda>_ _ s. (Ok (), [])) \<rparr> (sample_playbooks ! 0) None 0
      \<lparr> es_breaker = breaker_default, es_cloud = [], es_audit = [] \<rparr>)) = ''x''"
  using failed_snapshot_not_rolled_back [where pb = "sample_playbooks ! 0" and e = "''denied''" and a = None
      and now = 0 and out = "[]" and ?s1.0 = "[]" and ?s2.0 = "''x''" and ?s3.0 = "''x''"
      and w = "\<lparr> es_breaker = breaker_default, es_cloud = [], es_audit = [] \<rparr>"
      and cloud = "\<lparr> cb_dry_run = (\<lambda>_ s. (Ok [], s)), cb_snapshot = (\<lambda>_ s. (Err ''denied'', s)),
        cb_execute = (\<lambda>_ s. (Ok [], s @ [CHR ''x''])), cb_health_check = (\<lambda>_ s. (Ok False, s)),
        cb_rollback = (\<lambda>_ _ s. (Ok (), [])) \<rparr>"]
  by (simp add: sample_playbooks_def is_open_def hm_simps)

text \<open>
  steps are parsed as they are written: printing any recognised action as \<open>service.op key=value\<close>,
  with values free of white space, and parsing the step gives the action back.
\<close>

theorem parse_step_round_trip:
  assumes "list_all plain_word (show_action act)" and "\<forall>raw. act \<noteq> Unknown raw"
  shows "parse_step (join '' '' (show_action act)) = act"
  using assms by (intro parse_shown) auto

theorem parse_step_round_trip_witness:
  "parse_step ''ec2.revoke_ingress sg=sg-1 cidr=0.0.0.0/0 port=22''
    = RevokeSecurityGroupIngress ''sg-1'' ''0.0.0.0/0'' ''22''"
  using parse_step_round_trip [of "RevokeSecurityGroupIngress ''sg-1'' ''0.0.0.0/0'' ''22''"]
  by (simp add: plain_word_def ascii_ws_def char_code_def)

end
