(* ===== verification/Graph.thy ===== *)
theory Graph
  imports RustStr Floats "HOL-Library.Multiset"
begin

text \<open>
  The security knowledge graph, \<open>secureops-graph/src/lib.rs\<close>: construction, blast radius (breadth-first
  search), Dijkstra's search over \<open>f32\<close> exploit difficulties, path reconstruction and the sorted list of
  attack paths.

  The heap is the list of its elements; which of several elements of least cost \<open>BinaryHeap::pop\<close> returns
  is left open (the parameter \<open>pop\<close> with the law \<open>pop_ok\<close>). The two \<open>while\<close> loops whose
  termination rests on an invariant are partial functions.

  This theory holds the model and the correctness of the blast radius; \<open>GraphPaths\<close> has that of the
  path search.
\<close>

subsection \<open>The graph\<close>

datatype edge_kind = CanAssume | HasPermission | ConnectsTo | Exposes | HasVuln | Violates | Owns

record node_data =
  nd_id :: string
  nd_kind :: string
  nd_exposed :: bool
  nd_sensitive :: bool

definition node_new :: "string \<Rightarrow> string \<Rightarrow> node_data" where
  "node_new i k = \<lparr> nd_id = i, nd_kind = k, nd_exposed = False, nd_sensitive = False \<rparr>"

definition node_exposed :: "node_data \<Rightarrow> node_data" where
  "node_exposed n = n\<lparr>nd_exposed := True\<rparr>"

definition node_sensitive :: "node_data \<Rightarrow> node_data" where
  "node_sensitive n = n\<lparr>nd_sensitive := True\<rparr>"

record edge_ref =
  er_to :: string
  er_kind :: edge_kind
  er_difficulty :: f32

record attack_path =
  ap_nodes :: "string list"
  ap_total_difficulty :: f32
  ap_blast_radius :: nat

record security_graph =
  sg_nodes :: "(string, node_data) hmap"
  sg_adj :: "(string, edge_ref list) hmap"

definition graph_new :: security_graph where
  "graph_new = \<lparr> sg_nodes = [], sg_adj = [] \<rparr>"

text \<open>\<open>entry(k).or_default()\<close> on the adjacency map.\<close>

definition entry_or_default :: "string \<Rightarrow> (string, edge_ref list) hmap \<Rightarrow> (string, edge_ref list) hmap" where
  "entry_or_default k m = (case hm_get m k of None \<Rightarrow> hm_insert k [] m | Some _ \<Rightarrow> m)"

definition add_node :: "node_data \<Rightarrow> security_graph \<Rightarrow> security_graph" where
  "add_node n g = g\<lparr> sg_adj := entry_or_default (nd_id n) (sg_adj g),
     sg_nodes := hm_insert (nd_id n) n (sg_nodes g) \<rparr>"

definition ensure_node :: "string \<Rightarrow> security_graph \<Rightarrow> security_graph" where
  "ensure_node i g = (if hm_get (sg_nodes g) i = None then add_node (node_new i ''unknown'') g else g)"

definition add_edge :: "string \<Rightarrow> string \<Rightarrow> edge_kind \<Rightarrow> f32 \<Rightarrow> security_graph \<Rightarrow> security_graph" where
  "add_edge src dst kind difficulty g =
    (let g1 = ensure_node dst (ensure_node src g);
         adj1 = entry_or_default src (sg_adj g1);
         e = \<lparr> er_to = dst, er_kind = kind, er_difficulty = flt_max difficulty (Fin 0) \<rparr>
     in g1\<lparr>sg_adj := hm_insert src (unwrap_or (hm_get adj1 src) [] @ [e]) adj1\<rparr>)"

definition node_count :: "security_graph \<Rightarrow> nat" where
  "node_count g = hm_len (sg_nodes g)"

definition edges :: "security_graph \<Rightarrow> string \<Rightarrow> edge_ref list" where
  "edges g n = unwrap_or (hm_get (sg_adj g) n) []"

definition is_sensitive :: "security_graph \<Rightarrow> string \<Rightarrow> bool" where
  "is_sensitive g n = (case hm_get (sg_nodes g) n of None \<Rightarrow> False | Some nd \<Rightarrow> nd_sensitive nd)"

subsection \<open>Blast radius\<close>

definition visit :: "security_graph \<Rightarrow> edge_ref \<Rightarrow> string hset \<times> string list \<times> nat \<Rightarrow> string hset \<times> string list \<times> nat"
where
  "visit g e = (\<lambda>(seen, queue, cnt).
     if hs_contains seen (er_to e) then (seen, queue, cnt)
     else (hs_insert (er_to e) seen, queue @ [er_to e], if is_sensitive g (er_to e) then cnt + 1 else cnt))"

definition unseen :: "security_graph \<Rightarrow> string hset \<Rightarrow> nat" where
  "unseen g seen = card ((\<Union>es\<in>snd ` set (sg_adj g). er_to ` set es) - set seen)"

lemma edges_subset: "n \<in> er_to ` set (edges g m) \<Longrightarrow> n \<in> (\<Union>es\<in>snd ` set (sg_adj g). er_to ` set es)"
proof (cases "hm_get (sg_adj g) m")
  case (Some es)
  then have "(m, es) \<in> set (sg_adj g)" by (simp add: hm_get_def map_of_SomeD)
  moreover assume "n \<in> er_to ` set (edges g m)"
  ultimately show ?thesis using Some by (force simp: edges_def)
qed (simp add: edges_def)

lemma visit_measure:
  assumes "er_to e \<in> (\<Union>es\<in>snd ` set (sg_adj g). er_to ` set es)"
  shows "(case visit g e (seen, queue, cnt) of (seen', queue', _) \<Rightarrow> length queue' + unseen g seen')
    = length queue + unseen g seen"
proof (cases "hs_contains seen (er_to e)")
  case False
  let ?U = "\<Union>es\<in>snd ` set (sg_adj g). er_to ` set es"
  have "?U - insert (er_to e) (set seen) = (?U - set seen) - {er_to e}" by auto
  moreover have "er_to e \<in> ?U - set seen" "finite (?U - set seen)"
    using assms False by (auto simp: hs_contains_def)
  ultimately have "unseen g seen = Suc (unseen g (hs_insert (er_to e) seen))"
    unfolding unseen_def by (metis card_Suc_Diff1 set_hs_insert)
  with False show ?thesis by (simp add: visit_def)
qed (simp add: visit_def)

lemma visit_all_measure:
  assumes "er_to ` set es \<subseteq> (\<Union>es\<in>snd ` set (sg_adj g). er_to ` set es)"
  shows "(case fold (visit g) es (seen, queue, cnt) of (seen', queue', _) \<Rightarrow> length queue' + unseen g seen')
    = length queue + unseen g seen"
  using assms
proof (induction es arbitrary: seen queue cnt)
  case (Cons e es)
  obtain s q c where v: "visit g e (seen, queue, cnt) = (s, q, c)" by (cases "visit g e (seen, queue, cnt)")
  have "er_to e \<in> (\<Union>es\<in>snd ` set (sg_adj g). er_to ` set es)" using Cons.prems by auto
  from visit_measure [OF this, of seen queue cnt] v
  have "length q + unseen g s = length queue + unseen g seen" by simp
  moreover have "(case fold (visit g) es (s, q, c) of (seen', queue', _) \<Rightarrow> length queue' + unseen g seen')
      = length q + unseen g s" using Cons by auto
  ultimately show ?case by (simp add: v)
qed simp

function bfs :: "security_graph \<Rightarrow> string hset \<times> string list \<times> nat \<Rightarrow> nat" where
  "bfs g (seen, [], cnt) = cnt"
| "bfs g (seen, n # queue, cnt) = bfs g (fold (visit g) (edges g n) (seen, queue, cnt))"
  by pat_completeness auto

termination
proof (relation "measure (\<lambda>(g, seen, queue, _). length queue + unseen g seen)")
  fix g seen n queue and cnt :: nat
  have "er_to ` set (edges g n) \<subseteq> (\<Union>es\<in>snd ` set (sg_adj g). er_to ` set es)"
    using edges_subset by blast
  from visit_all_measure [OF this, of seen queue cnt]
  show "((g, fold (visit g) (edges g n) (seen, queue, cnt)), (g, seen, n # queue, cnt))
    \<in> measure (\<lambda>(g, seen, queue, _). length queue + unseen g seen)"
    by (simp split: prod.splits)
qed simp

definition blast_radius :: "security_graph \<Rightarrow> string \<Rightarrow> nat" where
  "blast_radius g start = bfs g ([start], [start], 0)"

subsection \<open>Dijkstra\<close>

type_synonym heap_state = "f32 \<times> string"
type_synonym heap_pop = "heap_state list \<Rightarrow> (heap_state \<times> heap_state list) option"
type_synonym search = "(string, f32) hmap \<times> (string, string) hmap \<times> heap_state list"

definition dist_of :: "(string, f32) hmap \<Rightarrow> string \<Rightarrow> f32" where
  "dist_of d n = unwrap_or (hm_get d n) PInf"

definition relax :: "f32 \<Rightarrow> string \<Rightarrow> edge_ref \<Rightarrow> search \<Rightarrow> search" where
  "relax cost node e = (\<lambda>(dm, prev, heap).
    let next = flt_add round32 cost (er_difficulty e)
    in if flt_less next (dist_of dm (er_to e))
       then (hm_insert (er_to e) next dm, hm_insert (er_to e) node prev, heap @ [(next, er_to e)])
       else (dm, prev, heap))"

partial_function (option) dijkstra_loop ::
  "heap_pop \<Rightarrow> security_graph \<Rightarrow> search \<Rightarrow> ((string, f32) hmap \<times> (string, string) hmap) option" where
  "dijkstra_loop pop g st = (case st of (dm, prev, heap) \<Rightarrow>
    (case pop heap of
       None \<Rightarrow> Some (dm, prev)
     | Some ((cost, node), heap') \<Rightarrow>
         if flt_less (dist_of dm node) cost then dijkstra_loop pop g (dm, prev, heap')
         else dijkstra_loop pop g (fold (relax cost node) (edges g node) (dm, prev, heap'))))"

definition dijkstra ::
  "heap_pop \<Rightarrow> security_graph \<Rightarrow> string \<Rightarrow> ((string, f32) hmap \<times> (string, string) hmap) option" where
  "dijkstra pop g src = dijkstra_loop pop g ([(src, Fin 0)], [], [(Fin 0, src)])"

text \<open>\<open>reconstruct\<close> walks the predecessors; \<open>path\<close> is kept in walking order and reversed at the end.\<close>

partial_function (option) reconstruct_loop ::
  "(string, string) hmap \<Rightarrow> string \<Rightarrow> string list \<Rightarrow> string \<Rightarrow> string list option" where
  "reconstruct_loop prev src path cur =
    (if cur = src then Some path
     else case hm_get prev cur of
         Some p \<Rightarrow> reconstruct_loop prev src (path @ [p]) p
       | None \<Rightarrow> Some path)"

definition reconstruct :: "(string, string) hmap \<Rightarrow> string \<Rightarrow> string \<Rightarrow> string list option" where
  "reconstruct prev src target = map_option rev (reconstruct_loop prev src [target] target)"

subsection \<open>Attack paths\<close>

text \<open>The comparison of the final sort; it is stable, so is insertion.\<close>

definition path_le :: "attack_path \<Rightarrow> attack_path \<Rightarrow> bool" where
  "path_le a b \<longleftrightarrow> ap_blast_radius b < ap_blast_radius a
     \<or> ap_blast_radius a = ap_blast_radius b
       \<and> \<not> flt_less (ap_total_difficulty b) (ap_total_difficulty a)"

fun insert_path :: "attack_path \<Rightarrow> attack_path list \<Rightarrow> attack_path list" where
  "insert_path a [] = [a]"
| "insert_path a (b # bs) = (if path_le a b then a # b # bs else b # insert_path a bs)"

definition sort_paths :: "attack_path list \<Rightarrow> attack_path list" where
  "sort_paths ps = foldr insert_path ps []"

definition paths_from :: "heap_pop \<Rightarrow> security_graph \<Rightarrow> string \<Rightarrow> attack_path list option" where
  "paths_from pop g entry = (case dijkstra pop g entry of
       None \<Rightarrow> None
     | Some (dm, prev) \<Rightarrow>
         those (List.map_filter (\<lambda>(target, node).
           if \<not> nd_sensitive node \<or> target = entry then None
           else case hm_get dm target of
               None \<Rightarrow> None
             | Some tot \<Rightarrow> Some (map_option (\<lambda>nodes. \<lparr> ap_nodes = nodes, ap_total_difficulty = tot,
                 ap_blast_radius = blast_radius g entry \<rparr>) (reconstruct prev entry target)))
           (sg_nodes g)))"

definition attack_paths :: "heap_pop \<Rightarrow> security_graph \<Rightarrow> attack_path list option" where
  "attack_paths pop g =
    map_option (\<lambda>pss. sort_paths (concat pss))
      (those (map (\<lambda>(_, n). paths_from pop g (nd_id n)) (filter (\<lambda>(_, n). nd_exposed n) (sg_nodes g))))"

subsection \<open>Correctness of the blast radius\<close>

definition step_rel :: "security_graph \<Rightarrow> (string \<times> string) set" where
  "step_rel g = {(a, b). b \<in> er_to ` set (edges g a)}"

definition bfs_inv :: "security_graph \<Rightarrow> string \<Rightarrow> string hset \<times> string list \<times> nat \<Rightarrow> bool" where
  "bfs_inv g s = (\<lambda>(seen, queue, cnt).
     s \<in> set seen \<and> set queue \<subseteq> set seen \<and> set seen \<subseteq> {n. (s, n) \<in> (step_rel g)\<^sup>*}
     \<and> cnt = card {n \<in> set seen. n \<noteq> s \<and> is_sensitive g n})"

lemma visit_facts:
  assumes "bfs_inv g s (seen, queue, cnt)" and "(s, er_to e) \<in> (step_rel g)\<^sup>*"
    and "visit g e (seen, queue, cnt) = (seen', queue', cnt')"
  shows "bfs_inv g s (seen', queue', cnt') \<and> set seen' = insert (er_to e) (set seen)
    \<and> set seen' - set queue' \<subseteq> set seen - set queue \<and> set queue \<subseteq> set queue'"
proof (cases "er_to e \<in> set seen")
  case False
  then have s': "seen' = hs_insert (er_to e) seen" "queue' = queue @ [er_to e]"
    "cnt' = (if is_sensitive g (er_to e) then cnt + 1 else cnt)"
    using assms(3) by (auto simp: visit_def hs_contains_def)
  have "s \<in> set seen" using assms(1) by (simp add: bfs_inv_def)
  with False have "er_to e \<noteq> s" by auto
  then have "{n \<in> insert (er_to e) (set seen). n \<noteq> s \<and> is_sensitive g n}
      = (if is_sensitive g (er_to e) then insert (er_to e) {n \<in> set seen. n \<noteq> s \<and> is_sensitive g n}
         else {n \<in> set seen. n \<noteq> s \<and> is_sensitive g n})" by auto
  with False assms(1,2) show ?thesis by (auto simp: bfs_inv_def s')
qed (use assms in \<open>auto simp: visit_def hs_contains_def insert_absorb\<close>)

lemma visit_all_facts:
  assumes "bfs_inv g s (seen, queue, cnt)" and "er_to ` set es \<subseteq> {n. (s, n) \<in> (step_rel g)\<^sup>*}"
    and "fold (visit g) es (seen, queue, cnt) = (seen', queue', cnt')"
  shows "bfs_inv g s (seen', queue', cnt') \<and> set seen' = er_to ` set es \<union> set seen
    \<and> set seen' - set queue' \<subseteq> set seen - set queue \<and> set queue \<subseteq> set queue'"
  using assms
proof (induction es arbitrary: seen queue cnt)
  case (Cons e es)
  obtain s1 q1 c1 where v: "visit g e (seen, queue, cnt) = (s1, q1, c1)"
    by (cases "visit g e (seen, queue, cnt)")
  have "(s, er_to e) \<in> (step_rel g)\<^sup>*" using Cons.prems(2) by simp
  note 1 = visit_facts [OF Cons.prems(1) this v]
  then have "bfs_inv g s (seen', queue', cnt') \<and> set seen' = er_to ` set es \<union> set s1
    \<and> set seen' - set queue' \<subseteq> set s1 - set q1 \<and> set q1 \<subseteq> set queue'"
    using Cons.prems v by (intro Cons.IH [of s1 q1 c1]) auto
  moreover from this 1 have "set seen' - set queue' \<subseteq> set seen - set queue" "set queue \<subseteq> set queue'"
    by blast+
  ultimately show ?case using 1 by auto
qed simp

definition expanded :: "security_graph \<Rightarrow> string hset \<Rightarrow> string list \<Rightarrow> bool" where
  "expanded g seen queue \<longleftrightarrow> (\<forall>n\<in>set seen - set queue. er_to ` set (edges g n) \<subseteq> set seen)"

lemma bfs_correct:
  assumes "bfs_inv g s (seen, queue, cnt)" and "expanded g seen queue"
  shows "bfs g (seen, queue, cnt) = card {n. (s, n) \<in> (step_rel g)\<^sup>* \<and> n \<noteq> s \<and> is_sensitive g n}"
  using assms
proof (induction g "(seen, queue, cnt)" arbitrary: seen queue cnt rule: bfs.induct)
  case (1 g seen cnt)
  have "n \<in> set seen" if "(s, n) \<in> (step_rel g)\<^sup>*" for n
    using that
  proof (induction rule: rtrancl_induct)
    case (step a b)
    then show ?case using 1(2) by (auto simp: expanded_def step_rel_def)
  qed (use 1(1) in \<open>simp add: bfs_inv_def\<close>)
  then have "set seen = {n. (s, n) \<in> (step_rel g)\<^sup>*}" using 1(1) by (auto simp: bfs_inv_def)
  with 1(1) show ?case by (simp add: bfs_inv_def)
next
  case (2 g seen n queue cnt)
  obtain s1 q1 c1 where f: "fold (visit g) (edges g n) (seen, queue, cnt) = (s1, q1, c1)"
    by (cases "fold (visit g) (edges g n) (seen, queue, cnt)")
  have inv: "bfs_inv g s (seen, queue, cnt)" using 2(2) by (simp add: bfs_inv_def)
  have "(s, n) \<in> (step_rel g)\<^sup>*" using 2(2) by (auto simp: bfs_inv_def)
  then have "er_to ` set (edges g n) \<subseteq> {m. (s, m) \<in> (step_rel g)\<^sup>*}"
    by (auto simp: step_rel_def intro: rtrancl_into_rtrancl)
  note facts = visit_all_facts [OF inv this f]
  have "expanded g s1 q1"
    unfolding expanded_def
  proof
    fix m assume "m \<in> set s1 - set q1"
    with facts have "m \<in> set seen - set queue" by blast
    then show "er_to ` set (edges g m) \<subseteq> set s1"
      using facts 2(3) by (cases "m = n") (auto simp: expanded_def)
  qed
  with 2(1) [of s1 q1 c1] f facts show ?case by simp
qed

lemma blast_radius_correct:
  "blast_radius g s = card {n. (s, n) \<in> (step_rel g)\<^sup>* \<and> n \<noteq> s \<and> is_sensitive g n}"
  unfolding blast_radius_def
proof (rule bfs_correct)
  have none: "{n. n = s \<and> n \<noteq> s \<and> is_sensitive g n} = {}" by auto
  show "bfs_inv g s ([s], [s], 0)" by (simp add: bfs_inv_def none)
qed (simp add: expanded_def)

end
