(* ===== verification/GraphPaths.thy ===== *)
theory GraphPaths
  imports Graph
begin

text \<open>
  Correctness of the path search of \<open>Graph\<close>: for every heap that pops an element of least cost,
  Dijkstra's loop ends, its distances are the least costs of routes (sums of difficulties with the rounding
  of \<open>f32\<close>, in route order), reconstruction returns a route of that cost, and the attack paths are
  complete, correct and sorted.

  The proof uses only that \<open>f32\<close> addition is monotone and never decreases a cost: the locale
  \<open>cost_order\<close> states it, and the interpretation discharges it for rounded addition.
\<close>

subsection \<open>Costs\<close>

locale cost_order =
  fixes le :: "'c \<Rightarrow> 'c \<Rightarrow> bool" and plus :: "'c \<Rightarrow> 'c \<Rightarrow> 'c" and top :: 'c and ok :: "'c \<Rightarrow> bool"
  assumes refl: "ok a \<Longrightarrow> le a a"
    and trans: "le a b \<Longrightarrow> le b c \<Longrightarrow> le a c"
    and antisym: "le a b \<Longrightarrow> le b a \<Longrightarrow> a = b"
    and total: "ok a \<Longrightarrow> ok b \<Longrightarrow> le a b \<or> le b a"
    and plus_ok: "ok a \<Longrightarrow> ok b \<Longrightarrow> ok (plus a b)"
    and mono: "ok a \<Longrightarrow> ok b \<Longrightarrow> ok c \<Longrightarrow> le a b \<Longrightarrow> le (plus a c) (plus b c)"
    and inflate: "ok a \<Longrightarrow> ok b \<Longrightarrow> le a (plus a b)"
    and top_ok: "ok top" and top_greatest: "ok a \<Longrightarrow> le a top"
begin

text \<open>Distances that no edge improves are lower bounds of all costs summed along edges.\<close>

lemma relaxed_lower_bound:
  assumes "ok (d m)" and "ok w" and "ok c" and "le (d m) c" and "le (d n) (plus (d m) w)"
  shows "le (d n) (plus c w)"
  using mono [OF assms(1,3,2,4)] assms(5) trans by blast

lemma settled_not_improved:
  assumes "ok cur" and "ok w" and "le dn cur"
  shows "le dn (plus cur w)"
  using inflate [OF assms(1,2)] assms(3) trans by blast

lemma not_less_eq: "ok a \<Longrightarrow> ok b \<Longrightarrow> le a b \<Longrightarrow> \<not> (le a b \<and> \<not> le b a) \<Longrightarrow> a = b"
  using antisym by blast

end

definition ok_cost :: "f32 \<Rightarrow> bool" where
  "ok_cost x \<longleftrightarrow> is_f32 x \<and> flt_le (Fin 0) x"

lemma ok_cost_simps [simp]: "ok_cost (Fin 0)" "ok_cost PInf" "\<not> ok_cost NaN" "\<not> ok_cost NInf"
  by (simp_all add: ok_cost_def is_f32_def round32_def fp_round_def)

interpretation f32_cost: cost_order flt_le "flt_add round32" PInf ok_cost
proof unfold_locales
  fix a b c :: f32
  show "flt_le a a" if "ok_cost a" using that by (cases a) auto
  show "flt_le a c" if "flt_le a b" "flt_le b c" using that by (rule flt_le_trans)
  show "a = b" if "flt_le a b" "flt_le b a" using that by (rule flt_le_antisym)
  show "flt_le a b \<or> flt_le b a" if "ok_cost a" "ok_cost b"
    using that flt_le_total by (cases a; cases b) auto
  show inf: "flt_le a (flt_add round32 a b)" if "ok_cost a" "ok_cost b"
    using that by (intro flt_add_inflate32) (auto simp: ok_cost_def)
  show "ok_cost (flt_add round32 a b)" if "ok_cost a" "ok_cost b"
    using that inf flt_le_trans by (auto simp: ok_cost_def)
  show "flt_le (flt_add round32 a c) (flt_add round32 b c)"
    if "ok_cost a" "ok_cost b" "ok_cost c" "flt_le a b"
    using that by (intro flt_add_mono32) auto
  show "flt_le a PInf" if "ok_cost a" using that by (cases a) auto
qed simp

lemma less_iff_not_le: "ok_cost a \<Longrightarrow> ok_cost b \<Longrightarrow> flt_less a b \<longleftrightarrow> \<not> flt_le b a"
  using f32_cost.total [of a b] by (auto simp: flt_less_def)

subsection \<open>Well-formed graphs\<close>

definition graph_ok :: "security_graph \<Rightarrow> bool" where
  "graph_ok g \<longleftrightarrow> hm_ok (sg_nodes g) \<and> (\<forall>(k, n)\<in>set (sg_nodes g). nd_id n = k)
     \<and> (\<forall>n. \<forall>e\<in>set (edges g n). ok_cost (er_difficulty e))"

lemma edges_entry_or_default:
  "unwrap_or (hm_get (entry_or_default k m) n) [] = unwrap_or (hm_get m n) []"
  by (auto simp: entry_or_default_def hm_simps split: option.splits)

lemma edges_add_node [simp]: "edges (add_node nd g) n = edges g n"
  by (simp add: edges_def add_node_def edges_entry_or_default)

lemma edges_ensure_node [simp]: "edges (ensure_node i g) n = edges g n"
  by (simp add: ensure_node_def)

lemma edges_add_edge:
  "edges (add_edge a b k d g) n = edges g n @
    (if n = a then [\<lparr> er_to = b, er_kind = k, er_difficulty = flt_max d (Fin 0) \<rparr>] else [])"
proof -
  have "unwrap_or (hm_get (entry_or_default a (sg_adj g1)) n) [] = edges g1 n" for g1
    by (simp add: edges_entry_or_default edges_def)
  then show ?thesis
    by (auto simp: add_edge_def Let_def edges_def [of "_\<lparr>sg_adj := _\<rparr>"] hm_simps)
qed

lemma ok_cost_max: "is_f32 d \<Longrightarrow> ok_cost (flt_max d (Fin 0))"
  using f32_cost.total [of "Fin 0"]
  by (cases d) (auto simp: flt_max_def ok_cost_def, auto simp: is_f32_def round32_def fp_round_def)

lemma set_hm_insert: "x \<in> set (hm_insert k v m) \<Longrightarrow> x = (k, v) \<or> x \<in> set m"
  unfolding hm_insert_def by (induction m) (auto split: if_splits)

lemma graph_ok_add_node: "graph_ok g \<Longrightarrow> graph_ok (add_node nd g)"
  by (auto simp: graph_ok_def hm_simps) (auto simp: add_node_def hm_simps dest!: set_hm_insert)

lemma graph_ok_add_edge: "graph_ok g \<Longrightarrow> is_f32 d \<Longrightarrow> graph_ok (add_edge a b k d g)"
proof -
  assume g: "graph_ok g" and d: "is_f32 d"
  have "graph_ok (ensure_node i g')" if "graph_ok g'" for i g'
    using that by (simp add: ensure_node_def graph_ok_add_node)
  then have "graph_ok (ensure_node b (ensure_node a g))" using g by blast
  moreover have "sg_nodes (add_edge a b k d g) = sg_nodes (ensure_node b (ensure_node a g))"
    by (simp add: add_edge_def Let_def)
  ultimately show ?thesis
    using g ok_cost_max [OF d] by (auto simp: graph_ok_def edges_add_edge)
qed

lemma graph_ok_new: "graph_ok graph_new"
  by (simp add: graph_ok_def graph_new_def edges_def hm_simps)

inductive built :: "security_graph \<Rightarrow> bool" where
    new: "built graph_new"
  | node: "built g \<Longrightarrow> built (add_node nd g)"
  | edge: "built g \<Longrightarrow> is_f32 d \<Longrightarrow> built (add_edge a b k d g)"

lemma built_ok: "built g \<Longrightarrow> graph_ok g"
  by (induction rule: built.induct) (simp_all add: graph_ok_new graph_ok_add_node graph_ok_add_edge)

subsection \<open>Routes and heaps\<close>

inductive route :: "security_graph \<Rightarrow> string \<Rightarrow> string list \<Rightarrow> f32 \<Rightarrow> bool" for g s where
    start: "route g s [s] (Fin 0)"
  | step: "route g s p c \<Longrightarrow> e \<in> set (edges g (last p)) \<Longrightarrow>
      route g s (p @ [er_to e]) (flt_add round32 c (er_difficulty e))"

definition pop_ok :: "heap_pop \<Rightarrow> bool" where
  "pop_ok pop \<longleftrightarrow> pop [] = None \<and> (\<forall>h. h \<noteq> [] \<longrightarrow> (\<forall>x\<in>set h. fst x \<noteq> NaN) \<longrightarrow>
     (\<exists>x h'. pop h = Some (x, h') \<and> mset h = add_mset x (mset h') \<and> (\<forall>y\<in>set h. flt_le (fst x) (fst y))))"

lemma route_ok: "graph_ok g \<Longrightarrow> route g s p c \<Longrightarrow> ok_cost c \<and> p \<noteq> [] \<and> hd p = s"
  by (rotate_tac 1, induction rule: route.induct)
    (auto simp: graph_ok_def intro: f32_cost.plus_ok)

subsection \<open>The invariant of the search\<close>

text \<open>
  \<open>L\<close> lists the settled nodes in the order in which they were popped, \<open>R\<close> holds the edges
  relaxed so far, and \<open>cur\<close> is the cost popped last.
\<close>

definition before :: "'a list \<Rightarrow> 'a \<Rightarrow> 'a \<Rightarrow> bool" where
  "before L p n \<longleftrightarrow> (\<exists>xs ys. L = xs @ n # ys \<and> p \<in> set xs)"

definition dist_inv :: "string \<Rightarrow> string list \<Rightarrow> f32 \<Rightarrow> search \<Rightarrow> bool" where
  "dist_inv src L cur = (\<lambda>(dm, prev, heap).
     hm_get dm src = Some (Fin 0) \<and> ok_cost cur \<and> distinct L
     \<and> (\<forall>n d. hm_get dm n = Some d \<longrightarrow> ok_cost d \<and> d \<noteq> PInf)
     \<and> (\<forall>n\<in>set L. hm_get dm n \<noteq> None \<and> flt_le (dist_of dm n) cur))"

text \<open>The heap holds the current distance of an unsettled node at most once, of a settled one never.\<close>

definition once :: "string list \<Rightarrow> (string, f32) hmap \<Rightarrow> heap_state list \<Rightarrow> bool" where
  "once L dm heap \<longleftrightarrow> (\<forall>n. count (mset heap) (dist_of dm n, n) \<le> (if n \<in> set L then 0 else 1))"

definition heap_inv :: "string list \<Rightarrow> f32 \<Rightarrow> search \<Rightarrow> bool" where
  "heap_inv L cur = (\<lambda>(dm, prev, heap).
     (\<forall>n d. hm_get dm n = Some d \<longrightarrow> n \<notin> set L \<longrightarrow> (d, n) \<in> set heap)
     \<and> (\<forall>(c, n)\<in>set heap. ok_cost c \<and> c \<noteq> PInf \<and> flt_le cur c \<and> flt_le (dist_of dm n) c)
     \<and> once L dm heap)"

definition edge_inv :: "string list \<Rightarrow> (string \<times> edge_ref) set \<Rightarrow> search \<Rightarrow> bool" where
  "edge_inv L R = (\<lambda>(dm, prev, heap).
     \<forall>(n, e)\<in>R. n \<in> set L
       \<and> flt_le (dist_of dm (er_to e)) (flt_add round32 (dist_of dm n) (er_difficulty e)))"

definition prev_inv :: "security_graph \<Rightarrow> string \<Rightarrow> string list \<Rightarrow> search \<Rightarrow> bool" where
  "prev_inv g src L = (\<lambda>(dm, prev, heap).
     \<forall>n d. hm_get dm n = Some d \<longrightarrow> n \<noteq> src \<longrightarrow>
       (\<exists>p e. hm_get prev n = Some p \<and> p \<in> set L \<and> (n \<in> set L \<longrightarrow> before L p n)
          \<and> e \<in> set (edges g p) \<and> er_to e = n \<and> d = flt_add round32 (dist_of dm p) (er_difficulty e)))"

definition search_inv ::
  "security_graph \<Rightarrow> string \<Rightarrow> string list \<Rightarrow> (string \<times> edge_ref) set \<Rightarrow> f32 \<Rightarrow> search \<Rightarrow> bool" where
  "search_inv g src L R cur st \<longleftrightarrow>
     dist_inv src L cur st \<and> heap_inv L cur st \<and> edge_inv L R st \<and> prev_inv g src L st"

lemmas inv_defs = dist_inv_def heap_inv_def edge_inv_def prev_inv_def

lemma prev_invD:
  "prev_inv g src L (dm, prev, heap) \<Longrightarrow> hm_get dm n = Some d \<Longrightarrow> n \<noteq> src \<Longrightarrow>
    \<exists>p e. hm_get prev n = Some p \<and> p \<in> set L \<and> (n \<in> set L \<longrightarrow> before L p n)
      \<and> e \<in> set (edges g p) \<and> er_to e = n \<and> d = flt_add round32 (dist_of dm p) (er_difficulty e)"
  unfolding prev_inv_def by blast

lemma dist_of_insert: "dist_of (hm_insert k v dm) n = (if n = k then v else dist_of dm n)"
  by (simp add: dist_of_def hm_simps)

lemma dist_of_ok: "dist_inv src L cur (dm, prev, heap) \<Longrightarrow> ok_cost (dist_of dm n)"
  by (cases "hm_get dm n") (auto simp: dist_inv_def dist_of_def)

lemma dist_of_finite: "hm_get dm n = None \<Longrightarrow> dist_of dm n = PInf" "hm_get dm n = Some d \<Longrightarrow> dist_of dm n = d"
  by (simp_all add: dist_of_def)

lemma once_push:
  assumes "once L dm heap" and "(c, m) \<notin> set heap" and "m \<notin> set L"
  shows "once L (hm_insert m c dm) (heap @ [(c, m)])"
  unfolding once_def
proof
  fix n
  have "count (mset heap) (c, m) = 0" using assms(2) by (simp add: count_mset_0_iff)
  then show "count (mset (heap @ [(c, m)])) (dist_of (hm_insert m c dm) n, n) \<le> (if n \<in> set L then 0 else 1)"
    using assms(1,3) unfolding once_def dist_of_insert by (cases "n = m") simp_all
qed

lemma once_smaller:
  assumes "once L dm heap" and "mset heap = add_mset x (mset heap')"
  shows "once L dm heap'"
  unfolding once_def
proof
  fix n
  have "count (mset heap') (dist_of dm n, n) \<le> count (mset heap) (dist_of dm n, n)" by (simp add: assms(2))
  then show "count (mset heap') (dist_of dm n, n) \<le> (if n \<in> set L then 0 else 1)"
    using assms(1) unfolding once_def by (meson le_trans)
qed

lemma once_settle:
  assumes o: "once L dm heap" and pop: "mset heap = add_mset (dist_of dm n, n) (mset heap')"
  shows "n \<notin> set L \<and> once (L @ [n]) dm heap'"
proof -
  have n: "Suc (count (mset heap') (dist_of dm n, n)) \<le> (if n \<in> set L then 0 else 1)"
    using o [unfolded once_def, rule_format, of n] by (simp add: pop)
  moreover have "count (mset heap') (dist_of dm m, m) \<le> (if m \<in> set (L @ [n]) then 0 else 1)" for m
    using once_smaller [OF o pop, unfolded once_def, rule_format, of m] n by (cases "m = n") (auto split: if_splits)
  ultimately show ?thesis unfolding once_def by (auto split: if_splits)
qed

subsubsection \<open>Relaxing one edge\<close>

lemma relax_improves_unsettled:
  assumes "dist_inv src L cur (dm, prev, heap)" and "ok_cost w"
    and "flt_less (flt_add round32 cur w) (dist_of dm m)"
  shows "m \<notin> set L \<and> m \<noteq> src \<and> flt_add round32 cur w \<noteq> PInf"
proof -
  have cur: "ok_cost cur" using assms(1) by (simp add: dist_inv_def)
  have nxt: "ok_cost (flt_add round32 cur w)" using cur assms(2) by (rule f32_cost.plus_ok)
  have not_le: "\<not> flt_le (dist_of dm m) (flt_add round32 cur w)" using assms(3) by (simp add: flt_less_def)
  have "m \<notin> set L"
  proof
    assume "m \<in> set L"
    then have "flt_le (dist_of dm m) cur" using assms(1) by (simp add: dist_inv_def)
    with f32_cost.settled_not_improved [OF cur assms(2)] not_le show False by blast
  qed
  moreover have "m \<noteq> src"
  proof
    assume "m = src"
    then have "dist_of dm m = Fin 0" using assms(1) by (simp add: dist_inv_def dist_of_def)
    with not_le nxt show False by (simp add: ok_cost_def)
  qed
  moreover have "flt_add round32 cur w \<noteq> PInf"
    using not_le f32_cost.top_greatest [OF dist_of_ok [OF assms(1)]] by metis
  ultimately show ?thesis by blast
qed

lemma relax_inv:
  assumes inv: "search_inv g src L R cur (dm, prev, heap)" and n: "n \<in> set L" "dist_of dm n = cur"
    and e: "e \<in> set (edges g n)" "ok_cost (er_difficulty e)"
  shows "search_inv g src L (insert (n, e) R) cur (relax cur n e (dm, prev, heap))
    \<and> dist_of (fst (relax cur n e (dm, prev, heap))) n = cur"
proof (cases "flt_less (flt_add round32 cur (er_difficulty e)) (dist_of dm (er_to e))")
  case False
  have d: "dist_inv src L cur (dm, prev, heap)" using inv by (simp add: search_inv_def)
  have "ok_cost cur" using d by (simp add: dist_inv_def)
  then have "flt_le (dist_of dm (er_to e)) (flt_add round32 cur (er_difficulty e))"
    using False less_iff_not_le [OF f32_cost.plus_ok [OF _ e(2)] dist_of_ok [OF d]] by blast
  with inv n False show ?thesis by (auto simp: search_inv_def relax_def edge_inv_def)
next
  case True
  let ?m = "er_to e" and ?c = "flt_add round32 cur (er_difficulty e)"
  have d: "dist_inv src L cur (dm, prev, heap)" using inv by (simp add: search_inv_def)
  have cur: "ok_cost cur" using d by (simp add: dist_inv_def)
  have c: "ok_cost ?c" using cur e(2) by (rule f32_cost.plus_ok)
  have m: "?m \<notin> set L" "?m \<noteq> src" "?c \<noteq> PInf"
    using relax_improves_unsettled [OF d e(2) True] by auto
  have le: "flt_le ?c (dist_of dm ?m)" "\<not> flt_le (dist_of dm ?m) ?c"
    using True by (simp_all add: flt_less_def)
  have nm: "n \<noteq> ?m" using m n by auto
  have st: "relax cur n e (dm, prev, heap)
      = (hm_insert ?m ?c dm, hm_insert ?m n prev, heap @ [(?c, ?m)])"
    using True by (simp add: relax_def Let_def)
  have "dist_inv src L cur (relax cur n e (dm, prev, heap))"
    using d c m unfolding st by (auto simp: dist_inv_def hm_simps dist_of_insert)
  moreover have "heap_inv L cur (relax cur n e (dm, prev, heap))"
  proof -
    have h: "heap_inv L cur (dm, prev, heap)" using inv by (simp add: search_inv_def)
    have "flt_le (dist_of dm ?m) c'" if "(c', ?m) \<in> set heap" for c'
      using h that by (auto simp: heap_inv_def)
    then have fresh: "(?c, ?m) \<notin> set heap" using le(2) by blast
    have "flt_le ?c c'" if "(c', ?m) \<in> set heap" for c'
      using h that le(1) flt_le_trans by (fastforce simp: heap_inv_def)
    moreover have "flt_le cur ?c" using cur e(2) by (rule f32_cost.inflate)
    ultimately show ?thesis
      using h c m f32_cost.refl [OF c] once_push [of L dm heap, OF _ fresh] unfolding st
      by (auto simp: heap_inv_def hm_simps dist_of_insert)
  qed
  moreover have "edge_inv L (insert (n, e) R) (relax cur n e (dm, prev, heap))"
  proof -
    have old: "a \<in> set L \<and> flt_le (dist_of dm (er_to f)) (flt_add round32 (dist_of dm a) (er_difficulty f))"
      if "(a, f) \<in> R" for a f
      using inv that by (auto simp: search_inv_def edge_inv_def)
    have "a \<in> set L \<and> flt_le (dist_of (hm_insert ?m ?c dm) (er_to f))
        (flt_add round32 (dist_of (hm_insert ?m ?c dm) a) (er_difficulty f))"
      if "(a, f) \<in> insert (n, e) R" for a f
    proof (cases "(a, f) = (n, e)")
      case True
      then show ?thesis using n nm f32_cost.refl [OF c] by (simp add: dist_of_insert)
    next
      case False
      with that have *: "a \<in> set L"
          "flt_le (dist_of dm (er_to f)) (flt_add round32 (dist_of dm a) (er_difficulty f))"
        using old by auto
      then have "a \<noteq> ?m" using m by auto
      with * le(1) show ?thesis by (auto simp: dist_of_insert intro: flt_le_trans)
    qed
    then show ?thesis unfolding st edge_inv_def by auto
  qed
  moreover have "prev_inv g src L (relax cur n e (dm, prev, heap))"
  proof -
    have p: "prev_inv g src L (dm, prev, heap)" using inv by (simp add: search_inv_def)
    have stay: "dist_of (hm_insert ?m ?c dm) p = dist_of dm p" if "p \<in> set L" for p
      using m that by (auto simp: dist_of_insert)
    show ?thesis
      using p n e m stay unfolding st by (fastforce simp: prev_inv_def hm_simps)
  qed
  ultimately show ?thesis using nm n(2) by (simp add: search_inv_def st dist_of_insert)
qed

subsubsection \<open>Expanding and skipping a popped element\<close>

lemma relax_all_inv:
  assumes "search_inv g src L R cur st" and "n \<in> set L" and "dist_of (fst st) n = cur"
    and "set es \<subseteq> set (edges g n)" and "\<forall>e\<in>set es. ok_cost (er_difficulty e)"
  shows "search_inv g src L (R \<union> {n} \<times> set es) cur (fold (relax cur n) es st)"
  using assms
proof (induction es arbitrary: R st)
  case (Cons e es)
  obtain dm prev heap where st: "st = (dm, prev, heap)" by (cases st)
  have "search_inv g src L (insert (n, e) R) cur (relax cur n e st) \<and> dist_of (fst (relax cur n e st)) n = cur"
    unfolding st using Cons.prems by (intro relax_inv) (simp_all add: st)
  then have "search_inv g src L (insert (n, e) R \<union> {n} \<times> set es) cur (fold (relax cur n) es (relax cur n e st))"
    using Cons.prems by (intro Cons.IH) auto
  then show ?case by simp
qed simp

lemma relax_all_heap:
  "length (snd (snd (fold (relax c n) es st))) \<le> length (snd (snd st)) + length es"
proof (induction es arbitrary: st)
  case (Cons e es)
  have "length (snd (snd (relax c n e st))) \<le> Suc (length (snd (snd st)))"
    by (cases st) (simp add: relax_def Let_def)
  with Cons [of "relax c n e st"] show ?case by simp
qed simp

lemma skip_inv:
  assumes inv: "search_inv g src L R cur (dm, prev, heap)"
    and pop: "mset heap = add_mset (c, n) (mset heap')" "\<forall>y\<in>set heap. flt_le c (fst y)"
    and skip: "flt_less (dist_of dm n) c"
  shows "search_inv g src L R c (dm, prev, heap')"
proof -
  have sub: "set heap = insert (c, n) (set heap')" using pop(1) by (metis set_mset_add_mset_insert set_mset_mset)
  have h: "heap_inv L cur (dm, prev, heap)" and d: "dist_inv src L cur (dm, prev, heap)"
    using inv by (simp_all add: search_inv_def)
  have "ok_cost c" "flt_le cur c" using h sub by (auto simp: heap_inv_def)
  then have "dist_inv src L c (dm, prev, heap')"
    using d flt_le_trans by (fastforce simp: dist_inv_def)
  moreover have "heap_inv L c (dm, prev, heap')"
  proof -
    have "(d, m) \<in> set heap'" if "hm_get dm m = Some d" "m \<notin> set L" for m d
    proof -
      have "(d, m) \<in> insert (c, n) (set heap')" using h that sub by (auto simp: heap_inv_def)
      moreover have "(d, m) \<noteq> (c, n)" using skip that by (auto simp: dist_of_def flt_less_def)
      ultimately show ?thesis by blast
    qed
    moreover have "once L dm heap'" using h once_smaller [OF _ pop(1)] by (simp add: heap_inv_def)
    ultimately show ?thesis using h pop(2) sub by (auto simp: heap_inv_def)
  qed
  ultimately show ?thesis using inv by (simp add: search_inv_def edge_inv_def prev_inv_def)
qed

lemma before_snoc: "before L p n \<Longrightarrow> before (L @ [m]) p n" "p \<in> set L \<Longrightarrow> before (L @ [n]) p n"
  unfolding before_def by (metis append.assoc append_Cons) auto

lemma settle_inv:
  assumes inv: "search_inv g src L R cur (dm, prev, heap)"
    and pop: "mset heap = add_mset (c, n) (mset heap')" "\<forall>y\<in>set heap. flt_le c (fst y)"
    and keep: "\<not> flt_less (dist_of dm n) c"
  shows "search_inv g src (L @ [n]) R c (dm, prev, heap') \<and> dist_of dm n = c \<and> n \<notin> set L"
proof -
  have sub: "set heap = insert (c, n) (set heap')" using pop(1) by (metis set_mset_add_mset_insert set_mset_mset)
  have h: "heap_inv L cur (dm, prev, heap)" and d: "dist_inv src L cur (dm, prev, heap)"
    and p: "prev_inv g src L (dm, prev, heap)"
    using inv by (simp_all add: search_inv_def)
  have c: "ok_cost c" "c \<noteq> PInf" "flt_le cur c" "flt_le (dist_of dm n) c"
    using h sub by (auto simp: heap_inv_def)
  then have eq: "dist_of dm n = c"
    using keep f32_cost.antisym by (auto simp: flt_less_def)
  then have get: "hm_get dm n = Some c" using c(2) by (cases "hm_get dm n") (auto simp: dist_of_def)
  have n: "n \<notin> set L" and o: "once (L @ [n]) dm heap'"
    using once_settle [of L dm heap n heap'] h pop(1) eq by (auto simp: heap_inv_def)
  have "dist_inv src (L @ [n]) c (dm, prev, heap')"
  proof -
    have "flt_le (dist_of dm m) c" if "m \<in> set L" for m
      using d c(3) that flt_le_trans by (fastforce simp: dist_inv_def)
    then show ?thesis using d c get n eq f32_cost.refl [OF c(1)] by (simp add: dist_inv_def)
  qed
  moreover have "heap_inv (L @ [n]) c (dm, prev, heap')"
    using h pop(2) sub o by (auto simp: heap_inv_def)
  moreover have "prev_inv g src (L @ [n]) (dm, prev, heap')"
  proof -
    have "\<exists>q e. hm_get prev m = Some q \<and> q \<in> set (L @ [n]) \<and> (m \<in> set (L @ [n]) \<longrightarrow> before (L @ [n]) q m)
        \<and> e \<in> set (edges g q) \<and> er_to e = m \<and> x = flt_add round32 (dist_of dm q) (er_difficulty e)"
      if "hm_get dm m = Some x" "m \<noteq> src" for m x
    proof -
      from prev_invD [OF p that] obtain q e where q: "hm_get prev m = Some q" "q \<in> set L" "m \<in> set L \<longrightarrow> before L q m"
        "e \<in> set (edges g q)" "er_to e = m" "x = flt_add round32 (dist_of dm q) (er_difficulty e)"
        by blast
      moreover have "m \<in> set (L @ [n]) \<longrightarrow> before (L @ [n]) q m"
        using q(2,3) before_snoc by (cases "m = n") auto
      ultimately show ?thesis by auto
    qed
    then show ?thesis by (simp add: prev_inv_def)
  qed
  moreover have "edge_inv (L @ [n]) R (dm, prev, heap')"
    using inv by (auto simp: search_inv_def edge_inv_def)
  ultimately show ?thesis using eq n by (simp add: search_inv_def)
qed

subsubsection \<open>The loop ends and keeps the invariant\<close>

definition slack :: "security_graph \<Rightarrow> string list \<Rightarrow> nat" where
  "slack g L = (\<Sum>m\<in>fst ` set (sg_adj g) - set L. length (edges g m))"

lemma edges_outside: "n \<notin> fst ` set (sg_adj g) \<Longrightarrow> edges g n = []"
  by (cases "hm_get (sg_adj g) n") (force simp: edges_def hm_get_def dest: map_of_SomeD)+

lemma slack_settle: "n \<notin> set L \<Longrightarrow> slack g (L @ [n]) + length (edges g n) = slack g L"
proof (cases "n \<in> fst ` set (sg_adj g)")
  case True
  assume "n \<notin> set L"
  with True have "n \<in> fst ` set (sg_adj g) - set L" by simp
  moreover have "fst ` set (sg_adj g) - set (L @ [n]) = fst ` set (sg_adj g) - set L - {n}" by auto
  ultimately show ?thesis by (simp add: slack_def sum.remove [where x = n])
next
  case False
  then have "fst ` set (sg_adj g) - set (L @ [n]) = fst ` set (sg_adj g) - set L" by auto
  with False show ?thesis by (simp add: slack_def edges_outside)
qed

definition out_edges :: "security_graph \<Rightarrow> string list \<Rightarrow> (string \<times> edge_ref) set" where
  "out_edges g L = {(n, e). n \<in> set L \<and> e \<in> set (edges g n)}"

lemma dijkstra_loop_ends:
  assumes g: "graph_ok g" and pop: "pop_ok pop"
  shows "search_inv g src L (out_edges g L) cur st \<Longrightarrow>
    \<exists>dm prev L' cur'. dijkstra_loop pop g st = Some (dm, prev)
      \<and> search_inv g src L' (out_edges g L') cur' (dm, prev, [])"
proof (induction "length (snd (snd st)) + slack g L" arbitrary: L cur st rule: less_induct)
  case less
  obtain dm prev heap where st: "st = (dm, prev, heap)" by (cases st)
  have inv: "search_inv g src L (out_edges g L) cur (dm, prev, heap)" using less.prems st by simp
  show ?case
  proof (cases "heap = []")
    case True
    then have "dijkstra_loop pop g st = Some (dm, prev)"
      using pop by (subst dijkstra_loop.simps) (simp add: st pop_ok_def)
    with inv True show ?thesis by blast
  next
    case False
    have "\<forall>x\<in>set heap. fst x \<noteq> NaN" using inv by (auto simp: search_inv_def heap_inv_def)
    with pop False obtain c n heap' where pp: "pop heap = Some ((c, n), heap')"
      "mset heap = add_mset (c, n) (mset heap')" "\<forall>y\<in>set heap. flt_le c (fst y)"
      unfolding pop_ok_def by (metis fst_conv surj_pair)
    have len: "length heap = Suc (length heap')" using pp(2) by (metis size_add_mset size_mset)
    show ?thesis
    proof (cases "flt_less (dist_of dm n) c")
      case True
      then have "dijkstra_loop pop g st = dijkstra_loop pop g (dm, prev, heap')"
        using pp(1) by (subst dijkstra_loop.simps) (simp add: st)
      moreover have "search_inv g src L (out_edges g L) c (dm, prev, heap')"
        by (rule skip_inv [OF inv pp(2,3) True])
      ultimately show ?thesis using less.hyps [of "(dm, prev, heap')" L c] len by (simp add: st)
    next
      case keep: False
      define st' where "st' = fold (relax c n) (edges g n) (dm, prev, heap')"
      have "dijkstra_loop pop g st = dijkstra_loop pop g st'"
        using pp(1) keep by (subst dijkstra_loop.simps) (simp add: st st'_def)
      moreover have s: "search_inv g src (L @ [n]) (out_edges g L) c (dm, prev, heap')" "dist_of dm n = c" "n \<notin> set L"
        using settle_inv [OF inv pp(2,3) keep] by auto
      have "search_inv g src (L @ [n]) (out_edges g L \<union> {n} \<times> set (edges g n)) c st'"
        unfolding st'_def using g s by (intro relax_all_inv) (auto simp: graph_ok_def)
      moreover have "out_edges g L \<union> {n} \<times> set (edges g n) = out_edges g (L @ [n])"
        by (auto simp: out_edges_def)
      moreover have "length (snd (snd st')) + slack g (L @ [n]) < length (snd (snd st)) + slack g L"
        using relax_all_heap [of c n "edges g n" "(dm, prev, heap')"] slack_settle [OF s(3), of g] len
        by (simp add: st st'_def)
      ultimately show ?thesis using less.hyps [of st' "L @ [n]" c] by simp
    qed
  qed
qed

lemma search_inv_start: "search_inv g src [] {} (Fin 0) ([(src, Fin 0)], [], [(Fin 0, src)])"
  by (auto simp: search_inv_def inv_defs once_def hm_get_def dist_of_def)

subsection \<open>Distances and routes\<close>

definition search_done :: "security_graph \<Rightarrow> string \<Rightarrow> (string, f32) hmap \<Rightarrow> (string, string) hmap \<Rightarrow> bool" where
  "search_done g src dm prev \<longleftrightarrow> (\<exists>L cur. search_inv g src L (out_edges g L) cur (dm, prev, []))"

lemma dijkstra_done:
  assumes "graph_ok g" and "pop_ok pop"
  shows "\<exists>dm prev. dijkstra pop g src = Some (dm, prev) \<and> search_done g src dm prev"
proof -
  have "out_edges g [] = {}" by (simp add: out_edges_def)
  then show ?thesis
    using dijkstra_loop_ends [OF assms, of src "[]" "Fin 0"] search_inv_start [of g src]
    unfolding dijkstra_def search_done_def by metis
qed

lemma done_settled:
  assumes "search_inv g src L R cur (dm, prev, [])"
  shows "hm_get dm n \<noteq> None \<longleftrightarrow> n \<in> set L"
  using assms by (auto simp: search_inv_def inv_defs)

lemma done_lower_bound:
  assumes g: "graph_ok g" and d: "search_done g src dm prev"
  shows "route g src p c \<Longrightarrow> flt_le (dist_of dm (last p)) c"
proof (induction rule: route.induct)
  case start
  then show ?case using d by (auto simp: search_done_def search_inv_def dist_inv_def dist_of_def)
next
  case (step p c e)
  obtain L cur where inv: "search_inv g src L (out_edges g L) cur (dm, prev, [])"
    using d by (auto simp: search_done_def)
  then have ok: "ok_cost (dist_of dm n)" for n by (auto simp: search_inv_def intro: dist_of_ok)
  have c: "ok_cost c" and w: "ok_cost (er_difficulty e)"
    using route_ok [OF g step.hyps(1)] g step.hyps(2) by (auto simp: graph_ok_def)
  have "flt_le (dist_of dm (er_to e)) (flt_add round32 (dist_of dm (last p)) (er_difficulty e))"
  proof (cases "last p \<in> set L")
    case True
    then have "(last p, e) \<in> out_edges g L" using step.hyps(2) by (simp add: out_edges_def)
    with inv show ?thesis by (auto simp: search_inv_def edge_inv_def)
  next
    case False
    then have "dist_of dm (last p) = PInf" using done_settled [OF inv, of "last p"] by (simp add: dist_of_def)
    moreover have "flt_add round32 PInf (er_difficulty e) = PInf" using w by (cases "er_difficulty e") auto
    ultimately show ?thesis using f32_cost.top_greatest [OF ok] by simp
  qed
  from f32_cost.relaxed_lower_bound [of "dist_of dm", OF ok w c step.IH this] show ?case by simp
qed

lemma takeWhile_first: "p \<notin> set us \<Longrightarrow> takeWhile (\<lambda>x. x \<noteq> p) (us @ p # vs) = us"
  by (induction us) auto

lemma reconstruct_route:
  assumes inv: "search_inv g src L R cur (dm, prev, [])"
  shows "n \<in> set L \<Longrightarrow> \<exists>q. reconstruct_loop prev src path n = Some (path @ q)
    \<and> route g src (rev (n # q)) (dist_of dm n)"
proof (induction "length (takeWhile (\<lambda>x. x \<noteq> n) L)" arbitrary: n path rule: less_induct)
  case less
  show ?case
  proof (cases "n = src")
    case True
    then have "dist_of dm n = Fin 0" using inv by (simp add: search_inv_def dist_inv_def dist_of_def)
    with True show ?thesis by (subst reconstruct_loop.simps) (auto intro: route.start)
  next
    case False
    obtain d where d: "hm_get dm n = Some d" using done_settled [OF inv] less.prems by auto
    have "prev_inv g src L (dm, prev, [])" using inv by (simp add: search_inv_def)
    from prev_invD [OF this d False] less.prems obtain p e where p: "hm_get prev n = Some p" "p \<in> set L" "before L p n"
      "e \<in> set (edges g p)" "er_to e = n" "d = flt_add round32 (dist_of dm p) (er_difficulty e)"
      by blast
    from p(3) obtain xs ys where L: "L = xs @ n # ys" "p \<in> set xs" by (auto simp: before_def)
    have "distinct L" using inv by (simp add: search_inv_def dist_inv_def)
    then have "takeWhile (\<lambda>x. x \<noteq> n) L = xs"
      using L takeWhile_first [of n xs ys] by auto
    moreover have "length (takeWhile (\<lambda>x. x \<noteq> p) L) < length xs"
    proof -
      from L(2) obtain us vs where "xs = us @ p # vs" "p \<notin> set us" by (meson split_list_first)
      then have "takeWhile (\<lambda>x. x \<noteq> p) L = us" using takeWhile_first [of p us "vs @ n # ys"] by (simp add: L(1))
      then show ?thesis using \<open>xs = us @ p # vs\<close> by simp
    qed
    ultimately obtain q where q: "reconstruct_loop prev src (path @ [p]) p = Some ((path @ [p]) @ q)"
      "route g src (rev (p # q)) (dist_of dm p)"
      using less.hyps [of p "path @ [p]"] p(2) by auto
    have "route g src (rev (p # q) @ [er_to e]) (flt_add round32 (dist_of dm p) (er_difficulty e))"
      using q(2) p(4) by (intro route.step) auto
    then have "route g src (rev (n # p # q)) (dist_of dm n)" using p(5,6) d by (simp add: dist_of_def)
    moreover have "reconstruct_loop prev src path n = Some (path @ p # q)"
      using False p(1) q(1) by (subst reconstruct_loop.simps) simp
    ultimately show ?thesis by blast
  qed
qed

definition least_route :: "security_graph \<Rightarrow> string \<Rightarrow> string \<Rightarrow> string list \<Rightarrow> f32 \<Rightarrow> bool" where
  "least_route g src n p d \<longleftrightarrow> route g src p d \<and> last p = n \<and> d \<noteq> PInf
     \<and> (\<forall>q c. route g src q c \<longrightarrow> last q = n \<longrightarrow> flt_le d c)"

lemma done_correct:
  assumes g: "graph_ok g" and d: "search_done g src dm prev"
  shows "(case hm_get dm n of
      Some c \<Rightarrow> (\<exists>p. reconstruct prev src n = Some p \<and> least_route g src n p c)
    | None \<Rightarrow> (\<forall>p c. route g src p c \<longrightarrow> last p = n \<longrightarrow> c = PInf))"
proof -
  obtain L cur where inv: "search_inv g src L (out_edges g L) cur (dm, prev, [])"
    using d by (auto simp: search_done_def)
  note low = done_lower_bound [OF g d]
  show ?thesis
  proof (cases "hm_get dm n")
    case None
    then have "dist_of dm n = PInf" by (simp add: dist_of_def)
    then have "flt_le PInf c" if "route g src p c" "last p = n" for p c using low that by metis
    then have "c = PInf" if "route g src p c" "last p = n" for p c
      using that f32_cost.antisym f32_cost.top_greatest route_ok [OF g that(1)] by metis
    with None show ?thesis by simp
  next
    case (Some c)
    then have n: "n \<in> set L" using done_settled [OF inv] by auto
    from reconstruct_route [OF inv n, of "[n]"] obtain q where
      "reconstruct_loop prev src [n] n = Some ([n] @ q)" "route g src (rev (n # q)) c"
      using Some by (auto simp: dist_of_def)
    moreover have "c \<noteq> PInf" using inv Some by (auto simp: search_inv_def dist_inv_def)
    moreover have "flt_le c x" if "route g src p x" "last p = n" for p x
      using low [OF that(1)] that(2) Some by (simp add: dist_of_def)
    ultimately show ?thesis using Some by (simp add: reconstruct_def least_route_def)
  qed
qed

subsection \<open>Attack paths\<close>

lemma those_Some: "those xs = Some ys \<longleftrightarrow> xs = map Some ys"
  by (induction xs arbitrary: ys) (auto split: option.splits simp: Cons_eq_map_conv)

lemma those_all: "(\<forall>x\<in>set xs. x \<noteq> None) \<Longrightarrow> \<exists>ys. those xs = Some ys"
  by (induction xs) (auto split: option.splits)

definition is_exposed :: "security_graph \<Rightarrow> string \<Rightarrow> bool" where
  "is_exposed g n = (case hm_get (sg_nodes g) n of None \<Rightarrow> False | Some nd \<Rightarrow> nd_exposed nd)"

lemma node_entry: "graph_ok g \<Longrightarrow> (k, nd) \<in> set (sg_nodes g) \<longleftrightarrow> hm_get (sg_nodes g) k = Some nd"
  by (simp add: graph_ok_def hm_ok_def hm_get_def)

lemma exposed_entries:
  assumes "graph_ok g"
  shows "(\<lambda>(_, n). nd_id n) ` set (filter (\<lambda>(_, n). nd_exposed n) (sg_nodes g)) = {s. is_exposed g s}"
proof -
  have "nd_id n = k" if "(k, n) \<in> set (sg_nodes g)" for k n
    using assms that by (auto simp: graph_ok_def)
  then have "s \<in> (\<lambda>(_, n). nd_id n) ` set (filter (\<lambda>(_, n). nd_exposed n) (sg_nodes g))
      \<longleftrightarrow> (\<exists>n. (s, n) \<in> set (sg_nodes g) \<and> nd_exposed n)" for s
    by (fastforce simp: image_iff)
  moreover have "is_exposed g s \<longleftrightarrow> (\<exists>n. (s, n) \<in> set (sg_nodes g) \<and> nd_exposed n)" for s
    by (auto simp: node_entry [OF assms] is_exposed_def split: option.splits)
  ultimately show ?thesis by blast
qed

lemma paths_from_correct:
  assumes g: "graph_ok g" and pop: "pop_ok pop"
  shows "\<exists>ps. paths_from pop g entry = Some ps \<and> (\<forall>ap. ap \<in> set ps \<longrightarrow>
        ap_blast_radius ap = blast_radius g entry
        \<and> (\<exists>t. is_sensitive g t \<and> t \<noteq> entry \<and> least_route g entry t (ap_nodes ap) (ap_total_difficulty ap)))
     \<and> (\<forall>t p c. is_sensitive g t \<longrightarrow> t \<noteq> entry \<longrightarrow> route g entry p c \<longrightarrow> last p = t \<longrightarrow> c \<noteq> PInf \<longrightarrow>
        (\<exists>ap\<in>set ps. last (ap_nodes ap) = t \<and> hd (ap_nodes ap) = entry))"
proof -
  obtain dm prev where dj: "dijkstra pop g entry = Some (dm, prev)" and dn: "search_done g entry dm prev"
    using dijkstra_done [OF assms] by blast
  note correct = done_correct [OF g dn]
  define f where "f = (\<lambda>(target, node :: node_data). if \<not> nd_sensitive node \<or> target = entry then None
           else case hm_get dm target of
               None \<Rightarrow> None
             | Some tot \<Rightarrow> Some (map_option (\<lambda>nodes. \<lparr> ap_nodes = nodes, ap_total_difficulty = tot,
                 ap_blast_radius = blast_radius g entry \<rparr>) (reconstruct prev entry target)))"
  have f: "f x = Some y \<Longrightarrow> \<exists>ap p. y = Some ap \<and> ap = \<lparr> ap_nodes = p, ap_total_difficulty = the (hm_get dm (fst x)),
        ap_blast_radius = blast_radius g entry \<rparr> \<and> least_route g entry (fst x) p (the (hm_get dm (fst x)))
        \<and> nd_sensitive (snd x) \<and> fst x \<noteq> entry" for x y
    using correct [of "fst x"] by (cases x) (auto simp: f_def split: if_splits option.splits)
  then have "\<forall>y\<in>set (List.map_filter f (sg_nodes g)). y \<noteq> None" using set_map_filter by (metis option.distinct(1))
  then obtain ps where ps: "those (List.map_filter f (sg_nodes g)) = Some ps" using those_all by blast
  then have mf: "List.map_filter f (sg_nodes g) = map Some ps" by (simp only: those_Some)
  have mem: "ap \<in> set ps \<longleftrightarrow> (\<exists>x\<in>set (sg_nodes g). f x = Some (Some ap))" for ap
    using set_map_filter [of "Some ap" f "sg_nodes g"] unfolding mf by auto
  have sound: "ap_blast_radius ap = blast_radius g entry
      \<and> (\<exists>t. is_sensitive g t \<and> t \<noteq> entry \<and> least_route g entry t (ap_nodes ap) (ap_total_difficulty ap))"
    if "ap \<in> set ps" for ap
  proof -
    from that mem obtain t nd where x: "(t, nd) \<in> set (sg_nodes g)" "f (t, nd) = Some (Some ap)" by fast
    then have "is_sensitive g t \<longleftrightarrow> nd_sensitive nd" using node_entry [OF g] by (simp add: is_sensitive_def)
    with f [OF x(2)] show ?thesis by auto
  qed
  have complete: "\<exists>ap\<in>set ps. last (ap_nodes ap) = t \<and> hd (ap_nodes ap) = entry"
    if t: "is_sensitive g t" "t \<noteq> entry" and r: "route g entry p c" "last p = t" "c \<noteq> PInf" for t p c
  proof -
    obtain nd where nd: "hm_get (sg_nodes g) t = Some nd" "nd_sensitive nd"
      using t(1) by (auto simp: is_sensitive_def split: option.splits)
    obtain tot where tot: "hm_get dm t = Some tot"
      using correct [of t] r by (cases "hm_get dm t") auto
    then obtain q where q: "reconstruct prev entry t = Some q" "least_route g entry t q tot"
      using correct [of t] by auto
    let ?ap = "\<lparr> ap_nodes = q, ap_total_difficulty = tot, ap_blast_radius = blast_radius g entry \<rparr>"
    have "f (t, nd) = Some (Some ?ap)" using t nd tot q by (simp add: f_def)
    then have "?ap \<in> set ps" using mem nd(1) node_entry [OF g] by blast
    moreover have "last q = t" "hd q = entry" using q(2) route_ok [OF g] by (auto simp: least_route_def)
    ultimately show ?thesis by force
  qed
  have "paths_from pop g entry = Some ps" using ps by (simp add: paths_from_def dj f_def)
  with sound complete show ?thesis by blast
qed

lemma path_le_ok:
  assumes "ok_cost (ap_total_difficulty a)" and "ok_cost (ap_total_difficulty b)"
  shows "path_le a b \<longleftrightarrow> ap_blast_radius b < ap_blast_radius a
    \<or> ap_blast_radius a = ap_blast_radius b \<and> flt_le (ap_total_difficulty a) (ap_total_difficulty b)"
  using less_iff_not_le [OF assms(2,1)] by (auto simp: path_le_def)

lemma set_insert_path [simp]: "set (insert_path a ps) = insert a (set ps)"
  by (induction ps) auto

lemma sorted_insert_path:
  assumes "sorted_wrt path_le ps" and "\<forall>x\<in>insert a (set ps). ok_cost (ap_total_difficulty x)"
  shows "sorted_wrt path_le (insert_path a ps)"
  using assms
proof (induction ps)
  case (Cons b ps)
  show ?case
  proof (cases "path_le a b")
    case True
    have "path_le a x" if "x \<in> set ps" for x
      using True Cons.prems that f32_cost.trans by (fastforce simp: path_le_ok)
    with True Cons.prems show ?thesis by simp
  next
    case False
    then have "path_le b a"
      using Cons.prems f32_cost.total [of "ap_total_difficulty a" "ap_total_difficulty b"]
      by (auto simp: path_le_ok)
    with False Cons show ?thesis by simp
  qed
qed simp

lemma sort_paths_correct:
  "\<forall>x\<in>set ps. ok_cost (ap_total_difficulty x) \<Longrightarrow> sorted_wrt path_le (sort_paths ps) \<and> set (sort_paths ps) = set ps"
  by (induction ps) (auto simp: sort_paths_def intro!: sorted_insert_path)

subsection \<open>Properties\<close>

text \<open>
  C18: Dijkstra's search ends and is exact on every graph built by the code's operations, with any
  heap that pops an element of least cost. A node with a distance is reached by the reconstructed route,
  whose cost in \<open>f32\<close> arithmetic is that distance, and no route to the node costs less; a
  node without a distance has no route of finite cost.
\<close>

theorem dijkstra_exact:
  assumes "built g" and "pop_ok pop"
  shows "\<exists>dm prev. dijkstra pop g src = Some (dm, prev) \<and> (\<forall>n. case hm_get dm n of
      Some c \<Rightarrow> (\<exists>p. reconstruct prev src n = Some p \<and> least_route g src n p c)
    | None \<Rightarrow> (\<forall>p c. route g src p c \<longrightarrow> last p = n \<longrightarrow> c = PInf))"
  using dijkstra_done [OF built_ok [OF assms(1)] assms(2)] done_correct [OF built_ok [OF assms(1)]] by blast

text \<open>A heap that pops the first element of least cost.\<close>

fun first_least :: "heap_state \<Rightarrow> heap_state list \<Rightarrow> heap_state \<times> heap_state list" where
  "first_least x [] = (x, [])"
| "first_least x (y # ys) = (if flt_less (fst y) (fst x)
     then (let (z, zs) = first_least y ys in (z, x # zs)) else (let (z, zs) = first_least x ys in (z, y # zs)))"

definition list_pop :: heap_pop where
  "list_pop h = (case h of [] \<Rightarrow> None | x # xs \<Rightarrow> Some (first_least x xs))"

lemma first_least_spec:
  assumes "first_least x xs = (z, zs)" and "\<forall>y\<in>insert x (set xs). fst y \<noteq> NaN"
  shows "mset (x # xs) = add_mset z (mset zs) \<and> (\<forall>y\<in>insert x (set xs). flt_le (fst z) (fst y))"
  using assms
proof (induction x xs arbitrary: z zs rule: first_least.induct)
  case (1 x)
  then show ?case by (auto simp: flt_le_refl)
next
  case (2 x y ys)
  show ?case
  proof (cases "flt_less (fst y) (fst x)")
    case True
    obtain u us where u: "first_least y ys = (u, us)" by (cases "first_least y ys")
    with True 2 have "mset (y # ys) = add_mset u (mset us)" "\<forall>v\<in>insert y (set ys). flt_le (fst u) (fst v)"
      by auto
    moreover have "flt_le (fst u) (fst x)"
      using calculation(2) True flt_le_trans by (auto simp: flt_less_def)
    ultimately show ?thesis using True u 2(3) by auto
  next
    case False
    obtain u us where u: "first_least x ys = (u, us)" by (cases "first_least x ys")
    with False 2 have *: "mset (x # ys) = add_mset u (mset us)" "\<forall>v\<in>insert x (set ys). flt_le (fst u) (fst v)"
      by auto
    have "flt_le (fst x) (fst y)" using False 2(4) flt_less_iff [of "fst y" "fst x"] by auto
    with * have "flt_le (fst u) (fst y)" using flt_le_trans by auto
    with * show ?thesis using False u 2(3) by (auto simp: add_mset_commute)
  qed
qed

lemma list_pop_ok: "pop_ok list_pop"
  unfolding pop_ok_def
proof (intro conjI allI impI)
  fix h :: "heap_state list"
  assume "h \<noteq> []" "\<forall>x\<in>set h. fst x \<noteq> NaN"
  then obtain x xs where h: "h = x # xs" by (cases h) auto
  obtain z zs where z: "first_least x xs = (z, zs)" by (cases "first_least x xs")
  from first_least_spec [OF z] \<open>\<forall>x\<in>set h. fst x \<noteq> NaN\<close> z
  show "\<exists>x h'. list_pop h = Some (x, h') \<and> mset h = add_mset x (mset h') \<and> (\<forall>y\<in>set h. flt_le (fst x) (fst y))"
    by (auto simp: list_pop_def h)
qed (simp add: list_pop_def)

definition demo_graph :: security_graph where
  "demo_graph = add_edge ''web'' ''db'' ConnectsTo (Fin 0)
     (add_node (node_sensitive (node_new ''db'' ''rds'')) (add_node (node_exposed (node_new ''web'' ''ec2'')) graph_new))"

lemma demo_graph_built: "built demo_graph"
  unfolding demo_graph_def by (intro built.intros) (simp add: is_f32_def round32_def fp_round_def)

theorem dijkstra_exact_witness: "\<exists>dm prev. dijkstra list_pop demo_graph ''web'' = Some (dm, prev)"
  using dijkstra_exact [OF demo_graph_built list_pop_ok, of "''web''"] by blast

text \<open>
  C31: the attack paths are sound, complete and sorted. Each reported path is a route of least cost from an
  exposed node to another, sensitive, node, with the number of sensitive nodes reachable from its entry as
  its blast radius; every exposed node with a route of finite cost to a sensitive node has a reported path;
  and the list is sorted by decreasing blast radius, then increasing difficulty.
\<close>

theorem attack_paths_correct:
  assumes "built g" and "pop_ok pop"
  shows "\<exists>ps. attack_paths pop g = Some ps \<and> sorted_wrt path_le ps
    \<and> (\<forall>ap\<in>set ps. \<exists>s t. is_exposed g s \<and> is_sensitive g t \<and> t \<noteq> s
         \<and> least_route g s t (ap_nodes ap) (ap_total_difficulty ap)
         \<and> ap_blast_radius ap = card {n. (s, n) \<in> (step_rel g)\<^sup>* \<and> n \<noteq> s \<and> is_sensitive g n})
    \<and> (\<forall>s t p c. is_exposed g s \<longrightarrow> is_sensitive g t \<longrightarrow> t \<noteq> s \<longrightarrow> route g s p c \<longrightarrow> last p = t \<longrightarrow> c \<noteq> PInf \<longrightarrow>
         (\<exists>ap\<in>set ps. hd (ap_nodes ap) = s \<and> last (ap_nodes ap) = t))"
proof -
  have g: "graph_ok g" using assms(1) by (rule built_ok)
  let ?es = "filter (\<lambda>(_, n). nd_exposed n) (sg_nodes g)"
  let ?fs = "map (\<lambda>(_, n). paths_from pop g (nd_id n)) ?es"
  note from_entry = paths_from_correct [OF g assms(2)]
  have "set ?fs = paths_from pop g ` ((\<lambda>(_, n). nd_id n) ` set ?es)" by force
  then have set_fs: "set ?fs = paths_from pop g ` {s. is_exposed g s}" by (simp only: exposed_entries [OF g])
  have "paths_from pop g s \<noteq> None" for s using from_entry [of s] by auto
  then have "\<forall>x\<in>set ?fs. x \<noteq> None" unfolding set_fs by blast
  then obtain pss where pss: "those ?fs = Some pss" using those_all by blast
  then have "?fs = map Some pss" by (simp only: those_Some)
  then have "set ?fs = Some ` set pss" by (metis set_map)
  then have "ps \<in> set pss \<longleftrightarrow> Some ps \<in> paths_from pop g ` {s. is_exposed g s}" for ps
    unfolding set_fs by auto
  then have mem: "ap \<in> set (concat pss) \<longleftrightarrow> (\<exists>s ps. is_exposed g s \<and> paths_from pop g s = Some ps \<and> ap \<in> set ps)"
    for ap unfolding set_concat by (force simp: image_iff)
  have sound: "\<exists>s t. is_exposed g s \<and> is_sensitive g t \<and> t \<noteq> s
         \<and> least_route g s t (ap_nodes ap) (ap_total_difficulty ap) \<and> ap_blast_radius ap = blast_radius g s"
    if "ap \<in> set (concat pss)" for ap
  proof -
    from that obtain s ps where s: "is_exposed g s" "paths_from pop g s = Some ps" "ap \<in> set ps"
      unfolding mem by blast
    with from_entry [of s] show ?thesis by auto
  qed
  then have "\<forall>ap\<in>set (concat pss). ok_cost (ap_total_difficulty ap)"
    using route_ok [OF g] unfolding least_route_def by blast
  from sort_paths_correct [OF this]
  have sorted: "sorted_wrt path_le (sort_paths (concat pss))" "set (sort_paths (concat pss)) = set (concat pss)" by auto
  have complete: "\<exists>ap\<in>set (concat pss). hd (ap_nodes ap) = s \<and> last (ap_nodes ap) = t"
    if "is_exposed g s" "is_sensitive g t" "t \<noteq> s" "route g s p c" "last p = t" "c \<noteq> PInf" for s t p c
  proof -
    from from_entry [of s] that obtain ps ap where "paths_from pop g s = Some ps" "ap \<in> set ps"
      "last (ap_nodes ap) = t" "hd (ap_nodes ap) = s" by blast
    with that(1) show ?thesis unfolding Bex_def mem by blast
  qed
  have "attack_paths pop g = Some (sort_paths (concat pss))" using pss by (simp add: attack_paths_def)
  with sorted sound complete show ?thesis by (simp add: blast_radius_correct)
qed

theorem attack_paths_correct_witness: "\<exists>ps. attack_paths list_pop demo_graph = Some ps \<and> sorted_wrt path_le ps"
  using attack_paths_correct [OF demo_graph_built list_pop_ok] by blast

text \<open>
  the blast radius of a node is the number of sensitive nodes that can be reached from it along
  edges, the node itself excluded, for every graph; the search always ends.
\<close>

theorem blast_radius_counts_reachable:
  "blast_radius g s = card {n. (s, n) \<in> (step_rel g)\<^sup>* \<and> n \<noteq> s \<and> is_sensitive g n}"
  by (rule blast_radius_correct)

end
