(* ===== verification/TokenBudget.thy ===== *)
theory TokenBudget
  imports RustStr Floats "HOL-Library.Multiset"
begin

text \<open>
  Context packing, \<open>secureops-tokenbudget/src/lib.rs\<close>: the greedy knapsack and the compression passes.

  The similarity of \<open>cosine_dedup\<close> is a parameter (\<open>cosine_similarity\<close> takes square roots of
  \<open>f32\<close>, which are not modelled). The identifiers drawn by \<open>Uuid::new_v4\<close> are arguments.

  The lemmas show that packing partitions the evidence, never exceeds the budget and leaves out nothing that
  would still fit, that it takes evidence in order of density, that the chunks of a text concatenate to it
  and respect the chunk size, and that deduplication only drops evidence near a kept one.
\<close>

subsection \<open>Evidence\<close>

datatype evidence_kind = EvFinding | IamPolicy | Manifest | EvLog | Schema | EvOther

record evidence =
  ev_id :: nat
  ev_kind :: evidence_kind
  ev_raw :: string
  ev_relevance :: f32
  ev_tokens :: nat

definition estimate_tokens :: "string \<Rightarrow> nat" where
  "estimate_tokens s = (length (utf8_chars s) + 3) div 4"

text \<open>\<open>f32::clamp(0.0, 1.0)\<close>: NaN stays NaN.\<close>

definition clamp01 :: "f32 \<Rightarrow> f32" where
  "clamp01 x = (if flt_less x (Fin 0) then Fin 0 else if flt_less (Fin 1) x then Fin 1 else x)"

definition evidence_new :: "nat \<Rightarrow> evidence_kind \<Rightarrow> string \<Rightarrow> f32 \<Rightarrow> evidence" where
  "evidence_new i k raw relevance = \<lparr> ev_id = i, ev_kind = k, ev_raw = raw,
     ev_relevance = clamp01 relevance, ev_tokens = estimate_tokens raw \<rparr>"

definition density :: "evidence \<Rightarrow> f32" where
  "density e = (if ev_tokens e = 0 then ev_relevance e
     else flt_div round32 (ev_relevance e) (f32_of_nat (ev_tokens e)))"

subsection \<open>TokenBudget\<close>

record token_budget =
  tb_model :: string
  tb_window :: nat
  tb_reserved_output :: nat

record pack_result =
  pr_included :: "evidence list"
  pr_dropped :: "evidence list"
  pr_used_tokens :: nat

definition available :: "token_budget \<Rightarrow> nat" where
  "available b = tb_window b - tb_reserved_output b"

datatype ordering = Less | Equal | Greater

definition partial_cmp :: "f32 \<Rightarrow> f32 \<Rightarrow> ordering option" where
  "partial_cmp a b = (if flt_less a b then Some Less else if flt_eq a b then Some Equal
     else if flt_less b a then Some Greater else None)"

definition then_cmp :: "ordering \<Rightarrow> ordering \<Rightarrow> ordering" where
  "then_cmp a b = (if a = Equal then b else a)"

definition id_cmp :: "nat \<Rightarrow> nat \<Rightarrow> ordering" where
  "id_cmp a b = (if a < b then Less else if a = b then Equal else Greater)"

definition pack_cmp :: "evidence \<Rightarrow> evidence \<Rightarrow> ordering" where
  "pack_cmp a b = then_cmp (then_cmp (unwrap_or (partial_cmp (density b) (density a)) Equal)
      (unwrap_or (partial_cmp (ev_relevance b) (ev_relevance a)) Equal)) (id_cmp (ev_id a) (ev_id b))"

text \<open>A stable sort by a comparison function.\<close>

fun insert_by :: "('a \<Rightarrow> 'a \<Rightarrow> ordering) \<Rightarrow> 'a \<Rightarrow> 'a list \<Rightarrow> 'a list" where
  "insert_by cmp x [] = [x]"
| "insert_by cmp x (y # ys) = (if cmp x y = Greater then y # insert_by cmp x ys else x # y # ys)"

definition sort_by :: "('a \<Rightarrow> 'a \<Rightarrow> ordering) \<Rightarrow> 'a list \<Rightarrow> 'a list" where
  "sort_by cmp xs = foldr (insert_by cmp) xs []"

definition pack_item :: "nat \<Rightarrow> pack_result \<Rightarrow> evidence \<Rightarrow> pack_result" where
  "pack_item budget r item =
    (if pr_used_tokens r + ev_tokens item \<le> budget
     then r\<lparr> pr_used_tokens := pr_used_tokens r + ev_tokens item, pr_included := pr_included r @ [item] \<rparr>
     else r\<lparr> pr_dropped := pr_dropped r @ [item] \<rparr>)"

definition pack :: "token_budget \<Rightarrow> evidence list \<Rightarrow> pack_result" where
  "pack b items = foldl (pack_item (available b))
     \<lparr> pr_included = [], pr_dropped = [], pr_used_tokens = 0 \<rparr> (sort_by pack_cmp items)"

subsection \<open>Compression passes\<close>

definition dedup_step ::
  "(string \<Rightarrow> string \<Rightarrow> f32) \<Rightarrow> f32 \<Rightarrow> evidence list \<times> nat \<Rightarrow> evidence \<Rightarrow> evidence list \<times> nat" where
  "dedup_step sim threshold = (\<lambda>(reps, removed) item.
    case find_index (\<lambda>r. flt_le threshold (sim (ev_raw r) (ev_raw item))) reps of
      Some i \<Rightarrow> (if flt_less (ev_relevance (reps ! i)) (ev_relevance item) then reps[i := item] else reps, removed + 1)
    | None \<Rightarrow> (reps @ [item], removed))"

definition cosine_dedup ::
  "(string \<Rightarrow> string \<Rightarrow> f32) \<Rightarrow> evidence list \<Rightarrow> f32 \<Rightarrow> evidence list \<times> nat" where
  "cosine_dedup sim items threshold = foldl (dedup_step sim threshold) ([], 0) items"

definition schema_ref :: "string list \<Rightarrow> string \<Rightarrow> string \<times> string list" where
  "schema_ref texts schema = (''schema#1:'' @ [newline] @ schema,
     map (\<lambda>t. str_replace schema ''{$ref:schema#1}'' t) texts)"

definition diff_delta :: "string \<Rightarrow> string \<Rightarrow> string" where
  "diff_delta baseline candidate =
    (let base = hs_of_list (map trim (lines baseline))
     in join [newline] (filter (\<lambda>l. \<not> hs_contains base (trim l)) (lines candidate)))"

fun chunks :: "nat \<Rightarrow> 'a list \<Rightarrow> 'a list list" where
  "chunks k xs = (if k = 0 \<or> xs = [] then [] else take k xs # chunks k (drop k xs))"

declare chunks.simps [simp del]

text \<open>The product is a \<open>usize\<close>; a chunk size of zero panics.\<close>

definition map_reduce_chunks :: "string \<Rightarrow> nat \<Rightarrow> string list may_panic" where
  "map_reduce_chunks s chunk_tokens =
    (let chunk_chars = (max chunk_tokens 1 * 4) mod 2 ^ 64; cs = utf8_chars s
     in if cs = [] then Returns []
        else if chunk_chars = 0 then Panics
        else Returns (map concat (chunks chunk_chars cs)))"

subsection \<open>Sorting\<close>

lemma mset_insert_by [simp]: "mset (insert_by cmp x ys) = add_mset x (mset ys)"
  by (induction ys) auto

lemma mset_sort_by [simp]: "mset (sort_by cmp xs) = mset xs"
  by (induction xs) (simp_all add: sort_by_def)

lemma set_sort_by [simp]: "set (sort_by cmp xs) = set xs"
  by (metis mset_sort_by set_mset_mset)

text \<open>A comparison that is a total preorder on a set of elements sorts lists of them.\<close>

locale total_comparison =
  fixes cmp :: "'a \<Rightarrow> 'a \<Rightarrow> ordering" and ok :: "'a \<Rightarrow> bool"
  assumes cmp_trans: "ok a \<Longrightarrow> ok b \<Longrightarrow> ok c \<Longrightarrow> cmp a b \<noteq> Greater \<Longrightarrow> cmp b c \<noteq> Greater \<Longrightarrow> cmp a c \<noteq> Greater"
    and cmp_total: "ok a \<Longrightarrow> ok b \<Longrightarrow> cmp a b = Greater \<Longrightarrow> cmp b a \<noteq> Greater"
begin

lemma sorted_insert_by:
  "sorted_wrt (\<lambda>a b. cmp a b \<noteq> Greater) ys \<Longrightarrow> \<forall>y\<in>insert x (set ys). ok y \<Longrightarrow>
    sorted_wrt (\<lambda>a b. cmp a b \<noteq> Greater) (insert_by cmp x ys)"
proof (induction ys)
  case (Cons y ys)
  have set_insert_by: "set (insert_by cmp x ys) = insert x (set ys)"
    by (metis mset_insert_by set_mset_add_mset_insert set_mset_mset)
  show ?case
  proof (cases "cmp x y = Greater")
    case True
    then have "cmp y x \<noteq> Greater" using Cons.prems by (intro cmp_total) auto
    with True Cons show ?thesis by (auto simp: set_insert_by)
  next
    case False
    have "cmp x z \<noteq> Greater" if "z \<in> set ys" for z
      using False Cons.prems that by (intro cmp_trans [of x y z]) auto
    with False Cons.prems show ?thesis by simp
  qed
qed simp

lemma sorted_sort_by: "\<forall>x\<in>set xs. ok x \<Longrightarrow> sorted_wrt (\<lambda>a b. cmp a b \<noteq> Greater) (sort_by cmp xs)"
proof (induction xs)
  case (Cons x xs)
  have "set (foldr (insert_by cmp) xs []) = set xs" using set_sort_by [of cmp xs] by (simp add: sort_by_def)
  with Cons show ?case by (simp add: sort_by_def sorted_insert_by)
qed (simp add: sort_by_def)

end

definition comparable :: "evidence \<Rightarrow> bool" where
  "comparable e \<longleftrightarrow> ev_relevance e \<noteq> NaN \<and> density e \<noteq> NaN"

lemma partial_cmp_total:
  assumes "a \<noteq> NaN" "b \<noteq> NaN"
  shows "unwrap_or (partial_cmp a b) Equal = (if flt_less a b then Less else if a = b then Equal else Greater)"
  using assms flt_le_total [of a b] flt_le_antisym [of a b] flt_le_refl [of a]
  by (auto simp: partial_cmp_def flt_eq_def flt_less_def)

text \<open>Not greater: the denser first, then the more relevant, then the smaller id.\<close>

lemma pack_cmp_le:
  assumes "comparable a" and "comparable b"
  shows "pack_cmp a b \<noteq> Greater \<longleftrightarrow> flt_less (density b) (density a)
    \<or> density a = density b \<and> (flt_less (ev_relevance b) (ev_relevance a)
        \<or> ev_relevance a = ev_relevance b \<and> ev_id a \<le> ev_id b)"
  using assms
  by (auto simp: pack_cmp_def then_cmp_def id_cmp_def partial_cmp_total comparable_def flt_less_def)

lemma flt_less_trans: "flt_less a b \<Longrightarrow> flt_less b c \<Longrightarrow> flt_less a c"
  unfolding flt_less_def using flt_le_trans by blast

lemma flt_less_linear: "a \<noteq> NaN \<Longrightarrow> b \<noteq> NaN \<Longrightarrow> flt_less a b \<or> a = b \<or> flt_less b a"
  unfolding flt_less_def using flt_le_total flt_le_antisym by blast

interpretation pack: total_comparison pack_cmp comparable
proof unfold_locales
  fix a b c
  assume ok: "comparable a" "comparable b" "comparable c"
    and "pack_cmp a b \<noteq> Greater" "pack_cmp b c \<noteq> Greater"
  then show "pack_cmp a c \<noteq> Greater"
    using flt_less_trans by (auto simp: pack_cmp_le)
next
  fix a b
  assume ok: "comparable a" "comparable b" and "pack_cmp a b = Greater"
  with pack_cmp_le [OF ok] show "pack_cmp b a \<noteq> Greater"
    unfolding pack_cmp_le [OF ok(2,1)]
    using ok flt_less_linear [of "density a" "density b"]
      flt_less_linear [of "ev_relevance a" "ev_relevance b"]
    by (auto simp: comparable_def)
qed

subsection \<open>Packing\<close>

definition pack_inv :: "nat \<Rightarrow> evidence list \<Rightarrow> pack_result \<Rightarrow> bool" where
  "pack_inv budget done r \<longleftrightarrow> mset (pr_included r @ pr_dropped r) = mset done
     \<and> subseq (pr_included r) done \<and> pr_used_tokens r = sum_list (map ev_tokens (pr_included r))
     \<and> pr_used_tokens r \<le> budget \<and> list_all (\<lambda>d. budget < pr_used_tokens r + ev_tokens d) (pr_dropped r)"

lemma pack_item_inv: "pack_inv budget done r \<Longrightarrow> pack_inv budget (done @ [x]) (pack_item budget r x)"
  by (auto simp: pack_inv_def pack_item_def list_all_iff intro: list_emb_append_mono)

lemma pack_items_inv:
  "pack_inv budget done r \<Longrightarrow> pack_inv budget (done @ xs) (foldl (pack_item budget) r xs)"
proof (induction xs arbitrary: "done" r)
  case (Cons x xs)
  from Cons.IH [OF pack_item_inv [OF Cons.prems]] show ?case by simp
qed simp

lemma pack_inv_pack: "pack_inv (available b) (sort_by pack_cmp items) (pack b items)"
proof -
  have "pack_inv (available b) [] \<lparr> pr_included = [], pr_dropped = [], pr_used_tokens = 0 \<rparr>"
    by (simp add: pack_inv_def)
  from pack_items_inv [OF this] show ?thesis by (simp add: pack_def)
qed

lemma subseq_set_subset: "subseq xs ys \<Longrightarrow> set xs \<subseteq> set ys"
  by (induction rule: list_emb.induct) auto

lemma sorted_wrt_subseq: "subseq xs ys \<Longrightarrow> sorted_wrt P ys \<Longrightarrow> sorted_wrt P xs"
  by (induction rule: list_emb.induct) (auto dest: subseq_set_subset)

subsection \<open>Chunks\<close>

lemma concat_chunks: "0 < k \<Longrightarrow> concat (chunks k xs) = xs"
proof (induction k xs rule: chunks.induct)
  case (1 k xs)
  then show ?case by (subst chunks.simps) auto
qed

text \<open>A list of characters whose concatenation splits into them again.\<close>

definition char_list :: "string list \<Rightarrow> bool" where
  "char_list gs \<longleftrightarrow> utf8_chars (concat gs) = gs"

lemma char_list_Nil [simp]: "char_list []"
  by (simp add: char_list_def)

lemma char_list_utf8: "char_list (utf8_chars s)"
  by (simp add: char_list_def)

lemma char_list_Cons:
  "char_list (g # gs) \<longleftrightarrow> (\<exists>c cs. g = c # cs \<and> list_all is_cont cs) \<and> char_list gs
    \<and> (concat gs \<noteq> [] \<longrightarrow> \<not> is_cont (hd (concat gs)))"
proof
  assume l: "char_list (g # gs)"
  then have ne: "concat (g # gs) \<noteq> []" unfolding char_list_def by (metis list.distinct(1) utf8_chars_eq_Nil)
  then obtain c r where cr: "concat (g # gs) = c # r" by (cases "concat (g # gs)") auto
  with l have g: "g = c # takeWhile is_cont r" and gs: "gs = utf8_chars (dropWhile is_cont r)"
    by (auto simp: char_list_def)
  then have "concat gs = dropWhile is_cont r" by simp
  with g gs show "(\<exists>c cs. g = c # cs \<and> list_all is_cont cs) \<and> char_list gs
      \<and> (concat gs \<noteq> [] \<longrightarrow> \<not> is_cont (hd (concat gs)))"
    by (auto simp: char_list_def list_all_iff hd_dropWhile dest: set_takeWhileD)
next
  assume r: "(\<exists>c cs. g = c # cs \<and> list_all is_cont cs) \<and> char_list gs
      \<and> (concat gs \<noteq> [] \<longrightarrow> \<not> is_cont (hd (concat gs)))"
  then obtain c cs where g: "g = c # cs" "\<forall>x\<in>set cs. is_cont x" by (auto simp: list_all_iff)
  have "takeWhile is_cont (cs @ t) = cs \<and> dropWhile is_cont (cs @ t) = t"
    if "t \<noteq> [] \<longrightarrow> \<not> is_cont (hd t)" for t
    using g(2) that by (induction cs) (cases t, auto)
  then have "takeWhile is_cont (cs @ concat gs) = cs \<and> dropWhile is_cont (cs @ concat gs) = concat gs"
    using r by blast
  with r g show "char_list (g # gs)" by (simp add: char_list_def)
qed

lemma char_list_drop: "char_list gs \<Longrightarrow> char_list (drop k gs)"
  by (induction gs arbitrary: k) (auto simp: char_list_Cons drop_Cons' )

lemma char_list_take: "char_list gs \<Longrightarrow> char_list (take k gs)"
proof (induction gs arbitrary: k)
  case (Cons g gs)
  show ?case
  proof (cases k)
    case (Suc j)
    have "hd (concat (take j gs)) = hd (concat gs)" if "concat (take j gs) \<noteq> []"
      using that by (metis append_take_drop_id concat_append hd_append2)
    moreover have "concat gs \<noteq> []" if "concat (take j gs) \<noteq> []"
      using that by (metis append_is_Nil_conv append_take_drop_id concat_append)
    ultimately show ?thesis using Cons Suc by (auto simp: char_list_Cons)
  qed simp
qed simp

lemma chunks_char_list: "char_list gs \<Longrightarrow> list_all (\<lambda>c. char_list c \<and> c \<noteq> [] \<and> length c \<le> k) (chunks k gs)"
proof (induction k gs rule: chunks.induct)
  case (1 k gs)
  then show ?case by (subst chunks.simps) (auto simp: char_list_take char_list_drop)
qed

subsection \<open>Deduplication\<close>

lemma dedup_fold:
  assumes "foldl (dedup_step sim th) (reps, n) items = (reps', n')"
  shows "length reps' + n' = length reps + n + length items \<and> set reps' \<subseteq> set reps \<union> set items"
  using assms
proof (induction items arbitrary: reps n)
  case (Cons x xs)
  obtain r1 n1 where s: "dedup_step sim th (reps, n) x = (r1, n1)" by (cases "dedup_step sim th (reps, n) x")
  have "length r1 + n1 = Suc (length reps + n)" "set r1 \<subseteq> insert x (set reps)"
    using s set_update_subset_insert by (fastforce simp: dedup_step_def split: option.splits if_splits)+
  moreover have "length reps' + n' = length r1 + n1 + length xs \<and> set reps' \<subseteq> set r1 \<union> set xs"
    using Cons s by auto
  ultimately show ?case by auto
qed simp

subsection \<open>Properties\<close>

text \<open>
  packing is a maximal choice within the budget. The included and dropped evidence together are the given
  evidence, nothing lost or duplicated; the tokens used are the sum over the included evidence
  and at most the window less the reserved output; and no dropped item would still fit.
\<close>

theorem pack_maximal:
  "let r = pack b items in
     mset (pr_included r @ pr_dropped r) = mset items
   \<and> pr_used_tokens r = sum_list (map ev_tokens (pr_included r))
   \<and> pr_used_tokens r \<le> tb_window b - tb_reserved_output b
   \<and> list_all (\<lambda>d. tb_window b - tb_reserved_output b < pr_used_tokens r + ev_tokens d) (pr_dropped r)"
  using pack_inv_pack [of b items] unfolding Let_def pack_inv_def available_def mset_sort_by by blast

text \<open>
  packing is deterministic and takes evidence in the documented order. If no relevance or density is
  NaN, the included evidence is ordered by decreasing density, then decreasing relevance, then id.
\<close>

theorem pack_ordered:
  assumes "list_all comparable items"
  shows "sorted_wrt (\<lambda>x y. flt_less (density y) (density x) \<or> density x = density y
      \<and> (flt_less (ev_relevance y) (ev_relevance x) \<or> ev_relevance x = ev_relevance y \<and> ev_id x \<le> ev_id y))
    (pr_included (pack b items))"
proof -
  let ?is = "pr_included (pack b items)"
  have ok: "\<forall>x\<in>set items. comparable x" using assms by (simp add: list_all_iff)
  have sub: "subseq ?is (sort_by pack_cmp items)" using pack_inv_pack [of b items] by (simp add: pack_inv_def)
  then have s: "sorted_wrt (\<lambda>x y. pack_cmp x y \<noteq> Greater) ?is"
    by (rule sorted_wrt_subseq) (rule pack.sorted_sort_by [OF ok])
  have c: "comparable x" if "x \<in> set ?is" for x
    using ok that subseq_set_subset [OF sub] by auto
  show ?thesis
    by (rule sorted_wrt_mono_rel [OF _ s]) (use c pack_cmp_le in blast)
qed

theorem pack_ordered_witness:
  "sorted_wrt (\<lambda>x y. flt_less (density y) (density x) \<or> density x = density y
      \<and> (flt_less (ev_relevance y) (ev_relevance x) \<or> ev_relevance x = ev_relevance y \<and> ev_id x \<le> ev_id y))
    (pr_included (pack \<lparr> tb_model = ''m'', tb_window = 4, tb_reserved_output = 1 \<rparr>
      [evidence_new 2 EvLog [] (Fin 0), evidence_new 1 EvFinding [] (Fin 1)]))"
  by (rule pack_ordered) (simp add: evidence_new_def comparable_def density_def clamp01_def flt_less_def estimate_tokens_def)

text \<open>
  splitting a text into chunks loses nothing and respects the chunk size: for a chunk size below
  \<open>2 ^ 62\<close> tokens the chunks are returned (no panic), concatenate to the text, are not empty, and are each
  estimated at no more than the chunk size, or one token if that is zero.
\<close>

theorem chunks_round_trip:
  assumes "n < 2 ^ 62"
  shows "\<exists>cs. map_reduce_chunks s n = Returns cs \<and> concat cs = s
    \<and> list_all (\<lambda>c. c \<noteq> [] \<and> estimate_tokens c \<le> max n 1) cs"
proof (cases "s = []")
  case True
  then show ?thesis by (simp add: map_reduce_chunks_def Let_def)
next
  case False
  let ?k = "max n 1 * 4"
  have k: "?k mod 2 ^ 64 = ?k" using assms by simp
  let ?cs = "map concat (chunks ?k (utf8_chars s))"
  have "map_reduce_chunks s n = Returns ?cs" using False k by (simp add: map_reduce_chunks_def Let_def)
  moreover have "concat ?cs = s"
  proof -
    have "concat (map concat xss) = concat (concat xss)" for xss :: "string list list"
      by (induction xss) simp_all
    then show ?thesis using concat_chunks [of ?k "utf8_chars s"] by simp
  qed
  moreover have "list_all (\<lambda>c. c \<noteq> [] \<and> estimate_tokens c \<le> max n 1) ?cs"
  proof -
    have "concat c \<noteq> [] \<and> estimate_tokens (concat c) \<le> max n 1"
      if "char_list c" "c \<noteq> []" "length c \<le> ?k" for c
    proof -
      have "concat c \<noteq> []" using that(1,2) unfolding char_list_def by (metis utf8_chars_eq_Nil)
      moreover have "estimate_tokens (concat c) \<le> max n 1" using that(1,3) by (simp add: estimate_tokens_def char_list_def)
      ultimately show ?thesis by blast
    qed
    then show ?thesis
      using chunks_char_list [OF char_list_utf8, of ?k s] by (auto simp: list_all_iff)
  qed
  ultimately show ?thesis by blast
qed

theorem chunks_round_trip_witness:
  "\<exists>cs. map_reduce_chunks ''hello world'' 1 = Returns cs \<and> concat cs = ''hello world''"
  using chunks_round_trip [of 1 "''hello world''"] by auto

end
