(* ===== verification/Runtime.thy ===== *)
theory Runtime
  imports Core Floats
begin

text \<open>
  The value types of \<open>secureops-core/src/runtime.rs\<close> that cross between the monitors, the kernel
  enforcement point and the daemon.
\<close>

record monitor_alert =
  ma_timestamp :: string
  ma_severity :: severity
  ma_monitor :: string
  ma_message :: string
  ma_details :: "string option"

record monitor_status =
  mst_running :: bool
  mst_last_check :: "string option"
  mst_alerts :: "monitor_alert list"

record cost_entry =
  ce_timestamp :: string
  ce_model :: string
  ce_input_tokens :: u64
  ce_output_tokens :: u64
  ce_estimated_cost_usd :: f64

record cost_projection =
  cp_daily :: f64
  cp_monthly :: f64

record cost_report =
  cr_hourly :: f64
  cr_daily :: f64
  cr_monthly :: f64
  cr_projection :: cost_projection
  cr_circuit_breaker_tripped :: bool
  cr_entries :: "cost_entry list"

record skill_scan_result =
  ssr_safe :: bool
  ssr_skill_name :: string
  ssr_findings :: "string list"
  ssr_dangerous_patterns :: "string list"
  ssr_ioc_matches :: "string list"

record behavioral_baseline =
  bb_tool_call_frequency :: "(string, u64) hmap"
  bb_typical_tools :: "string list"
  bb_typical_data_paths :: "string list"
  bb_window_minutes :: u64
  bb_last_updated :: string

end
