(* ===== verification/Kernel.thy ===== *)
theory Kernel
  imports Runtime
begin

text \<open>
  The kernel enforcement point, \<open>secureops-bpf/src\<close>: syscall events (\<open>lib.rs\<close>), the correlation of
  secret reads with connections (\<open>chain.rs\<close>) and the learned seccomp allowlist (\<open>seccomp.rs\<close>).

  The eBPF and Endpoint Security loaders are platform code and not modelled; the clock is an argument.

  The lemmas characterise detection over whole event histories: a connection completes a chain exactly when
  the last relevant event of its process was a secret read inside the window, whatever other
  processes do and whenever the daemon prunes; and the emitted profile allows exactly the
  baseline and the observed syscalls.
\<close>

subsection \<open>Syscall events (lib.rs)\<close>

datatype syscall_kind = Openat | Connect | Execve

record sys_event =
  sy_pid :: "32 word"
  sy_comm :: string
  sy_kind :: syscall_kind
  sy_path_or_host :: string

definition is_secret_read :: "sys_event \<Rightarrow> bool" where
  "is_secret_read ev \<longleftrightarrow> sy_kind ev = Openat \<and>
    (let p = sy_path_or_host ev in
       ends_with p ''.env'' \<or> contains p ''/.env'' \<or> contains p ''credentials'' \<or> contains p ''id_rsa''
     \<or> contains p ''id_ed25519'' \<or> contains p ''.pem'' \<or> contains p ''secret'' \<or> contains p ''password''
     \<or> contains p ''Keychains'' \<or> contains p ''.aws'' \<or> contains p ''canary'')"

definition is_unknown_connect :: "sys_event \<Rightarrow> bool" where
  "is_unknown_connect ev = False"

definition ev_maestro_layer :: "sys_event \<Rightarrow> maestro_layer" where
  "ev_maestro_layer ev = L4"

definition ev_nist_attack_type :: "sys_event \<Rightarrow> nist_attack_type" where
  "ev_nist_attack_type ev = Evasion"

definition chain_match_severity :: "sys_event \<Rightarrow> severity" where
  "chain_match_severity ev = Critical"

subsection \<open>Exfiltration chains (chain.rs)\<close>

definition default_ttl_ms :: u64 where "default_ttl_ms = 500"

record exfil_chain =
  xc_pid :: "32 word"
  xc_comm :: string
  xc_cred_path :: string
  xc_dest :: string
  xc_gap_ms :: u64

text \<open>\<open>dbg\<close> is the standard library's \<open>{:?}\<close> of a string, \<open>now\<close> the result of \<open>now_iso\<close>.\<close>

definition to_alert :: "(string \<Rightarrow> string) \<Rightarrow> string \<Rightarrow> exfil_chain \<Rightarrow> monitor_alert" where
  "to_alert dbg now c = \<lparr> ma_timestamp = now, ma_severity = Critical, ma_monitor = ''ebpf-chain'',
     ma_message = ''exfil chain: pid '' @ show_int (sint (xc_pid c)) @ '' ('' @ xc_comm c @ '') read ''
        @ xc_cred_path c @ '' then dialed '' @ xc_dest c @ '' ('' @ show_nat (unat (xc_gap_ms c)) @ ''ms apart)'',
     ma_details = Some (''{'' @ [CHR 0x22] @ ''pid'' @ [CHR 0x22] @ '':'' @ show_int (sint (xc_pid c))
        @ '','' @ [CHR 0x22] @ ''comm'' @ [CHR 0x22] @ '':'' @ dbg (xc_comm c)
        @ '','' @ [CHR 0x22] @ ''credPath'' @ [CHR 0x22] @ '':'' @ dbg (xc_cred_path c)
        @ '','' @ [CHR 0x22] @ ''dest'' @ [CHR 0x22] @ '':'' @ dbg (xc_dest c)
        @ '','' @ [CHR 0x22] @ ''gapMs'' @ [CHR 0x22] @ '':'' @ show_nat (unat (xc_gap_ms c)) @ ''}'') \<rparr>"

record pid_state =
  ps_cred_path :: string
  ps_comm :: string
  ps_opened_at_ms :: u64

record chain_correlator =
  cc_ttl_ms :: u64
  cc_states :: "(32 word, pid_state) hmap"

definition correlator_new :: "u64 \<Rightarrow> chain_correlator" where
  "correlator_new ttl = \<lparr> cc_ttl_ms = ttl, cc_states = [] \<rparr>"

definition with_default_ttl :: chain_correlator where
  "with_default_ttl = correlator_new default_ttl_ms"

definition observe_at :: "sys_event \<Rightarrow> u64 \<Rightarrow> chain_correlator \<Rightarrow> exfil_chain option \<times> chain_correlator" where
  "observe_at ev now_ms c =
    (case sy_kind ev of
       Openat \<Rightarrow>
         if is_secret_read ev
         then (None, c\<lparr>cc_states := hm_insert (sy_pid ev) \<lparr> ps_cred_path = sy_path_or_host ev,
                 ps_comm = sy_comm ev, ps_opened_at_ms = now_ms \<rparr> (cc_states c)\<rparr>)
         else (None, c)
     | Connect \<Rightarrow>
         (case hm_get (cc_states c) (sy_pid ev) of
            None \<Rightarrow> (None, c)
          | Some st \<Rightarrow>
              let c' = c\<lparr>cc_states := hm_remove (sy_pid ev) (cc_states c)\<rparr>;
                  gap = saturating_sub now_ms (ps_opened_at_ms st)
              in if gap \<le> cc_ttl_ms c
                 then (Some \<lparr> xc_pid = sy_pid ev, xc_comm = ps_comm st, xc_cred_path = ps_cred_path st,
                         xc_dest = sy_path_or_host ev, xc_gap_ms = gap \<rparr>, c')
                 else (None, c'))
     | Execve \<Rightarrow>
         (case hm_get (cc_states c) (sy_pid ev) of
            None \<Rightarrow> (None, c)
          | Some st \<Rightarrow> (None, c\<lparr>cc_states :=
              hm_insert (sy_pid ev) (st\<lparr>ps_comm := sy_comm ev\<rparr>) (cc_states c)\<rparr>)))"

definition prune :: "u64 \<Rightarrow> chain_correlator \<Rightarrow> chain_correlator" where
  "prune now_ms c = c\<lparr>cc_states :=
     hm_retain (\<lambda>_ st. saturating_sub now_ms (ps_opened_at_ms st) \<le> cc_ttl_ms c) (cc_states c)\<rparr>"

definition tracked :: "chain_correlator \<Rightarrow> nat" where
  "tracked c = hm_len (cc_states c)"

datatype enforcement_mode = Observe | Enforce
datatype chain_action = AlertEscalate | DenyConnect

definition decide_chain :: "enforcement_mode \<Rightarrow> exfil_chain \<Rightarrow> chain_action" where
  "decide_chain m c = (case m of Observe \<Rightarrow> AlertEscalate | Enforce \<Rightarrow> DenyConnect)"

subsection \<open>Learned seccomp profiles (seccomp.rs)\<close>

definition baseline_syscalls :: "string list" where
  "baseline_syscalls = [''read'', ''write'', ''close'', ''fstat'', ''mmap'', ''munmap'', ''mprotect'', ''brk'',
     ''rt_sigaction'', ''rt_sigprocmask'', ''rt_sigreturn'', ''sigaltstack'', ''exit'', ''exit_group'',
     ''futex'', ''clock_gettime'', ''clock_nanosleep'', ''getpid'', ''gettid'', ''nanosleep'',
     ''sched_yield'', ''restart_syscall'']"

record seccomp_rule =
  sr_names :: "string list"
  sr_action :: string

record seccomp_profile =
  sp_default_action :: string
  sp_architectures :: "string list"
  sp_syscalls :: "seccomp_rule list"

text \<open>The recorder is its \<open>BTreeSet\<close>, the sorted list of the observed names.\<close>

type_synonym syscall_recorder = "string list"

definition sc_record :: "string \<Rightarrow> syscall_recorder \<Rightarrow> syscall_recorder" where
  "sc_record name r = bt_insert name r"

definition sc_record_event :: "sys_event \<Rightarrow> syscall_recorder \<Rightarrow> syscall_recorder" where
  "sc_record_event ev r = sc_record
     (case sy_kind ev of Openat \<Rightarrow> ''openat'' | Connect \<Rightarrow> ''connect'' | Execve \<Rightarrow> ''execve'') r"

definition sc_emit :: "syscall_recorder \<Rightarrow> seccomp_profile" where
  "sc_emit r =
    (let base = foldl (\<lambda>s n. bt_insert n s) [] baseline_syscalls;
         names = foldl (\<lambda>s n. bt_insert n s) base r
     in \<lparr> sp_default_action = ''SCMP_ACT_ERRNO'',
          sp_architectures = [''SCMP_ARCH_X86_64'', ''SCMP_ARCH_AARCH64''],
          sp_syscalls = [\<lparr> sr_names = names, sr_action = ''SCMP_ACT_ALLOW'' \<rparr>] \<rparr>)"

subsection \<open>Histories\<close>

text \<open>What the daemon feeds to a correlator: an event or a pruning, each at a time.\<close>

datatype feed = Ev sys_event u64 | Prune u64

fun feed_time :: "feed \<Rightarrow> u64" where
  "feed_time (Ev _ t) = t"
| "feed_time (Prune t) = t"

fun feed_step :: "feed \<Rightarrow> chain_correlator \<Rightarrow> exfil_chain option \<times> chain_correlator" where
  "feed_step (Ev ev t) c = observe_at ev t c"
| "feed_step (Prune t) c = (None, prune t c)"

definition feed_all :: "feed list \<Rightarrow> chain_correlator \<Rightarrow> chain_correlator" where
  "feed_all fs c = foldl (\<lambda>c f. snd (feed_step f c)) c fs"

text \<open>
  The specification: the pending secret read of a process after a history, the last of its secret
  reads that no connection of the process has consumed, with the command name of the last \<open>execve\<close> since.
\<close>

fun pending_step :: "32 word \<Rightarrow> feed \<Rightarrow> pid_state option \<Rightarrow> pid_state option" where
  "pending_step pid (Prune t) s = s"
| "pending_step pid (Ev ev t) s =
    (if sy_pid ev \<noteq> pid then s
     else case sy_kind ev of
         Openat \<Rightarrow> if is_secret_read ev
           then Some \<lparr> ps_cred_path = sy_path_or_host ev, ps_comm = sy_comm ev, ps_opened_at_ms = t \<rparr> else s
       | Connect \<Rightarrow> None
       | Execve \<Rightarrow> map_option (\<lambda>st. st\<lparr>ps_comm := sy_comm ev\<rparr>) s)"

definition pending :: "32 word \<Rightarrow> feed list \<Rightarrow> pid_state option" where
  "pending pid fs = foldl (\<lambda>s f. pending_step pid f s) None fs"

definition fresh :: "u64 \<Rightarrow> u64 \<Rightarrow> pid_state \<Rightarrow> bool" where
  "fresh ttl now st \<longleftrightarrow> unat now - unat (ps_opened_at_ms st) \<le> unat ttl"

text \<open>The correlator agrees with the specification on every read that is still fresh.\<close>

definition tracks :: "chain_correlator \<Rightarrow> u64 \<Rightarrow> u64 \<Rightarrow> feed list \<Rightarrow> bool" where
  "tracks c ttl now fs \<longleftrightarrow> cc_ttl_ms c = ttl \<and> hm_ok (cc_states c) \<and> (\<forall>pid.
     hm_get (cc_states c) pid = pending pid fs
     \<or> hm_get (cc_states c) pid = None \<and> (\<exists>st. pending pid fs = Some st \<and> \<not> fresh ttl now st))"

lemma fresh_iff: "saturating_sub now (ps_opened_at_ms st) \<le> ttl \<longleftrightarrow> fresh ttl now st"
  by (simp add: fresh_def word_le_nat_alt unat_saturating_sub)

lemma fresh_antimono: "now \<le> later \<Longrightarrow> \<not> fresh ttl now st \<Longrightarrow> \<not> fresh ttl later st"
  by (simp add: fresh_def word_le_nat_alt)

lemma pending_snoc: "pending pid (fs @ [f]) = pending_step pid f (pending pid fs)"
  by (simp add: pending_def)

lemma tracks_later:
  assumes "tracks c ttl now fs" and "now \<le> later"
  shows "tracks c ttl later fs"
  using assms fresh_antimono [OF assms(2)] unfolding tracks_def by blast

lemma tracks_new: "tracks (correlator_new ttl) ttl now []"
  by (simp add: tracks_def correlator_new_def pending_def hm_simps)

lemma tracks_prune:
  assumes "tracks c ttl t fs"
  shows "tracks (prune t c) ttl t (fs @ [Prune t])"
proof -
  have "hm_get (cc_states (prune t c)) pid = pending pid (fs @ [Prune t])
     \<or> hm_get (cc_states (prune t c)) pid = None \<and> (\<exists>st. pending pid (fs @ [Prune t]) = Some st \<and> \<not> fresh ttl t st)"
    for pid
  proof -
    have "hm_get (cc_states c) pid = pending pid fs
       \<or> hm_get (cc_states c) pid = None \<and> (\<exists>st. pending pid fs = Some st \<and> \<not> fresh ttl t st)"
      and "cc_ttl_ms c = ttl" "hm_ok (cc_states c)"
      using assms by (simp_all add: tracks_def)
    then show ?thesis
      by (cases "pending pid fs") (auto simp: prune_def hm_simps pending_snoc fresh_iff)
  qed
  then show ?thesis using assms by (simp add: tracks_def prune_def hm_simps)
qed

lemma tracks_observe:
  assumes "tracks c ttl t fs"
  shows "tracks (snd (observe_at ev t c)) ttl t (fs @ [Ev ev t])"
proof -
  have c: "cc_ttl_ms c = ttl" "hm_ok (cc_states c)" using assms by (simp_all add: tracks_def)
  have p: "hm_get (cc_states c) pid = pending pid fs
     \<or> hm_get (cc_states c) pid = None \<and> (\<exists>st. pending pid fs = Some st \<and> \<not> fresh ttl t st)" for pid
    using assms by (simp add: tracks_def)
  have "hm_get (cc_states (snd (observe_at ev t c))) pid = pending pid (fs @ [Ev ev t])
     \<or> hm_get (cc_states (snd (observe_at ev t c))) pid = None
       \<and> (\<exists>st. pending pid (fs @ [Ev ev t]) = Some st \<and> \<not> fresh ttl t st)" for pid
  proof (cases "sy_kind ev")
    case Openat
    with p [of pid] c show ?thesis by (auto simp: observe_at_def pending_snoc hm_simps)
  next
    case Connect
    with p [of pid] c show ?thesis
      by (cases "hm_get (cc_states c) (sy_pid ev)") (auto simp: observe_at_def pending_snoc hm_simps Let_def)
  next
    case Execve
    have "fresh ttl t (st\<lparr>ps_comm := x\<rparr>) = fresh ttl t st" for st x by (simp add: fresh_def)
    with Execve p [of pid] c show ?thesis
      by (cases "hm_get (cc_states c) (sy_pid ev)") (auto simp: observe_at_def pending_snoc hm_simps)
  qed
  moreover have "cc_ttl_ms (snd (observe_at ev t c)) = ttl \<and> hm_ok (cc_states (snd (observe_at ev t c)))"
    using c by (cases "sy_kind ev"; cases "hm_get (cc_states c) (sy_pid ev)")
      (auto simp: observe_at_def hm_simps Let_def)
  ultimately show ?thesis by (simp add: tracks_def)
qed

lemma tracks_feed:
  assumes "sorted (map feed_time (fs @ [f]))" and "tracks c ttl t fs" and "t \<le> feed_time f"
  shows "tracks (snd (feed_step f c)) ttl (feed_time f) (fs @ [f])"
  using tracks_later [OF assms(2,3)] by (cases f) (simp_all add: tracks_prune tracks_observe)

lemma tracks_all:
  "sorted (map feed_time fs) \<Longrightarrow> (\<forall>f\<in>set fs. feed_time f \<le> now) \<Longrightarrow>
    tracks (feed_all fs (correlator_new ttl)) ttl now fs"
proof (induction fs arbitrary: now rule: rev_induct)
  case Nil
  then show ?case by (simp add: feed_all_def tracks_new)
next
  case (snoc f fs)
  have "tracks (feed_all fs (correlator_new ttl)) ttl (feed_time f) fs"
    using snoc.prems by (intro snoc.IH) (auto simp: sorted_append)
  then have "tracks (snd (feed_step f (feed_all fs (correlator_new ttl)))) ttl (feed_time f) (fs @ [f])"
    using snoc.prems by (intro tracks_feed) auto
  then show ?case
    using tracks_later snoc.prems(2) by (auto simp: feed_all_def)
qed

lemma foldl_bt_insert:
  "set (foldl (\<lambda>s n. bt_insert n s) s ns) = set s \<union> set ns
    \<and> (sorted s \<and> distinct s \<longrightarrow> sorted (foldl (\<lambda>s n. bt_insert n s) s ns) \<and> distinct (foldl (\<lambda>s n. bt_insert n s) s ns))"
  by (induction ns arbitrary: s) (auto simp: sorted_bt_insert distinct_bt_insert)

subsection \<open>Properties\<close>

text \<open>
  C11: exfiltration chains are detected exactly. After any chronological history of events and prunings,
  a connection of a process completes a chain if and only if the process has a pending secret read
  (its last one, not consumed by an earlier connection) at most the window ago; the chain names the process,
  the secret, the destination and the gap. Events of other processes and pruning make no difference.
\<close>

theorem chain_detected_iff:
  assumes "sorted (map feed_time fs)" and "\<forall>f\<in>set fs. feed_time f \<le> now" and "sy_kind ev = Connect"
  shows "fst (observe_at ev now (feed_all fs (correlator_new ttl))) =
    (case pending (sy_pid ev) fs of
       Some st \<Rightarrow> if unat now - unat (ps_opened_at_ms st) \<le> unat ttl
         then Some \<lparr> xc_pid = sy_pid ev, xc_comm = ps_comm st, xc_cred_path = ps_cred_path st,
           xc_dest = sy_path_or_host ev, xc_gap_ms = saturating_sub now (ps_opened_at_ms st) \<rparr>
         else None
     | None \<Rightarrow> None)"
proof -
  let ?c = "feed_all fs (correlator_new ttl)"
  have "cc_ttl_ms ?c = ttl" and "hm_get (cc_states ?c) (sy_pid ev) = pending (sy_pid ev) fs
     \<or> hm_get (cc_states ?c) (sy_pid ev) = None \<and> (\<exists>st. pending (sy_pid ev) fs = Some st \<and> \<not> fresh ttl now st)"
    using tracks_all [OF assms(1,2), of ttl] by (simp_all add: tracks_def)
  then show ?thesis
    using assms(3)
    by (cases "pending (sy_pid ev) fs") (auto simp: observe_at_def Let_def fresh_iff, simp_all add: fresh_def)
qed

definition demo_open :: sys_event where
  "demo_open = \<lparr> sy_pid = 42, sy_comm = ''agent'', sy_kind = Openat, sy_path_or_host = ''/home/a/.env'' \<rparr>"

definition demo_dial :: sys_event where
  "demo_dial = \<lparr> sy_pid = 42, sy_comm = ''agent'', sy_kind = Connect, sy_path_or_host = ''203.0.113.7:443'' \<rparr>"

theorem chain_detected_iff_witness:
  "fst (observe_at demo_dial 200 (feed_all [Ev demo_open 0, Prune 100] (correlator_new 500))) =
    Some \<lparr> xc_pid = 42, xc_comm = ''agent'', xc_cred_path = ''/home/a/.env'', xc_dest = ''203.0.113.7:443'',
      xc_gap_ms = 200 \<rparr>"
proof -
  have "is_secret_read demo_open" by (simp add: is_secret_read_def demo_open_def)
  then have "pending 42 [Ev demo_open 0, Prune 100]
      = Some \<lparr> ps_cred_path = ''/home/a/.env'', ps_comm = ''agent'', ps_opened_at_ms = 0 \<rparr>"
    by (simp add: pending_def) (simp add: demo_open_def)
  then show ?thesis
    using chain_detected_iff [of "[Ev demo_open 0, Prune 100]" 200 demo_dial 500]
    by (simp add: demo_dial_def saturating_sub_def)
qed

text \<open>
  the emitted seccomp profile is the least one: its single allow rule lists, sorted and without
  duplicates, exactly the baseline and the syscalls recorded since the recorder was created, by name or from
  events; everything else is refused.
\<close>

theorem seccomp_least_profile:
  "let p = sc_emit (foldl (\<lambda>r n. sc_record n r) (foldl (\<lambda>r ev. sc_record_event ev r) [] evs) names) in
     (case sp_syscalls p of
        [rule] \<Rightarrow> sorted (sr_names rule) \<and> distinct (sr_names rule) \<and> sr_action rule = ''SCMP_ACT_ALLOW''
          \<and> set (sr_names rule) = set baseline_syscalls \<union> set names
              \<union> (\<lambda>ev. case sy_kind ev of Openat \<Rightarrow> ''openat'' | Connect \<Rightarrow> ''connect'' | Execve \<Rightarrow> ''execve'') ` set evs
      | _ \<Rightarrow> False)
   \<and> sp_default_action p = ''SCMP_ACT_ERRNO''"
proof -
  let ?name = "\<lambda>ev. case sy_kind ev of Openat \<Rightarrow> ''openat'' | Connect \<Rightarrow> ''connect'' | Execve \<Rightarrow> ''execve''"
  have "foldl (\<lambda>r ev. sc_record_event ev r) s evs = foldl (\<lambda>s n. bt_insert n s) s (map ?name evs)" for s
    by (induction evs arbitrary: s) (simp_all add: sc_record_event_def sc_record_def)
  moreover have "foldl (\<lambda>r n. sc_record n r) s names = foldl (\<lambda>s n. bt_insert n s) s names" for s
    by (simp add: sc_record_def)
  ultimately show ?thesis by (auto simp: sc_emit_def Let_def foldl_bt_insert)
qed

end
