(* ===== verification/Http.thy ===== *)
theory Http
  imports Json RustStr
begin

text \<open>
  The part of the HTTP vocabulary (\<open>axum\<close>/\<open>http\<close>) the services use: a header map as the list
  of its lower-cased names and values, the lookup of the first value, \<open>HeaderValue::to_str\<close>, and
  a response of a status code, headers and a JSON body.
\<close>

type_synonym header_map = "(string \<times> string) list"

definition header_get :: "header_map \<Rightarrow> string \<Rightarrow> string option" where
  "header_get headers name = map_of headers name"

definition visible_ascii :: "char \<Rightarrow> bool" where
  "visible_ascii c \<longleftrightarrow> (32 \<le> char_code c \<and> char_code c < 127) \<or> char_code c = 9"

definition header_to_str :: "string \<Rightarrow> string option" where
  "header_to_str v = (if list_all visible_ascii v then Some v else None)"

definition header_str :: "header_map \<Rightarrow> string \<Rightarrow> string option" where
  "header_str headers name = Option.bind (header_get headers name) header_to_str"

record http_response =
  hr_status :: nat
  hr_headers :: header_map
  hr_body :: json

definition json_response :: "nat \<Rightarrow> json \<Rightarrow> http_response" where
  "json_response status body = \<lparr> hr_status = status, hr_headers = [], hr_body = body \<rparr>"

lemma json_response_simps [simp]:
  "hr_status (json_response s b) = s" "hr_body (json_response s b) = b"
  "hr_headers (json_response s b) = []"
  by (simp_all add: json_response_def)

lemma header_str_visible: "header_str headers name = Some v \<Longrightarrow> list_all visible_ascii v"
  by (auto simp: header_str_def header_to_str_def bind_eq_Some_conv split: if_splits)

end
