(* ===== verification/License.thy ===== *)
theory License
  imports Http
begin

text \<open>
  License keys (\<open>secureops-api/src/license.rs\<close>) and the license server
  (\<open>secureops-license-server/src/lib.rs\<close>).

  A key is \<open>base64url(payload) "." base64url(signature)\<close>. The base64 engine, Ed25519 and the JSON
  codec of the claims are third-party code: they are the fields of \<open>license_crypto\<close>, and
  \<open>crypto_laws\<close> states what the round trip needs of them. Unix times are integers: the code only
  compares them.

  The server is a step function over its requests; \<open>server_run\<close> is a history of requests with the
  clock reading of each. The lemmas show what a signed key verifies to, what an accepted key
  proves, that \<open>ct_eq\<close> decides equality, and that the answer to a heartbeat is determined by the
  authorised revocations of the history.
\<close>

subsection \<open>License claims and keys\<close>

datatype tier = Community | Pro | Enterprise

record license =
  lic_id :: string
  lic_tenant_id :: string
  lic_tier :: tier
  lic_seats :: u32
  lic_features :: "string list"
  lic_issued :: int
  lic_expiry :: int
  lic_mode :: string
  lic_grace_days :: u32

definition is_expired_at :: "license \<Rightarrow> int \<Rightarrow> bool" where
  "is_expired_at l now_unix \<longleftrightarrow> now_unix > lic_expiry l"

definition license_has_feature :: "license \<Rightarrow> string \<Rightarrow> bool" where
  "license_has_feature l feature = list_ex (\<lambda>f. f = feature) (lic_features l)"

record license_crypto =
  b64_encode :: "string \<Rightarrow> string"
  b64_decode :: "string \<Rightarrow> string option"
  pubkey_from_bytes :: "string \<Rightarrow> string option"
  signature_from_slice :: "string \<Rightarrow> string option"
  sig_verify :: "string \<Rightarrow> string \<Rightarrow> string \<Rightarrow> bool"
  sig_sign :: "string \<Rightarrow> string \<Rightarrow> string"
  license_to_vec :: "license \<Rightarrow> string"
  license_from_slice :: "string \<Rightarrow> license option"

definition license_verify :: "license_crypto \<Rightarrow> string \<Rightarrow> string \<Rightarrow> int \<Rightarrow> string + license" where
  "license_verify cr key pubkey now_unix =
    (case split_once (CHR ''.'') key of None \<Rightarrow> Err ''malformed_key'' | Some (payload_b64, sig_b64) \<Rightarrow>
     case b64_decode cr payload_b64 of None \<Rightarrow> Err ''malformed_key'' | Some payload \<Rightarrow>
     case b64_decode cr sig_b64 of None \<Rightarrow> Err ''malformed_key'' | Some sig_bytes \<Rightarrow>
     case pubkey_from_bytes cr pubkey of None \<Rightarrow> Err ''bad_pubkey'' | Some vk \<Rightarrow>
     case signature_from_slice cr sig_bytes of None \<Rightarrow> Err ''invalid_signature'' | Some sig \<Rightarrow>
     if \<not> sig_verify cr vk payload sig then Err ''invalid_signature'' else
     case license_from_slice cr payload of None \<Rightarrow> Err ''malformed_payload'' | Some lic \<Rightarrow>
     if is_expired_at lic now_unix then Err ''license_expired'' else Ok lic)"

definition license_sign :: "license_crypto \<Rightarrow> license \<Rightarrow> string \<Rightarrow> string" where
  "license_sign cr lic signing_key =
    (let payload = license_to_vec cr lic;
         sig = sig_sign cr signing_key payload
     in b64_encode cr payload @ ''.'' @ b64_encode cr sig)"

subsection \<open>The license server\<close>

record license_server =
  ls_pubkey :: string
  ls_admin_key :: string
  ls_revoked :: "string hset"

definition server_new :: "string \<Rightarrow> string \<Rightarrow> license_server" where
  "server_new pubkey admin_key = \<lparr> ls_pubkey = pubkey, ls_admin_key = admin_key, ls_revoked = [] \<rparr>"

unbundle bit_operations_syntax

definition ct_eq :: "string \<Rightarrow> string \<Rightarrow> bool" where
  "ct_eq a b \<longleftrightarrow> length a = length b \<and>
     foldl (\<lambda>acc (x, y). acc OR (of_char x XOR of_char y)) (0 :: u8) (zip a b) = 0"

record heartbeat_req =
  hb_key :: string
  hb_instance_fingerprint :: "string option"
  hb_version :: "string option"

record revoke_req =
  rv_lic_id :: string
  rv_reason :: "string option"

definition heartbeat :: "license_crypto \<Rightarrow> license_server \<Rightarrow> int \<Rightarrow> heartbeat_req \<Rightarrow> http_response" where
  "heartbeat cr s now_unix req =
    (case license_verify cr (hb_key req) (ls_pubkey s) now_unix of
       Inr lic \<Rightarrow>
         let revoked = hs_contains (ls_revoked s) (lic_id lic);
             status = (if revoked then ''revoked'' else ''active'')
         in json_response 200 (JObj [(''status'', JStr status), (''expiry'', JInt (lic_expiry lic)),
              (''licId'', JStr (lic_id lic))])
     | Inl code \<Rightarrow>
         if code = ''license_expired'' then json_response 200 (JObj [(''status'', JStr ''expired'')])
         else json_response 403 (JObj [(''error'', JStr code)]))"

definition revoke_authorized :: "license_server \<Rightarrow> header_map \<Rightarrow> bool" where
  "revoke_authorized s headers = (case header_str headers ''x-admin-key'' of
     None \<Rightarrow> False | Some k \<Rightarrow> ct_eq k (ls_admin_key s))"

definition revoke ::
  "license_server \<Rightarrow> header_map \<Rightarrow> revoke_req \<Rightarrow> license_server \<times> http_response" where
  "revoke s headers req =
    (if \<not> revoke_authorized s headers
     then (s, json_response 401 (JObj [(''error'', JStr ''unauthorized'')]))
     else (s\<lparr>ls_revoked := hs_insert (rv_lic_id req) (ls_revoked s)\<rparr>,
           json_response 200 (JObj [(''status'', JStr ''revoked''), (''licId'', JStr (rv_lic_id req))])))"

definition server_health :: http_response where
  "server_health = json_response 200 (JObj [(''status'', JStr ''ok'')])"

datatype server_req = GetHealth | PostHeartbeat heartbeat_req | PostRevoke header_map revoke_req

fun server_step ::
  "license_crypto \<Rightarrow> license_server \<Rightarrow> int \<times> server_req \<Rightarrow> license_server \<times> http_response" where
  "server_step cr s (now_unix, GetHealth) = (s, server_health)"
| "server_step cr s (now_unix, PostHeartbeat req) = (s, heartbeat cr s now_unix req)"
| "server_step cr s (now_unix, PostRevoke headers req) = revoke s headers req"

fun server_run :: "license_crypto \<Rightarrow> license_server \<Rightarrow> (int \<times> server_req) list \<Rightarrow> license_server" where
  "server_run cr s [] = s"
| "server_run cr s (r # rs) = server_run cr (fst (server_step cr s r)) rs"

subsection \<open>The key format\<close>

text \<open>
  What the round trip needs of the libraries: decoding inverts encoding, the URL-safe alphabet has no
  dot, the signature bytes parse, a signature made by the signing key verifies under its public key,
  and the claims deserialise to what was serialised.
\<close>

definition crypto_laws :: "license_crypto \<Rightarrow> string \<Rightarrow> string \<Rightarrow> license \<Rightarrow> bool" where
  "crypto_laws cr pubkey signing_key lic \<longleftrightarrow>
     (\<forall>x. b64_decode cr (b64_encode cr x) = Some x \<and> CHR ''.'' \<notin> set (b64_encode cr x)) \<and>
     (\<exists>vk. pubkey_from_bytes cr pubkey = Some vk \<and>
       (\<forall>m. \<exists>sig. signature_from_slice cr (sig_sign cr signing_key m) = Some sig \<and> sig_verify cr vk m sig)) \<and>
     license_from_slice cr (license_to_vec cr lic) = Some lic"

definition key_signed :: "license_crypto \<Rightarrow> string \<Rightarrow> string \<Rightarrow> string \<Rightarrow> bool" where
  "key_signed cr pubkey key payload \<longleftrightarrow> (\<exists>pb sb sig_bytes vk sig. key = pb @ ''.'' @ sb \<and> CHR ''.'' \<notin> set pb \<and>
     b64_decode cr pb = Some payload \<and> b64_decode cr sb = Some sig_bytes \<and>
     pubkey_from_bytes cr pubkey = Some vk \<and> signature_from_slice cr sig_bytes = Some sig \<and>
     sig_verify cr vk payload sig)"

lemma key_signed_split:
  "key_signed cr pubkey key payload \<longleftrightarrow> (\<exists>pb sb sig_bytes vk sig.
     split_once (CHR ''.'') key = Some (pb, sb) \<and>
     b64_decode cr pb = Some payload \<and> b64_decode cr sb = Some sig_bytes \<and>
     pubkey_from_bytes cr pubkey = Some vk \<and> signature_from_slice cr sig_bytes = Some sig \<and>
     sig_verify cr vk payload sig)"
  by (simp add: key_signed_def split_once_Some)

lemma key_signed_unique: "key_signed cr pubkey key p \<Longrightarrow> key_signed cr pubkey key q \<Longrightarrow> p = q"
  by (auto simp: key_signed_split)

text \<open>
  The verdict of \<open>license_verify\<close> in terms of what the key carries: a signed payload or none.
\<close>

lemma verify_signed:
  "key_signed cr pubkey key payload \<Longrightarrow> license_verify cr key pubkey now_unix =
    (case license_from_slice cr payload of None \<Rightarrow> Err ''malformed_payload''
     | Some lic \<Rightarrow> if is_expired_at lic now_unix then Err ''license_expired'' else Ok lic)"
  by (auto simp: key_signed_split license_verify_def)

lemma verify_unsigned:
  "(\<nexists>payload. key_signed cr pubkey key payload) \<Longrightarrow> license_verify cr key pubkey now_unix \<in>
    {Err ''malformed_key'', Err ''bad_pubkey'', Err ''invalid_signature''}"
  by (auto simp: key_signed_split license_verify_def split: option.splits)

lemma sign_key_signed:
  assumes "crypto_laws cr pubkey signing_key lic"
  shows "key_signed cr pubkey (license_sign cr lic signing_key) (license_to_vec cr lic)"
  using assms
  by (auto simp: crypto_laws_def key_signed_def license_sign_def Let_def) metis

lemma unat_of_char_u8: "unat (of_char c :: u8) = of_char c"
proof -
  have "(of_char c :: u8) = of_nat (of_char c)" by (simp add: of_nat_of_char)
  then show ?thesis
    using nat_of_char_less_256 [of c] by (simp add: unat_of_nat take_bit_nat_eq_self)
qed

lemma xor_of_char_zero: "(of_char x XOR of_char y :: u8) = 0 \<longleftrightarrow> x = y"
proof
  assume "(of_char x XOR of_char y :: u8) = 0"
  moreover have "of_char x = (of_char x XOR of_char y) XOR (of_char y :: u8)"
    by (simp add: xor.assoc)
  ultimately have "(of_char x :: u8) = of_char y" by (metis xor.left_neutral)
  then have "(of_char x :: nat) = of_char y" by (metis unat_of_char_u8)
  then show "x = y" by simp
qed simp

lemma foldl_or_xor_zero:
  "length a = length b \<Longrightarrow>
    foldl (\<lambda>acc (x, y). acc OR (of_char x XOR of_char y)) (w :: u8) (zip a b) = 0 \<longleftrightarrow> w = 0 \<and> a = b"
  by (induction a b arbitrary: w rule: list_induct2) (auto simp: or_eq_0_iff xor_of_char_zero)

lemma ct_eq_iff: "ct_eq a b \<longleftrightarrow> a = b"
  using foldl_or_xor_zero [of a b 0] by (auto simp: ct_eq_def)

subsection \<open>Histories of the server\<close>

text \<open>The license ids revoked by an authorised request of a history.\<close>

definition revocations :: "string \<Rightarrow> (int \<times> server_req) list \<Rightarrow> string set" where
  "revocations admin_key rs = {rv_lic_id req | now_unix headers req.
     (now_unix, PostRevoke headers req) \<in> set rs \<and> header_str headers ''x-admin-key'' = Some admin_key}"

lemma revocations_Nil [simp]: "revocations k [] = {}"
  by (simp add: revocations_def)

lemma revocations_Cons: "revocations k ((n, r) # rs) =
  (case r of PostRevoke headers req \<Rightarrow>
     (if header_str headers ''x-admin-key'' = Some k then {rv_lic_id req} else {}) | _ \<Rightarrow> {}) \<union> revocations k rs"
  by (cases r) (auto simp: revocations_def)

lemma revoke_authorized_iff:
  "revoke_authorized s headers \<longleftrightarrow> header_str headers ''x-admin-key'' = Some (ls_admin_key s)"
  by (auto simp: revoke_authorized_def ct_eq_iff split: option.splits)

lemma server_step_keys:
  "ls_pubkey (fst (server_step cr s r)) = ls_pubkey s"
  "ls_admin_key (fst (server_step cr s r)) = ls_admin_key s"
  by (induction cr s r rule: server_step.induct) (auto simp: revoke_def)

lemma server_run_keys [simp]:
  "ls_pubkey (server_run cr s rs) = ls_pubkey s"
  "ls_admin_key (server_run cr s rs) = ls_admin_key s"
  by (induction rs arbitrary: s) (auto simp: server_step_keys)

lemma server_step_revoked:
  "set (ls_revoked (fst (server_step cr s r))) = set (ls_revoked s) \<union> revocations (ls_admin_key s) [r]"
  by (induction cr s r rule: server_step.induct)
    (auto simp: revoke_def revoke_authorized_iff revocations_Cons)

lemma server_run_revoked:
  "set (ls_revoked (server_run cr s rs)) = set (ls_revoked s) \<union> revocations (ls_admin_key s) rs"
proof (induction rs arbitrary: s)
  case (Cons r rs)
  have "revocations k (r # rs) = revocations k [r] \<union> revocations k rs" for k
    by (cases r) (simp add: revocations_Cons)
  with Cons show ?case by (auto simp: server_step_revoked server_step_keys)
qed simp

definition valid_claims :: "license_crypto \<Rightarrow> string \<Rightarrow> string \<Rightarrow> int \<Rightarrow> license \<Rightarrow> bool" where
  "valid_claims cr pubkey key now_unix lic \<longleftrightarrow> (\<exists>payload. key_signed cr pubkey key payload \<and>
     license_from_slice cr payload = Some lic \<and> now_unix \<le> lic_expiry lic)"

text \<open>
  A license key signed by the vendor verifies to exactly the claims that were signed until the expiry
  second inclusive, and is rejected as \<open>license_expired\<close> from the next second on; the grace period of
  the claims plays no part. The hypothesis is the library contract (base64, Ed25519, JSON).
\<close>

theorem license_round_trip:
  assumes "crypto_laws cr pubkey signing_key lic"
  shows "license_verify cr (license_sign cr lic signing_key) pubkey now_unix =
    (if now_unix \<le> lic_expiry lic then Ok lic else Err ''license_expired'')"
  using verify_signed [OF sign_key_signed [OF assms]] assms
  by (simp add: crypto_laws_def is_expired_at_def not_le)

text \<open>
  A concrete instance of the library contract: the encoding escapes the dot with a
  dash, the signature is the message under the key's name, and the claims of the demonstration license
  have one serialisation.
\<close>

definition demo_license :: license where
  "demo_license = \<lparr> lic_id = ''L1'', lic_tenant_id = ''acme'', lic_tier = Pro, lic_seats = 5,
     lic_features = [''sso''], lic_issued = 0, lic_expiry = 100, lic_mode = ''online'', lic_grace_days = 7 \<rparr>"

definition demo_b64 :: "string \<Rightarrow> string" where
  "demo_b64 x = concat (map (\<lambda>c. if c = CHR ''.'' then ''-d'' else if c = CHR ''-'' then ''--'' else [c]) x)"

fun demo_unb64 :: "string \<Rightarrow> string option" where
  "demo_unb64 [] = Some []"
| "demo_unb64 [c] = (if c = CHR ''-'' then None else Some [c])"
| "demo_unb64 (c # d # s) =
    (if c \<noteq> CHR ''-'' then map_option ((#) c) (demo_unb64 (d # s))
     else if d = CHR ''d'' then map_option ((#) (CHR ''.'')) (demo_unb64 s)
     else if d = CHR ''-'' then map_option ((#) (CHR ''-'')) (demo_unb64 s) else None)"

definition demo_crypto :: license_crypto where
  "demo_crypto = \<lparr> b64_encode = demo_b64, b64_decode = demo_unb64, pubkey_from_bytes = Some,
     signature_from_slice = Some, sig_verify = (\<lambda>vk m sig. sig = vk @ m), sig_sign = (\<lambda>sk m. sk @ m),
     license_to_vec = (\<lambda>_. ''L1''), license_from_slice = (\<lambda>p. if p = ''L1'' then Some demo_license else None) \<rparr>"

lemma demo_unb64_Cons: "c \<noteq> CHR ''-'' \<Longrightarrow> demo_unb64 (c # s) = map_option ((#) c) (demo_unb64 s)"
  by (cases s) auto

lemma demo_unb64_demo_b64: "demo_unb64 (demo_b64 x) = Some x"
  by (induction x) (auto simp: demo_b64_def demo_unb64_Cons)

lemma demo_crypto_laws: "crypto_laws demo_crypto ''vendor'' ''vendor'' demo_license"
  by (auto simp: crypto_laws_def demo_crypto_def demo_unb64_demo_b64) (auto simp: demo_b64_def split: if_splits)

theorem license_round_trip_witness:
  "license_verify demo_crypto (license_sign demo_crypto demo_license ''vendor'') ''vendor'' 100 = Ok demo_license \<and>
   license_verify demo_crypto (license_sign demo_crypto demo_license ''vendor'') ''vendor'' 101 = Err ''license_expired''"
  using license_round_trip [OF demo_crypto_laws, of 100] license_round_trip [OF demo_crypto_laws, of 101]
  by (simp add: demo_license_def)

text \<open>
  C19: What the license server answers after any history of requests. A key gets status \<open>active\<close> exactly
  when it carries a payload with a valid vendor signature whose claims are unexpired and whose
  id no earlier request with the right admin key revoked; \<open>revoked\<close> exactly when such a request
  exists; every key without a valid signature gets a 403. No other request changes the answer.
\<close>

theorem heartbeat_history:
  "let resp = heartbeat cr (server_run cr (server_new pubkey admin_key) rs) now_unix req;
       status = json_get (hr_body resp) ''status''
   in (status = Some (JStr ''active'') \<longleftrightarrow>
         (\<exists>lic. valid_claims cr pubkey (hb_key req) now_unix lic \<and> lic_id lic \<notin> revocations admin_key rs)) \<and>
      (status = Some (JStr ''revoked'') \<longleftrightarrow>
         (\<exists>lic. valid_claims cr pubkey (hb_key req) now_unix lic \<and> lic_id lic \<in> revocations admin_key rs)) \<and>
      ((\<nexists>payload. key_signed cr pubkey (hb_key req) payload) \<longleftrightarrow>
         hr_status resp = 403 \<and> json_get (hr_body resp) ''error'' \<noteq> Some (JStr ''malformed_payload''))"
proof (cases "\<exists>payload. key_signed cr pubkey (hb_key req) payload")
  case True
  then obtain payload where "key_signed cr pubkey (hb_key req) payload" ..
  then have uniq: "key_signed cr pubkey (hb_key req) p \<longleftrightarrow> p = payload" for p
    using key_signed_unique [of cr pubkey "hb_key req"] by blast
  then have "license_verify cr (hb_key req) pubkey now_unix = (case license_from_slice cr payload of
      None \<Rightarrow> Err ''malformed_payload''
    | Some lic \<Rightarrow> if is_expired_at lic now_unix then Err ''license_expired'' else Ok lic)"
    by (simp add: verify_signed)
  then show ?thesis
    using server_run_revoked [of cr "server_new pubkey admin_key" rs]
    by (auto simp: heartbeat_def uniq valid_claims_def is_expired_at_def hs_contains_def
        server_new_def Let_def split: option.splits)
next
  case False
  then have "license_verify cr (hb_key req) pubkey now_unix \<in>
      {Err ''malformed_key'', Err ''bad_pubkey'', Err ''invalid_signature''}"
    by (rule verify_unsigned)
  with False show ?thesis
    by (auto simp: heartbeat_def valid_claims_def server_new_def)
qed

end
