(* ===== verification/Metrics.thy ===== *)
theory Metrics
  imports Http Floats
begin

text \<open>
  The process metrics, \<open>secureops-api/src/metrics.rs\<close>: atomic counters that wrap, the latency
  histogram and the Prometheus rendering. Durations are IEEE doubles; the decimal printing of one
  is the standard library's and a parameter of \<open>render\<close>.
\<close>

definition BUCKETS :: "f64 list" where
  "BUCKETS = map round64 [5 / 1000, 1 / 100, 25 / 1000, 5 / 100, 1 / 10, 25 / 100, 5 / 10, 1, 25 / 10, 5]"

record metrics =
  mt_requests_total :: u64
  mt_requests_4xx :: u64
  mt_requests_5xx :: u64
  mt_auth_failures_total :: u64
  mt_authz_denials_total :: u64
  mt_rate_limited_total :: u64
  mt_duration_micros_total :: u64
  mt_hist :: "u64 list"

definition metrics_new :: metrics where
  "metrics_new = \<lparr> mt_requests_total = 0, mt_requests_4xx = 0, mt_requests_5xx = 0, mt_auth_failures_total = 0,
     mt_authz_denials_total = 0, mt_rate_limited_total = 0, mt_duration_micros_total = 0,
     mt_hist = replicate 11 0 \<rparr>"

text \<open>The saturating cast \<open>as u64\<close> of a double.\<close>

fun f64_as_u64 :: "f64 \<Rightarrow> u64" where
  "f64_as_u64 NaN = 0"
| "f64_as_u64 NInf = 0"
| "f64_as_u64 PInf = - 1"
| "f64_as_u64 (Fin q) = (if q \<le> 0 then 0 else if q \<ge> 2 ^ 64 then - 1 else of_int \<lfloor>q\<rfloor>)"

definition bucket_index :: "f64 \<Rightarrow> nat" where
  "bucket_index secs = unwrap_or (find_index (\<lambda>le. flt_le secs le) BUCKETS) (length BUCKETS)"

definition bump_if :: "bool \<Rightarrow> u64 \<Rightarrow> u64" where
  "bump_if b n = (if b then n + 1 else n)"

definition observe :: "u16 \<Rightarrow> f64 \<Rightarrow> metrics \<Rightarrow> metrics" where
  "observe status secs m =
    (let is_4xx = (400 \<le> status \<and> status < 500); i = bucket_index secs in
     m\<lparr> mt_requests_total := mt_requests_total m + 1,
        mt_requests_4xx := bump_if is_4xx (mt_requests_4xx m),
        mt_requests_5xx := bump_if (\<not> is_4xx \<and> 500 \<le> status) (mt_requests_5xx m),
        mt_auth_failures_total := bump_if (status = 401) (mt_auth_failures_total m),
        mt_authz_denials_total := bump_if (status = 403) (mt_authz_denials_total m),
        mt_rate_limited_total := bump_if (status = 429) (mt_rate_limited_total m),
        mt_duration_micros_total := mt_duration_micros_total m +
          f64_as_u64 (flt_mul round64 secs (Fin 1000000)),
        mt_hist := (mt_hist m)[i := mt_hist m ! i + 1] \<rparr>)"

definition inc_rate_limited :: "metrics \<Rightarrow> metrics" where
  "inc_rate_limited m = m\<lparr>mt_rate_limited_total := mt_rate_limited_total m + 1\<rparr>"

definition show_u64 :: "u64 \<Rightarrow> string" where
  "show_u64 n = show_nat (unat n)"

definition counter_block :: "string \<times> string \<times> u64 \<Rightarrow> string" where
  "counter_block b = (case b of (name, help, v) \<Rightarrow>
     ''# HELP '' @ name @ '' '' @ help @ [newline] @ ''# TYPE '' @ name @ '' counter'' @ [newline] @
     name @ '' '' @ show_u64 v @ [newline])"

fun cumulate :: "u64 \<Rightarrow> u64 list \<Rightarrow> u64 list" where
  "cumulate acc [] = []"
| "cumulate acc (h # hs) = (acc + h) # cumulate (acc + h) hs"

definition duration_name :: string where
  "duration_name = ''secureops_http_request_duration_seconds''"

definition bucket_line :: "string \<Rightarrow> u64 \<Rightarrow> string" where
  "bucket_line le c = duration_name @ ''_bucket{le=\"'' @ le @ ''\"} '' @ show_u64 c @ [newline]"

definition render :: "(f64 \<Rightarrow> string) \<Rightarrow> metrics \<Rightarrow> string" where
  "render show_f64 m =
    (let total_name = ''secureops_http_requests_total'';
         cums = cumulate 0 (take 10 (mt_hist m));
         final = foldl (+) 0 (take 10 (mt_hist m)) + mt_hist m ! 10
     in ''# HELP '' @ total_name @ '' Total HTTP requests served.'' @ [newline] @
        ''# TYPE '' @ total_name @ '' counter'' @ [newline] @
        total_name @ '' '' @ show_u64 (mt_requests_total m) @ [newline] @
        concat (map counter_block
          [(''secureops_http_requests_4xx_total'', ''HTTP 4xx responses.'', mt_requests_4xx m),
           (''secureops_http_requests_5xx_total'', ''HTTP 5xx responses.'', mt_requests_5xx m),
           (''secureops_auth_failures_total'', ''401 unauthorized responses.'', mt_auth_failures_total m),
           (''secureops_authz_denials_total'', ''403 forbidden responses (Cedar/RBAC deny).'', mt_authz_denials_total m),
           (''secureops_rate_limited_total'', ''429 rate-limited responses.'', mt_rate_limited_total m)]) @
        ''# HELP '' @ duration_name @ '' Request latency.'' @ [newline] @
        ''# TYPE '' @ duration_name @ '' histogram'' @ [newline] @
        concat (map2 (\<lambda>le c. bucket_line (show_f64 le) c) BUCKETS cums) @
        bucket_line ''+Inf'' final @
        duration_name @ ''_sum '' @
          show_f64 (flt_div round64 (f64_of_nat (unat (mt_duration_micros_total m))) (Fin 1000000)) @ [newline] @
        duration_name @ ''_count '' @ show_u64 final @ [newline])"

subsection \<open>The histogram invariant\<close>

definition metrics_inv :: "metrics \<Rightarrow> bool" where
  "metrics_inv m \<longleftrightarrow> length (mt_hist m) = 11 \<and> sum_list (mt_hist m) = mt_requests_total m"

lemma length_BUCKETS [simp]: "length BUCKETS = 10"
  by (simp add: BUCKETS_def)

lemma bucket_index_less: "bucket_index secs < 11"
  using find_index_Some [of "\<lambda>le. flt_le secs le" BUCKETS]
  by (cases "find_index (\<lambda>le. flt_le secs le) BUCKETS") (auto simp: bucket_index_def)

lemma sum_list_bump:
  "i < length xs \<Longrightarrow> sum_list (xs[i := xs ! i + 1]) = sum_list xs + (1 :: u64)"
  by (induction xs arbitrary: i) (auto simp: nth_Cons' split: nat.splits)

lemma metrics_new_inv: "metrics_inv metrics_new"
  by (simp add: metrics_inv_def metrics_new_def numeral_eq_Suc)

lemma observe_inv: "metrics_inv m \<Longrightarrow> metrics_inv (observe status secs m)"
  using bucket_index_less [of secs] by (simp add: metrics_inv_def observe_def Let_def sum_list_bump)

lemma inc_rate_limited_inv: "metrics_inv m \<Longrightarrow> metrics_inv (inc_rate_limited m)"
  by (simp add: metrics_inv_def inc_rate_limited_def)

lemma foldl_plus_u64: "foldl (+) (a :: u64) xs = a + sum_list xs"
  by (induction xs arbitrary: a) (auto simp: add.assoc)

text \<open>The \<open>+Inf\<close> bucket and the count printed by \<open>render\<close> are the number of requests.\<close>

lemma render_count:
  assumes "metrics_inv m"
  shows "foldl (+) 0 (take 10 (mt_hist m)) + mt_hist m ! 10 = mt_requests_total m"
proof -
  have "mt_hist m = take 10 (mt_hist m) @ [mt_hist m ! 10]"
    using assms id_take_nth_drop [of 10 "mt_hist m"] by (simp add: metrics_inv_def)
  then have "sum_list (mt_hist m) = sum_list (take 10 (mt_hist m)) + mt_hist m ! 10"
    by (metis sum_list.append sum_list.Cons sum_list.Nil add.right_neutral)
  with assms show ?thesis by (simp add: metrics_inv_def foldl_plus_u64)
qed

end
