(* ===== verification/RateLimit.thy ===== *)
theory RateLimit
  imports Metrics
begin

text \<open>
  The per-client rate limiter, \<open>secureops-api/src/ratelimit.rs\<close>: fixed windows keyed by class and client
  address, the opportunistic cleanup of expired windows, and the middleware that applies it.

  The counter is a \<open>u32\<close> that wraps as in a release build; clock readings are integers (a Unix time
  in seconds is far from the ends of \<open>i64\<close>). The lemmas bound the number of requests a bucket
  lets through in any interval of one window length and show that the cleanup is invisible.
\<close>

type_synonym window_map = "(string, int \<times> u32) hmap"

record rate_limiter =
  rl_windows :: window_map
  rl_window_secs :: int
  rl_global_limit :: u32
  rl_auth_limit :: u32

definition limiter_new :: "int \<Rightarrow> u32 \<Rightarrow> u32 \<Rightarrow> rate_limiter" where
  "limiter_new window_secs global_limit auth_limit =
     \<lparr> rl_windows = [], rl_window_secs = window_secs, rl_global_limit = global_limit,
       rl_auth_limit = auth_limit \<rparr>"

definition default_limits :: rate_limiter where
  "default_limits = limiter_new 60 600 30"

definition parse_u32 :: "string \<Rightarrow> u32 option" where
  "parse_u32 v = map_option of_nat (parse_unsigned (2 ^ 32 - 1) v)"

definition limiter_from_env :: "(string \<Rightarrow> int option) \<Rightarrow> (string \<Rightarrow> string option) \<Rightarrow> rate_limiter" where
  "limiter_from_env parse_i64 env =
    (let g = unwrap_or (Option.bind (env ''SECUREOPS_RL_GLOBAL'') parse_u32) 600;
         a = unwrap_or (Option.bind (env ''SECUREOPS_RL_AUTH'') parse_u32) 30;
         w = unwrap_or (Option.bind (env ''SECUREOPS_RL_WINDOW_SECS'') parse_i64) 60
     in limiter_new w g a)"

definition cleanup :: "rate_limiter \<Rightarrow> int \<Rightarrow> window_map \<Rightarrow> window_map" where
  "cleanup rl now m =
    (if hm_len m > 100000 then hm_retain (\<lambda>_ (start, _). now - start < rl_window_secs rl) m else m)"

definition allow :: "rate_limiter \<Rightarrow> int \<Rightarrow> string \<Rightarrow> u32 \<Rightarrow> rate_limiter \<times> bool" where
  "allow rl now key limit =
    (let m = cleanup rl now (rl_windows rl);
         entry = unwrap_or (hm_get m key) (now, 0);
         entry = (if now - fst entry \<ge> rl_window_secs rl then (now, 0) else entry);
         entry = (fst entry, snd entry + 1)
     in (rl\<lparr>rl_windows := hm_insert key entry m\<rparr>, snd entry \<le> limit))"

definition is_auth_path :: "string \<Rightarrow> bool" where
  "is_auth_path path \<longleftrightarrow> ends_with path ''/license/activate'' \<or> ends_with path ''/auth/oidc/callback''"

definition client_ip :: "header_map \<Rightarrow> string" where
  "client_ip headers =
    unwrap_or (or_opt (map_option (\<lambda>s. trim (hd (split_char (CHR '','') s))) (header_str headers ''x-forwarded-for''))
                 (header_str headers ''x-real-ip'')) ''unknown''"

datatype enforce_outcome = RateLimited http_response | Forwarded

record http_request =
  rq_path :: string
  rq_headers :: header_map

definition bucket :: "http_request \<Rightarrow> string" where
  "bucket req = (if is_auth_path (rq_path req) then ''auth'' else ''global'') @ '':'' @ client_ip (rq_headers req)"

definition bucket_limit :: "rate_limiter \<Rightarrow> http_request \<Rightarrow> u32" where
  "bucket_limit rl req = (if is_auth_path (rq_path req) then rl_auth_limit rl else rl_global_limit rl)"

definition rate_limited_response :: http_response where
  "rate_limited_response = \<lparr> hr_status = 429, hr_headers = [(''retry-after'', ''60'')],
     hr_body = JObj [(''error'', JStr ''rate_limited''), (''message'', JStr ''too many requests'')] \<rparr>"

text \<open>
  The middleware acts on the limiter and the metrics of the application state: a rejected request
  bumps the rejection counter and gets a 429, any other one is passed on to the handler.
\<close>

record edge_state =
  es_limiter :: rate_limiter
  es_metrics :: metrics

definition enforce :: "edge_state \<Rightarrow> int \<Rightarrow> http_request \<Rightarrow> edge_state \<times> enforce_outcome" where
  "enforce s now req =
    (let rl = es_limiter s;
         (rl', allowed) = allow rl now (bucket req) (bucket_limit rl req)
     in if \<not> allowed
        then (s\<lparr>es_limiter := rl', es_metrics := inc_rate_limited (es_metrics s)\<rparr>, RateLimited rate_limited_response)
        else (s\<lparr>es_limiter := rl'\<rparr>, Forwarded))"

text \<open>
  One request through the layers of the router, \<open>track\<close> around \<open>enforce\<close> around the handler: the
  clock reading, the measured duration, the request, and the response the handler would give.
\<close>

record edge_event =
  ev_now :: int
  ev_secs :: f64
  ev_req :: http_request
  ev_handler :: http_response

definition track :: "edge_state \<Rightarrow> edge_event \<Rightarrow> edge_state \<times> http_response" where
  "track s ev =
    (let (s', o1) = enforce s (ev_now ev) (ev_req ev);
         resp = (case o1 of RateLimited r \<Rightarrow> r | Forwarded \<Rightarrow> ev_handler ev)
     in (s'\<lparr>es_metrics := observe (of_nat (hr_status resp)) (ev_secs ev) (es_metrics s')\<rparr>, resp))"

text \<open>A run of the edge: every request with whether the limiter let it through.\<close>

fun edge_run :: "edge_state \<Rightarrow> edge_event list \<Rightarrow> edge_state \<times> (edge_event \<times> bool) list" where
  "edge_run s [] = (s, [])"
| "edge_run s (ev # evs) =
    (let passed = (snd (enforce s (ev_now ev) (ev_req ev)) = Forwarded);
         (s', log1) = edge_run (fst (track s ev)) evs
     in (s', (ev, passed) # log1))"

definition edge_new :: "rate_limiter \<Rightarrow> edge_state" where
  "edge_new rl = \<lparr> es_limiter = rl, es_metrics = metrics_new \<rparr>"

subsection \<open>Buckets\<close>

lemma bucket_determines_limit: "bucket r1 = bucket r2 \<Longrightarrow> bucket_limit rl r1 = bucket_limit rl r2"
  by (auto simp: bucket_def bucket_limit_def split: if_splits)

lemma limiter_config [simp]:
  "rl_window_secs (fst (allow rl now k l)) = rl_window_secs rl"
  "rl_global_limit (fst (allow rl now k l)) = rl_global_limit rl"
  "rl_auth_limit (fst (allow rl now k l)) = rl_auth_limit rl"
  by (simp_all add: allow_def Let_def)

lemma track_limiter:
  "es_limiter (fst (track s ev)) = fst (allow (es_limiter s) (ev_now ev) (bucket (ev_req ev))
     (bucket_limit (es_limiter s) (ev_req ev)))"
  by (auto simp: track_def enforce_def Let_def split: prod.splits)

lemma enforce_passed:
  "snd (enforce s now req) = Forwarded \<longleftrightarrow> snd (allow (es_limiter s) now (bucket req) (bucket_limit (es_limiter s) req))"
  by (auto simp: enforce_def Let_def split: prod.splits)

lemma cleanup_ok: "hm_ok m \<Longrightarrow> hm_ok (cleanup rl now m)"
  by (simp add: cleanup_def hm_simps)

lemma cleanup_get:
  "hm_ok m \<Longrightarrow> hm_get (cleanup rl now m) k = hm_get m k \<or>
    (hm_get (cleanup rl now m) k = None \<and> (\<exists>s c. hm_get m k = Some (s, c) \<and> rl_window_secs rl \<le> now - s))"
  by (auto simp: cleanup_def hm_simps split: option.splits)

lemma allow_ok: "hm_ok (rl_windows rl) \<Longrightarrow> hm_ok (rl_windows (fst (allow rl now k l)))"
  by (simp add: allow_def Let_def hm_simps cleanup_ok)

text \<open>The live window of a bucket at a clock reading; an expired one counts as none.\<close>

definition live :: "rate_limiter \<Rightarrow> int \<Rightarrow> string \<Rightarrow> (int \<times> u32) option" where
  "live rl now k = (case hm_get (rl_windows rl) k of None \<Rightarrow> None
     | Some (s, c) \<Rightarrow> if now - s < rl_window_secs rl then Some (s, c) else None)"

definition hit :: "int \<Rightarrow> (int \<times> u32) option \<Rightarrow> int \<times> u32" where
  "hit now e = (case e of None \<Rightarrow> (now, 1) | Some (s, c) \<Rightarrow> (s, c + 1))"

lemma allow_entry:
  assumes "hm_ok (rl_windows rl)" and "0 < rl_window_secs rl"
  shows "hm_get (rl_windows (fst (allow rl now k l))) k = Some (hit now (live rl now k))"
    and "snd (allow rl now k l) \<longleftrightarrow> snd (hit now (live rl now k)) \<le> l"
proof -
  have "hm_get (cleanup rl now (rl_windows rl)) k = hm_get (rl_windows rl) k \<or>
    hm_get (cleanup rl now (rl_windows rl)) k = None \<and> live rl now k = None"
    using cleanup_get [OF assms(1), of rl now k] by (auto simp: live_def)
  then show "hm_get (rl_windows (fst (allow rl now k l))) k = Some (hit now (live rl now k))"
    and "snd (allow rl now k l) \<longleftrightarrow> snd (hit now (live rl now k)) \<le> l"
    using assms by (auto simp: allow_def Let_def hm_simps live_def hit_def split: option.splits)
qed

lemma allow_other:
  assumes "hm_ok (rl_windows rl)" and "k' \<noteq> k"
  shows "hm_get (rl_windows (fst (allow rl now k l))) k' = hm_get (rl_windows rl) k' \<or>
    (hm_get (rl_windows (fst (allow rl now k l))) k' = None \<and>
      (\<exists>s c. hm_get (rl_windows rl) k' = Some (s, c) \<and> rl_window_secs rl \<le> now - s))"
  using cleanup_get [OF assms(1), of rl now k'] assms(2)
  by (auto simp: allow_def Let_def hm_simps)

subsection \<open>The budget of a bucket\<close>

text \<open>
  How many more requests a bucket can let through in the interval \<open>[t, t + w)\<close>, given its window and
  the current time: an upper bound that every step respects.
\<close>

fun budget :: "int \<Rightarrow> u32 \<Rightarrow> int \<Rightarrow> int \<Rightarrow> (int \<times> u32) option \<Rightarrow> nat" where
  "budget w l t now None = (if now \<le> t then 2 * unat l else if now < t + w then unat l else 0)"
| "budget w l t now (Some (s, c)) =
    (if s + w \<le> t then 2 * unat l else if s \<le> t then (unat l - unat c) + unat l
     else if s < t + w then unat l - unat c else 0)"

definition entry_ok :: "nat \<Rightarrow> int \<Rightarrow> (int \<times> u32) option \<Rightarrow> bool" where
  "entry_ok n now e = (case e of None \<Rightarrow> True | Some (s, c) \<Rightarrow> s \<le> now \<and> unat c + n < 2 ^ 32)"

lemma budget_le: "0 < w \<Longrightarrow> budget w l t now e \<le> 2 * unat l"
  by (cases "(w, l, t, now, e)" rule: budget.cases) auto

lemma budget_time: "now \<le> now' \<Longrightarrow> budget w l t now' e \<le> budget w l t now e"
  by (cases "(w, l, t, now, e)" rule: budget.cases) auto

lemma budget_expire: "0 < w \<Longrightarrow> w \<le> now - s \<Longrightarrow> budget w l t now None \<le> budget w l t now' (Some (s, c))"
  by auto

lemma unat_suc_u32: "unat c + 1 < 2 ^ 32 \<Longrightarrow> unat (c + 1 :: u32) = unat c + 1"
  by (simp add: unat_word_ariths)

lemma budget_hit:
  assumes "0 < w" and "entry_ok 1 now e" and "\<And>s c. e = Some (s, c) \<Longrightarrow> now - s < w"
  shows "(if snd (hit now e) \<le> l \<and> t \<le> now \<and> now < t + w then 1 else 0) + budget w l t now (Some (hit now e))
    \<le> budget w l t now e"
proof (cases e)
  case None
  have "unat (1 :: u32) = 1" by simp
  then have "(1 :: u32) \<le> l \<longleftrightarrow> 1 \<le> unat l" by (simp add: word_le_nat_alt)
  with None assms(1) show ?thesis by (auto simp: hit_def)
next
  case (Some sc)
  obtain s c where sc: "sc = (s, c)" by (cases sc)
  have "unat (c + 1) = unat c + 1" "s \<le> now" "now - s < w"
    using assms Some sc by (auto simp: entry_ok_def unat_suc_u32)
  moreover from this have "c + 1 \<le> l \<longleftrightarrow> unat c + 1 \<le> unat l" by (simp add: word_le_nat_alt)
  ultimately show ?thesis using Some sc assms(1) by (auto simp: hit_def)
qed

lemma entry_ok_hit: "entry_ok (Suc n) now e \<Longrightarrow> Suc n < 2 ^ 32 \<Longrightarrow> entry_ok n now (Some (hit now e))"
  by (cases e) (auto simp: entry_ok_def hit_def unat_suc_u32)

lemma entry_ok_mono: "entry_ok n now e \<Longrightarrow> m \<le> n \<Longrightarrow> now \<le> now' \<Longrightarrow> entry_ok m now' e"
  by (auto simp: entry_ok_def split: option.splits)

definition passed_in :: "string \<Rightarrow> int \<Rightarrow> int \<Rightarrow> (edge_event \<times> bool) list \<Rightarrow> nat" where
  "passed_in k t w events = length (filter (\<lambda>(ev, passed). passed \<and> bucket (ev_req ev) = k \<and>
     t \<le> ev_now ev \<and> ev_now ev < t + w) events)"

text \<open>One request leaves the bucket with a budget smaller by what it let through.\<close>

lemma track_budget:
  fixes s ev k t
  defines "rl \<equiv> es_limiter s" and "rl' \<equiv> es_limiter (fst (track s ev))"
  assumes ok: "hm_ok (rl_windows rl)" and w: "0 < rl_window_secs rl"
    and now: "now \<le> ev_now ev" and e: "entry_ok (Suc n) now (hm_get (rl_windows rl) k)"
    and n: "Suc n < 2 ^ 32" and l: "bucket (ev_req ev) = k \<Longrightarrow> bucket_limit rl (ev_req ev) = l"
  shows "passed_in k t (rl_window_secs rl) [(ev, snd (enforce s (ev_now ev) (ev_req ev)) = Forwarded)] +
      budget (rl_window_secs rl) l t (ev_now ev) (hm_get (rl_windows rl') k)
    \<le> budget (rl_window_secs rl) l t now (hm_get (rl_windows rl) k)"
    and "entry_ok n (ev_now ev) (hm_get (rl_windows rl') k)"
proof -
  let ?now = "ev_now ev" and ?e = "hm_get (rl_windows rl) k" and ?w = "rl_window_secs rl"
  have "(passed_in k t ?w [(ev, snd (enforce s ?now (ev_req ev)) = Forwarded)] +
      budget ?w l t ?now (hm_get (rl_windows rl') k) \<le> budget ?w l t now ?e) \<and>
    entry_ok n ?now (hm_get (rl_windows rl') k)"
  proof (cases "bucket (ev_req ev) = k")
    case True
    let ?live = "live rl ?now k"
    have liv: "?live = ?e \<or> ?live = None \<and> (\<exists>s0 c. ?e = Some (s0, c) \<and> ?w \<le> ?now - s0)"
      by (auto simp: live_def split: option.splits)
    then have "budget ?w l t ?now ?live \<le> budget ?w l t now ?e"
      using budget_time [OF now] budget_expire [OF w] by metis
    moreover have eo: "entry_ok (Suc n) ?now ?live"
      using liv entry_ok_mono [OF e order_refl now] by (auto simp: entry_ok_def)
    then have "entry_ok 1 ?now ?live" by (rule entry_ok_mono) auto
    then have "(if snd (hit ?now ?live) \<le> l \<and> t \<le> ?now \<and> ?now < t + ?w then 1 else 0) +
        budget ?w l t ?now (Some (hit ?now ?live)) \<le> budget ?w l t ?now ?live"
      by (intro budget_hit w) (auto simp: live_def split: option.splits if_splits)
    ultimately show ?thesis
      using True l allow_entry [OF ok w, of ?now k l] entry_ok_hit [OF eo n]
      by (auto simp: passed_in_def enforce_passed track_limiter rl_def rl'_def)
  next
    case False
    then have "hm_get (rl_windows rl') k = ?e \<or> (hm_get (rl_windows rl') k = None \<and>
        (\<exists>s0 c. ?e = Some (s0, c) \<and> ?w \<le> ?now - s0))"
      using allow_other [OF ok] by (auto simp: rl_def rl'_def track_limiter)
    then have "budget ?w l t ?now (hm_get (rl_windows rl') k) \<le> budget ?w l t now ?e"
      and "entry_ok n ?now (hm_get (rl_windows rl') k)"
      using budget_time [OF now] budget_expire [OF w] entry_ok_mono [OF e _ now, of n]
      by (auto simp: entry_ok_def)
    with False show ?thesis by (simp add: passed_in_def)
  qed
  then show "passed_in k t ?w [(ev, snd (enforce s ?now (ev_req ev)) = Forwarded)] +
      budget ?w l t ?now (hm_get (rl_windows rl') k) \<le> budget ?w l t now ?e"
    and "entry_ok n ?now (hm_get (rl_windows rl') k)" by auto
qed

lemma track_config:
  "rl_window_secs (es_limiter (fst (track s ev))) = rl_window_secs (es_limiter s)"
  "bucket_limit (es_limiter (fst (track s ev))) req = bucket_limit (es_limiter s) req"
  by (simp_all add: track_limiter bucket_limit_def)

lemma passed_in_Cons: "passed_in k t w (x # xs) = passed_in k t w [x] + passed_in k t w xs"
  by (simp add: passed_in_def split: prod.splits)

lemma edge_run_budget:
  assumes "hm_ok (rl_windows (es_limiter s))" and "0 < rl_window_secs (es_limiter s)"
    and "sorted (now # map ev_now evs)" and "length evs < 2 ^ 32"
    and "entry_ok (length evs) now (hm_get (rl_windows (es_limiter s)) k)"
    and "\<And>ev. ev \<in> set evs \<Longrightarrow> bucket (ev_req ev) = k \<Longrightarrow> bucket_limit (es_limiter s) (ev_req ev) = l"
  shows "passed_in k t (rl_window_secs (es_limiter s)) (snd (edge_run s evs)) \<le>
    budget (rl_window_secs (es_limiter s)) l t now (hm_get (rl_windows (es_limiter s)) k)"
  using assms
proof (induction evs arbitrary: s now)
  case Nil
  then show ?case by (simp add: passed_in_def)
next
  case (Cons ev evs)
  let ?s' = "fst (track s ev)"
  have step: "passed_in k t (rl_window_secs (es_limiter s)) [(ev, snd (enforce s (ev_now ev) (ev_req ev)) = Forwarded)] +
      budget (rl_window_secs (es_limiter s)) l t (ev_now ev) (hm_get (rl_windows (es_limiter ?s')) k)
    \<le> budget (rl_window_secs (es_limiter s)) l t now (hm_get (rl_windows (es_limiter s)) k)"
    and ok: "entry_ok (length evs) (ev_now ev) (hm_get (rl_windows (es_limiter ?s')) k)"
    using track_budget(1) [of s now ev "length evs" k l t] track_budget(2) [of s now ev "length evs" k l] Cons.prems
    by auto
  have "hm_ok (rl_windows (es_limiter ?s'))"
    using Cons.prems(1) by (simp add: track_limiter allow_ok)
  then have "passed_in k t (rl_window_secs (es_limiter ?s')) (snd (edge_run ?s' evs)) \<le>
      budget (rl_window_secs (es_limiter ?s')) l t (ev_now ev) (hm_get (rl_windows (es_limiter ?s')) k)"
    using Cons.prems ok by (intro Cons.IH) (auto simp: track_config)
  moreover have "snd (edge_run s (ev # evs)) =
      (ev, snd (enforce s (ev_now ev) (ev_req ev)) = Forwarded) # snd (edge_run ?s' evs)"
    by (simp add: Let_def split: prod.splits)
  ultimately show ?case
    using step passed_in_Cons [of k t _ "(ev, _)" "snd (edge_run ?s' evs)"] by (simp only: track_config)
qed

text \<open>
  C38: The rate limiter's guarantee. In any run of fewer than \<open>2 ^ 32\<close> requests under a clock that does not go
  back, starting from an empty limiter, and for every bucket (the class of the path and the client
  address) and every interval of one window length, at most twice the class's limit reaches
  the handlers: one limit in each of the two fixed windows the interval can meet. The bound holds however the
  cleanup of old windows interleaves.
\<close>

theorem rate_limit_bound:
  assumes "0 < window_secs" and "sorted (map ev_now evs)" and "length evs < 2 ^ 32"
    and "bucket (ev_req ev0) = k"
  shows "passed_in k t window_secs (snd (edge_run (edge_new (limiter_new window_secs g a)) evs))
    \<le> 2 * unat (bucket_limit (limiter_new window_secs g a) (ev_req ev0))"
proof -
  let ?s = "edge_new (limiter_new window_secs g a)"
  define now where "now = (case evs of [] \<Rightarrow> 0 | ev # _ \<Rightarrow> ev_now ev)"
  have "sorted (now # map ev_now evs)" using assms(2) by (cases evs) (auto simp: now_def)
  then have "passed_in k t (rl_window_secs (es_limiter ?s)) (snd (edge_run ?s evs)) \<le>
      budget (rl_window_secs (es_limiter ?s)) (bucket_limit (limiter_new window_secs g a) (ev_req ev0)) t now
        (hm_get (rl_windows (es_limiter ?s)) k)"
    using assms by (intro edge_run_budget)
      (auto simp: edge_new_def limiter_new_def hm_simps entry_ok_def bucket_determines_limit)
  then show ?thesis
    using budget_le [OF assms(1)] order_trans by (fastforce simp: edge_new_def limiter_new_def)
qed

definition demo_event :: "int \<Rightarrow> edge_event" where
  "demo_event n = \<lparr> ev_now = n, ev_secs = Fin 0,
     ev_req = \<lparr> rq_path = ''/license/activate'', rq_headers = [(''x-real-ip'', ''10.0.0.1'')] \<rparr>,
     ev_handler = json_response 200 JNull \<rparr>"

theorem rate_limit_bound_witness:
  "passed_in ''auth:10.0.0.1'' 9 10 (snd (edge_run (edge_new (limiter_new 10 5 1))
     [demo_event 0, demo_event 9, demo_event 10])) \<le> 2"
proof -
  have "bucket (ev_req (demo_event 0)) = ''auth:10.0.0.1''"
    "bucket_limit (limiter_new 10 5 1) (ev_req (demo_event 0)) = 1"
    by code_simp+
  then show ?thesis
    using rate_limit_bound [of 10 "[demo_event 0, demo_event 9, demo_event 10]" "demo_event 0" "''auth:10.0.0.1''" 9 5 1]
    by (simp add: demo_event_def)
qed

text \<open>The responses with status 429, by who produced them.\<close>

definition rejected_by_limiter :: "(edge_event \<times> bool) list \<Rightarrow> nat" where
  "rejected_by_limiter events = length (filter (\<lambda>(ev, passed). \<not> passed) events)"

definition rejected_by_handler :: "(edge_event \<times> bool) list \<Rightarrow> nat" where
  "rejected_by_handler events = length (filter (\<lambda>(ev, passed). passed \<and>
     (of_nat (hr_status (ev_handler ev)) :: u16) = 429) events)"

lemma track_metrics:
  "mt_requests_total (es_metrics (fst (track s ev))) = mt_requests_total (es_metrics s) + 1"
  "metrics_inv (es_metrics s) \<Longrightarrow> metrics_inv (es_metrics (fst (track s ev)))"
  "mt_rate_limited_total (es_metrics (fst (track s ev))) = mt_rate_limited_total (es_metrics s) +
    (if snd (enforce s (ev_now ev) (ev_req ev)) \<noteq> Forwarded then 2
     else if (of_nat (hr_status (ev_handler ev)) :: u16) = 429 then 1 else 0)"
  by (auto simp: track_def enforce_def Let_def observe_inv inc_rate_limited_inv split: prod.splits)
    (auto simp: observe_def inc_rate_limited_def bump_if_def rate_limited_response_def Let_def)

lemma edge_run_metrics:
  "mt_rate_limited_total (es_metrics (fst (edge_run s evs))) = mt_rate_limited_total (es_metrics s) +
      of_nat (2 * rejected_by_limiter (snd (edge_run s evs)) + rejected_by_handler (snd (edge_run s evs))) \<and>
   mt_requests_total (es_metrics (fst (edge_run s evs))) = mt_requests_total (es_metrics s) + of_nat (length evs) \<and>
   (metrics_inv (es_metrics s) \<longrightarrow> metrics_inv (es_metrics (fst (edge_run s evs))))"
proof (induction evs arbitrary: s)
  case Nil
  then show ?case by (simp add: rejected_by_limiter_def rejected_by_handler_def)
next
  case (Cons ev evs)
  show ?case
    using Cons [of "fst (track s ev)"] track_metrics [of s ev]
    by (auto simp: Let_def rejected_by_limiter_def rejected_by_handler_def split: prod.splits)
qed

text \<open>
  The metrics count every response once: after any run the histogram's total is the request
  counter, so the rendered \<open>_count\<close> is the rendered request total. Its rejection counter does not agree: a
  request the limiter rejects adds two to \<open>rate_limited_total\<close>, one in \<open>enforce\<close> and one when
  \<open>track\<close>, which wraps it, observes the 429.
\<close>

theorem rejections_counted_twice:
  "let (s, events) = edge_run (edge_new rl) evs
   in mt_rate_limited_total (es_metrics s) = of_nat (2 * rejected_by_limiter events + rejected_by_handler events) \<and>
      mt_requests_total (es_metrics s) = of_nat (length evs) \<and>
      foldl (+) 0 (take 10 (mt_hist (es_metrics s))) + mt_hist (es_metrics s) ! 10 = mt_requests_total (es_metrics s)"
  using edge_run_metrics [of "edge_new rl" evs] metrics_new_inv
    render_count [of "es_metrics (fst (edge_run (edge_new rl) evs))"]
  by (auto simp: edge_new_def split: prod.splits) (simp_all add: metrics_new_def)

end
