(* ===== verification/Store.thy ===== *)
theory Store
  imports License Floats
begin

text \<open>
  The platform's storage, \<open>secureops-api/src/models.rs\<close> and \<open>store.rs\<close>: the wire models, the \<open>Store\<close>
  trait as a record of operations on a store state, and \<open>InMemoryStore\<close> as its instance.

  The interface \<open>tenant_store\<close> is the contract the handlers rely on: an operation called with a tenant
  reads and writes only what belongs to that tenant. It is interpreted on the in-memory store.
\<close>

subsection \<open>Models\<close>

type_synonym uuid = "128 word"

datatype scan_status = Queued | Running | ScanCompleted | ScanFailed

record scan =
  sc_id :: uuid
  sc_tenant_id :: string
  sc_scope :: string
  sc_kind :: string
  sc_status :: scan_status
  sc_created_at :: int

datatype finding_severity = Critical | High | Medium | Low | Info

record finding =
  fi_id :: uuid
  fi_tenant_id :: string
  fi_scan_id :: "uuid option"
  fi_title :: string
  fi_severity :: finding_severity
  fi_status :: string
  fi_cloud :: "string option"
  fi_blast_radius :: int

record remediation =
  re_id :: uuid
  re_finding_id :: string
  re_playbook_id :: string
  re_class :: string
  re_state :: string

text \<open>The authenticated principal of \<open>auth.rs\<close>, which the store maps API keys to.\<close>

record claims =
  cl_sub :: string
  cl_tenant :: string
  cl_tier :: string
  cl_role :: string
  cl_features :: "string list"
  cl_iss :: string
  cl_exp :: u64

record finding_filter =
  ff_severity :: "string option"
  ff_status :: "string option"
  ff_limit :: int
  ff_offset :: int

definition finding_filter_default :: finding_filter where
  "finding_filter_default = \<lparr> ff_severity = None, ff_status = None, ff_limit = 0, ff_offset = 0 \<rparr>"

subsection \<open>The Store trait\<close>

text \<open>Every operation may fail with the backend's message.\<close>

record 's store_ops =
  st_health :: "'s \<Rightarrow> bool"
  st_lookup_api_key :: "string \<Rightarrow> 's \<Rightarrow> string + claims option"
  st_put_license :: "license \<Rightarrow> 's \<Rightarrow> (string + unit) \<times> 's"
  st_get_license :: "string \<Rightarrow> 's \<Rightarrow> string + license option"
  st_any_license :: "'s \<Rightarrow> string + bool"
  st_create_scan :: "scan \<Rightarrow> 's \<Rightarrow> (string + unit) \<times> 's"
  st_get_scan :: "string \<Rightarrow> uuid \<Rightarrow> 's \<Rightarrow> string + scan option"
  st_list_findings :: "string \<Rightarrow> finding_filter \<Rightarrow> 's \<Rightarrow> string + finding list"
  st_set_finding_status :: "string \<Rightarrow> uuid \<Rightarrow> string \<Rightarrow> 's \<Rightarrow> (string + bool) \<times> 's"
  st_insert_finding :: "finding \<Rightarrow> 's \<Rightarrow> (string + unit) \<times> 's"
  st_insert_remediation :: "string \<Rightarrow> remediation \<Rightarrow> 's \<Rightarrow> (string + unit) \<times> 's"
  st_list_remediations :: "string \<Rightarrow> 's \<Rightarrow> string + remediation list"
  st_set_remediation_state :: "string \<Rightarrow> uuid \<Rightarrow> string \<Rightarrow> 's \<Rightarrow> (string + bool) \<times> 's"
  st_record_rl_feedback :: "string \<Rightarrow> string \<Rightarrow> string \<Rightarrow> f64 \<Rightarrow> 's \<Rightarrow> (string + unit) \<times> 's"

subsection \<open>InMemoryStore\<close>

record mem =
  mm_licenses :: "(string, license) hmap"
  mm_api_keys :: "(string, claims) hmap"
  mm_scans :: "(uuid, scan) hmap"
  mm_findings :: "finding list"
  mm_remediations :: "(string, remediation list) hmap"
  mm_rl_feedback :: u64

definition mem_new :: mem where
  "mem_new = \<lparr> mm_licenses = [], mm_api_keys = [], mm_scans = [], mm_findings = [], mm_remediations = [],
     mm_rl_feedback = 0 \<rparr>"

definition with_api_key :: "string \<Rightarrow> claims \<Rightarrow> mem \<Rightarrow> mem" where
  "with_api_key hashed cl m = m\<lparr>mm_api_keys := hm_insert hashed cl (mm_api_keys m)\<rparr>"

definition seed_finding :: "finding \<Rightarrow> mem \<Rightarrow> mem" where
  "seed_finding f m = m\<lparr>mm_findings := mm_findings m @ [f]\<rparr>"

definition mem_lookup_api_key :: "string \<Rightarrow> mem \<Rightarrow> string + claims option" where
  "mem_lookup_api_key hashed m = Ok (hm_get (mm_api_keys m) hashed)"

definition mem_put_license :: "license \<Rightarrow> mem \<Rightarrow> (string + unit) \<times> mem" where
  "mem_put_license lic m = (Ok (), m\<lparr>mm_licenses := hm_insert (lic_tenant_id lic) lic (mm_licenses m)\<rparr>)"

definition mem_get_license :: "string \<Rightarrow> mem \<Rightarrow> string + license option" where
  "mem_get_license tenant m = Ok (hm_get (mm_licenses m) tenant)"

definition mem_any_license :: "mem \<Rightarrow> string + bool" where
  "mem_any_license m = Ok (mm_licenses m \<noteq> [])"

definition mem_create_scan :: "scan \<Rightarrow> mem \<Rightarrow> (string + unit) \<times> mem" where
  "mem_create_scan sc m = (Ok (), m\<lparr>mm_scans := hm_insert (sc_id sc) sc (mm_scans m)\<rparr>)"

definition mem_get_scan :: "string \<Rightarrow> uuid \<Rightarrow> mem \<Rightarrow> string + scan option" where
  "mem_get_scan tenant uid m = Ok (case hm_get (mm_scans m) uid of None \<Rightarrow> None
     | Some s \<Rightarrow> if sc_tenant_id s = tenant then Some s else None)"

definition severity_lower :: "finding_severity \<Rightarrow> string" where
  "severity_lower s = (case s of Critical \<Rightarrow> ''critical'' | High \<Rightarrow> ''high'' | Medium \<Rightarrow> ''medium''
     | Low \<Rightarrow> ''low'' | Info \<Rightarrow> ''info'')"

definition is_none_or :: "'a option \<Rightarrow> ('a \<Rightarrow> bool) \<Rightarrow> bool" where
  "is_none_or o1 p = (case o1 of None \<Rightarrow> True | Some x \<Rightarrow> p x)"

definition mem_list_findings :: "string \<Rightarrow> finding_filter \<Rightarrow> mem \<Rightarrow> string + finding list" where
  "mem_list_findings tenant f m =
    (let offset = nat (max (ff_offset f) 0);
         limit = (if ff_limit f \<le> 0 then 50 else nat (ff_limit f))
     in Ok (take limit (drop offset
          (filter (\<lambda>x. is_none_or (ff_status f) (\<lambda>s. fi_status x = s))
          (filter (\<lambda>x. is_none_or (ff_severity f) (\<lambda>s. severity_lower (fi_severity x) = s))
          (filter (\<lambda>x. fi_tenant_id x = tenant) (mm_findings m)))))))"

definition update_first :: "('a \<Rightarrow> bool) \<Rightarrow> ('a \<Rightarrow> 'a) \<Rightarrow> 'a list \<Rightarrow> bool \<times> 'a list" where
  "update_first p f xs = (case find_index p xs of None \<Rightarrow> (False, xs) | Some i \<Rightarrow> (True, xs[i := f (xs ! i)]))"

definition mem_set_finding_status :: "string \<Rightarrow> uuid \<Rightarrow> string \<Rightarrow> mem \<Rightarrow> (string + bool) \<times> mem" where
  "mem_set_finding_status tenant uid status m =
    (let (found, fs) = update_first (\<lambda>x. fi_id x = uid \<and> fi_tenant_id x = tenant) (fi_status_update (\<lambda>_. status))
         (mm_findings m)
     in (Ok found, m\<lparr>mm_findings := fs\<rparr>))"

definition mem_insert_finding :: "finding \<Rightarrow> mem \<Rightarrow> (string + unit) \<times> mem" where
  "mem_insert_finding f m = (Ok (), m\<lparr>mm_findings := mm_findings m @ [f]\<rparr>)"

definition mem_insert_remediation :: "string \<Rightarrow> remediation \<Rightarrow> mem \<Rightarrow> (string + unit) \<times> mem" where
  "mem_insert_remediation tenant r m = (Ok (), m\<lparr>mm_remediations :=
     hm_insert tenant (unwrap_or (hm_get (mm_remediations m) tenant) [] @ [r]) (mm_remediations m)\<rparr>)"

definition mem_list_remediations :: "string \<Rightarrow> mem \<Rightarrow> string + remediation list" where
  "mem_list_remediations tenant m = Ok (unwrap_or (hm_get (mm_remediations m) tenant) [])"

definition mem_set_remediation_state :: "string \<Rightarrow> uuid \<Rightarrow> string \<Rightarrow> mem \<Rightarrow> (string + bool) \<times> mem" where
  "mem_set_remediation_state tenant uid state m =
    (case hm_get (mm_remediations m) tenant of None \<Rightarrow> (Ok False, m)
     | Some v \<Rightarrow> let (found, v') = update_first (\<lambda>r. re_id r = uid) (re_state_update (\<lambda>_. state)) v
         in (Ok found, if found then m\<lparr>mm_remediations := hm_insert tenant v' (mm_remediations m)\<rparr> else m))"

definition mem_record_rl_feedback :: "string \<Rightarrow> string \<Rightarrow> string \<Rightarrow> f64 \<Rightarrow> mem \<Rightarrow> (string + unit) \<times> mem" where
  "mem_record_rl_feedback tenant finding_id action reward m =
     (Ok (), m\<lparr>mm_rl_feedback := mm_rl_feedback m + 1\<rparr>)"

definition mem_store :: "mem store_ops" where
  "mem_store = \<lparr> st_health = (\<lambda>_. True), st_lookup_api_key = mem_lookup_api_key,
     st_put_license = mem_put_license, st_get_license = mem_get_license, st_any_license = mem_any_license,
     st_create_scan = mem_create_scan, st_get_scan = mem_get_scan, st_list_findings = mem_list_findings,
     st_set_finding_status = mem_set_finding_status, st_insert_finding = mem_insert_finding,
     st_insert_remediation = mem_insert_remediation, st_list_remediations = mem_list_remediations,
     st_set_remediation_state = mem_set_remediation_state, st_record_rl_feedback = mem_record_rl_feedback \<rparr>"

lemma mem_store_simps [simp]:
  "st_health mem_store m" "st_lookup_api_key mem_store = mem_lookup_api_key"
  "st_put_license mem_store = mem_put_license" "st_get_license mem_store = mem_get_license"
  "st_any_license mem_store = mem_any_license" "st_create_scan mem_store = mem_create_scan"
  "st_get_scan mem_store = mem_get_scan" "st_list_findings mem_store = mem_list_findings"
  "st_set_finding_status mem_store = mem_set_finding_status" "st_insert_finding mem_store = mem_insert_finding"
  "st_insert_remediation mem_store = mem_insert_remediation"
  "st_list_remediations mem_store = mem_list_remediations"
  "st_set_remediation_state mem_store = mem_set_remediation_state"
  "st_record_rl_feedback mem_store = mem_record_rl_feedback"
  by (simp_all add: mem_store_def)

subsection \<open>Generic facts\<close>

lemma update_first_Nil [simp]: "update_first p f [] = (False, [])"
  by (simp add: update_first_def)

lemma update_first_Cons: "update_first p f (x # xs) =
  (if p x then (True, f x # xs) else (let (b, ys) = update_first p f xs in (b, x # ys)))"
  by (simp add: update_first_def split: option.splits)

lemma update_first_filter:
  assumes "\<And>x. p x \<Longrightarrow> q x" and "\<And>x. q (f x) = q x"
  shows "filter q (snd (update_first p f xs)) = snd (update_first p f (filter q xs)) \<and>
    fst (update_first p f xs) = fst (update_first p f (filter q xs))"
  using assms by (induction xs) (auto simp: update_first_Cons split: prod.splits)

lemma update_first_other:
  assumes "\<And>x. p x \<Longrightarrow> \<not> q x" and "\<And>x. q (f x) = q x"
  shows "filter q (snd (update_first p f xs)) = filter q xs"
  using assms by (induction xs) (auto simp: update_first_Cons split: prod.splits)

lemma update_first_found: "fst (update_first p f xs) \<longleftrightarrow> (\<exists>x\<in>set xs. p x)"
  by (induction xs) (auto simp: update_first_Cons split: prod.splits)

subsection \<open>The tenant contract\<close>

text \<open>
  A step taken for a tenant: its result and the tenant's new view depend on the tenant's view alone, and
  nobody else's view changes. The guard restricts the states the step is used in.
\<close>

definition tenant_step :: "('t \<Rightarrow> 's \<Rightarrow> 'v) \<Rightarrow> ('s \<Rightarrow> bool) \<Rightarrow> 't \<Rightarrow> ('s \<Rightarrow> 'r \<times> 's) \<Rightarrow> bool" where
  "tenant_step view g t w \<longleftrightarrow>
     (\<forall>s s'. g s \<longrightarrow> g s' \<longrightarrow> view t s = view t s' \<longrightarrow>
        fst (w s) = fst (w s') \<and> view t (snd (w s)) = view t (snd (w s'))) \<and>
     (\<forall>s t'. g s \<longrightarrow> t' \<noteq> t \<longrightarrow> view t' (snd (w s)) = view t' s)"

lemma tenant_stepI:
  assumes "\<And>s s'. g s \<Longrightarrow> g s' \<Longrightarrow> view t s = view t s' \<Longrightarrow>
      fst (w s) = fst (w s') \<and> view t (snd (w s)) = view t (snd (w s'))"
    and "\<And>s t'. g s \<Longrightarrow> t' \<noteq> t \<Longrightarrow> view t' (snd (w s)) = view t' s"
  shows "tenant_step view g t w"
  using assms unfolding tenant_step_def by blast

lemma tenant_step_own:
  "tenant_step view g t w \<Longrightarrow> g s \<Longrightarrow> g s' \<Longrightarrow> view t s = view t s' \<Longrightarrow>
    fst (w s) = fst (w s') \<and> view t (snd (w s)) = view t (snd (w s'))"
  unfolding tenant_step_def by blast

lemma tenant_step_other: "tenant_step view g t w \<Longrightarrow> g s \<Longrightarrow> t' \<noteq> t \<Longrightarrow> view t' (snd (w s)) = view t' s"
  unfolding tenant_step_def by blast

text \<open>
  What the handlers rely on of a store: reads depend on the tenant's view, writes are tenant steps (creating
  a scan, when its identifier is fresh), and no write touches the API keys or makes another identifier stale.
\<close>

locale tenant_store =
  fixes ops :: "'s store_ops"
    and view :: "string \<Rightarrow> 's \<Rightarrow> 'v"
    and fresh :: "uuid \<Rightarrow> 's \<Rightarrow> bool"
  assumes read_license: "view t s = view t s' \<Longrightarrow> st_get_license ops t s = st_get_license ops t s'"
    and read_scan: "view t s = view t s' \<Longrightarrow> st_get_scan ops t u s = st_get_scan ops t u s'"
    and read_findings: "view t s = view t s' \<Longrightarrow> st_list_findings ops t f s = st_list_findings ops t f s'"
    and read_remediations: "view t s = view t s' \<Longrightarrow> st_list_remediations ops t s = st_list_remediations ops t s'"
    and put_license: "tenant_step view (\<lambda>_. True) (lic_tenant_id lic) (st_put_license ops lic)"
    and create_scan: "tenant_step view (fresh (sc_id sc)) (sc_tenant_id sc) (st_create_scan ops sc)"
    and set_finding_status: "tenant_step view (\<lambda>_. True) t (st_set_finding_status ops t u status)"
    and insert_finding: "tenant_step view (\<lambda>_. True) (fi_tenant_id fi) (st_insert_finding ops fi)"
    and insert_remediation: "tenant_step view (\<lambda>_. True) t (st_insert_remediation ops t r)"
    and set_remediation_state: "tenant_step view (\<lambda>_. True) t (st_set_remediation_state ops t u state)"
    and record_rl_feedback: "tenant_step view (\<lambda>_. True) t (st_record_rl_feedback ops t fid act rew)"
    and keys_kept:
      "st_lookup_api_key ops h (snd (st_put_license ops lic s)) = st_lookup_api_key ops h s"
      "st_lookup_api_key ops h (snd (st_create_scan ops sc s)) = st_lookup_api_key ops h s"
      "st_lookup_api_key ops h (snd (st_set_finding_status ops t u status s)) = st_lookup_api_key ops h s"
      "st_lookup_api_key ops h (snd (st_insert_remediation ops t r s)) = st_lookup_api_key ops h s"
      "st_lookup_api_key ops h (snd (st_set_remediation_state ops t u state s)) = st_lookup_api_key ops h s"
      "st_lookup_api_key ops h (snd (st_record_rl_feedback ops t fid act rew s)) = st_lookup_api_key ops h s"
    and fresh_kept:
      "fresh v s \<Longrightarrow> fresh v (snd (st_put_license ops lic s))"
      "fresh v s \<Longrightarrow> v \<noteq> sc_id sc \<Longrightarrow> fresh v (snd (st_create_scan ops sc s))"
      "fresh v s \<Longrightarrow> fresh v (snd (st_set_finding_status ops t u status s))"
      "fresh v s \<Longrightarrow> fresh v (snd (st_insert_remediation ops t r s))"
      "fresh v s \<Longrightarrow> fresh v (snd (st_set_remediation_state ops t u state s))"
      "fresh v s \<Longrightarrow> fresh v (snd (st_record_rl_feedback ops t fid act rew s))"

text \<open>The view of a tenant in the in-memory store.\<close>

definition own_scan :: "string \<Rightarrow> mem \<Rightarrow> uuid \<Rightarrow> scan option" where
  "own_scan t m u = (case hm_get (mm_scans m) u of None \<Rightarrow> None
     | Some s \<Rightarrow> if sc_tenant_id s = t then Some s else None)"

definition mem_view ::
  "string \<Rightarrow> mem \<Rightarrow> license option \<times> (uuid \<Rightarrow> scan option) \<times> finding list \<times> remediation list" where
  "mem_view t m = (hm_get (mm_licenses m) t, own_scan t m, filter (\<lambda>x. fi_tenant_id x = t) (mm_findings m),
     unwrap_or (hm_get (mm_remediations m) t) [])"

definition mem_fresh :: "uuid \<Rightarrow> mem \<Rightarrow> bool" where
  "mem_fresh u m \<longleftrightarrow> hm_get (mm_scans m) u = None"

lemma mem_create_scan_step:
  "tenant_step mem_view (mem_fresh (sc_id sc)) (sc_tenant_id sc) (mem_create_scan sc)"
proof (rule tenant_stepI)
  have own: "own_scan t (snd (mem_create_scan sc m)) = (if sc_tenant_id sc = t
      then (own_scan t m)(sc_id sc \<mapsto> sc) else (own_scan t m)(sc_id sc := None))" for t m
    by (rule ext) (simp add: own_scan_def mem_create_scan_def hm_simps)
  fix m m' t'
  show "mem_view (sc_tenant_id sc) m = mem_view (sc_tenant_id sc) m' \<Longrightarrow>
      fst (mem_create_scan sc m) = fst (mem_create_scan sc m') \<and>
      mem_view (sc_tenant_id sc) (snd (mem_create_scan sc m)) = mem_view (sc_tenant_id sc) (snd (mem_create_scan sc m'))"
    unfolding mem_view_def own by (simp add: mem_create_scan_def)
  show "mem_fresh (sc_id sc) m \<Longrightarrow> t' \<noteq> sc_tenant_id sc \<Longrightarrow>
      mem_view t' (snd (mem_create_scan sc m)) = mem_view t' m"
    unfolding mem_view_def own
    by (auto simp: mem_create_scan_def mem_fresh_def own_scan_def fun_upd_idem)
qed

lemma mem_set_finding_status_step:
  "tenant_step mem_view (\<lambda>_. True) t (mem_set_finding_status t u status)"
proof (rule tenant_stepI)
  let ?p = "\<lambda>x. fi_id x = u \<and> fi_tenant_id x = t" and ?f = "fi_status_update (\<lambda>_. status)"
  note own = update_first_filter [of ?p "\<lambda>x. fi_tenant_id x = t" ?f]
  fix m m' t'
  show "mem_view t m = mem_view t m' \<Longrightarrow>
      fst (mem_set_finding_status t u status m) = fst (mem_set_finding_status t u status m') \<and>
      mem_view t (snd (mem_set_finding_status t u status m)) = mem_view t (snd (mem_set_finding_status t u status m'))"
    using own [of "mm_findings m"] own [of "mm_findings m'"]
    by (auto simp: mem_view_def mem_set_finding_status_def own_scan_def fun_eq_iff split: prod.splits)
  show "t' \<noteq> t \<Longrightarrow> mem_view t' (snd (mem_set_finding_status t u status m)) = mem_view t' m"
    using update_first_other [of ?p "\<lambda>x. fi_tenant_id x = t'" ?f "mm_findings m"]
    by (auto simp: mem_view_def mem_set_finding_status_def own_scan_def fun_eq_iff split: prod.splits)
qed

lemma update_first_unchanged: "\<not> fst (update_first p f xs) \<Longrightarrow> snd (update_first p f xs) = xs"
  by (simp add: update_first_def split: option.splits)

lemma mem_set_remediation_state_effect:
  fixes m t u state
  defines "upd \<equiv> update_first (\<lambda>r. re_id r = u) (re_state_update (\<lambda>_. state)) (unwrap_or (hm_get (mm_remediations m) t) [])"
  shows "fst (mem_set_remediation_state t u state m) = Ok (fst upd)"
    "unwrap_or (hm_get (mm_remediations (snd (mem_set_remediation_state t u state m))) t') [] =
      (if t' = t then snd upd else unwrap_or (hm_get (mm_remediations m) t') [])"
    "\<exists>rs. snd (mem_set_remediation_state t u state m) = m\<lparr>mm_remediations := rs\<rparr>"
proof -
  have keep: "\<not> fst upd \<Longrightarrow> snd upd = unwrap_or (hm_get (mm_remediations m) t) []"
    unfolding upd_def by (rule update_first_unchanged)
  show "fst (mem_set_remediation_state t u state m) = Ok (fst upd)"
    "unwrap_or (hm_get (mm_remediations (snd (mem_set_remediation_state t u state m))) t') [] =
      (if t' = t then snd upd else unwrap_or (hm_get (mm_remediations m) t') [])"
    using keep by (auto simp: upd_def mem_set_remediation_state_def hm_simps split: prod.splits option.splits)
  show "\<exists>rs. snd (mem_set_remediation_state t u state m) = m\<lparr>mm_remediations := rs\<rparr>"
    by (auto simp: mem_set_remediation_state_def split: prod.splits option.splits intro: exI [of _ "mm_remediations m"])
qed

lemma mem_set_remediation_state_step:
  "tenant_step mem_view (\<lambda>_. True) t (mem_set_remediation_state t u state)"
proof (rule tenant_stepI)
  note effect = mem_set_remediation_state_effect
  have frame: "mm_licenses (snd (mem_set_remediation_state t u state m)) = mm_licenses m"
      "own_scan t' (snd (mem_set_remediation_state t u state m)) = own_scan t' m"
      "mm_findings (snd (mem_set_remediation_state t u state m)) = mm_findings m" for m t'
  proof -
    obtain rs where "snd (mem_set_remediation_state t u state m) = m\<lparr>mm_remediations := rs\<rparr>" using effect(3) by blast
    then show "mm_licenses (snd (mem_set_remediation_state t u state m)) = mm_licenses m"
      "own_scan t' (snd (mem_set_remediation_state t u state m)) = own_scan t' m"
      "mm_findings (snd (mem_set_remediation_state t u state m)) = mm_findings m" by (simp_all add: own_scan_def fun_eq_iff)
  qed
  fix m m' t'
  show "mem_view t m = mem_view t m' \<Longrightarrow>
      fst (mem_set_remediation_state t u state m) = fst (mem_set_remediation_state t u state m') \<and>
      mem_view t (snd (mem_set_remediation_state t u state m)) = mem_view t (snd (mem_set_remediation_state t u state m'))"
    by (simp add: mem_view_def effect frame)
  show "t' \<noteq> t \<Longrightarrow> mem_view t' (snd (mem_set_remediation_state t u state m)) = mem_view t' m"
    by (simp add: mem_view_def effect frame)
qed

lemma mem_rl_feedback_view [simp]: "mem_view t (m\<lparr>mm_rl_feedback := n\<rparr>) = mem_view t m"
  by (simp add: mem_view_def own_scan_def fun_eq_iff)

interpretation mems: tenant_store mem_store mem_view mem_fresh
proof unfold_locales
  show "tenant_step mem_view (mem_fresh (sc_id sc)) (sc_tenant_id sc) (st_create_scan mem_store sc)" for sc
    by (simp add: mem_create_scan_step)
  show "tenant_step mem_view (\<lambda>_. True) t (st_set_finding_status mem_store t u status)" for t u status
    by (simp add: mem_set_finding_status_step)
  show "tenant_step mem_view (\<lambda>_. True) t (st_set_remediation_state mem_store t u state)" for t u state
    by (simp add: mem_set_remediation_state_step)
  show "tenant_step mem_view (\<lambda>_. True) (lic_tenant_id lic) (st_put_license mem_store lic)" for lic
    by (rule tenant_stepI) (auto simp: mem_put_license_def mem_view_def own_scan_def hm_simps fun_eq_iff)
  show "tenant_step mem_view (\<lambda>_. True) (fi_tenant_id fi) (st_insert_finding mem_store fi)" for fi
    by (rule tenant_stepI) (auto simp: mem_insert_finding_def mem_view_def own_scan_def fun_eq_iff)
  show "tenant_step mem_view (\<lambda>_. True) t (st_insert_remediation mem_store t r)" for t r
    by (rule tenant_stepI) (auto simp: mem_insert_remediation_def mem_view_def own_scan_def hm_simps fun_eq_iff)
  show "tenant_step mem_view (\<lambda>_. True) t (st_record_rl_feedback mem_store t fid act rew)" for t fid act rew
    by (rule tenant_stepI) (auto simp: mem_record_rl_feedback_def)
qed (auto simp: mem_get_license_def mem_get_scan_def own_scan_def mem_view_def mem_list_findings_def
      mem_list_remediations_def mem_lookup_api_key_def mem_fresh_def mem_put_license_def mem_create_scan_def
      mem_set_finding_status_def mem_insert_remediation_def mem_set_remediation_state_def
      mem_record_rl_feedback_def hm_simps fun_eq_iff Let_def split: prod.splits option.splits)

end
