(* ===== verification/Auth.thy ===== *)
theory Auth
  imports Store
begin

text \<open>
  Errors, authentication and authorisation of the platform API: \<open>secureops-api/src/error.rs\<close>,
  \<open>auth.rs\<close>, \<open>authz.rs\<close> and the WebSocket hub of \<open>ws.rs\<close>.

  \<open>jsonwebtoken\<close>, HMAC-SHA256 and the Cedar authorizer are fields of \<open>auth_config\<close>: the decoder gets the
  algorithm and the issuers the code pins and the clock, the authorizer the attributes of the principal. The
  built-in Cedar policy is translated clause by clause (\<open>default_policy_permit\<close>).
\<close>

subsection \<open>error.rs\<close>

datatype api_error =
    Unauthorized string
  | Forbidden string
  | LicenseErr string
  | BadRequest string
  | NotFound
  | StoreErr string
  | Internal string

definition error_code :: "api_error \<Rightarrow> nat \<times> string \<times> bool" where
  "error_code e = (case e of
       Unauthorized c \<Rightarrow> (401, c, True)
     | Forbidden c \<Rightarrow> (403, c, False)
     | LicenseErr c \<Rightarrow> (403, c, False)
     | BadRequest _ \<Rightarrow> (400, ''bad_request'', False)
     | NotFound \<Rightarrow> (404, ''not_found'', False)
     | StoreErr _ \<Rightarrow> (503, ''storage_unavailable'', False)
     | Internal _ \<Rightarrow> (500, ''internal'', False))"

definition error_to_string :: "api_error \<Rightarrow> string" where
  "error_to_string e = (case e of
       Unauthorized c \<Rightarrow> ''unauthorized: '' @ c
     | Forbidden c \<Rightarrow> ''forbidden: '' @ c
     | LicenseErr c \<Rightarrow> ''license: '' @ c
     | BadRequest m \<Rightarrow> ''bad request: '' @ m
     | NotFound \<Rightarrow> ''not found''
     | StoreErr m \<Rightarrow> ''storage error: '' @ m
     | Internal m \<Rightarrow> ''internal: '' @ m)"

definition into_response :: "api_error \<Rightarrow> http_response" where
  "into_response e = (case error_code e of (status, code, with_www_auth) \<Rightarrow>
     \<lparr> hr_status = status, hr_headers = (if with_www_auth then [(''www-authenticate'', ''Bearer'')] else []),
       hr_body = JObj [(''error'', JStr code), (''message'', JStr (error_to_string e))] \<rparr>)"

subsection \<open>auth.rs\<close>

definition ISSUER :: string where "ISSUER = ''secureops''"

definition default_role :: string where "default_role = ''member''"

definition claims_has_feature :: "claims \<Rightarrow> string \<Rightarrow> bool" where
  "claims_has_feature c f = list_ex (\<lambda>x. x = f) (cl_features c)"

definition is_admin :: "claims \<Rightarrow> bool" where
  "is_admin c \<longleftrightarrow> cl_role c = ''admin''"

datatype jwt_alg = HS256 | RS256 | AlgNone

record auth_config =
  ac_jwt_secret :: string
  ac_api_key_pepper :: string
  ac_jwt_encode :: "jwt_alg \<Rightarrow> claims \<Rightarrow> string \<Rightarrow> string + string"
  ac_jwt_decode :: "jwt_alg \<Rightarrow> string list \<Rightarrow> string \<Rightarrow> int \<Rightarrow> string \<Rightarrow> claims option"
  ac_hmac_sha256 :: "string \<Rightarrow> string \<Rightarrow> string"
  ac_cedar :: "string list \<Rightarrow> string \<Rightarrow> string \<Rightarrow> string + bool"

definition issue_jwt :: "auth_config \<Rightarrow> claims \<Rightarrow> string + string" where
  "issue_jwt cfg cl = ac_jwt_encode cfg HS256 (cl\<lparr>cl_iss := ISSUER\<rparr>) (ac_jwt_secret cfg)"

definition verify_jwt :: "auth_config \<Rightarrow> int \<Rightarrow> string \<Rightarrow> string + claims" where
  "verify_jwt cfg now token =
    (case ac_jwt_decode cfg HS256 [ISSUER] (ac_jwt_secret cfg) now token of
       Some c \<Rightarrow> Ok c | None \<Rightarrow> Err ''invalid_token'')"

definition hash_api_key :: "auth_config \<Rightarrow> string \<Rightarrow> string" where
  "hash_api_key cfg key = to_hex (ac_hmac_sha256 cfg (ac_api_key_pepper cfg) key)"

text \<open>The second half of the extractor: the API key.\<close>

definition authenticate_api_key ::
  "auth_config \<Rightarrow> 's store_ops \<Rightarrow> header_map \<Rightarrow> 's \<Rightarrow> api_error + claims" where
  "authenticate_api_key cfg ops headers s =
    (case header_get headers ''x-api-key'' of
       None \<Rightarrow> Err (Unauthorized ''missing_credentials'')
     | Some value \<Rightarrow> (case header_to_str value of
         None \<Rightarrow> Err (Unauthorized ''invalid_token'')
       | Some key \<Rightarrow> (case st_lookup_api_key ops (hash_api_key cfg key) s of
           Inl e \<Rightarrow> Err (StoreErr e)
         | Inr (Some c) \<Rightarrow> Ok c
         | Inr None \<Rightarrow> Err (Unauthorized ''invalid_api_key''))))"

definition authenticate ::
  "auth_config \<Rightarrow> 's store_ops \<Rightarrow> int \<Rightarrow> header_map \<Rightarrow> 's \<Rightarrow> api_error + claims" where
  "authenticate cfg ops now headers s =
    (case header_get headers ''authorization'' of
       None \<Rightarrow> authenticate_api_key cfg ops headers s
     | Some value \<Rightarrow> (case header_to_str value of
         None \<Rightarrow> Err (Unauthorized ''invalid_token'')
       | Some raw \<Rightarrow> (case strip_prefix raw ''Bearer '' of
           None \<Rightarrow> authenticate_api_key cfg ops headers s
         | Some token \<Rightarrow> (case verify_jwt cfg now token of
             Inl code \<Rightarrow> Err (Unauthorized code) | Inr c \<Rightarrow> Ok c))))"

subsection \<open>authz.rs\<close>

definition default_policy_permit :: "string list \<Rightarrow> string \<Rightarrow> string \<Rightarrow> bool" where
  "default_policy_permit features role action \<longleftrightarrow>
     action = ''bughunt'' \<and> ''bughunt'' \<in> set features \<or>
     action = ''sso'' \<and> ''sso'' \<in> set features \<or>
     action = ''threat_intel'' \<and> ''threat_intel'' \<in> set features \<or>
     action = ''scans'' \<or> action = ''findings'' \<or> action = ''license'' \<or> action = ''compliance'' \<or>
     action = ''clouds'' \<or> action = ''llm_keys'' \<or>
     action = ''remediation_admin'' \<and> role = ''admin''"

definition allows_role :: "auth_config \<Rightarrow> string list \<Rightarrow> string \<Rightarrow> string \<Rightarrow> bool" where
  "allows_role cfg features role action \<longleftrightarrow> ac_cedar cfg features role action = Ok True"

definition allows :: "auth_config \<Rightarrow> string list \<Rightarrow> string \<Rightarrow> bool" where
  "allows cfg features action = allows_role cfg features ''member'' action"

subsection \<open>ws.rs\<close>

record hub_msg =
  hu_tenant :: "string option"
  hu_payload :: json

definition resolve_ws_principal ::
  "auth_config \<Rightarrow> 's store_ops \<Rightarrow> int \<Rightarrow> header_map \<Rightarrow> string option \<Rightarrow> 's \<Rightarrow> claims option" where
  "resolve_ws_principal cfg ops now headers access_token s =
    (let bearer = Option.bind (header_str headers ''authorization'') (\<lambda>v. strip_prefix v ''Bearer '');
         try_tok = (\<lambda>tok. Option.bind tok (\<lambda>t. ok (verify_jwt cfg now t)))
     in or_opt (try_tok bearer) (or_opt (try_tok access_token)
          (Option.bind (header_str headers ''x-api-key'') (\<lambda>key.
             case st_lookup_api_key ops (hash_api_key cfg key) s of Inr (Some c) \<Rightarrow> Some c | _ \<Rightarrow> None))))"

definition delivers :: "string \<Rightarrow> hub_msg \<Rightarrow> bool" where
  "delivers tenant msg = (case hu_tenant msg of None \<Rightarrow> True | Some t \<Rightarrow> t = tenant)"

text \<open>
  A subscription: the messages received until the client is gone. A receive yields a message, a
  lag notice (skipped) or the end of the channel; sending succeeds or ends the loop.
\<close>

datatype recv = Msg hub_msg bool | Lagged | Closed

fun forward :: "string \<Rightarrow> recv list \<Rightarrow> json list" where
  "forward tenant [] = []"
| "forward tenant (Msg m sends # rs) =
    (if delivers tenant m then (if sends then hu_payload m # forward tenant rs else []) else forward tenant rs)"
| "forward tenant (Lagged # rs) = forward tenant rs"
| "forward tenant (Closed # rs) = []"

definition ws_handler ::
  "auth_config \<Rightarrow> 's store_ops \<Rightarrow> int \<Rightarrow> header_map \<Rightarrow> string option \<Rightarrow> 's \<Rightarrow> recv list \<Rightarrow> http_response + json list"
where
  "ws_handler cfg ops now headers access_token s rs =
    (case resolve_ws_principal cfg ops now headers access_token s of
       None \<Rightarrow> Inl \<lparr> hr_status = 401, hr_headers = [(''www-authenticate'', ''Bearer'')], hr_body = JStr ''unauthorized'' \<rparr>
     | Some c \<Rightarrow> Inr (forward (cl_tenant c) rs))"

subsection \<open>Facts\<close>

lemma into_response_status:
  "hr_status (into_response e) \<in> {400, 401, 403, 404, 500, 503}"
  "hr_headers (into_response e) \<noteq> [] \<longleftrightarrow> hr_status (into_response e) = 401"
  by (cases e; simp add: into_response_def error_code_def)+

text \<open>Nothing of another tenant reaches a subscriber.\<close>

lemma forward_only_own:
  "p \<in> set (forward tenant rs) \<Longrightarrow>
    \<exists>m sends. Msg m sends \<in> set rs \<and> hu_payload m = p \<and> (hu_tenant m = None \<or> hu_tenant m = Some tenant)"
proof (induction tenant rs rule: forward.induct)
  case (2 tenant m sends rs)
  then show ?case by (cases "hu_tenant m") (auto simp: delivers_def split: if_splits)
qed auto

text \<open>
  Who a request is: a verified session token, else a registered API key; a bearer token that
  does not verify is never replaced by the API key.
\<close>

lemma authenticate_api_key_Ok:
  "authenticate_api_key cfg ops headers s = Ok c \<longleftrightarrow>
    (\<exists>key. header_str headers ''x-api-key'' = Some key \<and> st_lookup_api_key ops (hash_api_key cfg key) s = Ok (Some c))"
  by (auto simp: authenticate_api_key_def header_str_def split: option.splits sum.splits)

lemma authenticate_Ok:
  "authenticate cfg ops now headers s = Ok c \<longleftrightarrow>
    (\<exists>raw token. header_str headers ''authorization'' = Some raw \<and> strip_prefix raw ''Bearer '' = Some token \<and>
       ac_jwt_decode cfg HS256 [ISSUER] (ac_jwt_secret cfg) now token = Some c) \<or>
    ((header_get headers ''authorization'' = None \<or>
      (\<exists>raw. header_str headers ''authorization'' = Some raw \<and> strip_prefix raw ''Bearer '' = None)) \<and>
     authenticate_api_key cfg ops headers s = Ok c)"
proof (cases "header_get headers ''authorization''")
  case (Some hv)
  show ?thesis
  proof (cases "header_to_str hv")
    case None
    then show ?thesis using Some by (auto simp: authenticate_def header_str_def)
  next
    case raw: (Some raw)
    then have "header_str headers ''authorization'' = Some raw"
      using Some by (simp add: header_str_def)
    with raw Some show ?thesis
      by (cases "strip_prefix raw ''Bearer ''") (auto simp: authenticate_def verify_jwt_def split: option.splits)
  qed
next
  case None
  then show ?thesis by (auto simp: authenticate_def header_str_def)
qed

end
