(* ===== verification/Rl.thy ===== *)
theory Rl
  imports TokenBudget
begin

text \<open>
  The finding ranker, \<open>secureops-rl/src/lib.rs\<close>: feature vectors, the LinUCB model with its
  Sherman-Morrison update, the ranking and the quality measures.

  The operations take the rounding as an argument: the program is the instance \<open>round32\<close>. The lemmas
  about the linear algebra are for the instance \<open>Fin\<close>, exact arithmetic, where the update keeps the inverse
  of the design matrix exactly; what single precision adds to it is not bounded here. The square
  root, \<open>powf\<close> and \<open>log2\<close> are the platform's.
\<close>

subsection \<open>Rewards and features\<close>

datatype rl_action = Confirm | Escalate | Dismiss

definition base_reward :: "rl_action \<Rightarrow> f32" where
  "base_reward a = (case a of Confirm \<Rightarrow> Fin 1 | Escalate \<Rightarrow> Fin (3 / 2) | Dismiss \<Rightarrow> Fin (- 1))"

definition decayed_reward :: "(f32 \<Rightarrow> f32 \<Rightarrow> f32) \<Rightarrow> rl_action \<Rightarrow> f32 \<Rightarrow> f32" where
  "decayed_reward powf action hours =
     flt_mul round32 (base_reward action) (powf (round32 (95 / 100)) (flt_max hours (Fin 0)))"

record feature_spec =
  fs_n_rule_categories :: nat
  fs_n_clouds :: nat

definition dim :: "feature_spec \<Rightarrow> nat" where
  "dim spec = 4 + fs_n_rule_categories spec + fs_n_clouds spec + 1"

record finding_features =
  fe_severity :: u8
  fe_blast_radius_norm :: f32
  fe_exposed_internet :: bool
  fe_rule_category :: nat
  fe_cloud :: nat
  fe_recency_decay :: f32

definition onehot :: "nat \<Rightarrow> nat \<Rightarrow> f32 list" where
  "onehot n i = (let v = replicate n (Fin 0) in if i < length v then v[i := Fin 1] else v)"

definition features_to_vec :: "feature_spec \<Rightarrow> finding_features \<Rightarrow> f32 list" where
  "features_to_vec spec f =
    [flt_div round32 (f32_of_nat (unat (fe_severity f))) (Fin 4),
     clamp01 (fe_blast_radius_norm f),
     (if fe_exposed_internet f then Fin 1 else Fin 0),
     clamp01 (fe_recency_decay f)]
    @ onehot (fs_n_rule_categories spec) (fe_rule_category f)
    @ onehot (fs_n_clouds spec) (fe_cloud f)
    @ [Fin 1]"

lemma length_features_to_vec: "length (features_to_vec spec f) = dim spec"
  by (simp add: features_to_vec_def dim_def onehot_def Let_def)

subsection \<open>LinUCB\<close>

record lin_ucb =
  lu_d :: nat
  lu_alpha :: f32
  lu_a_inv :: "f32 list"
  lu_b :: "f32 list"
  lu_updates :: u64

definition linucb_new :: "nat \<Rightarrow> f32 \<Rightarrow> lin_ucb" where
  "linucb_new d alpha = \<lparr> lu_d = d, lu_alpha = alpha,
     lu_a_inv = foldl (\<lambda>a i. a[i * d + i := Fin 1]) (replicate (d * d) (Fin 0)) [0..<d],
     lu_b = replicate d (Fin 0), lu_updates = 0 \<rparr>"

definition mat_at :: "lin_ucb \<Rightarrow> nat \<Rightarrow> nat \<Rightarrow> f32" where
  "mat_at m r c = lu_a_inv m ! (r * lu_d m + c)"

definition a_inv_mul :: "(rat \<Rightarrow> flt) \<Rightarrow> lin_ucb \<Rightarrow> f32 list \<Rightarrow> f32 list" where
  "a_inv_mul rnd m v = map (\<lambda>r. foldl (\<lambda>acc c. flt_add rnd acc (flt_mul rnd (mat_at m r c) (v ! c))) (Fin 0) [0..<lu_d m])
     [0..<lu_d m]"

definition theta :: "(rat \<Rightarrow> flt) \<Rightarrow> lin_ucb \<Rightarrow> f32 list" where
  "theta rnd m = a_inv_mul rnd m (lu_b m)"

definition dot :: "(rat \<Rightarrow> flt) \<Rightarrow> f32 list \<Rightarrow> f32 list \<Rightarrow> f32" where
  "dot rnd xs ys = foldl (flt_add rnd) (Fin 0) (map2 (flt_mul rnd) xs ys)"

definition score :: "(rat \<Rightarrow> flt) \<Rightarrow> (f32 \<Rightarrow> f32) \<Rightarrow> lin_ucb \<Rightarrow> f32 list \<Rightarrow> f32" where
  "score rnd sqrt32 m x =
    (let pred = dot rnd (theta rnd m) x;
         a_inv_x = a_inv_mul rnd m x;
         var = dot rnd x a_inv_x
     in flt_add rnd pred (flt_mul rnd (lu_alpha m) (sqrt32 (flt_max var (Fin 0)))))"

fun flt_neg :: "flt \<Rightarrow> flt" where
  "flt_neg NaN = NaN"
| "flt_neg NInf = PInf"
| "flt_neg PInf = NInf"
| "flt_neg (Fin a) = Fin (- a)"

definition flt_abs :: "flt \<Rightarrow> flt" where
  "flt_abs x = (if flt_less x (Fin 0) then flt_neg x else x)"

definition f32_EPSILON :: f32 where
  "f32_EPSILON = Fin (1 / 2 ^ 23)"

definition update :: "(rat \<Rightarrow> flt) \<Rightarrow> f32 list \<Rightarrow> f32 \<Rightarrow> lin_ucb \<Rightarrow> lin_ucb" where
  "update rnd x reward m =
    (let d = lu_d m;
         u = a_inv_mul rnd m x;
         denom = flt_add rnd (Fin 1) (dot rnd x u);
         a_inv = (if flt_less f32_EPSILON (flt_abs denom)
           then foldl (\<lambda>a r. foldl (\<lambda>a c. a[r * d + c := flt_add rnd (a ! (r * d + c))
                  (flt_neg (flt_div rnd (flt_mul rnd (u ! r) (u ! c)) denom))]) a [0..<d]) (lu_a_inv m) [0..<d]
           else lu_a_inv m)
     in m\<lparr> lu_a_inv := a_inv,
           lu_b := map (\<lambda>i. flt_add rnd (lu_b m ! i) (flt_mul rnd reward (x ! i))) [0..<d],
           lu_updates := lu_updates m + 1 \<rparr>)"

definition rank :: "(rat \<Rightarrow> flt) \<Rightarrow> (f32 \<Rightarrow> f32) \<Rightarrow> lin_ucb \<Rightarrow> f32 list list \<Rightarrow> nat list" where
  "rank rnd sqrt32 m items = sort_by (\<lambda>a b. unwrap_or (partial_cmp (score rnd sqrt32 m (items ! b))
     (score rnd sqrt32 m (items ! a))) Equal) [0..<length items]"

subsection \<open>Ranking quality\<close>

definition dcg :: "(f32 \<Rightarrow> f32) \<Rightarrow> f32 list \<Rightarrow> nat \<Rightarrow> f32" where
  "dcg log2 rels k = foldl (flt_add round32) (Fin 0)
     (map (\<lambda>(i, rel). flt_div round32 rel (log2 (f32_of_nat (i + 2)))) (enumerate 0 (take k rels)))"

definition ndcg_at_k :: "(f32 \<Rightarrow> f32) \<Rightarrow> f32 list \<Rightarrow> nat \<Rightarrow> f32" where
  "ndcg_at_k log2 ranked k =
    (let ideal = sort_by (\<lambda>a b. unwrap_or (partial_cmp b a) Equal) ranked;
         idcg = dcg log2 ideal k
     in if flt_eq idcg (Fin 0) then Fin 0 else flt_div round32 (dcg log2 ranked k) idcg)"

definition precision_at_k :: "bool list \<Rightarrow> nat \<Rightarrow> f32" where
  "precision_at_k ranked k =
    (let k' = max (min k (length ranked)) 1;
         hits = length (filter (\<lambda>r. r) (take k' ranked))
     in flt_div round32 (f32_of_nat hits) (f32_of_nat k'))"

lemma rank_permutation: "mset (rank rnd sq m items) = mset [0..<length items]"
  by (simp only: rank_def mset_sort_by)

subsection \<open>Nested index loops\<close>

text \<open>The row-major loops write every cell once, so they are a pointwise update.\<close>

lemma foldl_update_row:
  assumes "n + base \<le> length a"
  shows "foldl (\<lambda>a c. a[base + c := f c (a ! (base + c))]) a [0..<n] =
    map (\<lambda>i. if base \<le> i \<and> i < base + n then f (i - base) (a ! i) else a ! i) [0..<length a]"
  using assms
proof (induction n)
  case 0
  then show ?case by (auto intro!: nth_equalityI)
next
  case (Suc n)
  then show ?case by (auto intro!: nth_equalityI simp: nth_list_update)
qed

lemma foldl_update_rows:
  assumes "length a = d * d" and "n \<le> d"
  shows "foldl (\<lambda>a r. foldl (\<lambda>a c. a[r * d + c := f r c (a ! (r * d + c))]) a [0..<d]) a [0..<n] =
    map (\<lambda>i. if i < n * d then f (i div d) (i mod d) (a ! i) else a ! i) [0..<d * d]"
  using assms(2)
proof (induction n)
  case 0
  then show ?case using assms(1) map_nth [of a] by simp
next
  case (Suc n)
  let ?g = "\<lambda>i. if i < n * d then f (i div d) (i mod d) (a ! i) else a ! i"
  have "n * d + d \<le> d * d" using Suc.prems mult_le_mono1 [of "Suc n" d d] by simp
  moreover have "i div d = n \<and> i mod d = i - n * d" if "n * d \<le> i" "i < n * d + d" for i
    using that by (metis div_nat_eqI add.commute less_diff_conv2 minus_mod_eq_mult_div mod_div_trivial
        minus_div_mult_eq_mod mult.commute mult_Suc)
  ultimately show ?case
    using Suc foldl_update_row [of d "n * d" "map ?g [0..<d * d]" "f n"]
    by (auto intro!: nth_equalityI)
qed

lemma foldl_update_all:
  assumes "length a = d * d"
  shows "foldl (\<lambda>a r. foldl (\<lambda>a c. a[r * d + c := f r c (a ! (r * d + c))]) a [0..<d]) a [0..<d] =
    map (\<lambda>i. f (i div d) (i mod d) (a ! i)) [0..<d * d]"
  using foldl_update_rows [OF assms order_refl, of f] by simp

subsection \<open>Exact arithmetic\<close>

definition exact_model :: "lin_ucb \<Rightarrow> nat \<Rightarrow> (nat \<Rightarrow> nat \<Rightarrow> rat) \<Rightarrow> (nat \<Rightarrow> rat) \<Rightarrow> bool" where
  "exact_model m d B bv \<longleftrightarrow> lu_d m = d \<and> lu_a_inv m = map (\<lambda>i. Fin (B (i div d) (i mod d))) [0..<d * d] \<and>
     lu_b m = map (\<lambda>i. Fin (bv i)) [0..<d]"

lemma foldl_exact:
  "foldl (\<lambda>acc c. flt_add Fin acc (flt_mul Fin (Fin (g c)) (Fin (h c)))) (Fin a) [0..<n] = Fin (a + (\<Sum>c<n. g c * h c))"
  by (induction n) (simp_all add: algebra_simps)

lemma dot_exact:
  assumes "length xs = length ys"
  shows "dot Fin (map Fin xs) (map Fin ys) = Fin (\<Sum>i<length xs. xs ! i * ys ! i)"
proof -
  have "foldl (flt_add Fin) (Fin a) (map2 (flt_mul Fin) (map Fin xs) (map Fin ys)) = Fin (a + (\<Sum>i<length xs. xs ! i * ys ! i))" for a
    using assms
    by (induction xs ys arbitrary: a rule: list_induct2)
      (simp_all add: sum.lessThan_Suc_shift add.assoc del: sum.lessThan_Suc)
  from this [of 0] show ?thesis by (simp add: dot_def)
qed

lemma row_major_index: "r < d \<Longrightarrow> c < d \<Longrightarrow> r * d + c < d * (d :: nat)"
  by (metis add.commute add_less_cancel_right less_le_trans mult.commute mult_Suc mult_le_mono2 Suc_leI)

lemma mat_at_exact: "exact_model m d B bv \<Longrightarrow> r < d \<Longrightarrow> c < d \<Longrightarrow> mat_at m r c = Fin (B r c)"
  by (simp add: exact_model_def mat_at_def row_major_index)

lemma a_inv_mul_exact:
  assumes "exact_model m d B bv" and "length v = d"
  shows "a_inv_mul Fin m (map Fin v) = map Fin (map (\<lambda>r. \<Sum>c<d. B r c * v ! c) [0..<d])"
proof -
  have d: "lu_d m = d" using assms(1) by (simp add: exact_model_def)
  have "foldl (\<lambda>acc c. flt_add Fin acc (flt_mul Fin (mat_at m r c) (map Fin v ! c))) (Fin 0) [0..<d] =
      foldl (\<lambda>acc c. flt_add Fin acc (flt_mul Fin (Fin (B r c)) (Fin (v ! c)))) (Fin 0) [0..<d]" if "r < d" for r
    using that assms by (intro foldl_cong) (auto simp: mat_at_exact)
  then show ?thesis
    using foldl_exact [of "B _" "\<lambda>c. v ! c" 0 d] by (simp add: a_inv_mul_def d)
qed

text \<open>The update of the inverse is the Sherman-Morrison formula whenever its denominator is at least one.\<close>

lemma update_exact:
  fixes xs d B
  defines "u \<equiv> \<lambda>r. \<Sum>c<d. B r c * xs ! c"
  defines "sm \<equiv> \<Sum>r<d. xs ! r * u r"
  assumes m: "exact_model m d B bv" and xs: "length xs = d" and sm: "0 \<le> sm"
  shows "exact_model (update Fin (map Fin xs) (Fin rw) m) d (\<lambda>r c. B r c - u r * u c / (1 + sm))
    (\<lambda>i. bv i + rw * xs ! i)"
proof -
  have u: "a_inv_mul Fin m (map Fin xs) = map Fin (map u [0..<d])"
    using a_inv_mul_exact [OF m xs] by (simp add: u_def)
  have "dot Fin (map Fin xs) (map Fin (map u [0..<d])) = Fin sm"
    using dot_exact [of xs "map u [0..<d]"] xs by (simp add: sm_def)
  then have denom: "flt_add Fin (Fin 1) (dot Fin (map Fin xs) (map Fin (map u [0..<d]))) = Fin (1 + sm)"
    by simp
  have big: "flt_less f32_EPSILON (flt_abs (Fin (1 + sm)))"
    using sm by (simp add: f32_EPSILON_def flt_abs_def flt_less_def)
  have "i div d < d \<and> i mod d < d" if "i < d * d" for i
    using that by (cases "d = 0") (auto simp: less_mult_imp_div_less)
  then have "map (\<lambda>i. flt_add Fin (lu_a_inv m ! i) (flt_neg (flt_div Fin
        (flt_mul Fin (map Fin (map u [0..<d]) ! (i div d)) (map Fin (map u [0..<d]) ! (i mod d))) (Fin (1 + sm))))) [0..<d * d]
    = map (\<lambda>i. Fin (B (i div d) (i mod d) - u (i div d) * u (i mod d) / (1 + sm))) [0..<d * d]"
    using m sm by (auto simp: exact_model_def)
  moreover have "length (lu_a_inv m) = d * d" "lu_d m = d" using m by (auto simp: exact_model_def)
  ultimately have "lu_a_inv (update Fin (map Fin xs) (Fin rw) m) =
      map (\<lambda>i. Fin (B (i div d) (i mod d) - u (i div d) * u (i mod d) / (1 + sm))) [0..<d * d]"
    using foldl_update_all [of "lu_a_inv m" d "\<lambda>r c v. flt_add Fin v (flt_neg (flt_div Fin
        (flt_mul Fin (map Fin (map u [0..<d]) ! r) (map Fin (map u [0..<d]) ! c)) (Fin (1 + sm))))"]
    by (simp only: update_def Let_def u denom big) simp
  moreover have "lu_b (update Fin (map Fin xs) (Fin rw) m) = map (\<lambda>i. Fin (bv i + rw * xs ! i)) [0..<d]"
    using m xs by (auto simp: update_def Let_def exact_model_def)
  moreover have "lu_d (update Fin (map Fin xs) (Fin rw) m) = d"
    using m by (simp add: update_def Let_def exact_model_def)
  ultimately show ?thesis by (simp add: exact_model_def)
qed

subsection \<open>The design matrix and its inverse\<close>

definition delta :: "nat \<Rightarrow> nat \<Rightarrow> rat" where
  "delta r c = (if r = c then 1 else 0)"

definition design :: "(rat list \<times> rat) list \<Rightarrow> nat \<Rightarrow> nat \<Rightarrow> rat" where
  "design hist r c = delta r c + (\<Sum>(x, _)\<leftarrow>hist. x ! r * x ! c)"

definition responses :: "(rat list \<times> rat) list \<Rightarrow> nat \<Rightarrow> rat" where
  "responses hist i = (\<Sum>(x, rw)\<leftarrow>hist. rw * x ! i)"

definition inverts :: "nat \<Rightarrow> (nat \<Rightarrow> nat \<Rightarrow> rat) \<Rightarrow> (nat \<Rightarrow> nat \<Rightarrow> rat) \<Rightarrow> bool" where
  "inverts d A B \<longleftrightarrow> (\<forall>r<d. \<forall>c<d. (\<Sum>k<d. A r k * B k c) = delta r c \<and> B r c = B c r)"

lemma delta_sum [simp]: "r < d \<Longrightarrow> (\<Sum>k<d. delta r k * f k) = f r"
  by (simp add: delta_def if_distrib [of "\<lambda>x. x * _"] cong: if_cong)

lemma inverts_solve:
  assumes "inverts d A B" and "r < d"
  shows "(\<Sum>k<d. A r k * (\<Sum>c<d. B k c * v c)) = v r"
proof -
  have "(\<Sum>k<d. A r k * (\<Sum>c<d. B k c * v c)) = (\<Sum>c<d. (\<Sum>k<d. A r k * B k c) * v c)"
    by (simp add: sum_distrib_left sum_distrib_right mult.assoc) (rule sum.swap)
  also have "(\<Sum>k<d. A r k * B k c) = delta r c" if "c < d" for c
    using assms that unfolding inverts_def by blast
  then have "(\<Sum>c<d. (\<Sum>k<d. A r k * B k c) * v c) = (\<Sum>c<d. delta r c * v c)"
    by (intro sum.cong) auto
  finally show ?thesis using assms(2) by simp
qed

lemma design_quadratic:
  "(\<Sum>r<d. v r * (\<Sum>k<d. design hist r k * v k)) = (\<Sum>r<d. v r * v r) + (\<Sum>(x, _)\<leftarrow>hist. (\<Sum>r<d. x ! r * v r) ^ 2)"
proof (induction hist)
  case Nil
  then show ?case by (simp add: design_def)
next
  case (Cons h hist)
  obtain x w where h: "h = (x, w)" by (cases h)
  have split: "design (h # hist) r k = design hist r k + x ! r * x ! k" for r k
    by (simp add: design_def h)
  have "(\<Sum>r<d. v r * (\<Sum>k<d. x ! r * x ! k * v k)) = (\<Sum>r<d. x ! r * v r) ^ 2"
  proof -
    have "(\<Sum>r<d. v r * (\<Sum>k<d. x ! r * x ! k * v k)) = (\<Sum>r<d. x ! r * v r * (\<Sum>k<d. x ! k * v k))"
      by (simp add: sum_distrib_left ac_simps)
    then show ?thesis by (simp add: power2_eq_square sum_distrib_right)
  qed
  with Cons show ?case
    by (simp add: split [unfolded h] h distrib_right sum.distrib distrib_left)
qed

lemma inverts_update:
  fixes d B x hist
  defines "u \<equiv> \<lambda>r. \<Sum>c<d. B r c * x ! c"
  defines "sm \<equiv> \<Sum>r<d. x ! r * u r"
  assumes inv: "inverts d (design hist) B"
  shows "0 \<le> sm" and "inverts d (design (hist @ [(x, rw)])) (\<lambda>r c. B r c - u r * u c / (1 + sm))"
proof -
  have solve: "(\<Sum>k<d. design hist r k * u k) = x ! r" if "r < d" for r
    using inverts_solve [OF inv that, of "\<lambda>c. x ! c"] by (simp add: u_def)
  then have "sm = (\<Sum>r<d. u r * (\<Sum>k<d. design hist r k * u k))"
    by (simp add: sm_def mult.commute)
  also have "\<dots> = (\<Sum>r<d. u r * u r) + (\<Sum>(y, _)\<leftarrow>hist. (\<Sum>r<d. y ! r * u r) ^ 2)"
    by (rule design_quadratic)
  also have "0 \<le> \<dots>" by (intro add_nonneg_nonneg sum_nonneg sum_list_nonneg) auto
  finally show sm: "0 \<le> sm" .
  have "(\<Sum>k<d. design (hist @ [(x, rw)]) r k * (B k c - u k * u c / (1 + sm))) = delta r c"
    if rc: "r < d" "c < d" for r c
  proof -
    have "(\<Sum>k<d. x ! k * B k c) = u c"
      using inv rc(2) by (auto simp: u_def inverts_def mult.commute intro!: sum.cong)
    moreover have "(\<Sum>k<d. design hist r k * B k c) = delta r c"
      using inv rc unfolding inverts_def by blast
    moreover have "(\<Sum>k<d. design (hist @ [(x, rw)]) r k * (B k c - u k * u c / (1 + sm))) =
      (\<Sum>k<d. design hist r k * B k c) - (\<Sum>k<d. design hist r k * u k) * (u c / (1 + sm)) +
      x ! r * (\<Sum>k<d. x ! k * B k c) - x ! r * (\<Sum>k<d. x ! k * u k) * (u c / (1 + sm))"
      by (simp add: design_def algebra_simps sum.distrib sum_subtractf sum_distrib_left sum_distrib_right)
    moreover have "(\<Sum>k<d. x ! k * u k) = sm" by (simp add: sm_def)
    ultimately have "(\<Sum>k<d. design (hist @ [(x, rw)]) r k * (B k c - u k * u c / (1 + sm))) =
      delta r c - x ! r * (u c / (1 + sm)) + x ! r * u c - x ! r * sm * (u c / (1 + sm))"
      using solve [OF rc(1)] by (simp only:)
    moreover have "x ! r * (u c / (1 + sm)) + x ! r * sm * (u c / (1 + sm)) = x ! r * u c"
    proof -
      have "x ! r * (u c / (1 + sm)) + x ! r * sm * (u c / (1 + sm)) = x ! r * ((1 + sm) * (u c / (1 + sm)))"
        by (simp only: distrib_left distrib_right mult_1_left mult.assoc)
      then show ?thesis using sm by simp
    qed
    ultimately show ?thesis by simp
  qed
  moreover have "B r c - u r * u c / (1 + sm) = B c r - u c * u r / (1 + sm)" if "r < d" "c < d" for r c
    using inv that by (simp add: inverts_def mult.commute)
  ultimately show "inverts d (design (hist @ [(x, rw)])) (\<lambda>r c. B r c - u r * u c / (1 + sm))"
    by (simp add: inverts_def)
qed

definition train :: "(rat \<Rightarrow> flt) \<Rightarrow> (f32 list \<times> f32) list \<Rightarrow> lin_ucb \<Rightarrow> lin_ucb" where
  "train rnd hist m = foldl (\<lambda>m (x, rw). update rnd x rw m) m hist"

lemma linucb_new_exact: "exact_model (linucb_new d alpha) d delta (\<lambda>_. 0)"
proof -
  have "foldl (\<lambda>a i. a[i * d + i := Fin 1]) (replicate (d * d) (Fin 0)) [0..<n] =
      map (\<lambda>i. if i div d = i mod d \<and> i div d < n then Fin 1 else Fin 0) [0..<d * d]" if "n \<le> d" for n
    using that
  proof (induction n)
    case 0
    then show ?case by (auto intro!: nth_equalityI)
  next
    case (Suc n)
    have "n * d + n = i \<longleftrightarrow> i div d = n \<and> i mod d = n" for i
      using Suc.prems by auto (metis div_mult_mod_eq)
    moreover have "n * d + n < d * d" using Suc.prems by (intro row_major_index) auto
    ultimately show ?case using Suc by (intro nth_equalityI) (auto simp: nth_list_update less_Suc_eq)
  qed
  from this [of d] have "lu_a_inv (linucb_new d alpha) = map (\<lambda>i. Fin (delta (i div d) (i mod d))) [0..<d * d]"
    by (auto simp: linucb_new_def delta_def less_mult_imp_div_less)
  then show ?thesis by (simp add: exact_model_def linucb_new_def map_replicate_const)
qed

lemma train_exact:
  assumes "\<forall>(x, _)\<in>set hist. length x = d"
  shows "\<exists>B. exact_model (train Fin (map (\<lambda>(x, rw). (map Fin x, Fin rw)) hist) (linucb_new d alpha)) d B (responses hist) \<and>
    inverts d (design hist) B"
  using assms
proof (induction hist rule: rev_induct)
  case Nil
  have "inverts d (design []) delta" by (auto simp: inverts_def design_def) (simp add: delta_def)
  then show ?case using linucb_new_exact [of d alpha] by (auto simp: train_def responses_def)
next
  case (snoc h hist)
  obtain x rw where h: "h = (x, rw)" by (cases h)
  from snoc obtain B where
    B: "exact_model (train Fin (map (\<lambda>(x, rw). (map Fin x, Fin rw)) hist) (linucb_new d alpha)) d B (responses hist)"
      "inverts d (design hist) B" by auto
  have "(\<lambda>i. responses hist i + rw * x ! i) = responses (hist @ [h])"
    by (rule ext) (simp add: responses_def h)
  then show ?case
    using update_exact [OF B(1), of x rw] inverts_update(1) [OF B(2), of x] inverts_update(2) [OF B(2), of x rw] snoc.prems
    by (auto simp: h train_def)
qed

text \<open>
  C39: In exact arithmetic the online updates solve the ridge regression they claim to: after any sequence of
  feedback events from a fresh model, \<open>theta\<close> satisfies the normal equations
  \<open>(I + \<Sum> x x\<^sup>T) theta = \<Sum> reward x\<close>.
\<close>

theorem theta_solves_ridge:
  assumes "\<forall>(x, rw)\<in>set hist. length x = d"
  shows "\<exists>th. theta Fin (train Fin (map (\<lambda>(x, rw). (map Fin x, Fin rw)) hist) (linucb_new d alpha)) = map Fin th \<and>
    length th = d \<and> (\<forall>r<d. (\<Sum>k<d. design hist r k * th ! k) = responses hist r)"
proof -
  let ?m = "train Fin (map (\<lambda>(x, rw). (map Fin x, Fin rw)) hist) (linucb_new d alpha)"
  obtain B where B: "exact_model ?m d B (responses hist)" and inv: "inverts d (design hist) B"
    using train_exact [of hist d alpha] assms by auto
  have "lu_b ?m = map Fin (map (responses hist) [0..<d])" using B by (simp add: exact_model_def)
  then have "theta Fin ?m = map Fin (map (\<lambda>r. \<Sum>c<d. B r c * responses hist c) [0..<d])"
    using a_inv_mul_exact [OF B, of "map (responses hist) [0..<d]"] by (simp add: theta_def)
  then show ?thesis
    using inverts_solve [OF inv, of _ "responses hist"]
    by (intro exI [of _ "map (\<lambda>r. \<Sum>c<d. B r c * responses hist c) [0..<d]"]) simp
qed

theorem theta_solves_ridge_witness:
  "\<exists>th. theta Fin (train Fin [([Fin 1, Fin 0], Fin 1), ([Fin 1, Fin 1], Fin (- 1))] (linucb_new 2 (Fin (1 / 10)))) = map Fin th
    \<and> length th = 2 \<and>
    (\<forall>r<2. (\<Sum>k<2. design [([1, 0], 1), ([1, 1], - 1)] r k * th ! k) = responses [([1, 0], 1), ([1, 1], - 1)] r)"
  using theta_solves_ridge [of "[([1, 0], 1), ([1, 1], - 1)]" 2 "Fin (1 / 10)"] by simp

end
