(* ===== verification/BugHunt.thy ===== *)
theory BugHunt
  imports TokenBudget Json
begin

text \<open>
  The bounded agentic loop, \<open>secureops-bughunt/src/lib.rs\<close>, and the request and response codecs of the two
  LLM providers, \<open>secureops-bughunt/src/providers.rs\<close>.

  A provider is any state with a \<open>complete\<close> function (\<open>llm\<close> below) and a toolbox any state with a \<open>call\<close> function, so the
  theorems hold for every model and every tool. The JSON parser of reports is a parameter.

  The lemmas account for every call the loop makes (\<open>hunt_loop_accounts\<close>: the loop terminates and spends at most its
  bounds, whatever the model answers), and show that it reaches a report whenever the model gives one in time.
\<close>

subsection \<open>Types\<close>

record msg =
  msg_role :: string
  msg_content :: string

record completion_req =
  cq_system :: string
  cq_messages :: "msg list"
  cq_max_tokens :: nat

record tool_call =
  tc_name :: string
  tc_args :: json

record completion_resp =
  cr_content :: string
  cr_tool_call :: "tool_call option"

type_synonym 'p llm_provider = "completion_req \<Rightarrow> 'p \<Rightarrow> (string + completion_resp) \<times> 'p"
type_synonym 't tool_box = "tool_call \<Rightarrow> 't \<Rightarrow> string \<times> 't"

definition no_tools :: "unit tool_box" where
  "no_tools tc t = (''{}'', t)"

datatype job_status = HuntCompleted | HuntFailed | HuntHalted

record finding_report =
  fr_title :: string
  fr_attack_vector :: string
  fr_affected_assets :: "string list"
  fr_evidence_refs :: "string list"
  fr_severity :: string
  fr_cvss_like_score :: f32
  fr_remediation_steps :: "string list"

record hunt_outcome =
  ho_report :: "finding_report option"
  ho_iterations :: nat
  ho_tool_calls :: nat
  ho_status :: job_status
  ho_error :: "string option"

record bug_hunter =
  bh_budget :: token_budget
  bh_max_depth :: nat
  bh_max_tool_calls :: nat

definition hunter_new :: "token_budget \<Rightarrow> bug_hunter" where
  "hunter_new budget = \<lparr> bh_budget = budget, bh_max_depth = 4, bh_max_tool_calls = 25 \<rparr>"

definition with_limits :: "nat \<Rightarrow> nat \<Rightarrow> bug_hunter \<Rightarrow> bug_hunter" where
  "with_limits max_depth max_tool_calls h = h\<lparr> bh_max_depth := max_depth, bh_max_tool_calls := max_tool_calls \<rparr>"

definition system_prompt :: "string \<Rightarrow> string" where
  "system_prompt scope = ''You are a cloud security analyst. Investigate scope `'' @ scope @ ''`. Either call a '' @
     ''read-only tool to gather more evidence, or return a single JSON FindingReport '' @
     ''with fields: title, attack_vector, affected_assets[], evidence_refs[], severity, '' @
     ''cvss_like_score, remediation_steps[].''"

subsection \<open>The loop\<close>

text \<open>
  \<open>rest\<close> counts the iterations still allowed; the state is the provider's, the toolbox's, the transcript and
  the number of tool calls.
\<close>

fun hunt_loop ::
  "'p llm_provider \<Rightarrow> 't tool_box \<Rightarrow> (string \<Rightarrow> string + finding_report) \<Rightarrow> bug_hunter \<Rightarrow> string \<Rightarrow>
     nat \<Rightarrow> msg list \<Rightarrow> nat \<Rightarrow> 'p \<times> 't \<Rightarrow> hunt_outcome \<times> 'p \<times> 't" where
  "hunt_loop llm call parse h scope 0 transcript tool_calls (p, t) =
    (\<lparr> ho_report = None, ho_iterations = bh_max_depth h, ho_tool_calls = tool_calls, ho_status = HuntHalted,
       ho_error = Some ''max_depth reached without a report'' \<rparr>, p, t)"
| "hunt_loop llm call parse h scope (Suc rest) transcript tool_calls (p, t) =
    (let iter = bh_max_depth h - rest;
         req = \<lparr> cq_system = system_prompt scope, cq_messages = transcript,
                 cq_max_tokens = tb_reserved_output (bh_budget h) \<rparr>
     in case llm req p of
          (Inl e, p') \<Rightarrow>
            (\<lparr> ho_report = None, ho_iterations = iter, ho_tool_calls = tool_calls, ho_status = HuntFailed,
               ho_error = Some e \<rparr>, p', t)
        | (Inr resp, p') \<Rightarrow>
            (case cr_tool_call resp of
               Some tc \<Rightarrow>
                 if bh_max_tool_calls h \<le> tool_calls then
                   (\<lparr> ho_report = None, ho_iterations = iter, ho_tool_calls = tool_calls, ho_status = HuntHalted,
                      ho_error = Some ''max_tool_calls exceeded'' \<rparr>, p', t)
                 else
                   let (result, t') = call tc t
                   in hunt_loop llm call parse h scope rest
                        (transcript @ [\<lparr> msg_role = ''assistant'', msg_content = ''tool:'' @ tc_name tc \<rparr>,
                                       \<lparr> msg_role = ''tool'', msg_content = result \<rparr>])
                        (tool_calls + 1) (p', t')
             | None \<Rightarrow>
                 (case parse (cr_content resp) of
                    Inr report \<Rightarrow>
                      (\<lparr> ho_report = Some report, ho_iterations = iter, ho_tool_calls = tool_calls,
                         ho_status = HuntCompleted, ho_error = None \<rparr>, p', t)
                  | Inl e \<Rightarrow>
                      (\<lparr> ho_report = None, ho_iterations = iter, ho_tool_calls = tool_calls, ho_status = HuntFailed,
                         ho_error = Some (''malformed FindingReport: '' @ e) \<rparr>, p', t))))"

definition hunt ::
  "'p llm_provider \<Rightarrow> 't tool_box \<Rightarrow> (string \<Rightarrow> string + finding_report) \<Rightarrow> bug_hunter \<Rightarrow> string \<Rightarrow>
     evidence list \<Rightarrow> 'p \<times> 't \<Rightarrow> hunt_outcome \<times> 'p \<times> 't" where
  "hunt llm call parse h scope ev st =
    hunt_loop llm call parse h scope (bh_max_depth h)
      (map (\<lambda>e. \<lparr> msg_role = ''user'', msg_content = ev_raw e \<rparr>) (pr_included (pack (bh_budget h) ev))) 0 st"

subsection \<open>Providers\<close>

datatype mock_provider = AlwaysTool | Script "completion_resp list"

definition mock_script :: "completion_resp list \<Rightarrow> mock_provider" where
  "mock_script responses = Script responses"

definition answering :: "string \<Rightarrow> mock_provider" where
  "answering content = mock_script [\<lparr> cr_content = content, cr_tool_call = None \<rparr>]"

definition mock_complete :: "mock_provider llm_provider" where
  "mock_complete req p =
    (case p of
       AlwaysTool \<Rightarrow> (Ok \<lparr> cr_content = [], cr_tool_call = Some \<lparr> tc_name = ''describe_asset'', tc_args = JObj [] \<rparr> \<rparr>, p)
     | Script [] \<Rightarrow> (Err ''mock script exhausted'', p)
     | Script (r # rs) \<Rightarrow> (Ok r, Script rs))"

definition local_report :: finding_report where
  "local_report = \<lparr> fr_title = ''Heuristic review (local provider)'',
     fr_attack_vector = ''offline heuristic - no model reasoning applied'',
     fr_affected_assets = [], fr_evidence_refs = [], fr_severity = ''info'', fr_cvss_like_score = Fin 0,
     fr_remediation_steps = [''Run with a live LLM provider for real analysis''] \<rparr>"

definition local_complete :: "(finding_report \<Rightarrow> string + string) \<Rightarrow> unit llm_provider" where
  "local_complete to_string req p =
    (case to_string local_report of
       Inl e \<Rightarrow> (Err e, p)
     | Inr content \<Rightarrow> (Ok \<lparr> cr_content = content, cr_tool_call = None \<rparr>, p))"

subsection \<open>Provider codecs\<close>

text \<open>Indexing a \<open>Value\<close>: a missing member or element, or a value of another kind, is \<open>null\<close>.\<close>

definition json_index :: "json \<Rightarrow> string \<Rightarrow> json" where
  "json_index v k = unwrap_or (json_get v k) JNull"

definition json_at :: "json \<Rightarrow> nat \<Rightarrow> json" where
  "json_at v i = (case v of JArr xs \<Rightarrow> if i < length xs then xs ! i else JNull | _ \<Rightarrow> JNull)"

definition json_as_array :: "json \<Rightarrow> json list option" where
  "json_as_array v = (case v of JArr xs \<Rightarrow> Some xs | _ \<Rightarrow> None)"

definition json_as_object :: "json \<Rightarrow> (string \<times> json) list option" where
  "json_as_object v = (case v of JObj kvs \<Rightarrow> Some kvs | _ \<Rightarrow> None)"

record llm_endpoint =
  lp_api_key :: string
  lp_model :: string
  lp_base_url :: string

definition openai_new :: "string \<Rightarrow> string \<Rightarrow> llm_endpoint" where
  "openai_new api_key model =
    \<lparr> lp_api_key = api_key, lp_model = model, lp_base_url = ''https://api.openai.com/v1'' \<rparr>"

definition msg_json :: "msg \<Rightarrow> json" where
  "msg_json m = JObj [(''role'', JStr (msg_role m)), (''content'', JStr (msg_content m))]"

definition openai_build_body :: "llm_endpoint \<Rightarrow> completion_req \<Rightarrow> json" where
  "openai_build_body lp req =
    (let messages = JObj [(''role'', JStr ''system''), (''content'', JStr (cq_system req))]
           # map msg_json (cq_messages req)
     in JObj [(''model'', JStr (lp_model lp)), (''max_tokens'', JInt (int (cq_max_tokens req))),
              (''messages'', JArr messages)])"

definition openai_parse :: "(string \<Rightarrow> json option) \<Rightarrow> json \<Rightarrow> completion_resp" where
  "openai_parse from_str resp =
    (let message = json_index (json_at (json_index resp ''choices'') 0) ''message'';
         tool_call = map_option (\<lambda>f.
             \<lparr> tc_name = unwrap_or (Option.bind (map_of f ''name'') json_as_str) [],
               tc_args = unwrap_or (Option.bind (Option.bind (map_of f ''arguments'') json_as_str) from_str) (JObj []) \<rparr>)
           (json_as_object (json_index (json_at (json_index message ''tool_calls'') 0) ''function''))
     in \<lparr> cr_content = unwrap_or (json_as_str (json_index message ''content'')) [], cr_tool_call = tool_call \<rparr>)"

definition anthropic_new :: "string \<Rightarrow> string \<Rightarrow> llm_endpoint" where
  "anthropic_new api_key model =
    \<lparr> lp_api_key = api_key, lp_model = model, lp_base_url = ''https://api.anthropic.com/v1'' \<rparr>"

definition anthropic_build_body :: "llm_endpoint \<Rightarrow> completion_req \<Rightarrow> json" where
  "anthropic_build_body lp req =
    JObj [(''model'', JStr (lp_model lp)), (''max_tokens'', JInt (int (cq_max_tokens req))),
          (''system'', JStr (cq_system req)), (''messages'', JArr (map msg_json (cq_messages req)))]"

definition anthropic_block :: "string \<times> tool_call option \<Rightarrow> json \<Rightarrow> string \<times> tool_call option" where
  "anthropic_block acc b =
    (let (content, tool_call) = acc; ty = json_as_str (json_index b ''type'')
     in if ty = Some ''text'' \<and> content = [] then
          (unwrap_or (json_as_str (json_index b ''text'')) [], tool_call)
        else if ty = Some ''tool_use'' \<and> tool_call = None then
          (content, Some \<lparr> tc_name = unwrap_or (json_as_str (json_index b ''name'')) [],
                           tc_args = json_index b ''input'' \<rparr>)
        else acc)"

definition anthropic_parse :: "json \<Rightarrow> completion_resp" where
  "anthropic_parse resp =
    (let (content, tool_call) = (case json_as_array (json_index resp ''content'') of
         None \<Rightarrow> ([], None) | Some blocks \<Rightarrow> foldl anthropic_block ([], None) blocks)
     in \<lparr> cr_content = content, cr_tool_call = tool_call \<rparr>)"

text \<open>
  \<open>complete\<close> of the live providers: \<open>send\<close> stands for the HTTP client (url, headers and body to a JSON
  answer or an error).
\<close>

definition openai_complete ::
  "(string \<Rightarrow> json option) \<Rightarrow> (string \<Rightarrow> (string \<times> string) list \<Rightarrow> json \<Rightarrow> 'w \<Rightarrow> (string + json) \<times> 'w)
     \<Rightarrow> llm_endpoint \<Rightarrow> 'w llm_provider" where
  "openai_complete from_str send lp req w =
    (case send (lp_base_url lp @ ''/chat/completions'') [(''authorization'', ''Bearer '' @ lp_api_key lp)]
            (openai_build_body lp req) w of
       (Inl e, w') \<Rightarrow> (Err e, w')
     | (Inr resp, w') \<Rightarrow> (Ok (openai_parse from_str resp), w'))"

definition anthropic_complete ::
  "(string \<Rightarrow> (string \<times> string) list \<Rightarrow> json \<Rightarrow> 'w \<Rightarrow> (string + json) \<times> 'w) \<Rightarrow> llm_endpoint \<Rightarrow> 'w llm_provider" where
  "anthropic_complete send lp req w =
    (case send (lp_base_url lp @ ''/messages'')
            [(''x-api-key'', lp_api_key lp), (''anthropic-version'', ''2023-06-01'')]
            (anthropic_build_body lp req) w of
       (Inl e, w') \<Rightarrow> (Err e, w')
     | (Inr resp, w') \<Rightarrow> (Ok (anthropic_parse resp), w'))"

subsection \<open>Accounting for every call\<close>

text \<open>A provider and a toolbox that record what passes through them.\<close>

definition traced :: "'p llm_provider \<Rightarrow> (completion_req list \<times> 'p) llm_provider" where
  "traced llm req s = (let (r, p') = llm req (snd s) in (r, fst s @ [req], p'))"

definition counted :: "'t tool_box \<Rightarrow> (nat \<times> 't) tool_box" where
  "counted call tc s = (let (r, t') = call tc (snd s) in (r, fst s + 1, t'))"

lemma traced_apply: "llm req p = (r, p') \<Longrightarrow> traced llm req (reqs, p) = (r, reqs @ [req], p')"
  by (simp add: traced_def)

lemma counted_apply: "call tc t = (r, t') \<Longrightarrow> counted call tc (k, t) = (r, k + 1, t')"
  by (simp add: counted_def)

definition outcome_consistent :: "hunt_outcome \<Rightarrow> bool" where
  "outcome_consistent ho \<longleftrightarrow> (case ho_status ho of
     HuntCompleted \<Rightarrow> ho_report ho \<noteq> None \<and> ho_error ho = None
   | _ \<Rightarrow> ho_report ho = None \<and> ho_error ho \<noteq> None)"

lemma hunt_loop_traced:
  "hunt_loop (traced llm) (counted call) parse h scope rest tr n ((reqs, p), (k, t)) = (ho, (reqs', p'), (k', t')) \<Longrightarrow>
    hunt_loop llm call parse h scope rest tr n (p, t) = (ho, p', t')"
proof (induction rest arbitrary: tr n reqs p k t)
  case (Suc rest)
  let ?req = "\<lparr> cq_system = system_prompt scope, cq_messages = tr, cq_max_tokens = tb_reserved_output (bh_budget h) \<rparr>"
  obtain r q where c: "llm ?req p = (r, q)" by (cases "llm ?req p")
  show ?case
  proof (cases "\<exists>resp tc. r = Ok resp \<and> cr_tool_call resp = Some tc \<and> \<not> bh_max_tool_calls h \<le> n")
    case True
    then obtain resp tc where r: "r = Ok resp" "cr_tool_call resp = Some tc" "\<not> bh_max_tool_calls h \<le> n" by blast
    obtain res t2 where t2: "call tc t = (res, t2)" by (cases "call tc t")
    from Suc r show ?thesis by (simp add: traced_apply [of llm, OF c] counted_apply [of call, OF t2] c t2)
  next
    case False
    with Suc.prems show ?thesis
      by (auto simp: traced_apply [of llm, OF c] c Let_def split: sum.splits option.splits if_splits)
  qed
qed simp

definition loop_accounts :: "bug_hunter \<Rightarrow> nat \<Rightarrow> nat \<Rightarrow> nat \<Rightarrow> hunt_outcome \<Rightarrow> nat \<Rightarrow> nat \<Rightarrow> bool" where
  "loop_accounts h rest trlen n ho reqs tools \<longleftrightarrow>
    outcome_consistent ho \<and> reqs + (bh_max_depth h - rest) = ho_iterations ho \<and> tools + n = ho_tool_calls ho \<and>
    ho_iterations ho \<le> bh_max_depth h \<and> tools \<le> rest \<and>
    (n \<le> bh_max_tool_calls h \<longrightarrow> ho_tool_calls ho \<le> bh_max_tool_calls h)"

text \<open>The requests of a loop: each repeats the transcript so far, two messages longer than the one before.\<close>

definition growing :: "msg list \<Rightarrow> completion_req list \<Rightarrow> bool" where
  "growing tr reqs \<longleftrightarrow> (\<forall>i<length reqs. length (cq_messages (reqs ! i)) = length tr + 2 * i \<and>
     take (length tr) (cq_messages (reqs ! i)) = tr)"

lemma growing_Nil [simp]: "growing tr []"
  by (simp add: growing_def)

lemma growing_Cons:
  "cq_messages r = tr \<Longrightarrow> growing (tr @ [x, y]) reqs \<Longrightarrow> growing tr (r # reqs)"
proof -
  assume r: "cq_messages r = tr" and g: "growing (tr @ [x, y]) reqs"
  have "take (length tr) (cq_messages (reqs ! i)) = tr" if "i < length reqs" for i
  proof -
    from g that have "take (length tr + 2) (cq_messages (reqs ! i)) = tr @ [x, y]" by (simp add: growing_def)
    then have "take (length tr) (take (length tr + 2) (cq_messages (reqs ! i))) = tr" by simp
    then show ?thesis by (simp add: min_def)
  qed
  with r g show ?thesis by (auto simp: growing_def nth_Cons split: nat.split)
qed

lemma hunt_loop_accounts:
  "hunt_loop (traced llm) (counted call) parse h scope rest tr n (s, u) = (ho, s', u') \<Longrightarrow>
    rest \<le> bh_max_depth h \<Longrightarrow>
    \<exists>reqs tools. fst s' = fst s @ reqs \<and> fst u' = fst u + tools \<and> growing tr reqs \<and>
      loop_accounts h rest (length tr) n ho (length reqs) tools"
proof (induction rest arbitrary: tr n s u)
  case 0
  then show ?case by (auto simp: outcome_consistent_def loop_accounts_def)
next
  case (Suc rest)
  let ?req = "\<lparr> cq_system = system_prompt scope, cq_messages = tr, cq_max_tokens = tb_reserved_output (bh_budget h) \<rparr>"
  have it: "bh_max_depth h - rest = Suc (bh_max_depth h - Suc rest)" using Suc.prems(2) by simp
  have one: "growing tr [?req]" by (simp add: growing_def)
  obtain reqs p where s: "s = (reqs, p)" by (cases s)
  obtain k t where u: "u = (k, t)" by (cases u)
  obtain r q where c: "llm ?req p = (r, q)" by (cases "llm ?req p")
  consider (stop) "loop_accounts h (Suc rest) (length tr) n ho 1 0" "fst s' = reqs @ [?req]" "fst u' = k"
    | (tool) tc :: tool_call and res t2 where "\<not> bh_max_tool_calls h \<le> n" "hunt_loop (traced llm) (counted call) parse h scope rest
        (tr @ [\<lparr> msg_role = ''assistant'', msg_content = ''tool:'' @ tc_name tc \<rparr>, \<lparr> msg_role = ''tool'', msg_content = res \<rparr>])
        (n + 1) ((reqs @ [?req], q), (k + 1, t2)) = (ho, s', u')"
  proof (cases "\<exists>resp tc. r = Ok resp \<and> cr_tool_call resp = Some tc \<and> \<not> bh_max_tool_calls h \<le> n")
    case True
    then obtain resp tc where r: "r = Ok resp" "cr_tool_call resp = Some tc" "\<not> bh_max_tool_calls h \<le> n" by blast
    obtain res t2 where t2: "call tc t = (res, t2)" by (cases "call tc t")
    from Suc.prems(1) r show ?thesis
      by (intro tool [of tc res t2]) (simp_all add: s u traced_apply [of llm, OF c] counted_apply [of call, OF t2])
  next
    case False
    with Suc.prems it show ?thesis
      by (intro stop) (auto simp: s u traced_apply [of llm, OF c] outcome_consistent_def loop_accounts_def Let_def
        split: sum.splits option.splits if_splits)
  qed
  then show ?case
  proof cases
    case stop
    with one show ?thesis by (intro exI [of _ "[?req]"] exI [of _ 0]) (simp add: s u)
  next
    case tool
    from Suc.IH [OF tool(2)] Suc.prems(2) obtain reqs2 k2 where
      *: "fst s' = reqs @ ?req # reqs2" "fst u' = k + 1 + k2" "growing tr (?req # reqs2)"
      "loop_accounts h rest (length tr + 2) (n + 1) ho (length reqs2) k2"
      by (force intro: growing_Cons)
    from *(4) tool(1) it have "loop_accounts h (Suc rest) (length tr) n ho (Suc (length reqs2)) (k2 + 1)"
      by (auto simp: loop_accounts_def)
    with * show ?thesis by (intro exI [of _ "?req # reqs2"] exI [of _ "k2 + 1"]) (simp add: s u)
  qed
qed

subsection \<open>Reaching a report\<close>

text \<open>
  A model is about to report after \<open>n\<close> tool calls: its next \<open>n\<close> answers, whatever the transcript,
  are tool calls and the one after is a report.
\<close>

fun reports_after :: "'p llm_provider \<Rightarrow> (string \<Rightarrow> string + finding_report) \<Rightarrow> nat \<Rightarrow> 'p \<Rightarrow> finding_report \<Rightarrow> bool" where
  "reports_after llm parse 0 p rep =
    (\<forall>req. \<exists>resp. fst (llm req p) = Ok resp \<and> cr_tool_call resp = None \<and> parse (cr_content resp) = Ok rep)"
| "reports_after llm parse (Suc n) p rep =
    (\<forall>req. \<exists>resp tc. fst (llm req p) = Ok resp \<and> cr_tool_call resp = Some tc \<and>
       reports_after llm parse n (snd (llm req p)) rep)"

lemma hunt_loop_reports:
  assumes "reports_after llm parse n p rep" and "n < rest" and "k + n \<le> bh_max_tool_calls h"
    and "rest \<le> bh_max_depth h"
  shows "fst (hunt_loop llm call parse h scope rest tr k (p, t)) =
    \<lparr> ho_report = Some rep, ho_iterations = bh_max_depth h - rest + n + 1, ho_tool_calls = k + n,
      ho_status = HuntCompleted, ho_error = None \<rparr>"
  using assms
proof (induction n arbitrary: rest p t tr k)
  case 0
  then obtain r where rest: "rest = Suc r" by (cases rest) auto
  let ?req = "\<lparr> cq_system = system_prompt scope, cq_messages = tr, cq_max_tokens = tb_reserved_output (bh_budget h) \<rparr>"
  from "0.prems"(1) obtain resp where "fst (llm ?req p) = Ok resp" "cr_tool_call resp = None"
    "parse (cr_content resp) = Ok rep" by (auto dest: spec [of _ ?req])
  with 0 rest show ?case by (auto simp: Let_def split: prod.splits)
next
  case (Suc n)
  then obtain r where rest: "rest = Suc r" by (cases rest) auto
  let ?req = "\<lparr> cq_system = system_prompt scope, cq_messages = tr, cq_max_tokens = tb_reserved_output (bh_budget h) \<rparr>"
  from Suc.prems(1) obtain resp tc where
    r: "fst (llm ?req p) = Ok resp" "cr_tool_call resp = Some tc"
    and next_ok: "reports_after llm parse n (snd (llm ?req p)) rep" by (auto dest: spec [of _ ?req])
  obtain q where q: "llm ?req p = (Ok resp, q)" using r(1) by (cases "llm ?req p") auto
  obtain res t2 where t2: "call tc t = (res, t2)" by (cases "call tc t")
  from next_ok q have "reports_after llm parse n q rep" by simp
  from Suc.IH [OF this, of r "k + 1"] Suc.prems rest r(2) q t2 show ?case by (auto simp: Let_def)
qed

subsection \<open>Properties\<close>

text \<open>
  C22: The hunt terminates and stays within its bounds, whatever the model and the tools do. For every provider and
  toolbox (here with a recorder around them, which changes neither the outcome nor their states): the provider is asked exactly
  \<open>iterations\<close> times, at most \<open>max_depth\<close>; the tools are called exactly \<open>tool_calls\<close> times, at most \<open>max_tool_calls\<close> and
  at most \<open>max_depth\<close>; there is a report exactly when the status is \<open>HuntCompleted\<close> and an error text otherwise. The \<open>i\<close>-th
  request carries the packed evidence unchanged and two messages per earlier tool call: it is packed once, not
  before every call.
\<close>

theorem hunt_terminates_in_bounds:
  "\<exists>ho reqs p' tools t'.
    hunt (traced llm) (counted call) parse h scope ev (([], p), (0, t)) = (ho, (reqs, p'), (tools, t')) \<and>
    hunt llm call parse h scope ev (p, t) = (ho, p', t') \<and>
    length reqs = ho_iterations ho \<and> ho_iterations ho \<le> bh_max_depth h \<and>
    tools = ho_tool_calls ho \<and> ho_tool_calls ho \<le> min (bh_max_tool_calls h) (bh_max_depth h) \<and>
    (ho_report ho \<noteq> None \<longleftrightarrow> ho_status ho = HuntCompleted) \<and> (ho_error ho = None \<longleftrightarrow> ho_status ho = HuntCompleted) \<and>
    (let packed = map ev_raw (pr_included (pack (bh_budget h) ev)) in
       map (\<lambda>r. length (cq_messages r)) reqs = map (\<lambda>i. length packed + 2 * i) [0..<length reqs] \<and>
       map (\<lambda>r. take (length packed) (map msg_content (cq_messages r))) reqs = replicate (length reqs) packed)"
proof -
  let ?tr = "map (\<lambda>e. \<lparr> msg_role = ''user'', msg_content = ev_raw e \<rparr>) (pr_included (pack (bh_budget h) ev))"
  obtain ho reqs p' tools t' where
    h: "hunt_loop (traced llm) (counted call) parse h scope (bh_max_depth h) ?tr 0 (([], p), (0, t))
      = (ho, (reqs, p'), (tools, t'))" by (metis surj_pair)
  from hunt_loop_accounts [OF h] have g: "growing ?tr reqs"
    and acc: "loop_accounts h (bh_max_depth h) (length ?tr) 0 ho (length reqs) tools" by auto
  have "take (length ?tr) (map msg_content (cq_messages (reqs ! i))) = map msg_content ?tr" if "i < length reqs" for i
  proof -
    from g that have "take (length ?tr) (cq_messages (reqs ! i)) = ?tr" by (simp only: growing_def)
    then show ?thesis by (simp only: take_map)
  qed
  with g have msgs: "map (\<lambda>r. length (cq_messages r)) reqs = map (\<lambda>i. length ?tr + 2 * i) [0..<length reqs]"
    "map (\<lambda>r. take (length ?tr) (map msg_content (cq_messages r))) reqs = replicate (length reqs) (map msg_content ?tr)"
    by (auto simp: growing_def intro!: nth_equalityI)
  have packed: "map msg_content ?tr = map ev_raw (pr_included (pack (bh_budget h) ev))" by simp
  have status: "(ho_report ho \<noteq> None \<longleftrightarrow> ho_status ho = HuntCompleted) \<and> (ho_error ho = None \<longleftrightarrow> ho_status ho = HuntCompleted)"
    using acc by (cases "ho_status ho") (simp_all add: loop_accounts_def outcome_consistent_def)
  show ?thesis
    unfolding hunt_def Let_def packed [symmetric] length_map
    by (rule exI [of _ ho], rule exI [of _ reqs], rule exI [of _ p'], rule exI [of _ tools], rule exI [of _ t'])
      (use h hunt_loop_traced [OF h] acc status msgs in \<open>simp add: loop_accounts_def\<close>)
qed

text \<open>
  The hunt reaches a report whenever the model offers one in time: if its next \<open>n\<close> answers are tool calls and the one after
  is a valid report, with \<open>n\<close> below \<open>max_depth\<close> and at most \<open>max_tool_calls\<close>, then the hunt completes with exactly that
  report after \<open>n + 1\<close> iterations, whatever the tools return.
\<close>

theorem hunt_reaches_report:
  assumes "reports_after llm parse n p rep" and "n < bh_max_depth h" and "n \<le> bh_max_tool_calls h"
  shows "fst (hunt llm call parse h scope ev (p, t)) =
    \<lparr> ho_report = Some rep, ho_iterations = n + 1, ho_tool_calls = n, ho_status = HuntCompleted, ho_error = None \<rparr>"
  using hunt_loop_reports [OF assms(1,2), of 0 h] assms(3) by (simp add: hunt_def)

definition ask :: completion_resp where
  "ask = \<lparr> cr_content = [], cr_tool_call = Some \<lparr> tc_name = ''describe_asset'', tc_args = JObj [] \<rparr> \<rparr>"

definition demo_parse :: "string \<Rightarrow> string + finding_report" where
  "demo_parse s = (if s = ''report'' then Ok local_report else Err ''expected value'')"

theorem hunt_reaches_report_witness:
  "fst (hunt mock_complete no_tools demo_parse (hunter_new \<lparr> tb_model = ''m'', tb_window = 100, tb_reserved_output = 10 \<rparr>)
      ''prod'' [] (Script [ask, ask, \<lparr> cr_content = ''report'', cr_tool_call = None \<rparr>], ())) =
    \<lparr> ho_report = Some local_report, ho_iterations = 3, ho_tool_calls = 2, ho_status = HuntCompleted, ho_error = None \<rparr>"
proof -
  have "reports_after mock_complete demo_parse 2
      (Script [ask, ask, \<lparr> cr_content = ''report'', cr_tool_call = None \<rparr>]) local_report"
    by (simp add: mock_complete_def ask_def demo_parse_def numeral_2_eq_2)
  from hunt_reaches_report [OF this, of "hunter_new \<lparr> tb_model = ''m'', tb_window = 100, tb_reserved_output = 10 \<rparr>"]
  show ?thesis by (simp add: hunter_new_def)
qed

end
