(* ===== verification/Compliance.thy ===== *)
theory Compliance
  imports Store
begin

text \<open>
  \<open>secureops-api/src/compliance.rs\<close>: the control catalogues of ten frameworks and their evaluation against the findings of a
  tenant. \<open>sh\<close> prints an identifier and \<open>uni\<close> is the Unicode part of \<open>to_lowercase\<close>.

  The lemmas give the report of the nested loops in closed form: a control fails exactly when a finding
  that is not dismissed mentions one of its keywords, and the score is the exact percentage.
\<close>

subsection \<open>Catalogues\<close>

record control_result =
  co_id :: string
  co_title :: string
  co_status :: string
  co_max_severity :: "string option"
  co_findings :: "string list"

record compliance_report =
  cr_framework :: string
  cr_framework_label :: string
  cr_total_controls :: nat
  cr_passing :: nat
  cr_failing :: nat
  cr_score :: u32
  cr_controls :: "control_result list"
  cr_unmapped_findings :: nat

record control_def =
  cd_id :: string
  cd_title :: string
  cd_keywords :: "string list"

definition mk_control :: "string \<Rightarrow> string \<Rightarrow> string list \<Rightarrow> control_def" where
  "mk_control i t ks = \<lparr> cd_id = i, cd_title = t, cd_keywords = ks \<rparr>"

definition compliance_severity_str :: "finding_severity \<Rightarrow> string" where
  "compliance_severity_str s = (case s of Critical \<Rightarrow> ''critical'' | High \<Rightarrow> ''high'' | Medium \<Rightarrow> ''medium''
     | Low \<Rightarrow> ''low'' | Info \<Rightarrow> ''info'')"

definition compliance_severity_rank :: "finding_severity \<Rightarrow> nat" where
  "compliance_severity_rank s = (case s of Critical \<Rightarrow> 4 | High \<Rightarrow> 3 | Medium \<Rightarrow> 2 | Low \<Rightarrow> 1 | Info \<Rightarrow> 0)"

definition CIS :: "control_def list" where
  "CIS =
    [mk_control ''CIS-1.x''
      ''Identity & Access Management (MFA, root, least privilege)''
      [''iam'', ''mfa'', ''root'', ''privilege'', ''access key'', ''policy''],
     mk_control ''CIS-2.x''
      ''Logging & monitoring (CloudTrail, audit logs)''
      [''cloudtrail'', ''logging'', ''audit'', ''monitor'', ''trail''],
     mk_control ''CIS-3.x''
      ''Storage protection (public buckets, encryption at rest)''
      [''s3'', ''bucket'', ''blob'', ''gcs'', ''storage'', ''encryption'', ''public''],
     mk_control ''CIS-4.x''
      ''Network security (security groups, NSG, open ports)''
      [''security group'', ''nsg'', ''firewall'', ''0.0.0.0'', ''ssh'', ''rdp'', ''ingress'', ''egress'', ''port''],
     mk_control ''CIS-5.x''
      ''Key & secret management (KMS, rotation)''
      [''kms'', ''secret'', ''key rotation'', ''credential'']]"

definition SOC2 :: "control_def list" where
  "SOC2 =
    [mk_control ''CC6.1''
      ''Logical access controls restrict access''
      [''iam'', ''access'', ''mfa'', ''privilege'', ''public'', ''open'', ''ssh'', ''rdp''],
     mk_control ''CC6.6''
      ''Boundary protection / network segmentation''
      [''security group'', ''nsg'', ''firewall'', ''0.0.0.0'', ''ingress'', ''egress'', ''port''],
     mk_control ''CC6.7''
      ''Encryption of data in transit and at rest''
      [''encryption'', ''tls'', ''unencrypted'', ''cleartext''],
     mk_control ''CC7.2''
      ''Detection & monitoring of security events''
      [''cloudtrail'', ''logging'', ''audit'', ''monitor'', ''trail'', ''detection''],
     mk_control ''CC7.1''
      ''Vulnerability & configuration management''
      [''misconfig'', ''vulnerab'', ''cve'', ''outdated'', ''exposed'']]"

definition PCI :: "control_def list" where
  "PCI =
    [mk_control ''PCI-1''
      ''Install and maintain network security controls''
      [''security group'', ''nsg'', ''firewall'', ''0.0.0.0'', ''ingress'', ''port''],
     mk_control ''PCI-3''
      ''Protect stored account data (encryption at rest)''
      [''encryption'', ''s3'', ''bucket'', ''storage'', ''unencrypted'', ''public''],
     mk_control ''PCI-4''
      ''Protect cardholder data in transit (strong crypto)''
      [''tls'', ''in transit'', ''cleartext'', ''encryption''],
     mk_control ''PCI-7''
      ''Restrict access by business need to know''
      [''iam'', ''access'', ''privilege'', ''policy''],
     mk_control ''PCI-8''
      ''Identify users and authenticate access (MFA)''
      [''mfa'', ''password'', ''root'', ''credential'', ''authentication''],
     mk_control ''PCI-10''
      ''Log and monitor all access''
      [''cloudtrail'', ''logging'', ''audit'', ''monitor'', ''trail'']]"

definition SCS :: "control_def list" where
  "SCS =
    [mk_control ''SCS-IAM''
      ''IAM policies, roles, and privilege boundaries''
      [''iam'', ''policy'', ''privilege'', ''role'', ''access key'', ''mfa'', ''root''],
     mk_control ''SCS-NET''
      ''Network segmentation and exposure (SG, NACL, WAF)''
      [''security group'', ''0.0.0.0'', ''ingress'', ''egress'', ''waf'', ''public'', ''ssh'', ''rdp'', ''port''],
     mk_control ''SCS-DATA''
      ''Data protection (S3, KMS, encryption)''
      [''s3'', ''bucket'', ''encryption'', ''kms'', ''public'', ''storage''],
     mk_control ''SCS-LOG''
      ''Detective controls (CloudTrail, GuardDuty, Config)''
      [''cloudtrail'', ''logging'', ''audit'', ''guardduty'', ''config'', ''monitor''],
     mk_control ''SCS-INC''
      ''Incident response readiness''
      [''exposed'', ''breach'', ''incident'', ''alert'', ''unauthorized'']]"

definition OWASP :: "control_def list" where
  "OWASP =
    [mk_control ''A01''
      ''Broken Access Control''
      [''public'', ''open'', ''privilege'', ''iam'', ''access'', ''0.0.0.0'', ''anonymous''],
     mk_control ''A02''
      ''Cryptographic Failures''
      [''encryption'', ''tls'', ''unencrypted'', ''cleartext'', ''kms''],
     mk_control ''A05''
      ''Security Misconfiguration''
      [''misconfig'', ''default'', ''public'', ''exposed'', ''open'', ''bucket''],
     mk_control ''A07''
      ''Identification and Authentication Failures''
      [''mfa'', ''password'', ''credential'', ''root'', ''authentication''],
     mk_control ''A09''
      ''Security Logging and Monitoring Failures''
      [''cloudtrail'', ''logging'', ''audit'', ''monitor'', ''detection'']]"

definition ISO27001 :: "control_def list" where
  "ISO27001 =
    [mk_control ''A.5.15''
      ''Access control''
      [''access'', ''iam'', ''privilege'', ''mfa'', ''public'', ''open''],
     mk_control ''A.8.9''
      ''Configuration management''
      [''misconfig'', ''default'', ''exposed'', ''public'', ''open''],
     mk_control ''A.8.12''
      ''Data leakage prevention''
      [''s3'', ''bucket'', ''public'', ''storage'', ''leak'', ''exposed''],
     mk_control ''A.8.16''
      ''Monitoring activities''
      [''cloudtrail'', ''logging'', ''audit'', ''monitor'', ''detection''],
     mk_control ''A.8.24''
      ''Use of cryptography''
      [''encryption'', ''kms'', ''tls'', ''unencrypted'']]"

definition HIPAA :: "control_def list" where
  "HIPAA =
    [mk_control ''164.312(a)(1)''
      ''Access control (unique user, emergency, auto logoff)''
      [''access'', ''iam'', ''privilege'', ''mfa'', ''authentication''],
     mk_control ''164.312(b)''
      ''Audit controls''
      [''cloudtrail'', ''logging'', ''audit'', ''monitor''],
     mk_control ''164.312(c)(1)''
      ''Integrity controls''
      [''tamper'', ''integrity'', ''unauthorized'', ''exposed''],
     mk_control ''164.312(e)(1)''
      ''Transmission security''
      [''tls'', ''encryption'', ''in transit'', ''cleartext''],
     mk_control ''164.312(e)(2)(ii)''
      ''Encryption (addressable)''
      [''encryption'', ''kms'', ''unencrypted'', ''phi'', ''database'']]"

definition GDPR :: "control_def list" where
  "GDPR =
    [mk_control ''Art.25''
      ''Data protection by design and default''
      [''public'', ''exposed'', ''default'', ''encryption'', ''access''],
     mk_control ''Art.32''
      ''Security of processing''
      [''encryption'', ''access'', ''monitor'', ''audit'', ''integrity''],
     mk_control ''Art.33''
      ''Breach notification readiness''
      [''breach'', ''incident'', ''exposed'', ''leak'', ''public''],
     mk_control ''Art.35''
      ''Data protection impact (high-risk processing)''
      [''pii'', ''personal'', ''database'', ''storage'', ''public'']]"

definition CCPA :: "control_def list" where
  "CCPA =
    [mk_control ''1798.100''
      ''Right to know / data inventory''
      [''storage'', ''database'', ''bucket'', ''logging'', ''inventory''],
     mk_control ''1798.150''
      ''Reasonable security procedures''
      [''encryption'', ''access'', ''public'', ''exposed'', ''misconfig''],
     mk_control ''1798.81.5''
      ''Security of personal information''
      [''encryption'', ''access'', ''credential'', ''public'', ''leak'']]"

definition CCSK :: "control_def list" where
  "CCSK =
    [mk_control ''CCSK-DOM2''
      ''Governance and risk (shared responsibility)''
      [''policy'', ''misconfig'', ''compliance'', ''audit''],
     mk_control ''CCSK-DOM3''
      ''IAM and identity federation''
      [''iam'', ''mfa'', ''role'', ''privilege'', ''access key'', ''federation''],
     mk_control ''CCSK-DOM4''
      ''Infrastructure security''
      [''security group'', ''0.0.0.0'', ''network'', ''firewall'', ''ingress'', ''public''],
     mk_control ''CCSK-DOM5''
      ''Data security and encryption''
      [''encryption'', ''kms'', ''s3'', ''bucket'', ''storage'', ''public''],
     mk_control ''CCSK-DOM6''
      ''Logging and monitoring''
      [''cloudtrail'', ''logging'', ''audit'', ''monitor'', ''detection'']]"


definition normalize_framework :: "string \<Rightarrow> string" where
  "normalize_framework framework =
    (let lower = to_ascii_lowercase framework in
     if lower \<in> set [''soc2'', ''soc-2''] then ''soc2''
     else if lower \<in> set [''pci'', ''pci-dss''] then ''pci''
     else if lower \<in> set [''scs'', ''aws-scs-c02'', ''aws_scs_c02''] then ''scs''
     else if lower \<in> set [''owasp'', ''owasp-top10'', ''owasp_top10''] then ''owasp''
     else if lower \<in> set [''iso27001'', ''iso-27001''] then ''iso27001''
     else if lower = ''hipaa'' then ''hipaa''
     else if lower = ''gdpr'' then ''gdpr''
     else if lower = ''ccpa'' then ''ccpa''
     else if lower \<in> set [''ccsk'', ''ccsk-v4'', ''ccsk_v4''] then ''ccsk''
     else ''cis'')"

definition catalog :: "string \<Rightarrow> string \<times> control_def list" where
  "catalog framework =
    (if framework = ''soc2'' then (''SOC 2 Trust Services Criteria'', SOC2)
     else if framework = ''pci'' then (''PCI-DSS v4.0'', PCI)
     else if framework = ''scs'' then
       (''AWS Certified Security '' @ [CHR 0xE2, CHR 0x80, CHR 0x93] @ '' Specialty (SCS-C02)'', SCS)
     else if framework = ''owasp'' then (''OWASP Top 10'', OWASP)
     else if framework = ''iso27001'' then (''ISO/IEC 27001:2022'', ISO27001)
     else if framework = ''hipaa'' then (''HIPAA Security Rule'', HIPAA)
     else if framework = ''gdpr'' then (''GDPR'', GDPR)
     else if framework = ''ccpa'' then (''CCPA / CPRA'', CCPA)
     else if framework = ''ccsk'' then (''CCSK v4'', CCSK)
     else (''CIS Cloud Foundations Benchmark'', CIS))"

subsection \<open>Evaluation\<close>

definition hay :: "lower_table \<Rightarrow> finding \<Rightarrow> string" where
  "hay uni f = to_lowercase uni (fi_title f) @ '' '' @ to_lowercase uni (unwrap_or (fi_cloud f) [])"

record hit_state =
  hs_hits :: "string list"
  hs_max :: "finding_severity option"
  hs_mapped :: "uuid hset"

definition eval_finding :: "(uuid \<Rightarrow> string) \<Rightarrow> lower_table \<Rightarrow> control_def \<Rightarrow> hit_state \<Rightarrow> finding \<Rightarrow> hit_state" where
  "eval_finding sh uni d st f =
    (if fi_status f = ''dismissed'' then st
     else if list_ex (\<lambda>k. contains (hay uni f) k) (cd_keywords d) then
       st\<lparr> hs_hits := hs_hits st @ [sh (fi_id f)], hs_mapped := hs_insert (fi_id f) (hs_mapped st),
           hs_max := Some (case hs_max st of
               Some m \<Rightarrow> if compliance_severity_rank (fi_severity f) \<le> compliance_severity_rank m then m else fi_severity f
             | None \<Rightarrow> fi_severity f) \<rparr>
     else st)"

record eval_state =
  es_controls :: "control_result list"
  es_passing :: nat
  es_failing :: nat
  es_mapped :: "uuid hset"

definition eval_control :: "(uuid \<Rightarrow> string) \<Rightarrow> lower_table \<Rightarrow> finding list \<Rightarrow> eval_state \<Rightarrow> control_def \<Rightarrow> eval_state" where
  "eval_control sh uni findings st d =
    (let r = foldl (eval_finding sh uni d) \<lparr> hs_hits = [], hs_max = None, hs_mapped = es_mapped st \<rparr> findings;
         hits = hs_hits r
     in \<lparr> es_controls = es_controls st @
            [\<lparr> co_id = cd_id d, co_title = cd_title d, co_status = (if hits = [] then ''pass'' else ''fail''),
               co_max_severity = map_option compliance_severity_str (hs_max r), co_findings = hits \<rparr>],
          es_passing = (if hits = [] then es_passing st + 1 else es_passing st),
          es_failing = (if hits = [] then es_failing st else es_failing st + 1),
          es_mapped = hs_mapped r \<rparr>)"

definition compliance_score :: "nat \<Rightarrow> nat \<Rightarrow> u32" where
  "compliance_score passing n =
    (if n = 0 then 100
     else f64_as_u32 (f64_round (flt_mul round64 (flt_div round64 (f64_of_nat passing) (f64_of_nat n)) (Fin 100))))"

definition evaluate :: "(uuid \<Rightarrow> string) \<Rightarrow> lower_table \<Rightarrow> string \<Rightarrow> finding list \<Rightarrow> compliance_report" where
  "evaluate sh uni framework findings =
    (let fw = normalize_framework framework;
         (label, defs) = catalog fw;
         st = foldl (eval_control sh uni findings)
           \<lparr> es_controls = [], es_passing = 0, es_failing = 0, es_mapped = [] \<rparr> defs;
         n = length (es_controls st)
     in \<lparr> cr_framework = fw, cr_framework_label = label, cr_total_controls = n,
          cr_passing = es_passing st, cr_failing = es_failing st,
          cr_score = compliance_score (es_passing st) n, cr_controls = es_controls st,
          cr_unmapped_findings = length (filter (\<lambda>f. fi_status f \<noteq> ''dismissed'' \<and>
            \<not> hs_contains (es_mapped st) (fi_id f)) findings) \<rparr>)"

subsection \<open>The score\<close>

text \<open>
  The \<open>f64\<close> division is off by less than \<open>2 ^ -40\<close>, and for the sizes of the catalogues the exact percentage is
  never that close to a rounding boundary.
\<close>

lemma compliance_score_exact:
  assumes "p \<le> n" and "3 \<le> n" and "n \<le> 6"
  shows "compliance_score p n = of_nat ((200 * p + n) div (2 * n))"
proof -
  from assms have "0 < n" and "n < 2 ^ 53" by auto
  from percent_close [OF assms(1) this] obtain z where
    z: "flt_mul round64 (flt_div round64 (f64_of_nat p) (f64_of_nat n)) (Fin 100) = Fin z" "0 \<le> z"
    and near: "\<bar>z - 100 * of_nat p / of_nat n\<bar> < 1 / 2 ^ 40" by blast
  define m k where "m = (200 * p + n) div (2 * n)" and "k = (200 * p + n) mod (2 * n)"
  have "n \<in> {3, 4, 5, 6}" and "p \<in> {0, 1, 2, 3, 4, 5, 6}" using assms by auto
  then have k0: "k \<noteq> 0" and le: "m \<le> 100" using assms(1) by (auto simp: k_def m_def)
  have k1: "k < 2 * n" using \<open>0 < n\<close> by (simp add: k_def)
  have "200 * p + n = 2 * n * m + k" by (simp add: m_def k_def)
  then have "(of_nat (200 * p + n) :: rat) = of_nat (2 * n * m + k)" by (simp only:)
  then have "100 * of_nat p / of_nat n + 1 / 2 = (of_nat m :: rat) + of_nat k / (2 * of_nat n)"
    using \<open>0 < n\<close> by (simp add: field_simps)
  moreover have "1 / 12 \<le> (of_nat k :: rat) / (2 * of_nat n)"
  proof -
    have "(of_nat 1 :: rat) \<le> of_nat k" and "(of_nat n :: rat) \<le> of_nat 6"
      using k0 assms(3) by (intro of_nat_mono; simp)+
    then show ?thesis using \<open>0 < n\<close> by (simp add: field_simps)
  qed
  moreover have "(of_nat k :: rat) / (2 * of_nat n) \<le> 1 - 1 / 12"
  proof -
    have "(of_nat (k + 1) :: rat) \<le> of_nat (2 * n)" and "(of_nat n :: rat) \<le> of_nat 6"
      using k1 assms(3) by (intro of_nat_mono; simp)+
    then show ?thesis using \<open>0 < n\<close> by (simp add: field_simps)
  qed
  moreover have "1 / 2 ^ 40 < (1 / 100 :: rat)" by simp
  ultimately have fl: "\<lfloor>z + 1 / 2\<rfloor> = int m" 
    using near by (simp only: floor_eq_iff of_int_of_nat_eq abs_less_iff) linarith
  have "of_nat m \<le> (of_nat 100 :: rat)" using le by (intro of_nat_mono)
  then have "(of_nat m :: rat) < 2 ^ 32 - 1" by simp
  with z fl assms(2) show ?thesis unfolding m_def [symmetric]
    by (simp add: compliance_score_def f64_round_def f64_as_u32_def)
qed

subsection \<open>The loops in closed form\<close>

definition counts_against :: "lower_table \<Rightarrow> control_def \<Rightarrow> finding \<Rightarrow> bool" where
  "counts_against uni d f \<longleftrightarrow> fi_status f \<noteq> ''dismissed'' \<and> list_ex (\<lambda>k. contains (hay uni f) k) (cd_keywords d)"

definition worst_severity :: "finding list \<Rightarrow> finding_severity option" where
  "worst_severity fs = find (\<lambda>s. s \<in> set (map fi_severity fs)) [Critical, High, Medium, Low, Info]"

lemma worst_severity_snoc:
  "worst_severity (fs @ [f]) = Some (case worst_severity fs of
     Some m \<Rightarrow> if compliance_severity_rank (fi_severity f) \<le> compliance_severity_rank m then m else fi_severity f
   | None \<Rightarrow> fi_severity f)"
  by (cases "fi_severity f") (auto simp: worst_severity_def compliance_severity_rank_def)

lemma eval_finding_fold:
  "foldl (eval_finding sh uni d) \<lparr> hs_hits = [], hs_max = None, hs_mapped = ids \<rparr> fs =
    \<lparr> hs_hits = map (sh \<circ> fi_id) (filter (counts_against uni d) fs),
      hs_max = worst_severity (filter (counts_against uni d) fs),
      hs_mapped = foldl (\<lambda>s x. hs_insert x s) ids (map fi_id (filter (counts_against uni d) fs)) \<rparr>"
proof (induction fs rule: rev_induct)
  case Nil
  then show ?case by (simp add: worst_severity_def)
next
  case (snoc f fs)
  then show ?case
    by (auto simp: eval_finding_def counts_against_def worst_severity_snoc)
qed

definition control_report :: "(uuid \<Rightarrow> string) \<Rightarrow> lower_table \<Rightarrow> finding list \<Rightarrow> control_def \<Rightarrow> control_result" where
  "control_report sh uni findings d =
    (let hits = filter (counts_against uni d) findings
     in \<lparr> co_id = cd_id d, co_title = cd_title d, co_status = (if hits = [] then ''pass'' else ''fail''),
          co_max_severity = map_option compliance_severity_str (worst_severity hits),
          co_findings = map (\<lambda>f. sh (fi_id f)) hits \<rparr>)"

lemma eval_control_fold:
  "let st = foldl (eval_control sh uni findings)
      \<lparr> es_controls = [], es_passing = 0, es_failing = 0, es_mapped = [] \<rparr> defs
   in es_controls st = map (control_report sh uni findings) defs \<and>
      es_passing st = length (filter (\<lambda>d. filter (counts_against uni d) findings = []) defs) \<and>
      es_failing st = length (filter (\<lambda>d. filter (counts_against uni d) findings \<noteq> []) defs) \<and>
      set (es_mapped st) = fi_id ` {f \<in> set findings. \<exists>d\<in>set defs. counts_against uni d f}"
proof (induction defs rule: rev_induct)
  case (snoc d defs)
  let ?st = "foldl (eval_control sh uni findings)
      \<lparr> es_controls = [], es_passing = 0, es_failing = 0, es_mapped = [] \<rparr> defs"
  have "eval_control sh uni findings ?st d =
    \<lparr> es_controls = es_controls ?st @ [control_report sh uni findings d],
      es_passing = (if filter (counts_against uni d) findings = [] then es_passing ?st + 1 else es_passing ?st),
      es_failing = (if filter (counts_against uni d) findings = [] then es_failing ?st else es_failing ?st + 1),
      es_mapped = foldl (\<lambda>s x. hs_insert x s) (es_mapped ?st) (map fi_id (filter (counts_against uni d) findings)) \<rparr>"
    by (simp add: eval_control_def Let_def eval_finding_fold control_report_def comp_def)
  with snoc show ?case by (auto simp: Let_def set_foldl_hs_insert)
qed simp

lemma catalog_size: "3 \<le> length (snd (catalog fw)) \<and> length (snd (catalog fw)) \<le> 6"
  by (simp add: catalog_def SOC2_def PCI_def SCS_def OWASP_def ISO27001_def HIPAA_def GDPR_def CCPA_def CCSK_def CIS_def)

subsection \<open>Properties\<close>

text \<open>
  C40: What a compliance report says. For every framework name and every list of findings: the controls are those of the
  catalogue in order; a control lists exactly the findings that are not dismissed and whose title or cloud mentions
  one of its keywords, passes exactly when there is none, and carries their highest severity;
  \<open>passing\<close> and \<open>failing\<close> count them and add up to the number of controls; the score is the percentage of passing controls
  rounded to the nearest integer, in spite of the floating-point computation; and the unmapped findings are
  those that are not dismissed and share no id with a finding counted against a control.
\<close>

theorem compliance_report_correct:
  "let r = evaluate sh uni framework findings;
       defs = snd (catalog (normalize_framework framework));
       passing = length (filter (\<lambda>d. filter (counts_against uni d) findings = []) defs)
   in cr_controls r = map (control_report sh uni findings) defs \<and>
      cr_total_controls r = length defs \<and> cr_passing r = passing \<and> cr_failing r = length defs - passing \<and>
      cr_score r = of_nat ((200 * passing + length defs) div (2 * length defs)) \<and>
      cr_unmapped_findings r = length (filter (\<lambda>f. fi_status f \<noteq> ''dismissed'' \<and>
        fi_id f \<notin> set (map fi_id (filter (\<lambda>g. list_ex (\<lambda>d. counts_against uni d g) defs) findings))) findings)"
proof -
  let ?defs = "snd (catalog (normalize_framework framework))"
  let ?st = "foldl (eval_control sh uni findings)
      \<lparr> es_controls = [], es_passing = 0, es_failing = 0, es_mapped = [] \<rparr> ?defs"
  let ?pass = "length (filter (\<lambda>d. filter (counts_against uni d) findings = []) ?defs)"
  note fold = eval_control_fold [of sh uni findings ?defs, unfolded Let_def]
  have ids: "hs_contains (es_mapped ?st) x \<longleftrightarrow>
      x \<in> set (map fi_id (filter (\<lambda>g. list_ex (\<lambda>d. counts_against uni d g) ?defs) findings))" for x
    using fold by (auto simp: hs_contains_def list_ex_iff)
  have fail: "es_failing ?st = length ?defs - ?pass"
    using fold sum_length_filter_compl [of "\<lambda>d. filter (counts_against uni d) findings = []" ?defs] by simp
  have score: "compliance_score ?pass (length ?defs) = of_nat ((200 * ?pass + length ?defs) div (2 * length ?defs))"
    using catalog_size by (intro compliance_score_exact) simp_all
  show ?thesis
    unfolding evaluate_def Let_def case_prod_unfold
    using fold fail score by (simp add: ids)
qed

end
