(* ===== verification/Crypto.thy ===== *)
theory Crypto
  imports Hex Floats
begin

text \<open>
  \<open>secureops-crypto/src/lib.rs\<close>: tokens, the passphrase keystore and the signing backends.

  Third-party code is a parameter: AES-256-GCM (\<open>aead\<close>), Argon2id (\<open>argon2_lib\<close>), serde, ed25519
  (\<open>ed_lib\<close>). The operating system's random generator is an argument of each operation that
  draws from it, \<open>None\<close> when it fails (the sources panic then); the OS keychain answers through a
  \<open>keychain_io\<close> per call. A mutex is poisoned only by a panic while it is held, and no code panics
  inside the two critical sections, so a lock always succeeds.

  Lemmas: a keystore under one key behaves as a map from ids to plaintexts (\<open>seal_all_lookup\<close>);
  calibration stays within its clamp; and every signing backend keeps the seed of a key once it
  handed it out, so a signature verifies against the public key asked for at any later time.
\<close>

subsection \<open>Tokens and errors\<close>

definition generate_token :: "string option \<Rightarrow> string may_panic" where
  "generate_token rng = (case rng of None \<Rightarrow> Panics | Some buf \<Rightarrow> Returns (to_hex buf))"

datatype crypto_error =
    KeyDerivation string
  | Encrypt string
  | Decrypt
  | UnsupportedVersion u8
  | Malformed string
  | SecretNotFound string
  | Backend string
  | CryptoIo string
  | CryptoSerde string

subsection \<open>Keystore types\<close>

datatype keystore_version = V1 | V2

definition version_tag :: "keystore_version \<Rightarrow> u8" where
  "version_tag v = (case v of V1 \<Rightarrow> 1 | V2 \<Rightarrow> 2)"

record kdf_params =
  memory_kib :: u32
  iterations :: u32
  parallelism :: u32
  key_len :: u32

definition kdf_default :: kdf_params where
  "kdf_default = \<lparr> memory_kib = 64 * 1024, iterations = 3, parallelism = 1, key_len = 32 \<rparr>"

definition MIN_MEMORY_KIB :: nat where "MIN_MEMORY_KIB = 19 * 1024"
definition MAX_MEMORY_KIB :: nat where "MAX_MEMORY_KIB = 256 * 1024"

record sealed_secret =
  ss_nonce :: string
  ss_ciphertext :: string

record keystore =
  ks_version :: keystore_version
  ks_salt :: string
  ks_kdf :: kdf_params
  ks_secrets :: "(string, sealed_secret) hmap"

text \<open>A \<open>DerivedKey\<close> is its 32 bytes.\<close>

type_synonym derived_key = string

subsection \<open>Key derivation\<close>

record 'p argon2_lib =
  params_new :: "u32 \<Rightarrow> u32 \<Rightarrow> u32 \<Rightarrow> nat option \<Rightarrow> string + 'p"
  hash_password_into :: "'p \<Rightarrow> string \<Rightarrow> string \<Rightarrow> string + derived_key"

definition derive_key :: "'p argon2_lib \<Rightarrow> string \<Rightarrow> string \<Rightarrow> kdf_params \<Rightarrow> crypto_error + derived_key" where
  "derive_key lib passphrase salt params =
    (case params_new lib (memory_kib params) (iterations params) (parallelism params)
            (Some (unat (key_len params))) of
       Inl e \<Rightarrow> Err (KeyDerivation e)
     | Inr ps \<Rightarrow> (case hash_password_into lib ps passphrase salt of
         Inl e \<Rightarrow> Err (KeyDerivation e)
       | Inr key \<Rightarrow> Ok key))"

definition f64_MIN_POSITIVE :: f64 where
  "f64_MIN_POSITIVE = Fin (2 powi (-1022))"

definition PROBE_MEMORY_KIB :: nat where "PROBE_MEMORY_KIB = 8 * 1024"
definition PROBE_ITERATIONS :: nat where "PROBE_ITERATIONS = 1"

definition calibration_probe :: kdf_params where
  "calibration_probe = kdf_default \<lparr> memory_kib := of_nat PROBE_MEMORY_KIB,
     iterations := of_nat PROBE_ITERATIONS \<rparr>"

text \<open>\<open>elapsed\<close> is the measured time of the probe in seconds.\<close>

definition calibrated :: "'p argon2_lib \<Rightarrow> f64 \<Rightarrow> u64 \<Rightarrow> crypto_error + kdf_params" where
  "calibrated lib elapsed target_ms =
    (case derive_key lib ''secureops-calibration-probe'' ''calibration-salt'' calibration_probe of
       Inl e \<Rightarrow> Err e
     | Inr _ \<Rightarrow>
         let probe_ms = flt_mul round64 elapsed (Fin 1000);
             per_kib_iter_ms =
               flt_max (flt_div round64 probe_ms (Fin (of_nat (PROBE_MEMORY_KIB * PROBE_ITERATIONS))))
                 f64_MIN_POSITIVE;
             memory = f64_as_u32 (f64_clamp (Fin (of_nat MIN_MEMORY_KIB)) (Fin (of_nat MAX_MEMORY_KIB))
               (f64_round (flt_div round64
                  (flt_div round64 (f64_of_nat (unat target_ms)) per_kib_iter_ms)
                  (Fin (of_nat (unat (iterations kdf_default)))))))
         in Ok (kdf_default \<lparr> memory_kib := memory \<rparr>))"

subsection \<open>Keystore operations\<close>

definition new_v2 :: "string option \<Rightarrow> keystore may_panic" where
  "new_v2 rng = (case rng of None \<Rightarrow> Panics
     | Some salt \<Rightarrow> Returns \<lparr> ks_version = V2, ks_salt = to_hex salt, ks_kdf = kdf_default, ks_secrets = [] \<rparr>)"

definition keystore_load :: "(string \<Rightarrow> string + keystore) \<Rightarrow> string \<Rightarrow> crypto_error + keystore" where
  "keystore_load from_slice bytes =
    (case from_slice bytes of Inl e \<Rightarrow> Err (CryptoSerde e)
     | Inr ks \<Rightarrow> (case ks_version ks of V1 \<Rightarrow> Ok ks | V2 \<Rightarrow> Ok ks))"

definition keystore_to_bytes :: "(keystore \<Rightarrow> string + string) \<Rightarrow> keystore \<Rightarrow> crypto_error + string" where
  "keystore_to_bytes to_vec ks = (case to_vec ks of Inl e \<Rightarrow> Err (CryptoSerde e) | Inr b \<Rightarrow> Ok b)"

text \<open>
  AES-256-GCM: \<open>aead_new\<close> is \<open>new_from_slice\<close> (\<open>Some\<close> the error when the key has the wrong length), then
  sealing and opening under a key and a nonce. Errors carry the text the library displays.
\<close>

record aead =
  aead_new :: "derived_key \<Rightarrow> string option"
  aead_encrypt :: "derived_key \<Rightarrow> string \<Rightarrow> string \<Rightarrow> string + string"
  aead_decrypt :: "derived_key \<Rightarrow> string \<Rightarrow> string \<Rightarrow> string option"

definition encrypt_secret ::
  "aead \<Rightarrow> string option \<Rightarrow> string \<Rightarrow> string \<Rightarrow> derived_key \<Rightarrow> keystore
     \<Rightarrow> ((crypto_error + unit) \<times> keystore) may_panic" where
  "encrypt_secret cipher rng sid plaintext key ks =
    (case aead_new cipher key of
       Some e \<Rightarrow> Returns (Err (Encrypt e), ks)
     | None \<Rightarrow> (case rng of
         None \<Rightarrow> Panics
       | Some nonce \<Rightarrow> (case aead_encrypt cipher key nonce plaintext of
           Inl e \<Rightarrow> Returns (Err (Encrypt e), ks)
         | Inr ct \<Rightarrow> Returns (Ok (), ks \<lparr> ks_secrets :=
             hm_insert sid \<lparr> ss_nonce = to_hex nonce, ss_ciphertext = to_hex ct \<rparr> (ks_secrets ks) \<rparr>))))"

definition decrypt_secret ::
  "aead \<Rightarrow> string \<Rightarrow> derived_key \<Rightarrow> keystore \<Rightarrow> (crypto_error + string) may_panic" where
  "decrypt_secret cipher sid key ks =
    (case hm_get (ks_secrets ks) sid of
       None \<Rightarrow> Returns (Err (SecretNotFound sid))
     | Some sealed \<Rightarrow>
         (case from_hex (ss_nonce sealed) of
            Panics \<Rightarrow> Panics
          | Returns None \<Rightarrow> Returns (Err (Malformed ''nonce not valid hex''))
          | Returns (Some nonce) \<Rightarrow>
              (case from_hex (ss_ciphertext sealed) of
                 Panics \<Rightarrow> Panics
               | Returns None \<Rightarrow> Returns (Err (Malformed ''ciphertext not valid hex''))
               | Returns (Some ct) \<Rightarrow>
                   if length nonce \<noteq> 12 then Returns (Err (Malformed ''nonce must be 12 bytes''))
                   else if aead_new cipher key \<noteq> None then Returns (Err Decrypt)
                   else (case aead_decrypt cipher key nonce ct of
                      None \<Rightarrow> Returns (Err Decrypt) | Some p \<Rightarrow> Returns (Ok p)))))"

subsection \<open>Signing backends\<close>

datatype key_backend = OsKeychain | Tpm

record ed_lib =
  ed_sign_with :: "string \<Rightarrow> string \<Rightarrow> string"
  ed_public :: "string \<Rightarrow> string"
  ed_from_bytes :: "string \<Rightarrow> bool"
  ed_check :: "string \<Rightarrow> string \<Rightarrow> string \<Rightarrow> bool"

text \<open>
  What the environment answers during one call: whether the keychain entry can be made, its
  password, and the random bytes.
\<close>

record keychain_io =
  kc_entry_error :: "string option"
  kc_password :: "string option"
  kc_rng :: "string option"

type_synonym seed_cache = "(string, string) hmap"

definition keychain_seed ::
  "keychain_io \<Rightarrow> string \<Rightarrow> seed_cache \<Rightarrow> ((crypto_error + string) \<times> seed_cache) may_panic" where
  "keychain_seed io key_id cache =
    (case hm_get cache key_id of
       Some seed \<Rightarrow> Returns (Ok seed, cache)
     | None \<Rightarrow>
         (case kc_entry_error io of
            Some e \<Rightarrow> Returns (Err (Backend e), cache)
          | None \<Rightarrow>
              (case kc_password io of
                 Some hex \<Rightarrow> (case from_hex hex of
                     Panics \<Rightarrow> Panics
                   | Returns None \<Rightarrow> Returns (Err (Backend ''keychain seed not valid hex''), cache)
                   | Returns (Some bytes) \<Rightarrow>
                       if length bytes \<noteq> 32 then Returns (Err (Backend ''seed must be 32 bytes''), cache)
                       else Returns (Ok bytes, hm_insert key_id bytes cache))
               | None \<Rightarrow> (case kc_rng io of
                     None \<Rightarrow> Panics
                   | Some s \<Rightarrow> Returns (Ok s, hm_insert key_id s cache)))))"

text \<open>The password written back to the keychain, best-effort, by the same call.\<close>

definition keychain_persists :: "keychain_io \<Rightarrow> string \<Rightarrow> seed_cache \<Rightarrow> string option" where
  "keychain_persists io key_id cache =
    (case (hm_get cache key_id, kc_entry_error io, kc_password io) of
       (None, None, None) \<Rightarrow> map_option to_hex (kc_rng io) | _ \<Rightarrow> None)"

definition in_memory_tpm_seed ::
  "keychain_io \<Rightarrow> string \<Rightarrow> seed_cache \<Rightarrow> ((crypto_error + string) \<times> seed_cache) may_panic" where
  "in_memory_tpm_seed io key_id cache =
    (case hm_get cache key_id of
       Some seed \<Rightarrow> Returns (Ok seed, cache)
     | None \<Rightarrow> (case kc_rng io of None \<Rightarrow> Panics | Some s \<Rightarrow> Returns (Ok s, hm_insert key_id s cache)))"

text \<open>
  The trait methods over a \<open>seed\<close> function; both backends write them in the same words.
\<close>

type_synonym seed_fn = "keychain_io \<Rightarrow> string \<Rightarrow> seed_cache \<Rightarrow> ((crypto_error + string) \<times> seed_cache) may_panic"

definition ensure_key :: "seed_fn \<Rightarrow> keychain_io \<Rightarrow> string \<Rightarrow> seed_cache
    \<Rightarrow> ((crypto_error + unit) \<times> seed_cache) may_panic" where
  "ensure_key seed io key_id cache =
    (case seed io key_id cache of Panics \<Rightarrow> Panics
     | Returns (r, c) \<Rightarrow> Returns (case r of Inl e \<Rightarrow> Err e | Inr _ \<Rightarrow> Ok (), c))"

definition backend_sign :: "ed_lib \<Rightarrow> seed_fn \<Rightarrow> keychain_io \<Rightarrow> string \<Rightarrow> string \<Rightarrow> seed_cache
    \<Rightarrow> ((crypto_error + string) \<times> seed_cache) may_panic" where
  "backend_sign ed seed io key_id digest cache =
    (case seed io key_id cache of Panics \<Rightarrow> Panics
     | Returns (r, c) \<Rightarrow> Returns (case r of Inl e \<Rightarrow> Err e | Inr s \<Rightarrow> Ok (ed_sign_with ed s digest), c))"

definition backend_public_key :: "ed_lib \<Rightarrow> seed_fn \<Rightarrow> keychain_io \<Rightarrow> string \<Rightarrow> seed_cache
    \<Rightarrow> ((crypto_error + string) \<times> seed_cache) may_panic" where
  "backend_public_key ed seed io key_id cache =
    (case seed io key_id cache of Panics \<Rightarrow> Panics
     | Returns (r, c) \<Rightarrow> Returns (case r of Inl e \<Rightarrow> Err e | Inr s \<Rightarrow> Ok (ed_public ed s), c))"

definition keychain_backend :: key_backend where "keychain_backend = OsKeychain"
definition in_memory_tpm_backend :: key_backend where "in_memory_tpm_backend = Tpm"

definition sign_image_digest :: "ed_lib \<Rightarrow> seed_fn \<Rightarrow> keychain_io \<Rightarrow> string \<Rightarrow> string \<Rightarrow> seed_cache
    \<Rightarrow> ((crypto_error + string) \<times> seed_cache) may_panic" where
  "sign_image_digest ed seed io key_id digest cache = backend_sign ed seed io key_id digest cache"

definition verify_image_digest :: "ed_lib \<Rightarrow> string \<Rightarrow> string \<Rightarrow> string \<Rightarrow> bool" where
  "verify_image_digest ed public digest sig =
    (if length public \<noteq> 32 then False
     else if \<not> ed_from_bytes ed public then False
     else if length sig \<noteq> 64 then False
     else ed_check ed public digest sig)"

subsection \<open>Calibration\<close>

lemma calibrated_in_bounds:
  assumes "calibrated lib elapsed target_ms = Ok ps"
  shows "MIN_MEMORY_KIB \<le> unat (memory_kib ps)" "unat (memory_kib ps) \<le> MAX_MEMORY_KIB"
    "iterations ps = 3" "parallelism ps = 1" "key_len ps = 32"
proof -
  let ?per = "flt_max (flt_div round64 (flt_mul round64 elapsed (Fin 1000))
    (Fin (of_nat (PROBE_MEMORY_KIB * PROBE_ITERATIONS)))) f64_MIN_POSITIVE"
  let ?t = "f64_of_nat (unat target_ms)"
  let ?m = "f64_round (flt_div round64 (flt_div round64 ?t ?per) (Fin 3))"
  have r64: "round64 x \<noteq> NaN" for x by (simp add: round64_def)
  have t: "?t \<noteq> NaN" by (simp add: f64_of_nat_def r64)
  have "?t \<noteq> PInf \<and> ?t \<noteq> NInf" using unsigned_less [of target_ms, where 'a = nat]
    by (intro f64_of_nat_finite) simp
  moreover have "?per = PInf \<or> (\<exists>c>0. ?per = Fin c)"
    unfolding f64_MIN_POSITIVE_def by (rule flt_max_Fin) simp
  ultimately have "flt_div round64 ?t ?per \<noteq> NaN"
    using t by (cases ?t) (auto simp: r64 flt_sgn_inf_def)
  then have "flt_div round64 (flt_div round64 ?t ?per) (Fin 3) \<noteq> NaN"
    by (cases "flt_div round64 ?t ?per") (auto simp: r64 flt_sgn_inf_def)
  then have "?m \<noteq> NaN" by (simp add: f64_round_def split: flt.splits)
  then obtain q where q: "f64_clamp (Fin (of_nat MIN_MEMORY_KIB)) (Fin (of_nat MAX_MEMORY_KIB)) ?m = Fin q"
      "of_nat MIN_MEMORY_KIB \<le> q" "q \<le> of_nat MAX_MEMORY_KIB"
    using f64_clamp_between [of "of_nat MIN_MEMORY_KIB" "of_nat MAX_MEMORY_KIB" ?m]
    by (auto simp: MIN_MEMORY_KIB_def MAX_MEMORY_KIB_def)
  have ps: "ps = kdf_default \<lparr> memory_kib := f64_as_u32 (Fin q) \<rparr>"
    using assms q(1) by (auto simp: calibrated_def kdf_default_def Let_def split: sum.splits)
  show "MIN_MEMORY_KIB \<le> unat (memory_kib ps)" "unat (memory_kib ps) \<le> MAX_MEMORY_KIB"
    using f64_as_u32_between [OF q(2,3)] by (auto simp: ps MAX_MEMORY_KIB_def)
qed (use assms in \<open>auto simp: calibrated_def kdf_default_def Let_def split: sum.splits\<close>)

subsection \<open>Seeds stay put\<close>

text \<open>Any sequence of calls on any keys, stopping at a panic.\<close>

fun seed_calls :: "seed_fn \<Rightarrow> (keychain_io \<times> string) list \<Rightarrow> seed_cache \<Rightarrow> seed_cache may_panic" where
  "seed_calls seed [] c = Returns c"
| "seed_calls seed ((io, k) # cs) c = (case seed io k c of Panics \<Rightarrow> Panics | Returns (_, c') \<Rightarrow> seed_calls seed cs c')"

text \<open>
  The contract of a \<open>seed\<close> function: a cached seed is returned as it is, a returned seed is cached, and no
  call forgets or changes one.
\<close>

locale seed_backend =
  fixes seed :: seed_fn
  assumes seed_cached: "hm_get c k = Some s \<Longrightarrow> seed io k c = Returns (Ok s, c)"
    and seed_stores: "seed io k c = Returns (Ok s, c') \<Longrightarrow> hm_get c' k = Some s"
    and seed_keeps: "seed io k c = Returns (r, c') \<Longrightarrow> hm_get c k' = Some s \<Longrightarrow> hm_get c' k' = Some s"
begin

lemma calls_keep: "seed_calls seed cs c = Returns c' \<Longrightarrow> hm_get c k = Some s \<Longrightarrow> hm_get c' k = Some s"
proof (induction cs arbitrary: c)
  case (Cons a cs)
  obtain io k' where a: "a = (io, k')" by (cases a)
  from Cons.prems obtain r d where "seed io k' c = Returns (r, d)" and "seed_calls seed cs d = Returns c'"
    by (auto simp: a split: may_panic.splits prod.splits)
  with Cons.IH [of d] seed_keeps Cons.prems(2) show ?case by blast
qed simp

lemma sign_then_public_key:
  assumes "backend_sign ed seed io k m c = Returns (Ok sig, c1)" and "seed_calls seed cs c1 = Returns c2"
  shows "\<exists>s. sig = ed_sign_with ed s m \<and> backend_public_key ed seed io' k c2 = Returns (Ok (ed_public ed s), c2)"
proof -
  from assms(1) obtain s where s: "seed io k c = Returns (Ok s, c1)" "sig = ed_sign_with ed s m"
    by (auto simp: backend_sign_def split: may_panic.splits prod.splits sum.splits)
  from seed_stores [OF s(1)] have "hm_get c1 k = Some s" .
  with assms(2) have "hm_get c2 k = Some s" by (rule calls_keep)
  then have "seed io' k c2 = Returns (Ok s, c2)" by (rule seed_cached)
  with s(2) show ?thesis by (intro exI [of _ s]) (simp add: backend_public_key_def)
qed

end

interpretation keychain: seed_backend keychain_seed
  by unfold_locales
    (auto simp: keychain_seed_def hm_simps split: option.splits may_panic.splits if_splits)

interpretation memory_tpm: seed_backend in_memory_tpm_seed
  by unfold_locales
    (auto simp: in_memory_tpm_seed_def hm_simps split: option.splits may_panic.splits if_splits)

text \<open>ed25519 as documented: signatures have 64 bytes, public keys 32, and a signature verifies.\<close>

definition ed_ok :: "ed_lib \<Rightarrow> bool" where
  "ed_ok ed \<longleftrightarrow> (\<forall>s m. length (ed_public ed s) = 32 \<and> ed_from_bytes ed (ed_public ed s) \<and>
     length (ed_sign_with ed s m) = 64 \<and> ed_check ed (ed_public ed s) m (ed_sign_with ed s m))"

subsection \<open>The keystore as a map\<close>

text \<open>A session that seals secrets one after the other under one key; a panic ends it.\<close>

type_synonym seal_request = "string option \<times> string \<times> string"

fun seal_all :: "aead \<Rightarrow> derived_key \<Rightarrow> seal_request list \<Rightarrow> keystore \<Rightarrow> keystore may_panic" where
  "seal_all cipher key [] ks = Returns ks"
| "seal_all cipher key ((rng, sid, p) # rs) ks =
    (case encrypt_secret cipher rng sid p key ks of Panics \<Rightarrow> Panics
     | Returns (_, ks') \<Rightarrow> seal_all cipher key rs ks')"

text \<open>What the session means: a map of ids to plaintexts, updated by each sealing that succeeds.\<close>

definition seals :: "aead \<Rightarrow> derived_key \<Rightarrow> seal_request \<Rightarrow> bool" where
  "seals cipher key r = (case r of (rng, _, p) \<Rightarrow>
     aead_new cipher key = None \<and> (\<exists>nonce ct. rng = Some nonce \<and> aead_encrypt cipher key nonce p = Inr ct))"

fun last_sealed :: "aead \<Rightarrow> derived_key \<Rightarrow> seal_request list \<Rightarrow> string \<Rightarrow> string option" where
  "last_sealed cipher key [] sid = None"
| "last_sealed cipher key (r # rs) sid =
    or_opt (last_sealed cipher key rs sid)
      (if fst (snd r) = sid \<and> seals cipher key r then Some (snd (snd r)) else None)"

definition aead_ok :: "aead \<Rightarrow> derived_key \<Rightarrow> bool" where
  "aead_ok cipher key \<longleftrightarrow> (\<forall>nonce p ct. aead_encrypt cipher key nonce p = Inr ct \<longrightarrow>
     aead_decrypt cipher key nonce ct = Some p)"

lemma decrypt_after_encrypt:
  assumes "aead_ok cipher key" and "length nonce = 12"
    and "encrypt_secret cipher (Some nonce) sid p key ks = Returns (r, ks')"
  shows "decrypt_secret cipher sid' key ks' =
    (if sid' = sid \<and> seals cipher key (Some nonce, sid, p) then Returns (Ok p)
     else decrypt_secret cipher sid' key ks)"
  using assms
  by (auto simp: encrypt_secret_def decrypt_secret_def seals_def aead_ok_def hm_simps from_hex_to_hex
      split: option.splits sum.splits)

lemma seal_all_lookup:
  assumes "aead_ok cipher key"
  shows "\<forall>r\<in>set rs. \<exists>nonce. fst r = Some nonce \<and> length nonce = 12 \<Longrightarrow>
    \<exists>ks'. seal_all cipher key rs ks = Returns ks' \<and> (\<forall>sid. decrypt_secret cipher sid key ks' =
      (case last_sealed cipher key rs sid of Some p \<Rightarrow> Returns (Ok p) | None \<Rightarrow> decrypt_secret cipher sid key ks))"
proof (induction rs arbitrary: ks)
  case (Cons r rs)
  then obtain nonce sid p where r: "r = (Some nonce, sid, p)" and len: "length nonce = 12"
    by (cases r) auto
  obtain res ks1 where e: "encrypt_secret cipher (Some nonce) sid p key ks = Returns (res, ks1)"
    by (cases "aead_new cipher key"; cases "aead_encrypt cipher key nonce p") (simp_all add: encrypt_secret_def)
  from Cons obtain ks' where ks': "seal_all cipher key rs ks1 = Returns ks'"
    and look: "\<And>sid. decrypt_secret cipher sid key ks' = (case last_sealed cipher key rs sid of
      Some p \<Rightarrow> Returns (Ok p) | None \<Rightarrow> decrypt_secret cipher sid key ks1)"
    by fastforce
  from ks' e show ?case
    by (auto simp: r look decrypt_after_encrypt [OF assms len e] split: option.split)
qed simp

subsection \<open>Properties\<close>

text \<open>
  C32: A keystore is a map from ids to plaintexts. Seal any requests one after the other under one key,
  with 12 random bytes for each: no step panics, and afterwards \<open>decrypt_secret\<close> of an id returns the
  plaintext of the last request for that id that the cipher accepted, and what it returned before the
  session when there is none. The hypothesis is that the cipher opens what it seals.
\<close>

theorem keystore_is_map:
  assumes "aead_ok cipher key"
    and "\<forall>(rng, sid, p)\<in>set rs. \<exists>nonce. rng = Some nonce \<and> length nonce = 12"
  shows "\<exists>ks'. seal_all cipher key rs ks = Returns ks' \<and> (\<forall>sid. decrypt_secret cipher sid key ks' =
    (case last_sealed cipher key rs sid of
       Some p \<Rightarrow> Returns (Ok p)
     | None \<Rightarrow> decrypt_secret cipher sid key ks))"
  using assms by (intro seal_all_lookup) (auto split: prod.splits)

definition demo_aead :: aead where
  "demo_aead = \<lparr> aead_new = (\<lambda>k. if length k = 32 then None else Some ''len''),
     aead_encrypt = (\<lambda>k n p. if p = ''!'' then Inl ''no'' else Inr (p @ n)),
     aead_decrypt = (\<lambda>k n c. if drop (length c - length n) c = n then Some (take (length c - length n) c) else None) \<rparr>"

definition demo_nonce :: string where "demo_nonce = replicate 12 (CHR ''n'')"
definition demo_dkey :: derived_key where "demo_dkey = replicate 32 (CHR ''k'')"

definition demo_ks :: keystore where
  "demo_ks = \<lparr> ks_version = V2, ks_salt = to_hex ''salt'', ks_kdf = kdf_default, ks_secrets = [] \<rparr>"

lemma demo_aead_ok: "aead_ok demo_aead k"
  by (simp add: aead_ok_def demo_aead_def split: if_splits)

theorem keystore_is_map_witness:
  "\<exists>ks'. seal_all demo_aead demo_dkey [(Some demo_nonce, ''a'', ''one''), (Some demo_nonce, ''a'', ''two''),
      (Some demo_nonce, ''a'', ''!'')] demo_ks = Returns ks' \<and>
    decrypt_secret demo_aead ''a'' demo_dkey ks' = Returns (Ok ''two'') \<and>
    decrypt_secret demo_aead ''b'' demo_dkey ks' = Returns (Err (SecretNotFound ''b''))"
proof -
  let ?rs = "[(Some demo_nonce, ''a'', ''one''), (Some demo_nonce, ''a'', ''two''), (Some demo_nonce, ''a'', ''!'')]"
  have "\<forall>(rng, sid, p)\<in>set ?rs. \<exists>nonce. rng = Some nonce \<and> length nonce = 12"
    by (simp add: demo_nonce_def)
  from keystore_is_map [OF demo_aead_ok this, of demo_dkey demo_ks]
  show ?thesis
    by (auto simp: seals_def demo_aead_def demo_dkey_def decrypt_secret_def demo_ks_def hm_simps)
qed

text \<open>
  A signature made by the keychain backend verifies against the public key the same backend
  returns at any later point of the process: whatever keys are used in between, whatever the OS keychain
  answers or refuses (it may be locked, or hold another seed by then), and however many fresh seeds were
  generated. The hypothesis on ed25519 is its documented contract.
\<close>

theorem signature_verifies_later:
  assumes "ed_ok ed"
    and "sign_image_digest ed keychain_seed io key_id digest cache = Returns (Ok sig, c1)"
    and "seed_calls keychain_seed calls c1 = Returns c2"
  shows "\<exists>pk. backend_public_key ed keychain_seed io' key_id c2 = Returns (Ok pk, c2) \<and>
    verify_image_digest ed pk digest sig"
proof -
  from keychain.sign_then_public_key [OF assms(2) [unfolded sign_image_digest_def] assms(3), of io']
  obtain s where "sig = ed_sign_with ed s digest"
    and "backend_public_key ed keychain_seed io' key_id c2 = Returns (Ok (ed_public ed s), c2)" by blast
  with assms(1) show ?thesis by (auto simp: ed_ok_def verify_image_digest_def)
qed

definition demo_ed :: ed_lib where
  "demo_ed = \<lparr> ed_sign_with = (\<lambda>s m. replicate 64 (hd (s @ ''x''))), ed_public = (\<lambda>s. replicate 32 (hd (s @ ''x''))),
     ed_from_bytes = (\<lambda>_. True), ed_check = (\<lambda>pk m sig. hd sig = hd pk) \<rparr>"

definition demo_io :: "string \<Rightarrow> keychain_io" where
  "demo_io r = \<lparr> kc_entry_error = None, kc_password = None, kc_rng = Some r \<rparr>"

theorem signature_verifies_later_witness:
  "\<exists>pk. backend_public_key demo_ed keychain_seed (demo_io ''zzz'') ''k'' [(''k'', ''abc''), (''j'', ''def'')]
      = Returns (Ok pk, [(''k'', ''abc''), (''j'', ''def'')]) \<and>
    verify_image_digest demo_ed pk ''digest'' (replicate 64 (CHR ''a''))"
proof (rule signature_verifies_later)
  show "ed_ok demo_ed" by (simp add: ed_ok_def demo_ed_def)
  show "sign_image_digest demo_ed keychain_seed (demo_io ''abc'') ''k'' ''digest'' []
      = Returns (Ok (replicate 64 (CHR ''a'')), [(''k'', ''abc'')])"
    by (simp add: sign_image_digest_def backend_sign_def keychain_seed_def demo_io_def demo_ed_def hm_get_def hm_insert_def)
  show "seed_calls keychain_seed [(demo_io ''def'', ''j''), (demo_io ''q'', ''k'')] [(''k'', ''abc'')]
      = Returns [(''k'', ''abc''), (''j'', ''def'')]"
    by (simp add: keychain_seed_def demo_io_def hm_get_def hm_insert_def)
qed

end
