(* ===== verification/Export.thy ===== *)
theory Export
  imports Crypto
begin

text \<open>
  \<open>secureops-api/src/export.rs\<close>: the signed incident bundle. The ZIP library is a parameter (\<open>zip_lib\<close>: entries
  in order to bytes, and bytes to a lookup of entries by name); ed25519 is that of the signing backends.

  The lemmas show that a built bundle verifies, and that the signature covers the two documents only as one
  concatenated text.
\<close>

definition export_payload :: "string \<Rightarrow> string \<Rightarrow> string" where
  "export_payload findings_json manifest_json = findings_json @ manifest_json"

record incident_export =
  ie_seed :: string

definition export_from_seed :: "string \<Rightarrow> incident_export" where
  "export_from_seed seed = \<lparr> ie_seed = seed \<rparr>"

definition export_public_key :: "ed_lib \<Rightarrow> incident_export \<Rightarrow> string" where
  "export_public_key ed ex = ed_public ed (ie_seed ex)"

datatype export_error = ZipError | OddHex | BadHex | BadSignature | BadKey

record zip_lib =
  zip_write :: "(string \<times> string) list \<Rightarrow> string option"
  zip_read :: "string \<Rightarrow> (string \<Rightarrow> string option) option"

definition export_build :: "ed_lib \<Rightarrow> zip_lib \<Rightarrow> incident_export \<Rightarrow> string \<Rightarrow> string \<Rightarrow> export_error + string" where
  "export_build ed zl ex findings_json manifest_json =
    (let sig = ed_sign_with ed (ie_seed ex) (export_payload findings_json manifest_json)
     in case zip_write zl [(''findings.json'', findings_json), (''manifest.json'', manifest_json),
            (''signature.hex'', to_hex sig), (''pubkey.hex'', to_hex (export_public_key ed ex))] of
          None \<Rightarrow> Err ZipError | Some buf \<Rightarrow> Ok buf)"

text \<open>\<open>read_to_string\<close> fails on an entry that is not UTF-8.\<close>

definition read_entry :: "(string \<Rightarrow> string option) \<Rightarrow> string \<Rightarrow> export_error + string" where
  "read_entry archive name = (case archive name of None \<Rightarrow> Err ZipError
     | Some s \<Rightarrow> if utf8_valid s then Ok s else Err ZipError)"

definition export_verify :: "ed_lib \<Rightarrow> zip_lib \<Rightarrow> string \<Rightarrow> string \<Rightarrow> (export_error + bool) may_panic" where
  "export_verify ed zl bytes expected_pubkey =
    (case zip_read zl bytes of
       None \<Rightarrow> Returns (Err ZipError)
     | Some archive \<Rightarrow>
       (case read_entry archive ''findings.json'' of Inl e \<Rightarrow> Returns (Err e)
        | Inr findings \<Rightarrow>
       (case read_entry archive ''manifest.json'' of Inl e \<Rightarrow> Returns (Err e)
        | Inr manifest \<Rightarrow>
       (case read_entry archive ''signature.hex'' of Inl e \<Rightarrow> Returns (Err e)
        | Inr sig_hex \<Rightarrow>
            if length (trim sig_hex) mod 2 \<noteq> 0 then Returns (Err OddHex)
            else (case from_hex (trim sig_hex) of
               Panics \<Rightarrow> Panics
             | Returns None \<Rightarrow> Returns (Err BadHex)
             | Returns (Some sig) \<Rightarrow>
                 if length sig \<noteq> 64 then Returns (Err BadSignature)
                 else if \<not> ed_from_bytes ed expected_pubkey then Returns (Err BadKey)
                 else Returns (Ok (ed_check ed expected_pubkey (export_payload findings manifest) sig)))))))"

subsection \<open>Bundles\<close>

text \<open>The ZIP library as documented: reading a written archive finds every entry by its name.\<close>

definition zip_ok :: "zip_lib \<Rightarrow> (string \<times> string) list \<Rightarrow> bool" where
  "zip_ok zl es \<longleftrightarrow> (\<exists>b f. zip_write zl es = Some b \<and> zip_read zl b = Some f \<and> (\<forall>k. f k = map_of es k))"

definition bundle_entries :: "string \<Rightarrow> string \<Rightarrow> string \<Rightarrow> string \<Rightarrow> (string \<times> string) list" where
  "bundle_entries findings manifest sig pk = [(''findings.json'', findings), (''manifest.json'', manifest),
     (''signature.hex'', to_hex sig), (''pubkey.hex'', to_hex pk)]"

lemma hex_char_plain: "c \<in> set (to_hex bs) \<Longrightarrow> char_code c < 128 \<and> \<not> ascii_ws c"
proof (induction bs)
  case (Cons b bs)
  have "char_code b div 16 < 16" using char_code_less [of b] by simp
  moreover have "char_code (hex_digit d) < 128 \<and> \<not> ascii_ws (hex_digit d)" if "d < 16" for d
    using that by (auto simp: hex_digit_def ascii_ws_def char_code_def)
  ultimately show ?case using Cons by auto
qed simp

lemma is_ascii_to_hex: "is_ascii (to_hex bs)"
  using hex_char_plain by (auto simp: is_ascii_def list_all_iff)

lemma trim_to_hex [simp]: "trim (to_hex bs) = to_hex bs"
proof -
  let ?gs = "map (\<lambda>c. [c]) (to_hex bs)"
  have "\<not> is_whitespace g" if "g \<in> set ?gs" for g
    using that hex_char_plain is_whitespace_single by auto
  then have "dropWhile is_whitespace ?gs = ?gs" "dropWhile is_whitespace (rev ?gs) = rev ?gs"
    by (simp_all only: dropWhile_eq_self_iff) (metis hd_in_set, metis hd_in_set set_rev)
  then show ?thesis by (simp add: trim_def utf8_chars_ascii [OF is_ascii_to_hex] comp_def)
qed

lemma utf8_valid_to_hex [simp]: "utf8_valid (to_hex bs)"
  using from_utf8_lossy_ascii [OF is_ascii_to_hex] by (simp add: utf8_valid_def)

lemma export_verify_bundle:
  assumes "zip_read zl b = Some f" and "\<And>k. f k = map_of (bundle_entries findings manifest sig pk) k"
    and "utf8_valid findings" and "utf8_valid manifest" and "length sig = 64"
  shows "export_verify ed zl b key =
    (if ed_from_bytes ed key then Returns (Ok (ed_check ed key (findings @ manifest) sig)) else Returns (Err BadKey))"
  using assms
  by (simp add: export_verify_def read_entry_def bundle_entries_def from_hex_to_hex export_payload_def)

subsection \<open>Properties\<close>

text \<open>
  The exported bundle verifies, but its signature does not separate the two documents. A bundle built from two texts
  is accepted under the exporter's public key; and so is, with the same signature, every bundle whose findings and
  manifest are another split of the same concatenated text, for instance one where the manifest has been
  moved into the findings.
\<close>

theorem export_signs_concatenation:
  assumes "ed_ok ed"
    and "zip_ok zl (bundle_entries findings manifest (ed_sign_with ed seed (findings @ manifest)) (ed_public ed seed))"
    and "zip_ok zl (bundle_entries findings' manifest' (ed_sign_with ed seed (findings @ manifest)) (ed_public ed seed))"
    and "utf8_valid findings" and "utf8_valid manifest"
    and "utf8_valid findings'" and "utf8_valid manifest'" and "findings' @ manifest' = findings @ manifest"
  shows "\<exists>b b'. export_build ed zl (export_from_seed seed) findings manifest = Ok b \<and>
    export_verify ed zl b (export_public_key ed (export_from_seed seed)) = Returns (Ok True) \<and>
    zip_write zl (bundle_entries findings' manifest' (ed_sign_with ed seed (findings @ manifest)) (ed_public ed seed)) = Some b' \<and>
    export_verify ed zl b' (export_public_key ed (export_from_seed seed)) = Returns (Ok True)"
proof -
  let ?sig = "ed_sign_with ed seed (findings @ manifest)"
  from assms(2) obtain b f where b: "zip_write zl (bundle_entries findings manifest ?sig (ed_public ed seed)) = Some b"
    "zip_read zl b = Some f" "\<And>k. f k = map_of (bundle_entries findings manifest ?sig (ed_public ed seed)) k"
    unfolding zip_ok_def by metis
  from assms(3) obtain b' f' where b': "zip_write zl (bundle_entries findings' manifest' ?sig (ed_public ed seed)) = Some b'"
    "zip_read zl b' = Some f'" "\<And>k. f' k = map_of (bundle_entries findings' manifest' ?sig (ed_public ed seed)) k"
    unfolding zip_ok_def by metis
  from assms(1) have ed: "length ?sig = 64" "ed_from_bytes ed (ed_public ed seed)"
    "ed_check ed (ed_public ed seed) (findings @ manifest) ?sig" by (simp_all add: ed_ok_def)
  have build: "export_build ed zl (export_from_seed seed) findings manifest = Ok b"
    using b(1) by (simp add: export_build_def export_from_seed_def export_public_key_def export_payload_def bundle_entries_def)
  show ?thesis
    using build b'(1) export_verify_bundle [OF b(2,3) assms(4,5) ed(1), of ed "ed_public ed seed"]
      export_verify_bundle [OF b'(2,3) assms(6,7) ed(1), of ed "ed_public ed seed"] ed(2,3) assms(8)
    by (simp add: export_public_key_def export_from_seed_def)
qed

text \<open>A library that knows two archives, by their first entry.\<close>

definition demo_zip :: "(string \<times> string) list \<Rightarrow> (string \<times> string) list \<Rightarrow> zip_lib" where
  "demo_zip e1 e2 = \<lparr> zip_write = (\<lambda>es. if es = e1 then Some ''1'' else if es = e2 then Some ''2'' else None),
     zip_read = (\<lambda>b. if b = ''1'' then Some (map_of e1) else if b = ''2'' then Some (map_of e2) else None) \<rparr>"

lemma demo_zip_ok: "zip_ok (demo_zip e1 e2) e1" "zip_ok (demo_zip e1 e2) e2"
  by (auto simp: zip_ok_def demo_zip_def)

definition demo_bundle :: "string \<Rightarrow> string \<Rightarrow> (string \<times> string) list" where
  "demo_bundle f m = bundle_entries f m (ed_sign_with demo_ed ''s'' (''[]'' @ ''{}'')) (ed_public demo_ed ''s'')"

theorem export_signs_concatenation_witness:
  "\<exists>b b'. export_build demo_ed (demo_zip (demo_bundle ''[]'' ''{}'') (demo_bundle ''[]{}'' [])) (export_from_seed ''s'') ''[]'' ''{}'' = Ok b \<and>
    export_verify demo_ed (demo_zip (demo_bundle ''[]'' ''{}'') (demo_bundle ''[]{}'' [])) b
      (export_public_key demo_ed (export_from_seed ''s'')) = Returns (Ok True) \<and>
    zip_write (demo_zip (demo_bundle ''[]'' ''{}'') (demo_bundle ''[]{}'' [])) (demo_bundle ''[]{}'' []) = Some b' \<and>
    export_verify demo_ed (demo_zip (demo_bundle ''[]'' ''{}'') (demo_bundle ''[]{}'' [])) b'
      (export_public_key demo_ed (export_from_seed ''s'')) = Returns (Ok True)"
proof -
  have ed: "ed_ok demo_ed" by (simp add: ed_ok_def demo_ed_def)
  have u: "utf8_valid ''[]''" "utf8_valid ''{}''" "utf8_valid ''[]{}''" "utf8_valid []" by code_simp+
  have e: "''[]{}'' @ [] = ''[]'' @ ''{}''" by simp
  show ?thesis
    unfolding demo_bundle_def
    by (rule export_signs_concatenation [OF ed demo_zip_ok u e])
qed

end
