(* ===== verification/Api.thy ===== *)
theory Api
  imports Auth Rl SelfHeal GraphPaths BugHunt Compliance Export
begin

text \<open>
  The request handlers of the platform API: \<open>secureops-api/src/routes.rs\<close>, \<open>sso.rs\<close> and \<open>intel.rs\<close>, over
  any implementation of the \<open>Store\<close> trait.

  A handler is a function of the configuration, what the call takes from its environment (clock, fresh
  identifier), the authenticated claims and the application state; its result is an error or a JSON body.
  \<open>api_step\<close> is the router: it authenticates where the code's extractor does and dispatches. JSON
  bodies are values; their text is serde's. \<open>graph_paths\<close> stands beside the router, because its search may not
  return on a malformed graph.

  The lemmas show that a request reads and changes only what belongs to its principal's tenant, for
  every store that meets the contract \<open>tenant_store\<close>, and where the shared circuit breaker breaks this.
\<close>

subsection \<open>State and configuration\<close>

record bughunt_job =
  bj_tenant :: string
  bj_status :: string
  bj_report :: "finding_report option"
  bj_iterations :: nat

record 's app_state =
  ap_store :: 's
  ap_hub :: "hub_msg list"
  ap_queue :: "json list"
  ap_graphs :: "(string, security_graph) hmap"
  ap_ranker :: "(string, lin_ucb) hmap"
  ap_bughunt_jobs :: "(uuid, bughunt_job) hmap"
  ap_breaker :: circuit_breaker

record oidc_claims =
  oc_sub :: string
  oc_email :: string
  oc_tenant :: string
  oc_tier :: string
  oc_role :: string
  oc_features :: "string list"

record api_config =
  cf_auth :: auth_config
  cf_crypto :: license_crypto
  cf_license_pubkey :: string
  cf_redis :: bool
  cf_oidc :: "(string \<Rightarrow> oidc_claims option) option"
  cf_show_uuid :: "uuid \<Rightarrow> string"
  cf_sqrt32 :: "f32 \<Rightarrow> f32"
  cf_powf :: "f32 \<Rightarrow> f32 \<Rightarrow> f32"
  cf_debug_action :: "cloud_action \<Rightarrow> string"
  cf_report_to_string :: "finding_report \<Rightarrow> string + string"
  cf_report_from_str :: "string \<Rightarrow> string + finding_report"
  cf_lower :: lower_table
  cf_to_string :: "json \<Rightarrow> string"
  cf_from_str :: "string \<Rightarrow> json option"
  cf_export :: incident_export
  cf_ed :: ed_lib
  cf_zip :: zip_lib

definition api_feature_spec :: feature_spec where
  "api_feature_spec = \<lparr> fs_n_rule_categories = 16, fs_n_clouds = 4 \<rparr>"

record call_env =
  en_now :: int
  en_now_ms :: u64
  en_uuid :: uuid
  en_enqueue_ok :: bool
  en_evidence_id :: "nat \<Rightarrow> nat"

definition app_new :: "'s \<Rightarrow> 's app_state" where
  "app_new s = \<lparr> ap_store = s, ap_hub = [], ap_queue = [], ap_graphs = [], ap_ranker = [], ap_bughunt_jobs = [],
     ap_breaker = breaker_default \<rparr>"

type_synonym 's handler = "'s app_state \<Rightarrow> (api_error + json) \<times> 's app_state"

definition publish_tenant :: "string \<Rightarrow> json \<Rightarrow> 's app_state \<Rightarrow> 's app_state" where
  "publish_tenant tenant msg a = a\<lparr>ap_hub := ap_hub a @ [\<lparr> hu_tenant = Some tenant, hu_payload = msg \<rparr>]\<rparr>"

subsection \<open>Serialised models\<close>

definition tier_lower :: "tier \<Rightarrow> string" where
  "tier_lower t = (case t of Community \<Rightarrow> ''community'' | Pro \<Rightarrow> ''pro'' | Enterprise \<Rightarrow> ''enterprise'')"

definition license_json :: "license \<Rightarrow> json" where
  "license_json l = JObj [(''licId'', JStr (lic_id l)), (''tenantId'', JStr (lic_tenant_id l)),
     (''tier'', JStr (tier_lower (lic_tier l))), (''seats'', JInt (uint (lic_seats l))),
     (''features'', JArr (map JStr (lic_features l))), (''issued'', JInt (lic_issued l)),
     (''expiry'', JInt (lic_expiry l)), (''mode'', JStr (lic_mode l)), (''graceDays'', JInt (uint (lic_grace_days l)))]"

definition scan_status_lower :: "scan_status \<Rightarrow> string" where
  "scan_status_lower s = (case s of Queued \<Rightarrow> ''queued'' | Running \<Rightarrow> ''running'' | ScanCompleted \<Rightarrow> ''completed''
     | ScanFailed \<Rightarrow> ''failed'')"

definition scan_json :: "(uuid \<Rightarrow> string) \<Rightarrow> scan \<Rightarrow> json" where
  "scan_json sh s = JObj [(''id'', JStr (sh (sc_id s))), (''tenantId'', JStr (sc_tenant_id s)),
     (''scope'', JStr (sc_scope s)), (''kind'', JStr (sc_kind s)),
     (''status'', JStr (scan_status_lower (sc_status s))), (''createdAt'', JInt (sc_created_at s))]"

definition finding_json :: "(uuid \<Rightarrow> string) \<Rightarrow> finding \<Rightarrow> json" where
  "finding_json sh f = JObj [(''id'', JStr (sh (fi_id f))), (''tenantId'', JStr (fi_tenant_id f)),
     (''scanId'', json_opt (\<lambda>u. JStr (sh u)) (fi_scan_id f)), (''title'', JStr (fi_title f)),
     (''severity'', JStr (severity_lower (fi_severity f))), (''status'', JStr (fi_status f)),
     (''cloud'', json_opt JStr (fi_cloud f)), (''blastRadius'', JInt (fi_blast_radius f))]"

definition remediation_json :: "(uuid \<Rightarrow> string) \<Rightarrow> remediation \<Rightarrow> json" where
  "remediation_json sh r = JObj [(''id'', JStr (sh (re_id r))), (''finding_id'', JStr (re_finding_id r)),
     (''playbook_id'', JStr (re_playbook_id r)), (''class'', JStr (re_class r)), (''state'', JStr (re_state r))]"

subsection \<open>routes.rs\<close>

definition license_activate ::
  "api_config \<Rightarrow> 's store_ops \<Rightarrow> call_env \<Rightarrow> string \<Rightarrow> 's handler" where
  "license_activate cfg ops env key a =
    (case license_verify (cf_crypto cfg) key (cf_license_pubkey cfg) (en_now env) of
       Inl code \<Rightarrow> (Err (LicenseErr code), a)
     | Inr lic \<Rightarrow>
         let (r, s) = st_put_license ops lic (ap_store a); a1 = a\<lparr>ap_store := s\<rparr> in
         case r of Inl e \<Rightarrow> (Err (StoreErr e), a1)
         | Inr _ \<Rightarrow>
             let tier = tier_lower (lic_tier lic);
                 cl = \<lparr> cl_sub = ''license:'' @ lic_id lic, cl_tenant = lic_tenant_id lic, cl_tier = tier,
                   cl_role = ''admin'', cl_features = lic_features lic, cl_iss = ISSUER,
                   cl_exp = of_int (lic_expiry lic) \<rparr>
             in case issue_jwt (cf_auth cfg) cl of
                  Inl e \<Rightarrow> (Err (Internal e), a1)
                | Inr token \<Rightarrow> (Ok (JObj [(''tier'', JStr tier), (''expiry'', JInt (lic_expiry lic)),
                    (''features'', JArr (map JStr (lic_features lic))), (''token'', JStr token)]), a1))"

definition license_get :: "'s store_ops \<Rightarrow> claims \<Rightarrow> 's handler" where
  "license_get ops c a =
    (case st_get_license ops (cl_tenant c) (ap_store a) of
       Inl e \<Rightarrow> (Err (StoreErr e), a)
     | Inr None \<Rightarrow> (Err NotFound, a)
     | Inr (Some l) \<Rightarrow> (Ok (license_json l), a))"

definition scan_payload :: "api_config \<Rightarrow> scan \<Rightarrow> json" where
  "scan_payload cfg sc = JObj [(''scanId'', JStr (cf_show_uuid cfg (sc_id sc))), (''scope'', JStr (sc_scope sc)),
     (''kind'', JStr (sc_kind sc)), (''tenant_id'', JStr (sc_tenant_id sc))]"

definition api_create_scan ::
  "api_config \<Rightarrow> 's store_ops \<Rightarrow> call_env \<Rightarrow> claims \<Rightarrow> string \<Rightarrow> 's handler" where
  "api_create_scan cfg ops env c scope a =
    (if \<not> allows (cf_auth cfg) (cl_features c) ''scans'' then (Err (Forbidden ''scans''), a)
     else
       let sc = \<lparr> sc_id = en_uuid env, sc_tenant_id = cl_tenant c, sc_scope = scope, sc_kind = ''scan'',
             sc_status = Queued, sc_created_at = en_now env \<rparr>;
           (r, s) = st_create_scan ops sc (ap_store a); a1 = a\<lparr>ap_store := s\<rparr>
       in case r of Inl e \<Rightarrow> (Err (StoreErr e), a1)
          | Inr _ \<Rightarrow>
            let a2 = (if cf_redis cfg \<and> en_enqueue_ok env
                  then a1\<lparr>ap_queue := scan_payload cfg sc # ap_queue a1\<rparr> else a1);
                uid = JStr (cf_show_uuid cfg (sc_id sc))
            in (Ok (JObj [(''jobId'', uid), (''status'', JStr ''queued'')]),
                publish_tenant (cl_tenant c) (JObj [(''event'', JStr ''scan.queued''), (''id'', uid)]) a2))"

definition api_get_scan :: "api_config \<Rightarrow> 's store_ops \<Rightarrow> claims \<Rightarrow> uuid \<Rightarrow> 's handler" where
  "api_get_scan cfg ops c uid a =
    (case st_get_scan ops (cl_tenant c) uid (ap_store a) of
       Inl e \<Rightarrow> (Err (StoreErr e), a)
     | Inr None \<Rightarrow> (Err NotFound, a)
     | Inr (Some sc) \<Rightarrow> (Ok (scan_json (cf_show_uuid cfg) sc), a))"

definition severity_rank :: "finding_severity \<Rightarrow> u8" where
  "severity_rank s = (case s of Critical \<Rightarrow> 4 | High \<Rightarrow> 3 | Medium \<Rightarrow> 2 | Low \<Rightarrow> 1 | Info \<Rightarrow> 0)"

definition cloud_index :: "string option \<Rightarrow> nat" where
  "cloud_index c = (if c = Some ''aws'' then 0 else if c = Some ''gcp'' then 1 else if c = Some ''azure'' then 2 else 3)"

definition features_for :: "finding \<Rightarrow> f32 list" where
  "features_for f = features_to_vec api_feature_spec
    \<lparr> fe_severity = severity_rank (fi_severity f),
      fe_blast_radius_norm = clamp01 (flt_div round32 (round32 (of_int (fi_blast_radius f))) (Fin 100)),
      fe_exposed_internet = False, fe_rule_category = 0, fe_cloud = cloud_index (fi_cloud f),
      fe_recency_decay = Fin 1 \<rparr>"

definition rank_findings :: "api_config \<Rightarrow> (string, lin_ucb) hmap \<Rightarrow> string \<Rightarrow> finding list \<Rightarrow> finding list" where
  "rank_findings cfg ranker tenant items =
    (case hm_get ranker tenant of
       Some model \<Rightarrow> map (\<lambda>i. items ! i) (rank round32 (cf_sqrt32 cfg) model (map features_for items))
     | None \<Rightarrow> items)"

record findings_query =
  fq_severity :: "string option"
  fq_status :: "string option"
  fq_limit :: "int option"
  fq_offset :: "int option"

definition api_list_findings ::
  "api_config \<Rightarrow> 's store_ops \<Rightarrow> claims \<Rightarrow> findings_query \<Rightarrow> 's handler" where
  "api_list_findings cfg ops c q a =
    (if \<not> allows (cf_auth cfg) (cl_features c) ''findings'' then (Err (Forbidden ''findings''), a)
     else
       let f = \<lparr> ff_severity = fq_severity q, ff_status = fq_status q, ff_limit = unwrap_or (fq_limit q) 50,
             ff_offset = unwrap_or (fq_offset q) 0 \<rparr>
       in case st_list_findings ops (cl_tenant c) f (ap_store a) of
            Inl e \<Rightarrow> (Err (StoreErr e), a)
          | Inr items0 \<Rightarrow>
              let items = rank_findings cfg (ap_ranker a) (cl_tenant c) items0
              in (Ok (JObj [(''findings'', JArr (map (finding_json (cf_show_uuid cfg)) items)),
                   (''count'', JInt (int (length items)))]), a))"

definition action_status :: "string \<Rightarrow> string option" where
  "action_status act = (if act = ''confirm'' then Some ''confirmed'' else if act = ''dismiss'' then Some ''dismissed''
     else if act = ''escalate'' then Some ''escalated'' else None)"

definition finding_action ::
  "api_config \<Rightarrow> 's store_ops \<Rightarrow> claims \<Rightarrow> uuid \<Rightarrow> string \<Rightarrow> 's handler" where
  "finding_action cfg ops c uid act a =
    (case action_status act of
       None \<Rightarrow> (Err (BadRequest (''unknown action: '' @ act)), a)
     | Some status \<Rightarrow>
         let (r, s) = st_set_finding_status ops (cl_tenant c) uid status (ap_store a); a1 = a\<lparr>ap_store := s\<rparr>;
             u = JStr (cf_show_uuid cfg uid)
         in case r of
              Inl e \<Rightarrow> (Err (StoreErr e), a1)
            | Inr False \<Rightarrow> (Err NotFound, a1)
            | Inr True \<Rightarrow> (Ok (JObj [(''id'', u), (''status'', JStr status)]),
                publish_tenant (cl_tenant c)
                  (JObj [(''event'', JStr ''finding.action''), (''id'', u), (''status'', JStr status)]) a1))"

subsection \<open>sso.rs\<close>

definition oidc_metadata :: "api_config \<Rightarrow> claims \<Rightarrow> 's handler" where
  "oidc_metadata cfg c a =
    (if \<not> allows (cf_auth cfg) (cl_features c) ''sso'' then (Err (Forbidden ''sso''), a)
     else (Ok (JObj [(''issuer'', JStr ''secureops''), (''callback'', JStr ''/api/v1/auth/oidc/callback''),
       (''responseTypes'', JArr [JStr ''code'', JStr ''id_token'']),
       (''idps'', JArr [JStr ''okta'', JStr ''azure_ad'', JStr ''google'']),
       (''ssoConfigured'', JBool (cf_oidc cfg \<noteq> None))]), a))"

definition oidc_callback :: "api_config \<Rightarrow> call_env \<Rightarrow> string \<Rightarrow> 's handler" where
  "oidc_callback cfg env tok a =
    (case cf_oidc cfg of
       None \<Rightarrow> (Err NotFound, a)
     | Some verifier \<Rightarrow> (case verifier tok of
         None \<Rightarrow> (Err (Unauthorized ''invalid_oidc_token''), a)
       | Some oc \<Rightarrow>
           let session = \<lparr> cl_sub = oc_sub oc, cl_tenant = oc_tenant oc, cl_tier = oc_tier oc, cl_role = oc_role oc,
                 cl_features = oc_features oc, cl_iss = ISSUER, cl_exp = of_int (en_now env + 3600) \<rparr>
           in case issue_jwt (cf_auth cfg) session of
                Inl e \<Rightarrow> (Err (Internal e), a)
              | Inr token \<Rightarrow> (Ok (JObj [(''token'', JStr token), (''email'', JStr (oc_email oc))]), a)))"

definition json_str_or :: "json \<Rightarrow> string \<Rightarrow> string \<Rightarrow> string" where
  "json_str_or payload k d = unwrap_or (Option.bind (json_get payload k) json_as_str) d"

definition map_oidc_claims :: "json \<Rightarrow> string \<Rightarrow> oidc_claims" where
  "map_oidc_claims payload default_tenant =
    \<lparr> oc_sub = json_str_or payload ''sub'' [], oc_email = json_str_or payload ''email'' [],
      oc_tenant = json_str_or payload ''tenant'' default_tenant, oc_tier = json_str_or payload ''tier'' ''community'',
      oc_role = json_str_or payload ''role'' ''member'',
      oc_features = (case json_get payload ''features'' of
        Some (JArr vs) \<Rightarrow> List.map_filter json_as_str vs | _ \<Rightarrow> []) \<rparr>"

subsection \<open>intel.rs\<close>

definition noop_cloud :: "cloud_action list cloud_backend" where
  "noop_cloud = \<lparr> cb_dry_run = (\<lambda>step s. (Ok (''noop dry_run: '' @ step), s)),
     cb_snapshot = (\<lambda>step s. (Ok ''noop-snapshot'', s)),
     cb_execute = (\<lambda>step s. (Ok (''noop execute (no real change): '' @ step), s)),
     cb_health_check = (\<lambda>step s. (Ok True, s)),
     cb_rollback = (\<lambda>step snap s. (Ok (), s)) \<rparr>"

definition cloud_backend_for :: "api_config \<Rightarrow> playbook \<Rightarrow> cloud_action list cloud_backend" where
  "cloud_backend_for cfg pb =
    (let p = hd (split_char (CHR ''.'') (pk_execute pb))
     in if p = ''gcs'' \<or> p = ''gcp'' then gcp_cloud (cf_debug_action cfg)
        else if p = ''azure'' then azure_cloud (cf_debug_action cfg) else noop_cloud)"

definition parse_finding_action :: "string \<Rightarrow> api_error + rl_action" where
  "parse_finding_action act = (if act = ''confirm'' then Ok Confirm else if act = ''escalate'' then Ok Escalate
     else if act = ''dismiss'' then Ok Dismiss else Err (BadRequest (''unknown action: '' @ act)))"

definition parse_playbook_class :: "string \<Rightarrow> api_error + playbook_class" where
  "parse_playbook_class cls = (if cls = ''safe'' then Ok Safe else if cls = ''reversible'' then Ok Reversible
     else if cls = ''destructive'' then Ok Destructive else Err (BadRequest (''unknown class: '' @ cls)))"

definition exec_state_str :: "exec_state \<Rightarrow> string" where
  "exec_state_str st = (case st of Completed \<Rightarrow> ''completed'' | RolledBack \<Rightarrow> ''rolled_back'' | Aborted \<Rightarrow> ''aborted''
     | Failed \<Rightarrow> ''failed'')"

definition class_lower :: "playbook_class \<Rightarrow> string" where
  "class_lower cls = (case cls of Safe \<Rightarrow> ''safe'' | Reversible \<Rightarrow> ''reversible'' | Destructive \<Rightarrow> ''destructive'')"

record node_spec =
  ns_id :: string
  ns_kind :: string
  ns_exposed :: bool
  ns_sensitive :: bool

record edge_spec =
  eg_from :: string
  eg_to :: string
  eg_kind :: edge_kind
  eg_difficulty :: f32

definition graph_of_spec :: "node_spec list \<Rightarrow> edge_spec list \<Rightarrow> security_graph" where
  "graph_of_spec nodes es =
    fold (\<lambda>e g. add_edge (eg_from e) (eg_to e) (eg_kind e) (eg_difficulty e) g) es
      (fold (\<lambda>n g. add_node ((node_new (ns_id n) (ns_kind n))\<lparr> nd_exposed := ns_exposed n, nd_sensitive := ns_sensitive n \<rparr>) g)
        nodes graph_new)"

definition graph_rebuild :: "claims \<Rightarrow> node_spec list \<Rightarrow> edge_spec list \<Rightarrow> 's handler" where
  "graph_rebuild c nodes es a =
    (let g = graph_of_spec nodes es
     in (Ok (JObj [(''nodes'', JInt (int (node_count g)))]), a\<lparr>ap_graphs := hm_insert (cl_tenant c) g (ap_graphs a)\<rparr>))"

definition graph_blast_radius :: "claims \<Rightarrow> string \<Rightarrow> 's handler" where
  "graph_blast_radius c node a =
    (let radius = (case hm_get (ap_graphs a) (cl_tenant c) of None \<Rightarrow> 0 | Some g \<Rightarrow> blast_radius g node)
     in (Ok (JObj [(''node'', JStr node), (''blastRadius'', JInt (int radius))]), a))"

record feedback_req =
  fb_severity :: u8
  fb_blast_radius_norm :: f32
  fb_exposed :: bool
  fb_rule_category :: nat
  fb_cloud :: nat
  fb_recency :: f32
  fb_action :: string
  fb_finding_id :: "string option"

definition rl_feedback :: "api_config \<Rightarrow> 's store_ops \<Rightarrow> claims \<Rightarrow> feedback_req \<Rightarrow> 's handler" where
  "rl_feedback cfg ops c req a =
    (case parse_finding_action (fb_action req) of
       Inl e \<Rightarrow> (Err e, a)
     | Inr action \<Rightarrow>
         let feats = features_to_vec api_feature_spec
               \<lparr> fe_severity = min (fb_severity req) 4, fe_blast_radius_norm = fb_blast_radius_norm req,
                 fe_exposed_internet = fb_exposed req, fe_rule_category = fb_rule_category req,
                 fe_cloud = fb_cloud req, fe_recency_decay = fb_recency req \<rparr>;
             reward = decayed_reward (cf_powf cfg) action (Fin 0);
             model = unwrap_or (hm_get (ap_ranker a) (cl_tenant c)) (linucb_new (dim api_feature_spec) (round32 (1 / 10)));
             model' = update round32 feats reward model;
             (r, s) = st_record_rl_feedback ops (cl_tenant c) (unwrap_or (fb_finding_id req) []) (fb_action req) reward (ap_store a)
         in (Ok (JObj [(''updates'', JInt (uint (lu_updates model')))]),
             a\<lparr> ap_ranker := hm_insert (cl_tenant c) model' (ap_ranker a), ap_store := s \<rparr>))"

definition rl_stats :: "claims \<Rightarrow> 's handler" where
  "rl_stats c a =
    (let updates = (case hm_get (ap_ranker a) (cl_tenant c) of None \<Rightarrow> 0 | Some m \<Rightarrow> lu_updates m)
     in (Ok (JObj [(''updates'', JInt (uint updates)), (''dim'', JInt (int (dim api_feature_spec))),
          (''alpha'', JFloat (round64 (1 / 10)))]), a))"

definition report_json :: "finding_report \<Rightarrow> json" where
  "report_json r = JObj [(''title'', JStr (fr_title r)), (''attack_vector'', JStr (fr_attack_vector r)),
     (''affected_assets'', JArr (map JStr (fr_affected_assets r))), (''evidence_refs'', JArr (map JStr (fr_evidence_refs r))),
     (''severity'', JStr (fr_severity r)), (''cvss_like_score'', JFloat (fr_cvss_like_score r)),
     (''remediation_steps'', JArr (map JStr (fr_remediation_steps r)))]"

definition severity_debug :: "finding_severity \<Rightarrow> string" where
  "severity_debug s = (case s of Critical \<Rightarrow> ''Critical'' | High \<Rightarrow> ''High'' | Medium \<Rightarrow> ''Medium'' | Low \<Rightarrow> ''Low''
     | Info \<Rightarrow> ''Info'')"

definition job_status_lower :: "job_status \<Rightarrow> string" where
  "job_status_lower s = (case s of HuntCompleted \<Rightarrow> ''completed'' | HuntFailed \<Rightarrow> ''failed'' | HuntHalted \<Rightarrow> ''halted'')"

definition finding_evidence :: "call_env \<Rightarrow> finding list \<Rightarrow> evidence list" where
  "finding_evidence env fs = map (\<lambda>(i, f). evidence_new (en_evidence_id env i) EvFinding
     (fi_title f @ '' ['' @ severity_debug (fi_severity f) @ ''] '' @ unwrap_or (fi_cloud f) []) (round32 (8 / 10)))
     (List.enumerate 0 fs)"

definition bughunt_run :: "api_config \<Rightarrow> 's store_ops \<Rightarrow> call_env \<Rightarrow> claims \<Rightarrow> string \<Rightarrow> 's handler" where
  "bughunt_run cfg ops env c scope a =
    (if \<not> allows (cf_auth cfg) (cl_features c) ''bughunt'' then (Err (Forbidden ''bughunt''), a)
     else case st_list_findings ops (cl_tenant c) finding_filter_default (ap_store a) of
       Inl e \<Rightarrow> (Err (StoreErr e), a)
     | Inr findings \<Rightarrow>
         let budget = \<lparr> tb_model = ''local'', tb_window = 8000, tb_reserved_output = 1000 \<rparr>;
             outcome = fst (hunt (local_complete (cf_report_to_string cfg)) no_tools (cf_report_from_str cfg)
               (hunter_new budget) scope (finding_evidence env findings) ((), ()));
             status = job_status_lower (ho_status outcome);
             job = \<lparr> bj_tenant = cl_tenant c, bj_status = status, bj_report = ho_report outcome,
               bj_iterations = ho_iterations outcome \<rparr>
         in (Ok (JObj [(''jobId'', JStr (cf_show_uuid cfg (en_uuid env))), (''status'', JStr status)]),
             a\<lparr>ap_bughunt_jobs := hm_insert (en_uuid env) job (ap_bughunt_jobs a)\<rparr>))"

definition job_json :: "bughunt_job \<Rightarrow> json" where
  "job_json j = JObj [(''status'', JStr (bj_status j)), (''report'', json_opt report_json (bj_report j)),
     (''iterations'', JInt (int (bj_iterations j)))]"

definition bughunt_get :: "claims \<Rightarrow> uuid \<Rightarrow> 's handler" where
  "bughunt_get c uid a =
    (case hm_get (ap_bughunt_jobs a) uid of
       None \<Rightarrow> (Err NotFound, a)
     | Some j \<Rightarrow> if bj_tenant j = cl_tenant c then (Ok (job_json j), a) else (Err NotFound, a))"

definition remediation_create ::
  "api_config \<Rightarrow> 's store_ops \<Rightarrow> call_env \<Rightarrow> claims \<Rightarrow> string \<Rightarrow> string \<Rightarrow> 's handler" where
  "remediation_create cfg ops env c fid pbid a =
    (case find (\<lambda>p. pk_id p = pbid) sample_playbooks of
       None \<Rightarrow> (Err NotFound, a)
     | Some pb \<Rightarrow>
         let rem = \<lparr> re_id = en_uuid env, re_finding_id = fid, re_playbook_id = pk_id pb,
               re_class = class_lower (pk_class pb), re_state = ''pending'' \<rparr>;
             (r, s) = st_insert_remediation ops (cl_tenant c) rem (ap_store a); a1 = a\<lparr>ap_store := s\<rparr>
         in case r of Inl e \<Rightarrow> (Err (StoreErr e), a1)
            | Inr _ \<Rightarrow> (Ok (remediation_json (cf_show_uuid cfg) rem),
                publish_tenant (cl_tenant c) (JObj [(''event'', JStr ''remediation.queued''),
                  (''id'', JStr (cf_show_uuid cfg (re_id rem))), (''class'', JStr (re_class rem))]) a1))"

definition remediation_circuit_reset :: "api_config \<Rightarrow> claims \<Rightarrow> string \<Rightarrow> 's handler" where
  "remediation_circuit_reset cfg c cls a =
    (if \<not> allows_role (cf_auth cfg) (cl_features c) (cl_role c) ''remediation_admin''
     then (Err (Forbidden ''remediation_admin''), a)
     else case parse_playbook_class cls of
       Inl e \<Rightarrow> (Err e, a)
     | Inr pc \<Rightarrow> (Ok (JObj [(''class'', JStr cls), (''halted'', JBool False)]),
         a\<lparr>ap_breaker := reset_class pc (ap_breaker a)\<rparr>))"

definition remediations_queue :: "api_config \<Rightarrow> 's store_ops \<Rightarrow> claims \<Rightarrow> 's handler" where
  "remediations_queue cfg ops c a =
    (case st_list_remediations ops (cl_tenant c) (ap_store a) of
       Inl e \<Rightarrow> (Err (StoreErr e), a)
     | Inr items \<Rightarrow> (Ok (JObj [(''remediations'', JArr (map (remediation_json (cf_show_uuid cfg)) items))]), a))"

definition remediation_approve ::
  "api_config \<Rightarrow> 's store_ops \<Rightarrow> call_env \<Rightarrow> claims \<Rightarrow> uuid \<Rightarrow> 's handler" where
  "remediation_approve cfg ops env c uid a =
    (if \<not> allows_role (cf_auth cfg) (cl_features c) (cl_role c) ''remediation_admin''
     then (Err (Forbidden ''remediation_admin''), a)
     else case st_list_remediations ops (cl_tenant c) (ap_store a) of
       Inl e \<Rightarrow> (Err (StoreErr e), a)
     | Inr rems \<Rightarrow> (case find (\<lambda>r. re_id r = uid) rems of
         None \<Rightarrow> (Err NotFound, a)
       | Some rem \<Rightarrow> (case find (\<lambda>p. pk_id p = re_playbook_id rem) sample_playbooks of
           None \<Rightarrow> (Err NotFound, a)
         | Some pb \<Rightarrow>
             let (outcome, w) = run (cloud_backend_for cfg pb) pb (Some (Approved (cl_sub c))) (en_now_ms env)
                   \<lparr> es_breaker = ap_breaker a, es_cloud = [], es_audit = [] \<rparr>;
                 st = exec_state_str (eo_state outcome);
                 u = JStr (cf_show_uuid cfg uid);
                 a1 = publish_tenant (cl_tenant c) (JObj [(''event'', JStr ''remediation.completed''), (''id'', u),
                   (''state'', JStr st)]) (a\<lparr>ap_breaker := es_breaker w\<rparr>);
                 (r, s) = st_set_remediation_state ops (cl_tenant c) uid st (ap_store a1); a2 = a1\<lparr>ap_store := s\<rparr>
             in case r of Inl e \<Rightarrow> (Err (StoreErr e), a2)
                | Inr _ \<Rightarrow> (Ok (JObj [(''id'', u), (''state'', JStr st), (''executed'', JBool (eo_executed outcome))]), a2))))"

definition remediation_deny :: "api_config \<Rightarrow> 's store_ops \<Rightarrow> claims \<Rightarrow> uuid \<Rightarrow> 's handler" where
  "remediation_deny cfg ops c uid a =
    (let (r, s) = st_set_remediation_state ops (cl_tenant c) uid ''aborted'' (ap_store a); a1 = a\<lparr>ap_store := s\<rparr>;
         u = JStr (cf_show_uuid cfg uid)
     in case r of
          Inl e \<Rightarrow> (Err (StoreErr e), a1)
        | Inr False \<Rightarrow> (Err NotFound, a1)
        | Inr True \<Rightarrow> (Ok (JObj [(''id'', u), (''state'', JStr ''aborted'')]),
            publish_tenant (cl_tenant c) (JObj [(''event'', JStr ''remediation.denied''), (''id'', u),
              (''state'', JStr ''aborted'')]) a1))"

subsection \<open>Compliance reports\<close>

text \<open>
  The body of a response: JSON, a CSV text, or a ZIP archive with the hexadecimal public key of its header.
  \<open>body_json\<close> embeds the last two as values so that all handlers have one type.
\<close>

datatype api_body = JsonBody json | CsvBody string | ZipBody string string

definition body_json :: "api_body \<Rightarrow> json" where
  "body_json b = (case b of JsonBody j \<Rightarrow> j | CsvBody s \<Rightarrow> JStr s | ZipBody pk bytes \<Rightarrow> JArr [JStr pk, JStr bytes])"

definition control_json :: "control_result \<Rightarrow> json" where
  "control_json co = JObj [(''id'', JStr (co_id co)), (''title'', JStr (co_title co)), (''status'', JStr (co_status co)),
     (''maxSeverity'', json_opt JStr (co_max_severity co)), (''findings'', JArr (map JStr (co_findings co)))]"

definition compliance_json :: "compliance_report \<Rightarrow> json" where
  "compliance_json r = JObj [(''framework'', JStr (cr_framework r)), (''frameworkLabel'', JStr (cr_framework_label r)),
     (''totalControls'', JInt (int (cr_total_controls r))), (''passing'', JInt (int (cr_passing r))),
     (''failing'', JInt (int (cr_failing r))), (''score'', JInt (uint (cr_score r))),
     (''controls'', JArr (map control_json (cr_controls r))), (''unmappedFindings'', JInt (int (cr_unmapped_findings r)))]"

definition control_csv :: "control_result \<Rightarrow> string" where
  "control_csv co = co_id co @ '','' @ str_replace '','' '' '' (co_title co) @ '','' @ co_status co @ '','' @
     unwrap_or (co_max_severity co) [] @ '','' @ show_nat (length (co_findings co)) @ [newline]"

definition report_csv :: "compliance_report \<Rightarrow> string" where
  "report_csv r = ''control,title,status,maxSeverity,findingCount'' @ [newline] @ concat (map control_csv (cr_controls r))"

definition report_body ::
  "api_config \<Rightarrow> call_env \<Rightarrow> claims \<Rightarrow> string \<Rightarrow> finding list \<Rightarrow> compliance_report \<Rightarrow> api_error + api_body" where
  "report_body cfg env c fmt findings report =
    (if fmt = ''json'' then Ok (JsonBody (compliance_json report))
     else if fmt = ''csv'' then Ok (CsvBody (report_csv report))
     else if fmt = ''zip'' then
       let reparse = (\<lambda>j. unwrap_or (cf_from_str cfg (cf_to_string cfg j)) JNull);
           docs = cf_to_string cfg (JObj [(''report'', reparse (compliance_json report)),
             (''findings'', reparse (JArr (map (finding_json (cf_show_uuid cfg)) findings)))]);
           manifest = cf_to_string cfg (JObj [(''framework'', JStr (cr_framework report)),
             (''frameworkLabel'', JStr (cr_framework_label report)), (''score'', JInt (uint (cr_score report))),
             (''policyVersion'', JStr ''1''), (''generatedAt'', JInt (en_now env)), (''tenant'', JStr (cl_tenant c)),
             (''controls'', JInt (int (cr_total_controls report))), (''failing'', JInt (int (cr_failing report)))])
       in case export_build (cf_ed cfg) (cf_zip cfg) (cf_export cfg) docs manifest of
            Inl _ \<Rightarrow> Err (Internal ''export'')
          | Inr bytes \<Rightarrow> Ok (ZipBody (to_hex (export_public_key (cf_ed cfg) (cf_export cfg))) bytes)
     else Err (BadRequest (''unsupported format: '' @ fmt)))"

definition compliance_reports ::
  "api_config \<Rightarrow> 's store_ops \<Rightarrow> call_env \<Rightarrow> claims \<Rightarrow> string option \<Rightarrow> string option \<Rightarrow> 's handler" where
  "compliance_reports cfg ops env c framework fmt a =
    (if \<not> allows (cf_auth cfg) (cl_features c) ''compliance'' then (Err (Forbidden ''compliance''), a)
     else case st_list_findings ops (cl_tenant c) finding_filter_default (ap_store a) of
       Inl e \<Rightarrow> (Err (StoreErr e), a)
     | Inr findings \<Rightarrow>
         let report = evaluate (cf_show_uuid cfg) (cf_lower cfg) (unwrap_or framework ''cis'') findings
         in (case report_body cfg env c (unwrap_or fmt ''json'') findings report of
               Inl e \<Rightarrow> Err e | Inr b \<Rightarrow> Ok (body_json b), a))"

subsection \<open>Attack paths\<close>

definition path_json :: "attack_path \<Rightarrow> json" where
  "path_json p = JObj [(''nodes'', JArr (map JStr (ap_nodes p))), (''total_difficulty'', JFloat (ap_total_difficulty p)),
     (''blast_radius'', JInt (int (ap_blast_radius p)))]"

text \<open>\<open>None\<close> when the search does not return.\<close>

definition graph_paths :: "heap_pop \<Rightarrow> claims \<Rightarrow> 's app_state \<Rightarrow> ((api_error + json) \<times> 's app_state) option" where
  "graph_paths pop c a =
    (case hm_get (ap_graphs a) (cl_tenant c) of
       None \<Rightarrow> Some (Ok (JObj [(''paths'', JArr [])]), a)
     | Some g \<Rightarrow> map_option (\<lambda>ps. (Ok (JObj [(''paths'', JArr (map path_json ps))]), a)) (attack_paths pop g))"

subsection \<open>The router\<close>

datatype api_req =
    LicenseActivate string
  | OidcCallback string
  | LicenseGet
  | CreateScan string
  | GetScan uuid
  | ListFindings findings_query
  | FindingAction uuid string
  | OidcMetadata
  | GraphRebuild "node_spec list" "edge_spec list"
  | GraphBlastRadius string
  | RlFeedback feedback_req
  | RlStats
  | BughuntRun string
  | BughuntGet uuid
  | ComplianceReports "string option" "string option"
  | RemediationCreate string string
  | RemediationsQueue
  | RemediationDeny uuid
  | RemediationApprove uuid
  | CircuitReset string

fun dispatch :: "api_config \<Rightarrow> 's store_ops \<Rightarrow> call_env \<Rightarrow> claims \<Rightarrow> api_req \<Rightarrow> 's handler" where
  "dispatch cfg ops env c LicenseGet = license_get ops c"
| "dispatch cfg ops env c (CreateScan scope) = api_create_scan cfg ops env c scope"
| "dispatch cfg ops env c (GetScan u) = api_get_scan cfg ops c u"
| "dispatch cfg ops env c (ListFindings q) = api_list_findings cfg ops c q"
| "dispatch cfg ops env c (FindingAction u act) = finding_action cfg ops c u act"
| "dispatch cfg ops env c OidcMetadata = oidc_metadata cfg c"
| "dispatch cfg ops env c (GraphRebuild ns es) = graph_rebuild c ns es"
| "dispatch cfg ops env c (GraphBlastRadius n) = graph_blast_radius c n"
| "dispatch cfg ops env c (RlFeedback req) = rl_feedback cfg ops c req"
| "dispatch cfg ops env c RlStats = rl_stats c"
| "dispatch cfg ops env c (BughuntRun scope) = bughunt_run cfg ops env c scope"
| "dispatch cfg ops env c (BughuntGet u) = bughunt_get c u"
| "dispatch cfg ops env c (ComplianceReports fw fmt) = compliance_reports cfg ops env c fw fmt"
| "dispatch cfg ops env c (RemediationCreate f p) = remediation_create cfg ops env c f p"
| "dispatch cfg ops env c RemediationsQueue = remediations_queue cfg ops c"
| "dispatch cfg ops env c (RemediationDeny u) = remediation_deny cfg ops c u"
| "dispatch cfg ops env c (RemediationApprove u) = remediation_approve cfg ops env c u"
| "dispatch cfg ops env c (CircuitReset cls) = remediation_circuit_reset cfg c cls"
| "dispatch cfg ops env c (LicenseActivate key) = license_activate cfg ops env key"
| "dispatch cfg ops env c (OidcCallback tok) = oidc_callback cfg env tok"

definition public_req :: "api_req \<Rightarrow> bool" where
  "public_req req = (case req of LicenseActivate _ \<Rightarrow> True | OidcCallback _ \<Rightarrow> True | _ \<Rightarrow> False)"

record api_call =
  ca_env :: call_env
  ca_headers :: header_map
  ca_req :: api_req

definition api_step :: "api_config \<Rightarrow> 's store_ops \<Rightarrow> api_call \<Rightarrow> 's handler" where
  "api_step cfg ops call a =
    (case ca_req call of
       LicenseActivate key \<Rightarrow> license_activate cfg ops (ca_env call) key a
     | OidcCallback tok \<Rightarrow> oidc_callback cfg (ca_env call) tok a
     | req \<Rightarrow> (case authenticate (cf_auth cfg) ops (en_now (ca_env call)) (ca_headers call) (ap_store a) of
         Inl e \<Rightarrow> (Err e, a)
       | Inr c \<Rightarrow> dispatch cfg ops (ca_env call) c req a))"

fun api_run :: "api_config \<Rightarrow> 's store_ops \<Rightarrow> 's app_state \<Rightarrow> api_call list \<Rightarrow> (api_call \<times> (api_error + json)) list \<times> 's app_state" where
  "api_run cfg ops a [] = ([], a)"
| "api_run cfg ops a (call # calls) =
    (let (r, a1) = api_step cfg ops call a; (rs, a2) = api_run cfg ops a1 calls in ((call, r) # rs, a2))"

end
