(* ===== verification/Isolation.thy ===== *)
theory Isolation
  imports Api
begin

text \<open>
  Tenant isolation of the platform API. A tenant's view of the application is its part of the store, its graph,
  its ranker, its bug-hunt jobs and the events delivered to it. Inside the contract \<open>tenant_store\<close> every handler
  but the two that touch the shared circuit breaker is a step of its principal's tenant, so the responses
  a tenant gets in any interleaving are those it gets alone.
\<close>

subsection \<open>Views\<close>

definition own_job :: "string \<Rightarrow> 's app_state \<Rightarrow> uuid \<Rightarrow> bughunt_job option" where
  "own_job t a u = (case hm_get (ap_bughunt_jobs a) u of None \<Rightarrow> None
     | Some j \<Rightarrow> if bj_tenant j = t then Some j else None)"

definition app_view :: "(string \<Rightarrow> 's \<Rightarrow> 'v) \<Rightarrow> string \<Rightarrow> 's app_state \<Rightarrow>
    'v \<times> security_graph option \<times> lin_ucb option \<times> (uuid \<Rightarrow> bughunt_job option) \<times> hub_msg list" where
  "app_view view t a = (view t (ap_store a), hm_get (ap_graphs a) t, hm_get (ap_ranker a) t, own_job t a,
     filter (delivers t) (ap_hub a))"

text \<open>A fresh identifier for a bug-hunt job.\<close>

definition job_fresh :: "uuid \<Rightarrow> 's app_state \<Rightarrow> bool" where
  "job_fresh u a \<longleftrightarrow> hm_get (ap_bughunt_jobs a) u = None"

definition shared_req :: "api_req \<Rightarrow> bool" where
  "shared_req req = (case req of RemediationApprove _ \<Rightarrow> True | CircuitReset _ \<Rightarrow> True | _ \<Rightarrow> False)"

lemma own_job_frame [simp]:
  "own_job t (a\<lparr>ap_store := s\<rparr>) = own_job t a" "own_job t (a\<lparr>ap_hub := h\<rparr>) = own_job t a"
  "own_job t (a\<lparr>ap_queue := q\<rparr>) = own_job t a" "own_job t (a\<lparr>ap_graphs := g\<rparr>) = own_job t a"
  "own_job t (a\<lparr>ap_ranker := r\<rparr>) = own_job t a"
  by (simp_all add: own_job_def fun_eq_iff)

lemma tenant_step_readI:
  assumes "\<And>a. snd (h a) = a" and "\<And>a a'. V t a = V t a' \<Longrightarrow> fst (h a) = fst (h a')"
  shows "tenant_step V g t h"
  using assms unfolding tenant_step_def by metis

lemma tenant_step_const: "tenant_step V g t (\<lambda>a. (x, a))"
  by (simp add: tenant_step_def)

lemma tenant_step_publish: "tenant_step (app_view view) g t (\<lambda>a. (x, publish_tenant t msg a))"
  by (simp add: tenant_step_def app_view_def publish_tenant_def delivers_def)

lemma app_view_queue: "app_view view t (a\<lparr>ap_queue := q\<rparr>) = app_view view t a"
  by (simp add: app_view_def)

lemma tenant_step_queue:
  assumes "tenant_step (app_view view) (\<lambda>_. True) t h"
  shows "tenant_step (app_view view) (\<lambda>_. True) t (\<lambda>a. h (a\<lparr>ap_queue := f a\<rparr>))"
proof (rule tenant_stepI)
  fix a a' :: "'a app_state" and t'
  show "app_view view t a = app_view view t a' \<Longrightarrow>
      fst (h (a\<lparr>ap_queue := f a\<rparr>)) = fst (h (a'\<lparr>ap_queue := f a'\<rparr>)) \<and>
      app_view view t (snd (h (a\<lparr>ap_queue := f a\<rparr>))) = app_view view t (snd (h (a'\<lparr>ap_queue := f a'\<rparr>)))"
    by (rule tenant_step_own [OF assms TrueI TrueI]) (simp add: app_view_queue)
  show "t' \<noteq> t \<Longrightarrow> app_view view t' (snd (h (a\<lparr>ap_queue := f a\<rparr>))) = app_view view t' a"
    using tenant_step_other [OF assms TrueI, of t' "a\<lparr>ap_queue := f a\<rparr>"] by (simp add: app_view_queue)
qed

text \<open>A write to the store followed by a step that depends on its result.\<close>

lemma tenant_step_write:
  assumes w: "tenant_step view g t w" and k: "\<And>r. tenant_step (app_view view) (\<lambda>_. True) t (k r)"
  shows "tenant_step (app_view view) (\<lambda>a. g (ap_store a)) t (\<lambda>a. k (fst (w (ap_store a))) (a\<lparr>ap_store := snd (w (ap_store a))\<rparr>))"
proof (rule tenant_stepI)
  fix a a' :: "'a app_state" and t'
  assume g: "g (ap_store a)"
  { assume g': "g (ap_store a')" and v: "app_view view t a = app_view view t a'"
    then have "view t (ap_store a) = view t (ap_store a')" by (simp add: app_view_def)
    from tenant_step_own [OF w g g' this]
    have r: "fst (w (ap_store a)) = fst (w (ap_store a'))"
      and s: "view t (snd (w (ap_store a))) = view t (snd (w (ap_store a')))" by simp_all
    have "app_view view t (a\<lparr>ap_store := snd (w (ap_store a))\<rparr>) = app_view view t (a'\<lparr>ap_store := snd (w (ap_store a'))\<rparr>)"
      using v s by (simp add: app_view_def)
    from tenant_step_own [OF k TrueI TrueI this, of "fst (w (ap_store a))"]
    show "fst (k (fst (w (ap_store a))) (a\<lparr>ap_store := snd (w (ap_store a))\<rparr>)) =
        fst (k (fst (w (ap_store a'))) (a'\<lparr>ap_store := snd (w (ap_store a'))\<rparr>)) \<and>
      app_view view t (snd (k (fst (w (ap_store a))) (a\<lparr>ap_store := snd (w (ap_store a))\<rparr>))) =
        app_view view t (snd (k (fst (w (ap_store a'))) (a'\<lparr>ap_store := snd (w (ap_store a'))\<rparr>)))"
      by (simp add: r) }
  { assume "t' \<noteq> t"
    then have "app_view view t' (a\<lparr>ap_store := snd (w (ap_store a))\<rparr>) = app_view view t' a"
      using tenant_step_other [OF w g, of t'] by (simp add: app_view_def)
    with \<open>t' \<noteq> t\<close> show "app_view view t' (snd (k (fst (w (ap_store a))) (a\<lparr>ap_store := snd (w (ap_store a))\<rparr>))) =
        app_view view t' a"
      using tenant_step_other [OF k TrueI, of t'] by metis }
qed

lemma tenant_step_weaken: "tenant_step V g t h \<Longrightarrow> (\<And>a. g' a \<Longrightarrow> g a) \<Longrightarrow> tenant_step V g' t h"
  unfolding tenant_step_def by blast

lemma tenant_step_guard: "tenant_step V (\<lambda>_. True) t h \<Longrightarrow> tenant_step V g t h"
  by (rule tenant_step_weaken) simp_all

subsection \<open>Handlers\<close>

text \<open>A handler leaves the store alone or applies writes of the trait to it.\<close>

lemma dispatch_store:
  assumes "P (ap_store a)"
    and "\<And>lic s. P s \<Longrightarrow> P (snd (st_put_license ops lic s))"
    and "\<And>sc s. P s \<Longrightarrow> sc_id sc = en_uuid env \<Longrightarrow> P (snd (st_create_scan ops sc s))"
    and "\<And>t u st s. P s \<Longrightarrow> P (snd (st_set_finding_status ops t u st s))"
    and "\<And>t r s. P s \<Longrightarrow> P (snd (st_insert_remediation ops t r s))"
    and "\<And>t u st s. P s \<Longrightarrow> P (snd (st_set_remediation_state ops t u st s))"
    and "\<And>t f act rew s. P s \<Longrightarrow> P (snd (st_record_rl_feedback ops t f act rew s))"
  shows "P (ap_store (snd (dispatch cfg ops env c req a)))"
proof (cases req)
  case (RemediationApprove u)
  then show ?thesis
    using assms(1,6) by (auto simp: remediation_approve_def publish_tenant_def Let_def split_def split: sum.split option.split)
next
  case (CreateScan scope)
  then show ?thesis
    using assms(1,3) by (auto simp: api_create_scan_def publish_tenant_def Let_def split_def split: sum.split)
qed (use assms in \<open>simp_all add: license_get_def api_get_scan_def api_list_findings_def finding_action_def oidc_metadata_def
  graph_rebuild_def graph_blast_radius_def rl_feedback_def rl_stats_def bughunt_run_def bughunt_get_def
  compliance_reports_def remediation_create_def remediations_queue_def remediation_deny_def remediation_circuit_reset_def license_activate_def oidc_callback_def
  publish_tenant_def Let_def split_def split: sum.split option.split bool.split\<close>)

text \<open>Only starting a hunt adds a job, under the call's identifier.\<close>

lemma dispatch_jobs:
  "hm_get (ap_bughunt_jobs (snd (dispatch cfg ops env c req a))) u = hm_get (ap_bughunt_jobs a) u \<or> u = en_uuid env"
proof (cases req)
  case (RemediationApprove u)
  then show ?thesis
    by (auto simp: remediation_approve_def publish_tenant_def Let_def split_def split: sum.split option.split)
next
  case (BughuntRun scope)
  then show ?thesis by (auto simp: bughunt_run_def hm_simps Let_def split: sum.split)
qed (simp_all add: license_get_def api_create_scan_def api_get_scan_def api_list_findings_def finding_action_def oidc_metadata_def
  graph_rebuild_def graph_blast_radius_def rl_feedback_def rl_stats_def bughunt_get_def
  compliance_reports_def remediation_create_def remediations_queue_def remediation_deny_def remediation_circuit_reset_def
  license_activate_def oidc_callback_def publish_tenant_def Let_def split_def split: sum.split option.split bool.split)

subsection \<open>Requests\<close>

text \<open>The tenant a request acts for, if any.\<close>

definition call_owner :: "api_config \<Rightarrow> 's store_ops \<Rightarrow> 's \<Rightarrow> api_call \<Rightarrow> string option" where
  "call_owner cfg ops s call =
    (case ca_req call of
       LicenseActivate key \<Rightarrow>
         (case license_verify (cf_crypto cfg) key (cf_license_pubkey cfg) (en_now (ca_env call)) of
            Inl _ \<Rightarrow> None | Inr lic \<Rightarrow> Some (lic_tenant_id lic))
     | OidcCallback _ \<Rightarrow> None
     | _ \<Rightarrow> (case authenticate (cf_auth cfg) ops (en_now (ca_env call)) (ca_headers call) s of
         Inl _ \<Rightarrow> None | Inr c \<Rightarrow> Some (cl_tenant c)))"

lemma call_owner_public:
  "\<not> public_req (ca_req call) \<Longrightarrow> call_owner cfg ops s call =
    (case authenticate (cf_auth cfg) ops (en_now (ca_env call)) (ca_headers call) s of
       Inl _ \<Rightarrow> None | Inr c \<Rightarrow> Some (cl_tenant c))"
  by (simp add: call_owner_def public_req_def split: api_req.splits)

lemma api_step_private:
  "\<not> public_req (ca_req call) \<Longrightarrow> api_step cfg ops call a =
    (case authenticate (cf_auth cfg) ops (en_now (ca_env call)) (ca_headers call) (ap_store a) of
       Inl e \<Rightarrow> (Err e, a) | Inr c \<Rightarrow> dispatch cfg ops (ca_env call) c (ca_req call) a)"
  by (cases "ca_req call") (simp_all add: api_step_def public_req_def split: sum.split)

lemma authenticate_cong:
  "(\<And>h. st_lookup_api_key ops h s = st_lookup_api_key ops h s') \<Longrightarrow>
    authenticate cfg ops now headers s = authenticate cfg ops now headers s'"
  by (simp add: authenticate_def authenticate_api_key_def split: option.split)

lemma call_owner_cong:
  "(\<And>h. st_lookup_api_key ops h s = st_lookup_api_key ops h s') \<Longrightarrow>
    call_owner cfg ops s call = call_owner cfg ops s' call"
  using authenticate_cong [of ops s s'] by (simp add: call_owner_def split: api_req.split)

lemma api_step_dispatch:
  "(\<exists>c req. snd (api_step cfg ops call a) = snd (dispatch cfg ops (ca_env call) c req a)) \<or> snd (api_step cfg ops call a) = a"
proof (cases "public_req (ca_req call)")
  case True
  then have "api_step cfg ops call a = dispatch cfg ops (ca_env call) undefined (ca_req call) a"
    by (auto simp: public_req_def api_step_def split: api_req.splits)
  then show ?thesis by metis
next
  case False
  then show ?thesis
    by (cases "authenticate (cf_auth cfg) ops (en_now (ca_env call)) (ca_headers call) (ap_store a)")
      (auto simp: api_step_private)
qed

context tenant_store
begin

lemma license_activate_step:
  assumes "license_verify (cf_crypto cfg) key (cf_license_pubkey cfg) (en_now env) = Ok lic"
  shows "tenant_step (app_view view) (\<lambda>_. True) (lic_tenant_id lic) (license_activate cfg ops env key)"
proof -
  let ?cl = "\<lparr> cl_sub = ''license:'' @ lic_id lic, cl_tenant = lic_tenant_id lic, cl_tier = tier_lower (lic_tier lic),
      cl_role = ''admin'', cl_features = lic_features lic, cl_iss = ISSUER, cl_exp = of_int (lic_expiry lic) \<rparr>"
  have "tenant_step (app_view view) (\<lambda>_. True) (lic_tenant_id lic)
    (\<lambda>a. (case fst (st_put_license ops lic (ap_store a)) of Inl e \<Rightarrow> Err (StoreErr e) | Inr _ \<Rightarrow>
       (case issue_jwt (cf_auth cfg) ?cl of Inl e \<Rightarrow> Err (Internal e) | Inr token \<Rightarrow>
         Ok (JObj [(''tier'', JStr (tier_lower (lic_tier lic))), (''expiry'', JInt (lic_expiry lic)),
           (''features'', JArr (map JStr (lic_features lic))), (''token'', JStr token)])),
       a\<lparr>ap_store := snd (st_put_license ops lic (ap_store a))\<rparr>))"
    by (rule tenant_step_write [OF put_license]) (rule tenant_step_const)
  then show ?thesis
    using assms by (simp add: license_activate_def [abs_def] Let_def split_def sum.case_distrib [of "\<lambda>r. (r, _)"] cong: sum.case_cong)
qed

lemma create_scan_step:
  "tenant_step (app_view view) (\<lambda>a. fresh (en_uuid env) (ap_store a)) (cl_tenant c) (api_create_scan cfg ops env c scope)"
proof -
  define sc where "sc = \<lparr> sc_id = en_uuid env, sc_tenant_id = cl_tenant c, sc_scope = scope, sc_kind = ''scan'',
    sc_status = Queued, sc_created_at = en_now env \<rparr>"
  define k where "k = (\<lambda>(r :: string + unit) (a :: 's app_state). case r of Inl e \<Rightarrow> (Err (StoreErr e), a) | Inr _ \<Rightarrow>
      (Ok (JObj [(''jobId'', JStr (cf_show_uuid cfg (en_uuid env))), (''status'', JStr ''queued'')]) :: api_error + json,
       publish_tenant (cl_tenant c) (JObj [(''event'', JStr ''scan.queued''), (''id'', JStr (cf_show_uuid cfg (en_uuid env)))])
         (a\<lparr>ap_queue := if cf_redis cfg \<and> en_enqueue_ok env then scan_payload cfg sc # ap_queue a else ap_queue a\<rparr>)))"
  have "tenant_step (app_view view) (\<lambda>_. True) (cl_tenant c) (k r)" for r
    using tenant_step_queue [OF tenant_step_publish]
    by (cases r) (simp_all add: k_def tenant_step_const)
  with create_scan [of sc] have "tenant_step (app_view view) (\<lambda>a. fresh (sc_id sc) (ap_store a)) (cl_tenant c)
      (\<lambda>a. k (fst (st_create_scan ops sc (ap_store a))) (a\<lparr>ap_store := snd (st_create_scan ops sc (ap_store a))\<rparr>))"
    by (intro tenant_step_write) (simp_all add: sc_def)
  then have step: "tenant_step (app_view view) (\<lambda>a. fresh (en_uuid env) (ap_store a)) (cl_tenant c)
      (\<lambda>a. k (fst (st_create_scan ops sc (ap_store a))) (a\<lparr>ap_store := snd (st_create_scan ops sc (ap_store a))\<rparr>))"
    by (simp add: sc_def)
  show ?thesis
  proof (cases "allows (cf_auth cfg) (cl_features c) ''scans''")
    case True
    then have "api_create_scan cfg ops env c scope =
        (\<lambda>a. k (fst (st_create_scan ops sc (ap_store a))) (a\<lparr>ap_store := snd (st_create_scan ops sc (ap_store a))\<rparr>))"
      by (intro ext) (simp add: api_create_scan_def k_def sc_def [symmetric] Let_def split_def split: sum.split,
          auto simp: sc_def)
    with step show ?thesis by simp
  next
    case False
    then show ?thesis by (simp add: api_create_scan_def [abs_def] tenant_step_const)
  qed
qed

text \<open>The three handlers that write once and then publish, by the result of the write.\<close>

lemma write_publish_step:
  assumes "tenant_step view (\<lambda>_. True) t w"
    and "h = (\<lambda>a. (x (fst (w (ap_store a))), if p (fst (w (ap_store a)))
       then publish_tenant t msg (a\<lparr>ap_store := snd (w (ap_store a))\<rparr>) else a\<lparr>ap_store := snd (w (ap_store a))\<rparr>))"
  shows "tenant_step (app_view view) (\<lambda>_. True) t h"
proof -
  have "tenant_step (app_view view) (\<lambda>_. True) t (\<lambda>a. (x r, if p r then publish_tenant t msg a else a))" for r
    using tenant_step_const [of "app_view view"] tenant_step_publish [of view "\<lambda>_. True" t] by (cases "p r") simp_all
  from tenant_step_write [OF assms(1) this] show ?thesis by (simp add: assms(2))
qed

lemma finding_action_step:
  "tenant_step (app_view view) (\<lambda>_. True) (cl_tenant c) (finding_action cfg ops c u act)"
proof (cases "action_status act")
  case None
  then show ?thesis by (simp add: finding_action_def [abs_def] tenant_step_const)
next
  case (Some status)
  show ?thesis
    by (rule write_publish_step [OF set_finding_status [where u = u and status = status],
          where p = "\<lambda>r. r = Ok True" and x = "\<lambda>r. case r of Inl e \<Rightarrow> Err (StoreErr e) | Inr False \<Rightarrow> Err NotFound
            | Inr True \<Rightarrow> Ok (JObj [(''id'', JStr (cf_show_uuid cfg u)), (''status'', JStr status)])"
          and msg = "JObj [(''event'', JStr ''finding.action''), (''id'', JStr (cf_show_uuid cfg u)), (''status'', JStr status)]"], rule ext)
      (use Some in \<open>simp add: finding_action_def Let_def split_def split: sum.split bool.split\<close>)
qed

lemma remediation_deny_step:
  "tenant_step (app_view view) (\<lambda>_. True) (cl_tenant c) (remediation_deny cfg ops c u)"
  by (rule write_publish_step [OF set_remediation_state [where u = u and state = "''aborted''"],
        where p = "\<lambda>r. r = Ok True" and x = "\<lambda>r. case r of Inl e \<Rightarrow> Err (StoreErr e) | Inr False \<Rightarrow> Err NotFound
          | Inr True \<Rightarrow> Ok (JObj [(''id'', JStr (cf_show_uuid cfg u)), (''state'', JStr ''aborted'')])"
        and msg = "JObj [(''event'', JStr ''remediation.denied''), (''id'', JStr (cf_show_uuid cfg u)), (''state'', JStr ''aborted'')]"], rule ext)
    (simp add: remediation_deny_def Let_def split_def split: sum.split bool.split)

lemma remediation_create_step:
  "tenant_step (app_view view) (\<lambda>_. True) (cl_tenant c) (remediation_create cfg ops env c fid pbid)"
proof (cases "find (\<lambda>p. pk_id p = pbid) sample_playbooks")
  case None
  then show ?thesis by (simp add: remediation_create_def [abs_def] tenant_step_const)
next
  case (Some pb)
  define rem where "rem = \<lparr> re_id = en_uuid env, re_finding_id = fid, re_playbook_id = pk_id pb,
    re_class = class_lower (pk_class pb), re_state = ''pending'' \<rparr>"
  show ?thesis
    by (rule write_publish_step [OF insert_remediation [where r = rem], where p = is_ok
          and x = "\<lambda>r. case r of Inl e \<Rightarrow> Err (StoreErr e) | Inr _ \<Rightarrow> Ok (remediation_json (cf_show_uuid cfg) rem)"
          and msg = "JObj [(''event'', JStr ''remediation.queued''), (''id'', JStr (cf_show_uuid cfg (re_id rem))),
            (''class'', JStr (re_class rem))]"], rule ext)
      (use Some in \<open>simp add: remediation_create_def rem_def [symmetric] Let_def split_def split: sum.split\<close>)
qed

lemma read_steps:
  "tenant_step (app_view view) (\<lambda>_. True) (cl_tenant c) (license_get ops c)"
  "tenant_step (app_view view) (\<lambda>_. True) (cl_tenant c) (api_get_scan cfg ops c u)"
  "tenant_step (app_view view) (\<lambda>_. True) (cl_tenant c) (api_list_findings cfg ops c q)"
  "tenant_step (app_view view) (\<lambda>_. True) (cl_tenant c) (remediations_queue cfg ops c)"
proof -
  show "tenant_step (app_view view) (\<lambda>_. True) (cl_tenant c) (license_get ops c)"
  proof (rule tenant_step_readI)
    fix a a' assume "app_view view (cl_tenant c) a = app_view view (cl_tenant c) a'"
    then have "st_get_license ops (cl_tenant c) (ap_store a) = st_get_license ops (cl_tenant c) (ap_store a')"
      by (intro read_license) (simp add: app_view_def)
    then show "fst (license_get ops c a) = fst (license_get ops c a')"
      by (simp add: license_get_def split: sum.split option.split)
  qed (simp add: license_get_def split: sum.split option.split)
  show "tenant_step (app_view view) (\<lambda>_. True) (cl_tenant c) (api_get_scan cfg ops c u)"
  proof (rule tenant_step_readI)
    fix a a' assume "app_view view (cl_tenant c) a = app_view view (cl_tenant c) a'"
    then have "st_get_scan ops (cl_tenant c) u (ap_store a) = st_get_scan ops (cl_tenant c) u (ap_store a')"
      by (intro read_scan) (simp add: app_view_def)
    then show "fst (api_get_scan cfg ops c u a) = fst (api_get_scan cfg ops c u a')"
      by (simp add: api_get_scan_def split: sum.split option.split)
  qed (simp add: api_get_scan_def split: sum.split option.split)
  show "tenant_step (app_view view) (\<lambda>_. True) (cl_tenant c) (api_list_findings cfg ops c q)"
  proof (rule tenant_step_readI)
    fix a a' assume v: "app_view view (cl_tenant c) a = app_view view (cl_tenant c) a'"
    then have "st_list_findings ops (cl_tenant c) f (ap_store a) = st_list_findings ops (cl_tenant c) f (ap_store a')" for f
      by (intro read_findings) (simp add: app_view_def)
    with v show "fst (api_list_findings cfg ops c q a) = fst (api_list_findings cfg ops c q a')"
      by (simp add: api_list_findings_def rank_findings_def app_view_def Let_def split: sum.split option.split)
  qed (simp add: api_list_findings_def Let_def split: sum.split)
  show "tenant_step (app_view view) (\<lambda>_. True) (cl_tenant c) (remediations_queue cfg ops c)"
  proof (rule tenant_step_readI)
    fix a a' assume "app_view view (cl_tenant c) a = app_view view (cl_tenant c) a'"
    then have "st_list_remediations ops (cl_tenant c) (ap_store a) = st_list_remediations ops (cl_tenant c) (ap_store a')"
      by (intro read_remediations) (simp add: app_view_def)
    then show "fst (remediations_queue cfg ops c a) = fst (remediations_queue cfg ops c a')"
      by (simp add: remediations_queue_def split: sum.split)
  qed (simp add: remediations_queue_def split: sum.split)
qed

lemma rl_feedback_step:
  "tenant_step (app_view view) (\<lambda>_. True) (cl_tenant c) (rl_feedback cfg ops c req)"
proof (cases "parse_finding_action (fb_action req)")
  case (Inl e)
  then show ?thesis by (simp add: rl_feedback_def [abs_def] tenant_step_const)
next
  case (Inr action)
  define feats where "feats = features_to_vec api_feature_spec
    \<lparr> fe_severity = min (fb_severity req) 4, fe_blast_radius_norm = fb_blast_radius_norm req,
      fe_exposed_internet = fb_exposed req, fe_rule_category = fb_rule_category req,
      fe_cloud = fb_cloud req, fe_recency_decay = fb_recency req \<rparr>"
  define reward where "reward = decayed_reward (cf_powf cfg) action (Fin 0)"
  define learn where "learn = (\<lambda>o1. update round32 feats reward
    (unwrap_or o1 (linucb_new (dim api_feature_spec) (round32 (1 / 10)))))"
  define k where "k = (\<lambda>(r :: string + unit) (a :: 's app_state).
    (Ok (JObj [(''updates'', JInt (uint (lu_updates (learn (hm_get (ap_ranker a) (cl_tenant c))))))]) :: api_error + json,
     a\<lparr>ap_ranker := hm_insert (cl_tenant c) (learn (hm_get (ap_ranker a) (cl_tenant c))) (ap_ranker a)\<rparr>))"
  define w where "w = st_record_rl_feedback ops (cl_tenant c) (unwrap_or (fb_finding_id req) []) (fb_action req) reward"
  have "tenant_step (app_view view) (\<lambda>_. True) (cl_tenant c) (k r)" for r
    by (rule tenant_stepI) (auto simp: k_def app_view_def hm_simps)
  moreover have "tenant_step view (\<lambda>_. True) (cl_tenant c) w"
    unfolding w_def by (rule record_rl_feedback)
  ultimately have "tenant_step (app_view view) (\<lambda>_. True) (cl_tenant c)
      (\<lambda>a. k (fst (w (ap_store a))) (a\<lparr>ap_store := snd (w (ap_store a))\<rparr>))"
    by (intro tenant_step_write)
  moreover have "rl_feedback cfg ops c req = (\<lambda>a. k (fst (w (ap_store a))) (a\<lparr>ap_store := snd (w (ap_store a))\<rparr>))"
    using Inr by (intro ext) (simp add: rl_feedback_def k_def w_def learn_def feats_def reward_def Let_def split_def)
  ultimately show ?thesis by simp
qed

lemma local_steps:
  "tenant_step (app_view view) (\<lambda>_. True) (cl_tenant c) (oidc_metadata cfg c)"
  "tenant_step (app_view view) (\<lambda>_. True) (cl_tenant c) (graph_rebuild c ns es)"
  "tenant_step (app_view view) (\<lambda>_. True) (cl_tenant c) (graph_blast_radius c n)"
  "tenant_step (app_view view) (\<lambda>_. True) (cl_tenant c) (rl_stats c)"
  "tenant_step (app_view view) (\<lambda>_. True) (cl_tenant c) (bughunt_get c u)"
proof -
  show "tenant_step (app_view view) (\<lambda>_. True) (cl_tenant c) (oidc_metadata cfg c)"
    by (rule tenant_step_readI) (simp_all add: oidc_metadata_def)
  show "tenant_step (app_view view) (\<lambda>_. True) (cl_tenant c) (graph_rebuild c ns es)"
    by (rule tenant_stepI) (auto simp: graph_rebuild_def app_view_def hm_simps Let_def)
  show "tenant_step (app_view view) (\<lambda>_. True) (cl_tenant c) (graph_blast_radius c n)"
    by (rule tenant_step_readI) (simp_all add: graph_blast_radius_def app_view_def)
  show "tenant_step (app_view view) (\<lambda>_. True) (cl_tenant c) (rl_stats c)"
    by (rule tenant_step_readI) (simp_all add: rl_stats_def app_view_def)
  show "tenant_step (app_view view) (\<lambda>_. True) (cl_tenant c) (bughunt_get c u)"
  proof (rule tenant_step_readI)
    show "snd (bughunt_get c u a) = a" for a by (simp add: bughunt_get_def split: option.split)
    fix a a' :: "'s app_state"
    assume "app_view view (cl_tenant c) a = app_view view (cl_tenant c) a'"
    then have "own_job (cl_tenant c) a u = own_job (cl_tenant c) a' u" by (simp add: app_view_def)
    moreover have "fst (bughunt_get c u a) = (case own_job (cl_tenant c) a u of None \<Rightarrow> Err NotFound | Some j \<Rightarrow> Ok (job_json j))"
      for a :: "'s app_state"
      by (simp add: bughunt_get_def own_job_def split: option.split)
    ultimately show "fst (bughunt_get c u a) = fst (bughunt_get c u a')" by simp
  qed
qed

lemma findings_cong:
  "app_view view t a = app_view view t a' \<Longrightarrow>
    st_list_findings ops t f (ap_store a) = st_list_findings ops t f (ap_store a')"
  by (intro read_findings) (simp add: app_view_def)

lemma compliance_step:
  "tenant_step (app_view view) (\<lambda>_. True) (cl_tenant c) (compliance_reports cfg ops env c fw fmt)"
proof (rule tenant_step_readI)
  show "snd (compliance_reports cfg ops env c fw fmt a) = a" for a
    by (simp add: compliance_reports_def Let_def split: sum.split)
  fix a a' :: "'s app_state"
  assume "app_view view (cl_tenant c) a = app_view view (cl_tenant c) a'"
  then have "st_list_findings ops (cl_tenant c) f (ap_store a) = st_list_findings ops (cl_tenant c) f (ap_store a')" for f
    by (rule findings_cong)
  then show "fst (compliance_reports cfg ops env c fw fmt a) = fst (compliance_reports cfg ops env c fw fmt a')"
    by (simp add: compliance_reports_def Let_def split: sum.split)
qed

lemma bughunt_run_step:
  "tenant_step (app_view view) (job_fresh (en_uuid env)) (cl_tenant c) (bughunt_run cfg ops env c scope)"
proof -
  define k where "k = (\<lambda>fs. fst (hunt (local_complete (cf_report_to_string cfg)) no_tools (cf_report_from_str cfg)
    (hunter_new \<lparr> tb_model = ''local'', tb_window = 8000, tb_reserved_output = 1000 \<rparr>) scope (finding_evidence env fs) ((), ())))"
  define job where "job = (\<lambda>fs. \<lparr> bj_tenant = cl_tenant c, bj_status = job_status_lower (ho_status (k fs)),
    bj_report = ho_report (k fs), bj_iterations = ho_iterations (k fs) \<rparr>)"
  have run: "bughunt_run cfg ops env c scope a =
    (if \<not> allows (cf_auth cfg) (cl_features c) ''bughunt'' then (Err (Forbidden ''bughunt''), a)
     else case st_list_findings ops (cl_tenant c) finding_filter_default (ap_store a) of
       Inl e \<Rightarrow> (Err (StoreErr e), a)
     | Inr fs \<Rightarrow> (Ok (JObj [(''jobId'', JStr (cf_show_uuid cfg (en_uuid env))), (''status'', JStr (bj_status (job fs)))]),
         a\<lparr>ap_bughunt_jobs := hm_insert (en_uuid env) (job fs) (ap_bughunt_jobs a)\<rparr>))" for a
    by (simp add: bughunt_run_def k_def job_def Let_def split: sum.split)
  have tenant: "bj_tenant (job fs) = cl_tenant c" for fs by (simp add: job_def)
  have own: "own_job (cl_tenant c) (a\<lparr>ap_bughunt_jobs := hm_insert u (job fs) (ap_bughunt_jobs a)\<rparr>) =
      (own_job (cl_tenant c) a)(u \<mapsto> job fs)" for a :: "'s app_state" and u fs
    by (auto simp: own_job_def hm_simps tenant fun_eq_iff)
  have other: "own_job t (a\<lparr>ap_bughunt_jobs := hm_insert u (job fs) (ap_bughunt_jobs a)\<rparr>) = own_job t a"
    if "t \<noteq> cl_tenant c" "job_fresh u a" for a :: "'s app_state" and u t fs
    using that by (auto simp: own_job_def hm_simps tenant job_fresh_def fun_eq_iff)
  show ?thesis
  proof (rule tenant_stepI)
    fix a a' :: "'s app_state" and t
    show "fst (bughunt_run cfg ops env c scope a) = fst (bughunt_run cfg ops env c scope a') \<and>
        app_view view (cl_tenant c) (snd (bughunt_run cfg ops env c scope a)) =
        app_view view (cl_tenant c) (snd (bughunt_run cfg ops env c scope a'))"
      if "app_view view (cl_tenant c) a = app_view view (cl_tenant c) a'"
      using that findings_cong [OF that] by (simp add: run own app_view_def split: sum.split)
    show "app_view view t (snd (bughunt_run cfg ops env c scope a)) = app_view view t a"
      if "job_fresh (en_uuid env) a" "t \<noteq> cl_tenant c"
      using that by (simp add: run other app_view_def split: sum.split)
  qed
qed

text \<open>Every authenticated handler but the two on the circuit breaker is a step of its principal's tenant.\<close>

definition call_fresh :: "uuid \<Rightarrow> 's app_state \<Rightarrow> bool" where
  "call_fresh u a \<longleftrightarrow> fresh u (ap_store a) \<and> job_fresh u a"

lemma dispatch_step:
  assumes "\<not> public_req req" and "\<not> shared_req req"
  shows "tenant_step (app_view view) (call_fresh (en_uuid env)) (cl_tenant c) (dispatch cfg ops env c req)"
proof -
  have "tenant_step (app_view view) (call_fresh (en_uuid env)) (cl_tenant c) (api_create_scan cfg ops env c scope)" for scope
    by (rule tenant_step_weaken [OF create_scan_step]) (simp add: call_fresh_def)
  moreover have "tenant_step (app_view view) (call_fresh (en_uuid env)) (cl_tenant c) (bughunt_run cfg ops env c scope)" for scope
    by (rule tenant_step_weaken [OF bughunt_run_step]) (simp add: call_fresh_def)
  ultimately show ?thesis
    using assms
    by (cases req) (simp_all add: public_req_def shared_req_def tenant_step_guard finding_action_step
        remediation_deny_step remediation_create_step rl_feedback_step read_steps local_steps compliance_step)
qed

lemma dispatch_keys:
  "st_lookup_api_key ops h (ap_store (snd (dispatch cfg ops env c req a))) = st_lookup_api_key ops h (ap_store a)"
  by (rule dispatch_store [where P = "\<lambda>s. st_lookup_api_key ops h s = st_lookup_api_key ops h (ap_store a)"])
    (simp_all add: keys_kept)

lemma dispatch_fresh:
  assumes "call_fresh u a" and "u \<noteq> en_uuid env"
  shows "call_fresh u (snd (dispatch cfg ops env c req a))"
proof -
  have "fresh u (ap_store (snd (dispatch cfg ops env c req a)))"
    using assms by (intro dispatch_store [where P = "fresh u"]) (simp_all add: call_fresh_def fresh_kept)
  moreover have "job_fresh u (snd (dispatch cfg ops env c req a))"
    using assms dispatch_jobs [of cfg ops env c req a u] by (simp add: call_fresh_def job_fresh_def)
  ultimately show ?thesis by (simp add: call_fresh_def)
qed

lemma api_step_own:
  assumes "call_owner cfg ops (ap_store a) call = Some t" and "\<not> shared_req (ca_req call)"
    and "\<And>h. st_lookup_api_key ops h (ap_store a) = st_lookup_api_key ops h (ap_store a')"
    and "call_fresh (en_uuid (ca_env call)) a" and "call_fresh (en_uuid (ca_env call)) a'"
    and "app_view view t a = app_view view t a'"
  shows "fst (api_step cfg ops call a) = fst (api_step cfg ops call a') \<and>
    app_view view t (snd (api_step cfg ops call a)) = app_view view t (snd (api_step cfg ops call a'))"
proof (cases "public_req (ca_req call)")
  case True
  then obtain key lic where key: "ca_req call = LicenseActivate key"
    and lic: "license_verify (cf_crypto cfg) key (cf_license_pubkey cfg) (en_now (ca_env call)) = Ok lic"
    and t: "t = lic_tenant_id lic"
    using assms(1) by (auto simp: public_req_def call_owner_def split: api_req.splits sum.splits)
  from tenant_step_own [OF license_activate_step [OF lic] TrueI TrueI, of a a'] assms(6) key t show ?thesis
    by (simp add: api_step_def)
next
  case False
  then obtain c where "authenticate (cf_auth cfg) ops (en_now (ca_env call)) (ca_headers call) (ap_store a) = Ok c"
    and c: "t = cl_tenant c"
    using assms(1) by (auto simp: call_owner_public split: sum.splits)
  moreover from this have "authenticate (cf_auth cfg) ops (en_now (ca_env call)) (ca_headers call) (ap_store a') = Ok c"
    using authenticate_cong [OF assms(3)] by metis
  ultimately show ?thesis
    using tenant_step_own [OF dispatch_step [OF False assms(2)] assms(4,5), of c cfg] assms(6)
    by (simp add: api_step_private [OF False] c)
qed

lemma api_step_other:
  assumes "call_owner cfg ops (ap_store a) call \<noteq> Some t" and "\<not> shared_req (ca_req call)"
    and "call_fresh (en_uuid (ca_env call)) a"
  shows "app_view view t (snd (api_step cfg ops call a)) = app_view view t a"
proof (cases "public_req (ca_req call)")
  case True
  then consider key where "ca_req call = LicenseActivate key" | tok where "ca_req call = OidcCallback tok"
    by (auto simp: public_req_def split: api_req.splits)
  then show ?thesis
  proof cases
    case 1
    show ?thesis
    proof (cases "license_verify (cf_crypto cfg) key (cf_license_pubkey cfg) (en_now (ca_env call))")
      case (Inl e)
      with 1 show ?thesis by (simp add: api_step_def license_activate_def)
    next
      case (Inr lic)
      with 1 assms(1) tenant_step_other [OF license_activate_step [OF Inr] TrueI, of t a] show ?thesis
        by (simp add: api_step_def call_owner_def)
    qed
  next
    case 2
    then show ?thesis by (simp add: api_step_def oidc_callback_def Let_def split: option.split sum.split)
  qed
next
  case False
  show ?thesis
  proof (cases "authenticate (cf_auth cfg) ops (en_now (ca_env call)) (ca_headers call) (ap_store a)")
    case (Inr c)
    then show ?thesis
      using assms(1) tenant_step_other [OF dispatch_step [OF False assms(2)] assms(3), of t c cfg] False
      by (simp add: api_step_private [OF False] call_owner_public)
  qed (simp add: api_step_private [OF False])
qed

lemma api_step_store:
  "st_lookup_api_key ops h (ap_store (snd (api_step cfg ops call a))) = st_lookup_api_key ops h (ap_store a)"
  "call_fresh u a \<Longrightarrow> u \<noteq> en_uuid (ca_env call) \<Longrightarrow> call_fresh u (snd (api_step cfg ops call a))"
  using dispatch_keys dispatch_fresh api_step_dispatch [of cfg ops call a] by metis+

text \<open>A tenant's responses do not depend on the other tenants' requests.\<close>

lemma run_purge:
  assumes "\<And>h. st_lookup_api_key ops h (ap_store a) = st_lookup_api_key ops h s0"
    and "\<And>h. st_lookup_api_key ops h (ap_store a') = st_lookup_api_key ops h s0"
    and "app_view view t a = app_view view t a'"
    and "distinct (map (\<lambda>call. en_uuid (ca_env call)) calls)"
    and "\<And>call. call \<in> set calls \<Longrightarrow> call_fresh (en_uuid (ca_env call)) a \<and> call_fresh (en_uuid (ca_env call)) a'
      \<and> \<not> shared_req (ca_req call)"
  shows "filter (\<lambda>(call, _). call_owner cfg ops s0 call = Some t) (fst (api_run cfg ops a calls)) =
    fst (api_run cfg ops a' (filter (\<lambda>call. call_owner cfg ops s0 call = Some t) calls))"
  using assms
proof (induction calls arbitrary: a a')
  case (Cons call calls)
  have owner: "call_owner cfg ops (ap_store a) call = call_owner cfg ops s0 call"
    using Cons.prems(1) by (rule call_owner_cong)
  have fr: "call_fresh (en_uuid (ca_env call)) a" "call_fresh (en_uuid (ca_env call)) a'"
    "\<not> shared_req (ca_req call)" using Cons.prems(5) [of call] by auto
  have later: "en_uuid (ca_env call') \<noteq> en_uuid (ca_env call)" if "call' \<in> set calls" for call'
  proof -
    have "en_uuid (ca_env call) \<notin> (\<lambda>call. en_uuid (ca_env call)) ` set calls" using Cons.prems(4) by simp
    with that show ?thesis by (metis imageI)
  qed
  let ?a1 = "snd (api_step cfg ops call a)" and ?a1' = "snd (api_step cfg ops call a')"
  show ?case
  proof (cases "call_owner cfg ops s0 call = Some t")
    case True
    have "fst (api_step cfg ops call a) = fst (api_step cfg ops call a') \<and> app_view view t ?a1 = app_view view t ?a1'"
      using True owner fr Cons.prems(1-3) by (intro api_step_own) simp_all
    moreover from this have "filter (\<lambda>(call, _). call_owner cfg ops s0 call = Some t) (fst (api_run cfg ops ?a1 calls)) =
        fst (api_run cfg ops ?a1' (filter (\<lambda>call. call_owner cfg ops s0 call = Some t) calls))"
      using Cons.prems later by (intro Cons.IH) (auto simp: api_step_store)
    ultimately show ?thesis using True by (simp add: Let_def split_def)
  next
    case False
    have "app_view view t ?a1 = app_view view t a"
      using False owner fr by (intro api_step_other) simp_all
    then have "filter (\<lambda>(call, _). call_owner cfg ops s0 call = Some t) (fst (api_run cfg ops ?a1 calls)) =
        fst (api_run cfg ops a' (filter (\<lambda>call. call_owner cfg ops s0 call = Some t) calls))"
      using Cons.prems later by (intro Cons.IH) (auto simp: api_step_store)
    then show ?thesis using False by (simp add: Let_def split_def)
  qed
qed simp

end

subsection \<open>Properties of the platform API\<close>

lemma dispatch_breaker:
  "\<not> shared_req req \<Longrightarrow> ap_breaker (snd (dispatch cfg ops env c req a)) = ap_breaker a"
  by (cases req)
    (simp_all add: shared_req_def api_create_scan_def license_get_def api_get_scan_def api_list_findings_def finding_action_def
      oidc_metadata_def graph_rebuild_def graph_blast_radius_def rl_feedback_def rl_stats_def bughunt_run_def bughunt_get_def
      compliance_reports_def remediation_create_def remediations_queue_def remediation_deny_def license_activate_def oidc_callback_def
      publish_tenant_def Let_def split_def split: sum.split option.split bool.split)

lemma find_update_first:
  assumes "\<And>x. p x \<Longrightarrow> p (f x)"
  shows "find p (snd (update_first p f xs)) = map_option f (find p xs)"
  using assms by (induction xs) (auto simp: update_first_Cons split: prod.splits)

lemma mem_deny_lookup:
  "map_option re_playbook_id (find (\<lambda>r. re_id r = uid)
     (unwrap_or (hm_get (mm_remediations (snd (mem_set_remediation_state t' uid st m))) t) [])) =
   map_option re_playbook_id (find (\<lambda>r. re_id r = uid) (unwrap_or (hm_get (mm_remediations m) t) []))"
proof -
  have "map_option re_playbook_id (find (\<lambda>r. re_id r = uid) ys) = map_option re_playbook_id (find (\<lambda>r. re_id r = uid) xs)"
    if "update_first (\<lambda>r. re_id r = uid) (re_state_update (\<lambda>_. st)) xs = (b, ys)" for xs ys b
    using find_update_first [of "\<lambda>r. re_id r = uid" "re_state_update (\<lambda>_. st)" xs] that
    by (simp add: option.map_comp comp_def)
  then show ?thesis
    by (auto simp: mem_set_remediation_state_def hm_simps split: option.splits prod.splits)
qed

text \<open>What approving a remediation answers, as a function of its playbook.\<close>

definition approve_answer :: "api_config \<Rightarrow> call_env \<Rightarrow> claims \<Rightarrow> circuit_breaker \<Rightarrow> uuid \<Rightarrow> string option \<Rightarrow>
    (api_error + json) \<times> circuit_breaker" where
  "approve_answer cfg env c br uid pid =
    (if \<not> allows_role (cf_auth cfg) (cl_features c) (cl_role c) ''remediation_admin''
     then (Err (Forbidden ''remediation_admin''), br)
     else case Option.bind pid (\<lambda>i. find (\<lambda>p. pk_id p = i) sample_playbooks) of
       None \<Rightarrow> (Err NotFound, br)
     | Some pb \<Rightarrow>
         let (outcome, w) = run (cloud_backend_for cfg pb) pb (Some (Approved (cl_sub c))) (en_now_ms env)
               \<lparr> es_breaker = br, es_cloud = [], es_audit = [] \<rparr>
         in (Ok (JObj [(''id'', JStr (cf_show_uuid cfg uid)), (''state'', JStr (exec_state_str (eo_state outcome))),
              (''executed'', JBool (eo_executed outcome))]), es_breaker w))"

lemma mem_approve:
  fixes a :: "mem app_state"
  shows "(fst (remediation_approve cfg mem_store env c uid a), ap_breaker (snd (remediation_approve cfg mem_store env c uid a))) =
    approve_answer cfg env c (ap_breaker a) uid (map_option re_playbook_id (find (\<lambda>r. re_id r = uid)
      (unwrap_or (hm_get (mm_remediations (ap_store a)) (cl_tenant c)) [])))"
proof -
  have "is_ok (fst (mem_set_remediation_state t u st m))" for t u st m
    by (simp add: mem_set_remediation_state_def split: option.split prod.split)
  then have "\<exists>b. fst (mem_set_remediation_state t u st m) = Ok b" for t u st m
    by (metis is_ok_simps(2) sum.exhaust)
  then have ok: "(case fst (mem_set_remediation_state t u st m) of Inl e \<Rightarrow> x e | Inr _ \<Rightarrow> y) = y" for t u st m x y
    by (metis sum.case(2))
  show ?thesis
    by (simp add: remediation_approve_def approve_answer_def mem_list_remediations_def publish_tenant_def Let_def split_def ok
        split: option.split)
qed


text \<open>A small deployment: two tenants with one API key each, the built-in policy, no session tokens.\<close>

definition demo_claims :: "string \<Rightarrow> string \<Rightarrow> claims" where
  "demo_claims tenant role = \<lparr> cl_sub = ''u'', cl_tenant = tenant, cl_tier = ''pro'', cl_role = role, cl_features = [],
     cl_iss = ISSUER, cl_exp = 0 \<rparr>"

definition demo_config :: api_config where
  "demo_config = \<lparr> cf_auth = \<lparr> ac_jwt_secret = ''s'', ac_api_key_pepper = ''p'', ac_jwt_encode = (\<lambda>_ _ _. Ok ''t''),
       ac_jwt_decode = (\<lambda>_ _ _ _ _. None), ac_hmac_sha256 = (\<lambda>_ k. k),
       ac_cedar = (\<lambda>f r x. Ok (default_policy_permit f r x)) \<rparr>,
     cf_crypto = demo_crypto, cf_license_pubkey = ''vendor'', cf_redis = False, cf_oidc = None,
     cf_show_uuid = (\<lambda>u. show_nat (unat u)), cf_sqrt32 = (\<lambda>x. x), cf_powf = (\<lambda>x _. x), cf_debug_action = (\<lambda>_. []),
     cf_report_to_string = (\<lambda>_. Ok ''report''), cf_report_from_str = demo_parse, cf_lower = (\<lambda>gs i. gs ! i),
     cf_to_string = (\<lambda>_. ''{}''), cf_from_str = (\<lambda>_. None), cf_export = export_from_seed ''s'', cf_ed = demo_ed,
     cf_zip = demo_zip [] [] \<rparr>"

definition demo_app :: "mem app_state" where
  "demo_app = app_new (with_api_key (to_hex ''a'') (demo_claims ''acme'' ''member'')
     (with_api_key (to_hex ''b'') (demo_claims ''globex'' ''admin'') mem_new))"

definition demo_call :: "string \<Rightarrow> nat \<Rightarrow> api_req \<Rightarrow> api_call" where
  "demo_call key n req = \<lparr> ca_env = \<lparr> en_now = 0, en_now_ms = 0, en_uuid = of_nat n, en_enqueue_ok = True,
     en_evidence_id = (\<lambda>i. i) \<rparr>,
     ca_headers = [(''x-api-key'', key)], ca_req = req \<rparr>"



definition demo_reset :: api_call where
  "demo_reset = demo_call ''a'' 1 (CircuitReset ''safe'')"


text \<open>
  Denying does not stop a remediation. Approving a remediation after it was denied gives the same response, and so
  runs the same playbook, as approving it without the denial: the approval route never reads the stored state.
\<close>

theorem denied_remediation_still_runs:
  fixes a :: "mem app_state"
  shows "let denied = snd (remediation_deny cfg mem_store c' uid a);
      (r1, a1) = remediation_approve cfg mem_store env c uid denied;
      (r2, a2) = remediation_approve cfg mem_store env c uid a
    in r1 = r2 \<and> ap_breaker a1 = ap_breaker a2"
proof -
  let ?d = "snd (remediation_deny cfg mem_store c' uid a)"
  have "ap_store ?d = snd (mem_set_remediation_state (cl_tenant c') uid ''aborted'' (ap_store a))" "ap_breaker ?d = ap_breaker a"
    by (simp_all add: remediation_deny_def publish_tenant_def Let_def split_def split: sum.split bool.split)
  then show ?thesis
    using mem_approve [of cfg env c uid ?d] mem_approve [of cfg env c uid a]
      mem_deny_lookup [of uid "cl_tenant c'" "''aborted''" "ap_store a" "cl_tenant c"]
    by (simp add: split_def Let_def) (metis prod.inject)
qed

lemma filter_take_filter: "filter p (take n (filter p xs)) = take n (filter p xs)"
  by (rule filter_True) (auto dest: in_set_takeD)

text \<open>
  The compliance report sees only the first 50 findings of the tenant: on every state the response is the one for a store
  that holds nothing but those, so a control that only later findings violate is reported as passing.
\<close>

theorem compliance_sees_50_findings:
  fixes a :: "mem app_state"
  shows "fst (compliance_reports cfg mem_store env c framework fmt a) =
    fst (compliance_reports cfg mem_store env c framework fmt (a\<lparr>ap_store := (ap_store a)\<lparr>mm_findings :=
      take 50 (filter (\<lambda>f. fi_tenant_id f = cl_tenant c) (mm_findings (ap_store a)))\<rparr>\<rparr>))"
proof -
  let ?m = "(ap_store a)\<lparr>mm_findings := take 50 (filter (\<lambda>f. fi_tenant_id f = cl_tenant c) (mm_findings (ap_store a)))\<rparr>"
  have "mem_list_findings (cl_tenant c) finding_filter_default ?m =
      mem_list_findings (cl_tenant c) finding_filter_default (ap_store a)"
    by (simp add: mem_list_findings_def finding_filter_default_def is_none_or_def filter_take_filter)
  then show ?thesis by (simp add: compliance_reports_def mem_store_def Let_def split: sum.split)
qed

end
