(* ===== verification/MachineKey.thy ===== *)
theory MachineKey
  imports Hex
begin

text \<open>
  \<open>secureops-crypto/src/machinekey.rs\<close>: encryption of files under a key derived from the machine and the
  state directory. PBKDF2-HMAC-SHA512 and AES-256-GCM are parameters; random bytes are arguments
  (\<open>None\<close> when the generator fails, which panics). The files are a map from paths to contents, and
  the outcome of each file operation is an argument.

  The lemmas show the byte layout \<open>salt(32) || iv(16) || tag(16) || ciphertext\<close> and that decryption reads it
  back, for a buffer and for a file.
\<close>

definition KEY_LENGTH :: nat where "KEY_LENGTH = 32"
definition IV_LENGTH :: nat where "IV_LENGTH = 16"
definition AUTH_TAG_LENGTH :: nat where "AUTH_TAG_LENGTH = 16"
definition SALT_LENGTH :: nat where "SALT_LENGTH = 32"
definition PBKDF2_ITERATIONS :: nat where "PBKDF2_ITERATIONS = 100000"

lemmas lengths = KEY_LENGTH_def IV_LENGTH_def AUTH_TAG_LENGTH_def SALT_LENGTH_def

subsection \<open>The machine id\<close>

text \<open>\<open>str::find\<close>: the byte index of the first occurrence.\<close>

fun str_find :: "string \<Rightarrow> string \<Rightarrow> nat option" where
  "str_find [] p = (if p = [] then Some 0 else None)"
| "str_find (c # cs) p = (if starts_with (c # cs) p then Some 0 else map_option Suc (str_find cs p))"

definition quote :: char where "quote = byte 34"

definition parse_io_platform_uuid :: "string \<Rightarrow> string option" where
  "parse_io_platform_uuid s =
    (let key = [quote] @ ''IOPlatformUUID'' @ [quote] in
     case str_find s key of None \<Rightarrow> None
     | Some idx \<Rightarrow> let after = drop (idx + length key) s in
       (case str_find after ''='' of None \<Rightarrow> None
        | Some eq \<Rightarrow> let rest = drop (eq + 1) after in
          (case str_find rest [quote] of None \<Rightarrow> None
           | Some q1 \<Rightarrow> let rest2 = drop (q1 + 1) rest in
             map_option (\<lambda>q2. take q2 rest2) (str_find rest2 [quote]))))"

definition hostname_fallback :: "string option \<Rightarrow> string" where
  "hostname_fallback hostname_stdout =
    (case hostname_stdout of
       None \<Rightarrow> ''unknown-host''
     | Some out \<Rightarrow> let h = trim (from_utf8_lossy out) in if h \<noteq> [] then h else ''unknown-host'')"

datatype target_os = Linux | MacOs | OtherOs

text \<open>
  The id for each target: the text of \<open>/etc/machine-id\<close>, the output of \<open>ioreg\<close>, the output of
  \<open>hostname\<close>, each \<open>None\<close> when the file or the command cannot be read.
\<close>

definition get_machine_id :: "target_os \<Rightarrow> string option \<Rightarrow> string option \<Rightarrow> string option \<Rightarrow> string" where
  "get_machine_id os etc_machine_id ioreg_stdout hostname_stdout =
    (case os of
       Linux \<Rightarrow> (case etc_machine_id of
           Some s \<Rightarrow> if trim s \<noteq> [] then trim s else hostname_fallback hostname_stdout
         | None \<Rightarrow> hostname_fallback hostname_stdout)
     | MacOs \<Rightarrow> (case ioreg_stdout of
           Some out \<Rightarrow> (case parse_io_platform_uuid (from_utf8_lossy out) of
               Some uuid \<Rightarrow> uuid | None \<Rightarrow> hostname_fallback hostname_stdout)
         | None \<Rightarrow> hostname_fallback hostname_stdout)
     | OtherOs \<Rightarrow> hostname_fallback hostname_stdout)"

subsection \<open>Encryption of a buffer\<close>

record machine_crypto =
  pbkdf2 :: "string \<Rightarrow> string \<Rightarrow> nat \<Rightarrow> nat \<Rightarrow> string"
  gcm16_encrypt :: "string \<Rightarrow> string \<Rightarrow> string \<Rightarrow> string option"
  gcm16_decrypt :: "string \<Rightarrow> string \<Rightarrow> string \<Rightarrow> string option"

definition machine_derive_key :: "machine_crypto \<Rightarrow> string \<Rightarrow> string \<Rightarrow> string \<Rightarrow> string" where
  "machine_derive_key mc machine_id state_dir salt =
    pbkdf2 mc (machine_id @ '':'' @ state_dir) salt PBKDF2_ITERATIONS KEY_LENGTH"

text \<open>\<open>split_off\<close> at \<open>len - 16\<close> panics when the buffer is shorter than the tag.\<close>

definition machine_encrypt ::
  "machine_crypto \<Rightarrow> string option \<Rightarrow> string option \<Rightarrow> string \<Rightarrow> string \<Rightarrow> string \<Rightarrow> string may_panic" where
  "machine_encrypt mc salt_rng iv_rng plaintext machine_id state_dir =
    (case (salt_rng, iv_rng) of
       (Some salt, Some iv) \<Rightarrow>
         (case gcm16_encrypt mc (machine_derive_key mc machine_id state_dir salt) iv plaintext of
            None \<Rightarrow> Panics
          | Some sealed \<Rightarrow>
              if length sealed < AUTH_TAG_LENGTH then Panics
              else let n = length sealed - AUTH_TAG_LENGTH; tag = drop n sealed; ciphertext = take n sealed
                   in Returns (salt @ iv @ tag @ ciphertext))
     | _ \<Rightarrow> Panics)"

datatype machine_error = TooShort | DecryptionFailed | NotUtf8 | FileError

definition slice :: "nat \<Rightarrow> nat \<Rightarrow> 'a list \<Rightarrow> 'a list" where
  "slice i j xs = take (j - i) (drop i xs)"

definition machine_decrypt ::
  "machine_crypto \<Rightarrow> string \<Rightarrow> string \<Rightarrow> string \<Rightarrow> machine_error + string" where
  "machine_decrypt mc data machine_id state_dir =
    (let header = SALT_LENGTH + IV_LENGTH + AUTH_TAG_LENGTH in
     if length data < header then Err TooShort
     else let salt = slice 0 SALT_LENGTH data;
              iv = slice SALT_LENGTH (SALT_LENGTH + IV_LENGTH) data;
              tag = slice (SALT_LENGTH + IV_LENGTH) header data;
              ciphertext = drop header data
          in case gcm16_decrypt mc (machine_derive_key mc machine_id state_dir salt) iv (ciphertext @ tag) of
               None \<Rightarrow> Err DecryptionFailed
             | Some p \<Rightarrow> if utf8_valid p then Ok p else Err NotUtf8)"

subsection \<open>Files\<close>

type_synonym files = "string \<Rightarrow> string option"

text \<open>
  \<open>Path::join\<close> of a relative component, and \<open>Path::file_name\<close>: the last component, none for a
  path that ends in \<open>..\<close> or has no component. Trailing slashes and \<open>.\<close> components are skipped.
\<close>

definition path_join :: "string \<Rightarrow> string \<Rightarrow> string" where
  "path_join base name = (if starts_with name ''/'' then name
     else if base = [] \<or> ends_with base ''/'' then base @ name else base @ ''/'' @ name)"

definition path_file_name :: "string \<Rightarrow> string option" where
  "path_file_name p =
    (let parts = split_char (CHR ''/'') p;
         keep = filter (\<lambda>i. parts ! i \<noteq> [] \<and> (parts ! i \<noteq> ''.'' \<or> i = 0)) [0..<length parts]
     in if keep = [] then None
        else let l = parts ! last keep in if l = ''..'' \<or> l = ''.'' then None else Some l)"

text \<open>
  The answers of the file system: does creating the directory (not observable later), the write or
  the copy succeed; a failed write leaves the file as it was.
\<close>

definition ensure_keystore ::
  "machine_crypto \<Rightarrow> string option \<Rightarrow> string option \<Rightarrow> bool \<Rightarrow> string \<Rightarrow> string \<Rightarrow> files
     \<Rightarrow> ((machine_error + string \<times> string) \<times> files) may_panic" where
  "ensure_keystore mc salt_rng iv_rng write_ok machine_id state_dir fs =
    (let keystore_path = path_join (path_join state_dir ''.secureops'') ''keystore'' in
     case fs keystore_path of
       Some _ \<Rightarrow> Returns (Ok (machine_id, keystore_path), fs)
     | None \<Rightarrow>
         (case machine_encrypt mc salt_rng iv_rng ''secureops-keystore-verify'' machine_id state_dir of
            Panics \<Rightarrow> Panics
          | Returns token \<Rightarrow>
              if write_ok then Returns (Ok (machine_id, keystore_path), fs(keystore_path \<mapsto> token))
              else Returns (Err FileError, fs)))"

definition encrypt_file ::
  "machine_crypto \<Rightarrow> string option \<Rightarrow> string option \<Rightarrow> bool \<Rightarrow> bool \<Rightarrow> string \<Rightarrow> string \<Rightarrow> string \<Rightarrow> string \<Rightarrow> files
     \<Rightarrow> ((machine_error + unit) \<times> files) may_panic" where
  "encrypt_file mc salt_rng iv_rng copy_ok write_ok file_path machine_id state_dir backup_dir fs =
    (case fs file_path of
       None \<Rightarrow> Returns (Err FileError, fs)
     | Some content \<Rightarrow>
         if \<not> utf8_valid content then Returns (Err FileError, fs)
         else
           let dest = path_join backup_dir (unwrap_or (map_option from_utf8_lossy (path_file_name file_path)) []);
               fs1 = (if copy_ok then fs(dest \<mapsto> content) else fs)
           in (case machine_encrypt mc salt_rng iv_rng content machine_id state_dir of
                 Panics \<Rightarrow> Panics
               | Returns enc \<Rightarrow>
                   if write_ok then Returns (Ok (), fs1(file_path @ ''.enc'' \<mapsto> enc))
                   else Returns (Err FileError, fs1)))"

definition decrypt_file ::
  "machine_crypto \<Rightarrow> string \<Rightarrow> string \<Rightarrow> string \<Rightarrow> files \<Rightarrow> machine_error + string" where
  "decrypt_file mc file_path machine_id state_dir fs =
    (let enc_path = (if ends_with file_path ''.enc'' then file_path else file_path @ ''.enc'')
     in case fs enc_path of None \<Rightarrow> Err FileError
        | Some data \<Rightarrow> machine_decrypt mc data machine_id state_dir)"

subsection \<open>Round trip\<close>

text \<open>The cipher as documented: it opens what it sealed, and the output ends with a 16-byte tag.\<close>

definition gcm_ok :: "machine_crypto \<Rightarrow> bool" where
  "gcm_ok mc \<longleftrightarrow> (\<forall>k n p. \<exists>c. gcm16_encrypt mc k n p = Some c \<and> length c = length p + 16 \<and>
     gcm16_decrypt mc k n c = Some p)"

lemma machine_decrypt_layout:
  assumes "length salt = 32" and "length iv = 16" and "length tag = 16"
  shows "machine_decrypt mc (salt @ iv @ tag @ ct) machine_id state_dir =
    (case gcm16_decrypt mc (machine_derive_key mc machine_id state_dir salt) iv (ct @ tag) of
       None \<Rightarrow> Err DecryptionFailed | Some p \<Rightarrow> if utf8_valid p then Ok p else Err NotUtf8)"
  using assms by (simp add: machine_decrypt_def lengths slice_def)

lemma machine_round_trip:
  assumes "gcm_ok mc" and "length salt = 32" and "length iv = 16"
  shows "\<exists>d. machine_encrypt mc (Some salt) (Some iv) p machine_id state_dir = Returns d \<and>
    length d = 64 + length p \<and> take 32 d = salt \<and>
    machine_decrypt mc d machine_id state_dir = (if utf8_valid p then Ok p else Err NotUtf8)"
proof -
  let ?k = "machine_derive_key mc machine_id state_dir salt"
  from assms(1) obtain c where c: "gcm16_encrypt mc ?k iv p = Some c" "length c = length p + 16"
    "gcm16_decrypt mc ?k iv c = Some p" unfolding gcm_ok_def by blast
  define tag where "tag = drop (length c - 16) c"
  define ct where "ct = take (length c - 16) c"
  have "length tag = 16" and "ct @ tag = c" and "length ct = length p" using c(2) by (simp_all add: tag_def ct_def)
  moreover have "machine_encrypt mc (Some salt) (Some iv) p machine_id state_dir = Returns (salt @ iv @ tag @ ct)"
    using c by (simp add: machine_encrypt_def lengths tag_def ct_def Let_def)
  ultimately show ?thesis using assms c(3) by (simp add: machine_decrypt_layout)
qed

subsection \<open>Properties\<close>

text \<open>
  A file encrypted by \<open>encrypt_file\<close> is read back by \<open>decrypt_file\<close>. For every text file whose name does
  not already end in \<open>.enc\<close>, whether or not the backup copy succeeds, the call writes
  \<open>file.enc\<close> with 64 bytes more than the text, the salt first, and decrypting under the same machine
  id and state directory returns the text; the original file keeps its text.
\<close>

theorem encrypt_file_round_trip:
  assumes "gcm_ok mc" and "length salt = 32" and "length iv = 16"
    and "fs file_path = Some content" and "utf8_valid content"
    and "\<not> ends_with file_path ''.enc''"
  shows "\<exists>fs' enc. encrypt_file mc (Some salt) (Some iv) copy_ok True file_path machine_id state_dir backup_dir fs
      = Returns (Ok (), fs') \<and>
    fs' (file_path @ ''.enc'') = Some enc \<and> length enc = 64 + length content \<and> take 32 enc = salt \<and>
    decrypt_file mc file_path machine_id state_dir fs' = Ok content \<and>
    fs' file_path = Some content"
proof -
  from machine_round_trip [OF assms(1-3), of content machine_id state_dir]
  obtain d where "machine_encrypt mc (Some salt) (Some iv) content machine_id state_dir = Returns d"
    "length d = 64 + length content" "take 32 d = salt"
    "machine_decrypt mc d machine_id state_dir = Ok content"
    using assms(5) by auto
  with assms(4-6) show ?thesis by (auto simp: encrypt_file_def decrypt_file_def Let_def)
qed

definition demo_mc :: machine_crypto where
  "demo_mc = \<lparr> pbkdf2 = (\<lambda>m s i n. take n (m @ s)), gcm16_encrypt = (\<lambda>k n p. Some (p @ replicate 16 (CHR ''t''))),
     gcm16_decrypt = (\<lambda>k n c. Some (take (length c - 16) c)) \<rparr>"

theorem encrypt_file_round_trip_witness:
  "\<exists>fs' enc. encrypt_file demo_mc (Some (replicate 32 (CHR ''s''))) (Some (replicate 16 (CHR ''i''))) True True
      ''/s/.env'' ''m1'' ''/s'' ''/b'' [''/s/.env'' \<mapsto> ''K=1''] = Returns (Ok (), fs') \<and>
    fs' (''/s/.env'' @ ''.enc'') = Some enc \<and> length enc = 64 + length ''K=1'' \<and>
    take 32 enc = replicate 32 (CHR ''s'') \<and>
    decrypt_file demo_mc ''/s/.env'' ''m1'' ''/s'' fs' = Ok ''K=1'' \<and> fs' ''/s/.env'' = Some ''K=1''"
proof (rule encrypt_file_round_trip)
  show "gcm_ok demo_mc" by (simp add: gcm_ok_def demo_mc_def)
  show "utf8_valid ''K=1''" by code_simp
  show "\<not> ends_with ''/s/.env'' ''.enc''" by code_simp
qed simp_all

end
