(* ===== verification/Intel.thy ===== *)
theory Intel
  imports Runtime Core Hex Floats
begin

text \<open>
  Threat intelligence: \<open>secureops-core/src/ioc.rs\<close> (the database), \<open>secureops-intel/src/lib.rs\<close> (matchers, the
  signed feed, the skill scanner) and \<open>baseline.rs\<close> (directory hashes).

  SHA-256, the regex and tree-sitter engines, Jaro-Winkler, minisign, serde and the HTTP client are third-party
  and parameters. A directory is a finite tree of entries in the order the system lists them.

  The lemmas show that the feed is replaced only by bytes whose signature was verified (or under the
  explicit opt-out), how versions are compared, and that a baseline comparison reports exactly the drift.
\<close>

subsection \<open>The database\<close>

record infostealer_artifacts =
  ia_macos :: "string list"
  ia_linux :: "string list"

record ioc_database =
  db_version :: string
  db_last_updated :: string
  db_c2_ips :: "string list"
  db_malicious_domains :: "string list"
  db_malicious_skill_hashes :: "(string, string) hmap"
  db_typosquat_patterns :: "string list"
  db_dangerous_prerequisite_patterns :: "string list"
  db_infostealer_artifacts :: infostealer_artifacts

record hash_baseline =
  hb_timestamp :: string
  hb_files :: "(string, string) hmap"

record baseline_comparison =
  bc_added :: "string list"
  bc_modified :: "string list"
  bc_removed :: "string list"

definition hash_bytes :: "(string \<Rightarrow> string) \<Rightarrow> string \<Rightarrow> string" where
  "hash_bytes sha content = to_hex (sha content)"

definition hash_string :: "(string \<Rightarrow> string) \<Rightarrow> string \<Rightarrow> string" where
  "hash_string sha content = hash_bytes sha content"

definition empty_database :: ioc_database where
  "empty_database = \<lparr> db_version = ''0.0.0'', db_last_updated = [], db_c2_ips = [], db_malicious_domains = [],
     db_malicious_skill_hashes = [], db_typosquat_patterns = [], db_dangerous_prerequisite_patterns = [],
     db_infostealer_artifacts = \<lparr> ia_macos = [], ia_linux = [] \<rparr> \<rparr>"

definition load_from_str :: "(string \<Rightarrow> string + ioc_database) \<Rightarrow> string \<Rightarrow> ioc_database" where
  "load_from_str parse js = (case parse js of Inl _ \<Rightarrow> empty_database | Inr db \<Rightarrow> db)"

definition parse_database :: "(string \<Rightarrow> string + ioc_database) \<Rightarrow> string \<Rightarrow> string + ioc_database" where
  "parse_database parse js = parse js"

definition is_known_c2 :: "ioc_database \<Rightarrow> string \<Rightarrow> bool" where
  "is_known_c2 db ip = list_ex (\<lambda>c. c = ip) (db_c2_ips db)"

definition is_known_malicious_domain :: "ioc_database \<Rightarrow> string \<Rightarrow> bool" where
  "is_known_malicious_domain db domain =
    list_ex (\<lambda>d. domain = d \<or> ends_with domain (''.'' @ d)) (db_malicious_domains db)"

definition is_known_malicious_hash :: "ioc_database \<Rightarrow> string \<Rightarrow> string option" where
  "is_known_malicious_hash db sha256 = hm_get (db_malicious_skill_hashes db) sha256"

text \<open>\<open>flat_map(char::to_lowercase)\<close> lowers each scalar value by itself.\<close>

definition normalize_skill_name :: "lower_table \<Rightarrow> string \<Rightarrow> string" where
  "normalize_skill_name uni s = concat (map (\<lambda>g. lower_at uni [g] 0)
     (filter (\<lambda>g. g \<noteq> ''-'' \<and> g \<noteq> ''_'' \<and> \<not> is_whitespace g) (utf8_chars s)))"

definition matches_typosquat :: "lower_table \<Rightarrow> (string \<Rightarrow> string \<Rightarrow> f64) \<Rightarrow> ioc_database \<Rightarrow> string \<Rightarrow> bool" where
  "matches_typosquat uni jaro_winkler db name =
    (let normalized = normalize_skill_name uni name
     in list_ex (\<lambda>pattern. let np = normalize_skill_name uni pattern in
          normalized = np \<or> contains normalized np \<or> contains np normalized \<or>
          flt_le (round64 (9 / 10)) (jaro_winkler normalized np)) (db_typosquat_patterns db))"

text \<open>\<open>rx pattern ignore_case text\<close>: \<open>None\<close> when the pattern does not compile.\<close>

type_synonym regex_lib = "string \<Rightarrow> bool \<Rightarrow> string \<Rightarrow> bool option"

definition matches_dangerous_pattern :: "regex_lib \<Rightarrow> ioc_database \<Rightarrow> string \<Rightarrow> string list" where
  "matches_dangerous_pattern rx db content =
    filter (\<lambda>p. rx p True content = Some True) (db_dangerous_prerequisite_patterns db)"

definition infostealer_artifacts_for :: "ioc_database \<Rightarrow> string \<Rightarrow> string list" where
  "infostealer_artifacts_for db platform =
    (if platform = ''darwin'' then ia_macos (db_infostealer_artifacts db)
     else if platform = ''linux'' then ia_linux (db_infostealer_artifacts db) else [])"

subsection \<open>The signed feed\<close>

datatype feed_update_outcome = NotModified | Updated ioc_database | FeedFailed string

definition DEFAULT_FEED_PUBKEY :: string where "DEFAULT_FEED_PUBKEY = []"

datatype sig_policy = VerifyWith string | SkipInsecure

definition resolve_sig_policy :: "string \<Rightarrow> bool \<Rightarrow> string + sig_policy" where
  "resolve_sig_policy pubkey_str insecure_flag =
    (if pubkey_str \<noteq> [] then Ok (VerifyWith pubkey_str)
     else if insecure_flag then Ok SkipInsecure
     else Err (''no IOC feed public key configured; refusing unsigned update '' @
       ''(set SECUREOPS_IOC_FEED_PUBKEY, or SECUREOPS_IOC_FEED_INSECURE=1 for dev/test)''))"

definition feed_url_allowed :: "string \<Rightarrow> bool \<Rightarrow> bool" where
  "feed_url_allowed url insecure \<longleftrightarrow> insecure \<or> starts_with url ''https://''"

text \<open>
  The feed's surroundings: the environment variables, the HTTP client (a request answers with an error or a status
  and a body that may fail to arrive), minisign (decoding a key and a signature, verification) and the parser.
\<close>

record http_answer =
  ha_status :: nat
  ha_body :: "string + string"

record ('k, 'g) feed_env =
  fe_insecure_var :: "string option"
  fe_pubkey_var :: "string option"
  fe_client :: "string + unit"
  fe_get :: "string \<Rightarrow> string option \<Rightarrow> string + http_answer"
  fe_show_status :: "nat \<Rightarrow> string"
  fe_key_decode :: "string \<Rightarrow> string + 'k"
  fe_sig_decode :: "string \<Rightarrow> string + 'g"
  fe_verify :: "'k \<Rightarrow> string \<Rightarrow> 'g \<Rightarrow> string + unit"
  fe_parse :: "string \<Rightarrow> string + ioc_database"

definition verify_minisign :: "('k, 'g) feed_env \<Rightarrow> string \<Rightarrow> string \<Rightarrow> string \<Rightarrow> string + unit" where
  "verify_minisign env pubkey_b64 bytes sig_text =
    (case fe_key_decode env pubkey_b64 of
       Inl e \<Rightarrow> Err (''bad public key: '' @ e)
     | Inr pk \<Rightarrow> (case fe_sig_decode env sig_text of
         Inl e \<Rightarrow> Err (''bad signature: '' @ e)
       | Inr sig \<Rightarrow> (case fe_verify env pk bytes sig of
           Inl e \<Rightarrow> Err (''signature mismatch: '' @ e) | Inr _ \<Rightarrow> Ok ())))"

definition http_success :: "nat \<Rightarrow> bool" where
  "http_success n \<longleftrightarrow> 200 \<le> n \<and> n < 300"

definition check_signature :: "('k, 'g) feed_env \<Rightarrow> string \<Rightarrow> string \<Rightarrow> bool \<Rightarrow> string \<Rightarrow> string + unit" where
  "check_signature env url pubkey_str insecure raw_bytes =
    (case resolve_sig_policy pubkey_str insecure of
       Inl e \<Rightarrow> Err e
     | Inr SkipInsecure \<Rightarrow> Ok ()
     | Inr (VerifyWith pubkey) \<Rightarrow>
         let sig_url = url @ ''.minisig'' in
         (case fe_get env sig_url None of
            Inl e \<Rightarrow> Err e
          | Inr resp \<Rightarrow>
              if \<not> http_success (ha_status resp) then Err (''signature sidecar not found at '' @ sig_url)
              else (case ha_body resp of
                 Inl e \<Rightarrow> Err e
               | Inr sig_bytes \<Rightarrow> (case verify_minisign env pubkey raw_bytes (from_utf8_lossy sig_bytes) of
                   Inl e \<Rightarrow> Err (''signature verification failed: '' @ e) | Inr _ \<Rightarrow> Ok ()))))"

text \<open>Versions are compared as strings, byte by byte.\<close>

definition update_feed_inner :: "('k, 'g) feed_env \<Rightarrow> string \<Rightarrow> ioc_database \<Rightarrow> string + feed_update_outcome" where
  "update_feed_inner env url current =
    (let insecure = (fe_insecure_var env = Some ''1'') in
     if \<not> feed_url_allowed url insecure then
       Err (''feed URL must be https:// (got '' @ url @ ''); set SECUREOPS_IOC_FEED_INSECURE=1 for dev/test'')
     else case fe_client env of Inl e \<Rightarrow> Err e | Inr _ \<Rightarrow>
       (case fe_get env url (Some (''\"'' @ db_version current @ ''\"'')) of
          Inl e \<Rightarrow> Err e
        | Inr resp \<Rightarrow>
            if ha_status resp = 304 then Ok NotModified
            else if \<not> http_success (ha_status resp) then Err (''feed server returned '' @ fe_show_status env (ha_status resp))
            else (case ha_body resp of
               Inl e \<Rightarrow> Err e
             | Inr raw_bytes \<Rightarrow>
                 (case check_signature env url (unwrap_or (fe_pubkey_var env) DEFAULT_FEED_PUBKEY) insecure raw_bytes of
                    Inl e \<Rightarrow> Err e
                  | Inr _ \<Rightarrow>
                      (case fe_parse env raw_bytes of
                         Inl e \<Rightarrow> Err (''feed parse failed: '' @ e)
                       | Inr new_db \<Rightarrow>
                           if db_version current \<noteq> [] \<and> db_version new_db \<le> db_version current then
                             Err (''feed version not monotonic: '' @ db_version new_db @ '' '' @ [CHR 0xE2, CHR 0x89, CHR 0xA4] @ '' '' @
                               db_version current @ '' (possible rollback attack)'')
                           else Ok (Updated new_db))))))"

definition update_feed :: "('k, 'g) feed_env \<Rightarrow> string \<Rightarrow> ioc_database \<Rightarrow> feed_update_outcome" where
  "update_feed env url current =
    (case update_feed_inner env url current of Inr outcome \<Rightarrow> outcome | Inl e \<Rightarrow> FeedFailed e)"

subsection \<open>Scanning skill sources\<close>

definition bsl :: string where "bsl = [CHR 0x5C]"

definition looks_like_js :: "string \<Rightarrow> bool" where
  "looks_like_js src = list_ex (contains src)
     [''function '', ''const '', ''let '', ''var '', ''require('', ''import '', ''export '']"

text \<open>The scanners push to the two lists of findings and patterns.\<close>

type_synonym scan_acc = "string list \<times> string list"

definition add_unique :: "string \<Rightarrow> string \<Rightarrow> scan_acc \<Rightarrow> scan_acc" where
  "add_unique pattern text acc = (case acc of (findings, patterns) \<Rightarrow>
     if list_ex (\<lambda>p. p = pattern) patterns then acc else (findings @ [text], patterns @ [pattern]))"

definition ast_queries :: "(string \<times> string \<times> string) list" where
  "ast_queries =
    [(''(call_expression function: (identifier) @fn (#eq? @fn \"eval\"))'',
      ''ast:eval-call'', ''AST: eval() call detected (PRODUCT.md Part D - bypasses static analysis)''),
     (''(call_expression'' @ [CHR 0x0A] @ ''  function: (identifier) @fn'' @ [CHR 0x0A] @ ''  arguments: (arguments (string) @str)'' @ [CHR 0x0A] @ ''  (#eq? @fn \"require\")'' @ [CHR 0x0A] @ ''  (#match? @str \"child_process\"))'',
      ''ast:child_process-require'', ''AST: require('' @ [CHR 0x27] @ ''child_process'' @ [CHR 0x27] @ '') detected''),
     (''(import_statement source: (string) @src (#match? @src \"child_process\"))'',
      ''ast:child_process-import'', ''AST: import from '' @ [CHR 0x27] @ ''child_process'' @ [CHR 0x27] @ '' detected''),
     (''(member_expression'' @ [CHR 0x0A] @ ''  object: (identifier) @obj'' @ [CHR 0x0A] @ ''  property: (property_identifier) @prop'' @ [CHR 0x0A] @ ''  (#eq? @obj \"process\")'' @ [CHR 0x0A] @ ''  (#eq? @prop \"env\"))'',
      ''ast:process-env-access'', ''AST: process.env access detected (credential read risk)''),
     (''(call_expression'' @ [CHR 0x0A] @ ''  function: (identifier) @fn'' @ [CHR 0x0A] @ ''  arguments: (arguments (identifier))'' @ [CHR 0x0A] @ ''  (#eq? @fn \"require\"))'',
      ''ast:dynamic-require'', ''AST: dynamic require(variable) detected - module name may be obfuscated''),
     (''(call_expression'' @ [CHR 0x0A] @ ''  function: (member_expression'' @ [CHR 0x0A] @ ''    property: (property_identifier) @method'' @ [CHR 0x0A] @ ''    (#match? @method \"^(exec|spawn|execSync|spawnSync|execFile|fork)$\")))'',
      ''ast:exec-spawn-call'', ''AST: exec/spawn/fork method call detected (shell execution risk)'')]"

text \<open>
  \<open>ast\<close>: \<open>None\<close> when the grammar cannot be set or the source not parsed, otherwise whether a query compiles and
  matches.
\<close>

definition ast_scan_js :: "(string \<Rightarrow> (string \<Rightarrow> bool) option) \<Rightarrow> string \<Rightarrow> scan_acc \<Rightarrow> scan_acc" where
  "ast_scan_js ast src acc = (case ast src of None \<Rightarrow> acc
     | Some found \<Rightarrow> foldl (\<lambda>acc (q, label, text). if found q then add_unique label text acc else acc) acc ast_queries)"

definition danger_patterns :: "(string \<times> string \<times> string) list" where
  "danger_patterns =
    [(''(?i)eval'' @ bsl @ ''s*'' @ bsl @ ''('', ''regex:eval-call'', ''Regex: eval() call''),
     (''(?i)require'' @ bsl @ ''s*'' @ bsl @ ''('' @ bsl @ ''s*['' @ [CHR 0x27] @ ''\"]child_process'', ''regex:child_process-require'', ''Regex: require('' @ [CHR 0x27] @ ''child_process'' @ [CHR 0x27] @ '')''),
     (''(?i)exec'' @ bsl @ ''s*'' @ bsl @ ''('', ''regex:exec-call'', ''Regex: exec() call''),
     (''(?i)spawn'' @ bsl @ ''s*'' @ bsl @ ''('', ''regex:spawn-call'', ''Regex: spawn() call''),
     (''(?i)curl'' @ bsl @ ''s+.*'' @ bsl @ ''|'' @ bsl @ ''s*(?:ba)?sh'', ''regex:curl-pipe-sh'', ''Regex: curl|sh exfil pattern''),
     (''process'' @ bsl @ ''.env'' @ bsl @ ''b'', ''regex:process-env'', ''Regex: process.env access''),
     (''(?i)'' @ bsl @ ''.env'' @ bsl @ ''b'', ''regex:dotenv-access'', ''Regex: .env file access''),
     (''(?i)crypto'' @ bsl @ ''.createHash|crypto'' @ bsl @ ''.randomBytes'', ''regex:crypto-api'', ''Regex: crypto API usage'')]"

definition regex_scan :: "regex_lib \<Rightarrow> string \<Rightarrow> scan_acc \<Rightarrow> scan_acc" where
  "regex_scan rx src acc =
    foldl (\<lambda>acc (p, label, text). if rx p False src = Some True then add_unique label text acc else acc) acc danger_patterns"

definition scan_skill_source ::
  "(string \<Rightarrow> (string \<Rightarrow> bool) option) \<Rightarrow> regex_lib \<Rightarrow> string \<Rightarrow> skill_scan_result" where
  "scan_skill_source ast rx src =
    (let acc = (if looks_like_js src then ast_scan_js ast src ([], []) else ([], []));
         (findings, patterns) = regex_scan rx src acc;
         dangerous_patterns = remdups_adj (sort patterns)
     in \<lparr> ssr_safe = (dangerous_patterns = []), ssr_skill_name = [], ssr_findings = remdups_adj (sort findings),
          ssr_dangerous_patterns = dangerous_patterns, ssr_ioc_matches = [] \<rparr>)"

subsection \<open>Baselines\<close>

text \<open>
  A directory entry: a file with its bytes (\<open>None\<close> when it cannot be read), a directory (\<open>None\<close> when it cannot be listed), or
  something else.
\<close>

datatype fs_node = FsFile "string option" | FsDir "(string \<times> fs_node) list option" | FsOther

fun walk :: "(string \<Rightarrow> string) \<Rightarrow> string \<Rightarrow> (string, string) hmap \<Rightarrow> fs_node \<Rightarrow> (string, string) hmap"
  and walk_entries :: "(string \<Rightarrow> string) \<Rightarrow> string \<Rightarrow> (string, string) hmap \<Rightarrow> (string \<times> fs_node) list \<Rightarrow> (string, string) hmap" where
  "walk sha rel out (FsFile (Some bytes)) = hm_insert rel (hash_bytes sha bytes) out"
| "walk sha rel out (FsFile None) = out"
| "walk sha rel out (FsDir (Some es)) = walk_entries sha rel out es"
| "walk sha rel out (FsDir None) = out"
| "walk sha rel out FsOther = out"
| "walk_entries sha rel out [] = out"
| "walk_entries sha rel out ((name, n) # es) =
    walk_entries sha rel (walk sha (if rel = [] then name else rel @ ''/'' @ name) out n) es"

definition hash_directory :: "(string \<Rightarrow> string) \<Rightarrow> (string \<times> fs_node) list option \<Rightarrow> (string, string) hmap" where
  "hash_directory sha dir = walk sha [] [] (FsDir dir)"

definition create_baseline :: "(string \<Rightarrow> string) \<Rightarrow> (string \<times> fs_node) list option \<Rightarrow> string \<Rightarrow> hash_baseline" where
  "create_baseline sha dir now = \<lparr> hb_timestamp = now, hb_files = hash_directory sha dir \<rparr>"

definition compare_baseline :: "hash_baseline \<Rightarrow> (string, string) hmap \<Rightarrow> baseline_comparison" where
  "compare_baseline baseline current =
    \<lparr> bc_added = filter (\<lambda>path. hm_get (hb_files baseline) path = None) (map fst current),
      bc_modified = map fst (filter (\<lambda>(path, hash). case hm_get current path of None \<Rightarrow> False | Some c \<Rightarrow> c \<noteq> hash)
        (hb_files baseline)),
      bc_removed = map fst (filter (\<lambda>(path, hash). hm_get current path = None) (hb_files baseline)) \<rparr>"

text \<open>Saving and loading, with the outcomes of the file operations as arguments.\<close>

definition save_baseline ::
  "(hash_baseline \<Rightarrow> string + string) \<Rightarrow> bool \<Rightarrow> bool \<Rightarrow> hash_baseline \<Rightarrow> string \<Rightarrow> (string \<Rightarrow> string option)
     \<Rightarrow> bool \<times> (string \<Rightarrow> string option)" where
  "save_baseline to_pretty mkdir_ok write_ok baseline path fs =
    (if \<not> mkdir_ok then (False, fs)
     else case to_pretty baseline of Inl _ \<Rightarrow> (False, fs)
     | Inr js \<Rightarrow> if write_ok then (True, fs(path \<mapsto> js)) else (False, fs))"

definition load_baseline :: "(string \<Rightarrow> hash_baseline option) \<Rightarrow> string \<Rightarrow> (string \<Rightarrow> string option) \<Rightarrow> hash_baseline option" where
  "load_baseline from_str path fs = (case fs path of None \<Rightarrow> None
     | Some s \<Rightarrow> if utf8_valid s then from_str s else None)"

subsection \<open>Lemmas\<close>

lemma walk_ok: "hm_ok out \<Longrightarrow> hm_ok (walk sha rel out n)"
  and walk_entries_ok: "hm_ok out \<Longrightarrow> hm_ok (walk_entries sha rel out es)"
  by (induction sha rel out n and sha rel out es rule: walk_walk_entries.induct) (simp_all add: hm_simps)

lemma hash_directory_ok: "hm_ok (hash_directory sha dir)"
  by (simp add: hash_directory_def walk_ok hm_simps)

lemma hm_get_iff: "hm_ok m \<Longrightarrow> hm_get m k = Some v \<longleftrightarrow> (k, v) \<in> set m"
  by (simp add: hm_ok_def hm_get_def)

lemma hm_get_None_iff: "hm_get m k = None \<longleftrightarrow> k \<notin> fst ` set m"
  by (simp add: hm_get_def map_of_eq_None_iff)

subsection \<open>Properties\<close>

text \<open>The configured key and the opt-out of an update.\<close>

definition feed_pubkey :: "('k, 'g) feed_env \<Rightarrow> string" where
  "feed_pubkey env = unwrap_or (fe_pubkey_var env) DEFAULT_FEED_PUBKEY"

definition feed_insecure :: "('k, 'g) feed_env \<Rightarrow> bool" where
  "feed_insecure env \<longleftrightarrow> fe_insecure_var env = Some ''1''"

definition signature_verified :: "('k, 'g) feed_env \<Rightarrow> string \<Rightarrow> string \<Rightarrow> bool" where
  "signature_verified env url raw \<longleftrightarrow> (\<exists>key sig answer text. fe_key_decode env (feed_pubkey env) = Ok key \<and>
     fe_get env (url @ ''.minisig'') None = Ok answer \<and> ha_body answer = Ok text \<and>
     fe_sig_decode env (from_utf8_lossy text) = Ok sig \<and> fe_verify env key raw sig = Ok ())"

lemma check_signature_ok:
  assumes "check_signature env url (feed_pubkey env) insecure raw = Ok u"
  shows "if feed_pubkey env = [] then insecure else signature_verified env url raw"
  using assms
  by (auto simp: check_signature_def resolve_sig_policy_def verify_minisign_def signature_verified_def Let_def
      split: if_splits sum.splits sig_policy.splits)

lemma update_feed_Updated:
  assumes "update_feed env url current = Updated db"
  shows "\<exists>answer raw. fe_get env url (Some (''\"'' @ db_version current @ ''\"'')) = Ok answer \<and> ha_body answer = Ok raw \<and>
    feed_url_allowed url (feed_insecure env) \<and> check_signature env url (feed_pubkey env) (feed_insecure env) raw = Ok () \<and>
    fe_parse env raw = Ok db \<and> (db_version current = [] \<or> db_version current < db_version db)"
  using assms
  by (auto simp: update_feed_def update_feed_inner_def Let_def feed_pubkey_def feed_insecure_def
      split: sum.splits if_splits)

text \<open>
  The indicator feed is replaced only by authentic data. Whenever \<open>update_feed\<close> returns a new database, it was parsed from
  the very bytes the server sent for the URL; the URL is https, unless the insecure opt-out is set; with a configured public key the
  signature file next to the URL verifies on those bytes under that key, and without one the opt-out is set; and the new version string
  is greater than the current one. This holds for every server, every signature library and every environment.
\<close>

theorem feed_update_authentic:
  assumes "update_feed env url current = Updated db"
  shows "\<exists>answer raw. fe_get env url (Some (''\"'' @ db_version current @ ''\"'')) = Ok answer \<and> ha_body answer = Ok raw \<and>
    fe_parse env raw = Ok db \<and> (feed_insecure env \<or> starts_with url ''https://'') \<and>
    (if feed_pubkey env = [] then feed_insecure env else signature_verified env url raw) \<and>
    (db_version current = [] \<or> db_version current < db_version db)"
  using update_feed_Updated [OF assms] check_signature_ok [of env url "feed_insecure env"]
  unfolding feed_url_allowed_def by fast

definition demo_db :: "string \<Rightarrow> ioc_database" where
  "demo_db v = empty_database\<lparr> db_version := v \<rparr>"

definition demo_feed :: "string \<Rightarrow> (string, string) feed_env" where
  "demo_feed v = \<lparr> fe_insecure_var = None, fe_pubkey_var = Some ''RWQ'', fe_client = Ok (),
     fe_get = (\<lambda>url etag. Ok \<lparr> ha_status = 200, ha_body = Ok (if etag = None then ''sig'' else ''raw'') \<rparr>),
     fe_show_status = (\<lambda>_. []), fe_key_decode = Ok, fe_sig_decode = Ok,
     fe_verify = (\<lambda>k m s. if m = ''raw'' \<and> s = ''sig'' then Ok () else Err ''bad''), fe_parse = (\<lambda>_. Ok (demo_db v)) \<rparr>"

lemma demo_feed_step:
  "update_feed (demo_feed v) ''https://f'' (demo_db w) =
    (if w \<noteq> [] \<and> v \<le> w then FeedFailed (''feed version not monotonic: '' @ v @ '' '' @ [CHR 0xE2, CHR 0x89, CHR 0xA4] @ '' '' @ w @
       '' (possible rollback attack)'') else Updated (demo_db v))"
proof -
  have "starts_with ''https://f'' ''https://''" "from_utf8_lossy ''sig'' = ''sig''" by code_simp+
  then show ?thesis
    by (simp add: update_feed_def update_feed_inner_def demo_feed_def demo_db_def feed_url_allowed_def http_success_def
        check_signature_def resolve_sig_policy_def verify_minisign_def Let_def)
qed

theorem feed_update_authentic_witness:
  "\<exists>answer raw. fe_get (demo_feed ''2'') ''https://f'' (Some (''\"'' @ db_version (demo_db ''1'') @ ''\"'')) = Ok answer \<and>
    ha_body answer = Ok raw \<and> fe_parse (demo_feed ''2'') raw = Ok (demo_db ''2'') \<and>
    (feed_insecure (demo_feed ''2'') \<or> starts_with ''https://f'' ''https://'') \<and>
    (if feed_pubkey (demo_feed ''2'') = [] then feed_insecure (demo_feed ''2'') else signature_verified (demo_feed ''2'') ''https://f'' raw) \<and>
    (db_version (demo_db ''1'') = [] \<or> db_version (demo_db ''1'') < db_version (demo_db ''2''))"
proof (rule feed_update_authentic)
  have "\<not> (''2'' :: string) \<le> ''1''" by code_simp
  then show "update_feed (demo_feed ''2'') ''https://f'' (demo_db ''1'') = Updated (demo_db ''2'')"
    by (simp add: demo_feed_step)
qed

text \<open>
  The rollback protection compares version strings, not versions. A signed feed served with version 1.9.0 replaces a database of
  version 1.10.0, and a signed feed with version 1.10.0 is refused as a rollback by a database of version 1.9.0.
\<close>

theorem feed_rollback_accepted:
  "update_feed (demo_feed ''1.9.0'') ''https://f'' (demo_db ''1.10.0'') = Updated (demo_db ''1.9.0'') \<and>
   (\<exists>e. update_feed (demo_feed ''1.10.0'') ''https://f'' (demo_db ''1.9.0'') = FeedFailed e)"
proof -
  have "\<not> (''1.9.0'' :: string) \<le> ''1.10.0''" "(''1.10.0'' :: string) \<le> ''1.9.0''" by code_simp+
  then show ?thesis by (simp add: demo_feed_step)
qed

text \<open>
  A baseline comparison reports exactly the drift: a path is added when only the directory has it, removed when only
  the baseline has it, modified when both have it with different hashes, and nothing is reported exactly when every path
  has the same hash in both. Directory hashes and stored baselines are maps, as the hypotheses ask.
\<close>

theorem baseline_reports_drift:
  assumes "hm_ok (hb_files baseline)" and "hm_ok current"
  shows "let d = compare_baseline baseline current; old = hm_get (hb_files baseline); new = hm_get current in
    (\<forall>p. (p \<in> set (bc_added d) \<longleftrightarrow> old p = None \<and> new p \<noteq> None) \<and>
         (p \<in> set (bc_removed d) \<longleftrightarrow> old p \<noteq> None \<and> new p = None) \<and>
         (p \<in> set (bc_modified d) \<longleftrightarrow> old p \<noteq> None \<and> new p \<noteq> None \<and> old p \<noteq> new p)) \<and>
    (bc_added d = [] \<and> bc_removed d = [] \<and> bc_modified d = [] \<longleftrightarrow> old = new)"
proof -
  let ?d = "compare_baseline baseline current"
  note get = hm_get_iff [OF assms(1)] hm_get_iff [OF assms(2)]
  have added: "p \<in> set (bc_added ?d) \<longleftrightarrow> hm_get (hb_files baseline) p = None \<and> hm_get current p \<noteq> None" for p
    by (auto simp: compare_baseline_def hm_get_None_iff)
  have removed: "p \<in> set (bc_removed ?d) \<longleftrightarrow> hm_get (hb_files baseline) p \<noteq> None \<and> hm_get current p = None" for p
    by (force simp: compare_baseline_def hm_get_None_iff)
  have modified: "p \<in> set (bc_modified ?d) \<longleftrightarrow> hm_get (hb_files baseline) p \<noteq> None \<and> hm_get current p \<noteq> None \<and>
      hm_get (hb_files baseline) p \<noteq> hm_get current p" for p
    by (force simp: compare_baseline_def get [symmetric] split: option.splits)
  have "bc_added ?d = [] \<and> bc_removed ?d = [] \<and> bc_modified ?d = [] \<longleftrightarrow>
      (\<forall>p. p \<notin> set (bc_added ?d) \<and> p \<notin> set (bc_removed ?d) \<and> p \<notin> set (bc_modified ?d))"
    by (simp add: all_conj_distrib)
  also have "\<dots> \<longleftrightarrow> (\<forall>p. hm_get (hb_files baseline) p = hm_get current p)"
    unfolding added removed modified by metis
  finally show ?thesis using added removed modified by (simp add: Let_def fun_eq_iff)
qed

theorem baseline_reports_drift_witness:
  "let d = compare_baseline (create_baseline (\<lambda>s. s) (Some [(''a'', FsFile (Some ''x'')), (''b'', FsFile (Some ''y''))]) ''t'')
      (hash_directory (\<lambda>s. s) (Some [(''a'', FsFile (Some ''z''))]))
   in bc_added d = [] \<and> ''b'' \<in> set (bc_removed d) \<and> ''a'' \<in> set (bc_modified d)"
proof -
  let ?b = "create_baseline (\<lambda>s. s) (Some [(''a'', FsFile (Some ''x'')), (''b'', FsFile (Some ''y''))]) ''t''"
  let ?c = "hash_directory (\<lambda>s. s) (Some [(''a'', FsFile (Some ''z''))])"
  have "hm_ok (hb_files ?b)" "hm_ok ?c" by (simp_all add: create_baseline_def hash_directory_ok)
  note drift = baseline_reports_drift [OF this, unfolded Let_def, THEN conjunct1]
  have "hm_get (hb_files ?b) ''a'' \<noteq> hm_get ?c ''a''" "hm_get (hb_files ?b) ''a'' \<noteq> None" "hm_get ?c ''a'' \<noteq> None"
    "hm_get (hb_files ?b) ''b'' \<noteq> None" "hm_get ?c ''b'' = None" "bc_added (compare_baseline ?b ?c) = []"
    by code_simp+
  with drift show ?thesis by (simp add: Let_def)
qed

end
