(* ===== verification/Checks.thy ===== *)
theory Checks
  imports AuditRun
begin

text \<open>
  Audit checks, \<open>secureops-checks/src/access_control.rs\<close> and \<open>execution.rs\<close>. Each finding of the source is a
  definition with its text; a check is the sequence of its guarded findings in source order. The shared IOC
  database handle is not consulted by these two categories.

  The lemmas give the conditions under which each check is silent, and the interpretation of \<open>check_contract\<close>
  shows that an audit over them reports only identifiers of their categories with the severity, layer and attack
  type that belong to the identifier.
\<close>

subsection \<open>Access control\<close>

definition sc_ac_001 :: "channel_config \<Rightarrow> audit_finding" where
  "sc_ac_001 ch =
    (set_nist (Some Evasion)
     \<circ> set_maestro (Some L3)
     \<circ> set_owasp_asi ''ASI01''
     \<circ> set_auto_fixable True
     \<circ> set_remediation ''Set dmPolicy to \"pairing\" for this channel''
     \<circ> set_evidence (''Channel \"'' @ ch_name ch @ ''\": dmPolicy = \"open\"'')
     \<circ> set_description ''Anyone can send direct messages to the agent without pairing, enabling prompt injection attacks.''
     \<circ> set_title (''Channel \"'' @ ch_name ch @ ''\" has open DM policy''))
    (builder ''SC-AC-001'' High ''access-control'')"

definition sc_ac_002 :: "channel_config \<Rightarrow> audit_finding" where
  "sc_ac_002 ch =
    (set_nist (Some Evasion)
     \<circ> set_maestro (Some L3)
     \<circ> set_owasp_asi ''ASI01''
     \<circ> set_auto_fixable True
     \<circ> set_remediation ''Set groupPolicy to \"allowlist\" for this channel''
     \<circ> set_evidence (''Channel \"'' @ ch_name ch @ ''\": groupPolicy = \"open\"'')
     \<circ> set_description ''Anyone in the group can interact with the agent without restrictions.''
     \<circ> set_title (''Channel \"'' @ ch_name ch @ ''\" has open group policy''))
    (builder ''SC-AC-002'' High ''access-control'')"

definition sc_ac_003 :: "channel_config \<Rightarrow> audit_finding" where
  "sc_ac_003 ch =
    (set_nist (Some Evasion)
     \<circ> set_maestro (Some L3)
     \<circ> set_owasp_asi ''ASI09''
     \<circ> set_remediation ''Replace \"*\" with specific user identifiers''
     \<circ> set_evidence (''Channel \"'' @ ch_name ch @ ''\": allowlist contains \"*\"'')
     \<circ> set_description ''Using \"*\" in the allowlist effectively makes the channel open to everyone.''
     \<circ> set_title (''Channel \"'' @ ch_name ch @ ''\" has wildcard in allowlist''))
    (builder ''SC-AC-003'' Medium ''access-control'')"

definition sc_ac_004 :: "channel_config \<Rightarrow> audit_finding" where
  "sc_ac_004 ch =
    (set_nist (Some Evasion)
     \<circ> set_maestro (Some L3)
     \<circ> set_owasp_asi ''ASI01''
     \<circ> set_auto_fixable True
     \<circ> set_remediation ''Set dmPolicy to \"pairing\" or configure an allowlist''
     \<circ> set_evidence (''Channel \"'' @ ch_name ch @ ''\": dmPolicy = \"'' @ unwrap_or (ch_dm_policy ch) ''undefined'' @ ''\", allowlist empty'')
     \<circ> set_description ''Neither pairing nor an allowlist is configured, leaving the channel unprotected.''
     \<circ> set_title (''Channel \"'' @ ch_name ch @ ''\" has no pairing and no allowlist''))
    (builder ''SC-AC-004'' High ''access-control'')"

definition sc_ac_005 :: "string option \<Rightarrow> nat \<Rightarrow> audit_finding" where
  "sc_ac_005 dm_scope n =
    (set_nist (Some Evasion)
     \<circ> set_maestro (Some L3)
     \<circ> set_owasp_asi ''ASI09''
     \<circ> set_auto_fixable True
     \<circ> set_remediation ''Set session.dmScope to \"per-channel-peer\"''
     \<circ> set_evidence (''session.dmScope = \"'' @ unwrap_or dm_scope ''undefined'' @ ''\", channels: '' @ show_nat n)
     \<circ> set_description ''session.dmScope is not \"per-channel-peer\". With multiple users, context may leak between conversations.''
     \<circ> set_title ''Session DM scope not isolated per user'')
    (builder ''SC-AC-005'' Medium ''access-control'')"

definition channel_findings :: "channel_config \<Rightarrow> audit_finding list" where
  "channel_findings ch =
    (if ch_dm_policy ch = Some ''open'' then [sc_ac_001 ch] else []) @
    (if ch_group_policy ch = Some ''open'' then [sc_ac_002 ch] else []) @
    (if (case ch_allowlist ch of None \<Rightarrow> False | Some a \<Rightarrow> list_ex (\<lambda>e. e = ''*'') a) then [sc_ac_003 ch] else [])"

definition pairing_findings :: "channel_config \<Rightarrow> audit_finding list" where
  "pairing_findings ch =
    (let allowlist_empty = (case ch_allowlist ch of None \<Rightarrow> True | Some a \<Rightarrow> a = [])
     in if ch_dm_policy ch \<noteq> Some ''pairing'' \<and> allowlist_empty then [sc_ac_004 ch] else [])"

definition access_control_run :: "audit_context \<Rightarrow> audit_options \<Rightarrow> audit_finding list" where
  "access_control_run ctx opts =
    (let channels = cx_channels ctx;
         dm_scope = Option.bind (oc_session (cx_config ctx)) se_dm_scope
     in concat (map channel_findings channels) @ concat (map pairing_findings channels) @
        (if dm_scope \<noteq> Some ''per-channel-peer'' \<and> length channels > 1 then [sc_ac_005 dm_scope (length channels)] else []))"

definition access_control_check :: check where
  "access_control_check = \<lparr> ck_category = ''access-control'', ck_run = access_control_run \<rparr>"

subsection \<open>Execution\<close>

definition sc_exec_001 :: "audit_finding" where
  "sc_exec_001 =
    (set_nist (Some Misuse)
     \<circ> set_maestro (Some L3)
     \<circ> set_owasp_asi ''ASI02''
     \<circ> set_references [''CVE-2026-25253'']
     \<circ> set_remediation ''Manually set exec.approvals to \"always\" in your OpenClaw settings (not auto-fixable - key not in OpenClaw config schema)''
     \<circ> set_evidence ''exec.approvals = \"off\"''
     \<circ> set_description ''exec.approvals is set to \"off\". The agent can execute arbitrary commands without user confirmation.''
     \<circ> set_title ''Execution approvals disabled'')
    (builder ''SC-EXEC-001'' Critical ''execution'')"

definition sc_exec_002 :: "audit_finding" where
  "sc_exec_002 =
    (set_nist (Some Misuse)
     \<circ> set_maestro (Some L3)
     \<circ> set_owasp_asi ''ASI05''
     \<circ> set_auto_fixable True
     \<circ> set_remediation ''Set tools.exec.host to \"sandbox\"''
     \<circ> set_evidence ''tools.exec.host = \"gateway\"''
     \<circ> set_description ''tools.exec.host is \"gateway\", meaning commands run directly on the host machine without isolation.''
     \<circ> set_title ''Commands execute on host, not in sandbox'')
    (builder ''SC-EXEC-002'' High ''execution'')"

definition sc_exec_003 :: "string \<Rightarrow> audit_finding" where
  "sc_exec_003 mode_label =
    (set_nist (Some Misuse)
     \<circ> set_maestro (Some L3)
     \<circ> set_owasp_asi ''ASI05''
     \<circ> set_remediation ''Manually set sandbox.mode to \"all\" in your OpenClaw settings (not auto-fixable - key not in OpenClaw config schema)''
     \<circ> set_evidence (''sandbox.mode = \"'' @ mode_label @ ''\"'')
     \<circ> set_description (''Sandbox mode is \"'' @ mode_label @ ''\". Not all commands run in a sandboxed environment.'')
     \<circ> set_title ''Sandbox mode not set to \"all\"'')
    (builder ''SC-EXEC-003'' Medium ''execution'')"

definition sc_exec_004 :: "string \<Rightarrow> audit_finding" where
  "sc_exec_004 svc_name =
    (set_nist (Some Misuse)
     \<circ> set_maestro (Some L3)
     \<circ> set_owasp_asi ''ASI05''
     \<circ> set_auto_fixable True
     \<circ> set_remediation ''Add read_only: true to the service configuration''
     \<circ> set_evidence (''Service \"'' @ svc_name @ ''\": read_only is not set'')
     \<circ> set_description ''Container filesystem is writable, allowing post-exploitation persistence.''
     \<circ> set_title (''Docker service \"'' @ svc_name @ ''\" not read-only''))
    (builder ''SC-EXEC-004'' Medium ''execution'')"

definition sc_exec_005 :: "string \<Rightarrow> audit_finding" where
  "sc_exec_005 svc_name =
    (set_nist (Some Misuse)
     \<circ> set_maestro (Some L3)
     \<circ> set_owasp_asi ''ASI05''
     \<circ> set_auto_fixable True
     \<circ> set_remediation ''Add cap_drop: [\"ALL\"] to the service configuration''
     \<circ> set_evidence (''Service \"'' @ svc_name @ ''\": cap_drop does not include \"ALL\"'')
     \<circ> set_description ''Container has not dropped all capabilities, increasing attack surface.''
     \<circ> set_title (''Docker service \"'' @ svc_name @ ''\" retains Linux capabilities''))
    (builder ''SC-EXEC-005'' Medium ''execution'')"

definition sc_exec_006 :: "string \<Rightarrow> audit_finding" where
  "sc_exec_006 svc_name =
    (set_nist (Some Misuse)
     \<circ> set_maestro (Some L3)
     \<circ> set_owasp_asi ''ASI05''
     \<circ> set_auto_fixable True
     \<circ> set_remediation ''Add security_opt: [\"no-new-privileges:true\"] to the service configuration''
     \<circ> set_evidence (''Service \"'' @ svc_name @ ''\": security_opt missing no-new-privileges:true'')
     \<circ> set_description ''Container does not have no-new-privileges set.''
     \<circ> set_title (''Docker service \"'' @ svc_name @ ''\" allows privilege escalation''))
    (builder ''SC-EXEC-006'' Medium ''execution'')"

definition sc_exec_007 :: "string \<Rightarrow> audit_finding" where
  "sc_exec_007 svc_name =
    (set_nist (Some Misuse)
     \<circ> set_maestro (Some L3)
     \<circ> set_owasp_asi ''ASI05''
     \<circ> set_auto_fixable True
     \<circ> set_remediation ''Remove network_mode: \"host\" and use bridge networking''
     \<circ> set_evidence (''Service \"'' @ svc_name @ ''\": network_mode = \"host\"'')
     \<circ> set_description ''Container shares the host network namespace, bypassing network isolation.''
     \<circ> set_title (''Docker service \"'' @ svc_name @ ''\" uses host network mode''))
    (builder ''SC-EXEC-007'' High ''execution'')"

definition service_findings :: "string \<times> docker_service_config \<Rightarrow> audit_finding list" where
  "service_findings s = (case s of (svc_name, svc) \<Rightarrow>
    (if ds_read_only svc \<noteq> Some True then [sc_exec_004 svc_name] else []) @
    (if \<not> (case ds_cap_drop svc of None \<Rightarrow> False | Some c \<Rightarrow> list_ex (\<lambda>v. v = ''ALL'') c)
     then [sc_exec_005 svc_name] else []) @
    (if \<not> (case ds_security_opt svc of None \<Rightarrow> False | Some c \<Rightarrow> list_ex (\<lambda>v. v = ''no-new-privileges:true'') c)
     then [sc_exec_006 svc_name] else []) @
    (if ds_network_mode svc = Some ''host'' then [sc_exec_007 svc_name] else []))"

definition execution_run :: "audit_context \<Rightarrow> audit_options \<Rightarrow> audit_finding list" where
  "execution_run ctx opts =
    (let config = cx_config ctx;
         sandbox_mode = Option.bind (oc_sandbox config) sb_mode
     in (if Option.bind (oc_exec config) ex_approvals = Some ''off'' then [sc_exec_001] else []) @
        (if Option.bind (Option.bind (oc_tools config) tc_exec) te_host = Some ''gateway'' then [sc_exec_002] else []) @
        (if sandbox_mode \<noteq> Some ''all'' then [sc_exec_003 (unwrap_or sandbox_mode ''undefined'')] else []) @
        (case cx_docker_compose ctx of None \<Rightarrow> []
         | Some dc \<Rightarrow> (case dc_services dc of None \<Rightarrow> []
             | Some services \<Rightarrow> concat (map service_findings services))))"

definition execution_check :: check where
  "execution_check = \<lparr> ck_category = ''execution'', ck_run = execution_run \<rparr>"

subsection \<open>The contract\<close>

lemmas ac_finding_defs = sc_ac_001_def sc_ac_002_def sc_ac_003_def sc_ac_004_def sc_ac_005_def
lemmas exec_finding_defs = sc_exec_001_def sc_exec_002_def sc_exec_003_def sc_exec_004_def sc_exec_005_def
  sc_exec_006_def sc_exec_007_def

text \<open>Identifier, severity, category, layer and attack type go together.\<close>

definition catalogue :: "(string \<times> severity \<times> string \<times> maestro_layer \<times> nist_attack_type) list" where
  "catalogue =
    [(''SC-EXEC-001'', Critical, ''execution'', L3, Misuse), (''SC-EXEC-002'', High, ''execution'', L3, Misuse),
     (''SC-EXEC-003'', Medium, ''execution'', L3, Misuse), (''SC-EXEC-004'', Medium, ''execution'', L3, Misuse),
     (''SC-EXEC-005'', Medium, ''execution'', L3, Misuse), (''SC-EXEC-006'', Medium, ''execution'', L3, Misuse),
     (''SC-EXEC-007'', High, ''execution'', L3, Misuse), (''SC-AC-001'', High, ''access-control'', L3, Evasion),
     (''SC-AC-002'', High, ''access-control'', L3, Evasion), (''SC-AC-003'', Medium, ''access-control'', L3, Evasion),
     (''SC-AC-004'', High, ''access-control'', L3, Evasion), (''SC-AC-005'', Medium, ''access-control'', L3, Evasion)]"

definition catalogued :: "audit_finding \<Rightarrow> bool" where
  "catalogued f \<longleftrightarrow> (\<exists>layer nist. f_maestro_layer f = Some layer \<and> f_nist_category f = Some nist \<and>
     (f_id f, f_severity f, f_category f, layer, nist) \<in> set catalogue)"

lemma catalogued_findings [simp]:
  "catalogued (sc_ac_001 ch)" "catalogued (sc_ac_002 ch)" "catalogued (sc_ac_003 ch)" "catalogued (sc_ac_004 ch)"
  "catalogued (sc_ac_005 d n)" "catalogued sc_exec_001" "catalogued sc_exec_002" "catalogued (sc_exec_003 m)"
  "catalogued (sc_exec_004 svc)" "catalogued (sc_exec_005 svc)" "catalogued (sc_exec_006 svc)" "catalogued (sc_exec_007 svc)"
  by (simp_all add: catalogued_def catalogue_def ac_finding_defs exec_finding_defs builder_defs)

lemma access_control_catalogued: "f \<in> set (access_control_run ctx opts) \<Longrightarrow> catalogued f"
  by (auto simp: access_control_run_def channel_findings_def pairing_findings_def Let_def split: if_splits)

lemma service_catalogued: "f \<in> set (service_findings s) \<Longrightarrow> catalogued f"
  by (auto simp: service_findings_def split: prod.splits if_splits)

lemma execution_catalogued: "f \<in> set (execution_run ctx opts) \<Longrightarrow> catalogued f"
  by (auto simp: execution_run_def Let_def service_catalogued split: if_splits option.splits)

interpretation category_checks: check_contract "[execution_check, access_control_check]" catalogued
  by unfold_locales
    (auto simp: execution_check_def access_control_check_def execution_catalogued access_control_catalogued)

text \<open>When a category is silent.\<close>

lemma channel_silent_iff:
  "channel_findings ch = [] \<longleftrightarrow> ch_dm_policy ch \<noteq> Some ''open'' \<and> ch_group_policy ch \<noteq> Some ''open'' \<and>
     (\<forall>a. ch_allowlist ch = Some a \<longrightarrow> ''*'' \<notin> set a)"
  by (auto simp: channel_findings_def list_ex_iff split: option.splits)

lemma pairing_silent_iff:
  "pairing_findings ch = [] \<longleftrightarrow> ch_dm_policy ch = Some ''pairing'' \<or> (\<exists>a. ch_allowlist ch = Some a \<and> a \<noteq> [])"
  by (auto simp: pairing_findings_def split: option.splits)

lemma access_control_silent_iff:
  "access_control_run ctx opts = [] \<longleftrightarrow>
    (\<forall>ch\<in>set (cx_channels ctx). channel_findings ch = [] \<and> pairing_findings ch = []) \<and>
    (length (cx_channels ctx) \<le> 1 \<or> Option.bind (oc_session (cx_config ctx)) se_dm_scope = Some ''per-channel-peer'')"
  by (auto simp: access_control_run_def Let_def)

lemma execution_silent_iff:
  "execution_run ctx opts = [] \<longleftrightarrow>
    Option.bind (oc_exec (cx_config ctx)) ex_approvals \<noteq> Some ''off'' \<and>
    Option.bind (Option.bind (oc_tools (cx_config ctx)) tc_exec) te_host \<noteq> Some ''gateway'' \<and>
    Option.bind (oc_sandbox (cx_config ctx)) sb_mode = Some ''all'' \<and>
    (\<forall>dc services s. cx_docker_compose ctx = Some dc \<longrightarrow> dc_services dc = Some services \<longrightarrow> s \<in> set services \<longrightarrow>
       service_findings s = [])"
  by (auto simp: execution_run_def Let_def split: option.splits)

text \<open>An audit over the two categories reports catalogued findings and at most the cross-layer one beside them.\<close>

lemma audit_catalogued:
  "f \<in> set (r_findings (run_audit ctx [execution_check, access_control_check] opts ts v)) \<Longrightarrow>
    catalogued f \<or> f_id f = ''SC-CROSS-001'' \<and> f_severity f = High"
  by (rule category_checks.audit_ok)

end
