(* ===== verification/CheckGateway.thy ===== *)
theory CheckGateway
  imports AuditRun
begin

text \<open>
  The gateway category, \<open>secureops-checks/src/gateway.rs\<close>. The port probe of \<open>secureops-fs\<close> is a parameter (is the port open on
  the loopback address). The relay port is computed in 16-bit arithmetic and wraps below 897, as in the release
  profile; a build with overflow checks panics there.
\<close>

definition sc_gw_001 :: "string option \<Rightarrow> audit_finding" where
  "sc_gw_001 bind =
    (set_nist (Some Evasion)
     \<circ> set_maestro (Some L4)
     \<circ> set_owasp_asi ''ASI03''
     \<circ> set_references [''CVE-2026-25253'']
     \<circ> set_auto_fixable True
     \<circ> set_remediation ''Set gateway.bind to \"loopback\" in openclaw.json''
     \<circ> set_evidence (''gateway.bind = \"'' @ unwrap_or bind ''undefined'' @ ''\"'')
     \<circ> set_description (''Gateway is bound to \"'' @ unwrap_or bind ''all interfaces'' @ ''\" instead of loopback. This exposes the gateway to network attacks.'')
     \<circ> set_title ''Gateway not bound to loopback'')
    (builder ''SC-GW-001'' Critical ''gateway'')"

definition sc_gw_002 :: "string option \<Rightarrow> audit_finding" where
  "sc_gw_002 auth_mode =
    (set_nist (Some Evasion)
     \<circ> set_maestro (Some L4)
     \<circ> set_owasp_asi ''ASI03''
     \<circ> set_references [''CVE-2026-25253'']
     \<circ> set_auto_fixable True
     \<circ> set_remediation ''Set gateway.auth.mode to \"password\" or \"token\" and configure a strong credential''
     \<circ> set_evidence (''gateway.auth.mode = \"'' @ unwrap_or auth_mode ''undefined'' @ ''\"'')
     \<circ> set_description (''Gateway authentication mode is \"'' @ unwrap_or auth_mode ''none'' @ ''\". Anyone with network access can control this instance.'')
     \<circ> set_title ''Gateway authentication disabled'')
    (builder ''SC-GW-002'' Critical ''gateway'')"

definition sc_gw_003 :: "nat \<Rightarrow> audit_finding" where
  "sc_gw_003 token_len =
    (set_nist (Some Evasion)
     \<circ> set_maestro (Some L4)
     \<circ> set_owasp_asi ''ASI03''
     \<circ> set_auto_fixable True
     \<circ> set_remediation ''Generate a token of at least 32 characters using a CSPRNG''
     \<circ> set_evidence (''Token length: '' @ show_nat token_len @ '' characters'')
     \<circ> set_description (''Gateway auth token/password is only '' @ show_nat token_len @ '' characters. Minimum 32 recommended.'')
     \<circ> set_title ''Weak gateway authentication token'')
    (builder ''SC-GW-003'' Medium ''gateway'')"

definition sc_gw_004a :: "u16 \<Rightarrow> audit_finding" where
  "sc_gw_004a port =
    (set_nist (Some Evasion)
     \<circ> set_maestro (Some L4)
     \<circ> set_owasp_asi ''ASI05''
     \<circ> set_remediation ''Start the gateway if it should be running''
     \<circ> set_evidence (''Port: '' @ show_nat (unat port) @ '', Status: closed/unreachable'')
     \<circ> set_description (''Port '' @ show_nat (unat port) @ '' is not currently accepting connections. Gateway may not be running.'')
     \<circ> set_title ''Gateway port not listening'')
    (builder ''SC-GW-004'' Info ''gateway'')"

definition sc_gw_004b :: "u16 \<Rightarrow> audit_finding" where
  "sc_gw_004b port =
    (set_nist (Some Evasion)
     \<circ> set_maestro (Some L4)
     \<circ> set_owasp_asi ''ASI05''
     \<circ> set_remediation ''Run audit with --deep flag for active network probing''
     \<circ> set_evidence (''Port: '' @ show_nat (unat port))
     \<circ> set_description (''Port '' @ show_nat (unat port) @ '' remote accessibility requires deep scan mode (--deep) for active probing.'')
     \<circ> set_title ''Gateway port accessibility check'')
    (builder ''SC-GW-004'' Info ''gateway'')"

definition sc_gw_005a :: "u16 \<Rightarrow> audit_finding" where
  "sc_gw_005a port =
    (set_nist (Some Evasion)
     \<circ> set_maestro (Some L4)
     \<circ> set_owasp_asi ''ASI05''
     \<circ> set_remediation ''No action needed if browser automation is not in use''
     \<circ> set_evidence (''Port: '' @ show_nat (unat port) @ '', Status: closed/unreachable'')
     \<circ> set_description (''Browser relay port '' @ show_nat (unat port) @ '' is not currently accepting connections.'')
     \<circ> set_title ''Browser relay port not listening'')
    (builder ''SC-GW-005'' Info ''gateway'')"

definition sc_gw_005b :: "u16 \<Rightarrow> audit_finding" where
  "sc_gw_005b port =
    (set_nist (Some Evasion)
     \<circ> set_maestro (Some L4)
     \<circ> set_owasp_asi ''ASI05''
     \<circ> set_remediation ''Run audit with --deep flag for active network probing''
     \<circ> set_evidence (''Port: '' @ show_nat (unat port))
     \<circ> set_description (''Browser relay port '' @ show_nat (unat port) @ '' accessibility requires deep scan mode.'')
     \<circ> set_title ''Browser relay port check'')
    (builder ''SC-GW-005'' Info ''gateway'')"

definition sc_gw_006 :: "audit_finding" where
  "sc_gw_006 =
    (set_nist (Some Evasion)
     \<circ> set_maestro (Some L4)
     \<circ> set_owasp_asi ''ASI03''
     \<circ> set_remediation ''Configure gateway.tls with a valid certificate and key''
     \<circ> set_evidence ''gateway.tls is not configured''
     \<circ> set_description ''Gateway traffic is unencrypted. Credentials and conversation data are transmitted in plaintext.''
     \<circ> set_title ''TLS not enabled on gateway'')
    (builder ''SC-GW-006'' Medium ''gateway'')"

definition sc_gw_007 :: "string option \<Rightarrow> audit_finding" where
  "sc_gw_007 mode =
    (set_nist (Some Evasion)
     \<circ> set_maestro (Some L4)
     \<circ> set_owasp_asi ''ASI05''
     \<circ> set_remediation ''Manually set gateway.mdns.mode to \"minimal\" (not auto-fixable - key not in OpenClaw config schema)''
     \<circ> set_evidence (''gateway.mdns.mode = \"'' @ unwrap_or mode ''undefined'' @ ''\"'')
     \<circ> set_description ''mDNS is broadcasting sensitive instance information on the local network.''
     \<circ> set_title ''mDNS broadcasting in full mode'')
    (builder ''SC-GW-007'' Medium ''gateway'')"

definition sc_gw_008 :: "string option \<Rightarrow> audit_finding" where
  "sc_gw_008 bind =
    (set_nist (Some Evasion)
     \<circ> set_maestro (Some L4)
     \<circ> set_owasp_asi ''ASI03''
     \<circ> set_references [''CVE-2026-25253'']
     \<circ> set_auto_fixable True
     \<circ> set_remediation ''Set gateway.trustedProxies to the IP of your reverse proxy, e.g., [\"127.0.0.1\"]''
     \<circ> set_evidence (''gateway.bind = \"'' @ unwrap_or bind ''all'' @ ''\", trustedProxies = []'')
     \<circ> set_description ''Gateway is network-accessible without trustedProxies set. All connections appear as localhost, bypassing authentication.''
     \<circ> set_title ''Reverse proxy without trustedProxies configuration'')
    (builder ''SC-GW-008'' Critical ''gateway'')"

definition sc_gw_009 :: "audit_finding" where
  "sc_gw_009 =
    (set_nist (Some Evasion)
     \<circ> set_maestro (Some L4)
     \<circ> set_owasp_asi ''ASI03''
     \<circ> set_auto_fixable True
     \<circ> set_remediation ''Set gateway.controlUi.dangerouslyDisableDeviceAuth to false''
     \<circ> set_evidence ''gateway.controlUi.dangerouslyDisableDeviceAuth = true''
     \<circ> set_description ''dangerouslyDisableDeviceAuth is enabled, bypassing all device-level authentication for the Control UI.''
     \<circ> set_title ''Device authentication disabled on Control UI'')
    (builder ''SC-GW-009'' Critical ''gateway'')"

definition sc_gw_010 :: "audit_finding" where
  "sc_gw_010 =
    (set_nist (Some Evasion)
     \<circ> set_maestro (Some L4)
     \<circ> set_owasp_asi ''ASI03''
     \<circ> set_auto_fixable True
     \<circ> set_remediation ''Set gateway.controlUi.allowInsecureAuth to false''
     \<circ> set_evidence ''gateway.controlUi.allowInsecureAuth = true''
     \<circ> set_description ''allowInsecureAuth is enabled, allowing weaker authentication methods.''
     \<circ> set_title ''Insecure authentication allowed on Control UI'')
    (builder ''SC-GW-010'' Medium ''gateway'')"


text \<open>The findings of an open port: severity and texts depend on the bind address.\<close>

definition is_loopback_bind :: "string \<Rightarrow> bool" where
  "is_loopback_bind bind_mode \<longleftrightarrow> bind_mode = ''loopback'' \<or> bind_mode = ''127.0.0.1'' \<or> bind_mode = ''localhost''"

definition sc_gw_004_open :: "u16 \<Rightarrow> string \<Rightarrow> audit_finding" where
  "sc_gw_004_open port bind_mode =
    (let is_loopback = is_loopback_bind bind_mode; p = show_nat (unat port) in
     (set_nist (Some Evasion)
      \<circ> set_maestro (Some L4)
      \<circ> set_owasp_asi ''ASI05''
      \<circ> set_auto_fixable (\<not> is_loopback)
      \<circ> set_remediation (if is_loopback then ''No action needed - loopback binding is secure''
          else ''Set gateway.bind to \"loopback\" to restrict access to localhost only'')
      \<circ> set_evidence (''Port: '' @ p @ '', Bind: '' @ bind_mode @ '', Status: open'')
      \<circ> set_description (if is_loopback
          then ''Port '' @ p @ '' is listening on loopback (localhost). This is the recommended configuration.''
          else ''Port '' @ p @ '' is listening and bound to \"'' @ bind_mode @ ''\". It may be accessible from other machines on the network.'')
      \<circ> set_title (if is_loopback then ''Gateway port open on loopback only''
          else ''Gateway port open and bound to non-loopback interface''))
     (builder ''SC-GW-004'' (if is_loopback then Low else High) ''gateway''))"

definition sc_gw_005_open :: "u16 \<Rightarrow> string \<Rightarrow> audit_finding" where
  "sc_gw_005_open port bind_mode =
    (let is_loopback = is_loopback_bind bind_mode; p = show_nat (unat port) in
     (set_nist (Some Evasion)
      \<circ> set_maestro (Some L4)
      \<circ> set_owasp_asi ''ASI05''
      \<circ> set_auto_fixable (\<not> is_loopback)
      \<circ> set_remediation (if is_loopback then ''No action needed''
          else ''Set gateway.bind to \"loopback\" to restrict the browser relay to localhost'')
      \<circ> set_evidence (''Port: '' @ p @ '', Bind: '' @ bind_mode @ '', Status: open'')
      \<circ> set_description (if is_loopback then ''Browser relay port '' @ p @ '' is listening on loopback. This is safe.''
          else ''Browser relay port '' @ p @ '' is listening and bound to \"'' @ bind_mode @ ''\". The browser automation surface may be reachable from the network.'')
      \<circ> set_title (if is_loopback then ''Browser relay port open on loopback only''
          else ''Browser relay port open and may be network-accessible''))
     (builder ''SC-GW-005'' (if is_loopback then Low else Medium) ''gateway''))"

definition gateway_auth_mode :: "gateway_config option \<Rightarrow> string option" where
  "gateway_auth_mode gw =
    or_opt (Option.bind (Option.bind gw gw_auth) ga_mode)
      (case Option.bind gw gw_auth_token of Some t \<Rightarrow> if t \<noteq> [] then Some ''token'' else None | None \<Rightarrow> None)"

definition gateway_token :: "gateway_config option \<Rightarrow> string" where
  "gateway_token gw =
    unwrap_or (or_opt (or_opt (Option.bind (Option.bind gw gw_auth) ga_token) (Option.bind (Option.bind gw gw_auth) ga_password))
      (Option.bind gw gw_auth_token)) []"

definition browser_relay_port :: "gateway_config option \<Rightarrow> u16" where
  "browser_relay_port gw = unwrap_or (Option.bind gw gw_port) 18789 - 897"

definition gateway_run :: "(u16 \<Rightarrow> bool) \<Rightarrow> audit_context \<Rightarrow> audit_options \<Rightarrow> audit_finding list" where
  "gateway_run probe_port ctx opts =
    (let deep = ao_deep opts;
         gw = oc_gateway (cx_config ctx);
         bind = Option.bind gw gw_bind;
         auth_mode = gateway_auth_mode gw;
         token_len = length (utf8_chars (gateway_token gw));
         port = unwrap_or (Option.bind gw gw_port) 18789;
         relay = browser_relay_port gw;
         bind_mode = unwrap_or bind ''all'';
         tls_on = unwrap_or (Option.bind (Option.bind gw gw_tls) tls_enabled) False;
         trusted_proxies_empty = unwrap_or (map_option (\<lambda>p. p = []) (Option.bind gw gw_trusted_proxies)) True;
         disable_device_auth = unwrap_or (Option.bind (Option.bind gw gw_control_ui) cu_dangerously_disable_device_auth) False;
         allow_insecure_auth = unwrap_or (Option.bind (Option.bind gw gw_control_ui) cu_allow_insecure_auth) False
     in (if bind \<noteq> Some ''loopback'' then [sc_gw_001 bind] else []) @
        (if auth_mode \<noteq> Some ''password'' \<and> auth_mode \<noteq> Some ''token'' then [sc_gw_002 auth_mode] else []) @
        (if (auth_mode = Some ''token'' \<or> auth_mode = Some ''password'') \<and> 0 < token_len \<and> token_len < 32
         then [sc_gw_003 token_len] else []) @
        (if deep then (if probe_port port then [sc_gw_004_open port bind_mode] else [sc_gw_004a port]) else [sc_gw_004b port]) @
        (if deep then (if probe_port relay then [sc_gw_005_open relay bind_mode] else [sc_gw_005a relay]) else [sc_gw_005b relay]) @
        (if \<not> tls_on then [sc_gw_006] else []) @
        (case Option.bind gw gw_mdns of None \<Rightarrow> []
         | Some m \<Rightarrow> if mdns_mode m \<noteq> Some ''minimal'' then [sc_gw_007 (mdns_mode m)] else []) @
        (if bind \<noteq> Some ''loopback'' \<and> trusted_proxies_empty then [sc_gw_008 bind] else []) @
        (if disable_device_auth then [sc_gw_009] else []) @
        (if allow_insecure_auth then [sc_gw_010] else []))"

definition gateway_check :: "(u16 \<Rightarrow> bool) \<Rightarrow> check" where
  "gateway_check probe_port = \<lparr> ck_category = ''gateway'', ck_run = gateway_run probe_port \<rparr>"

lemmas gw_finding_defs = sc_gw_001_def sc_gw_002_def sc_gw_003_def sc_gw_004a_def sc_gw_004b_def sc_gw_004_open_def
  sc_gw_005a_def sc_gw_005b_def sc_gw_005_open_def sc_gw_006_def sc_gw_007_def sc_gw_008_def sc_gw_009_def sc_gw_010_def

text \<open>A configured port below 897 makes the relay port wrap around: for port 443 the probed port is 65082.\<close>

lemma relay_port_wraps:
  assumes "Option.bind gw gw_port = Some 443" shows "browser_relay_port gw = 65082"
  using assms by (simp add: browser_relay_port_def)

end
