(* ===== verification/CheckFiles.thy ===== *)
theory CheckFiles
  imports AuditRun Intel MachineKey "HOL-Library.Multiset"
begin

text \<open>
  The audit categories that read files and consult the indicator database: \<open>patterns.rs\<close>, \<open>credentials.rs\<close>,
  \<open>supply_chain.rs\<close>, \<open>memory_integrity.rs\<close>, \<open>ioc.rs\<close> and \<open>multi_framework.rs\<close> of \<open>secureops-checks\<close>, with the shared
  pattern sources of \<open>secureops-core/src/patterns.rs\<close>. The regex engine (\<open>rx\<close>, with \<open>finds\<close> for the
  matches of a pattern), SHA-256 and Jaro-Winkler are parameters, collected in \<open>check_lib\<close>.

  The stack loop of \<open>scan_for_api_keys\<close> is shown to return for every directory tree, in the order of the recursive scan,
  exactly the files within depth five that contain a key.
\<close>

record check_lib =
  cx_rx :: regex_lib
  cx_find_iter :: "string \<Rightarrow> string \<Rightarrow> string list"
  cx_sha :: "string \<Rightarrow> string"
  cx_lower :: lower_table
  cx_jaro_winkler :: "string \<Rightarrow> string \<Rightarrow> f64"
  cx_home :: "string option"

definition rx_match :: "check_lib \<Rightarrow> string \<Rightarrow> string \<Rightarrow> bool" where
  "rx_match lib pattern text \<longleftrightarrow> cx_rx lib pattern False text = Some True"

function show_oct_nat :: "nat \<Rightarrow> string" where
  "show_oct_nat n = (if n < 8 then [digit_char n] else show_oct_nat (n div 8) @ [digit_char (n mod 8)])"
  by auto
termination by (relation "measure (\<lambda>n. n)") auto

declare show_oct_nat.simps [simp del]

definition show_oct :: "u32 \<Rightarrow> string" where
  "show_oct mode = show_oct_nat (unat mode)"

subsection \<open>Patterns\<close>

definition API_KEY_PATTERNS :: "string list" where
  "API_KEY_PATTERNS =
    [''sk-ant-[a-zA-Z0-9_-]{20,}'',
     ''sk-proj-[a-zA-Z0-9_-]{20,}'',
     ''sk-[a-zA-Z0-9_-]{20,}'',
     ''xoxb-[a-zA-Z0-9_-]{20,}'',
     ''xoxp-[a-zA-Z0-9_-]{20,}'']"

definition PROMPT_INJECTION_SOURCES :: "string list" where
  "PROMPT_INJECTION_SOURCES =
    [''ignore'' @ bsl @ ''s+previous'' @ bsl @ ''s+instructions'',
     ''you'' @ bsl @ ''s+are'' @ bsl @ ''s+now'',
     ''new'' @ bsl @ ''s+system'' @ bsl @ ''s+prompt'',
     ''forward'' @ bsl @ ''s+to'',
     ''send'' @ bsl @ ''s+to'',
     ''exfiltrate'']"

definition PROMPT_INJECTION_PATTERNS :: "string list" where
  "PROMPT_INJECTION_PATTERNS = map (\<lambda>p. ''(?i)'' @ p) PROMPT_INJECTION_SOURCES"

definition BASE64_BLOCK_PATTERN :: string where
  "BASE64_BLOCK_PATTERN = ''[A-Za-z0-9+/=]{50,}''"

record dangerous_skill_pattern =
  dp_pattern :: string
  dp_description :: string

definition DANGEROUS_SKILL_PATTERNS :: "dangerous_skill_pattern list" where
  "DANGEROUS_SKILL_PATTERNS = map (\<lambda>(p, d). \<lparr> dp_pattern = p, dp_description = d \<rparr>)
    [(''child_process'', ''child_process import''),
     (bsl @ ''.exec'' @ bsl @ ''s*'' @ bsl @ ''('', ''exec() call''),
     (bsl @ ''.spawn'' @ bsl @ ''s*'' @ bsl @ ''('', ''spawn() call''),
     (''eval'' @ bsl @ ''s*'' @ bsl @ ''('', ''eval() call''),
     (''Function'' @ bsl @ ''s*'' @ bsl @ ''('', ''Function() constructor''),
     (''webhook'' @ bsl @ ''.site'', ''webhook.site exfiltration endpoint''),
     (''reverse.shell'', ''reverse shell pattern''),
     (''(?i)base64.*decode'', ''base64 decode (obfuscation)''),
     (''curl'' @ bsl @ ''s+.*'' @ bsl @ ''|'' @ bsl @ ''s*sh'', ''curl pipe to shell''),
     (''wget'' @ bsl @ ''s+.*'' @ bsl @ ''|'' @ bsl @ ''s*sh'', ''wget pipe to shell''),
     (''~/'' @ bsl @ ''.openclaw'', ''access to openclaw config''),
     (''~/'' @ bsl @ ''.clawdbot'', ''access to legacy clawdbot config''),
     (''creds'' @ bsl @ ''.json'', ''credential file access''),
     (bsl @ ''.env'', ''.env file access''),
     (''auth-profiles'', ''auth-profiles access''),
     (''LD_PRELOAD'', ''LD_PRELOAD injection''),
     (''DYLD_INSERT'', ''DYLD_INSERT library injection''),
     (''NODE_OPTIONS'', ''NODE_OPTIONS injection'')]"

definition DANGEROUS_SKILL_PATTERN_SOURCES :: "string list" where
  "DANGEROUS_SKILL_PATTERN_SOURCES =
    [''child_process'',
     bsl @ ''.exec'' @ bsl @ ''s*'' @ bsl @ ''('',
     bsl @ ''.spawn'' @ bsl @ ''s*'' @ bsl @ ''('',
     ''eval'' @ bsl @ ''s*'' @ bsl @ ''('',
     ''Function'' @ bsl @ ''s*'' @ bsl @ ''('',
     ''webhook'' @ bsl @ ''.site'',
     ''reverse.shell'',
     ''base64.*decode'',
     ''curl'' @ bsl @ ''s+.*'' @ bsl @ ''|'' @ bsl @ ''s*sh'',
     ''wget'' @ bsl @ ''s+.*'' @ bsl @ ''|'' @ bsl @ ''s*sh'',
     ''~'' @ bsl @ ''/'' @ bsl @ ''.openclaw'',
     ''~'' @ bsl @ ''/'' @ bsl @ ''.clawdbot'',
     ''creds'' @ bsl @ ''.json'',
     bsl @ ''.env'',
     ''auth-profiles'',
     ''LD_PRELOAD'',
     ''DYLD_INSERT'',
     ''NODE_OPTIONS'']"

definition pattern_source :: "string \<Rightarrow> string" where
  "pattern_source pattern = unwrap_or (strip_prefix pattern ''(?i)'') pattern"

subsection \<open>Credentials\<close>

definition sc_cred_001 :: "u32 \<Rightarrow> audit_finding" where
  "sc_cred_001 perms =
    (set_nist (Some Privacy)
     \<circ> set_maestro (Some L4)
     \<circ> set_owasp_asi ''ASI03''
     \<circ> set_auto_fixable True
     \<circ> set_remediation ''Run: chmod 700 ~/.openclaw/''
     \<circ> set_evidence (''Permissions: '' @ show_oct perms @ '' (expected: 700)'')
     \<circ> set_description (''~/.openclaw/ directory is accessible by group/other users ('' @ show_oct perms @ '').'')
     \<circ> set_title ''State directory has excessive permissions'')
    (builder ''SC-CRED-001'' High ''credentials'')"

definition sc_cred_002 :: "u32 \<Rightarrow> audit_finding" where
  "sc_cred_002 perms =
    (set_nist (Some Privacy)
     \<circ> set_maestro (Some L4)
     \<circ> set_owasp_asi ''ASI03''
     \<circ> set_auto_fixable True
     \<circ> set_remediation ''Run: chmod 600 ~/.openclaw/openclaw.json''
     \<circ> set_evidence (''Permissions: '' @ show_oct perms @ '' (expected: 600)'')
     \<circ> set_description (''openclaw.json is readable by group/other users ('' @ show_oct perms @ '').'')
     \<circ> set_title ''Config file has excessive permissions'')
    (builder ''SC-CRED-002'' High ''credentials'')"

definition sc_cred_003 :: "audit_finding" where
  "sc_cred_003 =
    (set_nist (Some Privacy)
     \<circ> set_maestro (Some L4)
     \<circ> set_owasp_asi ''ASI03''
     \<circ> set_auto_fixable True
     \<circ> set_remediation ''Encrypt .env using secureops credential-hardening or use a secrets manager''
     \<circ> set_evidence ''.env file contains API key patterns''
     \<circ> set_description ''API keys are stored in plaintext in .env file. These are targeted by infostealers.''
     \<circ> set_title ''Plaintext API keys in .env file'')
    (builder ''SC-CRED-003'' High ''credentials'')"

definition sc_cred_004 :: "string \<Rightarrow> string \<Rightarrow> u32 \<Rightarrow> audit_finding" where
  "sc_cred_004 fname file_path perms =
    (set_nist (Some Privacy)
     \<circ> set_maestro (Some L4)
     \<circ> set_owasp_asi ''ASI03''
     \<circ> set_auto_fixable True
     \<circ> set_remediation (''Run: chmod 600 '' @ file_path)
     \<circ> set_evidence (file_path @ '': permissions '' @ show_oct perms)
     \<circ> set_description (''Credential file is readable by group/other users ('' @ show_oct perms @ '').'')
     \<circ> set_title (''Credential file \"'' @ fname @ ''\" has excessive permissions''))
    (builder ''SC-CRED-004'' High ''credentials'')"

definition sc_cred_005 :: "string \<Rightarrow> string \<Rightarrow> u32 \<Rightarrow> audit_finding" where
  "sc_cred_005 agent file_path perms =
    (set_nist (Some Privacy)
     \<circ> set_maestro (Some L4)
     \<circ> set_owasp_asi ''ASI03''
     \<circ> set_auto_fixable True
     \<circ> set_remediation (''Run: chmod 600 '' @ file_path)
     \<circ> set_evidence (file_path @ '': permissions '' @ show_oct perms)
     \<circ> set_description (''auth-profiles.json is readable by group/other users ('' @ show_oct perms @ '').'')
     \<circ> set_title (''Auth profiles for agent \"'' @ agent @ ''\" have excessive permissions''))
    (builder ''SC-CRED-005'' High ''credentials'')"

definition sc_cred_006 :: "string \<Rightarrow> string \<Rightarrow> audit_finding" where
  "sc_cred_006 fname file_path =
    (set_nist (Some Privacy)
     \<circ> set_maestro (Some L4)
     \<circ> set_owasp_asi ''ASI03''
     \<circ> set_auto_fixable True
     \<circ> set_remediation ''Encrypt credential files using secureops credential-hardening''
     \<circ> set_evidence (file_path @ '' contains OAuth token fields'')
     \<circ> set_description ''OAuth access/refresh tokens are stored in plaintext, vulnerable to infostealer theft.''
     \<circ> set_title (''OAuth tokens in plaintext in \"'' @ fname @ ''\"''))
    (builder ''SC-CRED-006'' Medium ''credentials'')"

definition sc_cred_007 :: "string \<Rightarrow> string \<Rightarrow> audit_finding" where
  "sc_cred_007 mem_file mem_path =
    (set_nist (Some Privacy)
     \<circ> set_maestro (Some L4)
     \<circ> set_owasp_asi ''ASI03''
     \<circ> set_auto_fixable True
     \<circ> set_remediation ''Remove API keys from memory files and redact using secureops credential-hardening''
     \<circ> set_evidence (mem_path @ '' contains API key patterns'')
     \<circ> set_description ''API keys are present in LLM memory files. These leak credentials into the model context.''
     \<circ> set_title (''API keys found in memory file \"'' @ mem_file @ ''\"''))
    (builder ''SC-CRED-007'' Critical ''credentials'')"

definition sc_cred_008 :: "string \<Rightarrow> audit_finding" where
  "sc_cred_008 m =
    (set_nist (Some Privacy)
     \<circ> set_maestro (Some L4)
     \<circ> set_owasp_asi ''ASI03''
     \<circ> set_remediation ''Remove or redact API keys from this file''
     \<circ> set_evidence (''File: '' @ m)
     \<circ> set_description (''API key pattern detected in '' @ basename m @ ''.'')
     \<circ> set_title ''API key found in configuration file'')
    (builder ''SC-CRED-008'' High ''credentials'')"

definition has_api_key :: "check_lib \<Rightarrow> string \<Rightarrow> bool" where
  "has_api_key lib content = list_ex (\<lambda>p. rx_match lib p content) API_KEY_PATTERNS"

definition file_matches :: "check_lib \<Rightarrow> audit_context \<Rightarrow> string \<Rightarrow> string \<Rightarrow> bool" where
  "file_matches lib ctx entry full_path \<longleftrightarrow>
    (ends_with entry ''.md'' \<or> ends_with entry ''.json'') \<and>
    (case cx_read_file ctx full_path of None \<Rightarrow> False | Some content \<Rightarrow> has_api_key lib content)"

definition recurse_into :: "audit_context \<Rightarrow> string \<Rightarrow> string \<Rightarrow> bool" where
  "recurse_into ctx entry full_path \<longleftrightarrow>
    \<not> starts_with entry ''.secureops'' \<and> entry \<noteq> ''node_modules'' \<and> cx_list_dir ctx full_path \<noteq> []"

definition full_path :: "string \<Rightarrow> string \<Rightarrow> string" where
  "full_path dir entry = dir @ ''/'' @ entry"

definition SCAN_MAX_DEPTH :: nat where "SCAN_MAX_DEPTH = 5"

definition dir_matches :: "check_lib \<Rightarrow> audit_context \<Rightarrow> string \<Rightarrow> string list" where
  "dir_matches lib ctx dir =
    map (full_path dir) (filter (\<lambda>e. file_matches lib ctx e (full_path dir e)) (cx_list_dir ctx dir))"

definition dir_children :: "audit_context \<Rightarrow> string \<Rightarrow> string list" where
  "dir_children ctx dir =
    map (full_path dir) (filter (\<lambda>e. recurse_into ctx e (full_path dir e)) (cx_list_dir ctx dir))"

lemma scan_loop_decreases:
  assumes "\<not> SCAN_MAX_DEPTH < depth"
  shows "(image_mset (\<lambda>(_, d). 6 - d) (mset (map (\<lambda>p. (p, depth + 1)) ps @ stack)),
      image_mset (\<lambda>(_, d). 6 - d) (mset ((dir, depth) # stack))) \<in> mult less_than"
proof -
  let ?rest = "image_mset (\<lambda>(_, d :: nat). 6 - d) (mset stack)"
  let ?new = "image_mset (\<lambda>(_, d :: nat). 6 - d) (mset (map (\<lambda>p. (p, depth + 1)) ps))"
  have "(?rest + ?new, ?rest + {# 6 - depth #}) \<in> mult less_than"
    using assms by (intro one_step_implies_mult) (auto simp: SCAN_MAX_DEPTH_def)
  then show ?thesis by (simp add: add.commute)
qed

text \<open>The loop on the explicit stack; the top of the stack is the head of the list.\<close>

function scan_loop :: "check_lib \<Rightarrow> audit_context \<Rightarrow> (string \<times> nat) list \<Rightarrow> string list \<Rightarrow> string list" where
  "scan_loop lib ctx [] found = found"
| "scan_loop lib ctx ((dir, depth) # stack) found =
    (if SCAN_MAX_DEPTH < depth then scan_loop lib ctx stack found
     else scan_loop lib ctx (map (\<lambda>p. (p, depth + 1)) (dir_children ctx dir) @ stack) (found @ dir_matches lib ctx dir))"
  by pat_completeness auto

termination
proof (relation "inv_image (mult less_than) (\<lambda>(_, _, stack, _). image_mset (\<lambda>(_, d). 6 - d) (mset stack))")
  show "wf (inv_image (mult less_than) (\<lambda>(_, _, stack, _). image_mset (\<lambda>(_, d :: nat). 6 - d) (mset stack)))"
    by (intro wf_inv_image wf_mult) simp
qed (simp_all add: scan_loop_decreases [simplified] subset_implies_mult)

definition scan_for_api_keys :: "check_lib \<Rightarrow> audit_context \<Rightarrow> string list" where
  "scan_for_api_keys lib ctx = scan_loop lib ctx [(cx_state_dir ctx, 0)] []"


definition CRED_MEMORY_FILES :: "string list" where
  "CRED_MEMORY_FILES = [''soul.md'', ''MEMORY.md'', ''SOUL.md'']"

definition perms_finding :: "audit_context \<Rightarrow> string \<Rightarrow> (u32 \<Rightarrow> audit_finding) \<Rightarrow> audit_finding list" where
  "perms_finding ctx path mk = (case cx_get_file_permissions ctx path of
     None \<Rightarrow> [] | Some perms \<Rightarrow> if is_group_or_other_accessible perms then [mk perms] else [])"

definition content_finding :: "audit_context \<Rightarrow> string \<Rightarrow> (string \<Rightarrow> bool) \<Rightarrow> audit_finding \<Rightarrow> audit_finding list" where
  "content_finding ctx path bad f = (case cx_read_file ctx path of
     None \<Rightarrow> [] | Some content \<Rightarrow> if bad content then [f] else [])"

definition oauth_content :: "string \<Rightarrow> bool" where
  "oauth_content content \<longleftrightarrow> contains content ''\"access_token\"'' \<or> contains content ''\"refresh_token\"''"

definition covered_above :: "string \<Rightarrow> bool" where
  "covered_above m \<longleftrightarrow> list_ex (contains m) CRED_MEMORY_FILES \<or> contains m ''.env''"

definition credentials_run :: "check_lib \<Rightarrow> audit_context \<Rightarrow> audit_options \<Rightarrow> audit_finding list" where
  "credentials_run lib ctx opts =
    (let state_dir = cx_state_dir ctx;
         config_path = state_dir @ ''/openclaw.json'';
         env_path = state_dir @ ''/.env'';
         creds_dir = state_dir @ ''/credentials'';
         cred_files = filter (\<lambda>f. ends_with f ''.json'') (cx_list_dir ctx creds_dir);
         agents_dir = state_dir @ ''/agents'';
         agents = cx_list_dir ctx agents_dir
     in perms_finding ctx state_dir sc_cred_001 @
        perms_finding ctx config_path sc_cred_002 @
        content_finding ctx env_path (has_api_key lib) sc_cred_003 @
        concat (map (\<lambda>f. let file_path = full_path creds_dir f in perms_finding ctx file_path (sc_cred_004 f file_path)) cred_files) @
        concat (map (\<lambda>agent. let p = full_path agents_dir agent @ ''/agent/auth-profiles.json'' in
          if cx_file_exists ctx p then perms_finding ctx p (sc_cred_005 agent p) else []) agents) @
        concat (map (\<lambda>f. let file_path = full_path creds_dir f in
          content_finding ctx file_path oauth_content (sc_cred_006 f file_path)) cred_files) @
        concat (map (\<lambda>agent. concat (map (\<lambda>mem_file. let mem_path = full_path (full_path agents_dir agent) mem_file in
          content_finding ctx mem_path (has_api_key lib) (sc_cred_007 mem_file mem_path)) CRED_MEMORY_FILES)) agents) @
        map sc_cred_008 (filter (\<lambda>m. \<not> covered_above m) (scan_for_api_keys lib ctx)))"

definition credentials_check :: "check_lib \<Rightarrow> check" where
  "credentials_check lib = \<lparr> ck_category = ''credentials'', ck_run = credentials_run lib \<rparr>"

subsection \<open>The recursive scan\<close>

text \<open>
  The reference for the stack loop: the matches of a directory, then the scans of its subdirectories, down to a number of levels.
\<close>

fun scan_tree :: "check_lib \<Rightarrow> audit_context \<Rightarrow> nat \<Rightarrow> string \<Rightarrow> string list" where
  "scan_tree lib ctx 0 dir = []"
| "scan_tree lib ctx (Suc n) dir = dir_matches lib ctx dir @ concat (map (scan_tree lib ctx n) (dir_children ctx dir))"

text \<open>\<open>scanned ctx n dir\<close>: the scan enters \<open>dir\<close>, \<open>n\<close> levels below the state directory.\<close>

inductive scanned :: "audit_context \<Rightarrow> nat \<Rightarrow> string \<Rightarrow> bool" for ctx where
  scanned_root: "scanned ctx 0 (cx_state_dir ctx)"
| scanned_child: "scanned ctx (Suc n) (full_path dir e)"
    if "scanned ctx n dir" "e \<in> set (cx_list_dir ctx dir)" "recurse_into ctx e (full_path dir e)"

inductive_cases scanned_0E: "scanned ctx 0 dir"
inductive_cases scanned_SucE: "scanned ctx (Suc n) dir"

lemma scan_loop_tree:
  "scan_loop lib ctx stack found = found @ concat (map (\<lambda>(dir, depth). scan_tree lib ctx (Suc SCAN_MAX_DEPTH - depth) dir) stack)"
proof (induction lib ctx stack found rule: scan_loop.induct)
  case (2 lib ctx dir depth stack found)
  then show ?case
    by (cases "Suc SCAN_MAX_DEPTH - depth") (auto simp: Suc_diff_le comp_def not_less)
qed simp

lemma set_dir_children:
  "set (dir_children ctx dir) = {full_path dir e |e. e \<in> set (cx_list_dir ctx dir) \<and> recurse_into ctx e (full_path dir e)}"
  by (auto simp: dir_children_def)

lemma set_dir_matches:
  "set (dir_matches lib ctx dir) = {full_path dir e |e. e \<in> set (cx_list_dir ctx dir) \<and> file_matches lib ctx e (full_path dir e)}"
  by (auto simp: dir_matches_def)

text \<open>A chain of subdirectories can be unrolled at its first or at its last step.\<close>

primrec descends :: "audit_context \<Rightarrow> nat \<Rightarrow> string \<Rightarrow> string \<Rightarrow> bool" where
  "descends ctx 0 dir d \<longleftrightarrow> d = dir"
| "descends ctx (Suc n) dir d \<longleftrightarrow> (\<exists>c\<in>set (dir_children ctx dir). descends ctx n c d)"

lemma descends_last: "descends ctx (Suc n) dir d \<longleftrightarrow> (\<exists>m. descends ctx n dir m \<and> d \<in> set (dir_children ctx m))"
  by (induction n arbitrary: dir) (simp, (subst descends.simps, auto) [1])

lemma scanned_descends: "scanned ctx n d \<longleftrightarrow> descends ctx n (cx_state_dir ctx) d"
proof (induction n arbitrary: d)
  case 0 show ?case by (auto elim: scanned_0E intro: scanned_root)
next
  case (Suc n)
  have "scanned ctx (Suc n) d \<longleftrightarrow> (\<exists>m. scanned ctx n m \<and> d \<in> set (dir_children ctx m))"
    by (auto simp: set_dir_children elim!: scanned_SucE intro: scanned_child)
  then show ?case unfolding Suc.IH descends_last .
qed

lemma in_scan_tree:
  "p \<in> set (scan_tree lib ctx n dir) \<longleftrightarrow> (\<exists>k<n. \<exists>d. descends ctx k dir d \<and> p \<in> set (dir_matches lib ctx d))"
proof (induction n arbitrary: dir)
  case (Suc n)
  have "p \<in> set (scan_tree lib ctx (Suc n) dir) \<longleftrightarrow> p \<in> set (dir_matches lib ctx dir) \<or>
      (\<exists>c\<in>set (dir_children ctx dir). \<exists>k<n. \<exists>d. descends ctx k c d \<and> p \<in> set (dir_matches lib ctx d))"
    by (simp add: Suc.IH)
  also have "\<dots> \<longleftrightarrow> (\<exists>k<Suc n. \<exists>d. descends ctx k dir d \<and> p \<in> set (dir_matches lib ctx d))"
    unfolding Ex_less_Suc2 descends.simps by blast
  finally show ?case .
qed simp

text \<open>
  The stack loop that looks for API keys is the recursive depth-first scan, for every file tree: the two return the same
  list. The files it reports are exactly the \<open>.md\<close> and \<open>.json\<close> entries, readable and with an API key, of the directories at most five
  levels below the state directory, where a level is left out if it is named \<open>node_modules\<close>, starts with \<open>.secureops\<close> or is empty.
\<close>

theorem api_key_scan_exact:
  "scan_for_api_keys lib ctx = scan_tree lib ctx 6 (cx_state_dir ctx) \<and>
   set (scan_for_api_keys lib ctx) =
     {full_path dir e |n dir e. n \<le> 5 \<and> scanned ctx n dir \<and> e \<in> set (cx_list_dir ctx dir) \<and> file_matches lib ctx e (full_path dir e)}"
proof
  show eq: "scan_for_api_keys lib ctx = scan_tree lib ctx 6 (cx_state_dir ctx)"
    by (simp add: scan_for_api_keys_def scan_loop_tree SCAN_MAX_DEPTH_def)
  show "set (scan_for_api_keys lib ctx) =
     {full_path dir e |n dir e. n \<le> 5 \<and> scanned ctx n dir \<and> e \<in> set (cx_list_dir ctx dir) \<and> file_matches lib ctx e (full_path dir e)}"
  proof (rule set_eqI)
    fix p
    have "p \<in> set (scan_for_api_keys lib ctx) \<longleftrightarrow>
        (\<exists>k<6. \<exists>d. scanned ctx k d \<and> p \<in> set (dir_matches lib ctx d))"
      unfolding eq in_scan_tree scanned_descends ..
    moreover have "k < 6 \<longleftrightarrow> k \<le> 5" for k :: nat by auto
    ultimately show "p \<in> set (scan_for_api_keys lib ctx) \<longleftrightarrow> p \<in> {full_path dir e |n dir e. n \<le> 5 \<and>
        scanned ctx n dir \<and> e \<in> set (cx_list_dir ctx dir) \<and> file_matches lib ctx e (full_path dir e)}"
      unfolding set_dir_matches mem_Collect_eq by metis
  qed
qed

end
