(* ===== verification/CheckContent.thy ===== *)
theory CheckContent
  imports CheckFiles
begin

text \<open>
  The audit categories \<open>supply_chain.rs\<close>, \<open>memory_integrity.rs\<close>, \<open>ioc.rs\<close> and \<open>multi_framework.rs\<close> of \<open>secureops-checks\<close>: skills,
  memory files, connection logs and workspace files against the indicator database and the shared patterns. The regex
  engine, SHA-256, Jaro-Winkler and the \<open>HOME\<close> variable come with \<open>check_lib\<close>.

  The lemmas relate the two host extractors: on every URL with a bracketed host the one of the IOC category loses the closing bracket.
\<close>

subsection \<open>Supply chain\<close>

definition join_parts :: "string \<Rightarrow> string list \<Rightarrow> string" where
  "join_parts base parts =
    foldl (\<lambda>out p. out @ ''/'' @ trim_end_char (CHR ''/'') (dropWhile (\<lambda>c. c = CHR ''/'') p)) (trim_end_char (CHR ''/'') base) parts"

definition sc_skill_001 :: "nat \<Rightarrow> string \<Rightarrow> audit_finding" where
  "sc_skill_001 n installed_list =
    (set_nist (Some Poisoning)
     \<circ> set_maestro (Some L7)
     \<circ> set_owasp_asi ''ASI04''
     \<circ> set_remediation ''Review each installed skill for necessity and trustworthiness''
     \<circ> set_evidence (''Installed skills: '' @ installed_list)
     \<circ> set_description (''Found '' @ show_nat n @ '' installed skills. Each skill has access to agent capabilities.'')
     \<circ> set_title (show_nat n @ '' skill(s) installed''))
    (builder ''SC-SKILL-001'' Info ''supply-chain'')"

definition sc_skill_002 :: "skill_metadata \<Rightarrow> string \<Rightarrow> string \<Rightarrow> string \<Rightarrow> string \<Rightarrow> audit_finding" where
  "sc_skill_002 skill description fname file_path source =
    (set_nist (Some Poisoning)
     \<circ> set_maestro (Some L7)
     \<circ> set_owasp_asi ''ASI04''
     \<circ> set_remediation ''Review the skill source code and remove if suspicious''
     \<circ> set_evidence (file_path @ '': matches '' @ source)
     \<circ> set_description (''Found '' @ description @ '' in '' @ fname @ ''. This may indicate malicious behavior.'')
     \<circ> set_title (''Dangerous pattern in skill \"'' @ sm_name skill @ ''\"''))
    (builder ''SC-SKILL-002'' High ''supply-chain'')"

definition sc_skill_003 :: "skill_metadata \<Rightarrow> string \<Rightarrow> string \<Rightarrow> string \<Rightarrow> audit_finding" where
  "sc_skill_003 skill fname file_hash campaign =
    (set_nist (Some Poisoning)
     \<circ> set_maestro (Some L7)
     \<circ> set_owasp_asi ''ASI04''
     \<circ> set_remediation (''Immediately remove this skill: openclaw skills remove '' @ sm_name skill)
     \<circ> set_evidence (''SHA-256: '' @ file_hash @ '', Campaign: '' @ campaign)
     \<circ> set_description (''File '' @ fname @ '' matches known malicious hash from campaign \"'' @ campaign @ ''\".'')
     \<circ> set_title (''Known malicious file in skill \"'' @ sm_name skill @ ''\"''))
    (builder ''SC-SKILL-003'' Critical ''supply-chain'')"

definition sc_skill_004 :: "skill_metadata \<Rightarrow> int \<Rightarrow> audit_finding" where
  "sc_skill_004 skill age =
    (set_nist (Some Poisoning)
     \<circ> set_maestro (Some L7)
     \<circ> set_owasp_asi ''ASI04''
     \<circ> set_remediation ''Review the skill carefully - new accounts are commonly used for typosquatting attacks''
     \<circ> set_evidence (''Account age: '' @ show_int age @ '' days'')
     \<circ> set_description ''The GitHub account that published this skill is less than 7 days old.''
     \<circ> set_title (''Skill \"'' @ sm_name skill @ ''\" from new GitHub account''))
    (builder ''SC-SKILL-004'' Medium ''supply-chain'')"

definition sc_skill_005 :: "skill_metadata \<Rightarrow> audit_finding" where
  "sc_skill_005 skill =
    (set_nist (Some Poisoning)
     \<circ> set_maestro (Some L7)
     \<circ> set_owasp_asi ''ASI04''
     \<circ> set_remediation ''Verify this is the intended skill and not a malicious impersonator''
     \<circ> set_evidence (''Skill name: '' @ sm_name skill)
     \<circ> set_description ''This skill name matches known ClawHavoc typosquatting patterns.''
     \<circ> set_title (''Skill \"'' @ sm_name skill @ ''\" matches typosquat pattern''))
    (builder ''SC-SKILL-005'' High ''supply-chain'')"

definition sc_skill_006 :: "skill_metadata \<Rightarrow> string \<Rightarrow> audit_finding" where
  "sc_skill_006 skill joined =
    (set_nist (Some Poisoning)
     \<circ> set_maestro (Some L7)
     \<circ> set_owasp_asi ''ASI04''
     \<circ> set_remediation ''Do not follow these prerequisites blindly. Review each step manually.''
     \<circ> set_evidence (''Patterns found: '' @ joined)
     \<circ> set_description (''README contains dangerous prerequisite patterns: '' @ joined)
     \<circ> set_title (''Skill \"'' @ sm_name skill @ ''\" has dangerous prerequisites''))
    (builder ''SC-SKILL-006'' High ''supply-chain'')"

definition dangerous_pattern_findings :: "check_lib \<Rightarrow> skill_metadata \<Rightarrow> string \<Rightarrow> string \<Rightarrow> string \<Rightarrow> audit_finding list" where
  "dangerous_pattern_findings lib skill fname file_path content =
    map (\<lambda>(idx, dsp). sc_skill_002 skill (dp_description dsp) fname file_path
          (if idx < length DANGEROUS_SKILL_PATTERN_SOURCES then DANGEROUS_SKILL_PATTERN_SOURCES ! idx else dp_pattern dsp))
      (filter (\<lambda>(_, dsp). rx_match lib (dp_pattern dsp) content) (List.enumerate 0 DANGEROUS_SKILL_PATTERNS))"

definition skill_file_findings :: "check_lib \<Rightarrow> ioc_database \<Rightarrow> audit_context \<Rightarrow> skill_metadata \<Rightarrow> string \<Rightarrow> string \<Rightarrow> audit_finding list" where
  "skill_file_findings lib db ctx skill skill_dir fname =
    (let file_path = join_parts skill_dir [fname] in
     case cx_read_file ctx file_path of
       None \<Rightarrow> []
     | Some content \<Rightarrow> if content = [] then [] else
         (let file_hash = hash_string (cx_sha lib) content in
          dangerous_pattern_findings lib skill fname file_path content @
          (case is_known_malicious_hash db file_hash of
             None \<Rightarrow> [] | Some campaign \<Rightarrow> [sc_skill_003 skill fname file_hash campaign])))"

definition skill_findings :: "check_lib \<Rightarrow> ioc_database \<Rightarrow> audit_context \<Rightarrow> skill_metadata \<Rightarrow> audit_finding list" where
  "skill_findings lib db ctx skill =
    (let skill_dir = join_parts (cx_state_dir ctx) [''skills'', sm_name skill] in
     concat (map (skill_file_findings lib db ctx skill skill_dir) (cx_list_dir ctx skill_dir)) @
     (case sm_github_account_age skill of None \<Rightarrow> [] | Some age \<Rightarrow> if age < 7 then [sc_skill_004 skill age] else []) @
     (if matches_typosquat (cx_lower lib) (cx_jaro_winkler lib) db (sm_name skill) then [sc_skill_005 skill] else []))"

definition prerequisite_findings :: "check_lib \<Rightarrow> ioc_database \<Rightarrow> audit_context \<Rightarrow> skill_metadata \<Rightarrow> audit_finding list" where
  "prerequisite_findings lib db ctx skill =
    (let readme_path = join_parts (join_parts (cx_state_dir ctx) [''skills'', sm_name skill]) [''README.md''] in
     case cx_read_file ctx readme_path of
       None \<Rightarrow> []
     | Some readme \<Rightarrow>
         (let dangerous_matches = matches_dangerous_pattern (cx_rx lib) db readme in
          if dangerous_matches = [] then [] else [sc_skill_006 skill (join '', '' dangerous_matches)]))"

definition supply_chain_run :: "check_lib \<Rightarrow> ioc_database \<Rightarrow> audit_context \<Rightarrow> audit_options \<Rightarrow> audit_finding list" where
  "supply_chain_run lib db ctx opts =
    (let skills = cx_skills ctx;
         installed_list = (if skills = [] then ''none'' else join '', '' (map sm_name skills))
     in sc_skill_001 (length skills) installed_list #
        concat (map (skill_findings lib db ctx) skills) @ concat (map (prerequisite_findings lib db ctx) skills))"

definition supply_chain_check :: "check_lib \<Rightarrow> ioc_database \<Rightarrow> check" where
  "supply_chain_check lib db = \<lparr> ck_category = ''supply-chain'', ck_run = supply_chain_run lib db \<rparr>"

subsection \<open>Memory integrity\<close>

definition URL_PATTERN :: string where
  "URL_PATTERN = ''https?://[^'' @ bsl @ ''s\"'' @ [CHR 0x27] @ ''<>]+''"

text \<open>What is common to the two extractors: the authority, without the user information.\<close>

definition url_host_port :: "string \<Rightarrow> string" where
  "url_host_port after_scheme =
    (let authority = takeWhile (\<lambda>c. c \<notin> set ''/?#'') after_scheme
     in case rsplit_once (CHR ''@'') authority of None \<Rightarrow> authority | Some (_, rest) \<Rightarrow> rest)"

definition before_colon :: "string \<Rightarrow> string" where
  "before_colon host_port = takeWhile (\<lambda>c. c \<noteq> CHR '':'') host_port"

definition mem_url_hostname :: "lower_table \<Rightarrow> string \<Rightarrow> string option" where
  "mem_url_hostname uni url =
    (case or_opt (strip_prefix url ''https://'') (strip_prefix url ''http://'') of
       None \<Rightarrow> None
     | Some after_scheme \<Rightarrow>
         (let host_port = url_host_port after_scheme;
              host = (if starts_with host_port ''['' then
                        (case str_find host_port '']'' of Some e \<Rightarrow> take (e + 1) host_port | None \<Rightarrow> host_port)
                      else before_colon host_port)
          in if host = [] then None else Some (to_lowercase uni host)))"

definition sc_mem_001 :: "string \<Rightarrow> audit_finding" where
  "sc_mem_001 agents_dir =
    (set_maestro (Some L2)
     \<circ> set_owasp_asi ''ASI06''
     \<circ> set_remediation ''No action needed if this is a fresh installation''
     \<circ> set_evidence (''Path: '' @ agents_dir)
     \<circ> set_description ''No agents directory exists to check memory integrity.''
     \<circ> set_title ''No agents directory found'')
    (builder ''SC-MEM-001'' Info ''memory'')"

definition sc_mem_002 :: "string \<Rightarrow> string \<Rightarrow> string \<Rightarrow> string \<Rightarrow> audit_finding" where
  "sc_mem_002 mem_file agent mem_path pattern =
    (set_nist (Some Poisoning)
     \<circ> set_maestro (Some L2)
     \<circ> set_owasp_asi ''ASI06''
     \<circ> set_remediation ''Remove or quarantine the affected memory file, then re-run \"secureops audit\"''
     \<circ> set_evidence (''File: '' @ mem_path @ '', Pattern: '' @ pattern_source pattern)
     \<circ> set_description (''Memory file contains prompt injection pattern: \"'' @ pattern_source pattern @ ''\". This may be a time-shifted logic bomb.'')
     \<circ> set_title (''Prompt injection detected in \"'' @ mem_file @ ''\" for agent \"'' @ agent @ ''\"''))
    (builder ''SC-MEM-002'' Critical ''memory'')"

definition sc_mem_003 :: "string \<Rightarrow> string \<Rightarrow> string \<Rightarrow> audit_finding" where
  "sc_mem_003 mem_file agent mem_path =
    (set_nist (Some Poisoning)
     \<circ> set_maestro (Some L2)
     \<circ> set_owasp_asi ''ASI06''
     \<circ> set_remediation ''Review and decode the base64 content to verify it is benign''
     \<circ> set_evidence (''File: '' @ mem_path)
     \<circ> set_description ''Memory file contains long base64-encoded blocks which may hide malicious instructions.''
     \<circ> set_title (''Base64 encoded content in \"'' @ mem_file @ ''\" for agent \"'' @ agent @ ''\"''))
    (builder ''SC-MEM-003'' Medium ''memory'')"

definition sc_mem_004 :: "string \<Rightarrow> string \<Rightarrow> string \<Rightarrow> string \<Rightarrow> audit_finding" where
  "sc_mem_004 mem_file mem_path hostname url =
    (set_nist (Some Evasion)
     \<circ> set_maestro (Some L2)
     \<circ> set_owasp_asi ''ASI10''
     \<circ> set_remediation ''Review if this URL is expected and add to allowlist if legitimate''
     \<circ> set_evidence (''File: '' @ mem_path @ '', URL: '' @ url)
     \<circ> set_description (''Memory file contains a URL to a non-whitelisted domain: '' @ hostname)
     \<circ> set_title (''Unexpected URL in memory file \"'' @ mem_file @ ''\"''))
    (builder ''SC-MEM-004'' Medium ''memory'')"

definition sc_mem_005 :: "string \<Rightarrow> string \<Rightarrow> u32 \<Rightarrow> audit_finding" where
  "sc_mem_005 mem_file mem_path perms =
    (set_nist (Some Privacy)
     \<circ> set_maestro (Some L2)
     \<circ> set_owasp_asi ''ASI06''
     \<circ> set_auto_fixable True
     \<circ> set_remediation (''Run: chmod 600 '' @ mem_path)
     \<circ> set_evidence (mem_path @ '': permissions '' @ show_oct perms)
     \<circ> set_description ''Memory file is readable by group/other users, enabling unauthorized modification.''
     \<circ> set_title (''Memory file \"'' @ mem_file @ ''\" has excessive permissions''))
    (builder ''SC-MEM-005'' Medium ''memory'')"

definition MEMORY_FILE_NAMES :: "string list" where
  "MEMORY_FILE_NAMES = [''soul.md'', ''SOUL.md'', ''MEMORY.md'']"

definition allowed_domains :: "audit_context \<Rightarrow> string list" where
  "allowed_domains ctx =
    unwrap_or (Option.bind (Option.bind (oc_secureops (cx_config ctx)) so_network) nw_egress_allowlist)
      [''api.anthropic.com'', ''api.openai.com'', ''generativelanguage.googleapis.com'']"

definition url_finding :: "check_lib \<Rightarrow> audit_context \<Rightarrow> string \<Rightarrow> string \<Rightarrow> string \<Rightarrow> audit_finding list" where
  "url_finding lib ctx mem_file mem_path url =
    (case mem_url_hostname (cx_lower lib) url of
       None \<Rightarrow> []
     | Some hostname \<Rightarrow> if list_ex (\<lambda>d. hostname = d \<or> ends_with hostname (''.'' @ d)) (allowed_domains ctx) then []
         else [sc_mem_004 mem_file mem_path hostname url])"

definition memory_file_findings :: "check_lib \<Rightarrow> audit_context \<Rightarrow> string \<Rightarrow> string \<Rightarrow> string \<Rightarrow> audit_finding list" where
  "memory_file_findings lib ctx agents_dir agent mem_file =
    (let mem_path = full_path (full_path agents_dir agent) mem_file in
     case cx_read_file ctx mem_path of
       None \<Rightarrow> []
     | Some content \<Rightarrow> if content = [] then [] else
         map (sc_mem_002 mem_file agent mem_path) (filter (\<lambda>p. rx_match lib p content) PROMPT_INJECTION_PATTERNS) @
         (if rx_match lib BASE64_BLOCK_PATTERN content then [sc_mem_003 mem_file agent mem_path] else []) @
         concat (map (url_finding lib ctx mem_file mem_path) (cx_find_iter lib URL_PATTERN content)))"

definition memory_perm_findings :: "audit_context \<Rightarrow> string \<Rightarrow> string \<Rightarrow> string \<Rightarrow> audit_finding list" where
  "memory_perm_findings ctx agents_dir agent mem_file =
    (let mem_path = full_path (full_path agents_dir agent) mem_file in
     if cx_file_exists ctx mem_path then perms_finding ctx mem_path (sc_mem_005 mem_file mem_path) else [])"

definition memory_integrity_run :: "check_lib \<Rightarrow> audit_context \<Rightarrow> audit_options \<Rightarrow> audit_finding list" where
  "memory_integrity_run lib ctx opts =
    (let agents_dir = cx_state_dir ctx @ ''/agents'' in
     if \<not> cx_file_exists ctx agents_dir then [sc_mem_001 agents_dir]
     else concat (map (\<lambda>agent.
            concat (map (memory_file_findings lib ctx agents_dir agent) MEMORY_FILE_NAMES) @
            concat (map (memory_perm_findings ctx agents_dir agent) MEMORY_FILE_NAMES)) (cx_list_dir ctx agents_dir)))"

definition memory_integrity_check :: "check_lib \<Rightarrow> check" where
  "memory_integrity_check lib = \<lparr> ck_category = ''memory'', ck_run = memory_integrity_run lib \<rparr>"

subsection \<open>Indicators of compromise\<close>

definition IP_PATTERN :: string where
  "IP_PATTERN = (let d = bsl @ ''d{1,3}''; dot = bsl @ ''.'' in bsl @ ''b('' @ d @ dot @ d @ dot @ d @ dot @ d @ '')'' @ bsl @ ''b'')"

definition substring_prefix :: "string \<Rightarrow> nat \<Rightarrow> string" where
  "substring_prefix s n = concat (take n (utf8_chars s))"

definition is_ascii_alphabetic :: "char \<Rightarrow> bool" where
  "is_ascii_alphabetic c \<longleftrightarrow> (let n = char_code c in 65 \<le> n \<and> n \<le> 90 \<or> 97 \<le> n \<and> n \<le> 122)"

definition is_ascii_digit :: "char \<Rightarrow> bool" where
  "is_ascii_digit c \<longleftrightarrow> (let n = char_code c in 48 \<le> n \<and> n \<le> 57)"

definition valid_scheme :: "string \<Rightarrow> bool" where
  "valid_scheme scheme \<longleftrightarrow> scheme \<noteq> [] \<and> is_ascii_alphabetic (hd scheme) \<and>
     list_all (\<lambda>c. is_ascii_alphabetic c \<or> is_ascii_digit c \<or> c \<in> set ''+-.'') scheme"

definition url_hostname :: "lower_table \<Rightarrow> string \<Rightarrow> string option" where
  "url_hostname uni source =
    (case str_find source ''://'' of
       None \<Rightarrow> None
     | Some idx \<Rightarrow>
         if \<not> valid_scheme (take idx source) then None
         else
           (let host_port = url_host_port (drop (idx + 3) source);
                host = (case strip_prefix host_port ''['' of
                    Some stripped \<Rightarrow> (case str_find stripped '']'' of Some close \<Rightarrow> take (close + 1) host_port | None \<Rightarrow> host_port)
                  | None \<Rightarrow> before_colon host_port)
            in if host = [] then None else Some (to_lowercase uni host)))"

definition expand_home :: "string option \<Rightarrow> string \<Rightarrow> string" where
  "expand_home home pattern = (case home of None \<Rightarrow> pattern
     | Some h \<Rightarrow> (case split_once (CHR ''~'') pattern of None \<Rightarrow> pattern | Some (a, b) \<Rightarrow> a @ h @ b))"

definition sc_ioc_000 :: "audit_finding" where
  "sc_ioc_000 =
    (set_maestro (Some L6)
     \<circ> set_owasp_asi ''ASI04''
     \<circ> set_remediation ''Ensure ioc/indicators.json exists and is valid JSON''
     \<circ> set_evidence ''IOC database file not found or corrupted''
     \<circ> set_description ''Could not load the IOC database. Threat intelligence checks skipped.''
     \<circ> set_title ''IOC database not available'')
    (builder ''SC-IOC-000'' Info ''ioc'')"

definition sc_ioc_001 :: "string \<Rightarrow> string \<Rightarrow> audit_finding" where
  "sc_ioc_001 ip log_entry =
    (set_nist (Some Evasion)
     \<circ> set_maestro (Some L7)
     \<circ> set_owasp_asi ''ASI04''
     \<circ> set_remediation ''Immediately investigate this connection. Block the IP and check for compromise.''
     \<circ> set_evidence (''IP: '' @ ip @ '', Log entry: '' @ substring_prefix log_entry 200)
     \<circ> set_description (''Outbound connection to known command-and-control IP: '' @ ip)
     \<circ> set_title ''Connection to known C2 infrastructure detected'')
    (builder ''SC-IOC-001'' Critical ''ioc'')"

definition sc_ioc_002 :: "skill_metadata \<Rightarrow> string \<Rightarrow> string \<Rightarrow> audit_finding" where
  "sc_ioc_002 skill hostname source =
    (set_nist (Some Poisoning)
     \<circ> set_maestro (Some L7)
     \<circ> set_owasp_asi ''ASI04''
     \<circ> set_remediation (''Remove this skill immediately: openclaw skills remove '' @ sm_name skill)
     \<circ> set_evidence (''Skill: '' @ sm_name skill @ '', Source: '' @ source)
     \<circ> set_description (''Skill source URL references a known malicious domain: '' @ hostname)
     \<circ> set_title (''Skill \"'' @ sm_name skill @ ''\" references malicious domain''))
    (builder ''SC-IOC-002'' Critical ''ioc'')"

definition sc_ioc_003 :: "skill_metadata \<Rightarrow> string \<Rightarrow> string \<Rightarrow> string \<Rightarrow> audit_finding" where
  "sc_ioc_003 skill fname hash campaign =
    (set_nist (Some Poisoning)
     \<circ> set_maestro (Some L7)
     \<circ> set_owasp_asi ''ASI04''
     \<circ> set_remediation ''Remove this skill and investigate for further compromise''
     \<circ> set_evidence (''SHA-256: '' @ hash @ '', Campaign: '' @ campaign)
     \<circ> set_description (''File '' @ fname @ '' matches known malicious hash from \"'' @ campaign @ ''\" campaign.'')
     \<circ> set_title (''Malicious file detected in skill \"'' @ sm_name skill @ ''\"''))
    (builder ''SC-IOC-003'' Critical ''ioc'')"

definition sc_ioc_004 :: "string \<Rightarrow> string \<Rightarrow> audit_finding" where
  "sc_ioc_004 expanded_path artifact_pattern =
    (set_nist (Some Privacy)
     \<circ> set_maestro (Some L4)
     \<circ> set_owasp_asi ''ASI10''
     \<circ> set_remediation ''Investigate this file immediately. Run a full malware scan.''
     \<circ> set_evidence (''File: '' @ expanded_path @ '', Pattern: '' @ artifact_pattern)
     \<circ> set_description ''Found suspicious file matching Atomic Stealer (AMOS) artifact pattern.''
     \<circ> set_title ''Potential infostealer artifact detected (macOS)'')
    (builder ''SC-IOC-004'' Critical ''ioc'')"

definition sc_ioc_005 :: "string \<Rightarrow> string \<Rightarrow> audit_finding" where
  "sc_ioc_005 expanded_path artifact_pattern =
    (set_nist (Some Privacy)
     \<circ> set_maestro (Some L4)
     \<circ> set_owasp_asi ''ASI10''
     \<circ> set_remediation ''Investigate this file immediately. Run a full malware scan.''
     \<circ> set_evidence (''File: '' @ expanded_path @ '', Pattern: '' @ artifact_pattern)
     \<circ> set_description ''Found suspicious file matching Redline/Lumma/Vidar infostealer artifact pattern.''
     \<circ> set_title ''Potential infostealer artifact detected (Linux)'')
    (builder ''SC-IOC-005'' Critical ''ioc'')"

definition ioc_log_findings :: "check_lib \<Rightarrow> ioc_database \<Rightarrow> string \<Rightarrow> audit_finding list" where
  "ioc_log_findings lib db log_entry =
    map (\<lambda>ip. sc_ioc_001 ip log_entry) (filter (is_known_c2 db) (cx_find_iter lib IP_PATTERN log_entry))"

definition ioc_source_findings :: "check_lib \<Rightarrow> ioc_database \<Rightarrow> skill_metadata \<Rightarrow> audit_finding list" where
  "ioc_source_findings lib db skill = (case sm_source skill of
     None \<Rightarrow> []
   | Some source \<Rightarrow> (case url_hostname (cx_lower lib) source of
       None \<Rightarrow> []
     | Some hostname \<Rightarrow> if is_known_malicious_domain db hostname then [sc_ioc_002 skill hostname source] else []))"

definition ioc_hash_findings :: "check_lib \<Rightarrow> ioc_database \<Rightarrow> audit_context \<Rightarrow> skill_metadata \<Rightarrow> audit_finding list" where
  "ioc_hash_findings lib db ctx skill =
    (let skill_dir = full_path (cx_state_dir ctx @ ''/skills'') (sm_name skill) in
     concat (map (\<lambda>fname. case cx_read_file ctx (full_path skill_dir fname) of
         None \<Rightarrow> []
       | Some content \<Rightarrow> (let h = hash_string (cx_sha lib) content in case is_known_malicious_hash db h of
           None \<Rightarrow> [] | Some campaign \<Rightarrow> [sc_ioc_003 skill fname h campaign])) (cx_list_dir ctx skill_dir)))"

definition ioc_artifact_findings ::
  "check_lib \<Rightarrow> ioc_database \<Rightarrow> audit_context \<Rightarrow> string \<Rightarrow> (string \<Rightarrow> string \<Rightarrow> audit_finding) \<Rightarrow> audit_finding list" where
  "ioc_artifact_findings lib db ctx platform mk =
    concat (map (\<lambda>artifact_pattern. let expanded_path = expand_home (cx_home lib) artifact_pattern in
      if cx_file_exists ctx expanded_path then [mk expanded_path artifact_pattern] else []) (infostealer_artifacts_for db platform))"

definition ioc_run :: "check_lib \<Rightarrow> ioc_database \<Rightarrow> audit_context \<Rightarrow> audit_options \<Rightarrow> audit_finding list" where
  "ioc_run lib db ctx opts =
    (if db_version db = ''0.0.0'' then [sc_ioc_000]
     else
       (let base = hd (split_char (CHR ''-'') (cx_platform ctx)) in
        concat (map (ioc_log_findings lib db) (cx_connection_logs ctx)) @
        concat (map (ioc_source_findings lib db) (cx_skills ctx)) @
        concat (map (ioc_hash_findings lib db ctx) (cx_skills ctx)) @
        (if base = ''darwin'' then ioc_artifact_findings lib db ctx ''darwin'' sc_ioc_004 else []) @
        (if base = ''linux'' then ioc_artifact_findings lib db ctx ''linux'' sc_ioc_005 else [])))"

definition ioc_check :: "check_lib \<Rightarrow> ioc_database \<Rightarrow> check" where
  "ioc_check lib db = \<lparr> ck_category = ''ioc'', ck_run = ioc_run lib db \<rparr>"

subsection \<open>Multi-framework controls\<close>

definition sc_kill_001 :: "string \<Rightarrow> audit_finding" where
  "sc_kill_001 path =
    (set_nist (Some Misuse)
     \<circ> set_maestro (Some L5)
     \<circ> set_owasp_asi ''ASI10''
     \<circ> set_remediation ''Run \"secureops kill --deactivate\" to deactivate''
     \<circ> set_evidence (''Kill switch file: '' @ path)
     \<circ> set_description ''The SecureOps kill switch is currently active. All agent operations should be suspended.''
     \<circ> set_title ''Kill switch is active'')
    (builder ''SC-KILL-001'' Info ''kill-switch'')"

definition sc_trust_001 :: "string \<Rightarrow> string \<Rightarrow> audit_finding" where
  "sc_trust_001 cog_file pattern =
    (set_nist (Some Poisoning)
     \<circ> set_maestro (Some L2)
     \<circ> set_owasp_asi ''ASI06''
     \<circ> set_references [''AML.CS0051'']
     \<circ> set_remediation ''Review and clean this file. Run emergency-response.sh if compromise suspected.''
     \<circ> set_evidence (''File: '' @ cog_file @ '', Pattern: '' @ pattern_source pattern)
     \<circ> set_description (''Workspace cognitive file contains prompt injection pattern: \"'' @ pattern_source pattern @ ''\". This may indicate context poisoning (MITRE ATLAS AML.CS0051).'')
     \<circ> set_title (''Injected instructions in '' @ cog_file))
    (builder ''SC-TRUST-001'' Critical ''memory-trust'')"

definition sc_ctrl_001 :: "audit_finding" where
  "sc_ctrl_001 =
    (set_nist (Some Evasion)
     \<circ> set_maestro (Some L3)
     \<circ> set_owasp_asi ''ASI01''
     \<circ> set_references [''AML.CS0051'']
     \<circ> set_remediation ''Customize controlTokens in openclaw.json to non-default values''
     \<circ> set_evidence ''No \"controlTokens\" key in openclaw.json''
     \<circ> set_description ''Control tokens have not been customized. Attackers can spoof model control tokens (MITRE AML.CS0051).''
     \<circ> set_title ''Default control tokens in use'')
    (builder ''SC-CTRL-001'' Medium ''control-tokens'')"

definition sc_degrad_001 :: "audit_finding" where
  "sc_degrad_001 =
    (set_nist (Some Misuse)
     \<circ> set_maestro (Some L5)
     \<circ> set_owasp_asi ''ASI08''
     \<circ> set_remediation ''Set secureops.failureMode to \"block_all\", \"safe_mode\", or \"read_only\"''
     \<circ> set_evidence ''secureops.failureMode is not set''
     \<circ> set_description ''No failureMode is set. When issues are detected, the system has no predefined degradation strategy.''
     \<circ> set_title ''No graceful degradation mode configured'')
    (builder ''SC-DEGRAD-001'' Low ''degradation'')"

definition COGNITIVE_FILES :: "string list" where
  "COGNITIVE_FILES = [''SOUL.md'', ''IDENTITY.md'', ''TOOLS.md'', ''AGENTS.md'', ''SECURITY.md'']"

definition trust_findings :: "check_lib \<Rightarrow> audit_context \<Rightarrow> string \<Rightarrow> audit_finding list" where
  "trust_findings lib ctx cog_file = (case cx_read_file ctx (full_path (cx_state_dir ctx) cog_file) of
     None \<Rightarrow> []
   | Some content \<Rightarrow> if content = [] then []
       else map (sc_trust_001 cog_file) (filter (\<lambda>p. rx_match lib p content) PROMPT_INJECTION_PATTERNS))"

definition multi_framework_run :: "check_lib \<Rightarrow> audit_context \<Rightarrow> audit_options \<Rightarrow> audit_finding list" where
  "multi_framework_run lib ctx opts =
    (let killswitch_path = cx_state_dir ctx @ ''/.secureops/killswitch'' in
     (if cx_file_exists ctx killswitch_path then [sc_kill_001 killswitch_path] else []) @
     concat (map (trust_findings lib ctx) COGNITIVE_FILES) @
     content_finding ctx (cx_state_dir ctx @ ''/openclaw.json'') (\<lambda>content. \<not> contains content ''\"controlTokens\"'') sc_ctrl_001 @
     (if Option.bind (oc_secureops (cx_config ctx)) so_failure_mode = None then [sc_degrad_001] else []))"

definition multi_framework_check :: "check_lib \<Rightarrow> check" where
  "multi_framework_check lib = \<lparr> ck_category = ''multi-framework'', ck_run = multi_framework_run lib \<rparr>"

subsection \<open>The two host extractors\<close>

lemma url_host_port_plain:
  assumes "list_all (\<lambda>c. c \<notin> set ''/?#@'') h" shows "url_host_port (h @ ''/'' @ path) = h"
proof -
  have "takeWhile (\<lambda>c. c \<notin> set ''/?#'') (h @ ''/'' @ path) = h"
    using assms by (subst takeWhile_append2) (auto simp: list_all_iff)
  moreover have "rsplit_once (CHR ''@'') h = None" using assms by (auto simp: rsplit_once_None list_all_iff)
  ultimately show ?thesis by (simp add: url_host_port_def)
qed

text \<open>
  The IOC category cuts a bracketed host one character short, so the address of an IPv6 literal never equals an indicator that is
  written with its brackets; the memory category keeps the bracket.
\<close>

lemma ipv6_host_extraction:
  "url_hostname uni ''https://[::1]/x'' = Some ''[::1''" "mem_url_hostname uni ''https://[::1]/x'' = Some ''[::1]''"
proof -
  have *: "url_host_port (''[::1]'' @ ''/'' @ ''x'') = ''[::1]''" by (rule url_host_port_plain) simp
  have low: "to_lowercase uni ''[::1'' = ''[::1''" "to_lowercase uni ''[::1]'' = ''[::1]''"
    by (subst to_lowercase_ascii, code_simp, code_simp)+
  show "url_hostname uni ''https://[::1]/x'' = Some ''[::1''" "mem_url_hostname uni ''https://[::1]/x'' = Some ''[::1]''"
    using * low
    by (simp_all add: url_hostname_def mem_url_hostname_def valid_scheme_def is_ascii_alphabetic_def char_code_def
        starts_with_def strip_prefix_def or_opt_def)
qed

end
