(* ===== verification/CostCheck.thy ===== *)
theory CostCheck
  imports CheckContent Hex Floats
begin

text \<open>
  The cost-exposure category (\<open>cost_exposure.rs\<close> of \<open>secureops-checks\<close>) with its own JSON parser. The parser walks a byte slice by a
  position; here it walks the rest of the slice. A number is read as \<open>str::parse::<f64>\<close> does: the decimal
  value rounded to the nearest double. The printing of a double with all its digits is a parameter, \<open>{:.2}\<close> is defined.

  The recursive descent takes fuel, one unit per nested call. The lemmas show that each call returns a strictly shorter rest, hence
  that the fuel \<open>parse_log_line\<close> gives, one more than twice the length of the line, is never exhausted: more fuel does not
  change a result.
\<close>

subsection \<open>JSON values\<close>

datatype json_value =
    Object "(string \<times> json_value) list"
  | Array "json_value list"
  | StringV string
  | Number f64
  | Bool bool
  | Null

definition tab :: char where "tab = byte 9"
definition dquote :: char where "dquote = byte 34"
definition backslash :: char where "backslash = byte 92"

definition skip_ws :: "string \<Rightarrow> string" where
  "skip_ws s = dropWhile (\<lambda>c. c \<in> {CHR '' '', tab, newline, carriage_return}) s"

definition parse_bool :: "string \<Rightarrow> (json_value \<times> string) option" where
  "parse_bool s =
    (if starts_with s ''true'' then Some (Bool True, drop 4 s)
     else if starts_with s ''false'' then Some (Bool False, drop 5 s) else None)"

definition parse_null :: "string \<Rightarrow> (json_value \<times> string) option" where
  "parse_null s = (if starts_with s ''null'' then Some (Null, drop 4 s) else None)"

text \<open>
  The shape the scanner of \<open>parse_number\<close> cuts out, and \<open>parse::<f64>\<close> on it: at least one digit before the exponent, and at least
  one digit in the exponent if there is one.
\<close>

definition span :: "(char \<Rightarrow> bool) \<Rightarrow> string \<Rightarrow> string \<times> string" where
  "span P s = (takeWhile P s, dropWhile P s)"

definition parse_f64 :: "bool \<Rightarrow> string \<Rightarrow> string \<Rightarrow> (bool \<times> string) option \<Rightarrow> f64 option" where
  "parse_f64 neg int_part fr ex =
    (if int_part @ fr = [] \<or> map_option snd ex = Some [] then None
     else
       (let m = unwrap_or (digits_val 0 (int_part @ fr)) 0;
            e = (case ex of None \<Rightarrow> 0 | Some (eneg, ds) \<Rightarrow> (let z = int (unwrap_or (digits_val 0 ds) 0) in if eneg then - z else z));
            x = rat_of_nat m * 10 powi (e - int (length fr))
        in Some (round64 (if neg then - x else x))))"

definition scan_sign :: "string \<Rightarrow> bool \<times> string" where
  "scan_sign s = (case s of c # r \<Rightarrow> if c = CHR ''-'' then (True, r) else (False, s) | [] \<Rightarrow> (False, []))"

definition scan_fraction :: "string \<Rightarrow> string \<times> string" where
  "scan_fraction s = (case s of c # r \<Rightarrow> if c = CHR ''.'' then span is_ascii_digit r else ([], s) | [] \<Rightarrow> ([], []))"

definition scan_exponent_sign :: "string \<Rightarrow> bool \<times> string" where
  "scan_exponent_sign s = (case s of c # r \<Rightarrow> if c = CHR ''+'' then (False, r) else scan_sign s | [] \<Rightarrow> (False, []))"

definition scan_exponent :: "string \<Rightarrow> (bool \<times> string) option \<times> string" where
  "scan_exponent s = (case s of
     [] \<Rightarrow> (None, [])
   | c # r \<Rightarrow> if c = CHR ''e'' \<or> c = CHR ''E'' then
         (let (eneg, r1) = scan_exponent_sign r; (ds, r2) = span is_ascii_digit r1 in (Some (eneg, ds), r2))
       else (None, s))"

definition parse_number :: "string \<Rightarrow> (json_value \<times> string) option" where
  "parse_number s =
    (let (neg, s1) = scan_sign s;
         (int_part, s2) = span is_ascii_digit s1;
         (fr, s3) = scan_fraction s2;
         (ex, s4) = scan_exponent s3
     in map_option (\<lambda>x. (Number x, s4)) (parse_f64 neg int_part fr ex))"

subsection \<open>Strings\<close>

definition from_str_radix16_4 :: "string \<Rightarrow> nat option" where
  "from_str_radix16_4 hex =
    (let ds = (case hex of c # r \<Rightarrow> if c = CHR ''+'' then r else hex | [] \<Rightarrow> [])
     in foldl (\<lambda>acc c. case (acc, hex_val c) of (Some n, Some d) \<Rightarrow> Some (16 * n + d) | _ \<Rightarrow> None) (Some 0) ds)"

text \<open>\<open>char::from_u32\<close> of at most four hexadecimal digits, with the replacement character for surrogates, as UTF-8.\<close>

definition push_code :: "nat \<Rightarrow> string" where
  "push_code code =
    (if code < 128 then [byte code]
     else if code < 2048 then [byte (192 + code div 64), byte (128 + code mod 64)]
     else if 55296 \<le> code \<and> code < 57344 then [byte 239, byte 191, byte 189]
     else [byte (224 + code div 4096), byte (128 + code div 64 mod 64), byte (128 + code mod 64)])"

definition simple_escape :: "char \<Rightarrow> char option" where
  "simple_escape c = map_of [(dquote, dquote), (backslash, backslash), (CHR ''/'', CHR ''/''), (CHR ''b'', byte 8),
     (CHR ''f'', byte 12), (CHR ''n'', newline), (CHR ''r'', carriage_return), (CHR ''t'', tab)] c"

text \<open>The characters after a backslash: what is pushed, and the rest.\<close>

definition escape :: "string \<Rightarrow> (string \<times> string) option" where
  "escape s = (case s of
     [] \<Rightarrow> None
   | c # r \<Rightarrow> (case simple_escape c of
       Some e \<Rightarrow> Some ([e], r)
     | None \<Rightarrow>
         if c = CHR ''u'' then
           (if length r < 4 then None
            else map_option (\<lambda>code. (push_code code, drop 4 r))
              (if utf8_valid (take 4 r) then from_str_radix16_4 (take 4 r) else None))
         else None))"

lemma escape_shorter: "escape s = Some (out, r) \<Longrightarrow> length r < length s"
  by (auto simp: escape_def split: list.splits option.splits if_splits)

function string_body :: "string \<Rightarrow> string \<Rightarrow> (string \<times> string) option" where
  "string_body [] out = None"
| "string_body (c # r) out =
    (if c = dquote then Some (out, r)
     else if c = backslash then (case escape r of None \<Rightarrow> None | Some (e, r') \<Rightarrow> string_body r' (out @ e))
     else
       (let scalar = c # takeWhile is_cont r
        in if utf8_valid scalar then string_body (dropWhile is_cont r) (out @ scalar) else None))"
  by pat_completeness auto
termination
  by (relation "measure (\<lambda>(s, _). length s)") (auto dest: escape_shorter simp: le_imp_less_Suc length_dropWhile_le)

definition parse_string :: "string \<Rightarrow> (string \<times> string) option" where
  "parse_string s = string_body (drop 1 s) []"

subsection \<open>Values\<close>

text \<open>The key of a field and its colon.\<close>

definition field_key :: "string \<Rightarrow> (string \<times> string) option" where
  "field_key s = (case skip_ws s of
     [] \<Rightarrow> None
   | c # r \<Rightarrow> if c \<noteq> dquote then None else
       (case parse_string (c # r) of
          None \<Rightarrow> None
        | Some (key, r1) \<Rightarrow> (case skip_ws r1 of
            [] \<Rightarrow> None | d # r2 \<Rightarrow> if d \<noteq> CHR '':'' then None else Some (key, r2))))"

fun parse_value :: "nat \<Rightarrow> string \<Rightarrow> (json_value \<times> string) option"
  and parse_fields :: "nat \<Rightarrow> string \<Rightarrow> (string \<times> json_value) list \<Rightarrow> (json_value \<times> string) option"
  and parse_items :: "nat \<Rightarrow> string \<Rightarrow> json_value list \<Rightarrow> (json_value \<times> string) option" where
  "parse_value 0 s = None"
| "parse_value (Suc n) s =
    (case skip_ws s of
       [] \<Rightarrow> None
     | c # r \<Rightarrow>
         if c = CHR ''{'' then
           (let r1 = skip_ws r in if r1 \<noteq> [] \<and> hd r1 = CHR ''}'' then Some (Object [], tl r1) else parse_fields n r1 [])
         else if c = CHR ''['' then
           (let r1 = skip_ws r in if r1 \<noteq> [] \<and> hd r1 = CHR '']'' then Some (Array [], tl r1) else parse_items n r1 [])
         else if c = dquote then map_option (\<lambda>(str, rest). (StringV str, rest)) (parse_string (c # r))
         else if c = CHR ''t'' \<or> c = CHR ''f'' then parse_bool (c # r)
         else if c = CHR ''n'' then parse_null (c # r)
         else if c = CHR ''-'' \<or> is_ascii_digit c then parse_number (c # r)
         else None)"
| "parse_fields 0 s flds = None"
| "parse_fields (Suc n) s flds =
    (case field_key s of
       None \<Rightarrow> None
     | Some (key, r2) \<Rightarrow>
         (case parse_value n r2 of
            None \<Rightarrow> None
          | Some (val, r3) \<Rightarrow>
              (case skip_ws r3 of
                 [] \<Rightarrow> None
               | x # r4 \<Rightarrow>
                   if x = CHR '','' then parse_fields n r4 (flds @ [(key, val)])
                   else if x = CHR ''}'' then Some (Object (flds @ [(key, val)]), r4)
                   else None)))"
| "parse_items 0 s items = None"
| "parse_items (Suc n) s items =
    (case parse_value n s of
       None \<Rightarrow> None
     | Some (val, r) \<Rightarrow>
         (case skip_ws r of
            [] \<Rightarrow> None
          | x # r1 \<Rightarrow>
              if x = CHR '','' then parse_items n r1 (items @ [val])
              else if x = CHR '']'' then Some (Array (items @ [val]), r1)
              else None))"

subsection \<open>Log lines\<close>

record cost_log_entry =
  le_input_tokens :: "f64 option"
  le_output_tokens :: "f64 option"
  le_estimated_cost_usd :: "f64 option"

definition truthy :: "json_value \<Rightarrow> string \<Rightarrow> f64 option" where
  "truthy v k = (case v of
     Object flds \<Rightarrow> Option.bind (find (\<lambda>(key, _). key = k) (rev flds))
       (\<lambda>(_, w). case w of Number n \<Rightarrow> if n \<noteq> Fin 0 \<and> n \<noteq> NaN then Some n else None | _ \<Rightarrow> None)
   | _ \<Rightarrow> None)"

definition parse_log_line :: "string \<Rightarrow> cost_log_entry option" where
  "parse_log_line line = (case parse_value (2 * length line + 1) line of
     None \<Rightarrow> None
   | Some (v, rest) \<Rightarrow> if skip_ws rest \<noteq> [] then None
       else Some \<lparr> le_input_tokens = truthy v ''inputTokens'', le_output_tokens = truthy v ''outputTokens'',
                   le_estimated_cost_usd = truthy v ''estimatedCostUsd'' \<rparr>)"

definition js_num :: "(f64 \<Rightarrow> string) \<Rightarrow> f64 \<Rightarrow> string" where
  "js_num pr n = pr n"

text \<open>\<open>{:.2}\<close>: the exact value rounded half to even at two decimals.\<close>

definition fixed2 :: "f64 \<Rightarrow> string" where
  "fixed2 x = (case x of NaN \<Rightarrow> ''NaN'' | PInf \<Rightarrow> ''inf'' | NInf \<Rightarrow> ''-inf''
     | Fin q \<Rightarrow> (let z = nat \<bar>round_half_even (q * 100)\<bar> in
         (if q < 0 then ''-'' else []) @ show_nat (z div 100) @ ''.'' @ [digit_char (z div 10 mod 10), digit_char (z mod 10)]))"

definition sc_cost_001 :: "audit_finding" where
  "sc_cost_001 =
    (set_nist (Some Misuse)
     \<circ> set_maestro (Some L5)
     \<circ> set_owasp_asi ''ASI08''
     \<circ> set_remediation ''Set spending limits via your LLM provider dashboard and add SPENDING_LIMIT to .env''
     \<circ> set_evidence ''No SPENDING_LIMIT, MAX_BUDGET, or COST_LIMIT variables in .env''
     \<circ> set_description ''No spending limit environment variables found. Runaway API costs are possible.''
     \<circ> set_title ''No LLM provider spending limits configured'')
    (builder ''SC-COST-001'' Medium ''cost'')"

definition sc_cost_002 :: "(f64 \<Rightarrow> string) \<Rightarrow> f64 \<Rightarrow> f64 \<Rightarrow> audit_finding" where
  "sc_cost_002 pr total_cost total_tokens =
    (set_nist (Some Misuse)
     \<circ> set_maestro (Some L5)
     \<circ> set_owasp_asi ''ASI08''
     \<circ> set_remediation ''Set SPENDING_LIMIT, MAX_BUDGET, or COST_LIMIT in .env, then run \"secureops monitor\"''
     \<circ> set_evidence (''Total tokens: '' @ js_num pr total_tokens @ '', Estimated cost: $'' @ fixed2 total_cost)
     \<circ> set_description (''Estimated total cost from recent sessions: $'' @ fixed2 total_cost @ '' ('' @ js_num pr total_tokens @ '' tokens)'')
     \<circ> set_title ''API cost usage detected in session logs'')
    (builder ''SC-COST-002'' Info ''cost'')"

definition sc_cost_003 :: "audit_finding" where
  "sc_cost_003 =
    (set_nist (Some Misuse)
     \<circ> set_maestro (Some L5)
     \<circ> set_owasp_asi ''ASI08''
     \<circ> set_remediation ''Increase the cron interval to at least every 15 minutes, or use event-driven triggers''
     \<circ> set_evidence ''Crontab contains high-frequency schedules''
     \<circ> set_description ''Cron jobs invoke the agent every few minutes. This can cause significant API costs.''
     \<circ> set_title ''High-frequency agent invocation detected'')
    (builder ''SC-COST-003'' High ''cost'')"

definition sc_cost_004 :: "(f64 \<Rightarrow> string) \<Rightarrow> f64 \<Rightarrow> f64 \<Rightarrow> audit_finding" where
  "sc_cost_004 pr total_cost daily_threshold =
    (set_nist (Some Misuse)
     \<circ> set_maestro (Some L5)
     \<circ> set_owasp_asi ''ASI08''
     \<circ> set_remediation ''Review session logs for unexpected usage. Consider enabling the cost circuit breaker.''
     \<circ> set_evidence (''Daily cost: $'' @ fixed2 total_cost @ '', Threshold: $'' @ js_num pr daily_threshold)
     \<circ> set_description (''Estimated daily cost ($'' @ fixed2 total_cost @ '') exceeds threshold ($'' @ js_num pr daily_threshold @ '').'')
     \<circ> set_title ''Daily cost threshold exceeded'')
    (builder ''SC-COST-004'' High ''cost'')"

definition add_field :: "f64 \<Rightarrow> f64 option \<Rightarrow> f64" where
  "add_field acc n = (case n of None \<Rightarrow> acc | Some x \<Rightarrow> flt_add round64 acc x)"

definition add_entry :: "f64 \<times> f64 \<Rightarrow> string \<Rightarrow> f64 \<times> f64" where
  "add_entry totals line = (case (totals, parse_log_line line) of
     (_, None) \<Rightarrow> totals
   | ((tokens, cost), Some e) \<Rightarrow>
       (add_field (add_field tokens (le_input_tokens e)) (le_output_tokens e), add_field cost (le_estimated_cost_usd e)))"

definition session_totals :: "string list \<Rightarrow> f64 \<times> f64" where
  "session_totals logs =
    foldl add_entry (Fin 0, Fin 0) (concat (map (\<lambda>log_content. filter (\<lambda>l. l \<noteq> []) (split_char newline log_content)) logs))"

definition HIGH_FREQ_CRON :: string where
  "HIGH_FREQ_CRON = (let star = bsl @ ''*''; ws = bsl @ ''s'' in
     ''('' @ star @ ''/[1-4]'' @ ws @ ''|'' @ star @ ws @ star @ ws @ star @ ws @ star @ ws @ star @ '')'')"

definition has_spending_limits :: "string option \<Rightarrow> bool" where
  "has_spending_limits env_content = (case env_content of
     None \<Rightarrow> False
   | Some content \<Rightarrow> contains content ''SPENDING_LIMIT'' \<or> contains content ''MAX_BUDGET'' \<or> contains content ''COST_LIMIT'')"

definition daily_threshold :: "audit_context \<Rightarrow> f64" where
  "daily_threshold ctx =
    unwrap_or (Option.bind (Option.bind (oc_secureops (cx_config ctx)) so_cost) cl_daily_limit_usd) (Fin 5)"

definition cost_exposure_run :: "check_lib \<Rightarrow> (f64 \<Rightarrow> string) \<Rightarrow> audit_context \<Rightarrow> audit_options \<Rightarrow> audit_finding list" where
  "cost_exposure_run lib pr ctx opts =
    (let (total_tokens, total_cost) = session_totals (cx_session_logs ctx);
         threshold = daily_threshold ctx
     in (if \<not> has_spending_limits (cx_read_file ctx (cx_state_dir ctx @ ''/.env'')) then [sc_cost_001] else []) @
        (if flt_less (Fin 0) total_cost then [sc_cost_002 pr total_cost total_tokens] else []) @
        content_finding ctx (cx_state_dir ctx @ ''/crontab'') (\<lambda>cron. cron \<noteq> [] \<and> rx_match lib HIGH_FREQ_CRON cron) sc_cost_003 @
        (if flt_less threshold total_cost then [sc_cost_004 pr total_cost threshold] else []))"

definition cost_exposure_check :: "check_lib \<Rightarrow> (f64 \<Rightarrow> string) \<Rightarrow> check" where
  "cost_exposure_check lib pr = \<lparr> ck_category = ''cost'', ck_run = cost_exposure_run lib pr \<rparr>"


subsection \<open>The fuel is enough\<close>

lemma length_skip_ws: "length (skip_ws s) \<le> length s"
  by (simp add: skip_ws_def length_dropWhile_le)

lemma skip_ws_Cons: "skip_ws s = c # r \<Longrightarrow> length r < length s"
  using length_skip_ws [of s] by simp

lemma span_shorter: "length (snd (span P s)) \<le> length s"
  by (simp add: span_def length_dropWhile_le)

lemma string_body_shorter: "string_body s out = Some (str, r) \<Longrightarrow> length r < length s"
proof (induction s out rule: string_body.induct)
  case (2 c s out)
  have "length (dropWhile is_cont s) \<le> length s" by (rule length_dropWhile_le)
  then show ?case
    using 2 by (fastforce simp: Let_def split: if_splits option.splits dest: escape_shorter)
qed simp

lemma parse_string_shorter: "parse_string (c # s) = Some (str, r) \<Longrightarrow> length r < length s"
  by (auto simp: parse_string_def dest: string_body_shorter)

lemma parse_bool_shorter: "parse_bool s = Some (v, r) \<Longrightarrow> length r < length s"
  by (auto simp: parse_bool_def starts_with_def prefix_def split: if_splits)

lemma parse_null_shorter: "parse_null s = Some (v, r) \<Longrightarrow> length r < length s"
  by (auto simp: parse_null_def starts_with_def prefix_def split: if_splits)

lemma scan_shorter:
  "length (snd (scan_fraction s)) \<le> length s" "length (snd (scan_exponent s)) \<le> length s"
  using span_shorter [of is_ascii_digit] 
  by (auto simp: scan_fraction_def scan_exponent_def scan_exponent_sign_def scan_sign_def span_def Let_def
      split: list.splits intro: le_SucI order_trans [OF length_dropWhile_le])

lemma parse_number_shorter:
  assumes "parse_number (c # s) = Some (v, r)" and "c = CHR ''-'' \<or> is_ascii_digit c"
  shows "length r < length (c # s)"
proof -
  define s2 where "s2 = snd (span is_ascii_digit (snd (scan_sign (c # s))))"
  have r: "r = snd (scan_exponent (snd (scan_fraction s2)))"
    using assms(1) by (auto simp: parse_number_def s2_def Let_def split: prod.splits)
  have "length s2 \<le> length s"
    using assms(2) length_dropWhile_le [of is_ascii_digit s] by (auto simp: s2_def scan_sign_def span_def)
  then show ?thesis
    using scan_shorter(2) [of "snd (scan_fraction s2)"] scan_shorter(1) [of s2] unfolding r by simp
qed

lemma tl_skip_ws: "skip_ws r \<noteq> [] \<Longrightarrow> length (tl (skip_ws r)) < length r"
  using length_skip_ws [of r] by (cases "skip_ws r") simp_all

lemma field_key_shorter: "field_key s = Some (key, r) \<Longrightarrow> length r < length s"
  by (auto simp: field_key_def split: list.splits if_splits option.splits
      dest!: skip_ws_Cons parse_string_shorter)

lemma parse_shorter:
  "parse_value n s = Some (v, r) \<Longrightarrow> length r < length s"
  "parse_fields n s flds = Some (v, r) \<Longrightarrow> length r < length s"
  "parse_items n s items = Some (v, r) \<Longrightarrow> length r < length s"
proof (induction n s and n s flds and n s items arbitrary: v r and v r and v r rule: parse_value_parse_fields_parse_items.induct)
  case (2 n s)
  then obtain c r0 where s: "skip_ws s = c # r0" by (cases "skip_ws s") simp_all
  have "length r \<le> length r0"
    using 2(3) 2(1) [OF s _ refl] 2(2) [OF s _ _ refl] length_skip_ws [of r0] tl_skip_ws [of r0]
      parse_string_shorter [of c r0] parse_bool_shorter [of "c # r0" v r] parse_null_shorter [of "c # r0" v r]
      parse_number_shorter [of c r0 v r]
    by (auto simp: s Let_def less_Suc_eq_le split: if_splits; force)
  then show ?case using skip_ws_Cons [OF s] by simp
next
  case (4 n s flds)
  then show ?case
    by (fastforce split: option.splits list.splits if_splits dest: skip_ws_Cons field_key_shorter)
next
  case (6 n s items)
  then show ?case
    by (fastforce split: option.splits list.splits if_splits dest: skip_ws_Cons)
qed simp_all

text \<open>Two amounts of fuel above twice the length of the input give the same result; each bracket takes two units.\<close>

lemma parse_fuel:
  "2 * length s < n \<Longrightarrow> 2 * length s < m \<Longrightarrow> parse_value n s = parse_value m s"
  "2 * length s < n \<Longrightarrow> 2 * length s < m \<Longrightarrow> parse_fields n s flds = parse_fields m s flds"
  "2 * length s + 1 < n \<Longrightarrow> 2 * length s + 1 < m \<Longrightarrow> parse_items n s items = parse_items m s items"
proof (induction n s and n s flds and n s items arbitrary: m and m and m rule: parse_value_parse_fields_parse_items.induct)
  case (2 n s)
  from 2(4) obtain k where m: "m = Suc k" by (cases m) simp_all
  show ?case
  proof (cases "skip_ws s")
    case (Cons c r0)
    have "2 * length (skip_ws r0) + 1 < n" "2 * length (skip_ws r0) + 1 < k"
      using skip_ws_Cons [OF Cons] length_skip_ws [of r0] 2(3,4) m by linarith+
    then show ?thesis
      using 2(1) [OF Cons _ refl, of k] 2(2) [OF Cons _ _ refl, of k] by (auto simp: m Cons Let_def)
  qed (simp add: m)
next
  case (4 n s flds)
  from 4(4) obtain k where m: "m = Suc k" by (cases m) simp_all
  show ?case
  proof (cases "field_key s")
    case (Some kr)
    obtain key r2 where kr: "kr = (key, r2)" by (cases kr)
    have len: "2 * length r2 < n" "2 * length r2 < k"
      using field_key_shorter [of s key r2] Some kr 4(3,4) m by simp_all
    have eq: "parse_value n r2 = parse_value k r2" using 4(1) [OF Some kr [symmetric] len] .
    have "parse_fields n r4 fs = parse_fields k r4 fs" if "parse_value k r2 = Some (val, r3)" "skip_ws r3 = x # r4"
      "x = CHR '',''" "fs = flds @ [(key, val)]" for val r3 x r4 fs
      using 4(2) [OF Some kr [symmetric], of "(val, r3)" val r3 x r4 k] that len parse_shorter(1) [of k r2 val r3]
        skip_ws_Cons [of r3 x r4] by (simp add: eq)
    then show ?thesis by (simp add: m Some kr eq split: option.split list.split)
  qed (simp add: m)
next
  case (6 n s items)
  from 6(4) obtain k where m: "m = Suc k" by (cases m) simp_all
  have len: "2 * length s < n" "2 * length s < k" using 6(3,4) m by simp_all
  have eq: "parse_value n s = parse_value k s" using 6(1) [OF len] .
  have "parse_items n r1 xs = parse_items k r1 xs" if "parse_value k s = Some (val, r)" "skip_ws r = x # r1"
    "x = CHR '',''" "xs = items @ [val]" for val r x r1 xs
    using 6(2) [of "(val, r)" val r x r1 k] that len parse_shorter(1) [of k s val r] skip_ws_Cons [of r x r1] by (simp add: eq)
  then show ?case by (simp add: m eq split: option.split list.split)
qed simp_all

end
