(* ===== verification/AllChecks.thy ===== *)
theory AllChecks
  imports Checks CheckGateway CostCheck
begin

text \<open>
  The list of categories that \<open>default_checks\<close> (\<open>secureops-checks/src/lib.rs\<close>) hands to \<open>run_audit\<close>, and the catalogue of the findings
  they can produce. A catalogue row is an identifier with a severity, the wire category, the MAESTRO layer and the NIST attack
  type; a few identifiers have several severities. The contract of a check, that it reports rows of its own category, is
  interpreted on the nine categories, and the audit as a whole inherits it.
\<close>

definition default_checks :: "check_lib \<Rightarrow> (u16 \<Rightarrow> bool) \<Rightarrow> (f64 \<Rightarrow> string) \<Rightarrow> ioc_database \<Rightarrow> check list" where
  "default_checks lib probe_port pr ioc_db =
    [gateway_check probe_port, credentials_check lib, execution_check, access_control_check, supply_chain_check lib ioc_db,
     memory_integrity_check lib, cost_exposure_check lib pr, ioc_check lib ioc_db, multi_framework_check lib]"

subsection \<open>The catalogue\<close>

type_synonym catalogue_row = "string \<times> severity \<times> string \<times> maestro_layer option \<times> nist_attack_type option"

definition gateway_rows :: "catalogue_row list" where
  "gateway_rows =
    [(''SC-GW-001'', Critical, ''gateway'', Some L4, Some Evasion), (''SC-GW-002'', Critical, ''gateway'', Some L4, Some Evasion),
     (''SC-GW-003'', Medium, ''gateway'', Some L4, Some Evasion), (''SC-GW-004'', High, ''gateway'', Some L4, Some Evasion),
     (''SC-GW-004'', Info, ''gateway'', Some L4, Some Evasion), (''SC-GW-004'', Low, ''gateway'', Some L4, Some Evasion),
     (''SC-GW-005'', Info, ''gateway'', Some L4, Some Evasion), (''SC-GW-005'', Low, ''gateway'', Some L4, Some Evasion),
     (''SC-GW-005'', Medium, ''gateway'', Some L4, Some Evasion), (''SC-GW-006'', Medium, ''gateway'', Some L4, Some Evasion),
     (''SC-GW-007'', Medium, ''gateway'', Some L4, Some Evasion), (''SC-GW-008'', Critical, ''gateway'', Some L4, Some Evasion),
     (''SC-GW-009'', Critical, ''gateway'', Some L4, Some Evasion), (''SC-GW-010'', Medium, ''gateway'', Some L4, Some Evasion)]"

definition credentials_rows :: "catalogue_row list" where
  "credentials_rows =
    [(''SC-CRED-001'', High, ''credentials'', Some L4, Some Privacy), (''SC-CRED-002'', High, ''credentials'', Some L4, Some Privacy),
     (''SC-CRED-003'', High, ''credentials'', Some L4, Some Privacy), (''SC-CRED-004'', High, ''credentials'', Some L4, Some Privacy),
     (''SC-CRED-005'', High, ''credentials'', Some L4, Some Privacy), (''SC-CRED-006'', Medium, ''credentials'', Some L4, Some Privacy),
     (''SC-CRED-007'', Critical, ''credentials'', Some L4, Some Privacy), (''SC-CRED-008'', High, ''credentials'', Some L4, Some Privacy)]"

definition execution_rows :: "catalogue_row list" where
  "execution_rows =
    [(''SC-EXEC-001'', Critical, ''execution'', Some L3, Some Misuse), (''SC-EXEC-002'', High, ''execution'', Some L3, Some Misuse),
     (''SC-EXEC-003'', Medium, ''execution'', Some L3, Some Misuse), (''SC-EXEC-004'', Medium, ''execution'', Some L3, Some Misuse),
     (''SC-EXEC-005'', Medium, ''execution'', Some L3, Some Misuse), (''SC-EXEC-006'', Medium, ''execution'', Some L3, Some Misuse),
     (''SC-EXEC-007'', High, ''execution'', Some L3, Some Misuse)]"

definition access_control_rows :: "catalogue_row list" where
  "access_control_rows =
    [(''SC-AC-001'', High, ''access-control'', Some L3, Some Evasion), (''SC-AC-002'', High, ''access-control'', Some L3, Some Evasion),
     (''SC-AC-003'', Medium, ''access-control'', Some L3, Some Evasion), (''SC-AC-004'', High, ''access-control'', Some L3, Some Evasion),
     (''SC-AC-005'', Medium, ''access-control'', Some L3, Some Evasion)]"

definition supply_chain_rows :: "catalogue_row list" where
  "supply_chain_rows =
    [(''SC-SKILL-001'', Info, ''supply-chain'', Some L7, Some Poisoning), (''SC-SKILL-002'', High, ''supply-chain'', Some L7, Some Poisoning),
     (''SC-SKILL-003'', Critical, ''supply-chain'', Some L7, Some Poisoning), (''SC-SKILL-004'', Medium, ''supply-chain'', Some L7, Some Poisoning),
     (''SC-SKILL-005'', High, ''supply-chain'', Some L7, Some Poisoning), (''SC-SKILL-006'', High, ''supply-chain'', Some L7, Some Poisoning)]"

definition memory_integrity_rows :: "catalogue_row list" where
  "memory_integrity_rows =
    [(''SC-MEM-001'', Info, ''memory'', Some L2, None), (''SC-MEM-002'', Critical, ''memory'', Some L2, Some Poisoning),
     (''SC-MEM-003'', Medium, ''memory'', Some L2, Some Poisoning), (''SC-MEM-004'', Medium, ''memory'', Some L2, Some Evasion),
     (''SC-MEM-005'', Medium, ''memory'', Some L2, Some Privacy)]"

definition cost_exposure_rows :: "catalogue_row list" where
  "cost_exposure_rows =
    [(''SC-COST-001'', Medium, ''cost'', Some L5, Some Misuse), (''SC-COST-002'', Info, ''cost'', Some L5, Some Misuse),
     (''SC-COST-003'', High, ''cost'', Some L5, Some Misuse), (''SC-COST-004'', High, ''cost'', Some L5, Some Misuse)]"

definition ioc_rows :: "catalogue_row list" where
  "ioc_rows =
    [(''SC-IOC-000'', Info, ''ioc'', Some L6, None), (''SC-IOC-001'', Critical, ''ioc'', Some L7, Some Evasion),
     (''SC-IOC-002'', Critical, ''ioc'', Some L7, Some Poisoning), (''SC-IOC-003'', Critical, ''ioc'', Some L7, Some Poisoning),
     (''SC-IOC-004'', Critical, ''ioc'', Some L4, Some Privacy), (''SC-IOC-005'', Critical, ''ioc'', Some L4, Some Privacy)]"

definition multi_framework_rows :: "catalogue_row list" where
  "multi_framework_rows =
    [(''SC-KILL-001'', Info, ''kill-switch'', Some L5, Some Misuse), (''SC-TRUST-001'', Critical, ''memory-trust'', Some L2, Some Poisoning),
     (''SC-CTRL-001'', Medium, ''control-tokens'', Some L3, Some Evasion), (''SC-DEGRAD-001'', Low, ''degradation'', Some L5, Some Misuse)]"

definition audit_catalogue :: "catalogue_row list" where
  "audit_catalogue = gateway_rows @ credentials_rows @ execution_rows @ access_control_rows @ supply_chain_rows @
     memory_integrity_rows @ cost_exposure_rows @ ioc_rows @ multi_framework_rows"

definition row :: "audit_finding \<Rightarrow> catalogue_row" where
  "row f = (f_id f, f_severity f, f_category f, f_maestro_layer f, f_nist_category f)"

definition catalogued_row :: "audit_finding \<Rightarrow> bool" where
  "catalogued_row f \<longleftrightarrow> row f \<in> set audit_catalogue"

subsection \<open>The findings of each category\<close>

lemma gateway_row [simp]:
  "row (sc_gw_001 a1) \<in> set gateway_rows" "row (sc_gw_002 a2) \<in> set gateway_rows" "row (sc_gw_003 a3) \<in> set gateway_rows"
  "row (sc_gw_004a a4) \<in> set gateway_rows" "row (sc_gw_004b a5) \<in> set gateway_rows" "row (sc_gw_005a a6) \<in> set gateway_rows"
  "row (sc_gw_005b a7) \<in> set gateway_rows" "row sc_gw_006 \<in> set gateway_rows" "row (sc_gw_007 a8) \<in> set gateway_rows"
  "row (sc_gw_008 a9) \<in> set gateway_rows" "row sc_gw_009 \<in> set gateway_rows" "row sc_gw_010 \<in> set gateway_rows"
  "row (sc_gw_004_open a10 b10) \<in> set gateway_rows" "row (sc_gw_005_open a11 b11) \<in> set gateway_rows"
  by (simp_all add: row_def gateway_rows_def builder_defs sc_gw_001_def sc_gw_002_def sc_gw_003_def sc_gw_004a_def sc_gw_004b_def sc_gw_005a_def
      sc_gw_005b_def sc_gw_006_def sc_gw_007_def sc_gw_008_def sc_gw_009_def sc_gw_010_def sc_gw_004_open_def sc_gw_005_open_def Let_def)

lemma credentials_row [simp]:
  "row (sc_cred_001 a12) \<in> set credentials_rows" "row (sc_cred_002 a13) \<in> set credentials_rows"
  "row sc_cred_003 \<in> set credentials_rows" "row (sc_cred_004 a14 b14 c14) \<in> set credentials_rows"
  "row (sc_cred_005 a15 b15 c15) \<in> set credentials_rows" "row (sc_cred_006 a16 b16) \<in> set credentials_rows"
  "row (sc_cred_007 a17 b17) \<in> set credentials_rows" "row (sc_cred_008 a18) \<in> set credentials_rows"
  by (simp_all add: row_def credentials_rows_def builder_defs sc_cred_001_def sc_cred_002_def sc_cred_003_def sc_cred_004_def sc_cred_005_def
      sc_cred_006_def sc_cred_007_def sc_cred_008_def Let_def)

lemma execution_row [simp]:
  "row sc_exec_001 \<in> set execution_rows" "row sc_exec_002 \<in> set execution_rows"
  "row (sc_exec_003 a19) \<in> set execution_rows" "row (sc_exec_004 a20) \<in> set execution_rows"
  "row (sc_exec_005 a21) \<in> set execution_rows" "row (sc_exec_006 a22) \<in> set execution_rows"
  "row (sc_exec_007 a23) \<in> set execution_rows"
  by (simp_all add: row_def execution_rows_def builder_defs sc_exec_001_def sc_exec_002_def sc_exec_003_def sc_exec_004_def sc_exec_005_def
      sc_exec_006_def sc_exec_007_def Let_def)

lemma access_control_row [simp]:
  "row (sc_ac_001 a24) \<in> set access_control_rows" "row (sc_ac_002 a25) \<in> set access_control_rows"
  "row (sc_ac_003 a26) \<in> set access_control_rows" "row (sc_ac_004 a27) \<in> set access_control_rows"
  "row (sc_ac_005 a28 b28) \<in> set access_control_rows"
by (simp_all add: row_def access_control_rows_def builder_defs sc_ac_001_def sc_ac_002_def sc_ac_003_def sc_ac_004_def sc_ac_005_def Let_def)

lemma supply_chain_row [simp]:
  "row (sc_skill_001 a29 b29) \<in> set supply_chain_rows" "row (sc_skill_002 a30 b30 c30 d30 e30) \<in> set supply_chain_rows"
  "row (sc_skill_003 a31 b31 c31 d31) \<in> set supply_chain_rows" "row (sc_skill_004 a32 b32) \<in> set supply_chain_rows"
  "row (sc_skill_005 a33) \<in> set supply_chain_rows" "row (sc_skill_006 a34 b34) \<in> set supply_chain_rows"
  by (simp_all add: row_def supply_chain_rows_def builder_defs sc_skill_001_def sc_skill_002_def sc_skill_003_def sc_skill_004_def
      sc_skill_005_def sc_skill_006_def Let_def)

lemma memory_integrity_row [simp]:
  "row (sc_mem_001 a35) \<in> set memory_integrity_rows" "row (sc_mem_002 a36 b36 c36 d36) \<in> set memory_integrity_rows"
  "row (sc_mem_003 a37 b37 c37) \<in> set memory_integrity_rows" "row (sc_mem_004 a38 b38 c38 d38) \<in> set memory_integrity_rows"
  "row (sc_mem_005 a39 b39 c39) \<in> set memory_integrity_rows"
by (simp_all add: row_def memory_integrity_rows_def builder_defs sc_mem_001_def sc_mem_002_def sc_mem_003_def sc_mem_004_def sc_mem_005_def Let_def)

lemma cost_exposure_row [simp]:
  "row sc_cost_001 \<in> set cost_exposure_rows" "row (sc_cost_002 a40 b40 c40) \<in> set cost_exposure_rows"
  "row sc_cost_003 \<in> set cost_exposure_rows" "row (sc_cost_004 a41 b41 c41) \<in> set cost_exposure_rows"
by (simp_all add: row_def cost_exposure_rows_def builder_defs sc_cost_001_def sc_cost_002_def sc_cost_003_def sc_cost_004_def Let_def)

lemma ioc_row [simp]:
  "row sc_ioc_000 \<in> set ioc_rows" "row (sc_ioc_001 a42 b42) \<in> set ioc_rows" "row (sc_ioc_002 a43 b43 c43) \<in> set ioc_rows"
  "row (sc_ioc_003 a44 b44 c44 d44) \<in> set ioc_rows" "row (sc_ioc_004 a45 b45) \<in> set ioc_rows" "row (sc_ioc_005 a46 b46) \<in> set ioc_rows"
by (simp_all add: row_def ioc_rows_def builder_defs sc_ioc_000_def sc_ioc_001_def sc_ioc_002_def sc_ioc_003_def sc_ioc_004_def sc_ioc_005_def Let_def)

lemma multi_framework_row [simp]:
  "row (sc_kill_001 a47) \<in> set multi_framework_rows" "row (sc_trust_001 a48 b48) \<in> set multi_framework_rows"
  "row sc_ctrl_001 \<in> set multi_framework_rows" "row sc_degrad_001 \<in> set multi_framework_rows"
by (simp_all add: row_def multi_framework_rows_def builder_defs sc_kill_001_def sc_trust_001_def sc_ctrl_001_def sc_degrad_001_def Let_def)

lemma perms_finding_rows: "(\<And>p. row (mk p) \<in> R) \<Longrightarrow> f \<in> set (perms_finding ctx path mk) \<Longrightarrow> row f \<in> R"
  by (auto simp: perms_finding_def split: option.splits if_splits)

lemma content_finding_rows: "row g \<in> R \<Longrightarrow> f \<in> set (content_finding ctx path bad g) \<Longrightarrow> row f \<in> R"
  by (auto simp: content_finding_def split: option.splits if_splits)

lemma gateway_rows_ok: "f \<in> set (gateway_run probe ctx opts) \<Longrightarrow> row f \<in> set gateway_rows"
  by (auto simp: gateway_run_def Let_def split: if_splits option.splits)

lemma credentials_rows_ok: "f \<in> set (credentials_run lib ctx opts) \<Longrightarrow> row f \<in> set credentials_rows"
  by (auto simp: credentials_run_def Let_def elim!: perms_finding_rows [rotated] content_finding_rows [rotated] split: if_splits)

lemma execution_rows_ok: "f \<in> set (execution_run ctx opts) \<Longrightarrow> row f \<in> set execution_rows"
  by (auto simp: execution_run_def service_findings_def Let_def split: if_splits option.splits prod.splits)

lemma access_control_rows_ok: "f \<in> set (access_control_run ctx opts) \<Longrightarrow> row f \<in> set access_control_rows"
  by (auto simp: access_control_run_def channel_findings_def pairing_findings_def Let_def split: if_splits)

lemma skill_file_rows: "f \<in> set (skill_file_findings lib db ctx skill dir fname) \<Longrightarrow> row f \<in> set supply_chain_rows"
  by (auto simp: skill_file_findings_def dangerous_pattern_findings_def Let_def split: if_splits option.splits)

lemma supply_chain_rows_ok: "f \<in> set (supply_chain_run lib db ctx opts) \<Longrightarrow> row f \<in> set supply_chain_rows"
  by (auto simp: supply_chain_run_def skill_findings_def prerequisite_findings_def Let_def
      dest: skill_file_rows split: if_splits option.splits)

lemma memory_file_rows: "f \<in> set (memory_file_findings lib ctx dir agent m) \<Longrightarrow> row f \<in> set memory_integrity_rows"
  by (auto simp: memory_file_findings_def url_finding_def Let_def split: if_splits option.splits)

lemma memory_integrity_rows_ok: "f \<in> set (memory_integrity_run lib ctx opts) \<Longrightarrow> row f \<in> set memory_integrity_rows"
  by (auto simp: memory_integrity_run_def memory_perm_findings_def Let_def dest: memory_file_rows
      elim!: perms_finding_rows [rotated] split: if_splits)

lemma cost_exposure_rows_ok: "f \<in> set (cost_exposure_run lib pr ctx opts) \<Longrightarrow> row f \<in> set cost_exposure_rows"
  by (auto simp: cost_exposure_run_def Let_def elim!: content_finding_rows [rotated] split: if_splits prod.splits)

lemma ioc_rows_ok: "f \<in> set (ioc_run lib db ctx opts) \<Longrightarrow> row f \<in> set ioc_rows"
  by (auto simp: ioc_run_def ioc_log_findings_def ioc_source_findings_def ioc_hash_findings_def ioc_artifact_findings_def Let_def
      split: if_splits option.splits)

lemma multi_framework_rows_ok: "f \<in> set (multi_framework_run lib ctx opts) \<Longrightarrow> row f \<in> set multi_framework_rows"
  by (auto simp: multi_framework_run_def trust_findings_def Let_def elim!: content_finding_rows [rotated]
      split: if_splits option.splits)

lemmas check_rows = gateway_rows_ok credentials_rows_ok execution_rows_ok access_control_rows_ok supply_chain_rows_ok
  memory_integrity_rows_ok cost_exposure_rows_ok ioc_rows_ok multi_framework_rows_ok

lemmas check_defs = gateway_check_def credentials_check_def execution_check_def access_control_check_def supply_chain_check_def
  memory_integrity_check_def cost_exposure_check_def ioc_check_def multi_framework_check_def

interpretation default_audit: check_contract "default_checks lib probe_port pr ioc_db" catalogued_row
proof
  fix c f ctx opts
  assume "c \<in> set (default_checks lib probe_port pr ioc_db)" "f \<in> set (ck_run c ctx opts)"
  then show "catalogued_row f"
    unfolding catalogued_row_def audit_catalogue_def
    by (auto simp: default_checks_def check_defs dest: check_rows)
qed

subsection \<open>Properties\<close>

definition cross_row :: catalogue_row where
  "cross_row = (''SC-CROSS-001'', High, ''cross-layer'', Some L6, Some Evasion)"

lemma row_cross_finding: "row (cross_finding layers) = cross_row"
  by (simp add: row_def cross_row_def cross_finding_def builder_defs Let_def)

lemma check_findings_catalogued: "f \<in> set (check_findings (default_checks lib probe pr db) ctx opts) \<Longrightarrow> catalogued_row f"
  by (auto simp: check_findings_def intro: default_audit.check_ok)

lemma catalogue_size: "card (fst ` set audit_catalogue) = 55"
proof -
  have "length (remdups (map fst audit_catalogue)) = 55" by code_simp
  then show ?thesis by (metis length_remdups_card_conv list.set_map)
qed

definition counted_row :: "catalogue_row \<Rightarrow> bool" where
  "counted_row r \<longleftrightarrow> (case r of (_, sev, _, layer, _) \<Rightarrow> sev = Info \<or> layer \<in> Some ` {L2, L3, L4, L5, L7})"

lemma catalogue_layers:
  assumes "(i, sev, cat, Some l, nist) \<in> set audit_catalogue" and "sev \<noteq> Info" shows "l \<in> {L2, L3, L4, L5, L7}"
proof -
  have "list_all counted_row audit_catalogue" by code_simp
  then have "counted_row (i, sev, cat, Some l, nist)" using assms(1) by (simp add: list_all_iff)
  with assms(2) show ?thesis by (auto simp: counted_row_def)
qed


end
