(* ===== verification/FileSys.thy ===== *)
theory FileSys
  imports Hex "HOL-Library.State_Monad"
begin

text \<open>
  The file system as the hardening engine and the monitors use it (\<open>tokio::fs\<close>), as a state monad. A path is the list of
  its components, a file has its bytes and its permission bits. Every operation first consults the environment, which may make it fail at
  that moment with any error: a theorem that quantifies over the environment holds for every pattern of input/output failures. An operation
  that fails leaves the files as they were. A panic of the program stops all further effects.

  \<open>keeps\<close> is the Hoare triple of an invariant; the collection \<open>keeps\<close> holds the rules that push it through a program, one
  per construct and one per operation, so that a frame property of a whole program is proved by applying them.
\<close>

named_theorems keeps_rules \<open>invariants of file system programs\<close>

type_synonym path = "string list"

datatype io_error = IoNotFound | IoOther string

definition io_text :: "io_error \<Rightarrow> string" where
  "io_text e = (case e of IoNotFound \<Rightarrow> ''No such file or directory (os error 2)'' | IoOther t \<Rightarrow> t)"

record fs_file =
  fd_data :: string
  fd_mode :: u32

record fsys =
  fy_files :: "(path, fs_file) hmap"
  fy_dirs :: "path list"
  fy_tick :: nat
  fy_panicked :: bool

text \<open>
  What the environment decides at each tick: whether the operation fails, and after how many entries a directory stream stops. New
  files get the mode the process mask leaves.
\<close>

record fs_env =
  ev_fault :: "nat \<Rightarrow> io_error option"
  ev_cut :: "nat \<Rightarrow> nat option"
  ev_new_mode :: u32

type_synonym 'a fsm = "(fsys, 'a) state"
type_synonym 'a io = "(io_error + 'a) fsm"

definition lookup :: "fsys \<Rightarrow> path \<Rightarrow> fs_file option" where
  "lookup s p = hm_get (fy_files s) p"

definition put :: "path \<Rightarrow> fs_file \<Rightarrow> fsys \<Rightarrow> fsys" where
  "put p f s = s\<lparr> fy_files := hm_insert p f (fy_files s) \<rparr>"

definition is_dir :: "fsys \<Rightarrow> path \<Rightarrow> bool" where
  "is_dir s p \<longleftrightarrow> p = [] \<or> p \<in> set (fy_dirs s)"

definition io_op :: "fs_env \<Rightarrow> (fsys \<Rightarrow> (io_error + 'a) \<times> fsys) \<Rightarrow> 'a io" where
  "io_op ev f = State (\<lambda>s.
     if fy_panicked s then (Err (IoOther ''panicked''), s)
     else let s' = s\<lparr> fy_tick := fy_tick s + 1 \<rparr>
          in case ev_fault ev (fy_tick s) of Some e \<Rightarrow> (Err e, s') | None \<Rightarrow> f s')"

text \<open>\<open>panic_or d r\<close>: the value, or a panic (with a placeholder value that no effect can depend on).\<close>

definition panic_or :: "'a \<Rightarrow> 'a may_panic \<Rightarrow> 'a fsm" where
  "panic_or d r = State (\<lambda>s. case r of Returns x \<Rightarrow> (x, s) | Panics \<Rightarrow> (d, s\<lparr> fy_panicked := True \<rparr>))"

subsection \<open>Operations\<close>

text \<open>\<open>fs::copy\<close> copies the bytes and the permission bits.\<close>

definition fs_copy :: "fs_env \<Rightarrow> path \<Rightarrow> path \<Rightarrow> unit io" where
  "fs_copy ev src dst = io_op ev (\<lambda>s. case lookup s src of
     None \<Rightarrow> (Err (if is_dir s src then IoOther ''the source path is neither a regular file nor a symlink to a regular file''
                   else IoNotFound), s)
   | Some f \<Rightarrow> if is_dir s dst then (Err (IoOther ''Is a directory (os error 21)''), s)
       else if \<not> is_dir s (butlast dst) then (Err IoNotFound, s)
       else (Ok (), put dst f s))"

definition fs_write :: "fs_env \<Rightarrow> path \<Rightarrow> string \<Rightarrow> unit io" where
  "fs_write ev p data = io_op ev (\<lambda>s.
     if is_dir s p then (Err (IoOther ''Is a directory (os error 21)''), s)
     else if \<not> is_dir s (butlast p) then (Err IoNotFound, s)
     else (Ok (), put p \<lparr> fd_data = data, fd_mode = (case lookup s p of None \<Rightarrow> ev_new_mode ev | Some f \<Rightarrow> fd_mode f) \<rparr> s))"

definition fs_read_to_string :: "fs_env \<Rightarrow> path \<Rightarrow> string io" where
  "fs_read_to_string ev p = io_op ev (\<lambda>s. case lookup s p of
     None \<Rightarrow> (Err (if is_dir s p then IoOther ''Is a directory (os error 21)'' else IoNotFound), s)
   | Some f \<Rightarrow> if utf8_valid (fd_data f) then (Ok (fd_data f), s) else (Err (IoOther ''stream did not contain valid UTF-8''), s))"

definition fs_set_permissions :: "fs_env \<Rightarrow> path \<Rightarrow> u32 \<Rightarrow> unit io" where
  "fs_set_permissions ev p mode = io_op ev (\<lambda>s. case lookup s p of
     Some f \<Rightarrow> (Ok (), put p (f\<lparr> fd_mode := mode \<rparr>) s)
   | None \<Rightarrow> if is_dir s p then (Ok (), s) else (Err IoNotFound, s))"

definition ancestors :: "path \<Rightarrow> path list" where
  "ancestors p = map (\<lambda>n. take n p) [1..<length p + 1]"

definition fs_create_dir_all :: "fs_env \<Rightarrow> path \<Rightarrow> unit io" where
  "fs_create_dir_all ev p = io_op ev (\<lambda>s.
     if list_ex (\<lambda>q. lookup s q \<noteq> None) (ancestors p) then (Err (IoOther ''File exists (os error 17)''), s)
     else (Ok (), s\<lparr> fy_dirs := filter (\<lambda>q. q \<notin> set (fy_dirs s)) (ancestors p) @ fy_dirs s \<rparr>))"

definition dir_entries :: "fsys \<Rightarrow> path \<Rightarrow> string list" where
  "dir_entries s p = remdups (map last (filter (\<lambda>q. q \<noteq> [] \<and> butlast q = p) (map fst (fy_files s) @ fy_dirs s)))"

text \<open>The names a loop over \<open>next_entry\<close> sees: it ends silently at the first error of the stream.\<close>

definition fs_read_dir :: "fs_env \<Rightarrow> path \<Rightarrow> string list io" where
  "fs_read_dir ev p = io_op ev (\<lambda>s.
     if is_dir s p then (Ok (case ev_cut ev (fy_tick s) of None \<Rightarrow> dir_entries s p | Some k \<Rightarrow> take k (dir_entries s p)), s)
     else (Err IoNotFound, s))"

definition fs_metadata :: "fs_env \<Rightarrow> path \<Rightarrow> unit io" where
  "fs_metadata ev p = io_op ev (\<lambda>s. if lookup s p \<noteq> None \<or> is_dir s p then (Ok (), s) else (Err IoNotFound, s))"

definition fs_remove_file :: "fs_env \<Rightarrow> path \<Rightarrow> unit io" where
  "fs_remove_file ev p = io_op ev (\<lambda>s. case lookup s p of
     None \<Rightarrow> (Err (if is_dir s p then IoOther ''Is a directory (os error 21)'' else IoNotFound), s)
   | Some _ \<Rightarrow> (Ok (), s\<lparr> fy_files := hm_remove p (fy_files s) \<rparr>))"

definition chmod_safe :: "fs_env \<Rightarrow> path \<Rightarrow> u32 \<Rightarrow> bool fsm" where
  "chmod_safe ev p mode = do { r \<leftarrow> fs_set_permissions ev p mode; State_Monad.return (is_ok r) }"

text \<open>Components of a path, and \<open>PathBuf::join\<close>, which an absolute argument replaces.\<close>

definition path_of :: "string \<Rightarrow> path" where
  "path_of s = filter (\<lambda>c. c \<noteq> [] \<and> c \<noteq> ''.'') (split_char (CHR ''/'') s)"

definition path_push :: "path \<Rightarrow> string \<Rightarrow> path" where
  "path_push p t = (if starts_with t ''/'' then path_of t else p @ path_of t)"

definition show_path :: "path \<Rightarrow> string" where
  "show_path p = ''/'' @ join ''/'' p"

subsection \<open>Invariants\<close>

lemma lookup_put [simp]: "lookup (put p f s) q = (if q = p then Some f else lookup s q)"
  by (simp add: lookup_def put_def hm_simps)

lemma put_fields [simp]: "fy_dirs (put p f s) = fy_dirs s" "fy_tick (put p f s) = fy_tick s" "fy_panicked (put p f s) = fy_panicked s"
  by (simp_all add: put_def)

lemma lookup_fields [simp]:
  "lookup (s\<lparr> fy_tick := n \<rparr>) p = lookup s p" "lookup (s\<lparr> fy_panicked := b \<rparr>) p = lookup s p" "lookup (s\<lparr> fy_dirs := d \<rparr>) p = lookup s p"
  by (simp_all add: lookup_def)

definition keeps :: "(fsys \<Rightarrow> bool) \<Rightarrow> 'a fsm \<Rightarrow> bool" where
  "keeps P m \<longleftrightarrow> (\<forall>s. P s \<longrightarrow> P (snd (run_state m s)))"

lemma keepsD: "keeps P m \<Longrightarrow> P s \<Longrightarrow> run_state m s = (x, s') \<Longrightarrow> P s'"
  by (auto simp: keeps_def dest: spec [of _ s])

lemma keepsI: "(\<And>s x s'. P s \<Longrightarrow> run_state m s = (x, s') \<Longrightarrow> P s') \<Longrightarrow> keeps P m"
  unfolding keeps_def by (metis prod.collapse)

lemma keeps_return [keeps_rules]: "keeps P (State_Monad.return x)"
  by (simp add: keeps_def)

lemma keeps_bind [keeps_rules]:
  assumes "keeps P m" and "\<And>x. keeps P (f x)" shows "keeps P (State_Monad.bind m f)"
  using assms by (auto simp: keeps_def split: prod.split)

lemma keeps_if [keeps_rules]: "(b \<Longrightarrow> keeps P m) \<Longrightarrow> (\<not> b \<Longrightarrow> keeps P n) \<Longrightarrow> keeps P (if b then m else n)"
  by simp

lemma keeps_case_sum [keeps_rules]:
  "(\<And>e. keeps P (f e)) \<Longrightarrow> (\<And>x. keeps P (g x)) \<Longrightarrow> keeps P (case r of Inl e \<Rightarrow> f e | Inr x \<Rightarrow> g x)"
  by (cases r) simp_all

lemma keeps_case_option [keeps_rules]:
  "keeps P m \<Longrightarrow> (\<And>x. keeps P (f x)) \<Longrightarrow> keeps P (case r of None \<Rightarrow> m | Some x \<Rightarrow> f x)"
  by (cases r) simp_all

lemma keeps_case_prod [keeps_rules]: "(\<And>a b. keeps P (f a b)) \<Longrightarrow> keeps P (case r of (a, b) \<Rightarrow> f a b)"
  by (cases r) simp

lemma keeps_Let [keeps_rules]: "(\<And>x. keeps P (f x)) \<Longrightarrow> keeps P (let x = e in f x)"
  by simp

lemma keeps_traverse [keeps_rules]: "(\<And>x. keeps P (f x)) \<Longrightarrow> keeps P (State_Monad.traverse_list f xs)"
  by (induction xs) (auto intro: keeps_rules)

text \<open>\<open>gives K T m\<close>: run from a state with \<open>K\<close>, the program ends in a state with \<open>T\<close>.\<close>

definition gives :: "(fsys \<Rightarrow> bool) \<Rightarrow> (fsys \<Rightarrow> bool) \<Rightarrow> 'a fsm \<Rightarrow> bool" where
  "gives K T m \<longleftrightarrow> (\<forall>s. K s \<longrightarrow> T (snd (run_state m s)))"

lemma gives_later: "keeps K m \<Longrightarrow> (\<And>x. gives K T (f x)) \<Longrightarrow> gives K T (State_Monad.bind m f)"
  by (auto simp: gives_def keeps_def split: prod.split)

lemma gives_now: "gives K T m \<Longrightarrow> (\<And>x. keeps T (f x)) \<Longrightarrow> gives K T (State_Monad.bind m f)"
  by (auto simp: gives_def keeps_def split: prod.split)

lemma gives_traverse:
  assumes "x \<in> set xs" "\<And>y. keeps K (f y)" "gives K T (f x)" "\<And>y. keeps T (f y)"
  shows "gives K T (State_Monad.traverse_list f xs)"
  using assms(1)
proof (induction xs)
  case (Cons y ys)
  show ?case
  proof (cases "x = y")
    case True
    then show ?thesis using assms(3,4) by (auto intro!: gives_now keeps_rules)
  next
    case False
    then have "gives K T (State_Monad.traverse_list f ys)" using Cons by simp
    then show ?thesis using assms(2) by (auto intro!: gives_later [OF assms(2)] gives_now keeps_rules)
  qed
qed simp

text \<open>An invariant that does not read the tick or the panic flag.\<close>

definition untimed :: "(fsys \<Rightarrow> bool) \<Rightarrow> bool" where
  "untimed P \<longleftrightarrow> (\<forall>s n b. P (s\<lparr> fy_tick := n, fy_panicked := b \<rparr>) = P s)"

lemma untimed_simps:
  assumes "untimed P" shows "P (s\<lparr> fy_tick := n \<rparr>) = P s" "P (s\<lparr> fy_panicked := b \<rparr>) = P s"
proof -
  have "P (s\<lparr> fy_tick := n, fy_panicked := fy_panicked s \<rparr>) = P s" "P (s\<lparr> fy_tick := fy_tick s, fy_panicked := b \<rparr>) = P s"
    using assms unfolding untimed_def by blast+
  then show "P (s\<lparr> fy_tick := n \<rparr>) = P s" "P (s\<lparr> fy_panicked := b \<rparr>) = P s" by simp_all
qed

lemma keeps_io_op:
  assumes "untimed P" and "\<And>s. P s \<Longrightarrow> P (snd (f s))" shows "keeps P (io_op ev f)"
  using assms by (auto simp: keeps_def io_op_def Let_def untimed_simps split: option.split)

lemma keeps_panic_or: "untimed P \<Longrightarrow> keeps P (panic_or d r)"
  by (auto simp: keeps_def panic_or_def untimed_simps split: may_panic.split)

subsection \<open>Results\<close>

definition text_at :: "fsys \<Rightarrow> path \<Rightarrow> string \<Rightarrow> bool" where
  "text_at s p c \<longleftrightarrow> map_option fd_data (lookup s p) = Some c"

lemma read_result:
  "run_state (fs_read_to_string ev p) s = (r, s') \<Longrightarrow> (\<forall>q. lookup s' q = lookup s q) \<and> (\<forall>c. r = Ok c \<longrightarrow> text_at s p c)"
  by (auto simp: fs_read_to_string_def io_op_def Let_def text_at_def split: if_splits option.splits)

lemma copy_result:
  "run_state (fs_copy ev src dst) s = (r, s') \<Longrightarrow>
    (case r of Inl _ \<Rightarrow> (\<forall>q. lookup s' q = lookup s q) | Inr _ \<Rightarrow> lookup s src \<noteq> None \<and> (\<forall>q. lookup s' q = (if q = dst then lookup s src else lookup s q)))"
  by (auto simp: fs_copy_def io_op_def Let_def split: if_splits option.splits)

lemma write_result:
  "run_state (fs_write ev p d) s = (r, s') \<Longrightarrow>
    (case r of Inl _ \<Rightarrow> (\<forall>q. lookup s' q = lookup s q) | Inr _ \<Rightarrow> text_at s' p d \<and> (\<forall>q. q \<noteq> p \<longrightarrow> lookup s' q = lookup s q))"
  by (auto simp: fs_write_def io_op_def Let_def text_at_def split: if_splits option.splits)

lemma create_dir_result:
  assumes "run_state (fs_create_dir_all ev p) s = (r, s')"
  shows "lookup s' q = lookup s q" "r = Ok () \<Longrightarrow> take n p = d \<Longrightarrow> is_dir s' d"
proof -
  have "take n p = [] \<or> take n p \<in> set (ancestors p)"
    by (cases "take n p = []") (auto simp: ancestors_def image_iff Suc_le_eq intro!: bexI [of _ "min n (length p)"])
  then show "lookup s' q = lookup s q" "r = Ok () \<Longrightarrow> take n p = d \<Longrightarrow> is_dir s' d"
    using assms by (auto simp: fs_create_dir_all_def io_op_def Let_def is_dir_def split: if_splits option.splits)
qed

subsection \<open>Frames\<close>

text \<open>
  An invariant that only the files at some paths can break: it ignores the clock, it survives the update of any other file, and it
  survives new directories. Its laws are about single updates; the lemmas lift them to the operations.
\<close>

locale fs_inv =
  fixes P :: "fsys \<Rightarrow> bool" and ps :: "path set"
  assumes inv_untimed: "untimed P"
    and inv_put: "p \<notin> ps \<Longrightarrow> \<not> is_dir s p \<or> lookup s p \<noteq> None \<Longrightarrow> P s \<Longrightarrow> P (put p f s)"
    and inv_dirs: "list_all (\<lambda>q. lookup s q = None) ds \<Longrightarrow> P s \<Longrightarrow> P (s\<lparr> fy_dirs := ds @ fy_dirs s \<rparr>)"
begin

lemma inv_reads [keeps_rules]:
  "keeps P (fs_read_to_string ev q)" "keeps P (fs_read_dir ev q)" "keeps P (fs_metadata ev q)" "keeps P (panic_or d r)"
  using inv_untimed
  by (auto simp: fs_read_to_string_def fs_read_dir_def fs_metadata_def intro!: keeps_io_op keeps_panic_or split: option.split)

lemma inv_create_dir_all [keeps_rules]: "keeps P (fs_create_dir_all ev q)"
  using inv_untimed
  by (auto simp: fs_create_dir_all_def list_ex_iff list_all_iff intro!: keeps_io_op inv_dirs)

lemma inv_copy: "dst \<notin> ps \<Longrightarrow> keeps P (fs_copy ev src dst)"
  using inv_untimed by (auto simp: fs_copy_def intro!: keeps_io_op inv_put split: option.split)

lemma inv_write: "q \<notin> ps \<Longrightarrow> keeps P (fs_write ev q data)"
  using inv_untimed by (auto simp: fs_write_def intro!: keeps_io_op inv_put)

lemma inv_chmod: "q \<notin> ps \<Longrightarrow> keeps P (fs_set_permissions ev q mode)"
  using inv_untimed by (auto simp: fs_set_permissions_def intro!: keeps_io_op inv_put split: option.split)

lemma inv_chmod_safe: "q \<notin> ps \<Longrightarrow> keeps P (chmod_safe ev q mode)"
  by (auto simp: chmod_safe_def intro!: keeps_rules inv_chmod)

lemmas inv_writes = inv_copy inv_write inv_chmod inv_chmod_safe

end

text \<open>The invariants every file system program keeps: no path is both a file and a directory, and a directory stays one.\<close>

definition wf_fs :: "fsys \<Rightarrow> bool" where
  "wf_fs s \<longleftrightarrow> (\<forall>p. lookup s p \<noteq> None \<longrightarrow> \<not> is_dir s p)"

lemma is_dir_fields [simp]:
  "is_dir (s\<lparr> fy_tick := n \<rparr>) p = is_dir s p" "is_dir (s\<lparr> fy_panicked := b \<rparr>) p = is_dir s p" "is_dir (put q f s) p = is_dir s p"
  "is_dir (s\<lparr> fy_dirs := ds @ fy_dirs s \<rparr>) p \<longleftrightarrow> p \<in> set ds \<or> is_dir s p"
  by (auto simp: is_dir_def)

interpretation wf: fs_inv wf_fs "{}"
  by unfold_locales (auto simp: untimed_def wf_fs_def list_all_iff)

interpretation dir: fs_inv "\<lambda>s. is_dir s p" "{}" for p
  by unfold_locales (auto simp: untimed_def)

text \<open>A statement about the files at the given paths.\<close>

definition reads_only :: "path set \<Rightarrow> (fsys \<Rightarrow> bool) \<Rightarrow> bool" where
  "reads_only ps P \<longleftrightarrow> (\<forall>s s'. (\<forall>p\<in>ps. lookup s p = lookup s' p) \<longrightarrow> P s = P s')"

lemma reads_onlyD: "reads_only ps P \<Longrightarrow> (\<And>p. p \<in> ps \<Longrightarrow> lookup s p = lookup s' p) \<Longrightarrow> P s = P s'"
  unfolding reads_only_def by blast

lemma fs_inv_reads_only:
  assumes "reads_only ps P" shows "fs_inv P ps"
proof
  show "untimed P" unfolding untimed_def by (intro allI reads_onlyD [OF assms]) simp
  show "P (put p f s)" if "p \<notin> ps" "P s" for p f s
    using that reads_onlyD [OF assms, of "put p f s" s] by (metis lookup_put)
  show "P (s\<lparr> fy_dirs := ds @ fy_dirs s \<rparr>)" if "P s" for ds s
    using that reads_onlyD [OF assms, of "s\<lparr> fy_dirs := ds @ fy_dirs s \<rparr>" s] by auto
qed

end
