(* ===== verification/Redact.thy ===== *)
theory Redact
  imports RustStr "HOL-Library.Sublist"
begin

text \<open>
  The redaction of API keys in memory files (\<open>secureops-harden/src/credential_hardening.rs\<close>): for each known prefix a scan that
  replaces the prefix and the run of token characters behind it, when the run has at least twenty characters.

  The lemmas show that the result contains no key of any of the five kinds, that a text without keys is left alone, and hence that
  redacting twice is redacting once.
\<close>

definition API_KEY_PREFIXES :: "string list" where
  "API_KEY_PREFIXES = [''sk-ant-'', ''sk-proj-'', ''sk-'', ''xoxb-'', ''xoxp-'']"

definition REDACTED :: string where
  "REDACTED = ''[REDACTED_BY_SECUREOPS]''"

definition is_token_char :: "char \<Rightarrow> bool" where
  "is_token_char c \<longleftrightarrow> (let n = char_code c in
     48 \<le> n \<and> n \<le> 57 \<or> 65 \<le> n \<and> n \<le> 90 \<or> 97 \<le> n \<and> n \<le> 122) \<or> c = CHR ''_'' \<or> c = CHR ''-''"

text \<open>The run of token characters after the prefix at the head of the text, if it is long enough to be a key.\<close>

definition key_run :: "string \<Rightarrow> string \<Rightarrow> string option" where
  "key_run pre s = (case strip_prefix s pre of
     None \<Rightarrow> None
   | Some rest \<Rightarrow> if 20 \<le> length (takeWhile is_token_char rest) then Some (dropWhile is_token_char rest) else None)"

lemma key_run_shorter: "key_run pre s = Some rest \<Longrightarrow> length rest < length s"
proof -
  assume "key_run pre s = Some rest"
  then obtain r where r: "strip_prefix s pre = Some r" "20 \<le> length (takeWhile is_token_char r)" "rest = dropWhile is_token_char r"
    by (auto simp: key_run_def split: option.splits if_splits)
  have "length r = length (takeWhile is_token_char r) + length rest"
    unfolding r(3) by (metis length_append takeWhile_dropWhile_id)
  moreover have "length r \<le> length s" using r(1) by (auto simp: strip_prefix_def split: if_splits)
  ultimately show ?thesis using r(2) by simp
qed

function redact_one :: "string \<Rightarrow> string \<Rightarrow> string" where
  "redact_one pre [] = []"
| "redact_one pre (c # r) =
    (case key_run pre (c # r) of
       Some rest \<Rightarrow> REDACTED @ redact_one pre rest
     | None \<Rightarrow> (c # takeWhile is_cont r) @ redact_one pre (dropWhile is_cont r))"
  by pat_completeness auto
termination
  by (relation "measure (\<lambda>(_, s). length s)") (auto dest: key_run_shorter simp: le_imp_less_Suc length_dropWhile_le)

definition redact_api_keys :: "string \<Rightarrow> string" where
  "redact_api_keys content = foldl (\<lambda>redacted pre. redact_one pre redacted) content API_KEY_PREFIXES"

subsection \<open>Keys\<close>

text \<open>A text has a key of a kind: somewhere the prefix, followed by twenty token characters.\<close>

definition has_key :: "string \<Rightarrow> string \<Rightarrow> bool" where
  "has_key pre s \<longleftrightarrow> (\<exists>t. length t = 20 \<and> list_all is_token_char t \<and> sublist (pre @ t) s)"

definition token_word :: "string \<Rightarrow> bool" where
  "token_word w \<longleftrightarrow> w \<noteq> [] \<and> list_all is_token_char w"

lemma cont_not_token: "is_cont c \<Longrightarrow> \<not> is_token_char c"
  by (auto simp: is_cont_def is_token_char_def char_code_def Let_def)

lemma not_token_brackets: "\<not> is_token_char (CHR ''['')" "\<not> is_token_char (CHR '']'')"
  by (simp_all add: is_token_char_def char_code_def)

text \<open>A word of token characters at the head of \<open>a @ b\<close>, where \<open>a\<close> holds no token character, must be at the head of \<open>b\<close>.\<close>

lemma sublist_skip:
  assumes "list_all (\<lambda>c. \<not> is_token_char c) a" "token_word w" "sublist w (a @ b)" shows "sublist w b"
  using assms
proof (induction a)
  case (Cons c a)
  then have "\<not> prefix w (c # a @ b)" by (cases w) (auto simp: token_word_def)
  then have "sublist w (a @ b)" using Cons.prems(3) by (simp add: sublist_Cons_right)
  then show ?case using Cons by simp
qed simp

lemma prefix_redact:
  assumes "token_word w" "prefix w (redact_one pre s)" shows "prefix w s"
  using assms
proof (induction pre s arbitrary: w rule: redact_one.induct)
  case (2 pre c r)
  show ?case
  proof (cases "key_run pre (c # r)")
    case None
    then obtain w' where w: "w = c # w'" "prefix w' (takeWhile is_cont r @ redact_one pre (dropWhile is_cont r))"
      using 2(3,4) by (cases w) (auto simp: token_word_def)
    have "prefix w' r"
    proof (cases "takeWhile is_cont r")
      case Nil
      then have "dropWhile is_cont r = r" by (metis append_Nil takeWhile_dropWhile_id)
      then show ?thesis using 2(1) [OF None, of w'] w 2(3) Nil by (cases "w' = []") (auto simp: token_word_def)
    next
      case (Cons d ds)
      then have "is_cont d" by (metis list.set_intros(1) set_takeWhileD)
      then have "w' = []" using w 2(3) Cons by (cases w') (auto simp: token_word_def dest: cont_not_token)
      then show ?thesis by simp
    qed
    then show ?thesis by (simp add: w)
  next
    case (Some rest)
    then have "prefix w (CHR ''['' # drop 1 REDACTED @ redact_one pre rest)"
      using 2(4) by (simp add: REDACTED_def)
    then show ?thesis using 2(3) not_token_brackets by (cases w) (auto simp: token_word_def)
  qed
qed (auto simp: token_word_def)

lemma sublist_past_stop:
  assumes "\<not> is_token_char d" "token_word w" "length x < length w" "sublist w (x @ d # b)" shows "sublist w b"
  using assms
proof (induction x)
  case Nil
  then show ?case using sublist_skip [of "[d]" w b] by simp
next
  case (Cons c x)
  have "\<not> prefix w ((c # x) @ d # b)"
  proof
    assume "prefix w ((c # x) @ d # b)"
    then have "w ! length (c # x) = d"
      using Cons.prems(3) by (auto simp: prefix_def nth_append) (metis length_Cons nth_append nth_append_length append_Cons)
    moreover have "is_token_char (w ! length (c # x))"
      using Cons.prems(2,3) by (simp add: token_word_def list_all_length)
    ultimately show False using Cons.prems(1) by simp
  qed
  then show ?case using Cons by (simp add: sublist_Cons_right)
qed

lemma sublist_redacted:
  assumes "token_word w" "22 < length w" "sublist w (REDACTED @ b)" shows "sublist w b"
  using sublist_past_stop [of "CHR '']''" w "butlast REDACTED" b] assms not_token_brackets by (simp add: REDACTED_def)

lemma sublist_redact:
  assumes "token_word w" "22 < length w" "sublist w (redact_one pre s)" shows "sublist w s"
  using assms
proof (induction pre s rule: redact_one.induct)
  case (2 pre c r)
  show ?case
  proof (cases "key_run pre (c # r)")
    case None
    have "prefix w (redact_one pre (c # r)) \<or> sublist w (takeWhile is_cont r @ redact_one pre (dropWhile is_cont r))"
      using 2(5) None by (simp add: sublist_Cons_right)
    then show ?thesis
    proof
      assume "prefix w (redact_one pre (c # r))"
      then show ?thesis using prefix_redact [OF 2(3)] by blast
    next
      assume "sublist w (takeWhile is_cont r @ redact_one pre (dropWhile is_cont r))"
      moreover have "list_all (\<lambda>c. \<not> is_token_char c) (takeWhile is_cont r)"
        using cont_not_token set_takeWhileD [of _ is_cont r] by (metis list_all_iff)
      ultimately have "sublist w (redact_one pre (dropWhile is_cont r))" using sublist_skip 2(3) by blast
      then have "sublist w (dropWhile is_cont r)" using 2(1) [OF None 2(3,4)] by simp
      then show ?thesis
        by (meson sublist_order.order_trans suffix_ConsI suffix_dropWhile suffix_imp_sublist)
    qed
  next
    case (Some rest)
    then have "sublist w (redact_one pre rest)" using 2(5) sublist_redacted [OF 2(3,4)] by simp
    then have "sublist w rest" using 2(2) [OF Some 2(3,4)] by simp
    moreover have "suffix rest (c # r)"
      using Some by (auto simp: key_run_def strip_prefix_def split: option.splits if_splits)
        (metis suffix_dropWhile suffix_drop suffix_order.order_trans)
    ultimately show ?thesis by (meson sublist_order.order_trans suffix_imp_sublist)
  qed
qed simp

lemma has_key_redact:
  assumes "token_word p" "2 < length p" "has_key p (redact_one q s)" shows "has_key p s"
proof -
  from assms(3) obtain t where t: "length t = 20" "list_all is_token_char t" "sublist (p @ t) (redact_one q s)"
    by (auto simp: has_key_def)
  have "token_word (p @ t)" "22 < length (p @ t)" using assms(1,2) t by (simp_all add: token_word_def)
  then have "sublist (p @ t) s" using t(3) by (rule sublist_redact)
  then show ?thesis using t(1,2) unfolding has_key_def by blast
qed

lemma key_run_key: "prefix (pre @ t) s \<Longrightarrow> list_all is_token_char t \<Longrightarrow> length t = 20 \<Longrightarrow> key_run pre s \<noteq> None"
  by (auto simp: key_run_def prefix_def strip_prefix_def list_all_iff takeWhile_append2)

lemma redact_one_removes:
  assumes "token_word pre" "2 < length pre" shows "\<not> has_key pre (redact_one pre s)"
proof -
  have "\<not> sublist (pre @ t) (redact_one pre s)" if t: "length t = 20" "list_all is_token_char t" for t
    using assms
  proof (induction pre s rule: redact_one.induct)
    case (1 pre)
    then show ?case by (simp add: token_word_def)
  next
    case (2 pre c r)
    have w: "token_word (pre @ t)" "22 < length (pre @ t)" using 2(3,4) t by (simp_all add: token_word_def)
    show ?case
    proof (cases "key_run pre (c # r)")
      case None
      have "\<not> prefix (pre @ t) (redact_one pre (c # r))"
        using prefix_redact [OF w(1)] key_run_key [OF _ t(2,1)] None by blast
      moreover have "list_all (\<lambda>c. \<not> is_token_char c) (takeWhile is_cont r)"
        using cont_not_token set_takeWhileD [of _ is_cont r] by (metis list_all_iff)
      ultimately show ?thesis
        using 2(1) [OF None 2(3,4)] sublist_skip [OF _ w(1)] None by (auto simp: sublist_Cons_right)
    next
      case (Some rest)
      then show ?thesis using 2(2) [OF Some 2(3,4)] sublist_redacted [OF w] by auto
    qed
  qed
  then show ?thesis by (auto simp: has_key_def)
qed

lemma redact_one_id: "\<not> has_key pre s \<Longrightarrow> redact_one pre s = s"
proof (induction pre s rule: redact_one.induct)
  case (2 pre c r)
  have "key_run pre (c # r) = None"
  proof (rule ccontr)
    assume "key_run pre (c # r) \<noteq> None"
    then obtain rest where s: "c # r = pre @ rest" "20 \<le> length (takeWhile is_token_char rest)"
      by (auto simp: key_run_def strip_prefix_Some split: option.splits if_splits)
    let ?t = "take 20 (takeWhile is_token_char rest)"
    have "prefix ?t rest" by (meson prefix_order.trans take_is_prefix takeWhile_is_prefix)
    then have "sublist (pre @ ?t) (c # r)" unfolding s(1) by (simp add: prefix_imp_sublist)
    moreover have "length ?t = 20" "list_all is_token_char ?t"
      using s(2) by (auto simp: list_all_iff dest: in_set_takeD set_takeWhileD)
    ultimately show False using 2(3) unfolding has_key_def by blast
  qed
  moreover have "\<not> has_key pre (dropWhile is_cont r)"
    using 2(3) unfolding has_key_def
    by (meson sublist_order.order_trans suffix_ConsI suffix_dropWhile suffix_imp_sublist)
  ultimately show ?case using 2(1) by simp
qed simp

lemma prefixes_ok: "p \<in> set API_KEY_PREFIXES \<Longrightarrow> token_word p \<and> 2 < length p"
  by (auto simp: API_KEY_PREFIXES_def token_word_def is_token_char_def char_code_def)

lemma foldl_redact_keeps: "\<not> has_key p s \<Longrightarrow> p \<in> set API_KEY_PREFIXES \<Longrightarrow> \<not> has_key p (foldl (\<lambda>s q. redact_one q s) s qs)"
  by (induction qs arbitrary: s) (auto dest: prefixes_ok has_key_redact)

lemma foldl_redact_removes:
  "p \<in> set qs \<Longrightarrow> set qs \<subseteq> set API_KEY_PREFIXES \<Longrightarrow> \<not> has_key p (foldl (\<lambda>s q. redact_one q s) s qs)"
proof (induction qs arbitrary: s)
  case (Cons q qs)
  show ?case
  proof (cases "p = q")
    case True
    then show ?thesis using Cons.prems prefixes_ok [of p] redact_one_removes [of p s] foldl_redact_keeps [of p] by simp
  next
    case False
    then show ?thesis using Cons by simp
  qed
qed simp

lemma foldl_redact_id: "list_all (\<lambda>p. \<not> has_key p s) qs \<Longrightarrow> foldl (\<lambda>s q. redact_one q s) s qs = s"
  by (induction qs) (simp_all add: redact_one_id)

lemma redact_no_key: "p \<in> set API_KEY_PREFIXES \<Longrightarrow> \<not> has_key p (redact_api_keys s)"
  by (simp add: redact_api_keys_def foldl_redact_removes)

lemma redact_idem: "redact_api_keys (redact_api_keys s) = redact_api_keys s"
  using foldl_redact_id [of "redact_api_keys s" API_KEY_PREFIXES] redact_no_key
  unfolding redact_api_keys_def list_all_iff by blast

text \<open>
  C8: After redaction a text contains no API key: no known prefix is followed by twenty token characters anywhere, whatever the text was
  (keys may be adjacent, nested in one another or cut by other characters). A text is changed exactly when it contained a key, and
  redacting again changes nothing.
\<close>

theorem redaction_complete:
  "list_all (\<lambda>p. \<not> has_key p (redact_api_keys content)) API_KEY_PREFIXES \<and>
   (redact_api_keys content = content \<longleftrightarrow> list_all (\<lambda>p. \<not> has_key p content) API_KEY_PREFIXES) \<and>
   redact_api_keys (redact_api_keys content) = redact_api_keys content"
proof (intro conjI redact_idem)
  show all: "list_all (\<lambda>p. \<not> has_key p (redact_api_keys content)) API_KEY_PREFIXES"
    by (simp add: list_all_iff redact_no_key)
  show "redact_api_keys content = content \<longleftrightarrow> list_all (\<lambda>p. \<not> has_key p content) API_KEY_PREFIXES"
    using all foldl_redact_id [of content API_KEY_PREFIXES] by (auto simp: redact_api_keys_def)
qed

end
