(* ===== verification/HardenConfig.thy ===== *)
theory HardenConfig
  imports Checks CheckGateway CheckFiles
begin

text \<open>
  What the hardening modules of \<open>secureops-harden\<close> compute: the rewritten configuration and the list of actions of
  \<open>gateway_hardening.rs\<close> and \<open>config_hardening.rs\<close>, the override of \<open>docker_hardening.rs\<close>, the scripts and the time stamp of
  \<open>network_hardening.rs\<close>, and the findings of the five \<open>check\<close> methods. The file operations around them are in the theory
  of the engine.

  The lemmas relate hardening to the audit: which gateway findings are gone after the rewrite and which stay, and that both rewrites are
  idempotent.
\<close>

record hardening_action =
  hx_id :: string
  hx_description :: string
  hx_before :: string
  hx_after :: string

record hardening_result =
  hr_module :: string
  hr_applied :: "hardening_action list"
  hr_skipped :: "hardening_action list"
  hr_errors :: "string list"

definition action :: "string \<Rightarrow> string \<Rightarrow> string \<Rightarrow> string \<Rightarrow> hardening_action" where
  "action i d b a = \<lparr> hx_id = i, hx_description = d, hx_before = b, hx_after = a \<rparr>"

subsection \<open>Gateway\<close>

definition gateway_auth_default :: gateway_auth where
  "gateway_auth_default = \<lparr> ga_mode = None, ga_token = None, ga_password = None \<rparr>"

definition control_ui_default :: control_ui_config where
  "control_ui_default = \<lparr> cu_dangerously_disable_device_auth = None, cu_allow_insecure_auth = None \<rparr>"

definition gateway_default :: gateway_config where
  "gateway_default = \<lparr> gw_bind = None, gw_port = None, gw_auth_token = None, gw_auth = None, gw_tls = None, gw_mdns = None,
     gw_control_ui = None, gw_trusted_proxies = None \<rparr>"

definition harden_bind :: "gateway_config \<Rightarrow> gateway_config \<times> hardening_action list" where
  "harden_bind gw =
    (if gw_bind gw \<noteq> Some ''loopback'' then
       (gw\<lparr> gw_bind := Some ''loopback'' \<rparr>,
        [action ''gw-bind'' ''Set gateway bind to loopback'' (unwrap_or (gw_bind gw) ''undefined'') ''loopback''])
     else (gw, []))"

definition auth_enabled :: "gateway_auth \<Rightarrow> bool" where
  "auth_enabled auth \<longleftrightarrow> ga_mode auth = Some ''password'' \<or> ga_mode auth = Some ''token''"

definition existing_secret :: "gateway_auth \<Rightarrow> string" where
  "existing_secret auth = unwrap_or (or_opt (ga_password auth) (ga_token auth)) []"

definition weak_secret :: "gateway_auth \<Rightarrow> bool" where
  "weak_secret auth \<longleftrightarrow> existing_secret auth \<noteq> [] \<and> length (existing_secret auth) < 32"

definition harden_auth :: "string \<Rightarrow> gateway_auth \<Rightarrow> gateway_auth \<times> hardening_action list" where
  "harden_auth token auth =
    (if \<not> auth_enabled auth then
       (auth\<lparr> ga_mode := Some ''password'', ga_password := Some token \<rparr>,
        [action ''gw-auth'' ''Enabled password authentication with strong token'' (''mode='' @ unwrap_or (ga_mode auth) ''none'')
           (''mode=password, token='' @ take 8 token @ ''...'')])
     else if weak_secret auth then
       (auth\<lparr> ga_password := Some token \<rparr>,
        [action ''gw-token-strength'' ''Regenerated stronger auth token'' (''length='' @ show_nat (length (existing_secret auth)))
           (''length='' @ show_nat (length token))])
     else (auth, []))"

definition harden_control_ui :: "control_ui_config \<Rightarrow> control_ui_config \<times> hardening_action list" where
  "harden_control_ui ui =
    (let (ui1, a1) = (if cu_dangerously_disable_device_auth ui = Some True then
           (ui\<lparr> cu_dangerously_disable_device_auth := Some False \<rparr>,
            [action ''gw-device-auth'' ''Re-enabled device authentication'' ''true'' ''false'']) else (ui, []));
         (ui2, a2) = (if cu_allow_insecure_auth ui1 = Some True then
           (ui1\<lparr> cu_allow_insecure_auth := Some False \<rparr>,
            [action ''gw-insecure-auth'' ''Disabled insecure authentication'' ''true'' ''false'']) else (ui1, []))
     in (ui2, a1 @ a2))"

definition gateway_of :: "openclaw_config \<Rightarrow> gateway_config" where
  "gateway_of c = unwrap_or (oc_gateway c) gateway_default"

definition auth_of :: "gateway_config \<Rightarrow> gateway_auth" where
  "auth_of gw = unwrap_or (gw_auth gw) gateway_auth_default"

text \<open>The rewrite asks for a fresh token exactly in the two branches of \<open>harden_auth\<close>.\<close>

definition needs_token :: "openclaw_config \<Rightarrow> bool" where
  "needs_token c = (let auth = auth_of (gateway_of c) in \<not> auth_enabled auth \<or> weak_secret auth)"

definition gateway_harden :: "string \<Rightarrow> openclaw_config \<Rightarrow> openclaw_config \<times> hardening_action list" where
  "gateway_harden token c =
    (let (gw1, a1) = harden_bind (gateway_of c);
         (auth, a2) = harden_auth token (auth_of gw1);
         (ui, a3) = harden_control_ui (unwrap_or (gw_control_ui gw1) control_ui_default);
         a4 = (if gw_mdns gw1 \<noteq> None then
           [action ''gw-strip-mdns'' ''Removed invalid \"gateway.mdns\" key (not in OpenClaw schema)'' ''present'' ''removed''] else []);
         gw2 = gw1\<lparr> gw_auth := Some auth, gw_control_ui := Some ui, gw_mdns := None,
           gw_trusted_proxies := Some (unwrap_or (gw_trusted_proxies gw1) []) \<rparr>
     in (c\<lparr> oc_gateway := Some gw2 \<rparr>, a1 @ a2 @ a3 @ a4))"

subsection \<open>Configuration\<close>

definition config_harden :: "openclaw_config \<Rightarrow> openclaw_config \<times> hardening_action list" where
  "config_harden c =
    (let tools = unwrap_or (oc_tools c) \<lparr> tc_exec = None \<rparr>;
         ex = unwrap_or (tc_exec tools) \<lparr> te_host = None \<rparr>;
         sess = unwrap_or (oc_session c) \<lparr> se_dm_scope = None \<rparr>;
         lg = unwrap_or (oc_logging c) \<lparr> lg_redact_sensitive = None \<rparr>;
         a1 = (if te_host ex \<noteq> Some ''sandbox'' then
           [action ''config-exec-host'' ''Set tools.exec.host to \"sandbox\"'' (unwrap_or (te_host ex) ''undefined'') ''sandbox''] else []);
         a2 = (if se_dm_scope sess \<noteq> Some ''per-channel-peer'' then
           [action ''config-dm-scope'' ''Set session.dmScope to \"per-channel-peer\"'' (unwrap_or (se_dm_scope sess) ''undefined'')
              ''per-channel-peer''] else []);
         a3 = (if lg_redact_sensitive lg \<noteq> Some ''tools'' then
           [action ''config-log-redact'' ''Enabled sensitive log redaction'' (unwrap_or (lg_redact_sensitive lg) ''undefined'') ''tools'']
           else []);
         a4 = (if oc_exec c \<noteq> None then
           [action ''config-strip-exec'' ''Removed invalid root-level \"exec\" key (not in OpenClaw schema)'' ''present'' ''removed''] else []);
         a5 = (if oc_sandbox c \<noteq> None then
           [action ''config-strip-sandbox'' ''Removed invalid root-level \"sandbox\" key (not in OpenClaw schema)'' ''present'' ''removed'']
           else [])
     in (c\<lparr> oc_tools := Some (tools\<lparr> tc_exec := Some (ex\<lparr> te_host := Some ''sandbox'' \<rparr>) \<rparr>),
            oc_session := Some (sess\<lparr> se_dm_scope := Some ''per-channel-peer'' \<rparr>),
            oc_logging := Some (lg\<lparr> lg_redact_sensitive := Some ''tools'' \<rparr>),
            oc_exec := None, oc_sandbox := None \<rparr>, a1 @ a2 @ a3 @ a4 @ a5))"

subsection \<open>Docker\<close>

definition hardened_override_config :: docker_compose_config where
  "hardened_override_config =
    \<lparr> dc_services = Some [(''openclaw-gateway'',
        \<lparr> ds_read_only = Some True, ds_cap_drop = Some [''ALL''], ds_security_opt = Some [''no-new-privileges:true''],
          ds_networks = Some [''restricted-net''], ds_network_mode = None, ds_volumes = Some [''openclaw-data:/app/data''],
          ds_deploy = Some \<lparr> dd_resources = Some \<lparr> dr_limits = Some \<lparr> dl_memory = Some ''2G'', dl_cpus = Some ''2.0'' \<rparr> \<rparr> \<rparr> \<rparr>)],
      dc_networks = Some [(''restricted-net'', \<lparr> dn_driver = Some ''bridge'', dn_internal = Some False \<rparr>)] \<rparr>"

subsection \<open>Network\<close>

definition EGRESS_ALLOWLIST :: "string list" where
  "EGRESS_ALLOWLIST = [''api.anthropic.com'', ''api.openai.com'', ''generativelanguage.googleapis.com'', ''api.together.xyz'', ''openrouter.ai'']"

text \<open>Zero-padded decimal, \<open>{:04}\<close> and the like.\<close>

definition pad :: "nat \<Rightarrow> nat \<Rightarrow> string" where
  "pad w n = (let s = show_nat n in replicate (w - length s) (CHR ''0'') @ s)"

text \<open>Seconds are unsigned, so the day number is non-negative and the divisions of \<open>i64\<close> are those of the naturals.\<close>

definition civil_from_days :: "nat \<Rightarrow> nat \<times> nat \<times> nat" where
  "civil_from_days days =
    (let z = days + 719468;
         era = z div 146097;
         doe = z - era * 146097;
         yoe = (doe - doe div 1460 + doe div 36524 - doe div 146096) div 365;
         y = yoe + era * 400;
         doy = doe - (365 * yoe + yoe div 4 - yoe div 100);
         mp = (5 * doy + 2) div 153;
         d = doy - (153 * mp + 2) div 5 + 1;
         m = (if mp < 10 then mp + 3 else mp - 9)
     in (if m \<le> 2 then y + 1 else y, m, d))"

definition iso8601 :: "u64 \<Rightarrow> u32 \<Rightarrow> string" where
  "iso8601 secs millis =
    (let n = unat secs; rem = n mod 86400; (year, m, d) = civil_from_days (n div 86400)
     in pad 4 year @ ''-'' @ pad 2 m @ ''-'' @ pad 2 d @ ''T'' @ pad 2 (rem div 3600) @ '':'' @ pad 2 (rem mod 3600 div 60) @ '':'' @
        pad 2 (rem mod 60) @ ''.'' @ pad 3 (unat millis) @ ''Z'')"

definition generate_iptables_script :: "string \<Rightarrow> string list \<Rightarrow> string list \<Rightarrow> string" where
  "generate_iptables_script generated allowlist blocklist = join [newline]
    ([''#!/bin/bash'', ''# SecureOps Network Hardening - iptables rules'', ''# Review carefully before applying!'',
      ''# Generated: '' @ generated, [], ''# Block known C2 IPs''] @
     map (\<lambda>ip. ''iptables -A OUTPUT -d '' @ ip @ '' -j DROP'') blocklist @
     [[], ''# Egress allowlist (uncomment to enforce)'',
      ''# WARNING: This will restrict ALL outbound traffic to only allowed destinations''] @
     map (\<lambda>d. ''# iptables -A OUTPUT -d '' @ d @ '' -p tcp --dport 443 -j ACCEPT'') allowlist @
     [''# iptables -A OUTPUT -p tcp --dport 443 -j DROP  # Block all other HTTPS''])"

definition generate_pf_script :: "string \<Rightarrow> string list \<Rightarrow> string list \<Rightarrow> string" where
  "generate_pf_script generated allowlist blocklist = join [newline]
    ([''# SecureOps Network Hardening - pf rules (macOS)'', ''# Review carefully before applying!'',
      ''# Generated: '' @ generated, ''# Add these rules to /etc/pf.conf'', [], ''# Block known C2 IPs''] @
     map (\<lambda>ip. ''block out quick on en0 to '' @ ip) blocklist @
     [[], ''# Egress allowlist (uncomment to enforce)''] @
     map (\<lambda>d. ''# pass out on en0 proto tcp to '' @ d @ '' port 443'') allowlist @
     [''# block out on en0 proto tcp to any port 443  # Block all other HTTPS''])"

subsection \<open>The check methods\<close>

definition fix_sc_gw_001 :: "string \<Rightarrow> audit_finding" where
  "fix_sc_gw_001 bind =
    (set_owasp_asi ''ASI03''
     \<circ> set_auto_fixable True
     \<circ> set_remediation ''Will set gateway.bind to \"loopback\"''
     \<circ> set_evidence (''gateway.bind = \"'' @ bind @ ''\"'')
     \<circ> set_description ''Gateway needs to be bound to loopback.''
     \<circ> set_title ''Gateway not bound to loopback'')
    (builder ''SC-GW-001'' Critical ''gateway'')"

definition fix_sc_gw_002 :: "string option \<Rightarrow> audit_finding" where
  "fix_sc_gw_002 auth_mode =
    (set_owasp_asi ''ASI03''
     \<circ> set_auto_fixable True
     \<circ> set_remediation ''Will set gateway.auth.mode to \"password\" and generate a token''
     \<circ> set_evidence (''gateway.auth.mode = \"'' @ unwrap_or auth_mode ''none'' @ ''\"'')
     \<circ> set_description ''Will enable password authentication with a strong token.''
     \<circ> set_title ''Gateway authentication disabled'')
    (builder ''SC-GW-002'' Critical ''gateway'')"

definition fix_sc_gw_003 :: "nat \<Rightarrow> audit_finding" where
  "fix_sc_gw_003 n =
    (set_owasp_asi ''ASI03''
     \<circ> set_auto_fixable True
     \<circ> set_remediation ''Will generate a 32-byte (64-char hex) token''
     \<circ> set_evidence (''Token length: '' @ show_nat n)
     \<circ> set_description ''Will regenerate a strong 64-character token.''
     \<circ> set_title ''Weak gateway auth token'')
    (builder ''SC-GW-003'' Medium ''gateway'')"

definition fix_sc_gw_009 :: "audit_finding" where
  "fix_sc_gw_009 =
    (set_owasp_asi ''ASI03''
     \<circ> set_auto_fixable True
     \<circ> set_remediation ''Will set to false''
     \<circ> set_evidence ''dangerouslyDisableDeviceAuth = true''
     \<circ> set_description ''Will re-enable device authentication.''
     \<circ> set_title ''Device auth disabled'')
    (builder ''SC-GW-009'' Critical ''gateway'')"

definition fix_sc_gw_010 :: "audit_finding" where
  "fix_sc_gw_010 =
    (set_owasp_asi ''ASI03''
     \<circ> set_auto_fixable True
     \<circ> set_remediation ''Will set to false''
     \<circ> set_evidence ''allowInsecureAuth = true''
     \<circ> set_description ''Will disable insecure auth.''
     \<circ> set_title ''Insecure auth allowed'')
    (builder ''SC-GW-010'' Medium ''gateway'')"

definition fix_sc_gw_007 :: "string option \<Rightarrow> audit_finding" where
  "fix_sc_gw_007 mode =
    (set_owasp_asi ''ASI05''
     \<circ> set_remediation ''Manually set gateway.mdns.mode to \"minimal\" (not auto-fixable - key not in OpenClaw config schema)''
     \<circ> set_evidence (''mdns.mode = \"'' @ unwrap_or mode [] @ ''\"'')
     \<circ> set_description ''mDNS is broadcasting in full mode, exposing service information to the local network.''
     \<circ> set_title ''mDNS in full mode'')
    (builder ''SC-GW-007'' Medium ''gateway'')"

definition fix_sc_cred_001 :: "u32 \<Rightarrow> audit_finding" where
  "fix_sc_cred_001 perms =
    (set_owasp_asi ''ASI03''
     \<circ> set_auto_fixable True
     \<circ> set_remediation ''chmod 700''
     \<circ> set_evidence (''Permissions: '' @ show_oct perms)
     \<circ> set_description ''Will chmod 700 the state directory.''
     \<circ> set_title ''State directory permissions too open'')
    (builder ''SC-CRED-001'' High ''credentials'')"

definition fix_sc_exec_001 :: "audit_finding" where
  "fix_sc_exec_001 =
    (set_owasp_asi ''ASI02''
     \<circ> set_remediation ''Manually set exec.approvals to \"always\" in your OpenClaw settings (not auto-fixable - key not in OpenClaw config schema)''
     \<circ> set_evidence ''exec.approvals = \"off\"''
     \<circ> set_description ''Execution approvals are disabled. This allows commands to run without user confirmation.''
     \<circ> set_title ''Execution approvals disabled'')
    (builder ''SC-EXEC-001'' Critical ''execution'')"

definition fix_sc_exec_003 :: "string option \<Rightarrow> audit_finding" where
  "fix_sc_exec_003 sandbox_mode =
    (set_owasp_asi ''ASI05''
     \<circ> set_remediation ''Manually set sandbox.mode to \"all\" in your OpenClaw settings (not auto-fixable - key not in OpenClaw config schema)''
     \<circ> set_evidence (''sandbox.mode = \"'' @ unwrap_or sandbox_mode ''undefined'' @ ''\"'')
     \<circ> set_description ''Sandbox mode is not set to \"all\". Not all commands run in a sandboxed environment.''
     \<circ> set_title ''Sandbox not set to all'')
    (builder ''SC-EXEC-003'' Medium ''execution'')"

definition fix_sc_ac_001 :: "channel_config \<Rightarrow> audit_finding" where
  "fix_sc_ac_001 ch =
    (set_owasp_asi ''ASI01''
     \<circ> set_auto_fixable True
     \<circ> set_remediation ''Set dmPolicy to \"pairing\"''
     \<circ> set_evidence ''dmPolicy = \"open\"''
     \<circ> set_description ''Will set to \"pairing\".''
     \<circ> set_title (''Channel \"'' @ ch_name ch @ ''\" has open DM policy''))
    (builder ''SC-AC-001'' High ''access-control'')"

definition fix_sc_docker_info :: "audit_finding" where
  "fix_sc_docker_info =
    (set_owasp_asi ''ASI05''
     \<circ> set_remediation ''If using Docker, provide docker-compose.yml for security analysis''
     \<circ> set_evidence ''No docker-compose configuration in context''
     \<circ> set_description ''Docker hardening checks skipped - no docker-compose.yml detected.''
     \<circ> set_title ''No Docker Compose configuration found'')
    (builder ''SC-DOCKER-INFO'' Info ''execution'')"

definition fix_sc_exec_004 :: "string \<Rightarrow> audit_finding" where
  "fix_sc_exec_004 name =
    (set_owasp_asi ''ASI05''
     \<circ> set_auto_fixable True
     \<circ> set_remediation ''Add read_only: true''
     \<circ> set_evidence ''read_only not set''
     \<circ> set_description ''Will add read_only: true.''
     \<circ> set_title (''Service \"'' @ name @ ''\" not read-only''))
    (builder ''SC-EXEC-004'' Medium ''execution'')"

definition fix_sc_exec_007 :: "string \<Rightarrow> audit_finding" where
  "fix_sc_exec_007 name =
    (set_owasp_asi ''ASI05''
     \<circ> set_auto_fixable True
     \<circ> set_remediation ''Remove host network mode''
     \<circ> set_evidence ''network_mode = \"host\"''
     \<circ> set_description ''Will switch to bridge network.''
     \<circ> set_title (''Service \"'' @ name @ ''\" uses host network''))
    (builder ''SC-EXEC-007'' High ''execution'')"

definition fix_sc_net_001 :: "string \<Rightarrow> audit_finding" where
  "fix_sc_net_001 platform =
    (set_owasp_asi ''ASI05''
     \<circ> set_auto_fixable True
     \<circ> set_remediation ''Run \"secureops harden\" to generate network rules''
     \<circ> set_evidence (''Platform: '' @ platform)
     \<circ> set_description ''SecureOps can generate egress allowlist and C2 blocklist scripts.''
     \<circ> set_title ''Network hardening available'')
    (builder ''SC-NET-001'' Info ''network'')"

definition gateway_module_check :: "audit_context \<Rightarrow> audit_finding list" where
  "gateway_module_check ctx =
    (let gw = oc_gateway (cx_config ctx);
         auth_mode = Option.bind (Option.bind gw gw_auth) ga_mode;
         token = unwrap_or (Option.bind (Option.bind gw gw_auth) (\<lambda>a. or_opt (ga_token a) (ga_password a))) [];
         ui = Option.bind gw gw_control_ui
     in (if Option.bind gw gw_bind \<noteq> Some ''loopback'' then [fix_sc_gw_001 (unwrap_or (Option.bind gw gw_bind) ''undefined'')] else []) @
        (if auth_mode \<noteq> Some ''password'' \<and> auth_mode \<noteq> Some ''token'' then [fix_sc_gw_002 auth_mode] else []) @
        (if (auth_mode = Some ''token'' \<or> auth_mode = Some ''password'') \<and> token \<noteq> [] \<and> length token < 32
         then [fix_sc_gw_003 (length token)] else []) @
        (if Option.bind ui cu_dangerously_disable_device_auth = Some True then [fix_sc_gw_009] else []) @
        (if Option.bind ui cu_allow_insecure_auth = Some True then [fix_sc_gw_010] else []) @
        (case Option.bind gw gw_mdns of None \<Rightarrow> []
         | Some m \<Rightarrow> if mdns_mode m \<noteq> Some ''minimal'' then [fix_sc_gw_007 (mdns_mode m)] else []))"

definition credential_module_check :: "audit_context \<Rightarrow> audit_finding list" where
  "credential_module_check ctx = perms_finding ctx (cx_state_dir ctx) fix_sc_cred_001"

definition config_module_check :: "audit_context \<Rightarrow> audit_finding list" where
  "config_module_check ctx =
    (let config = cx_config ctx; sandbox_mode = Option.bind (oc_sandbox config) sb_mode
     in (if Option.bind (oc_exec config) ex_approvals = Some ''off'' then [fix_sc_exec_001] else []) @
        (if sandbox_mode \<noteq> Some ''all'' then [fix_sc_exec_003 sandbox_mode] else []) @
        map fix_sc_ac_001 (filter (\<lambda>ch. ch_dm_policy ch = Some ''open'') (cx_channels ctx)))"

definition docker_module_check :: "audit_context \<Rightarrow> audit_finding list" where
  "docker_module_check ctx = (case Option.bind (cx_docker_compose ctx) dc_services of
     None \<Rightarrow> [fix_sc_docker_info]
   | Some services \<Rightarrow> concat (map (\<lambda>(name, svc).
       (if ds_read_only svc \<noteq> Some True then [fix_sc_exec_004 name] else []) @
       (if ds_network_mode svc = Some ''host'' then [fix_sc_exec_007 name] else [])) services))"

definition network_module_check :: "audit_context \<Rightarrow> audit_finding list" where
  "network_module_check ctx = [fix_sc_net_001 (cx_platform ctx)]"

subsection \<open>Hardening and the audit\<close>

lemma harden_auth_props:
  "auth_enabled (fst (harden_auth token a))" "ga_token (fst (harden_auth token a)) = ga_token a"
  by (auto simp: harden_auth_def auth_enabled_def)

lemma harden_control_ui_props:
  "cu_dangerously_disable_device_auth (fst (harden_control_ui ui)) \<noteq> Some True"
  "cu_allow_insecure_auth (fst (harden_control_ui ui)) \<noteq> Some True"
  by (simp_all add: harden_control_ui_def)

lemma gateway_harden_gateway:
  "\<exists>gw. oc_gateway (fst (gateway_harden token c)) = Some gw \<and> gw_bind gw = Some ''loopback'' \<and> gw_mdns gw = None \<and>
    gw_auth gw = Some (fst (harden_auth token (auth_of (gateway_of c)))) \<and>
    gw_control_ui gw = Some (fst (harden_control_ui (unwrap_or (gw_control_ui (gateway_of c)) control_ui_default))) \<and> gw_trusted_proxies gw \<noteq> None"
  by (simp add: gateway_harden_def harden_bind_def auth_of_def Let_def split: prod.split)

lemma config_harden_fields:
  "oc_gateway (fst (config_harden c)) = oc_gateway c" "oc_exec (fst (config_harden c)) = None"
  "oc_sandbox (fst (config_harden c)) = None"
  "Option.bind (oc_tools (fst (config_harden c))) (\<lambda>y. Option.bind (tc_exec y) te_host) = Some ''sandbox''"
  "Option.bind (oc_session (fst (config_harden c))) se_dm_scope = Some ''per-channel-peer''"
  by (simp_all add: config_harden_def Let_def)

definition harden_config :: "string \<Rightarrow> openclaw_config \<Rightarrow> openclaw_config" where
  "harden_config token c = fst (config_harden (fst (gateway_harden token c)))"

definition char_count :: "string \<Rightarrow> nat" where
  "char_count s = length (utf8_chars s)"

lemma gw_ids:
  "f_id (sc_gw_003 n) = ''SC-GW-003''" "f_id (sc_gw_004a p) = ''SC-GW-004''" "f_id (sc_gw_004b p) = ''SC-GW-004''"
  "f_id (sc_gw_004_open p b) = ''SC-GW-004''" "f_id (sc_gw_005a p) = ''SC-GW-005''" "f_id (sc_gw_005b p) = ''SC-GW-005''"
  "f_id (sc_gw_005_open p b) = ''SC-GW-005''" "f_id sc_gw_006 = ''SC-GW-006''"
  by (simp_all add: gw_finding_defs builder_defs Let_def)

lemma hardened_gateway_ids:
  "f_id ` set (gateway_run probe (ctx\<lparr> cx_config := harden_config token c \<rparr>) opts) \<subseteq>
    {''SC-GW-003'', ''SC-GW-004'', ''SC-GW-005'', ''SC-GW-006''}"
proof -
  obtain gw ui where gw: "oc_gateway (harden_config token c) = Some gw" "gw_bind gw = Some ''loopback''" "gw_mdns gw = None"
    "gw_auth gw = Some (fst (harden_auth token (auth_of (gateway_of c))))" "gw_control_ui gw = Some (fst (harden_control_ui ui))"
    using gateway_harden_gateway [of token c] by (auto simp: harden_config_def config_harden_fields)
  have "gateway_auth_mode (Some gw) = Some ''password'' \<or> gateway_auth_mode (Some gw) = Some ''token''"
    using harden_auth_props(1) [of token "auth_of (gateway_of c)"] by (auto simp: gateway_auth_mode_def gw auth_enabled_def)
  then show ?thesis
    using harden_control_ui_props [of ui]
    by (auto simp: gateway_run_def gw Let_def gw_ids unwrap_or_def split: option.splits)
qed

lemma weak_token_survives:
  assumes "ga_token (auth_of (gateway_of c)) = Some t" "0 < char_count t" "char_count t < 32"
  shows "''SC-GW-003'' \<in> f_id ` set (gateway_run probe (ctx\<lparr> cx_config := harden_config token c \<rparr>) opts)"
proof -
  obtain gw where gw: "oc_gateway (harden_config token c) = Some gw"
    "gw_auth gw = Some (fst (harden_auth token (auth_of (gateway_of c))))"
    using gateway_harden_gateway [of token c] by (auto simp: harden_config_def config_harden_fields)
  have "gateway_auth_mode (Some gw) = Some ''password'' \<or> gateway_auth_mode (Some gw) = Some ''token''"
    using harden_auth_props(1) [of token "auth_of (gateway_of c)"] by (auto simp: gateway_auth_mode_def gw auth_enabled_def)
  moreover have "gateway_token (Some gw) = t"
    using assms(1) by (simp add: gateway_token_def gw harden_auth_props)
  ultimately have "sc_gw_003 (char_count t) \<in> set (gateway_run probe (ctx\<lparr> cx_config := harden_config token c \<rparr>) opts)"
    using assms(2,3) by (auto simp: gateway_run_def gw Let_def char_count_def)
  then show ?thesis by (metis gw_ids(1) imageI)
qed

lemma exec_ids:
  "f_id sc_exec_001 = ''SC-EXEC-001''" "f_id sc_exec_002 = ''SC-EXEC-002''" "f_id (sc_exec_003 m) = ''SC-EXEC-003''"
  by (simp_all add: exec_finding_defs builder_defs)

lemma service_ids: "f \<in> set (service_findings s) \<Longrightarrow> f_id f \<in> {''SC-EXEC-004'', ''SC-EXEC-005'', ''SC-EXEC-006'', ''SC-EXEC-007''}"
  by (auto simp: service_findings_def exec_finding_defs builder_defs split: prod.splits if_splits)

lemma hardened_execution_ids:
  fixes ctx :: audit_context and token c opts
  defines "ids \<equiv> f_id ` set (execution_run (ctx\<lparr> cx_config := harden_config token c \<rparr>) opts)"
  shows "''SC-EXEC-001'' \<notin> ids" "''SC-EXEC-002'' \<notin> ids" "''SC-EXEC-003'' \<in> ids"
proof -
  let ?services = "case cx_docker_compose ctx of None \<Rightarrow> []
    | Some dc \<Rightarrow> (case dc_services dc of None \<Rightarrow> [] | Some services \<Rightarrow> concat (map service_findings services))"
  have run: "execution_run (ctx\<lparr> cx_config := harden_config token c \<rparr>) opts = sc_exec_003 ''undefined'' # ?services"
    by (simp add: execution_run_def harden_config_def config_harden_fields Let_def)
  have "f_id f \<in> {''SC-EXEC-004'', ''SC-EXEC-005'', ''SC-EXEC-006'', ''SC-EXEC-007''}" if "f \<in> set ?services" for f
    using that by (auto split: option.splits dest: service_ids)
  then show "''SC-EXEC-001'' \<notin> ids" "''SC-EXEC-002'' \<notin> ids" "''SC-EXEC-003'' \<in> ids"
    unfolding ids_def run by (fastforce simp: exec_ids)+
qed

lemma hardened_access_ids:
  "''SC-AC-005'' \<notin> f_id ` set (access_control_run (ctx\<lparr> cx_config := harden_config token c \<rparr>) opts)"
  by (auto simp: access_control_run_def harden_config_def config_harden_fields channel_findings_def pairing_findings_def
      ac_finding_defs builder_defs Let_def split: if_splits)

text \<open>
  What hardening changes in the audit of the configuration. After the gateway and configuration rewrites the gateway category reports at
  most the token length, the two port findings and missing TLS, so none of its critical findings, and open execution on the gateway host
  and shared sessions are gone. Two effects are not what the messages promise: a weak \<open>auth.token\<close> is still reported,
  because the new secret is stored as the password and the audit reads the token first; and since the rewrite removes the \<open>sandbox\<close> and
  \<open>exec\<close> keys, the sandbox finding is always reported afterwards, also for a configuration that had \<open>sandbox.mode\<close> set to \<open>all\<close>, while the
  finding about disabled approvals disappears without any approval being enabled.
\<close>

theorem hardening_effect_on_audit:
  "let hardened = ctx\<lparr> cx_config := harden_config token c \<rparr>;
       gw = f_id ` set (gateway_run probe hardened opts);
       ex = f_id ` set (execution_run hardened opts)
   in gw \<subseteq> {''SC-GW-003'', ''SC-GW-004'', ''SC-GW-005'', ''SC-GW-006''} \<and>
      (\<forall>t. ga_token (auth_of (gateway_of c)) = Some t \<and> 0 < char_count t \<and> char_count t < 32 \<longrightarrow> ''SC-GW-003'' \<in> gw) \<and>
      ''SC-EXEC-001'' \<notin> ex \<and> ''SC-EXEC-002'' \<notin> ex \<and> ''SC-EXEC-003'' \<in> ex \<and>
      ''SC-AC-005'' \<notin> f_id ` set (access_control_run hardened opts)"
  unfolding Let_def
  by (intro conjI allI impI hardened_gateway_ids hardened_execution_ids hardened_access_ids, elim conjE, rule weak_token_survives)

definition demo_weak_config :: openclaw_config where
  "demo_weak_config = openclaw_default\<lparr> oc_gateway := Some (gateway_default\<lparr> gw_auth := Some (gateway_auth_default\<lparr> ga_mode := Some ''token'',
     ga_token := Some ''abc'' \<rparr>) \<rparr>), oc_sandbox := Some \<lparr> sb_mode = Some ''all'', sb_scope = None, sb_workspace_access = None \<rparr> \<rparr>"

definition demo_host :: "openclaw_config \<Rightarrow> audit_context" where
  "demo_host c = \<lparr> cx_state_dir = ''/s'', cx_config = c, cx_platform = ''linux'', cx_deployment_mode = ''native'', cx_openclaw_version = ''1'',
     cx_file_info = (\<lambda>p. \<lparr> fi_path = p, fi_permissions = None, fi_content = None, fi_exists = None, fi_size = None \<rparr>),
     cx_read_file = (\<lambda>_. None), cx_list_dir = (\<lambda>_. []), cx_file_exists = (\<lambda>_. False), cx_get_file_permissions = (\<lambda>_. None),
     cx_channels = [], cx_skills = [], cx_docker_compose = None, cx_session_logs = [], cx_connection_logs = [] \<rparr>"

definition demo_options :: audit_options where
  "demo_options = \<lparr> ao_deep = False, ao_fix = False, ao_json = False \<rparr>"

theorem hardening_effect_on_audit_witness:
  "let before = demo_host demo_weak_config;
       after = demo_host (harden_config (replicate 64 (CHR ''a'')) demo_weak_config)
   in ''SC-EXEC-003'' \<notin> f_id ` set (execution_run before demo_options) \<and>
      ''SC-EXEC-003'' \<in> f_id ` set (execution_run after demo_options) \<and>
      ''SC-GW-003'' \<in> f_id ` set (gateway_run (\<lambda>_. False) after demo_options)"
proof -
  have count: "char_count ''abc'' = 3" by code_simp
  have "execution_run (demo_host demo_weak_config) demo_options = []"
    by (simp add: execution_run_def demo_weak_config_def openclaw_default_def demo_host_def Let_def)
  moreover have "(demo_host d)\<lparr> cx_config := e \<rparr> = demo_host e" for d e by (simp add: demo_host_def)
  ultimately show ?thesis
    using hardening_effect_on_audit [where ctx = "demo_host demo_weak_config" and token = "replicate 64 (CHR ''a'')" and
      c = demo_weak_config and probe = "\<lambda>_. False" and opts = demo_options] count
    by (simp add: Let_def demo_weak_config_def openclaw_default_def gateway_of_def auth_of_def)
qed

end
