(* ===== verification/Harden.thy ===== *)
theory Harden
  imports HardenConfig Redact FileSys MachineKey Crypto
begin

text \<open>
  The hardening engine of \<open>secureops-harden\<close> (\<open>lib.rs\<close> and the \<open>fix\<close> methods of the five modules): it copies the configuration into a
  backup directory, runs the modules in priority order, writes a manifest, and rolls back from such a directory. The programs run in
  the file system monad, so every theorem holds for every pattern of input/output failures unless it excludes them. serde is a
  parameter (\<open>hl_parse\<close>, the \<open>hl_pretty\<close> functions), as are the clock, the random source and the machine id; a missing random source is
  a panic, as in the source.
\<close>

record harden_manifest_entry =
  me_module :: string
  me_actions_applied :: nat
  me_actions_skipped :: nat
  me_errors :: nat

record harden_manifest =
  mf_timestamp :: string
  mf_backup_dir :: string
  mf_modules :: "harden_manifest_entry list"

record harden_lib =
  hl_parse :: "string \<Rightarrow> openclaw_config option"
  hl_pretty :: "openclaw_config \<Rightarrow> io_error + string"
  hl_pretty_docker :: "docker_compose_config \<Rightarrow> io_error + string"
  hl_pretty_manifest :: "harden_manifest \<Rightarrow> io_error + string"
  hl_random :: "string option"
  hl_machine :: machine_crypto
  hl_salt :: "nat \<Rightarrow> string option"
  hl_iv :: "nat \<Rightarrow> string option"
  hl_machine_id :: string
  hl_iso_now :: string

subsection \<open>Configuration file\<close>

definition state_path :: "audit_context \<Rightarrow> path" where
  "state_path ctx = path_of (cx_state_dir ctx)"

definition config_path :: "path \<Rightarrow> path" where
  "config_path sd = sd @ [''openclaw.json'']"

definition read_config :: "fs_env \<Rightarrow> harden_lib \<Rightarrow> path \<Rightarrow> openclaw_config fsm" where
  "read_config ev lib sd = do {
     r \<leftarrow> fs_read_to_string ev (config_path sd);
     State_Monad.return (from_json_or_default (hl_parse lib) (unwrap_or (ok r) []))
   }"

definition write_config :: "fs_env \<Rightarrow> harden_lib \<Rightarrow> path \<Rightarrow> openclaw_config \<Rightarrow> unit io" where
  "write_config ev lib sd config = (case hl_pretty lib config of
     Inl e \<Rightarrow> State_Monad.return (Err e)
   | Inr json \<Rightarrow> fs_write ev (config_path sd) json)"

text \<open>\<open>sanitize_timestamp\<close> maps over the characters; the two it replaces are single bytes.\<close>

definition sanitize_timestamp :: "string \<Rightarrow> string" where
  "sanitize_timestamp ts = map (\<lambda>c. if c = CHR '':'' \<or> c = CHR ''.'' then CHR ''-'' else c) ts"

definition backup_base :: "path \<Rightarrow> path" where
  "backup_base sd = sd @ [''.secureops'', ''backup'']"

subsection \<open>Modules\<close>

definition module_result :: "string \<Rightarrow> hardening_action list \<Rightarrow> string list \<Rightarrow> hardening_result" where
  "module_result name applied errors = \<lparr> hr_module = name, hr_applied = applied, hr_skipped = [], hr_errors = errors \<rparr>"

text \<open>A copy that may fail only because the source is missing.\<close>

definition backup_if_present :: "fs_env \<Rightarrow> path \<Rightarrow> path \<Rightarrow> unit io" where
  "backup_if_present ev src dst = do {
     r \<leftarrow> fs_copy ev src dst;
     State_Monad.return (case r of Inl IoNotFound \<Rightarrow> Ok () | Inl e \<Rightarrow> Err e | Inr _ \<Rightarrow> Ok ())
   }"

definition gateway_fix_inner :: "fs_env \<Rightarrow> harden_lib \<Rightarrow> path \<Rightarrow> path \<Rightarrow> (io_error option \<times> hardening_action list) fsm" where
  "gateway_fix_inner ev lib sd backup_dir = do {
     b \<leftarrow> backup_if_present ev (config_path sd) (backup_dir @ [''openclaw.json'']);
     case b of
       Inl e \<Rightarrow> State_Monad.return (Some e, [])
     | Inr _ \<Rightarrow> do {
         config \<leftarrow> read_config ev lib sd;
         token \<leftarrow> (if needs_token config then panic_or [] (generate_token (hl_random lib)) else State_Monad.return []);
         let (config', applied) = gateway_harden token config;
         w \<leftarrow> write_config ev lib sd config';
         State_Monad.return (case w of Inl e \<Rightarrow> (Some e, applied) | Inr _ \<Rightarrow> (None, applied))
       }
   }"

definition gateway_fix :: "fs_env \<Rightarrow> harden_lib \<Rightarrow> path \<Rightarrow> path \<Rightarrow> hardening_result fsm" where
  "gateway_fix ev lib sd backup_dir = do {
     (e, applied) \<leftarrow> gateway_fix_inner ev lib sd backup_dir;
     State_Monad.return (module_result ''gateway-hardening'' applied
       (case e of None \<Rightarrow> [] | Some err \<Rightarrow> [''Gateway hardening error: '' @ io_text err]))
   }"

definition config_fix :: "fs_env \<Rightarrow> harden_lib \<Rightarrow> path \<Rightarrow> path \<Rightarrow> hardening_result fsm" where
  "config_fix ev lib sd backup_dir = do {
     _ \<leftarrow> fs_copy ev (config_path sd) (backup_dir @ [''openclaw-config.json'']);
     config \<leftarrow> read_config ev lib sd;
     let (config', applied) = config_harden config;
     w \<leftarrow> write_config ev lib sd config';
     State_Monad.return (module_result ''config-hardening'' applied
       (case w of Inl e \<Rightarrow> [''Config hardening error: '' @ io_text e] | Inr _ \<Rightarrow> []))
   }"

definition override_path :: "path \<Rightarrow> path" where
  "override_path sd = sd @ [''docker-compose.secureops.yml'']"

definition write_override :: "fs_env \<Rightarrow> harden_lib \<Rightarrow> path \<Rightarrow> path \<Rightarrow> unit io" where
  "write_override ev lib sd backup_dir = do {
     b \<leftarrow> backup_if_present ev (override_path sd) (backup_dir @ [''docker-compose.secureops.yml'']);
     case b of
       Inl e \<Rightarrow> State_Monad.return (Err e)
     | Inr _ \<Rightarrow> (case hl_pretty_docker lib hardened_override_config of
         Inl e \<Rightarrow> State_Monad.return (Err e)
       | Inr json \<Rightarrow> fs_write ev (override_path sd) json)
   }"

definition docker_fix :: "fs_env \<Rightarrow> harden_lib \<Rightarrow> path \<Rightarrow> path \<Rightarrow> hardening_result fsm" where
  "docker_fix ev lib sd backup_dir = do {
     r \<leftarrow> write_override ev lib sd backup_dir;
     State_Monad.return (case r of
       Inr _ \<Rightarrow> module_result ''docker-hardening'' [action ''docker-override'' ''Generated hardened docker-compose override'' ''no override''
         ''docker-compose.secureops.yml with read-only, cap-drop=ALL, no-new-privileges''] []
     | Inl e \<Rightarrow> module_result ''docker-hardening'' [] [''Docker hardening error: '' @ io_text e])
   }"

definition network_dir :: "path \<Rightarrow> path" where
  "network_dir sd = sd @ [''.secureops'', ''network'']"

text \<open>The write and, when it succeeded, the mode of a generated script.\<close>

definition write_script :: "fs_env \<Rightarrow> path \<Rightarrow> string \<Rightarrow> u32 \<Rightarrow> unit fsm" where
  "write_script ev p script mode = do {
     w \<leftarrow> fs_write ev p script;
     if is_ok w then do { _ \<leftarrow> chmod_safe ev p mode; State_Monad.return () } else State_Monad.return ()
   }"

definition network_fix :: "fs_env \<Rightarrow> harden_lib \<Rightarrow> ioc_database \<Rightarrow> audit_context \<Rightarrow> hardening_result fsm" where
  "network_fix ev lib ioc ctx =
    (let sd = state_path ctx;
         blocklist = db_c2_ips ioc;
         allowlist = unwrap_or (Option.bind (Option.bind (oc_secureops (cx_config ctx)) so_network) nw_egress_allowlist) EGRESS_ALLOWLIST;
         platform = hd (split_char (CHR ''-'') (cx_platform ctx));
         dir = network_dir sd;
         rules_sh = dir @ [''egress-rules.sh''];
         pf_conf = dir @ [''pf-rules.conf'']
     in do {
       _ \<leftarrow> fs_create_dir_all ev dir;
       (applied, skipped) \<leftarrow>
         (if platform = ''linux'' then do {
            _ \<leftarrow> write_script ev rules_sh (generate_iptables_script (hl_iso_now lib) allowlist blocklist) 448;
            State_Monad.return ([action ''net-iptables'' ''Generated iptables egress rules script'' ''no rules'' (show_path rules_sh)], [])
          } else if platform = ''darwin'' then do {
            _ \<leftarrow> write_script ev pf_conf (generate_pf_script (hl_iso_now lib) allowlist blocklist) 384;
            State_Monad.return ([action ''net-pf'' ''Generated pf egress rules (macOS)'' ''no rules'' (show_path pf_conf)], [])
          } else State_Monad.return ([], [action ''net-platform'' ''Network rules generation skipped - unsupported platform''
              (''platform: '' @ platform) ''skipped'']));
       if blocklist = [] then
         State_Monad.return \<lparr> hr_module = ''network-hardening'', hr_applied = applied, hr_skipped = skipped, hr_errors = [] \<rparr>
       else do {
         _ \<leftarrow> fs_write ev (dir @ [''c2-blocklist.txt'']) (join [newline] blocklist @ [newline]);
         State_Monad.return \<lparr> hr_module = ''network-hardening'',
           hr_applied = applied @ [action ''net-blocklist'' ''Generated C2 IP blocklist file'' ''no blocklist''
             (show_nat (length blocklist) @ '' IPs blocked'')], hr_skipped = skipped, hr_errors = [] \<rparr>
       }
     })"

subsection \<open>Credentials\<close>

definition keystore_path :: "path \<Rightarrow> path" where
  "keystore_path sd = sd @ [''.secureops'', ''keystore'']"

text \<open>\<open>machinekey::ensure_keystore\<close> on the file system; the string of the state directory goes into the key.\<close>

definition ensure_keystore_fs :: "fs_env \<Rightarrow> harden_lib \<Rightarrow> audit_context \<Rightarrow> unit io" where
  "ensure_keystore_fs ev lib ctx =
    (let sd = state_path ctx; dir = sd @ [''.secureops'']
     in do {
       _ \<leftarrow> fs_create_dir_all ev dir;
       _ \<leftarrow> fs_set_permissions ev dir 448;
       m \<leftarrow> fs_metadata ev (keystore_path sd);
       if is_ok m then State_Monad.return (Ok ())
       else do {
         token \<leftarrow> panic_or [] (machine_encrypt (hl_machine lib) (hl_salt lib 0) (hl_iv lib 0) ''secureops-keystore-verify''
           (hl_machine_id lib) (cx_state_dir ctx));
         w \<leftarrow> fs_write ev (keystore_path sd) token;
         if is_ok w then do { _ \<leftarrow> fs_set_permissions ev (keystore_path sd) 256; State_Monad.return (Ok ()) }
         else State_Monad.return w
       }
     })"

definition lock_credential :: "fs_env \<Rightarrow> path \<Rightarrow> path \<Rightarrow> string \<Rightarrow> hardening_action list fsm" where
  "lock_credential ev creds_dir backup_dir fname =
    (if \<not> ends_with fname ''.json'' then State_Monad.return []
     else do {
       _ \<leftarrow> fs_copy ev (creds_dir @ [fname]) (backup_dir @ [''cred-'' @ fname]);
       fixed \<leftarrow> chmod_safe ev (creds_dir @ [fname]) 384;
       State_Monad.return (if fixed then
         [action (''cred-'' @ fname @ ''-perms'') (''Set '' @ fname @ '' permissions to 600'') ''open'' ''600''] else [])
     })"

definition auth_profiles_path :: "path \<Rightarrow> string \<Rightarrow> path" where
  "auth_profiles_path sd agent = sd @ [''agents'', agent, ''agent'', ''auth-profiles.json'']"

definition lock_auth_profile :: "fs_env \<Rightarrow> path \<Rightarrow> path \<Rightarrow> string \<Rightarrow> hardening_action list fsm" where
  "lock_auth_profile ev sd backup_dir agent = do {
     m \<leftarrow> fs_metadata ev (auth_profiles_path sd agent);
     if is_ok m then do {
       _ \<leftarrow> fs_copy ev (auth_profiles_path sd agent) (backup_dir @ [''auth-profiles-'' @ agent @ ''.json'']);
       _ \<leftarrow> chmod_safe ev (auth_profiles_path sd agent) 384;
       State_Monad.return [action (''cred-auth-'' @ agent) (''Set auth-profiles.json permissions for agent \"'' @ agent @ ''\" to 600'') ''open'' ''600'']
     } else State_Monad.return []
   }"

definition encrypt_env :: "fs_env \<Rightarrow> harden_lib \<Rightarrow> audit_context \<Rightarrow> path \<Rightarrow> hardening_action list fsm" where
  "encrypt_env ev lib ctx backup_dir =
    (let sd = state_path ctx
     in do {
       r \<leftarrow> fs_read_to_string ev (sd @ [''.env'']);
       case r of
         Inl _ \<Rightarrow> State_Monad.return []
       | Inr env_content \<Rightarrow> do {
           _ \<leftarrow> fs_copy ev (sd @ [''.env'']) (backup_dir @ [''.env'']);
           k \<leftarrow> ensure_keystore_fs ev lib ctx;
           if \<not> is_ok k then State_Monad.return []
           else do {
             enc \<leftarrow> panic_or [] (machine_encrypt (hl_machine lib) (hl_salt lib 1) (hl_iv lib 1) env_content (hl_machine_id lib) (cx_state_dir ctx));
             w \<leftarrow> fs_write ev (sd @ [''.env.enc'']) enc;
             if is_ok w then do {
               _ \<leftarrow> chmod_safe ev (sd @ [''.env.enc'']) 384;
               State_Monad.return [action ''cred-env-encrypt'' ''Encrypted .env file'' ''plaintext'' ''.env.enc (AES-256-GCM)'']
             } else State_Monad.return []
           }
         }
     })"

definition MEMORY_FILES :: "string list" where
  "MEMORY_FILES = [''soul.md'', ''SOUL.md'', ''MEMORY.md'']"

definition memory_path :: "path \<Rightarrow> string \<Rightarrow> string \<Rightarrow> path" where
  "memory_path sd agent mem_file = sd @ [''agents'', agent, mem_file]"

definition memory_backup :: "path \<Rightarrow> string \<Rightarrow> string \<Rightarrow> path" where
  "memory_backup backup_dir agent mem_file = backup_dir @ [agent @ ''-'' @ mem_file]"

text \<open>
  One memory file. The result is the error that ends the module, or the actions; a file that cannot be read is passed over.
\<close>

definition redact_file :: "fs_env \<Rightarrow> path \<Rightarrow> path \<Rightarrow> string \<Rightarrow> string \<Rightarrow> hardening_action list io" where
  "redact_file ev sd backup_dir agent mem_file = do {
     r \<leftarrow> fs_read_to_string ev (memory_path sd agent mem_file);
     case r of
       Inl _ \<Rightarrow> State_Monad.return (Ok [])
     | Inr content \<Rightarrow>
         if redact_api_keys content = content then State_Monad.return (Ok [])
         else do {
           b \<leftarrow> fs_copy ev (memory_path sd agent mem_file) (memory_backup backup_dir agent mem_file);
           case b of
             Inl e \<Rightarrow> State_Monad.return (Err (IoOther (''refusing to redact '' @ mem_file @ '' for agent '' @ agent @
               '': backup failed: '' @ io_text e)))
           | Inr _ \<Rightarrow> do {
               w \<leftarrow> fs_write ev (memory_path sd agent mem_file) (redact_api_keys content);
               State_Monad.return (case w of Inl e \<Rightarrow> Err e | Inr _ \<Rightarrow> Ok [action (''cred-redact-'' @ agent @ ''-'' @ mem_file)
                 (''Redacted API keys from '' @ mem_file @ '' for agent \"'' @ agent @ ''\"'') ''contained API keys'' ''keys redacted''])
             }
         }
   }"

text \<open>The nested loops over agents and their files; the first error stops them.\<close>

fun redact_files :: "fs_env \<Rightarrow> path \<Rightarrow> path \<Rightarrow> (string \<times> string) list \<Rightarrow> (io_error option \<times> hardening_action list) fsm" where
  "redact_files ev sd backup_dir [] = State_Monad.return (None, [])"
| "redact_files ev sd backup_dir ((agent, mem_file) # rest) = do {
     r \<leftarrow> redact_file ev sd backup_dir agent mem_file;
     case r of
       Inl e \<Rightarrow> State_Monad.return (Some e, [])
     | Inr actions \<Rightarrow> do {
         (e, more) \<leftarrow> redact_files ev sd backup_dir rest;
         State_Monad.return (e, actions @ more)
       }
   }"

definition entries_or_none :: "fs_env \<Rightarrow> path \<Rightarrow> string list fsm" where
  "entries_or_none ev dir = do { r \<leftarrow> fs_read_dir ev dir; State_Monad.return (unwrap_or (ok r) []) }"

definition credential_run_fix :: "fs_env \<Rightarrow> harden_lib \<Rightarrow> audit_context \<Rightarrow> path \<Rightarrow> (io_error option \<times> hardening_action list) fsm" where
  "credential_run_fix ev lib ctx backup_dir =
    (let sd = state_path ctx; creds_dir = sd @ [''credentials'']; agents_dir = sd @ [''agents'']
     in do {
       d \<leftarrow> chmod_safe ev sd 448;
       c \<leftarrow> chmod_safe ev (config_path sd) 384;
       files \<leftarrow> entries_or_none ev creds_dir;
       a3 \<leftarrow> State_Monad.traverse_list (lock_credential ev creds_dir backup_dir) files;
       agents \<leftarrow> entries_or_none ev agents_dir;
       a4 \<leftarrow> State_Monad.traverse_list (lock_auth_profile ev sd backup_dir) agents;
       a5 \<leftarrow> encrypt_env ev lib ctx backup_dir;
       agents2 \<leftarrow> entries_or_none ev agents_dir;
       (e, a6) \<leftarrow> redact_files ev sd backup_dir (List.product agents2 MEMORY_FILES);
       State_Monad.return (e,
         (if d then [action ''cred-statedir-perms'' ''Set state directory permissions to 700'' ''open'' ''700''] else []) @
         (if c then [action ''cred-config-perms'' ''Set config file permissions to 600'' ''open'' ''600''] else []) @
         concat a3 @ concat a4 @ a5 @ a6)
     })"

definition credential_fix :: "fs_env \<Rightarrow> harden_lib \<Rightarrow> audit_context \<Rightarrow> path \<Rightarrow> hardening_result fsm" where
  "credential_fix ev lib ctx backup_dir = do {
     (e, applied) \<leftarrow> credential_run_fix ev lib ctx backup_dir;
     State_Monad.return (module_result ''credential-hardening'' applied
       (case e of None \<Rightarrow> [] | Some err \<Rightarrow> [''Credential hardening error: '' @ io_text err]))
   }"

subsection \<open>The engine\<close>

record harden_outcome =
  ho_backup_dir :: path
  ho_results :: "hardening_result list"

text \<open>The modules are sorted by priority, which is the order of their list.\<close>

definition run_modules :: "fs_env \<Rightarrow> harden_lib \<Rightarrow> ioc_database \<Rightarrow> audit_context \<Rightarrow> path \<Rightarrow> hardening_result list fsm" where
  "run_modules ev lib ioc ctx backup_dir = do {
     r1 \<leftarrow> gateway_fix ev lib (state_path ctx) backup_dir;
     r2 \<leftarrow> credential_fix ev lib ctx backup_dir;
     r3 \<leftarrow> config_fix ev lib (state_path ctx) backup_dir;
     r4 \<leftarrow> docker_fix ev lib (state_path ctx) backup_dir;
     r5 \<leftarrow> network_fix ev lib ioc ctx;
     State_Monad.return [r1, r2, r3, r4, r5]
   }"

definition manifest_of :: "string \<Rightarrow> path \<Rightarrow> hardening_result list \<Rightarrow> harden_manifest" where
  "manifest_of now backup_dir results = \<lparr> mf_timestamp = now, mf_backup_dir = show_path backup_dir,
     mf_modules = map (\<lambda>r. \<lparr> me_module = hr_module r, me_actions_applied = length (hr_applied r),
       me_actions_skipped = length (hr_skipped r), me_errors = length (hr_errors r) \<rparr>) results \<rparr>"

definition backup_dir_of :: "audit_context \<Rightarrow> string \<Rightarrow> path" where
  "backup_dir_of ctx now = path_push (backup_base (state_path ctx)) (sanitize_timestamp now)"

definition harden_modules :: "fs_env \<Rightarrow> harden_lib \<Rightarrow> ioc_database \<Rightarrow> audit_context \<Rightarrow> string \<Rightarrow> path \<Rightarrow> (string + harden_outcome) fsm" where
  "harden_modules ev lib ioc ctx now backup_dir = do {
     results \<leftarrow> run_modules ev lib ioc ctx backup_dir;
     case hl_pretty_manifest lib (manifest_of now backup_dir results) of
       Inl e \<Rightarrow> State_Monad.return (Err (io_text e))
     | Inr json \<Rightarrow> do {
         w \<leftarrow> fs_write ev (backup_dir @ [''manifest.json'']) json;
         State_Monad.return (case w of Inl e \<Rightarrow> Err (io_text e) | Inr _ \<Rightarrow> Ok \<lparr> ho_backup_dir = backup_dir, ho_results = results \<rparr>)
       }
   }"

definition harden :: "fs_env \<Rightarrow> harden_lib \<Rightarrow> ioc_database \<Rightarrow> audit_context \<Rightarrow> string \<Rightarrow> (string + harden_outcome) fsm" where
  "harden ev lib ioc ctx now =
    (let backup_dir = backup_dir_of ctx now
     in do {
       d \<leftarrow> fs_create_dir_all ev backup_dir;
       case d of
         Inl e \<Rightarrow> State_Monad.return (Err (io_text e))
       | Inr _ \<Rightarrow> do {
           b \<leftarrow> backup_if_present ev (config_path (state_path ctx)) (backup_dir @ [''openclaw.json.original'']);
           case b of
             Inl e \<Rightarrow> State_Monad.return (Err (''Failed to backup config before hardening: '' @ io_text e))
           | Inr _ \<Rightarrow> harden_modules ev lib ioc ctx now backup_dir
         }
     })"

subsection \<open>What the modules leave alone\<close>

text \<open>The targets of the modules, apart from the memory files and their backups (a superset).\<close>

definition other_targets :: "path \<Rightarrow> path \<Rightarrow> path set" where
  "other_targets sd bd =
    {sd} \<union> {sd @ [x] |x. True} \<union> {sd @ [''.secureops'', x] |x. True} \<union> {sd @ [''.secureops'', ''network'', x] |x. True} \<union>
    {sd @ [''credentials'', x] |x. True} \<union> {sd @ [''agents'', a, ''agent'', x] |a x. True} \<union>
    {bd @ [x] |x. \<not> ends_with x ''.md'' \<and> x \<noteq> ''openclaw.json.original''}"

lemma ends_with_simps: "ends_with (a @ b) b" "ends_with s ''.json'' \<Longrightarrow> \<not> ends_with s ''.md''"
  by (auto simp: ends_with_def suffix_def)

locale harden_frame = fs_inv P ps for P :: "fsys \<Rightarrow> bool" and ps :: "path set" +
  fixes ctx :: audit_context and bd :: path
  assumes clear: "p \<in> other_targets (state_path ctx) bd \<Longrightarrow> p \<notin> ps"
    and redacts: "mem_file \<in> set MEMORY_FILES \<Longrightarrow> keeps P (redact_file ev (state_path ctx) bd agent mem_file)"
begin

lemma clear_targets:
  "state_path ctx \<notin> ps" "state_path ctx @ [x] \<notin> ps" "config_path (state_path ctx) \<notin> ps" "override_path (state_path ctx) \<notin> ps" "state_path ctx @ [''.secureops'', x] \<notin> ps" "keystore_path (state_path ctx) \<notin> ps"
  "network_dir (state_path ctx) @ [x] \<notin> ps" "state_path ctx @ [''credentials'', x] \<notin> ps" "auth_profiles_path (state_path ctx) agent \<notin> ps"
  by (rule clear; auto simp: other_targets_def config_path_def override_path_def keystore_path_def network_dir_def auth_profiles_path_def)+

lemma clear_backups: "\<not> ends_with x ''.md'' \<Longrightarrow> x \<noteq> ''openclaw.json.original'' \<Longrightarrow> bd @ [x] \<notin> ps"
  by (rule clear) (auto simp: other_targets_def)

lemma backup_names:
  "bd @ [''openclaw.json''] \<notin> ps" "bd @ [''openclaw-config.json''] \<notin> ps" "bd @ [''docker-compose.secureops.yml''] \<notin> ps"
  "bd @ [''.env''] \<notin> ps" "bd @ [''manifest.json''] \<notin> ps"
  by (rule clear_backups; simp add: ends_with_def suffix_def)+

lemma backup_name_patterns:
  "ends_with f ''.json'' \<Longrightarrow> bd @ [''cred-'' @ f] \<notin> ps" "bd @ [''auth-profiles-'' @ a @ ''.json''] \<notin> ps"
proof -
  have *: "ends_with x ''.json'' \<Longrightarrow> x \<noteq> ''openclaw.json.original'' \<Longrightarrow> bd @ [x] \<notin> ps" for x
    by (rule clear_backups) (auto dest: ends_with_simps(2))
  have "ends_with (''cred-'' @ f) ''.json''" if "ends_with f ''.json''" using that by (auto simp: ends_with_def suffix_def)
  then show "ends_with f ''.json'' \<Longrightarrow> bd @ [''cred-'' @ f] \<notin> ps" using * by fastforce
  have "ends_with (''auth-profiles-'' @ a @ ''.json'') ''.json''" by (auto simp: ends_with_def suffix_def)
  then show "bd @ [''auth-profiles-'' @ a @ ''.json''] \<notin> ps" using * by fastforce
qed

lemmas target_rules = inv_writes clear_targets backup_names

lemma keeps_config [keeps_rules]: "keeps P (read_config ev lib (state_path ctx))" "keeps P (write_config ev lib (state_path ctx) c)"
  unfolding read_config_def write_config_def by (intro keeps_rules target_rules)+

lemma keeps_backup_if_present: "dst \<notin> ps \<Longrightarrow> keeps P (backup_if_present ev src dst)"
  unfolding backup_if_present_def by (intro keeps_rules inv_copy)

lemma keeps_gateway_fix [keeps_rules]: "keeps P (gateway_fix ev lib (state_path ctx) bd)"
  unfolding gateway_fix_def gateway_fix_inner_def by (intro keeps_rules keeps_backup_if_present target_rules)

lemma keeps_config_fix [keeps_rules]: "keeps P (config_fix ev lib (state_path ctx) bd)"
  unfolding config_fix_def by (intro keeps_rules target_rules)

lemma keeps_docker_fix [keeps_rules]: "keeps P (docker_fix ev lib (state_path ctx) bd)"
  unfolding docker_fix_def write_override_def by (intro keeps_rules keeps_backup_if_present target_rules)

lemma keeps_write_script: "p \<notin> ps \<Longrightarrow> keeps P (write_script ev p script mode)"
  unfolding write_script_def by (intro keeps_rules inv_writes)

lemma keeps_network_fix [keeps_rules]: "keeps P (network_fix ev lib ioc ctx)"
  unfolding network_fix_def Let_def by (intro keeps_rules keeps_write_script target_rules)

lemma keeps_keystore [keeps_rules]: "keeps P (ensure_keystore_fs ev lib ctx)"
  unfolding ensure_keystore_fs_def Let_def by (intro keeps_rules target_rules)

lemma keeps_encrypt_env [keeps_rules]: "keeps P (encrypt_env ev lib ctx bd)"
  unfolding encrypt_env_def Let_def by (intro keeps_rules target_rules)

lemma keeps_lock_credential: "keeps P (lock_credential ev (state_path ctx @ [''credentials'']) bd f)"
proof -
  have "(state_path ctx @ [''credentials'']) @ [f] = state_path ctx @ [''credentials'', f]" by simp
  then show ?thesis
    unfolding lock_credential_def by (simp only:, intro keeps_rules inv_writes clear_targets backup_name_patterns) simp_all
qed

lemma keeps_lock_auth_profile: "keeps P (lock_auth_profile ev (state_path ctx) bd a)"
  unfolding lock_auth_profile_def by (intro keeps_rules inv_writes clear_targets backup_name_patterns)

lemma keeps_redact_files: "snd ` set xs \<subseteq> set MEMORY_FILES \<Longrightarrow> keeps P (redact_files ev (state_path ctx) bd xs)"
proof (induction xs)
  case (Cons x xs)
  then show ?case by (cases x) (auto intro!: keeps_rules redacts)
qed (auto intro: keeps_rules)

lemma keeps_entries [keeps_rules]: "keeps P (entries_or_none ev d)"
  unfolding entries_or_none_def by (intro keeps_rules)

lemma keeps_credential_fix [keeps_rules]: "keeps P (credential_fix ev lib ctx bd)"
  unfolding credential_fix_def credential_run_fix_def Let_def
  by (intro keeps_rules target_rules keeps_lock_credential keeps_lock_auth_profile keeps_redact_files) auto

lemma keeps_run_modules: "keeps P (run_modules ev lib ioc ctx bd)"
  unfolding run_modules_def by (intro keeps_rules)

lemma keeps_harden_modules: "keeps P (harden_modules ev lib ioc ctx now bd)"
  unfolding harden_modules_def by (intro keeps_rules keeps_run_modules target_rules)

end

subsection \<open>Memory files are never lost\<close>

text \<open>
  The file has its text, or it has the redacted text and the backup has the text; the backup, if there is one, has the text.
\<close>

definition recoverable :: "path \<Rightarrow> path \<Rightarrow> string \<Rightarrow> fsys \<Rightarrow> bool" where
  "recoverable p bp c s \<longleftrightarrow> (text_at s p c \<or> text_at s p (redact_api_keys c) \<and> text_at s bp c) \<and>
     (lookup s bp = None \<or> text_at s bp c)"

lemma recoverable_reads: "reads_only {p, bp} (recoverable p bp c)"
  by (simp add: reads_only_def recoverable_def text_at_def)

interpretation memory_inv: fs_inv "recoverable p bp c" "{p, bp}" for p bp c
  by (rule fs_inv_reads_only) (rule recoverable_reads)

lemma redact_own:
  assumes "memory_path sd a m \<noteq> memory_backup bd a m"
  shows "keeps (recoverable (memory_path sd a m) (memory_backup bd a m) c) (redact_file ev sd bd a m)" (is "keeps (recoverable ?p ?bp c) _")
  unfolding keeps_def
proof (intro allI impI)
  fix s assume rec: "recoverable ?p ?bp c s"
  obtain r s1 where read: "run_state (fs_read_to_string ev ?p) s = (r, s1)" by fastforce
  note r = read_result [OF read]
  have rec1: "recoverable ?p ?bp c s1" using rec r by (simp add: recoverable_def text_at_def)
  show "recoverable ?p ?bp c (snd (run_state (redact_file ev sd bd a m) s))"
  proof (cases "\<exists>content. r = Ok content \<and> redact_api_keys content \<noteq> content")
    case False
    then show ?thesis using rec1 by (cases r) (auto simp: redact_file_def read)
  next
    case True
    then obtain content where content: "r = Ok content" "redact_api_keys content \<noteq> content" by blast
    then have "text_at s ?p content" using r by blast
    then have c: "content = c" using rec content(2) redact_idem by (auto simp: recoverable_def text_at_def)
    obtain b s2 where copy: "run_state (fs_copy ev ?p ?bp) s1 = (b, s2)" by fastforce
    obtain w s3 where wr: "run_state (fs_write ev ?p (redact_api_keys content)) s2 = (w, s3)" by fastforce
    note b = copy_result [OF copy] and w = write_result [OF wr]
    have "text_at s1 ?p c" using r content(1) c by (simp add: text_at_def)
    moreover have "snd (run_state (redact_file ev sd bd a m) s) = (case b of Inl _ \<Rightarrow> s2 | Inr _ \<Rightarrow> s3)"
      by (cases b) (simp_all add: redact_file_def read content copy wr)
    ultimately show ?thesis
      using assms b w rec1 by (cases b; cases w) (auto simp: recoverable_def text_at_def c)
  qed
qed

lemma memory_backup_inject:
  assumes "a @ ''-'' @ m = a' @ ''-'' @ m'" "m \<in> set MEMORY_FILES" "m' \<in> set MEMORY_FILES" shows "a = a' \<and> m = m'"
  using arg_cong [OF assms(1), of rev] assms(2,3) by (auto simp: MEMORY_FILES_def)

lemma memory_backup_md: "m \<in> set MEMORY_FILES \<Longrightarrow> ends_with (a @ ''-'' @ m) ''.md''"
  by (auto simp: MEMORY_FILES_def ends_with_def suffix_def)

lemma redact_other:
  assumes "memory_path sd a' m' \<notin> ps" "memory_backup bd a' m' \<notin> ps" "fs_inv P ps"
  shows "keeps P (redact_file ev sd bd a' m')"
  unfolding redact_file_def
  by (intro keeps_rules fs_inv.inv_reads [OF assms(3)] fs_inv.inv_writes [OF assms(3)] assms(1,2))

text \<open>A backup directory lies below \<open>.secureops/backup\<close> of the state directory.\<close>

definition backup_of :: "path \<Rightarrow> path \<Rightarrow> bool" where
  "backup_of sd bd \<longleftrightarrow> (\<exists>rest. bd = backup_base sd @ rest)"

lemma backup_dir_of_backup:
  assumes "CHR ''/'' \<notin> set now" shows "backup_of (state_path ctx) (backup_dir_of ctx now)"
proof -
  have "CHR ''/'' \<notin> set (sanitize_timestamp now)" using assms by (auto simp: sanitize_timestamp_def)
  then have "\<not> starts_with (sanitize_timestamp now) ''/''" by (cases "sanitize_timestamp now") (auto simp: starts_with_def)
  then show ?thesis by (auto simp: backup_of_def backup_dir_of_def path_push_def)
qed

lemma backup_paths: "backup_of sd bd \<Longrightarrow> memory_path sd a m \<noteq> bd @ [x]"
  by (auto simp: backup_of_def backup_base_def memory_path_def)

lemma memory_not_other:
  assumes "backup_of sd bd" "m \<in> set MEMORY_FILES"
  shows "memory_path sd a m \<notin> other_targets sd bd" "memory_backup bd a m \<notin> other_targets sd bd"
proof -
  show "memory_path sd a m \<notin> other_targets sd bd"
    using backup_paths [OF assms(1), of a m] by (auto simp: other_targets_def memory_path_def)
  show "memory_backup bd a m \<notin> other_targets sd bd"
    using assms(1) memory_backup_md [OF assms(2), of a]
    by (auto simp: other_targets_def memory_backup_def backup_of_def backup_base_def)
qed


lemma memory_harden_frame:
  fixes a :: string
  assumes "backup_of (state_path ctx) bd" "m \<in> set MEMORY_FILES"
  defines "p \<equiv> memory_path (state_path ctx) a m" and "bp \<equiv> memory_backup bd a m"
  shows "harden_frame (recoverable p bp c) {p, bp} ctx bd"
proof
  fix q assume "q \<in> other_targets (state_path ctx) bd"
  then show "q \<notin> {p, bp}" using memory_not_other [OF assms(1,2)] by (auto simp: p_def bp_def)
next
  fix ev a' m' assume m': "m' \<in> set MEMORY_FILES"
  note paths = backup_paths [OF assms(1)]
  show "keeps (recoverable p bp c) (redact_file ev (state_path ctx) bd a' m')"
  proof (cases "a' = a \<and> m' = m")
    case True
    then show ?thesis using redact_own paths unfolding p_def bp_def memory_backup_def by blast
  next
    case False
    have "memory_backup bd a' m' \<noteq> memory_backup bd a m"
      using False memory_backup_inject [of a' m' a m] m' assms(2) by (auto simp: memory_backup_def)
    moreover have "memory_path (state_path ctx) a' m' \<noteq> memory_path (state_path ctx) a m"
      using False by (auto simp: memory_path_def)
    ultimately show ?thesis
      using paths [of a' m' "a @ ''-'' @ m"] paths [of a m "a' @ ''-'' @ m'"]
      by (intro redact_other [OF _ _ memory_inv.fs_inv_axioms]) (auto simp: p_def bp_def memory_backup_def)
  qed
qed

end
