(* ===== verification/Rollback.thy ===== *)
theory Rollback
  imports Harden
begin

text \<open>
  \<open>list_backups\<close> and \<open>rollback\<close> of \<open>secureops-harden/src/lib.rs\<close>, and the two properties of the engine as a whole: whatever fails or
  panics during a hardening run, the configuration and the memory files can be recovered; and a rollback after a run that returned
  restores them.
\<close>

definition list_backups :: "fs_env \<Rightarrow> path \<Rightarrow> string list fsm" where
  "list_backups ev sd = do {
     entries \<leftarrow> entries_or_none ev (backup_base sd);
     State_Monad.return (rev (sort entries))
   }"

definition strip_suffix :: "string \<Rightarrow> string \<Rightarrow> string option" where
  "strip_suffix s p = (if suffix p s then Some (take (length s - length p) s) else None)"

definition restore_to :: "fs_env \<Rightarrow> path \<Rightarrow> string \<Rightarrow> path \<Rightarrow> string list fsm" where
  "restore_to ev bd fname dest = do {
     r \<leftarrow> fs_copy ev (bd @ [fname]) dest;
     State_Monad.return (case r of Inl e \<Rightarrow> [fname @ '': '' @ io_text e] | Inr _ \<Rightarrow> [])
   }"

definition SKIPPED_BACKUPS :: "string list" where
  "SKIPPED_BACKUPS = [''manifest.json'', ''openclaw.json.original'', ''openclaw.json'', ''openclaw-config.json'']"

text \<open>Joining the name of a directory entry: it has no slash, and an empty name or a dot adds nothing.\<close>

definition component :: "string \<Rightarrow> path" where
  "component n = (if n = [] \<or> n = ''.'' then [] else [n])"

definition restore_entry :: "fs_env \<Rightarrow> path \<Rightarrow> path \<Rightarrow> string \<Rightarrow> string list fsm" where
  "restore_entry ev sd bd fname =
    (if fname \<in> set SKIPPED_BACKUPS then State_Monad.return []
     else do {
       f1 \<leftarrow> (case strip_prefix fname ''cred-'' of None \<Rightarrow> State_Monad.return []
         | Some name \<Rightarrow> restore_to ev bd fname (sd @ [''credentials''] @ component name));
       f2 \<leftarrow> (if fname = ''.env'' then restore_to ev bd fname (sd @ [''.env'']) else State_Monad.return []);
       f3 \<leftarrow> (case strip_prefix fname ''auth-profiles-'' of None \<Rightarrow> State_Monad.return []
         | Some rest \<Rightarrow> restore_to ev bd fname
             (sd @ [''agents''] @ component (unwrap_or (strip_suffix rest ''.json'') rest) @ [''agent'', ''auth-profiles.json'']));
       f4 \<leftarrow> (case find (\<lambda>mem. suffix (''-'' @ mem) fname) MEMORY_FILES of None \<Rightarrow> State_Monad.return []
         | Some mem \<Rightarrow> restore_to ev bd fname (sd @ [''agents''] @ component (unwrap_or (strip_suffix fname (''-'' @ mem)) []) @ [mem]));
       State_Monad.return (f1 @ f2 @ f3 @ f4)
     })"

text \<open>The original configuration, or else the copy the gateway module made.\<close>

definition restore_config :: "fs_env \<Rightarrow> path \<Rightarrow> path \<Rightarrow> bool fsm" where
  "restore_config ev sd bd = do {
     r \<leftarrow> fs_copy ev (bd @ [''openclaw.json.original'']) (config_path sd);
     if is_ok r then State_Monad.return True
     else do { r2 \<leftarrow> fs_copy ev (bd @ [''openclaw.json'']) (config_path sd); State_Monad.return (is_ok r2) }
   }"

definition rollback :: "fs_env \<Rightarrow> string \<Rightarrow> string option \<Rightarrow> (string + unit) fsm" where
  "rollback ev state_dir timestamp =
    (let sd = path_of state_dir
     in do {
       backups \<leftarrow> list_backups ev sd;
       if backups = [] then State_Monad.return (Err ''No backups available for rollback'')
       else
         let bd = path_push (backup_base sd) (unwrap_or timestamp (hd backups))
         in do {
           m \<leftarrow> fs_metadata ev bd;
           if \<not> is_ok m then State_Monad.return (Err (''Backup directory not found: '' @ show_path bd))
           else do {
             restored \<leftarrow> restore_config ev sd bd;
             if \<not> restored then State_Monad.return (Err ''No config backup found in backup directory'')
             else do {
               rd \<leftarrow> fs_read_dir ev bd;
               case rd of
                 Inl _ \<Rightarrow> State_Monad.return (Ok ())
               | Inr names \<Rightarrow> do {
                   fs \<leftarrow> State_Monad.traverse_list (restore_entry ev sd bd) names;
                   State_Monad.return (let failed = concat fs in if failed = [] then Ok ()
                     else Err (''rollback restored the config but '' @ show_nat (length failed) @ '' file(s) failed: '' @ join ''; '' failed))
                 }
             }
           }
         }
     })"

subsection \<open>Recovery after any failure\<close>

definition honest :: "fs_env \<Rightarrow> bool" where
  "honest ev \<longleftrightarrow> (\<forall>n. ev_fault ev n \<noteq> Some IoNotFound)"

definition original_path :: "path \<Rightarrow> path" where
  "original_path bd = bd @ [''openclaw.json.original'']"

interpretation file_inv: fs_inv "\<lambda>s. lookup s p = Some f" "{p}" for p f
  by (rule fs_inv_reads_only) (simp add: reads_only_def)

lemma original_harden_frame:
  assumes "backup_of (state_path ctx) bd"
  shows "harden_frame (\<lambda>s. lookup s (original_path bd) = Some f) {original_path bd} ctx bd"
proof
  fix q assume "q \<in> other_targets (state_path ctx) bd"
  then show "q \<notin> {original_path bd}"
    using assms by (auto simp: other_targets_def original_path_def backup_of_def backup_base_def)
next
  fix ev a m assume "m \<in> set MEMORY_FILES"
  then have "a @ ''-'' @ m \<noteq> ''openclaw.json.original''"
    using memory_backup_md [of m a] by (auto simp: ends_with_def suffix_def)
  then show "keeps (\<lambda>s. lookup s (original_path bd) = Some f) (redact_file ev (state_path ctx) bd a m)"
    using backup_paths [OF assms, of a m]
    by (intro redact_other [OF _ _ file_inv.fs_inv_axioms]) (auto simp: original_path_def memory_backup_def)
qed

context harden_frame
begin

lemma keeps_harden:
  assumes "bd = backup_dir_of ctx now" "original_path bd \<notin> ps" shows "keeps P (harden ev lib ioc ctx now)"
  using assms(2) unfolding harden_def Let_def original_path_def assms(1) [symmetric]
  by (intro keeps_rules keeps_harden_modules keeps_backup_if_present) simp_all

end

lemma backup_result:
  assumes "honest ev" "lookup s src = Some f" "is_dir s (butlast dst)" "run_state (backup_if_present ev src dst) s = (r, s')"
  shows "case r of Inl _ \<Rightarrow> (\<forall>q. lookup s' q = lookup s q) | Inr _ \<Rightarrow> lookup s' dst = Some f"
  using assms
  by (auto simp: backup_if_present_def fs_copy_def io_op_def Let_def honest_def split: if_splits option.splits io_error.splits)

lemma harden_config_recoverable:
  assumes ev: "honest ev" and now: "CHR ''/'' \<notin> set now" and f: "lookup s (config_path (state_path ctx)) = Some f"
    and run: "run_state (harden ev lib ioc ctx now) s = (r, s')"
  shows "lookup s' (config_path (state_path ctx)) = Some f \<or> lookup s' (original_path (backup_dir_of ctx now)) = Some f"
    and "r = Ok out \<Longrightarrow> lookup s' (original_path (backup_dir_of ctx now)) = Some f"
proof -
  let ?bd = "backup_dir_of ctx now" and ?cp = "config_path (state_path ctx)"
  obtain d s1 where d: "run_state (fs_create_dir_all ev ?bd) s = (d, s1)" by fastforce
  note mk = create_dir_result [OF d]
  obtain b s2 where b: "run_state (backup_if_present ev ?cp (?bd @ [''openclaw.json.original''])) s1 = (b, s2)" by fastforce
  obtain r3 s3 where m: "run_state (harden_modules ev lib ioc ctx now ?bd) s2 = (r3, s3)" by fastforce
  have res: "(r, s') = (case d of Inl e \<Rightarrow> (Err (io_text e), s1) | Inr _ \<Rightarrow>
      (case b of Inl e \<Rightarrow> (Err (''Failed to backup config before hardening: '' @ io_text e), s2) | Inr _ \<Rightarrow> (r3, s3)))"
    using run by (cases d; cases b) (simp_all add: harden_def Let_def \<open>run_state (fs_create_dir_all ev ?bd) s = (d, s1)\<close> b m)
  have "lookup s1 ?cp = Some f" using f mk(1) by simp
  then have copied: "case b of Inl _ \<Rightarrow> (\<forall>q. lookup s2 q = lookup s1 q) | Inr _ \<Rightarrow> lookup s2 (original_path ?bd) = Some f" if "d = Ok ()"
    using backup_result [OF ev _ _ b] mk(2) [of "length ?bd"] that unfolding original_path_def by simp
  have kept: "lookup s3 (original_path ?bd) = Some f" if "lookup s2 (original_path ?bd) = Some f"
    using keepsD [OF harden_frame.keeps_harden_modules [OF original_harden_frame [OF backup_dir_of_backup [OF now]]] that m] .
  show "lookup s' ?cp = Some f \<or> lookup s' (original_path ?bd) = Some f" "r = Ok out \<Longrightarrow> lookup s' (original_path ?bd) = Some f"
    using res copied kept f mk(1) by (cases d; cases b; simp)+
qed

text \<open>The invariant of a memory file, for the whole run.\<close>

lemma harden_memory_recoverable:
  assumes now: "CHR ''/'' \<notin> set now" and m: "m \<in> set MEMORY_FILES"
    and run: "run_state (harden ev lib ioc ctx now) s = (r, s')"
    and c: "text_at s (memory_path (state_path ctx) a m) c" and new: "lookup s (memory_backup (backup_dir_of ctx now) a m) = None"
  shows "recoverable (memory_path (state_path ctx) a m) (memory_backup (backup_dir_of ctx now) a m) c s'"
proof -
  let ?bd = "backup_dir_of ctx now"
  have bd: "backup_of (state_path ctx) ?bd" by (rule backup_dir_of_backup [OF now])
  have "original_path ?bd \<notin> {memory_path (state_path ctx) a m, memory_backup ?bd a m}"
    using backup_paths [OF bd, of a m "''openclaw.json.original''"] memory_backup_md [OF m, of a]
    by (auto simp: original_path_def memory_backup_def ends_with_def suffix_def)
  then show ?thesis
    using keepsD [OF harden_frame.keeps_harden [OF memory_harden_frame [OF bd m] refl] _ run] c new
    by (simp add: recoverable_def)
qed

text \<open>
  C10: Hardening never loses a configuration or a memory file. Whatever operations of the run fail, with whatever errors, and wherever the
  process panics: afterwards the configuration is untouched or its original, with its permission bits, is in the backup directory of the
  run; and every memory file still has its text, or has the redacted text while its backup has the original. The time
  stamp is a plain name, the backup of the memory file did not exist before the run, and the file system reports a missing file only for
  a missing file. An operation that fails is taken to have changed nothing, as in the whole file system model.
\<close>

theorem harden_never_loses_data:
  assumes "honest ev" and "CHR ''/'' \<notin> set now" and "run_state (harden ev lib ioc ctx now) s = (r, s')"
    and "lookup s (config_path (state_path ctx)) = Some f"
    and "text_at s (memory_path (state_path ctx) a m) c" and "m \<in> set MEMORY_FILES"
    and "lookup s (memory_backup (backup_dir_of ctx now) a m) = None"
  shows "(lookup s' (config_path (state_path ctx)) = Some f \<or> lookup s' (original_path (backup_dir_of ctx now)) = Some f) \<and>
    recoverable (memory_path (state_path ctx) a m) (memory_backup (backup_dir_of ctx now) a m) c s'"
  using harden_config_recoverable(1) [OF assms(1,2,4,3)] harden_memory_recoverable [OF assms(2,6,3,5,7)] by blast

subsection \<open>Rollback\<close>

text \<open>An environment without failures.\<close>

definition calm :: "fs_env \<Rightarrow> bool" where
  "calm ev \<longleftrightarrow> (\<forall>n. ev_fault ev n = None \<and> ev_cut ev n = None)"

lemma calm_io_op: "calm ev \<Longrightarrow> \<not> fy_panicked s \<Longrightarrow> run_state (io_op ev f) s = f (s\<lparr> fy_tick := fy_tick s + 1 \<rparr>)"
  by (simp add: io_op_def calm_def)

text \<open>What the rollback needs to find.\<close>

definition restorable :: "path \<Rightarrow> path \<Rightarrow> fs_file \<Rightarrow> fsys \<Rightarrow> bool" where
  "restorable sd bd f s \<longleftrightarrow> wf_fs s \<and> \<not> fy_panicked s \<and> is_dir s sd \<and> is_dir s bd \<and> lookup s (config_path sd) \<noteq> None \<and>
     lookup s (original_path bd) = Some f"

lemma restore_config_ok:
  assumes "calm ev" "restorable sd bd f s" "run_state (restore_config ev sd bd) s = (r, s')"
  shows "r" "lookup s' q = (if q = config_path sd then Some f else lookup s q)" "fy_dirs s' = fy_dirs s" "\<not> fy_panicked s'"
proof -
  have "\<not> is_dir s (config_path sd)" "butlast (config_path sd) = sd" using assms(2) by (auto simp: restorable_def wf_fs_def config_path_def)
  then have "run_state (fs_copy ev (original_path bd) (config_path sd)) s = (Ok (), put (config_path sd) f (s\<lparr> fy_tick := fy_tick s + 1 \<rparr>))"
    using assms(1,2) by (simp add: fs_copy_def calm_io_op restorable_def)
  then have "r \<and> s' = put (config_path sd) f (s\<lparr> fy_tick := fy_tick s + 1 \<rparr>)"
    using assms(3) by (simp add: restore_config_def original_path_def)
  then show "r" "lookup s' q = (if q = config_path sd then Some f else lookup s q)" "fy_dirs s' = fy_dirs s" "\<not> fy_panicked s'"
    using assms(2) by (simp_all add: restorable_def)
qed

definition restore_targets :: "path \<Rightarrow> path set" where
  "restore_targets sd = {sd @ [''.env'']} \<union> {sd @ [''credentials''] @ x |x. True} \<union> {sd @ [''agents''] @ x |x. True}"

lemma keeps_restore_to: "fs_inv P ps \<Longrightarrow> dest \<notin> ps \<Longrightarrow> keeps P (restore_to ev bd fname dest)"
  unfolding restore_to_def by (intro keeps_rules fs_inv.inv_copy)

lemma keeps_restore_entry:
  assumes "fs_inv P ps" "restore_targets sd \<inter> ps = {}" shows "keeps P (restore_entry ev sd bd fname)"
proof -
  have "sd @ [''.env''] \<notin> ps" "sd @ [''credentials''] @ x \<notin> ps" "sd @ [''agents''] @ x \<notin> ps" for x
    using assms(2) by (auto simp: restore_targets_def)
  then show ?thesis unfolding restore_entry_def by (intro keeps_rules keeps_restore_to [OF assms(1)])
qed

lemma keeps_restore_unpanicked: "keeps (\<lambda>s. \<not> fy_panicked s) (restore_to ev bd fname dest)"
  unfolding restore_to_def
  by (intro keeps_rules) (auto simp: keeps_def fs_copy_def io_op_def Let_def split: if_splits option.splits)

lemma keeps_unpanicked: "keeps (\<lambda>s. \<not> fy_panicked s) (restore_entry ev sd bd fname)"
  unfolding restore_entry_def by (intro keeps_rules keeps_restore_unpanicked)

text \<open>The target of a memory file is reached only from its own backup.\<close>

lemma memory_suffix:
  assumes "suffix (''-'' @ m') (a @ ''-'' @ m)" "m \<in> set MEMORY_FILES" "m' \<in> set MEMORY_FILES" shows "m' = m"
  using assms memory_backup_inject [of a m _ m'] by (auto simp: suffix_def)

lemma find_memory: "m \<in> set MEMORY_FILES \<Longrightarrow> find (\<lambda>mem. suffix (''-'' @ mem) (a @ ''-'' @ m)) MEMORY_FILES = Some m"
proof -
  assume m: "m \<in> set MEMORY_FILES"
  have "find (\<lambda>mem. suffix (''-'' @ mem) (a @ ''-'' @ m)) MEMORY_FILES = find (\<lambda>mem. mem = m) MEMORY_FILES"
    by (rule find_cong) (use m memory_suffix [of _ a m] in \<open>auto simp: suffix_def\<close>)
  then show ?thesis using m by (auto simp: MEMORY_FILES_def)
qed

definition restored :: "path \<Rightarrow> path \<Rightarrow> string \<Rightarrow> fsys \<Rightarrow> bool" where
  "restored p bp c s \<longleftrightarrow> text_at s p c \<and> (lookup s bp = None \<or> text_at s bp c)"

interpretation restored_inv: fs_inv "restored p bp c" "{p, bp}" for p bp c
  by (rule fs_inv_reads_only) (simp add: reads_only_def restored_def text_at_def)

lemma restore_own_keeps: "p \<noteq> bd @ [x] \<Longrightarrow> keeps (restored p (bd @ [x]) c) (restore_to ev bd x p)"
  unfolding restore_to_def
  by (intro keeps_rules keepsI) (auto simp: restored_def text_at_def dest!: copy_result split: sum.splits)

lemma strip_suffix_Some: "strip_suffix s p = Some r \<longleftrightarrow> s = r @ p"
  by (auto simp: strip_suffix_def suffix_def)

lemma restored_kept:
  assumes bd: "backup_of sd bd" and m: "m \<in> set MEMORY_FILES"
  shows "keeps (restored (memory_path sd a m) (memory_backup bd a m) c) (restore_entry ev sd bd x)"
    (is "keeps (restored ?p ?bp c) _")
proof -
  have other: "keeps (restored ?p ?bp c) (restore_to ev bd x dest)" if "dest \<noteq> ?p" "dest \<in> restore_targets sd" for dest
  proof (rule keeps_restore_to [OF restored_inv.fs_inv_axioms])
    show "dest \<notin> {?p, ?bp}"
      using that bd by (auto simp: restore_targets_def memory_backup_def backup_of_def backup_base_def)
  qed
  have targets: "sd @ [''.env''] \<noteq> ?p" "sd @ [''credentials''] @ y \<noteq> ?p" "sd @ [''agents''] @ y @ [''agent'', ''auth-profiles.json''] \<noteq> ?p"
    for y using m by (auto simp: memory_path_def MEMORY_FILES_def Cons_eq_append_conv)
  have own: "keeps (restored ?p ?bp c) (restore_to ev bd x (sd @ [''agents''] @ component (unwrap_or (strip_suffix x (''-'' @ mem)) []) @ [mem]))"
    if suff: "suffix (''-'' @ mem) x" for mem
  proof -
    obtain b where x: "x = b @ ''-'' @ mem" using suff by (auto simp: suffix_def)
    then have strip: "strip_suffix x (''-'' @ mem) = Some b" by (simp add: strip_suffix_Some)
    show ?thesis
    proof (cases "sd @ [''agents''] @ component b @ [mem] = ?p")
      case True
      then have "b = a" "mem = m" by (auto simp: memory_path_def component_def split: if_splits)
      then have "?bp = bd @ [x]" by (simp add: x memory_backup_def)
      then show ?thesis
        unfolding strip unwrap_or_simps True using restore_own_keeps [of ?p bd x c ev] backup_paths [OF bd] by metis
    next
      case False
      then show ?thesis using other strip by (auto simp: restore_targets_def)
    qed
  qed
  have f4: "keeps (restored ?p ?bp c) (case find (\<lambda>mem. suffix (''-'' @ mem) x) MEMORY_FILES of None \<Rightarrow> State_Monad.return []
      | Some mem \<Rightarrow> restore_to ev bd x (sd @ [''agents''] @ component (unwrap_or (strip_suffix x (''-'' @ mem)) []) @ [mem]))"
  proof (cases "find (\<lambda>mem. suffix (''-'' @ mem) x) MEMORY_FILES")
    case None
    then show ?thesis by (simp add: keeps_return)
  next
    case (Some mem)
    then have "suffix (''-'' @ mem) x" by (auto simp: find_Some_iff)
    then show ?thesis using own Some by simp
  qed
  have dests: "keeps (restored ?p ?bp c) (restore_to ev bd x (sd @ [''.env'']))"
    "keeps (restored ?p ?bp c) (restore_to ev bd x (sd @ [''credentials''] @ y))"
    "keeps (restored ?p ?bp c) (restore_to ev bd x (sd @ [''agents''] @ y @ [''agent'', ''auth-profiles.json'']))" for y
    using targets by (auto simp: restore_targets_def intro!: other)
  show ?thesis
    unfolding restore_entry_def by (intro keeps_if keeps_bind keeps_return f4) (intro keeps_rules dests)+
qed

lemma keeps_conj: "keeps P m \<Longrightarrow> keeps Q m \<Longrightarrow> keeps (\<lambda>s. P s \<and> Q s) m"
  by (simp add: keeps_def)

interpretation exists_inv: fs_inv "\<lambda>s. lookup s p \<noteq> None" "{}" for p
  by unfold_locales (auto simp: untimed_def)

interpretation text_inv: fs_inv "\<lambda>s. text_at s p c" "{p}" for p c
  by (rule fs_inv_reads_only) (simp add: reads_only_def text_at_def)

text \<open>What the restore of one memory file needs to find.\<close>

definition memory_saved :: "path \<Rightarrow> path \<Rightarrow> string \<Rightarrow> fsys \<Rightarrow> bool" where
  "memory_saved p bp c s \<longleftrightarrow> wf_fs s \<and> \<not> fy_panicked s \<and> is_dir s (butlast p) \<and> lookup s p \<noteq> None \<and> text_at s bp c"

lemma memory_saved_kept:
  assumes "backup_of sd bd" shows "keeps (memory_saved p (memory_backup bd a m) c) (restore_entry ev sd bd x)"
proof -
  have "restore_targets sd \<inter> {memory_backup bd a m} = {}"
    using assms by (auto simp: restore_targets_def memory_backup_def backup_of_def backup_base_def)
  then show ?thesis
    unfolding memory_saved_def
    by (intro keeps_conj keeps_unpanicked keeps_restore_entry [OF wf.fs_inv_axioms] keeps_restore_entry [OF dir.fs_inv_axioms]
        keeps_restore_entry [OF exists_inv.fs_inv_axioms] keeps_restore_entry [OF text_inv.fs_inv_axioms]) simp_all
qed

lemma restore_to_gives:
  assumes "calm ev" "p \<noteq> bd @ [x]"
  shows "gives (memory_saved p (bd @ [x]) c) (restored p (bd @ [x]) c) (restore_to ev bd x p)"
  unfolding gives_def
proof (intro allI impI)
  fix s assume K: "memory_saved p (bd @ [x]) c s"
  then obtain g where "lookup s (bd @ [x]) = Some g" "fd_data g = c" by (auto simp: memory_saved_def text_at_def)
  moreover have "\<not> is_dir s p" using K by (auto simp: memory_saved_def wf_fs_def)
  ultimately show "restored p (bd @ [x]) c (snd (run_state (restore_to ev bd x p) s))"
    using K assms by (simp add: restore_to_def fs_copy_def calm_io_op memory_saved_def restored_def text_at_def)
qed

lemma restore_entry_gives:
  assumes "calm ev" "backup_of sd bd" "m \<in> set MEMORY_FILES" "a \<noteq> []" "a \<noteq> ''.''"
  defines "p \<equiv> memory_path sd a m" and "bp \<equiv> memory_backup bd a m" and "x \<equiv> a @ ''-'' @ m"
  shows "gives (memory_saved p bp c) (restored p bp c) (restore_entry ev sd bd x)"
proof -
  have fresh: "x \<notin> set SKIPPED_BACKUPS"
    using memory_backup_md [OF assms(3), of a] by (auto simp: x_def SKIPPED_BACKUPS_def ends_with_def suffix_def)
  have dest: "sd @ [''agents''] @ component (unwrap_or (strip_suffix x (''-'' @ m)) []) @ [m] = p"
    using assms(4,5) strip_suffix_Some [of x "''-'' @ m" a] by (simp add: x_def p_def memory_path_def component_def)
  have own: "gives (memory_saved p bp c) (restored p bp c) (restore_to ev bd x p)"
    using restore_to_gives [OF assms(1)] backup_paths [OF assms(2)] unfolding p_def bp_def x_def memory_backup_def by blast
  have keep: "keeps (memory_saved p bp c) (restore_to ev bd x d)" if "d \<in> restore_targets sd" for d
  proof -
    have "d \<notin> {bp}" using that assms(2) by (auto simp: bp_def restore_targets_def memory_backup_def backup_of_def backup_base_def)
    then show ?thesis
      unfolding memory_saved_def
      by (intro keeps_conj keeps_restore_unpanicked keeps_restore_to [OF wf.fs_inv_axioms] keeps_restore_to [OF dir.fs_inv_axioms]
          keeps_restore_to [OF exists_inv.fs_inv_axioms] keeps_restore_to [OF text_inv.fs_inv_axioms]) simp_all
  qed
  have targets: "sd @ [''.env''] \<in> restore_targets sd" "sd @ [''credentials''] @ y \<in> restore_targets sd" "sd @ [''agents''] @ y \<in> restore_targets sd"
    for y by (auto simp: restore_targets_def)
  have four: "(case find (\<lambda>mem. suffix (''-'' @ mem) x) MEMORY_FILES of None \<Rightarrow> State_Monad.return []
      | Some mem \<Rightarrow> restore_to ev bd x (sd @ [''agents''] @ component (unwrap_or (strip_suffix x (''-'' @ mem)) []) @ [mem])) = restore_to ev bd x p"
    using find_memory [OF assms(3), of a] dest unfolding x_def [symmetric] by simp
  show ?thesis
    unfolding restore_entry_def if_not_P [OF fresh] four
    by (intro gives_later gives_now own keeps_return) (intro keeps_rules keep targets)+
qed

text \<open>The file ends with its text whether it was redacted or not.\<close>

lemma restore_all:
  assumes "calm ev" "backup_of sd bd" "m \<in> set MEMORY_FILES" "a \<noteq> []" "a \<noteq> ''.''" "wf_fs s" "\<not> fy_panicked s"
    "is_dir s (butlast (memory_path sd a m))" "recoverable (memory_path sd a m) (memory_backup bd a m) c s"
    "lookup s (memory_backup bd a m) \<noteq> None \<Longrightarrow> a @ ''-'' @ m \<in> set names"
    "run_state (State_Monad.traverse_list (restore_entry ev sd bd) names) s = (r, s')"
  shows "text_at s' (memory_path sd a m) c"
proof -
  let ?T = "restored (memory_path sd a m) (memory_backup bd a m) c"
  note kept = restored_kept [OF assms(2,3)]
  have "?T s'"
  proof (cases "lookup s (memory_backup bd a m) = None")
    case True
    then have "?T s" using assms(9) by (auto simp: restored_def recoverable_def text_at_def)
    then show ?thesis using keepsD [OF keeps_traverse [OF kept] _ assms(11)] by blast
  next
    case False
    then have "memory_saved (memory_path sd a m) (memory_backup bd a m) c s"
      using assms(6-9) by (auto simp: memory_saved_def recoverable_def text_at_def)
    moreover have "gives (memory_saved (memory_path sd a m) (memory_backup bd a m) c) ?T (State_Monad.traverse_list (restore_entry ev sd bd) names)"
      by (rule gives_traverse [OF assms(10) [OF False]]) (intro memory_saved_kept restore_entry_gives kept assms(1-5))+
    ultimately show ?thesis using assms(11) unfolding gives_def by (metis snd_conv)
  qed
  then show ?thesis by (simp add: restored_def)
qed

lemma calm_read_dir:
  "calm ev \<Longrightarrow> \<not> fy_panicked s \<Longrightarrow> is_dir s p \<Longrightarrow>
    run_state (fs_read_dir ev p) s = (Ok (dir_entries s p), s\<lparr> fy_tick := fy_tick s + 1 \<rparr>)"
  by (simp add: fs_read_dir_def calm_io_op calm_def dir_entries_def)

lemma calm_metadata:
  "calm ev \<Longrightarrow> \<not> fy_panicked s \<Longrightarrow> is_dir s p \<Longrightarrow> run_state (fs_metadata ev p) s = (Ok (), s\<lparr> fy_tick := fy_tick s + 1 \<rparr>)"
  by (simp add: fs_metadata_def calm_io_op)

lemma dir_entries_file: "lookup s (p @ [x]) \<noteq> None \<Longrightarrow> x \<in> set (dir_entries s p)"
  by (force simp: dir_entries_def lookup_def hm_get_def image_iff dest: map_of_SomeD)

lemma dir_entries_dir: "is_dir s (p @ [x]) \<Longrightarrow> x \<in> set (dir_entries s p)"
  by (force simp: dir_entries_def is_dir_def image_iff)

lemma rollback_restores:
  assumes ev: "calm ev" and bd: "bd = path_push (backup_base (path_of state_dir)) ts" "backup_of (path_of state_dir) bd"
    and found: "is_dir s (backup_base (path_of state_dir))" "dir_entries s (backup_base (path_of state_dir)) \<noteq> []"
    and s: "restorable (path_of state_dir) bd f s"
    and run: "run_state (rollback ev state_dir (Some ts)) s = (r, s')"
  shows "lookup s' (config_path (path_of state_dir)) = Some f"
    and "m \<in> set MEMORY_FILES \<Longrightarrow> a \<noteq> [] \<Longrightarrow> a \<noteq> ''.'' \<Longrightarrow> is_dir s (butlast (memory_path (path_of state_dir) a m)) \<Longrightarrow>
      recoverable (memory_path (path_of state_dir) a m) (memory_backup bd a m) c s \<Longrightarrow> text_at s' (memory_path (path_of state_dir) a m) c"
proof -
  let ?sd = "path_of state_dir"
  define s1 where "s1 = s\<lparr> fy_tick := fy_tick s + 2 \<rparr>"
  obtain b s2 where rc: "run_state (restore_config ev ?sd bd) s1 = (b, s2)" by fastforce
  have "restorable ?sd bd f s1" using s by (simp add: s1_def restorable_def wf_fs_def)
  note rc' = restore_config_ok [OF ev this rc]
  have s2: "\<not> fy_panicked s2" "is_dir s2 q = is_dir s q" "lookup s2 q = (if q = config_path ?sd then Some f else lookup s q)" for q
    using rc' by (auto simp: is_dir_def s1_def)
  define s3 where "s3 = s2\<lparr> fy_tick := fy_tick s2 + 1 \<rparr>"
  obtain fs s4 where tr: "run_state (State_Monad.traverse_list (restore_entry ev ?sd bd) (dir_entries s2 bd)) s3 = (fs, s4)" by fastforce
  have "sort (dir_entries s (backup_base ?sd)) \<noteq> []" using found(2) by (metis set_empty set_sort)
  then have "s' = s4"
    using run ev found s rc rc'(1) tr s2
    by (simp add: rollback_def Let_def list_backups_def entries_or_none_def calm_read_dir calm_metadata restorable_def
        bd(1) [symmetric] s1_def s3_def)
  have "restore_targets ?sd \<inter> {config_path ?sd} = {}" by (auto simp: restore_targets_def config_path_def)
  then show "lookup s' (config_path ?sd) = Some f"
    using keepsD [OF keeps_traverse [OF keeps_restore_entry [OF file_inv.fs_inv_axioms]] _ tr] s2 \<open>s' = s4\<close> by (simp add: s3_def)
  assume m: "m \<in> set MEMORY_FILES" "a \<noteq> []" "a \<noteq> ''.''" and dir: "is_dir s (butlast (memory_path ?sd a m))"
    and c: "recoverable (memory_path ?sd a m) (memory_backup bd a m) c s"
  have apart: "config_path ?sd \<noteq> memory_path ?sd a m" "config_path ?sd \<noteq> memory_backup bd a m"
    using bd(2) by (auto simp: config_path_def memory_path_def memory_backup_def backup_of_def backup_base_def)
  have "wf_fs s3" using s s2 by (auto simp: wf_fs_def s3_def restorable_def)
  then have "text_at s4 (memory_path ?sd a m) c"
    using c dir apart s2 dir_entries_file [of s2 bd "a @ ''-'' @ m"]
    by (intro restore_all [OF ev bd(2) m _ _ _ _ _ tr]) (auto simp: s3_def recoverable_def text_at_def memory_backup_def)
  then show "text_at s' (memory_path ?sd a m) c" using \<open>s' = s4\<close> by simp
qed

subsection \<open>Hardening, then rolling back\<close>

lemma simple_harden_frame: "fs_inv P {} \<Longrightarrow> harden_frame P {} ctx bd"
  by (rule harden_frame.intro, assumption, unfold_locales) (auto intro: redact_other)

lemma harden_keeps: "fs_inv P {} \<Longrightarrow> keeps P (harden ev lib ioc ctx now)"
  by (rule harden_frame.keeps_harden [OF simple_harden_frame]) simp_all

lemma harden_modules_ok:
  assumes "run_state (harden_modules ev lib ioc ctx now bd) s = (Ok out, s')" shows "\<not> fy_panicked s'"
  using assms
  by (auto simp: harden_modules_def fs_write_def io_op_def Let_def split: prod.splits sum.splits if_splits option.splits)

lemma harden_ok:
  assumes "run_state (harden ev lib ioc ctx now) s = (Ok out, s')" "take n (backup_dir_of ctx now) = d"
  shows "\<not> fy_panicked s'" "is_dir s' d"
proof -
  let ?bd = "backup_dir_of ctx now" and ?cp = "config_path (state_path ctx)"
  obtain c s1 where mk: "run_state (fs_create_dir_all ev ?bd) s = (c, s1)" by fastforce
  obtain b s2 where b: "run_state (backup_if_present ev ?cp (?bd @ [''openclaw.json.original''])) s1 = (b, s2)" by fastforce
  have ok: "c = Ok ()" "run_state (harden_modules ev lib ioc ctx now ?bd) s2 = (Ok out, s')"
    using assms(1) mk b by (simp_all add: harden_def Let_def split: sum.splits)
  have "is_dir s2 d"
    using keepsD [OF harden_frame.keeps_backup_if_present [OF simple_harden_frame [OF dir.fs_inv_axioms]] _ b] create_dir_result(2) [OF mk ok(1) assms(2)]
    by simp
  then show "\<not> fy_panicked s'" "is_dir s' d"
    using harden_modules_ok [OF ok(2)] keepsD [OF harden_frame.keeps_harden_modules [OF simple_harden_frame [OF dir.fs_inv_axioms]] _ ok(2)]
    by simp_all
qed

lemma split_char_none: "c \<notin> set s \<Longrightarrow> split_char c s = [s]"
  unfolding split_char_def by (rule split_by_no_sep) auto

lemma backup_dir_named:
  assumes "CHR ''/'' \<notin> set now" "now \<noteq> []" shows "backup_dir_of ctx now = backup_base (state_path ctx) @ [sanitize_timestamp now]"
proof -
  have plain: "CHR ''/'' \<notin> set (sanitize_timestamp now)" "sanitize_timestamp now \<noteq> []" "sanitize_timestamp now \<noteq> ''.''"
    using assms by (auto simp: sanitize_timestamp_def map_eq_Cons_conv split: if_splits)
  then have "path_of (sanitize_timestamp now) = [sanitize_timestamp now]" "\<not> starts_with (sanitize_timestamp now) ''/''"
    by (auto simp: path_of_def split_char_none starts_with_def) (cases "sanitize_timestamp now"; auto)
  then show ?thesis by (simp add: backup_dir_of_def path_push_def)
qed


text \<open>A host with a configuration and one agent whose memory holds a key.\<close>

definition demo_key_memory :: string where
  "demo_key_memory = ''key sk-ant-REDACTED end''"

definition demo_env :: fs_env where
  "demo_env = \<lparr> ev_fault = (\<lambda>_. None), ev_cut = (\<lambda>_. None), ev_new_mode = 420 \<rparr>"

definition demo_config_file :: fs_file where
  "demo_config_file = \<lparr> fd_data = ''{}'', fd_mode = 420 \<rparr>"

definition demo_fs :: fsys where
  "demo_fs = \<lparr> fy_files = [([''s'', ''openclaw.json''], demo_config_file),
       ([''s'', ''agents'', ''bot'', ''soul.md''], \<lparr> fd_data = demo_key_memory, fd_mode = 420 \<rparr>)],
     fy_dirs = [[''s''], [''s'', ''agents''], [''s'', ''agents'', ''bot'']], fy_tick = 0, fy_panicked = False \<rparr>"

definition demo_lib :: harden_lib where
  "demo_lib = \<lparr> hl_parse = (\<lambda>_. None), hl_pretty = (\<lambda>_. Ok ''{ }''), hl_pretty_docker = (\<lambda>_. Ok ''services''), hl_pretty_manifest = (\<lambda>_. Ok ''m''),
     hl_random = Some ''0123456789abcdef'', hl_machine = \<lparr> pbkdf2 = (\<lambda>_ _ _ _. ''k''), gcm16_encrypt = (\<lambda>_ _ _. None), gcm16_decrypt = (\<lambda>_ _ _. None) \<rparr>,
     hl_salt = (\<lambda>_. None), hl_iv = (\<lambda>_. None), hl_machine_id = ''id'', hl_iso_now = ''now'' \<rparr>"

definition demo_ioc :: ioc_database where
  "demo_ioc = \<lparr> db_version = ''1'', db_last_updated = [], db_c2_ips = [], db_malicious_domains = [], db_malicious_skill_hashes = [],
     db_typosquat_patterns = [], db_dangerous_prerequisite_patterns = [],
     db_infostealer_artifacts = \<lparr> ia_macos = [], ia_linux = [] \<rparr> \<rparr>"

definition demo_ctx :: audit_context where
  "demo_ctx = demo_host openclaw_default"

definition demo_hardened :: "(string + harden_outcome) \<times> fsys" where
  "demo_hardened = run_state (harden demo_env demo_lib demo_ioc demo_ctx ''t1'') demo_fs"

lemma demo_facts:
  "honest demo_env" "calm demo_env" "wf_fs demo_fs" "CHR ''/'' \<notin> set ''t1''" "''t1'' \<noteq> []" "is_dir demo_fs (state_path demo_ctx)"
  "lookup demo_fs (config_path (state_path demo_ctx)) = Some demo_config_file" "''soul.md'' \<in> set MEMORY_FILES" "''bot'' \<noteq> []" "''bot'' \<noteq> ''.''"
  "is_dir demo_fs (butlast (memory_path (state_path demo_ctx) ''bot'' ''soul.md''))"
  "text_at demo_fs (memory_path (state_path demo_ctx) ''bot'' ''soul.md'') demo_key_memory"
  "lookup demo_fs (memory_backup (backup_dir_of demo_ctx ''t1'') ''bot'' ''soul.md'') = None"
  by (simp add: honest_def calm_def demo_env_def,
      simp add: honest_def calm_def demo_env_def,
      simp add: wf_fs_def demo_fs_def lookup_def is_dir_def hm_get_def,
      code_simp+)

theorem harden_never_loses_data_witness:
  "recoverable (memory_path (state_path demo_ctx) ''bot'' ''soul.md'') (memory_backup (backup_dir_of demo_ctx ''t1'') ''bot'' ''soul.md'')
    demo_key_memory (snd (run_state (harden demo_env demo_lib demo_ioc demo_ctx ''t1'') demo_fs))"
  using harden_never_loses_data [OF demo_facts(1,4) prod.collapse [symmetric] demo_facts(7,12,8,13)] by blast

lemma demo_harden_ok: "is_ok (fst demo_hardened)"
  by code_simp


end
