(* ===== verification/HostAudit.thy ===== *)
theory HostAudit
  imports AllChecks FileSys
begin

text \<open>
  The host side of an audit: the context that reads the real file system (\<open>secureops-fs/src/lib.rs\<close>), the Ring-1 entry points that
  build it and run the default checks (\<open>secureops-napi/src/lib.rs\<close>), and the audit gate of the command line (\<open>secureops-cli\<close>).
  A host is a snapshot of the file system together with the paths on which operations fail; the modes and sizes of directories, which the
  operating system chooses, are part of it.
\<close>

record host =
  hs_fs :: fsys
  hs_fails :: "path \<Rightarrow> bool"
  hs_dir_mode :: "path \<Rightarrow> u32"
  hs_dir_len :: "path \<Rightarrow> u64"

subsection \<open>The real context\<close>

definition host_metadata :: "host \<Rightarrow> path \<Rightarrow> (u32 \<times> u64) option" where
  "host_metadata h p =
    (if hs_fails h p then None
     else case lookup (hs_fs h) p of
       Some f \<Rightarrow> Some (fd_mode f, of_nat (length (fd_data f)))
     | None \<Rightarrow> if is_dir (hs_fs h) p then Some (hs_dir_mode h p, hs_dir_len h p) else None)"

definition real_file_info :: "host \<Rightarrow> string \<Rightarrow> file_info" where
  "real_file_info h path = (case host_metadata h (path_of path) of
     Some (mode, len) \<Rightarrow> \<lparr> fi_path = path, fi_permissions = Some (mode AND 511), fi_content = None, fi_exists = Some True, fi_size = Some len \<rparr>
   | None \<Rightarrow> \<lparr> fi_path = path, fi_permissions = None, fi_content = None, fi_exists = Some False, fi_size = None \<rparr>)"

definition real_read_file :: "host \<Rightarrow> string \<Rightarrow> string option" where
  "real_read_file h path =
    (if hs_fails h (path_of path) then None
     else case lookup (hs_fs h) (path_of path) of None \<Rightarrow> None | Some f \<Rightarrow> if utf8_valid (fd_data f) then Some (fd_data f) else None)"

definition real_list_dir :: "host \<Rightarrow> string \<Rightarrow> string list" where
  "real_list_dir h path =
    (if hs_fails h (path_of path) \<or> \<not> is_dir (hs_fs h) (path_of path) then [] else dir_entries (hs_fs h) (path_of path))"

definition real_file_exists :: "host \<Rightarrow> string \<Rightarrow> bool" where
  "real_file_exists h path \<longleftrightarrow> host_metadata h (path_of path) \<noteq> None"

definition real_get_file_permissions :: "host \<Rightarrow> string \<Rightarrow> u32 option" where
  "real_get_file_permissions h path = map_option (\<lambda>(mode, _). mode AND 511) (host_metadata h (path_of path))"

text \<open>\<open>RealAuditContext::new\<close> starts with no channels, skills, compose file or logs; the builders attach them.\<close>

definition real_context :: "host \<Rightarrow> string \<Rightarrow> openclaw_config \<Rightarrow> string \<Rightarrow> string \<Rightarrow> string \<Rightarrow> audit_context" where
  "real_context h state_dir config platform deployment_mode openclaw_version =
    \<lparr> cx_state_dir = state_dir, cx_config = config, cx_platform = platform, cx_deployment_mode = deployment_mode,
      cx_openclaw_version = openclaw_version, cx_file_info = real_file_info h, cx_read_file = real_read_file h,
      cx_list_dir = real_list_dir h, cx_file_exists = real_file_exists h, cx_get_file_permissions = real_get_file_permissions h,
      cx_channels = [], cx_skills = [], cx_docker_compose = None, cx_session_logs = [], cx_connection_logs = [] \<rparr>"

definition with_channels :: "channel_config list \<Rightarrow> audit_context \<Rightarrow> audit_context" where
  "with_channels channels ctx = ctx\<lparr> cx_channels := channels \<rparr>"

definition with_skills :: "skill_metadata list \<Rightarrow> audit_context \<Rightarrow> audit_context" where
  "with_skills skills ctx = ctx\<lparr> cx_skills := skills \<rparr>"

definition with_docker_compose :: "docker_compose_config option \<Rightarrow> audit_context \<Rightarrow> audit_context" where
  "with_docker_compose docker_compose ctx = ctx\<lparr> cx_docker_compose := docker_compose \<rparr>"

definition with_session_logs :: "string list \<Rightarrow> audit_context \<Rightarrow> audit_context" where
  "with_session_logs session_logs ctx = ctx\<lparr> cx_session_logs := session_logs \<rparr>"

definition with_connection_logs :: "string list \<Rightarrow> audit_context \<Rightarrow> audit_context" where
  "with_connection_logs connection_logs ctx = ctx\<lparr> cx_connection_logs := connection_logs \<rparr>"

definition host_platform :: "string \<Rightarrow> string \<Rightarrow> string" where
  "host_platform OS ARCH =
    (let os = (if OS = ''macos'' then ''darwin'' else if OS = ''windows'' then ''win32'' else OS);
         arch = (if ARCH = ''aarch64'' then ''arm64'' else if ARCH = ''x86_64'' then ''x64'' else ARCH)
     in os @ ''-'' @ arch)"

text \<open>The constants of the build target, and the environment variables.\<close>

record target =
  tg_os :: string
  tg_arch :: string
  tg_state_dir :: "string option"
  tg_home :: "string option"

definition for_host :: "target \<Rightarrow> host \<Rightarrow> string \<Rightarrow> openclaw_config \<Rightarrow> string \<Rightarrow> string \<Rightarrow> audit_context" where
  "for_host tg h state_dir config deployment_mode openclaw_version =
    real_context h state_dir config (host_platform (tg_os tg) (tg_arch tg)) deployment_mode openclaw_version"

text \<open>\<open>connect\<close> stands for the connection attempt and its outcome: \<open>None\<close> is a time out.\<close>

definition probe_port :: "(string \<Rightarrow> bool option) \<Rightarrow> u16 \<Rightarrow> string \<Rightarrow> bool" where
  "probe_port connect port host \<longleftrightarrow> connect (host @ '':'' @ show_nat (unat port)) = Some True"

definition path_join :: "string \<Rightarrow> string \<Rightarrow> string" where
  "path_join base rest =
    (if starts_with rest ''/'' then rest
     else if base = [] \<or> ends_with base ''/'' then base @ rest
     else base @ ''/'' @ rest)"

definition fs_expand_home :: "string option \<Rightarrow> string \<Rightarrow> string" where
  "fs_expand_home home path = (case strip_prefix path ''~/'' of
     None \<Rightarrow> path
   | Some rest \<Rightarrow> (case home of None \<Rightarrow> path | Some h \<Rightarrow> path_join h rest))"

subsection \<open>Entry points\<close>

definition resolve_state_dir :: "target \<Rightarrow> string" where
  "resolve_state_dir tg = (case tg_state_dir tg of Some d \<Rightarrow> d | None \<Rightarrow> unwrap_or (tg_home tg) ''.'' @ ''/.openclaw'')"

definition host_load_config :: "(string \<Rightarrow> openclaw_config option) \<Rightarrow> host \<Rightarrow> string \<Rightarrow> openclaw_config" where
  "host_load_config parse h state_dir =
    from_json_or_default parse (unwrap_or (real_read_file h (state_dir @ ''/openclaw.json'')) [])"

definition SECUREOPS_VERSION :: string where "SECUREOPS_VERSION = ''2.2.0''"

text \<open>What the entry points need of the outside: the regular expressions and tables of the checks, serde, the port probe and the clock.\<close>

record audit_host =
  ah_lib :: check_lib
  ah_print :: "f64 \<Rightarrow> string"
  ah_parse :: "string \<Rightarrow> openclaw_config option"
  ah_parse_ioc :: "string \<Rightarrow> string + ioc_database"
  ah_bundled_ioc :: string
  ah_connect :: "string \<Rightarrow> bool option"
  ah_now :: string
  ah_target :: target

definition bundled_db :: "audit_host \<Rightarrow> ioc_database" where
  "bundled_db ah = load_from_str (ah_parse_ioc ah) (ah_bundled_ioc ah)"

definition default_check_registry :: "audit_host \<Rightarrow> check list" where
  "default_check_registry ah =
    default_checks (ah_lib ah) (\<lambda>port. probe_port (ah_connect ah) port ''127.0.0.1'') (ah_print ah) (bundled_db ah)"

definition run_audit_report :: "audit_host \<Rightarrow> host \<Rightarrow> string \<Rightarrow> audit_options \<Rightarrow> audit_report" where
  "run_audit_report ah h state_dir opts =
    run_audit (for_host (ah_target ah) h state_dir (host_load_config (ah_parse ah) h state_dir) ''native'' ''unknown'')
      (default_check_registry ah) opts (ah_now ah) SECUREOPS_VERSION"

subsection \<open>The gate of the command line\<close>

definition EXIT_GATE_FAILED :: int where "EXIT_GATE_FAILED = 2"
definition DEFAULT_SCORE_THRESHOLD :: u32 where "DEFAULT_SCORE_THRESHOLD = 80"

definition audit_exit_code :: "u32 \<Rightarrow> u32 \<Rightarrow> int" where
  "audit_exit_code score threshold = (if score < threshold then EXIT_GATE_FAILED else 0)"

text \<open>The report and, with \<open>--json\<close>, the exit code; without it the process ends normally.\<close>

definition run_audit_cmd :: "audit_host \<Rightarrow> host \<Rightarrow> bool \<Rightarrow> bool \<Rightarrow> u32 \<Rightarrow> audit_report \<times> int" where
  "run_audit_cmd ah h deep json threshold =
    (let state_dir = resolve_state_dir (ah_target ah);
         report = run_audit_report ah h state_dir \<lparr> ao_deep = deep, ao_fix = False, ao_json = json \<rparr>
     in (report, if json then audit_exit_code (of_nat (r_score report)) threshold else 0))"

subsection \<open>What a real audit can see\<close>

definition blind_ids :: "string list" where
  "blind_ids =
    [''SC-AC-001'', ''SC-AC-002'', ''SC-AC-003'', ''SC-AC-004'', ''SC-AC-005'', ''SC-EXEC-004'', ''SC-EXEC-005'', ''SC-EXEC-006'', ''SC-EXEC-007'',
     ''SC-SKILL-002'', ''SC-SKILL-003'', ''SC-SKILL-004'', ''SC-SKILL-005'', ''SC-SKILL-006'', ''SC-IOC-001'', ''SC-IOC-002'', ''SC-IOC-003'',
     ''SC-COST-002'']"

lemma real_context_empty [simp]:
  "cx_channels (for_host tg h sd c m v) = []" "cx_skills (for_host tg h sd c m v) = []" "cx_docker_compose (for_host tg h sd c m v) = None"
  "cx_session_logs (for_host tg h sd c m v) = []" "cx_connection_logs (for_host tg h sd c m v) = []"
  by (simp_all add: for_host_def real_context_def)

lemma row_ids: "row f \<in> set R \<Longrightarrow> list_all (\<lambda>r. fst r \<notin> set blind_ids) R \<Longrightarrow> f_id f \<notin> set blind_ids"
  by (auto simp: row_def list_all_iff)

lemma visible_rows:
  "list_all (\<lambda>r. fst r \<notin> set blind_ids) gateway_rows" "list_all (\<lambda>r. fst r \<notin> set blind_ids) credentials_rows"
  "list_all (\<lambda>r. fst r \<notin> set blind_ids) memory_integrity_rows" "list_all (\<lambda>r. fst r \<notin> set blind_ids) multi_framework_rows"
  by code_simp+

lemma visible_findings:
  "f_id sc_exec_001 \<notin> set blind_ids" "f_id sc_exec_002 \<notin> set blind_ids" "f_id (sc_exec_003 x) \<notin> set blind_ids"
  "f_id (sc_skill_001 n l) \<notin> set blind_ids" "f_id sc_cost_001 \<notin> set blind_ids" "f_id sc_cost_003 \<notin> set blind_ids"
  "f_id (sc_cost_004 pr a b) \<notin> set blind_ids" "f_id sc_ioc_000 \<notin> set blind_ids" "f_id (sc_ioc_004 a1 b1) \<notin> set blind_ids"
  "f_id (sc_ioc_005 a2 b2) \<notin> set blind_ids" "f_id (cross_finding ls) \<notin> set blind_ids"
  by (simp_all add: blind_ids_def builder_defs sc_exec_001_def sc_exec_002_def sc_exec_003_def sc_skill_001_def sc_cost_001_def sc_cost_003_def
      sc_cost_004_def sc_ioc_000_def sc_ioc_004_def sc_ioc_005_def cross_finding_def Let_def)

lemma cross_visible: "''SC-CROSS-001'' \<notin> set blind_ids"
  by (simp add: blind_ids_def)

lemma real_check_visible:
  fixes tg h sd c m v
  defines "ctx \<equiv> for_host tg h sd c m v"
  assumes "f \<in> set (check_findings (default_checks lib probe pr db) ctx opts)" shows "f_id f \<notin> set blind_ids"
proof -
  have "f \<in> set (execution_run ctx opts) \<Longrightarrow> f_id f \<notin> set blind_ids" "access_control_run ctx opts = []"
    "supply_chain_run lib db ctx opts = [sc_skill_001 0 ''none'']"
    unfolding ctx_def
    by (auto simp: execution_run_def access_control_run_def supply_chain_run_def visible_findings Let_def split: if_splits)
  moreover have "f \<in> set (cost_exposure_run lib pr ctx opts) \<Longrightarrow> f_id f \<notin> set blind_ids"
    "f \<in> set (ioc_run lib db ctx opts) \<Longrightarrow> f_id f \<notin> set blind_ids"
    unfolding ctx_def
    by (auto simp: cost_exposure_run_def session_totals_def content_finding_def ioc_run_def ioc_artifact_findings_def visible_findings
        flt_less_def Let_def split: if_splits option.splits)
  ultimately show ?thesis
    using assms(2)
    by (auto simp: check_findings_def default_checks_def check_defs visible_findings
        dest!: gateway_rows_ok credentials_rows_ok memory_integrity_rows_ok multi_framework_rows_ok
        dest: row_ids [OF _ visible_rows(1)] row_ids [OF _ visible_rows(2)] row_ids [OF _ visible_rows(3)] row_ids [OF _ visible_rows(4)])
qed

lemma blind_catalogued: "set blind_ids \<subseteq> fst ` set audit_catalogue" "distinct blind_ids" "length blind_ids = 18"
  by code_simp+

text \<open>
  What an audit of a real host cannot see. The contexts that the plugin and the command line build never get channels, skills, a compose
  file or logs, so of the 55 identifiers of the catalogue 18 are never reported, whatever is installed and configured on the host:
  every access control finding, the container findings, every skill finding but the inventory, which always says that no skill is installed,
  the network, source and hash indicators, and the recorded cost.
\<close>

theorem real_host_blind_spots:
  "set blind_ids \<subseteq> fst ` set audit_catalogue \<and> card (set blind_ids) = 18 \<and>
   f_id ` set (r_findings (run_audit_report ah h state_dir opts)) \<inter> set blind_ids = {} \<and>
   sc_skill_001 0 ''none'' \<in> set (r_findings (run_audit_report ah h state_dir opts)) \<and>
   f_id ` set (r_findings (fst (run_audit_cmd ah h deep json threshold))) \<inter> set blind_ids = {}"
proof -
  have visible: "f_id ` set (r_findings (run_audit_report ah h sd opts')) \<inter> set blind_ids = {}" for sd opts'
    unfolding run_audit_report_def default_check_registry_def
    by (auto simp: run_audit_findings cross_layer_risk_def visible_findings cross_visible Let_def dest: real_check_visible split: if_splits)
  have "sc_skill_001 0 ''none'' \<in> set (r_findings (run_audit_report ah h state_dir opts))"
    by (simp add: run_audit_report_def default_check_registry_def run_audit_findings check_findings_def default_checks_def
        check_defs supply_chain_run_def)
  moreover have "f_id ` set (r_findings (fst (run_audit_cmd ah h deep json threshold))) \<inter> set blind_ids = {}"
    unfolding run_audit_cmd_def Let_def fst_conv by (rule visible)
  moreover have "card (set blind_ids) = 18" using distinct_card [OF blind_catalogued(2)] blind_catalogued(3) by simp
  ultimately show ?thesis using visible blind_catalogued(1) by blast
qed

end
