(* ===== verification/Scanner.thy ===== *)
theory Scanner
  imports Isolation "HOL-Library.Monad_Syntax"
begin

text \<open>
  The scan worker (\<open>secureops-scanner/src/lib.rs\<close>): it takes the jobs that the API pushed on the Redis queue, runs a collector and stores
  its findings; the pure AWS rules of \<open>aws_rules.rs\<close>; and the degradation drills of \<open>secureops-chaos\<close>, which compose the
  worker with the in-memory store. Redis is the list of the payloads, new ones in front, as \<open>LPUSH\<close> and \<open>BRPOP\<close> use it. A collector,
  the JSON library and the identifiers of new findings are parameters.
\<close>

record scan_job =
  sj_scan_id :: uuid
  sj_scope :: string
  sj_kind :: string
  sj_tenant_id :: "string option"

text \<open>The derived deserialiser: three required strings, and a tenant that may be absent or null.\<close>

definition json_str_field :: "json \<Rightarrow> string \<Rightarrow> string option" where
  "json_str_field v k = Option.bind (json_get v k) json_as_str"

definition scan_job_of_json :: "(string \<Rightarrow> uuid option) \<Rightarrow> json \<Rightarrow> scan_job option" where
  "scan_job_of_json parse_uuid v = do {
     u \<leftarrow> Option.bind (json_str_field v ''scanId'') parse_uuid;
     scope \<leftarrow> json_str_field v ''scope'';
     kind \<leftarrow> json_str_field v ''kind'';
     tenant \<leftarrow> (case json_get v ''tenant_id'' of
         None \<Rightarrow> Some None | Some JNull \<Rightarrow> Some None | Some (JStr t) \<Rightarrow> Some (Some t) | Some _ \<Rightarrow> None);
     Some \<lparr> sj_scan_id = u, sj_scope = scope, sj_kind = kind, sj_tenant_id = tenant \<rparr>
   }"

record collector_finding =
  cg_title :: string
  cg_severity :: finding_severity
  cg_cloud :: "string option"
  cg_blast_radius :: int

definition mk_collected :: "string \<Rightarrow> finding_severity \<Rightarrow> int \<Rightarrow> string \<Rightarrow> collector_finding" where
  "mk_collected cloud sev blast title = \<lparr> cg_title = title, cg_severity = sev, cg_cloud = Some cloud, cg_blast_radius = blast \<rparr>"

definition mock_collect :: "scan_job \<Rightarrow> string + collector_finding list" where
  "mock_collect job =
    (let aws = mk_collected ''aws'' Critical 90 ''S3 bucket world-readable'';
         gcp = mk_collected ''gcp'' High 70 ''GCS bucket allUsers reader'';
         azure = mk_collected ''azure'' High 65 ''NSG opens RDP to 0.0.0.0/0''
     in Ok (if sj_scope job = ''aws'' then [aws]
            else if sj_scope job = ''gcp'' then [gcp]
            else if sj_scope job = ''azure'' then [azure]
            else if sj_scope job = ''all'' then [aws, gcp, azure]
            else [mk_collected ''n/a'' Info 0 ''no rules matched for the requested scope'']))"

subsection \<open>The worker\<close>

record worker =
  wk_collect :: "scan_job \<Rightarrow> string + collector_finding list"
  wk_default_tenant :: string
  wk_poll_secs :: u64
  wk_from_str :: "string \<Rightarrow> json option"
  wk_parse_uuid :: "string \<Rightarrow> uuid option"

definition worker_new ::
  "(scan_job \<Rightarrow> string + collector_finding list) \<Rightarrow> (string \<Rightarrow> json option) \<Rightarrow> (string \<Rightarrow> uuid option) \<Rightarrow> worker" where
  "worker_new collect from_str parse_uuid = \<lparr> wk_collect = collect, wk_default_tenant = ''default'', wk_poll_secs = 5,
     wk_from_str = from_str, wk_parse_uuid = parse_uuid \<rparr>"

definition finding_of :: "string \<Rightarrow> uuid \<Rightarrow> uuid \<Rightarrow> collector_finding \<Rightarrow> finding" where
  "finding_of tenant scan_id new_id c = \<lparr> fi_id = new_id, fi_tenant_id = tenant, fi_scan_id = Some scan_id, fi_title = cg_title c,
     fi_severity = cg_severity c, fi_status = ''open'', fi_cloud = cg_cloud c, fi_blast_radius = cg_blast_radius c \<rparr>"

text \<open>The findings of one job, with the identifiers drawn for them; a store that refuses one does not stop the loop.\<close>

fun store_findings :: "'s store_ops \<Rightarrow> finding list \<Rightarrow> 's \<Rightarrow> 's" where
  "store_findings ops [] s = s"
| "store_findings ops (f # fs) s = store_findings ops fs (snd (st_insert_finding ops f s))"

definition job_findings :: "worker \<Rightarrow> (nat \<Rightarrow> uuid) \<Rightarrow> scan_job \<Rightarrow> collector_finding list \<Rightarrow> finding list" where
  "job_findings w new_v4 job collected =
    (let tenant = unwrap_or (sj_tenant_id job) (wk_default_tenant w)
     in map (\<lambda>(i, c). finding_of tenant (sj_scan_id job) (new_v4 i) c) (zip [0..<length collected] collected))"

definition handle_payload ::
  "worker \<Rightarrow> 's store_ops \<Rightarrow> (nat \<Rightarrow> uuid) \<Rightarrow> string \<Rightarrow> 's \<Rightarrow> (string + unit) \<times> 's" where
  "handle_payload w ops new_v4 payload s =
    (case Option.bind (wk_from_str w payload) (scan_job_of_json (wk_parse_uuid w)) of
       None \<Rightarrow> (Err ''invalid job'', s)
     | Some job \<Rightarrow> (case wk_collect w job of
         Inl e \<Rightarrow> (Err e, s)
       | Inr collected \<Rightarrow> (Ok (), store_findings ops (job_findings w new_v4 job collected) s)))"

text \<open>One poll: the connection may fail; an empty queue times out; a popped job is gone from the queue whatever happens next.\<close>

definition process_one ::
  "worker \<Rightarrow> 's store_ops \<Rightarrow> string option \<Rightarrow> (nat \<Rightarrow> uuid) \<Rightarrow> string list \<Rightarrow> 's \<Rightarrow> (string + bool) \<times> string list \<times> 's" where
  "process_one w ops redis_error new_v4 queue s = (case redis_error of
     Some e \<Rightarrow> (Err e, queue, s)
   | None \<Rightarrow>
       if queue = [] then (Ok False, queue, s)
       else (let (r, s') = handle_payload w ops new_v4 (last queue) s
             in (case r of Inl e \<Rightarrow> Err e | Inr _ \<Rightarrow> Ok True, butlast queue, s')))"

text \<open>\<open>run_until\<close>: an error is logged and the loop goes on; the polls are those before the cancellation.\<close>

fun run_until ::
  "worker \<Rightarrow> 's store_ops \<Rightarrow> (string option \<times> (nat \<Rightarrow> uuid)) list \<Rightarrow> string list \<Rightarrow> 's \<Rightarrow> string list \<times> 's" where
  "run_until w ops [] queue s = (queue, s)"
| "run_until w ops ((redis_error, new_v4) # polls) queue s =
    (let (_, queue', s') = process_one w ops redis_error new_v4 queue s in run_until w ops polls queue' s')"

subsection \<open>AWS rules\<close>

record s3_bucket_observation =
  s3_name :: string
  s3_public_access_block_all :: "bool option"
  s3_encrypted :: bool

record security_group_observation =
  sg_id :: string
  sg_name :: string
  sg_world_open :: "(int \<times> int \<times> string) list"

record account_observation =
  ao_cloudtrail_trail_count :: nat
  ao_root_mfa_enabled :: "bool option"

definition aws_finding :: "string \<Rightarrow> finding_severity \<Rightarrow> int \<Rightarrow> collector_finding" where
  "aws_finding title sev blast = \<lparr> cg_title = title, cg_severity = sev, cg_cloud = Some ''aws'', cg_blast_radius = blast \<rparr>"

definition quoted :: "string \<Rightarrow> string" where
  "quoted s = [CHR 0x27] @ s @ [CHR 0x27]"

definition evaluate_bucket :: "s3_bucket_observation \<Rightarrow> collector_finding list" where
  "evaluate_bucket b =
    (if s3_public_access_block_all b \<noteq> Some True then
       [aws_finding (''S3 bucket '' @ quoted (s3_name b) @ '' '' @ (case s3_public_access_block_all b of
            None \<Rightarrow> ''has no public-access-block configuration''
          | Some _ \<Rightarrow> ''has an incomplete public-access-block configuration'')) High 70] else []) @
    (if \<not> s3_encrypted b then
       [aws_finding (''S3 bucket '' @ quoted (s3_name b) @ '' has no default encryption'') Medium 40] else [])"

definition evaluate_s3 :: "s3_bucket_observation list \<Rightarrow> collector_finding list" where
  "evaluate_s3 buckets = concat (map evaluate_bucket buckets)"

definition range_covers :: "int \<Rightarrow> int \<Rightarrow> int \<Rightarrow> bool" where
  "range_covers from to port \<longleftrightarrow> (from = -1 \<and> to = -1) \<or> (from \<le> port \<and> port \<le> to)"

definition evaluate_rule :: "security_group_observation \<Rightarrow> int \<times> int \<times> string \<Rightarrow> collector_finding" where
  "evaluate_rule g rule = (case rule of (from, to, cidr) \<Rightarrow>
    (let (label, sev, blast) =
           (if range_covers from to 22 then (''SSH (22)'', Critical, 90)
            else if range_covers from to 3389 then (''RDP (3389)'', Critical, 90)
            else (''ingress'', High, 60));
         ports = (if from = -1 then ''all ports'' else if from = to then ''port '' @ show_int from
                  else ''ports '' @ show_int from @ ''-'' @ show_int to)
     in aws_finding (''Security group '' @ quoted (sg_name g) @ '' ('' @ sg_id g @ '') opens '' @ label @ '' to '' @ cidr @
          '' ('' @ ports @ '')'') sev blast))"

definition evaluate_security_groups :: "security_group_observation list \<Rightarrow> collector_finding list" where
  "evaluate_security_groups groups = concat (map (\<lambda>g. map (evaluate_rule g) (sg_world_open g)) groups)"

definition evaluate_account :: "account_observation \<Rightarrow> collector_finding list" where
  "evaluate_account acct =
    (if ao_cloudtrail_trail_count acct = 0 then
       [aws_finding ''CloudTrail is not enabled in this account/region'' High 80] else []) @
    (if ao_root_mfa_enabled acct = Some False then [aws_finding ''Root account has no MFA device'' Critical 95] else [])"

subsection \<open>Jobs reach their tenant\<close>

context tenant_store
begin

lemma store_findings_step:
  assumes "list_all (\<lambda>f. fi_tenant_id f = t) fs"
  shows "t' \<noteq> t \<Longrightarrow> view t' (store_findings ops fs s) = view t' s"
  using assms
proof (induction fs arbitrary: s)
  case (Cons f fs)
  then have "view t' (snd (st_insert_finding ops f s)) = view t' s" using tenant_step_other [OF insert_finding] by auto
  then show ?case using Cons by simp
qed simp

end

lemma job_findings_tenant: "list_all (\<lambda>f. fi_tenant_id f = unwrap_or (sj_tenant_id job) (wk_default_tenant w)) (job_findings w ids job cs)"
  by (auto simp: job_findings_def list_all_iff finding_of_def Let_def)

lemma store_findings_mem:
  "store_findings mem_store fs m = m\<lparr> mm_findings := mm_findings m @ fs \<rparr>"
  by (induction fs arbitrary: m) (simp_all add: mem_store_def mem_insert_finding_def)

lemma job_findings_count: "length (job_findings w ids job cs) = length cs"
  by (simp add: job_findings_def Let_def)

lemma scan_job_of_payload:
  assumes "parse_uuid (cf_show_uuid cfg (sc_id sc)) = Some (sc_id sc)"
  shows "scan_job_of_json parse_uuid (scan_payload cfg sc) =
    Some \<lparr> sj_scan_id = sc_id sc, sj_scope = sc_scope sc, sj_kind = sc_kind sc, sj_tenant_id = Some (sc_tenant_id sc) \<rparr>"
  using assms by (simp add: scan_job_of_json_def scan_payload_def json_str_field_def)

definition scan_for :: "call_env \<Rightarrow> claims \<Rightarrow> string \<Rightarrow> scan" where
  "scan_for env c scope = \<lparr> sc_id = en_uuid env, sc_tenant_id = cl_tenant c, sc_scope = scope, sc_kind = ''scan'', sc_status = Queued,
     sc_created_at = en_now env \<rparr>"

definition job_for :: "call_env \<Rightarrow> claims \<Rightarrow> string \<Rightarrow> scan_job" where
  "job_for env c scope = \<lparr> sj_scan_id = en_uuid env, sj_scope = scope, sj_kind = ''scan'', sj_tenant_id = Some (cl_tenant c) \<rparr>"

definition own_findings :: "string \<Rightarrow> mem \<Rightarrow> finding list" where
  "own_findings t m = filter (\<lambda>x. fi_tenant_id x = t) (mm_findings m)"

lemma created_scan:
  assumes "api_create_scan cfg mem_store env c scope a = (Ok r, a1)" "cf_redis cfg" "en_enqueue_ok env"
  shows "ap_queue a1 = scan_payload cfg (scan_for env c scope) # ap_queue a"
    "ap_store a1 = snd (mem_create_scan (scan_for env c scope) (ap_store a))"
  using assms
  by (auto simp: api_create_scan_def Let_def mem_store_def mem_create_scan_def scan_for_def publish_tenant_def split: if_splits)


definition demo_scan_config :: api_config where
  "demo_scan_config = demo_config\<lparr> cf_redis := True \<rparr>"

definition demo_scan_env :: call_env where
  "demo_scan_env = \<lparr> en_now = 0, en_now_ms = 0, en_uuid = 7, en_enqueue_ok = True, en_evidence_id = (\<lambda>i. i) \<rparr>"

definition demo_worker :: worker where
  "demo_worker = worker_new mock_collect
     (\<lambda>_. Some (scan_payload demo_scan_config (scan_for demo_scan_env (demo_claims ''acme'' ''member'') ''aws''))) (\<lambda>_. Some 7)"

definition demo_created :: "(api_error + json) \<times> mem app_state" where
  "demo_created = api_create_scan demo_scan_config mem_store demo_scan_env (demo_claims ''acme'' ''member'') ''aws'' demo_app"

definition demo_polled :: "(string + bool) \<times> string list \<times> mem" where
  "demo_polled = process_one demo_worker mem_store None of_nat (map (cf_to_string demo_scan_config) (ap_queue (snd demo_created)))
     (ap_store (snd demo_created))"

lemma demo_created_ok: "is_ok (fst demo_created)"
  by code_simp


end
