(* ===== verification/Chaos.thy ===== *)
theory Chaos
  imports Scanner
begin

text \<open>
  The degradation drills of \<open>secureops-chaos/src/lib.rs\<close>: a store that is down, a worker without its queue, a throttled language model, and
  ingestion without the license service and without object storage. The drills are shown to pass.
\<close>

record drill_result =
  dl_name :: string
  dl_passed :: bool
  dl_note :: string

definition drill_ok :: "string \<Rightarrow> string \<Rightarrow> drill_result" where
  "drill_ok name note = \<lparr> dl_name = name, dl_passed = True, dl_note = note \<rparr>"

definition drill_fail :: "string \<Rightarrow> string \<Rightarrow> drill_result" where
  "drill_fail name note = \<lparr> dl_name = name, dl_passed = False, dl_note = note \<rparr>"

definition down :: "string + 'a" where
  "down = Err ''postgres down''"

definition dead_store :: "unit store_ops" where
  "dead_store = \<lparr> st_health = (\<lambda>_. False), st_lookup_api_key = (\<lambda>_ _. Ok None),
     st_put_license = (\<lambda>_ s. (down, s)), st_get_license = (\<lambda>_ _. down), st_any_license = (\<lambda>_. down),
     st_create_scan = (\<lambda>_ s. (down, s)), st_get_scan = (\<lambda>_ _ _. down), st_list_findings = (\<lambda>_ _ _. down),
     st_set_finding_status = (\<lambda>_ _ _ s. (down, s)), st_insert_finding = (\<lambda>_ s. (down, s)),
     st_insert_remediation = (\<lambda>_ _ s. (down, s)), st_list_remediations = (\<lambda>_ _. down),
     st_set_remediation_state = (\<lambda>_ _ _ s. (down, s)), st_record_rl_feedback = (\<lambda>_ _ _ _ s. (down, s)) \<rparr>"

definition chaos_postgres_down :: "uuid \<Rightarrow> drill_result" where
  "chaos_postgres_down new_id =
    (if st_health dead_store () then drill_fail ''postgres_down'' ''store reported healthy''
     else if is_ok (fst (st_create_scan dead_store \<lparr> sc_id = new_id, sc_tenant_id = ''t'', sc_scope = ''all'', sc_kind = ''scan'',
         sc_status = Queued, sc_created_at = 0 \<rparr> ()))
       then drill_fail ''postgres_down'' ''create_scan should have errored''
     else drill_ok ''postgres_down'' (''health=false, mutations error '' @ [byte 0xE2, byte 0x86, byte 0x92] @ '' router serves 503 + Retry-After''))"

definition scan_job_json :: "(uuid \<Rightarrow> string) \<Rightarrow> scan_job \<Rightarrow> json" where
  "scan_job_json show_uuid job = JObj [(''scanId'', JStr (show_uuid (sj_scan_id job))), (''scope'', JStr (sj_scope job)),
     (''kind'', JStr (sj_kind job)), (''tenant_id'', json_opt JStr (sj_tenant_id job))]"

definition drill_job :: "uuid \<Rightarrow> scan_job" where
  "drill_job scan_id = \<lparr> sj_scan_id = scan_id, sj_scope = ''aws'', sj_kind = ''scan'', sj_tenant_id = Some ''acme'' \<rparr>"

definition found_count :: "string \<Rightarrow> mem \<Rightarrow> nat" where
  "found_count tenant m = (case st_list_findings mem_store tenant finding_filter_default m of Inl _ \<Rightarrow> 0 | Inr fs \<Rightarrow> length fs)"

definition chaos_redis_down ::
  "(json \<Rightarrow> string) \<Rightarrow> (string \<Rightarrow> json option) \<Rightarrow> (uuid \<Rightarrow> string) \<Rightarrow> (string \<Rightarrow> uuid option) \<Rightarrow> uuid \<Rightarrow> (nat \<Rightarrow> uuid) \<Rightarrow> drill_result" where
  "chaos_redis_down to_string from_str show_uuid parse_uuid scan_id new_v4 =
    (let w = worker_new mock_collect from_str parse_uuid;
         (r, m) = handle_payload w mem_store new_v4 (to_string (scan_job_json show_uuid (drill_job scan_id))) mem_new
     in case r of
          Inl e \<Rightarrow> drill_fail ''redis_down'' (''handle_payload errored: '' @ e)
        | Inr _ \<Rightarrow>
            if found_count ''acme'' m = 0 then drill_fail ''redis_down'' ''no findings persisted in degraded mode''
            else drill_ok ''redis_down'' (''payload path persisted '' @ show_nat (found_count ''acme'' m) @ '' finding(s) without the queue''))"

text \<open>The retry loop: the simulated model answers from the third attempt on.\<close>

function retry_loop :: "nat \<Rightarrow> nat \<Rightarrow> nat \<Rightarrow> (string + string) \<times> nat" where
  "retry_loop max_attempts delay_ms attempts =
    (let attempts' = attempts + 1
     in if 3 \<le> attempts' then (Ok ''hunt complete'', attempts')
        else if max_attempts < attempts' then (Err (''gave up after '' @ show_nat max_attempts @ '' attempts''), attempts')
        else retry_loop max_attempts (delay_ms * 2) attempts')"
  by auto
termination by (relation "measure (\<lambda>(_, _, attempts). 3 - attempts)") auto

definition chaos_llm_throttled :: drill_result where
  "chaos_llm_throttled = (case retry_loop 4 2 0 of
     (Inr _, attempts) \<Rightarrow> drill_ok ''llm_throttled'' (''succeeded after '' @ show_nat attempts @ '' retries'')
   | (Inl e, _) \<Rightarrow> drill_fail ''llm_throttled'' e)"

definition drill_finding :: "uuid \<Rightarrow> string \<Rightarrow> finding_severity \<Rightarrow> finding" where
  "drill_finding new_id title sev = \<lparr> fi_id = new_id, fi_tenant_id = ''t'', fi_scan_id = None, fi_title = title, fi_severity = sev,
     fi_status = ''open'', fi_cloud = None, fi_blast_radius = 0 \<rparr>"

definition chaos_license_api_unreachable :: "uuid \<Rightarrow> drill_result" where
  "chaos_license_api_unreachable new_id =
    (let m = snd (st_insert_finding mem_store (drill_finding new_id ''test'' Info) mem_new)
     in if found_count ''t'' m = 1 then drill_ok ''license_api_unreachable'' ''ingest still operates inside the grace window''
        else drill_fail ''license_api_unreachable'' ''ingest failed'')"

definition chaos_minio_down :: "uuid \<Rightarrow> drill_result" where
  "chaos_minio_down new_id =
    (let m = snd (st_insert_finding mem_store (drill_finding new_id ''with-evidence'' Low) mem_new)
     in if found_count ''t'' m = 1 then drill_ok ''minio_down'' ''finding persisted; evidence skipped with warning''
        else drill_fail ''minio_down'' ''finding not persisted'')"

definition run_all ::
  "(json \<Rightarrow> string) \<Rightarrow> (string \<Rightarrow> json option) \<Rightarrow> (uuid \<Rightarrow> string) \<Rightarrow> (string \<Rightarrow> uuid option) \<Rightarrow> (nat \<Rightarrow> uuid) \<Rightarrow> drill_result list" where
  "run_all to_string from_str show_uuid parse_uuid new_v4 =
    [chaos_postgres_down (new_v4 0), chaos_redis_down to_string from_str show_uuid parse_uuid (new_v4 1) (\<lambda>i. new_v4 (i + 2)),
     chaos_llm_throttled, chaos_license_api_unreachable (new_v4 3), chaos_minio_down (new_v4 4)]"

subsection \<open>The drills pass\<close>

lemma found_count_mem: "found_count t m = min 50 (length (filter (\<lambda>x. fi_tenant_id x = t) (mm_findings m)))"
  by (simp add: found_count_def mem_list_findings_def finding_filter_default_def is_none_or_def min.commute)

lemma retry_loop_succeeds: "attempts < 3 \<Longrightarrow> 3 \<le> max_attempts \<Longrightarrow> retry_loop max_attempts d attempts = (Ok ''hunt complete'', 3)"
proof (induction max_attempts d attempts rule: retry_loop.induct)
  case (1 max_attempts d attempts)
  then show ?case by (cases "attempts = 2") (auto simp: Let_def)
qed

lemma scan_job_json_back:
  "parse_uuid (show_uuid (sj_scan_id job)) = Some (sj_scan_id job) \<Longrightarrow> scan_job_of_json parse_uuid (scan_job_json show_uuid job) = Some job"
  by (cases "sj_tenant_id job") (simp_all add: scan_job_of_json_def scan_job_json_def json_str_field_def json_opt_def)

text \<open>A store that is down never makes the worker fail: the job is done and the findings are lost.\<close>

lemma dead_store_degrades:
  assumes "Option.bind (wk_from_str w payload) (scan_job_of_json (wk_parse_uuid w)) = Some job" "wk_collect w job = Ok cs"
  shows "handle_payload w dead_store ids payload () = (Ok (), ())"
  using assms by (simp add: handle_payload_def)

lemma drills_pass:
  assumes "\<And>v. from_str (to_string v) = Some v" "\<And>u. parse_uuid (show_uuid u) = Some u"
  shows "list_all dl_passed (run_all to_string from_str show_uuid parse_uuid new_v4)"
proof -
  have "dl_passed (chaos_postgres_down u)" "dl_passed (chaos_license_api_unreachable u)" "dl_passed (chaos_minio_down u)" "dl_passed chaos_llm_throttled" for u
    by (simp_all add: chaos_postgres_down_def chaos_license_api_unreachable_def chaos_minio_down_def chaos_llm_throttled_def
        dead_store_def down_def drill_ok_def found_count_mem mem_insert_finding_def mem_new_def drill_finding_def retry_loop_succeeds)
  moreover have "dl_passed (chaos_redis_down to_string from_str show_uuid parse_uuid u ids)" for u ids
    using assms
    by (simp add: chaos_redis_down_def handle_payload_def worker_new_def scan_job_json_back mock_collect_def drill_job_def Let_def
        store_findings_mem found_count_mem mem_new_def mem_insert_finding_def job_findings_def finding_of_def drill_ok_def)
  ultimately show ?thesis by (simp add: run_all_def)
qed

end
