(* ===== verification/Evidence.thy ===== *)
theory Evidence
  imports Hex
begin

text \<open>
  Presigned object URLs (\<open>secureops-api/src/evidence.rs\<close>): the percent encoding and the Signature V4 query string. The keyed hash and
  SHA-256 are parameters. The date is a slice of the time stamp, which panics when the text is too short or cut inside a character.
\<close>

definition unreserved :: "char \<Rightarrow> bool" where
  "unreserved b \<longleftrightarrow> (let n = char_code b in (65 \<le> n \<and> n \<le> 90) \<or> (97 \<le> n \<and> n \<le> 122) \<or> (48 \<le> n \<and> n \<le> 57)) \<or> b \<in> set ''-_.~''"

definition upper_hex_digit :: "nat \<Rightarrow> char" where
  "upper_hex_digit d = (if d < 10 then char_of (48 + d) else char_of (55 + d))"

definition percent :: "char \<Rightarrow> string" where
  "percent b = [CHR ''%'', upper_hex_digit (char_code b div 16), upper_hex_digit (char_code b mod 16)]"

definition uri_encode :: "string \<Rightarrow> bool \<Rightarrow> string" where
  "uri_encode s encode_slash =
    concat (map (\<lambda>b. if unreserved b then [b] else if b = CHR ''/'' \<and> \<not> encode_slash then ''/'' else percent b) s)"

record s3_presigner =
  pg_access_key :: string
  pg_secret_key :: string
  pg_region :: string
  pg_host :: string
  pg_scheme :: string

definition presigner_new :: "string \<Rightarrow> string \<Rightarrow> string \<Rightarrow> string \<Rightarrow> string \<Rightarrow> s3_presigner" where
  "presigner_new access_key secret_key region host scheme =
    \<lparr> pg_access_key = access_key, pg_secret_key = secret_key, pg_region = region, pg_host = host, pg_scheme = scheme \<rparr>"

definition scope_of :: "s3_presigner \<Rightarrow> string \<Rightarrow> string" where
  "scope_of p date = date @ ''/'' @ pg_region p @ ''/s3/aws4_request''"

definition presign_params :: "s3_presigner \<Rightarrow> string \<Rightarrow> string \<Rightarrow> nat \<Rightarrow> (string \<times> string) list" where
  "presign_params p date amz_date expires_secs = sort_key fst
    [(''X-Amz-Algorithm'', ''AWS4-HMAC-SHA256''), (''X-Amz-Credential'', pg_access_key p @ ''/'' @ scope_of p date),
     (''X-Amz-Date'', amz_date), (''X-Amz-Expires'', show_nat expires_secs), (''X-Amz-SignedHeaders'', ''host'')]"

definition encode_pair :: "string \<times> string \<Rightarrow> string" where
  "encode_pair kv = (case kv of (k, v) \<Rightarrow> uri_encode k True @ ''='' @ uri_encode v True)"

definition canonical_query :: "s3_presigner \<Rightarrow> string \<Rightarrow> string \<Rightarrow> nat \<Rightarrow> string" where
  "canonical_query p date amz_date expires_secs = join ''&'' (map encode_pair (presign_params p date amz_date expires_secs))"

definition signing_key :: "(string \<Rightarrow> string \<Rightarrow> string) \<Rightarrow> s3_presigner \<Rightarrow> string \<Rightarrow> string" where
  "signing_key hmac p date =
    hmac (hmac (hmac (hmac (''AWS4'' @ pg_secret_key p) date) (pg_region p)) ''s3'') ''aws4_request''"

definition signature_of ::
  "(string \<Rightarrow> string \<Rightarrow> string) \<Rightarrow> (string \<Rightarrow> string) \<Rightarrow> s3_presigner \<Rightarrow> string \<Rightarrow> string \<Rightarrow> string \<Rightarrow> nat \<Rightarrow> string \<Rightarrow> string" where
  "signature_of hmac sha p meth host canonical_uri expires_secs amz_date =
    (let date = take 8 amz_date;
         canonical_request = meth @ [newline] @ uri_encode canonical_uri False @ [newline] @ canonical_query p date amz_date expires_secs @
           [newline] @ ''host:'' @ host @ [newline, newline] @ ''host'' @ [newline] @ ''UNSIGNED-PAYLOAD'';
         string_to_sign = ''AWS4-HMAC-SHA256'' @ [newline] @ amz_date @ [newline] @ scope_of p date @ [newline] @ to_hex (sha canonical_request)
     in to_hex (hmac (signing_key hmac p date) string_to_sign))"

definition presign ::
  "(string \<Rightarrow> string \<Rightarrow> string) \<Rightarrow> (string \<Rightarrow> string) \<Rightarrow> s3_presigner \<Rightarrow> string \<Rightarrow> string \<Rightarrow> string \<Rightarrow> nat \<Rightarrow> string \<Rightarrow> string may_panic" where
  "presign hmac sha p meth host canonical_uri expires_secs amz_date =
    (if length amz_date < 8 \<or> (drop 8 amz_date \<noteq> [] \<and> is_cont (amz_date ! 8)) then Panics
     else Returns (pg_scheme p @ ''://'' @ host @ uri_encode canonical_uri False @ ''?'' @
       canonical_query p (take 8 amz_date) amz_date expires_secs @ ''&X-Amz-Signature='' @
       signature_of hmac sha p meth host canonical_uri expires_secs amz_date))"

definition presign_path_style ::
  "(string \<Rightarrow> string \<Rightarrow> string) \<Rightarrow> (string \<Rightarrow> string) \<Rightarrow> s3_presigner \<Rightarrow> string \<Rightarrow> string \<Rightarrow> string \<Rightarrow> nat \<Rightarrow> string \<Rightarrow> string may_panic" where
  "presign_path_style hmac sha p meth bucket key expires_secs amz_date =
    presign hmac sha p meth (pg_host p) (''/'' @ bucket @ ''/'' @ key) expires_secs amz_date"

subsection \<open>Decoding\<close>

fun uri_decode :: "string \<Rightarrow> string option" where
  "uri_decode [] = Some []"
| "uri_decode (c # s) =
    (if c = CHR ''%'' then
       (case s of a # b # rest \<Rightarrow>
          (case (hex_val a, hex_val b) of (Some x, Some y) \<Rightarrow> map_option ((#) (char_of (16 * x + y))) (uri_decode rest) | _ \<Rightarrow> None)
        | _ \<Rightarrow> None)
     else map_option ((#) c) (uri_decode s))"

lemma hex_val_upper: "d < 16 \<Longrightarrow> hex_val (upper_hex_digit d) = Some d"
  by (auto simp: hex_val_def upper_hex_digit_def char_code_def Let_def)

lemma uri_decode_percent: "uri_decode (percent b @ s) = map_option ((#) b) (uri_decode s)"
proof -
  have "char_code b < 256" by (rule char_code_less)
  then have "hex_val (upper_hex_digit (char_code b div 16)) = Some (char_code b div 16)"
    "hex_val (upper_hex_digit (char_code b mod 16)) = Some (char_code b mod 16)"
    by (simp_all add: hex_val_upper less_mult_imp_div_less)
  moreover have "char_of (16 * (char_code b div 16) + char_code b mod 16) = b" by (simp add: char_code_def)
  ultimately show ?thesis by (simp add: percent_def)
qed

lemma uri_decode_encode: "uri_decode (uri_encode s sl) = Some s"
proof (induction s)
  case (Cons b s)
  have "unreserved b \<Longrightarrow> b \<noteq> CHR ''%''" by (auto simp: unreserved_def char_code_def Let_def)
  then show ?case using Cons by (auto simp: uri_encode_def uri_decode_percent)
qed (simp add: uri_encode_def)

definition url_safe :: "char \<Rightarrow> bool" where
  "url_safe c \<longleftrightarrow> unreserved c \<or> c = CHR ''%''"

lemma upper_hex_safe: "d < 16 \<Longrightarrow> url_safe (upper_hex_digit d)"
  by (auto simp: url_safe_def unreserved_def upper_hex_digit_def char_code_def Let_def)

lemma percent_safe: "list_all url_safe (percent b)"
  using char_code_less [of b] by (simp add: percent_def upper_hex_safe less_mult_imp_div_less) (simp add: url_safe_def)

lemma uri_encode_safe: "list_all (\<lambda>c. url_safe c \<or> c = CHR ''/'' \<and> \<not> sl) (uri_encode s sl)"
proof (induction s)
  case (Cons b s)
  then show ?case using percent_safe [of b] by (auto simp: uri_encode_def url_safe_def list_all_iff)
qed (simp add: uri_encode_def)

lemma url_safe_plain: "url_safe c \<Longrightarrow> c \<notin> set ''?&=/#''"
  by (auto simp: url_safe_def unreserved_def char_code_def Let_def)

subsection \<open>What a server reads back\<close>

definition parse_query :: "string \<Rightarrow> (string option \<times> string option) list" where
  "parse_query q = map (\<lambda>part. case split_once (CHR ''='') part of
     None \<Rightarrow> (uri_decode part, None) | Some (k, v) \<Rightarrow> (uri_decode k, uri_decode v)) (split_char (CHR ''&'') q)"

lemma split_by_join:
  "list_all (\<lambda>p. c \<notin> set p) (p # ps) \<Longrightarrow> split_char c (join [c] (p # ps)) = p # ps"
proof (induction ps arbitrary: p)
  case Nil
  then show ?case by (auto simp: split_char_def join_def intro: split_by_no_sep)
next
  case (Cons q ps)
  have *: "split_by (\<lambda>x. x = c) (u @ c # s) = u # split_by (\<lambda>x. x = c) s" if "c \<notin> set u" for u s
    using that by (induction u) auto
  have "join [c] (p # q # ps) = p @ c # join [c] (q # ps)" by (simp add: join_def)
  then show ?case using Cons * by (simp add: split_char_def)
qed

lemma encoded_plain: "c \<in> set ''?&=#'' \<Longrightarrow> c \<notin> set (uri_encode s sl)"
proof
  assume c: "c \<in> set ''?&=#''" and "c \<in> set (uri_encode s sl)"
  then have "url_safe c \<or> c = CHR ''/''" using uri_encode_safe [of sl s] by (auto simp: list_all_iff)
  then show False using url_safe_plain [of c] c by auto
qed

lemma parse_encoded_pair:
  "(case split_once (CHR ''='') (encode_pair (k, v)) of None \<Rightarrow> (uri_decode (encode_pair (k, v)), None)
    | Some (k', v') \<Rightarrow> (uri_decode k', uri_decode v')) = (Some k, Some v)"
proof -
  have "split_once (CHR ''='') (encode_pair (k, v)) = Some (uri_encode k True, uri_encode v True)"
    by (simp add: encode_pair_def split_once_Some encoded_plain)
  then show ?thesis by (simp add: uri_decode_encode)
qed

lemma hex_digits_unreserved: "list_all unreserved (to_hex s)"
proof (induction s)
  case (Cons b s)
  have "unreserved (hex_digit d)" if "d < 16" for d
    using that by (auto simp: unreserved_def hex_digit_def char_code_def Let_def)
  then show ?case using Cons char_code_less [of b] by (simp add: to_hex_def less_mult_imp_div_less)
qed (simp add: to_hex_def)

lemma uri_encode_unreserved: "list_all unreserved s \<Longrightarrow> uri_encode s sl = s"
  by (induction s) (auto simp: uri_encode_def)

lemma signature_param: "''X-Amz-Signature='' @ to_hex s = encode_pair (''X-Amz-Signature'', to_hex s)"
proof -
  have "list_all unreserved ''X-Amz-Signature''" by code_simp
  then show ?thesis by (simp add: encode_pair_def uri_encode_unreserved hex_digits_unreserved)
qed

lemma params_sorted:
  "presign_params p date amz_date n =
    [(''X-Amz-Algorithm'', ''AWS4-HMAC-SHA256''), (''X-Amz-Credential'', pg_access_key p @ ''/'' @ scope_of p date),
     (''X-Amz-Date'', amz_date), (''X-Amz-Expires'', show_nat n), (''X-Amz-SignedHeaders'', ''host'')]"
  unfolding presign_params_def by (rule sort_key_id_if_sorted) simp

text \<open>
  C37: A presigned URL means what was signed: a client-chosen bucket, object key, region or access key cannot add, remove or change a
  parameter. Whatever they contain, the URL is the endpoint, a path with no question mark that decodes to the canonical path that was
  signed, and a query that parses to exactly the six Signature V4 parameters in canonical order with the values that were signed. A time stamp of
  fewer than eight bytes is a panic, not a URL.
\<close>

theorem presign_no_injection:
  assumes "presign hmac sha p meth host uri expires amz_date = Returns url"
  shows "\<exists>path query. url = pg_scheme p @ ''://'' @ host @ path @ ''?'' @ query \<and> CHR ''?'' \<notin> set path \<and> uri_decode path = Some uri \<and>
    parse_query query = map (\<lambda>(k, v). (Some k, Some v))
      (presign_params p (take 8 amz_date) amz_date expires @ [(''X-Amz-Signature'', signature_of hmac sha p meth host uri expires amz_date)])"
proof -
  define ps where "ps = presign_params p (take 8 amz_date) amz_date expires @ [(''X-Amz-Signature'', signature_of hmac sha p meth host uri expires amz_date)]"
  obtain k v rest where ps: "map encode_pair ps = encode_pair (k, v) # map encode_pair rest" "ps = (k, v) # rest"
    unfolding ps_def params_sorted by simp
  have query: "canonical_query p (take 8 amz_date) amz_date expires @ ''&X-Amz-Signature='' @ signature_of hmac sha p meth host uri expires amz_date =
      join ''&'' (map encode_pair ps)"
    by (simp add: ps_def canonical_query_def params_sorted join_def signature_of_def Let_def flip: signature_param)
  have "list_all (\<lambda>x. CHR ''&'' \<notin> set x) (map encode_pair ps)"
    by (auto simp: list_all_iff encode_pair_def encoded_plain)
  then have "split_char (CHR ''&'') (join ''&'' (map encode_pair ps)) = map encode_pair ps" unfolding ps(1) by (rule split_by_join)
  then have "parse_query (join ''&'' (map encode_pair ps)) = map (\<lambda>(k, v). (Some k, Some v)) ps"
    by (auto simp: parse_query_def parse_encoded_pair)
  moreover have "url = pg_scheme p @ ''://'' @ host @ uri_encode uri False @ ''?'' @ join ''&'' (map encode_pair ps)"
    using assms query by (auto simp: presign_def split: if_splits)
  ultimately show ?thesis using uri_decode_encode encoded_plain [of "CHR ''?''"] unfolding ps_def by (metis list.set_intros(1))
qed

theorem presign_no_injection_witness:
  "\<exists>path query. presign (\<lambda>k m. m) (\<lambda>m. m) (presigner_new ''AK'' ''sk'' ''us'' ''minio'' ''https'') ''GET'' ''minio'' ''/b/x?X-Amz-Expires=9&y'' 60 ''20260101T000000Z'' =
      Returns (''https://minio'' @ path @ ''?'' @ query) \<and> CHR ''?'' \<notin> set path \<and> uri_decode path = Some ''/b/x?X-Amz-Expires=9&y'' \<and>
    length (parse_query query) = 6"
proof -
  let ?p = "presigner_new ''AK'' ''sk'' ''us'' ''minio'' ''https''"
  obtain url where "presign (\<lambda>k m. m) (\<lambda>m. m) ?p ''GET'' ''minio'' ''/b/x?X-Amz-Expires=9&y'' 60 ''20260101T000000Z'' = Returns url"
    by (simp add: presign_def is_cont_def char_code_def)
  note this presign_no_injection [OF this]
  moreover have "pg_scheme ?p = ''https''" by (simp add: presigner_new_def)
  ultimately show ?thesis by (fastforce simp: params_sorted)
qed

end
