(* ===== verification/Sandbox.thy ===== *)
theory Sandbox
  imports Policy
begin

text \<open>
  The execution enforcement point (\<open>secureops-sandbox/src/lib.rs\<close>): which directories a skill's WASI context gets. Capabilities are
  negotiated with a policy engine, whose state (its decision cache) is threaded through the requests, and then turned into the
  preopened directories, the fuel and the deadline of a guest. \<open>wasmtime\<close> is a parameter: each call that the code makes on it, with its
  error message.
\<close>

subsection \<open>Errors and capabilities\<close>

datatype sandbox_error =
    CompileError string
  | CapabilityDenied string
  | FuelExhausted u64
  | EpochDeadline u64
  | Trap string
  | Host string

definition sandbox_error_text :: "sandbox_error \<Rightarrow> string" where
  "sandbox_error_text e = (case e of
     CompileError m \<Rightarrow> ''failed to compile wasm module: '' @ m
   | CapabilityDenied m \<Rightarrow> ''capability denied by policy: '' @ m
   | FuelExhausted n \<Rightarrow> ''skill exhausted its fuel budget ('' @ show_nat (unat n) @ '' units)''
   | EpochDeadline n \<Rightarrow> ''skill exceeded its epoch deadline ('' @ show_nat (unat n) @ '' ms)''
   | Trap m \<Rightarrow> ''wasm guest trapped: '' @ m
   | Host m \<Rightarrow> ''sandbox host error: '' @ m)"

record capabilities =
  ca_fs_paths :: "string list"
  ca_network_via_proxy :: bool
  ca_fuel :: u64
  ca_epoch_deadline_ms :: u64

definition locked_down :: capabilities where
  "locked_down = \<lparr> ca_fs_paths = [], ca_network_via_proxy = False, ca_fuel = 0, ca_epoch_deadline_ms = 0 \<rparr>"

definition allows_path :: "capabilities \<Rightarrow> string \<Rightarrow> bool" where
  "allows_path caps path \<longleftrightarrow> list_ex (\<lambda>granted. path = granted \<or> starts_with path (granted @ ''/'')) (ca_fs_paths caps)"

subsection \<open>Negotiation\<close>

definition env_path :: "string \<Rightarrow> bool" where
  "env_path path \<longleftrightarrow> ends_with path ''.env'' \<or> contains path ''/.env''"

definition secret_path :: "string \<Rightarrow> bool" where
  "secret_path path \<longleftrightarrow> env_path path \<or> contains path ''/credentials''"

definition path_request :: "u32 \<Rightarrow> string \<Rightarrow> decision_request" where
  "path_request pid path = \<lparr> rq_action = Capability, rq_destination_host = None, rq_destination_port = None, rq_pid = pid, rq_comm = None,
     rq_recent_syscalls = [], rq_attributes = [(''path'', path)] \<rparr>"

definition network_request :: "u32 \<Rightarrow> decision_request" where
  "network_request pid = \<lparr> rq_action = Capability, rq_destination_host = Some ''*'', rq_destination_port = None, rq_pid = pid, rq_comm = None,
     rq_recent_syscalls = [], rq_attributes = [(''capability'', ''network_via_proxy'')] \<rparr>"

text \<open>
  An engine is its evaluation, which reads the clock twice and may change the engine; \<open>clock n\<close> gives the two readings of the
  \<open>n\<close>-th evaluation.
\<close>

type_synonym 'p engine = "'p \<Rightarrow> decision_request \<Rightarrow> nat \<Rightarrow> nat \<Rightarrow> decision \<times> 'p"
type_synonym clock = "nat \<Rightarrow> nat \<times> nat"

definition ask :: "'p engine \<Rightarrow> clock \<Rightarrow> nat \<Rightarrow> 'p \<Rightarrow> decision_request \<Rightarrow> decision \<times> 'p" where
  "ask ev clock n p r = ev p r (fst (clock n)) (snd (clock n))"

fun negotiate_paths :: "'p engine \<Rightarrow> clock \<Rightarrow> u32 \<Rightarrow> nat \<Rightarrow> string list \<Rightarrow> 'p \<Rightarrow> string list \<times> nat \<times> 'p" where
  "negotiate_paths ev clock pid n [] p = ([], n, p)"
| "negotiate_paths ev clock pid n (path # paths) p =
    (if secret_path path then negotiate_paths ev clock pid n paths p
     else
       let (d, p1) = ask ev clock n p (path_request pid path);
           (granted, n', p2) = negotiate_paths ev clock pid (n + 1) paths p1
       in (if d = Allow then path # granted else granted, n', p2))"

definition negotiate_capabilities :: "'p engine \<Rightarrow> clock \<Rightarrow> capabilities \<Rightarrow> u32 \<Rightarrow> 'p \<Rightarrow> (sandbox_error + capabilities) \<times> 'p" where
  "negotiate_capabilities ev clock requested pid p =
    (let (paths, n, p1) = negotiate_paths ev clock pid 0 (ca_fs_paths requested) p;
         (net, p2) = (if ca_network_via_proxy requested
            then (let (d, p') = ask ev clock n p1 (network_request pid) in (d = Allow, p'))
            else (False, p1))
     in (Ok \<lparr> ca_fs_paths = paths, ca_network_via_proxy = net, ca_fuel = ca_fuel requested,
            ca_epoch_deadline_ms = ca_epoch_deadline_ms requested \<rparr>, p2))"

subsection \<open>Running a guest\<close>

text \<open>What the store of a guest is configured with; \<open>None\<close> leaves the engine's default.\<close>

record guest =
  gu_preopened :: "string list"
  gu_fuel :: "u64 option"
  gu_epoch_ticks :: "u64 option"

record 'm wasm =
  wa_engine :: "string option"
  wa_compile :: "string \<Rightarrow> string + 'm"
  wa_preopened_dir :: "string \<Rightarrow> string option"
  wa_set_fuel :: "u64 \<Rightarrow> string option"
  wa_add_to_linker :: "string option"
  wa_instantiate :: "'m \<Rightarrow> guest \<Rightarrow> string option"
  wa_start :: "'m \<Rightarrow> string option"
  wa_call :: "'m \<Rightarrow> guest \<Rightarrow> string option"

fun preopen :: "'m wasm \<Rightarrow> string list \<Rightarrow> sandbox_error + string list" where
  "preopen rt [] = Ok []"
| "preopen rt (path # paths) =
    (if env_path path then preopen rt paths
     else case wa_preopened_dir rt path of
       Some e \<Rightarrow> Err (CapabilityDenied (''preopened_dir '' @ path @ '' failed: '' @ e))
     | None \<Rightarrow> (case preopen rt paths of Inl e \<Rightarrow> Err e | Inr ps \<Rightarrow> Ok (path # ps)))"

definition div_ceil_10 :: "u64 \<Rightarrow> u64" where
  "div_ceil_10 n = of_nat ((unat n + 9) div 10)"

definition trap_error :: "capabilities \<Rightarrow> string \<Rightarrow> sandbox_error" where
  "trap_error caps msg =
    (if contains msg ''fuel'' then FuelExhausted (ca_fuel caps)
     else if contains msg ''epoch'' \<or> contains msg ''interrupt'' then EpochDeadline (ca_epoch_deadline_ms caps)
     else Trap msg)"

definition fails :: "string option \<Rightarrow> (string \<Rightarrow> sandbox_error) \<Rightarrow> sandbox_error + 'a \<Rightarrow> sandbox_error + 'a" where
  "fails e mk k = (case e of Some m \<Rightarrow> Err (mk m) | None \<Rightarrow> k)"

definition guest_of :: "capabilities \<Rightarrow> string list \<Rightarrow> guest" where
  "guest_of caps preopened = \<lparr> gu_preopened = preopened,
     gu_fuel = (if ca_fuel caps > 0 then Some (ca_fuel caps) else None),
     gu_epoch_ticks = (if ca_epoch_deadline_ms caps > 0 then Some (div_ceil_10 (ca_epoch_deadline_ms caps)) else None) \<rparr>"

definition run_wasm :: "'m wasm \<Rightarrow> string \<Rightarrow> capabilities \<Rightarrow> sandbox_error + unit" where
  "run_wasm rt wasm_bytes caps = (case wa_compile rt wasm_bytes of
     Inl e \<Rightarrow> Err (CompileError e)
   | Inr modu \<Rightarrow> (case preopen rt (ca_fs_paths caps) of
       Inl e \<Rightarrow> Err e
     | Inr preopened \<Rightarrow>
         let g = guest_of caps preopened
         in fails (if ca_fuel caps > 0 then wa_set_fuel rt (ca_fuel caps) else None) Host
              (fails (wa_add_to_linker rt) Host
                (fails (wa_instantiate rt modu g) Trap
                  (fails (wa_start rt modu) (\<lambda>e. Trap (''no _start export: '' @ e))
                    (fails (wa_call rt modu g) (trap_error caps) (Ok ())))))))"

definition sandbox_new :: "'m wasm \<Rightarrow> sandbox_error + unit" where
  "sandbox_new rt = fails (wa_engine rt) Host (Ok ())"

definition run_skill :: "'m wasm \<Rightarrow> 'p engine \<Rightarrow> clock \<Rightarrow> u32 \<Rightarrow> string \<Rightarrow> capabilities \<Rightarrow> 'p \<Rightarrow> (string + unit) \<times> 'p" where
  "run_skill rt ev clock pid wasm_bytes caps p = (case sandbox_new rt of
     Inl e \<Rightarrow> (Err (''sandbox init: '' @ sandbox_error_text e), p)
   | Inr _ \<Rightarrow> (case negotiate_capabilities ev clock caps pid p of
       (Inl e, p') \<Rightarrow> (Err (''capability negotiation: '' @ sandbox_error_text e), p')
     | (Inr granted, p') \<Rightarrow> (case run_wasm rt wasm_bytes granted of
         Inl e \<Rightarrow> (Err (''wasm run: '' @ sandbox_error_text e), p')
       | Inr _ \<Rightarrow> (Ok (), p'))))"

subsection \<open>Findings\<close>

text \<open>\<open>str_debug\<close> is the quoting of a string by \<open>Debug\<close>.\<close>

definition sandbox_error_debug :: "(string \<Rightarrow> string) \<Rightarrow> sandbox_error \<Rightarrow> string" where
  "sandbox_error_debug str_debug e = (case e of
     CompileError m \<Rightarrow> ''Compile('' @ str_debug m @ '')''
   | CapabilityDenied m \<Rightarrow> ''CapabilityDenied('' @ str_debug m @ '')''
   | FuelExhausted n \<Rightarrow> ''FuelExhausted { consumed: '' @ show_nat (unat n) @ '' }''
   | EpochDeadline n \<Rightarrow> ''EpochDeadline { deadline_ms: '' @ show_nat (unat n) @ '' }''
   | Trap m \<Rightarrow> ''Trap('' @ str_debug m @ '')''
   | Host m \<Rightarrow> ''Host('' @ str_debug m @ '')'')"

definition finding_for :: "(string \<Rightarrow> string) \<Rightarrow> maestro_layer option \<Rightarrow> sandbox_error \<Rightarrow> audit_finding" where
  "finding_for str_debug layer err =
    (let (sev, asi, title, description) = (case err of
           CapabilityDenied msg \<Rightarrow> (High, ''ASI04'', ''Sandbox capability denied'', msg)
         | FuelExhausted _ \<Rightarrow> (High, ''ASI06'', ''Skill fuel exhausted'', ''skill exceeded instruction budget'')
         | EpochDeadline _ \<Rightarrow> (High, ''ASI06'', ''Skill epoch deadline exceeded'', ''skill exceeded wall-clock budget'')
         | Trap msg \<Rightarrow> (Critical, ''ASI04'', ''WASM guest trap'', msg)
         | _ \<Rightarrow> (High, ''ASI04'', ''Sandbox error'', ''skill execution failed''))
     in (set_maestro layer \<circ> set_owasp_asi asi \<circ> set_references [''PRODUCT.md B.7'']
         \<circ> set_remediation ''Review skill sandbox policy grants (PRODUCT.md B.7)'' \<circ> set_evidence (sandbox_error_debug str_debug err)
         \<circ> set_description description \<circ> set_title title) (builder ''SC-SANDBOX-001'' sev ''execution-sandbox''))"

subsection \<open>The filter around the host process\<close>

definition host_seccomp_allowlist :: "string list" where
  "host_seccomp_allowlist = [''mmap'', ''mprotect'', ''munmap'', ''mremap'', ''madvise'', ''brk'', ''read'', ''write'', ''pread64'', ''pwrite64'', ''readv'',
     ''writev'', ''close'', ''openat'', ''fstat'', ''statx'', ''lseek'', ''fcntl'', ''ioctl'', ''getdents64'', ''readlink'', ''clock_gettime'',
     ''clock_getres'', ''futex'', ''sched_yield'', ''sigaltstack'', ''rt_sigprocmask'', ''rt_sigreturn'', ''exit'', ''exit_group'', ''getpid'', ''gettid'',
     ''getrandom'']"

datatype seccomp_verdict = SeccompAllow | SeccompErrno string

definition host_seccomp :: "string \<Rightarrow> seccomp_verdict" where
  "host_seccomp syscall = (if syscall \<in> set host_seccomp_allowlist then SeccompAllow else SeccompErrno ''EPERM'')"

lemma negotiate_succeeds: "\<exists>granted. fst (negotiate_capabilities ev clock caps pid p) = Ok granted"
  by (simp add: negotiate_capabilities_def case_prod_beta Let_def)

subsection \<open>Negotiation with a stateless policy\<close>

definition stateless :: "(decision_request \<Rightarrow> decision) \<Rightarrow> 'p engine" where
  "stateless dec p r t1 t2 = (dec r, p)"

lemma negotiate_paths_stateless:
  "fst (negotiate_paths (stateless dec) clock pid n paths p) = filter (\<lambda>x. \<not> secret_path x \<and> dec (path_request pid x) = Allow) paths \<and>
   snd (snd (negotiate_paths (stateless dec) clock pid n paths p)) = p"
  by (induction paths arbitrary: n) (auto simp: ask_def stateless_def Let_def case_prod_beta)

lemma negotiate_stateless:
  "negotiate_capabilities (stateless dec) clock caps pid p =
    (Ok \<lparr> ca_fs_paths = filter (\<lambda>x. \<not> secret_path x \<and> dec (path_request pid x) = Allow) (ca_fs_paths caps),
       ca_network_via_proxy = (ca_network_via_proxy caps \<and> dec (network_request pid) = Allow),
       ca_fuel = ca_fuel caps, ca_epoch_deadline_ms = ca_epoch_deadline_ms caps \<rparr>, p)"
  using negotiate_paths_stateless [of dec clock pid 0 "ca_fs_paths caps" p]
  by (auto simp: negotiate_capabilities_def ask_def stateless_def Let_def split: prod.splits)

lemma preopen_ok: "preopen rt paths = Ok ps \<Longrightarrow> ps = filter (\<lambda>x. \<not> env_path x) paths"
  by (induction paths arbitrary: ps) (auto split: if_splits option.splits sum.splits)


definition demo_caps :: capabilities where
  "demo_caps = \<lparr> ca_fs_paths = [''/home/u/.openclaw'', ''/home/u/.openclaw/.env''], ca_network_via_proxy = False, ca_fuel = 1000,
     ca_epoch_deadline_ms = 50 \<rparr>"


subsection \<open>Negotiation with a caching policy engine\<close>

lemma path_request_key: "hash_request H (path_request pid x) v = hash_request H (path_request pid y) v"
  by (simp add: hash_request_def path_request_def)

definition cached_as :: "hasher \<Rightarrow> decision_cache \<Rightarrow> decision_request \<Rightarrow> string \<Rightarrow> decision \<Rightarrow> nat \<Rightarrow> bool" where
  "cached_as H c r v d t \<longleftrightarrow> \<not> dc_poisoned c \<and>
     (\<exists>e. hm_get (dc_entries c) (hash_request H r v) = Some e \<and> rs_decision (ce_resp e) = d \<and> ce_inserted e = t)"

context cached_engine
begin

lemma ask_cached:
  assumes "cached_as H (cache_of p) r (ver p) d t" "hash_request H r' (ver p) = hash_request H r (ver p)"
    "fst (clock n) - t < dc_ttl (cache_of p)"
  shows "fst (ask ev clock n p r') = d" "cache_of (snd (ask ev clock n p r')) = cache_of p" "ver (snd (ask ev clock n p r')) = ver p"
proof -
  obtain e where e: "hm_get (dc_entries (cache_of p)) (hash_request H r (ver p)) = Some e" "rs_decision (ce_resp e) = d" "ce_inserted e = t"
    and np: "\<not> dc_poisoned (cache_of p)" using assms(1) by (auto simp: cached_as_def)
  then have "cache_get H (cache_of p) r' (ver p) (fst (clock n)) = (Some ((ce_resp e)\<lparr>rs_cached := True\<rparr>), cache_of p)"
    using assms(2,3) by (simp add: cache_get_def Let_def)
  from hit [OF this, of "snd (clock n)"] e ver_ev show "fst (ask ev clock n p r') = d" "cache_of (snd (ask ev clock n p r')) = cache_of p"
    "ver (snd (ask ev clock n p r')) = ver p" by (simp_all add: ask_def)
qed

lemma negotiate_cached:
  assumes "cached_as H (cache_of p) (path_request pid x) (ver p) d t" "\<And>k. fst (clock (n + k)) - t < dc_ttl (cache_of p)"
  shows "fst (negotiate_paths ev clock pid n paths p) = (if d = Allow then filter (\<lambda>y. \<not> secret_path y) paths else [])"
  using assms
proof (induction paths arbitrary: n p)
  case (Cons path paths)
  note asked = ask_cached [OF Cons.prems(1) path_request_key, where n = n and clock = clock, OF Cons.prems(2) [of 0, simplified]]
  have "fst (negotiate_paths ev clock pid (n + 1) paths (snd (ask ev clock n p (path_request pid path)))) =
      (if d = Allow then filter (\<lambda>y. \<not> secret_path y) paths else [])"
    using Cons.prems(1) Cons.prems(2) [of "Suc _", simplified] by (intro Cons.IH) (simp_all add: asked)
  then show ?case using Cons.IH [OF Cons.prems] asked(1) [of path] by (auto simp: Let_def split: prod.splits)
qed simp

lemma first_path_decides:
  assumes "\<not> dc_poisoned (cache_of p)" "fst (cache_get H (cache_of p) (path_request pid path) (ver p) (fst (clock 0))) = None"
    "\<And>k. fst (clock (Suc k)) - snd (clock 0) < dc_ttl (cache_of p)" "\<not> secret_path path"
  shows "fst (negotiate_paths ev clock pid 0 (path # paths) p) =
    (if raw p (path_request pid path) = Allow then filter (\<lambda>y. \<not> secret_path y) (path # paths) else [])"
proof -
  let ?r = "path_request pid path" and ?p1 = "snd (ask ev clock 0 p (path_request pid path))"
  obtain c where g: "cache_get H (cache_of p) ?r (ver p) (fst (clock 0)) = (None, c)"
    using assms(2) by (cases "cache_get H (cache_of p) ?r (ver p) (fst (clock 0))") simp
  from miss [OF g, of "snd (clock 0)"] obtain resp where
    resp: "rs_decision resp = raw p ?r" "cache_of ?p1 = cache_put H c ?r (ver p) resp (snd (clock 0))"
    and d: "fst (ask ev clock 0 p ?r) = raw p ?r" by (auto simp: ask_def)
  have c: "dc_poisoned c = dc_poisoned (cache_of p)" "dc_ttl c = dc_ttl (cache_of p)" using cache_get_frame [OF g] by simp_all
  have v: "ver ?p1 = ver p" by (simp add: ask_def ver_ev)
  have "cached_as H (cache_of ?p1) ?r (ver ?p1) (raw p ?r) (snd (clock 0))" "dc_ttl (cache_of ?p1) = dc_ttl (cache_of p)"
    using assms(1) c by (simp_all add: v resp(2) cached_as_def cache_put_def Let_def hm_simps resp(1))
  then have "fst (negotiate_paths ev clock pid 1 paths ?p1) = (if raw p ?r = Allow then filter (\<lambda>y. \<not> secret_path y) paths else [])"
    using negotiate_cached [of ?p1 pid path "raw p ?r" "snd (clock 0)" clock 1 paths] assms(3) by simp
  then show ?thesis using assms(4) d by (auto simp: Let_def split: prod.splits)
qed

end

text \<open>
  With a caching policy engine the first path decides for all. The cache key of a capability request leaves the path out, so when
  a skill asks the Rego engine for several directories within the time to live, the policy is evaluated for the first one only: if it
  allows that one, every other directory that does not look like a secret is granted with it, whatever the policy says about it; if it
  does not, nothing is granted.
\<close>

theorem cached_policy_first_path_decides:
  assumes "\<not> dc_poisoned (rp_cache pdp)" and "\<not> secret_path path"
    and "fst (cache_get H (rp_cache pdp) (path_request pid path) (rp_bundle_version pdp) (fst (clock 0))) = None"
    and "\<And>k. fst (clock (Suc k)) - snd (clock 0) < dc_ttl (rp_cache pdp)"
    and "fst (negotiate_capabilities (rego_evaluate api H) clock caps pid pdp) = Ok granted" and "ca_fs_paths caps = path # paths"
  shows "ca_fs_paths granted =
    (if rego_raw api pdp (path_request pid path) = Allow then filter (\<lambda>y. \<not> secret_path y) (path # paths) else [])"
  using rego.first_path_decides [OF assms(1,3,4,2), of api paths] assms(5,6)
  by (auto simp: negotiate_capabilities_def Let_def split: prod.splits)

text \<open>A policy that allows one directory; the engine is its input.\<close>

definition pub_api :: "(string, string) rego_api" where
  "pub_api = \<lparr> rg_new = [], rg_add_policy = (\<lambda>_ _ e. Ok e), rg_value_from_json = (\<lambda>s. Ok s), rg_add_data = (\<lambda>_ e. Ok e),
     rg_set_input = (\<lambda>v _. v), rg_eval_bool = (\<lambda>q e. (Ok (q = query_allow \<and> e = ''pub''), e)),
     rg_to_string = (\<lambda>v. Ok (if v = request_json (path_request 1 ''/pub'') then ''pub'' else ''other'')) \<rparr>"

definition pub_pdp :: "string rego_pdp" where
  "pub_pdp = \<lparr> rp_cache = cache_new 1000 sixty_seconds, rp_engine = [], rp_engine_poisoned = False, rp_bundle_version = ''v1'' \<rparr>"

definition pub_caps :: capabilities where
  "pub_caps = \<lparr> ca_fs_paths = [''/pub'', ''/etc''], ca_network_via_proxy = False, ca_fuel = 1, ca_epoch_deadline_ms = 1 \<rparr>"

theorem cached_policy_first_path_decides_witness:
  "\<exists>granted. fst (negotiate_capabilities (rego_evaluate pub_api demo_hasher) (\<lambda>_. (0, 0)) pub_caps 1 pub_pdp) = Ok granted \<and>
     ca_fs_paths granted = [''/pub'', ''/etc''] \<and> rego_raw pub_api pub_pdp (path_request 1 ''/etc'') = Deny"
proof -
  obtain granted where g: "fst (negotiate_capabilities (rego_evaluate pub_api demo_hasher) (\<lambda>_. (0, 0)) pub_caps 1 pub_pdp) = Ok granted"
    using negotiate_succeeds [of "rego_evaluate pub_api demo_hasher" "\<lambda>_. (0, 0)" pub_caps 1 pub_pdp] by blast
  have plain: "\<not> secret_path ''/pub''" "\<not> secret_path ''/etc''" by code_simp+
  have raw: "rego_raw pub_api pub_pdp (path_request 1 ''/pub'') = Allow" "rego_raw pub_api pub_pdp (path_request 1 ''/etc'') = Deny"
    by (simp_all add: rego_raw_def rego_eval_decision_def pub_api_def pub_pdp_def request_json_def path_request_def query_allow_def query_escalate_def)
  have "\<not> dc_poisoned (rp_cache pub_pdp)" "(0::nat) < dc_ttl (rp_cache pub_pdp)"
    "fst (cache_get demo_hasher (rp_cache pub_pdp) (path_request 1 ''/pub'') (rp_bundle_version pub_pdp) 0) = None"
    by (simp_all add: pub_pdp_def cache_new_def cache_get_def hm_laws sixty_seconds_def)
  then have "ca_fs_paths granted = [''/pub'', ''/etc'']"
    using cached_policy_first_path_decides [where clock = "\<lambda>_. (0, 0)", OF _ plain(1) _ _ g] plain raw(1) by (simp add: pub_caps_def)
  with g raw(2) show ?thesis by blast
qed

end
