(* ===== verification/KillSwitch.thy ===== *)
theory KillSwitch
  imports FileSys Json
begin

text \<open>
  The kill switch file (\<open>secureops-fs/src/killswitch.rs\<close>) and the log of tool calls (\<open>behavioral.rs\<close>), as programs of the file system
  monad. serde and the RFC 3339 parser of the \<open>time\<close> crate are parameters.
\<close>

record kill_switch_record =
  kr_activated :: string
  kr_reason :: string
  kr_activated_by :: string

definition secureops_dir :: "path \<Rightarrow> path" where
  "secureops_dir sd = sd @ [''.secureops'']"

definition kill_switch_path :: "path \<Rightarrow> path" where
  "kill_switch_path sd = secureops_dir sd @ [''killswitch'']"

definition is_kill_switch_active :: "fs_env \<Rightarrow> path \<Rightarrow> bool fsm" where
  "is_kill_switch_active ev sd = do { m \<leftarrow> fs_metadata ev (kill_switch_path sd); State_Monad.return (is_ok m) }"

definition activate_kill_switch ::
  "fs_env \<Rightarrow> (kill_switch_record \<Rightarrow> io_error + string) \<Rightarrow> path \<Rightarrow> string option \<Rightarrow> string \<Rightarrow> unit io" where
  "activate_kill_switch ev to_string_pretty sd reason now = do {
     d \<leftarrow> fs_create_dir_all ev (secureops_dir sd);
     case d of
       Inl e \<Rightarrow> State_Monad.return (Err e)
     | Inr _ \<Rightarrow> (case to_string_pretty \<lparr> kr_activated = now, kr_reason = unwrap_or reason ''Manual activation'', kr_activated_by = ''secureops-cli'' \<rparr> of
         Inl e \<Rightarrow> State_Monad.return (Err e)
       | Inr content \<Rightarrow> fs_write ev (kill_switch_path sd) content)
   }"

definition deactivate_kill_switch :: "fs_env \<Rightarrow> path \<Rightarrow> unit io" where
  "deactivate_kill_switch ev sd = do {
     r \<leftarrow> fs_remove_file ev (kill_switch_path sd);
     State_Monad.return (case r of Inl IoNotFound \<Rightarrow> Ok () | Inl e \<Rightarrow> Err e | Inr _ \<Rightarrow> Ok ())
   }"

subsection \<open>The log of tool calls\<close>

text \<open>\<open>secureops_core::parse_ms\<close>: nanoseconds since the epoch, divided with truncation toward zero.\<close>

definition nanos_to_ms :: "int \<Rightarrow> int" where
  "nanos_to_ms n = (if n < 0 then - (- n div 1000000) else n div 1000000)"

definition parse_ms :: "(string \<Rightarrow> int option) \<Rightarrow> string \<Rightarrow> int option" where
  "parse_ms rfc3339 ts = map_option nanos_to_ms (rfc3339 ts)"

record behavioral_stats =
  bs_tool_frequency :: "(string, u64) hmap"
  bs_total_calls :: u64
  bs_unique_tools :: nat

definition behavioral_log_path :: "path \<Rightarrow> path" where
  "behavioral_log_path sd = secureops_dir sd @ [''behavioral'', ''tool-calls.jsonl'']"

definition tool_call_json :: "string \<Rightarrow> string option \<Rightarrow> string \<Rightarrow> json" where
  "tool_call_json tool data_path now = JObj [(''dataPath'', JStr (unwrap_or data_path [])), (''timestamp'', JStr now), (''tool'', JStr tool)]"

definition log_tool_call :: "fs_env \<Rightarrow> (json \<Rightarrow> string) \<Rightarrow> path \<Rightarrow> string \<Rightarrow> string option \<Rightarrow> string \<Rightarrow> unit io" where
  "log_tool_call ev to_string sd tool data_path now = do {
     d \<leftarrow> fs_create_dir_all ev (secureops_dir sd @ [''behavioral'']);
     case d of
       Inl e \<Rightarrow> State_Monad.return (Err e)
     | Inr _ \<Rightarrow> do {
         existing \<leftarrow> fs_read_to_string ev (behavioral_log_path sd);
         fs_write ev (behavioral_log_path sd) (unwrap_or (ok existing) [] @ to_string (tool_call_json tool data_path now) @ [newline])
       }
   }"

text \<open>One line of the log: it counts when it parses, has a readable time stamp and is not before the cutoff.\<close>

definition tally_line ::
  "(string \<Rightarrow> json option) \<Rightarrow> (string \<Rightarrow> int option) \<Rightarrow> int \<Rightarrow> (string, u64) hmap \<times> u64 \<Rightarrow> string \<Rightarrow> (string, u64) hmap \<times> u64" where
  "tally_line from_str rfc3339 cutoff acc line = (case from_str line of
     None \<Rightarrow> acc
   | Some v \<Rightarrow> (case parse_ms rfc3339 (unwrap_or (Option.bind (json_get v ''timestamp'') json_as_str) []) of
       None \<Rightarrow> acc
     | Some ms \<Rightarrow>
         if cutoff \<le> ms then
           (let tool = unwrap_or (Option.bind (json_get v ''tool'') json_as_str) [];
                (frequency, sum) = acc
            in (hm_insert tool (unwrap_or (hm_get frequency tool) 0 + 1) frequency, sum + 1))
         else acc))"

definition tally :: "(string \<Rightarrow> json option) \<Rightarrow> (string \<Rightarrow> int option) \<Rightarrow> int \<Rightarrow> string \<Rightarrow> behavioral_stats" where
  "tally from_str rfc3339 cutoff content =
    (let (frequency, sum) = foldl (tally_line from_str rfc3339 cutoff) ([], 0) (filter (\<lambda>l. l \<noteq> []) (split_char newline content))
     in \<lparr> bs_tool_frequency = frequency, bs_total_calls = sum, bs_unique_tools = hm_len frequency \<rparr>)"

definition get_behavioral_baseline ::
  "fs_env \<Rightarrow> (string \<Rightarrow> json option) \<Rightarrow> (string \<Rightarrow> int option) \<Rightarrow> path \<Rightarrow> int \<Rightarrow> int \<Rightarrow> behavioral_stats fsm" where
  "get_behavioral_baseline ev from_str rfc3339 sd window_minutes now_ms = do {
     r \<leftarrow> fs_read_to_string ev (behavioral_log_path sd);
     State_Monad.return (case r of
       Inl _ \<Rightarrow> \<lparr> bs_tool_frequency = [], bs_total_calls = 0, bs_unique_tools = 0 \<rparr>
     | Inr content \<Rightarrow> tally from_str rfc3339 (now_ms - window_minutes * 60000) content)
   }"

subsection \<open>The kill switch as a state machine\<close>

definition killed :: "path \<Rightarrow> fsys \<Rightarrow> bool" where
  "killed sd s \<longleftrightarrow> lookup s (kill_switch_path sd) \<noteq> None \<or> is_dir s (kill_switch_path sd)"

lemma active_result:
  assumes "run_state (is_kill_switch_active ev sd) s = (b, s')"
  shows "b \<longleftrightarrow> killed sd s \<and> \<not> fy_panicked s \<and> ev_fault ev (fy_tick s) = None" "killed sd s' = killed sd s"
  using assms by (auto simp: is_kill_switch_active_def fs_metadata_def io_op_def killed_def Let_def split: if_splits option.splits)

lemma updated_fields:
  "is_dir (s\<lparr> fy_files := m \<rparr>) p = is_dir s p" "lookup (s\<lparr> fy_files := m \<rparr>) p = hm_get m p"
  "is_dir (s\<lparr> fy_dirs := ds \<rparr>) p \<longleftrightarrow> p = [] \<or> p \<in> set ds"
  "hm_get (hm_remove p m) q = (if q = p then None else hm_get m q)"
  by (auto simp: is_dir_def lookup_def hm_get_def hm_remove_def delete_conv)

lemma not_ancestor: "p @ [x] \<notin> set (ancestors p)" "p @ [x, y] \<notin> set (ancestors p)"
  by (auto simp: ancestors_def dest!: arg_cong [where f = length])

lemma create_parent_keeps:
  assumes "run_state (fs_create_dir_all ev (secureops_dir sd)) s = (d, s')" shows "killed sd s' = killed sd s"
  using assms not_ancestor(1) [of "secureops_dir sd" "''killswitch''"]
  by (auto simp: fs_create_dir_all_def io_op_def Let_def killed_def kill_switch_path_def updated_fields is_dir_def split: if_splits option.splits)

lemma write_switch:
  assumes "run_state (fs_write ev (kill_switch_path sd) c) s = (r, s')" shows "killed sd s' = (if is_ok r then True else killed sd s)"
  using assms by (auto simp: fs_write_def io_op_def Let_def killed_def split: if_splits option.splits)

lemma activate_result:
  assumes "run_state (activate_kill_switch ev pretty sd reason now) s = (r, s')"
  shows "killed sd s' = (if is_ok r then True else killed sd s)"
  using assms
  by (auto simp: activate_kill_switch_def dest!: create_parent_keeps write_switch split: sum.splits prod.splits if_splits)

lemma activate_wf: "keeps wf_fs (activate_kill_switch ev pretty sd reason now)"
  unfolding activate_kill_switch_def by (intro keeps_rules wf.inv_create_dir_all wf.inv_write) simp

text \<open>The environment never claims that an existing file is missing.\<close>

definition no_false_absence :: "fs_env \<Rightarrow> bool" where
  "no_false_absence ev \<longleftrightarrow> (\<forall>n. ev_fault ev n \<noteq> Some IoNotFound)"

lemma deactivate_result:
  assumes "run_state (deactivate_kill_switch ev sd) s = (r, s')" "no_false_absence ev" "wf_fs s"
  shows "killed sd s' = (if is_ok r then False else killed sd s)" "wf_fs s'"
  using assms
  by (auto simp: deactivate_kill_switch_def fs_remove_file_def io_op_def Let_def killed_def no_false_absence_def wf_fs_def
      updated_fields lookup_def [symmetric] split: if_splits option.splits io_error.splits)

text \<open>The operators' commands, and the flag they are meant to be.\<close>

datatype ks_op = Activate "string option" string | Deactivate

definition ks_step :: "fs_env \<Rightarrow> (kill_switch_record \<Rightarrow> io_error + string) \<Rightarrow> path \<Rightarrow> ks_op \<Rightarrow> unit io" where
  "ks_step ev pretty sd c = (case c of Activate reason now \<Rightarrow> activate_kill_switch ev pretty sd reason now
     | Deactivate \<Rightarrow> deactivate_kill_switch ev sd)"

definition flag_step :: "bool \<Rightarrow> ks_op \<times> (io_error + unit) \<Rightarrow> bool" where
  "flag_step b cr = (if is_ok (snd cr) then fst cr \<noteq> Deactivate else b)"

lemma ks_step_result:
  assumes "run_state (ks_step ev pretty sd c) s = (r, s')" "no_false_absence ev" "wf_fs s"
  shows "killed sd s' = flag_step (killed sd s) (c, r)" "wf_fs s'"
  using assms activate_result [of ev pretty sd _ _ s r s'] keepsD [OF activate_wf, of s ev pretty sd] deactivate_result [of ev sd s r s']
  by (auto simp: ks_step_def flag_step_def split: ks_op.splits if_splits)

lemma ks_run_result:
  assumes "run_state (State_Monad.traverse_list (ks_step ev pretty sd) cs) s = (rs, s')" "no_false_absence ev" "wf_fs s"
  shows "length rs = length cs \<and> killed sd s' = foldl flag_step (killed sd s) (zip cs rs) \<and> wf_fs s'"
  using assms
proof (induction cs arbitrary: s rs)
  case (Cons c cs)
  obtain r s1 where step: "run_state (ks_step ev pretty sd c) s = (r, s1)" by fastforce
  obtain rs1 s2 where rest: "run_state (State_Monad.traverse_list (ks_step ev pretty sd) cs) s1 = (rs1, s2)" by fastforce
  have eq: "rs = r # rs1" "s' = s2" using Cons.prems(1) step rest by (simp_all add: case_prod_beta)
  show ?case using Cons.IH [OF rest [folded eq(2)]] ks_step_result [OF step] Cons.prems(2,3) eq(1) by simp
qed simp


definition demo_env :: fs_env where
  "demo_env = \<lparr> ev_fault = (\<lambda>n. if n = 5 then Some (IoOther ''EIO'') else None), ev_cut = (\<lambda>_. None), ev_new_mode = 420 \<rparr>"

definition demo_fs :: fsys where
  "demo_fs = \<lparr> fy_files = [], fy_dirs = [], fy_tick = 0, fy_panicked = False \<rparr>"

definition demo_cmds :: "ks_op list" where
  "demo_cmds = [Activate None ''t0'', Deactivate, Activate (Some ''drill'') ''t1'']"


subsection \<open>The log of tool calls\<close>

text \<open>
  A logged call appends one line to what the read before it returned; when that read fails, the line replaces the whole history.
\<close>

lemma log_tool_call_result:
  assumes "run_state (log_tool_call ev to_string sd tool dp now) s = (Ok u, s')" "\<not> fy_panicked s" "ev_fault ev (fy_tick s) = None"
    and old: "text_at s (behavioral_log_path sd) old" "utf8_valid old"
  shows "text_at s' (behavioral_log_path sd)
    ((if ev_fault ev (fy_tick s + 1) = None then old else []) @ to_string (tool_call_json tool dp now) @ [newline])"
proof -
  obtain d s1 where d: "run_state (fs_create_dir_all ev (secureops_dir sd @ [''behavioral''])) s = (d, s1)" by fastforce
  have s1: "lookup s1 q = lookup s q" for q using create_dir_result(1) [OF d] .
  have t: "d = Ok () \<Longrightarrow> fy_tick s1 = fy_tick s + 1 \<and> \<not> fy_panicked s1"
    using d assms(2,3) by (auto simp: fs_create_dir_all_def io_op_def Let_def split: if_splits)
  obtain r s2 where r: "run_state (fs_read_to_string ev (behavioral_log_path sd)) s1 = (r, s2)" by fastforce
  have "d = Ok () \<Longrightarrow> unwrap_or (ok r) [] = (if ev_fault ev (fy_tick s + 1) = None then old else [])"
    using r t old s1 by (auto simp: fs_read_to_string_def io_op_def Let_def text_at_def unwrap_or_def ok_def split: option.splits if_splits)
  then show ?thesis
    using assms(1) d r by (auto simp: log_tool_call_def case_prod_beta dest!: write_result split: sum.splits)
qed

end
