(* ===== verification/Monitors.thy ===== *)
theory Monitors
  imports CheckFiles FileSys
begin

text \<open>
  The runtime monitors (\<open>secureops-monitors\<close>): the shared plumbing of \<open>lib.rs\<close> (cancellation, the alert bus, the circuit
  breaker), and the credential, memory-integrity and skill monitors. The cost monitor has its own theory.

  A monitor is a loop over the events its \<open>select!\<close> takes: the ticks of its interval, each with the time and the file system it then
  sees, and the cancellation. A tick is a function from the loop's local variables to the alerts it publishes and the new variables. The
  alert bus is \<open>tokio\<close>'s broadcast channel: a ring that keeps the latest messages and makes a slow receiver skip.

  The locale \<open>diff_monitor\<close> is what the three polling monitors have in common: they remember a view of what they last saw. Its
  lemma, that a monitor never reports what does not change, is proved once and interpreted for each of them.
\<close>

subsection \<open>The loop\<close>

datatype 'i loop_event = CancelFired | TickFired 'i

fun monitor_loop :: "('i \<Rightarrow> 's \<Rightarrow> 'o \<times> 's) \<Rightarrow> 's \<Rightarrow> 'i loop_event list \<Rightarrow> 'o list \<times> 's" where
  "monitor_loop tick st [] = ([], st)"
| "monitor_loop tick st (CancelFired # evs) = ([], st)"
| "monitor_loop tick st (TickFired i # evs) =
    (let (out, st') = tick i st; (outs, st'') = monitor_loop tick st' evs in (out # outs, st''))"

text \<open>A \<open>watch\<close> channel of a flag: the last value sent, and whether the sender is still there.\<close>

record cancel_channel =
  cc_value :: bool
  cc_sender_alive :: bool

definition cancel_channel_new :: cancel_channel where
  "cancel_channel_new = \<lparr> cc_value = False, cc_sender_alive = True \<rparr>"

definition is_cancelled :: "cancel_channel \<Rightarrow> bool" where
  "is_cancelled c = cc_value c"

text \<open>Whether \<open>cancelled()\<close> resolves: \<open>wait_for\<close> returns when the value is set or the sender is gone.\<close>

definition cancelled_resolves :: "cancel_channel \<Rightarrow> bool" where
  "cancelled_resolves c \<longleftrightarrow> cc_value c \<or> \<not> cc_sender_alive c"

definition cancel :: "cancel_channel \<Rightarrow> cancel_channel" where
  "cancel c = c\<lparr> cc_value := True \<rparr>"

datatype circuit_state = Armed | Tripped

definition circuit_channel :: circuit_state where
  "circuit_channel = Armed"

subsection \<open>The alert bus\<close>

definition ALERT_BUS_CAPACITY :: nat where
  "ALERT_BUS_CAPACITY = 1024"

record alert_bus =
  ab_sent :: "monitor_alert list"
  ab_capacity :: nat
  ab_receivers :: nat

text \<open>The channel rounds its capacity up to a power of two, and refuses zero.\<close>

definition next_power_of_two :: "nat \<Rightarrow> nat" where
  "next_power_of_two n = 2 ^ floorlog 2 (n - 1)"

definition bus_with_capacity :: "nat \<Rightarrow> alert_bus may_panic" where
  "bus_with_capacity n = (if n = 0 then Panics else Returns \<lparr> ab_sent = [], ab_capacity = next_power_of_two n, ab_receivers = 0 \<rparr>)"

definition bus_new :: "alert_bus may_panic" where
  "bus_new = bus_with_capacity ALERT_BUS_CAPACITY"

definition publish :: "monitor_alert \<Rightarrow> alert_bus \<Rightarrow> (monitor_alert + nat) \<times> alert_bus" where
  "publish a b = (if ab_receivers b = 0 then (Err a, b) else (Ok (ab_receivers b), b\<lparr> ab_sent := ab_sent b @ [a] \<rparr>))"

text \<open>A receiver is the number of the next message it will read; a new one starts after what has been sent.\<close>

definition subscribe :: "alert_bus \<Rightarrow> nat \<times> alert_bus" where
  "subscribe b = (length (ab_sent b), b\<lparr> ab_receivers := ab_receivers b + 1 \<rparr>)"

datatype recv_result = Received monitor_alert | Lagged nat | WouldWait

definition recv :: "alert_bus \<Rightarrow> nat \<Rightarrow> recv_result \<times> nat" where
  "recv b pos =
    (let n = length (ab_sent b)
     in if n \<le> pos then (WouldWait, pos)
        else if ab_capacity b < n - pos then (Lagged (n - pos - ab_capacity b), n - ab_capacity b)
        else (Received (ab_sent b ! pos), pos + 1))"

text \<open>
  One turn of \<open>run_alert_persistence\<close>: a received alert is inserted (an error of the insert ends the task), a lag is logged and the
  loop goes on.
\<close>

record 'r drain =
  dn_pos :: nat
  dn_rows :: "'r list"
  dn_running :: bool

definition alert_row :: "(severity \<Rightarrow> string) \<Rightarrow> monitor_alert \<Rightarrow> string \<times> string \<times> string \<times> string \<times> string option" where
  "alert_row dbg a = (ma_timestamp a, dbg (ma_severity a), ma_monitor a, ma_message a, ma_details a)"

definition persistence_turn ::
  "(severity \<Rightarrow> string) \<Rightarrow> (monitor_alert \<Rightarrow> bool) \<Rightarrow> alert_bus \<Rightarrow>
    (string \<times> string \<times> string \<times> string \<times> string option) drain \<Rightarrow> (string \<times> string \<times> string \<times> string \<times> string option) drain" where
  "persistence_turn dbg insert_ok b d =
    (if \<not> dn_running d then d
     else case recv b (dn_pos d) of
       (Received a, p) \<Rightarrow>
         if insert_ok a then d\<lparr> dn_pos := p, dn_rows := dn_rows d @ [alert_row dbg a] \<rparr> else d\<lparr> dn_pos := p, dn_running := False \<rparr>
     | (Lagged _, p) \<Rightarrow> d\<lparr> dn_pos := p \<rparr>
     | (WouldWait, p) \<Rightarrow> d)"

subsection \<open>The credential monitor\<close>

text \<open>The permission bits of a path; \<open>dm\<close> gives those of directories.\<close>

definition fs_mode :: "fs_env \<Rightarrow> (path \<Rightarrow> u32) \<Rightarrow> path \<Rightarrow> u32 io" where
  "fs_mode ev dm p = io_op ev (\<lambda>s. case lookup s p of Some f \<Rightarrow> (Ok (fd_mode f), s)
     | None \<Rightarrow> if is_dir s p then (Ok (dm p), s) else (Err IoNotFound, s))"

definition file_mode :: "fs_env \<Rightarrow> (path \<Rightarrow> u32) \<Rightarrow> path \<Rightarrow> u32 option fsm" where
  "file_mode ev dm p = do { m \<leftarrow> fs_mode ev dm p; State_Monad.return (map_option (\<lambda>x. and x 0x1FF) (ok m)) }"

fun scan_dir_modes :: "fs_env \<Rightarrow> (path \<Rightarrow> u32) \<Rightarrow> path \<Rightarrow> string list \<Rightarrow> (string, u32) hmap \<Rightarrow> (string, u32) hmap fsm" where
  "scan_dir_modes ev dm d [] out = State_Monad.return out"
| "scan_dir_modes ev dm d (e # es) out = do {
     mode \<leftarrow> file_mode ev dm (d @ [e]);
     scan_dir_modes ev dm d es (hm_insert (show_path (d @ [e])) (unwrap_or mode 0) out)
   }"

definition scan_credentials :: "fs_env \<Rightarrow> (path \<Rightarrow> u32) \<Rightarrow> path \<Rightarrow> (string, u32) hmap fsm" where
  "scan_credentials ev dm sd = do {
     rd \<leftarrow> fs_read_dir ev (sd @ [''credentials'']);
     out \<leftarrow> (case rd of Inl _ \<Rightarrow> State_Monad.return [] | Inr es \<Rightarrow> scan_dir_modes ev dm (sd @ [''credentials'']) es []);
     m \<leftarrow> fs_metadata ev (sd @ [''.env'']);
     if is_ok m then do {
       mode \<leftarrow> file_mode ev dm (sd @ [''.env'']);
       State_Monad.return (hm_insert (show_path (sd @ [''.env''])) (unwrap_or mode 0) out)
     } else State_Monad.return out
   }"

definition permission_alert :: "string \<Rightarrow> u32 \<Rightarrow> string \<Rightarrow> monitor_alert option" where
  "permission_alert p mode now =
    (if is_group_or_other_accessible mode then
       Some \<lparr> ma_timestamp = now, ma_severity = Critical, ma_monitor = ''credential-monitor'',
         ma_message = ''Credential file permissions are too open: '' @ basename p @ '' ('' @ show_oct mode @ '')'',
         ma_details = Some (''Path: '' @ p @ '', Permissions: '' @ show_oct mode) \<rparr>
     else None)"

definition new_file_alert :: "string \<Rightarrow> string \<Rightarrow> monitor_alert" where
  "new_file_alert p now = \<lparr> ma_timestamp = now, ma_severity = High, ma_monitor = ''credential-monitor'',
     ma_message = ''New credential file detected: '' @ basename p, ma_details = Some (''Path: '' @ p) \<rparr>"

definition deleted_file_alert :: "string \<Rightarrow> string \<Rightarrow> monitor_alert" where
  "deleted_file_alert p now = \<lparr> ma_timestamp = now, ma_severity = Medium, ma_monitor = ''credential-monitor'',
     ma_message = ''Credential file deleted: '' @ basename p, ma_details = Some (''Path: '' @ p) \<rparr>"

definition list_of_option :: "'a option \<Rightarrow> 'a list" where
  "list_of_option o1 = (case o1 of None \<Rightarrow> [] | Some x \<Rightarrow> [x])"

definition credential_change :: "string \<Rightarrow> (string, u32) hmap \<Rightarrow> string \<times> u32 \<Rightarrow> monitor_alert list" where
  "credential_change now prev pm = (case pm of (p, mode) \<Rightarrow> (case hm_get prev p of
     None \<Rightarrow> new_file_alert p now # list_of_option (permission_alert p mode now)
   | Some old \<Rightarrow> if old \<noteq> mode then list_of_option (permission_alert p mode now) else []))"

definition credential_diff :: "string \<Rightarrow> (string, u32) hmap option \<Rightarrow> (string, u32) hmap \<Rightarrow> monitor_alert list" where
  "credential_diff now prev cur = (case prev of None \<Rightarrow> []
     | Some m \<Rightarrow> concat (map (credential_change now m) cur) @
         map (\<lambda>p. deleted_file_alert p now) (filter (\<lambda>p. hm_get cur p = None) (map fst m)))"

definition credential_tick ::
  "fs_env \<Rightarrow> (path \<Rightarrow> u32) \<Rightarrow> path \<Rightarrow> string \<times> fsys \<Rightarrow> (string, u32) hmap option \<Rightarrow> monitor_alert list \<times> (string, u32) hmap option" where
  "credential_tick ev dm sd i prev = (case i of (now, fs) \<Rightarrow>
     let cur = fst (run_state (scan_credentials ev dm sd) fs) in (credential_diff now prev cur, Some cur))"

definition credential_run ::
  "fs_env \<Rightarrow> (path \<Rightarrow> u32) \<Rightarrow> path \<Rightarrow> (string \<times> fsys) loop_event list \<Rightarrow> monitor_alert list" where
  "credential_run ev dm sd evs = concat (fst (monitor_loop (credential_tick ev dm sd) None evs))"

subsection \<open>The memory-integrity monitor\<close>

definition MONITORED_MEMORY_NAMES :: "string list" where
  "MONITORED_MEMORY_NAMES = [''soul.md'', ''SOUL.md'', ''MEMORY.md'']"

definition scan_for_prompt_injection :: "check_lib \<Rightarrow> string \<Rightarrow> string list" where
  "scan_for_prompt_injection lib content = filter (\<lambda>src. rx_match lib (''(?i)'' @ src) content) PROMPT_INJECTION_SOURCES"

text \<open>The slice \<open>&s[..n]\<close> panics inside a character.\<close>

definition str_prefix :: "nat \<Rightarrow> string \<Rightarrow> string may_panic" where
  "str_prefix n s = (if n < length s \<and> is_cont (s ! n) then Panics else Returns (take n s))"

definition drift_alert :: "string \<Rightarrow> string \<Rightarrow> string \<Rightarrow> string \<Rightarrow> monitor_alert may_panic" where
  "drift_alert base expected current now =
    (case (str_prefix (min (length expected) 16) expected, str_prefix (min (length current) 16) current) of
       (Returns e, Returns c) \<Rightarrow> Returns \<lparr> ma_timestamp = now, ma_severity = High, ma_monitor = ''memory-integrity'',
         ma_message = ''Memory file modified: '' @ base, ma_details = Some (''Expected hash: '' @ e @ ''..., Got: '' @ c @ ''...'') \<rparr>
     | _ \<Rightarrow> Panics)"

definition injection_alert :: "string \<Rightarrow> string list \<Rightarrow> string \<Rightarrow> monitor_alert" where
  "injection_alert base injections now = \<lparr> ma_timestamp = now, ma_severity = Critical, ma_monitor = ''memory-integrity'',
     ma_message = ''Prompt injection patterns detected in '' @ base, ma_details = Some (''Patterns: '' @ join '', '' injections) \<rparr>"

definition check_memory_content ::
  "check_lib \<Rightarrow> string \<Rightarrow> string \<Rightarrow> string \<Rightarrow> hash_baseline \<Rightarrow> string \<Rightarrow> monitor_alert list may_panic" where
  "check_memory_content lib base rel content baseline now =
    (let current = hash_string (cx_sha lib) content;
         injections = scan_for_prompt_injection lib content;
         injected = (if injections = [] then [] else [injection_alert base injections now])
     in case hm_get (hb_files baseline) rel of
       None \<Rightarrow> Returns injected
     | Some expected \<Rightarrow>
         if expected = current then Returns injected
         else (case drift_alert base expected current now of Panics \<Rightarrow> Panics | Returns a \<Rightarrow> Returns (a # injected)))"

definition rel_path :: "path \<Rightarrow> path \<Rightarrow> string" where
  "rel_path sd p = (if take (length sd) p = sd then join ''/'' (drop (length sd) p) else show_path p)"

text \<open>\<open>Path::extension\<close> of a file name.\<close>

definition extension :: "string \<Rightarrow> string option" where
  "extension name =
    (let ext = rev (takeWhile (\<lambda>c. c \<noteq> CHR ''.'') (rev name))
     in if length name \<le> length ext + 1 then None else Some ext)"

definition read_texts :: "fs_env \<Rightarrow> path \<Rightarrow> (string \<times> path) list \<Rightarrow> (string \<times> string \<times> string) list fsm" where
  "read_texts ev sd items = do {
     rs \<leftarrow> State_Monad.traverse_list (\<lambda>(base, p). do {
       r \<leftarrow> fs_read_to_string ev p;
       State_Monad.return (case r of Inl _ \<Rightarrow> [] | Inr c \<Rightarrow> [(base, rel_path sd p, c)])
     }) items;
     State_Monad.return (concat rs)
   }"

definition scan_agent_memory :: "fs_env \<Rightarrow> path \<Rightarrow> string \<Rightarrow> (string \<times> string \<times> string) list fsm" where
  "scan_agent_memory ev sd agent = (let abase = sd @ [''agents'', agent] in do {
     named \<leftarrow> read_texts ev sd (map (\<lambda>n. (n, abase @ [n])) MONITORED_MEMORY_NAMES);
     rd \<leftarrow> fs_read_dir ev (abase @ [''memory'']);
     mem \<leftarrow> (case rd of Inl _ \<Rightarrow> State_Monad.return []
       | Inr es \<Rightarrow> read_texts ev sd (map (\<lambda>f. (f, abase @ [''memory'', f])) (filter (\<lambda>f. extension f = Some ''md'') es)));
     State_Monad.return (named @ mem)
   })"

definition scan_memory_files :: "fs_env \<Rightarrow> path \<Rightarrow> (string \<times> string \<times> string) list fsm" where
  "scan_memory_files ev sd = do {
     ad \<leftarrow> fs_read_dir ev (sd @ [''agents'']);
     case ad of Inl _ \<Rightarrow> State_Monad.return []
     | Inr agents \<Rightarrow> do { rs \<leftarrow> State_Monad.traverse_list (scan_agent_memory ev sd) agents; State_Monad.return (concat rs) }
   }"

definition create_memory_baseline :: "fs_env \<Rightarrow> check_lib \<Rightarrow> path \<Rightarrow> string \<Rightarrow> hash_baseline fsm" where
  "create_memory_baseline ev lib sd now = do {
     files \<leftarrow> scan_memory_files ev sd;
     State_Monad.return \<lparr> hb_timestamp = now,
       hb_files = foldl (\<lambda>m (_, rel, content). hm_insert rel (hash_string (cx_sha lib) content) m) [] files \<rparr>
   }"

text \<open>The local variables of the loop, and whether a panic has ended the task.\<close>

record memory_vars =
  mv_baseline :: hash_baseline
  mv_built :: bool
  mv_last :: "(string, string) hmap option"
  mv_dead :: bool

definition memory_vars_init :: "hash_baseline \<Rightarrow> memory_vars" where
  "memory_vars_init baseline = \<lparr> mv_baseline = baseline, mv_built = (hb_files baseline \<noteq> []), mv_last = None, mv_dead = False \<rparr>"

definition new_memory_alert :: "string \<Rightarrow> string \<Rightarrow> string \<Rightarrow> monitor_alert" where
  "new_memory_alert base rel now = \<lparr> ma_timestamp = now, ma_severity = Medium, ma_monitor = ''memory-integrity'',
     ma_message = ''New memory file created: '' @ base, ma_details = Some (''Path: '' @ rel) \<rparr>"

definition memory_file ::
  "check_lib \<Rightarrow> string \<Rightarrow> hash_baseline \<Rightarrow> (string, string) hmap option \<Rightarrow> (string, string) hmap \<times> monitor_alert list \<times> bool \<Rightarrow>
    string \<times> string \<times> string \<Rightarrow> (string, string) hmap \<times> monitor_alert list \<times> bool" where
  "memory_file lib now baseline last_seen acc item = (case (acc, item) of ((cur, out, dead), (base, rel, content)) \<Rightarrow>
     if dead then acc
     else let h = hash_string (cx_sha lib) content; cur' = hm_insert rel h cur
       in case last_seen of
         None \<Rightarrow> (cur', out, False)
       | Some prev \<Rightarrow>
           let out' = out @ (if hm_get prev rel = None then [new_memory_alert base rel now] else [])
           in if hm_get prev rel = Some h then (cur', out', False)
              else (case check_memory_content lib base rel content baseline now of
                Panics \<Rightarrow> (cur', out', True) | Returns as \<Rightarrow> (cur', out' @ as, False)))"

definition memory_tick ::
  "fs_env \<Rightarrow> check_lib \<Rightarrow> path \<Rightarrow> string \<times> fsys \<Rightarrow> memory_vars \<Rightarrow> monitor_alert list \<times> memory_vars" where
  "memory_tick ev lib sd i st = (case i of (now, fs) \<Rightarrow>
     if mv_dead st then ([], st)
     else
       (let (baseline, fs') = (if mv_built st then (mv_baseline st, fs) else run_state (create_memory_baseline ev lib sd now) fs);
            files = fst (run_state (scan_memory_files ev sd) fs');
            (cur, out, dead) = foldl (memory_file lib now baseline (mv_last st)) ([], [], False) files
        in (out, \<lparr> mv_baseline = baseline, mv_built = True, mv_last = Some cur, mv_dead = dead \<rparr>)))"

definition memory_run :: "fs_env \<Rightarrow> check_lib \<Rightarrow> path \<Rightarrow> hash_baseline \<Rightarrow> (string \<times> fsys) loop_event list \<Rightarrow> monitor_alert list" where
  "memory_run ev lib sd baseline evs = concat (fst (monitor_loop (memory_tick ev lib sd) (memory_vars_init baseline) evs))"

subsection \<open>The skill scanner\<close>

record dangerous_pattern =
  dp_regex :: string
  dp_source :: string
  dp_description :: string
  dp_severity :: string

definition dpat :: "string \<Rightarrow> string \<Rightarrow> string \<Rightarrow> string \<Rightarrow> dangerous_pattern" where
  "dpat rx src desc sev = \<lparr> dp_regex = rx, dp_source = src, dp_description = desc, dp_severity = sev \<rparr>"

definition DANGEROUS_PATTERNS :: "dangerous_pattern list" where
  "DANGEROUS_PATTERNS =
    [dpat ''child_process'' ''child_process'' ''child_process import'' ''critical'',
     dpat (bsl @ ''.exec'' @ bsl @ ''s*'' @ bsl @ ''('') (bsl @ ''.exec'' @ bsl @ ''s*'' @ bsl @ ''('') ''exec() call'' ''critical'',
     dpat (bsl @ ''.spawn'' @ bsl @ ''s*'' @ bsl @ ''('') (bsl @ ''.spawn'' @ bsl @ ''s*'' @ bsl @ ''('') ''spawn() call'' ''critical'',
     dpat (''eval'' @ bsl @ ''s*'' @ bsl @ ''('') (''eval'' @ bsl @ ''s*'' @ bsl @ ''('') ''eval() call'' ''critical'',
     dpat (''Function'' @ bsl @ ''s*'' @ bsl @ ''('') (''Function'' @ bsl @ ''s*'' @ bsl @ ''('') ''Function() constructor'' ''critical'',
     dpat (''webhook'' @ bsl @ ''.site'') (''webhook'' @ bsl @ ''.site'') ''webhook.site exfiltration'' ''critical'',
     dpat ''reverse.shell'' ''reverse.shell'' ''reverse shell pattern'' ''critical'',
     dpat ''(?i)base64.*decode'' ''base64.*decode'' ''base64 decode (obfuscation)'' ''high'',
     dpat (''curl'' @ bsl @ ''s+.*'' @ bsl @ ''|'' @ bsl @ ''s*sh'') (''curl'' @ bsl @ ''s+.*'' @ bsl @ ''|'' @ bsl @ ''s*sh'')
       ''curl pipe to shell'' ''critical'',
     dpat (''wget'' @ bsl @ ''s+.*'' @ bsl @ ''|'' @ bsl @ ''s*sh'') (''wget'' @ bsl @ ''s+.*'' @ bsl @ ''|'' @ bsl @ ''s*sh'')
       ''wget pipe to shell'' ''critical'',
     dpat (''~/'' @ bsl @ ''.openclaw'') (''~'' @ bsl @ ''/'' @ bsl @ ''.openclaw'') ''openclaw config access'' ''high'',
     dpat (''~/'' @ bsl @ ''.clawdbot'') (''~'' @ bsl @ ''/'' @ bsl @ ''.clawdbot'') ''legacy clawdbot config access'' ''high'',
     dpat (''creds'' @ bsl @ ''.json'') (''creds'' @ bsl @ ''.json'') ''credential file access'' ''high'',
     dpat (bsl @ ''.env'') (bsl @ ''.env'') ''.env file access'' ''medium'',
     dpat ''auth-profiles'' ''auth-profiles'' ''auth-profiles access'' ''high'',
     dpat ''LD_PRELOAD'' ''LD_PRELOAD'' ''LD_PRELOAD injection'' ''critical'',
     dpat ''DYLD_INSERT'' ''DYLD_INSERT'' ''DYLD_INSERT injection'' ''critical'',
     dpat ''NODE_OPTIONS'' ''NODE_OPTIONS'' ''NODE_OPTIONS injection'' ''high'']"

definition scan_content :: "check_lib \<Rightarrow> string \<Rightarrow> dangerous_pattern list" where
  "scan_content lib content = filter (\<lambda>p. rx_match lib (dp_regex p) content) DANGEROUS_PATTERNS"

definition note_match :: "string \<Rightarrow> skill_scan_result \<Rightarrow> dangerous_pattern \<Rightarrow> skill_scan_result" where
  "note_match file_name r m = r\<lparr>
     ssr_findings := ssr_findings r @ [file_name @ '': '' @ dp_description m @ '' ('' @ dp_severity m @ '')''],
     ssr_dangerous_patterns := ssr_dangerous_patterns r @ [dp_source m],
     ssr_safe := ssr_safe r \<and> dp_severity m \<noteq> ''critical'' \<rparr>"

definition note_hash :: "check_lib \<Rightarrow> ioc_database option \<Rightarrow> string \<Rightarrow> string \<Rightarrow> skill_scan_result \<Rightarrow> skill_scan_result" where
  "note_hash lib db file_name content r = (case db of None \<Rightarrow> r
     | Some d \<Rightarrow> (let h = hash_string (cx_sha lib) content in case is_known_malicious_hash d h of
         None \<Rightarrow> r
       | Some campaign \<Rightarrow> r\<lparr>
           ssr_findings := ssr_findings r @ [file_name @ '': matches known malicious hash (campaign: '' @ campaign @ '')''],
           ssr_ioc_matches := ssr_ioc_matches r @ [''hash:'' @ h @ '':'' @ campaign],
           ssr_safe := False \<rparr>))"

definition scan_skill_file :: "check_lib \<Rightarrow> ioc_database option \<Rightarrow> skill_scan_result \<Rightarrow> string \<times> string \<Rightarrow> skill_scan_result" where
  "scan_skill_file lib db r fc = (case fc of (file_name, content) \<Rightarrow>
     note_hash lib db file_name content (foldl (note_match file_name) r (scan_content lib content)))"

definition typosquat_start :: "check_lib \<Rightarrow> ioc_database option \<Rightarrow> string \<Rightarrow> skill_scan_result" where
  "typosquat_start lib db skill_name =
    (let r = \<lparr> ssr_safe = True, ssr_skill_name = skill_name, ssr_findings = [], ssr_dangerous_patterns = [], ssr_ioc_matches = [] \<rparr>
     in case db of None \<Rightarrow> r
       | Some d \<Rightarrow> if matches_typosquat (cx_lower lib) (cx_jaro_winkler lib) d skill_name
           then r\<lparr> ssr_findings := [''Skill name \"'' @ skill_name @ ''\" matches known typosquat pattern''],
             ssr_ioc_matches := [''typosquat:'' @ skill_name], ssr_safe := False \<rparr>
           else r)"

definition scan_skill_content :: "check_lib \<Rightarrow> string \<Rightarrow> (string \<times> string) list \<Rightarrow> ioc_database option \<Rightarrow> skill_scan_result" where
  "scan_skill_content lib skill_name files db = foldl (scan_skill_file lib db) (typosquat_start lib db skill_name) files"

definition fs_is_dir :: "fs_env \<Rightarrow> path \<Rightarrow> bool fsm" where
  "fs_is_dir ev p = do { r \<leftarrow> io_op ev (\<lambda>s. if is_dir s p then (Ok (), s) else (Err IoNotFound, s)); State_Monad.return (is_ok r) }"

definition fs_is_file :: "fs_env \<Rightarrow> path \<Rightarrow> bool fsm" where
  "fs_is_file ev p = do { r \<leftarrow> io_op ev (\<lambda>s. if lookup s p \<noteq> None then (Ok (), s) else (Err IoNotFound, s)); State_Monad.return (is_ok r) }"

definition read_skill_file :: "fs_env \<Rightarrow> path \<Rightarrow> string \<Rightarrow> (string \<times> string) list fsm" where
  "read_skill_file ev d f = do {
     isf \<leftarrow> fs_is_file ev (d @ [f]);
     if isf then do {
       r \<leftarrow> fs_read_to_string ev (d @ [f]);
       State_Monad.return (case r of Inl _ \<Rightarrow> [] | Inr c \<Rightarrow> [(f, c)])
     } else State_Monad.return []
   }"

definition scan_skill_dir :: "fs_env \<Rightarrow> path \<Rightarrow> string \<Rightarrow> (string \<times> (string \<times> string) list) list fsm" where
  "scan_skill_dir ev skills name = do {
     isd \<leftarrow> fs_is_dir ev (skills @ [name]);
     if \<not> isd then State_Monad.return []
     else do {
       fd \<leftarrow> fs_read_dir ev (skills @ [name]);
       rs \<leftarrow> (case fd of Inl _ \<Rightarrow> State_Monad.return []
         | Inr es \<Rightarrow> State_Monad.traverse_list (read_skill_file ev (skills @ [name])) es);
       State_Monad.return [(name, sort_key fst (concat rs))]
     }
   }"

definition scan_skills_dir :: "fs_env \<Rightarrow> path \<Rightarrow> (string \<times> (string \<times> string) list) list fsm" where
  "scan_skills_dir ev sd = do {
     rd \<leftarrow> fs_read_dir ev (sd @ [''skills'']);
     case rd of Inl _ \<Rightarrow> State_Monad.return []
     | Inr names \<Rightarrow> do { rs \<leftarrow> State_Monad.traverse_list (scan_skill_dir ev (sd @ [''skills''])) names; State_Monad.return (concat rs) }
   }"

definition combined :: "(string \<times> string) list \<Rightarrow> string" where
  "combined files = concat (map (\<lambda>(f, c). f @ [byte 0] @ c @ [byte 0]) files)"

definition unsafe_skill_alert :: "string \<Rightarrow> skill_scan_result \<Rightarrow> string \<Rightarrow> monitor_alert" where
  "unsafe_skill_alert name r now = \<lparr> ma_timestamp = now, ma_severity = Critical, ma_monitor = ''skill-scanner'',
     ma_message = ''Unsafe skill detected: '' @ name, ma_details = Some (join ''; '' (ssr_findings r)) \<rparr>"

definition skill_alerts ::
  "check_lib \<Rightarrow> ioc_database \<Rightarrow> string \<Rightarrow> (string, string) hmap option \<Rightarrow> string \<times> (string \<times> string) list \<Rightarrow> monitor_alert list" where
  "skill_alerts lib db now seen skill = (case skill of (name, files) \<Rightarrow>
     let h = hash_string (cx_sha lib) (combined files);
         changed = unwrap_or (map_option (\<lambda>p. hm_get p name \<noteq> Some h) seen) False;
         result = scan_skill_content lib name files (Some db)
     in if changed \<and> \<not> ssr_safe result then [unsafe_skill_alert name result now] else [])"

definition skill_tick ::
  "fs_env \<Rightarrow> check_lib \<Rightarrow> ioc_database \<Rightarrow> path \<Rightarrow> string \<times> fsys \<Rightarrow> (string, string) hmap option \<Rightarrow>
    monitor_alert list \<times> (string, string) hmap option" where
  "skill_tick ev lib db sd i seen = (case i of (now, fs) \<Rightarrow>
     let skills = fst (run_state (scan_skills_dir ev sd) fs)
     in (concat (map (skill_alerts lib db now seen) skills),
         Some (foldl (\<lambda>m (name, files). hm_insert name (hash_string (cx_sha lib) (combined files)) m) [] skills)))"

definition skill_run ::
  "fs_env \<Rightarrow> check_lib \<Rightarrow> ioc_database \<Rightarrow> path \<Rightarrow> (string \<times> fsys) loop_event list \<Rightarrow> monitor_alert list" where
  "skill_run ev lib db sd evs = concat (fst (monitor_loop (skill_tick ev lib db sd) None evs))"

subsection \<open>Monitors that report differences\<close>

locale diff_monitor =
  fixes tick :: "'i \<Rightarrow> 's \<Rightarrow> 'o list \<times> 's" and seen :: "'s \<Rightarrow> 'v option" and valid :: "'i \<Rightarrow> 's \<Rightarrow> bool"
  assumes first_silent: "seen s = None \<Longrightarrow> fst (tick i s) = []"
    and same_silent: "valid i s \<Longrightarrow> seen (snd (tick i s)) = seen s \<Longrightarrow> fst (tick i s) = []"
begin

lemma constant_silent:
  assumes "I s" "seen s = None \<or> seen s = Some v"
    and "\<And>i s. TickFired i \<in> set evs \<Longrightarrow> I s \<Longrightarrow> seen s = None \<or> seen s = Some v \<Longrightarrow>
      valid i s \<and> seen (snd (tick i s)) = Some v \<and> I (snd (tick i s))"
  shows "concat (fst (monitor_loop tick s evs)) = []"
  using assms
proof (induction evs arbitrary: s)
  case (Cons e evs)
  show ?case
  proof (cases e)
    case (TickFired i)
    have step: "valid i s \<and> seen (snd (tick i s)) = Some v \<and> I (snd (tick i s))"
      using Cons.prems TickFired by simp
    have "fst (tick i s) = []"
      using Cons.prems(2) step first_silent same_silent by (metis (no_types))
    moreover have "concat (fst (monitor_loop tick (snd (tick i s)) evs)) = []"
      using step Cons.prems(3) by (intro Cons.IH) auto
    ultimately show ?thesis using TickFired by (simp add: case_prod_beta)
  qed simp
qed simp

end

text \<open>A map built by insertions of distinct keys.\<close>

definition build :: "('a \<Rightarrow> 'k) \<Rightarrow> ('a \<Rightarrow> 'v) \<Rightarrow> 'a list \<Rightarrow> ('k, 'v) hmap \<Rightarrow> ('k, 'v) hmap" where
  "build k v xs m = foldl (\<lambda>m x. hm_insert (k x) (v x) m) m xs"

lemma build_other: "j \<notin> k ` set xs \<Longrightarrow> hm_get (build k v xs m) j = hm_get m j"
  by (induction xs arbitrary: m) (auto simp: build_def hm_simps)

lemma build_mem: "distinct (map k xs) \<Longrightarrow> x \<in> set xs \<Longrightarrow> hm_get (build k v xs m) (k x) = Some (v x)"
proof (induction xs arbitrary: m)
  case (Cons y xs)
  have unfold: "build k v (y # xs) m = build k v xs (hm_insert (k y) (v y) m)" by (simp add: build_def)
  show ?case
  proof (cases "x \<in> set xs")
    case True
    then show ?thesis using Cons unfold by simp
  next
    case False
    then have "x = y" "k x \<notin> k ` set xs" using Cons.prems by auto
    then show ?thesis unfolding unfold by (simp add: build_other hm_simps)
  qed
qed simp

subsubsection \<open>Credentials\<close>

lemma scan_credentials_ok: "hm_ok (fst (run_state (scan_credentials ev dm sd) fs))"
proof -
  have "hm_ok out \<Longrightarrow> hm_ok (fst (run_state (scan_dir_modes ev dm d es out) fs))" for d es out fs
    by (induction es arbitrary: out fs) (simp_all add: case_prod_beta hm_simps)
  then show ?thesis by (simp add: scan_credentials_def case_prod_beta hm_simps split: sum.split)
qed

lemma credential_same: "hm_ok cur \<Longrightarrow> credential_diff now (Some cur) cur = []"
  by (auto simp: credential_diff_def credential_change_def hm_get_def hm_ok_def filter_empty_conv map_of_eq_None_iff image_iff split: option.splits)

interpretation credential: diff_monitor "credential_tick ev dm sd" id "\<lambda>_ _. True" for ev dm sd
proof
  show "fst (credential_tick ev dm sd i s) = []" if "id s = None" for i s
    using that by (cases i) (simp add: credential_tick_def credential_diff_def Let_def)
  show "fst (credential_tick ev dm sd i s) = []" if "id (snd (credential_tick ev dm sd i s)) = id s" for i s
    using that scan_credentials_ok credential_same by (cases i) (auto simp: credential_tick_def Let_def)
qed

subsubsection \<open>Memory files\<close>

definition memory_files :: "fs_env \<Rightarrow> check_lib \<Rightarrow> path \<Rightarrow> string \<times> fsys \<Rightarrow> memory_vars \<Rightarrow> (string \<times> string \<times> string) list" where
  "memory_files ev lib sd i st = fst (run_state (scan_memory_files ev sd)
     (if mv_built st then snd i else snd (run_state (create_memory_baseline ev lib sd (fst i)) (snd i))))"

definition rel_of :: "string \<times> string \<times> string \<Rightarrow> string" where "rel_of item = fst (snd item)"

definition hash_of :: "check_lib \<Rightarrow> string \<times> string \<times> string \<Rightarrow> string" where "hash_of lib item = hash_string (cx_sha lib) (snd (snd item))"

lemma memory_file_step:
  "memory_file lib now b p (cur, out, False) x =
    (let h = hash_of lib x; cur' = hm_insert (rel_of x) h cur
     in case p of
       None \<Rightarrow> (cur', out, False)
     | Some prev \<Rightarrow>
         let out' = out @ (if hm_get prev (rel_of x) = None then [new_memory_alert (fst x) (rel_of x) now] else [])
         in if hm_get prev (rel_of x) = Some h then (cur', out', False)
            else (case check_memory_content lib (fst x) (rel_of x) (snd (snd x)) b now of
              Panics \<Rightarrow> (cur', out', True) | Returns as \<Rightarrow> (cur', out' @ as, False)))"
  by (cases x; cases p) (auto simp: memory_file_def rel_of_def hash_of_def Let_def split: may_panic.split)

lemma memory_files_other:
  "r \<notin> rel_of ` set xs \<Longrightarrow> hm_get (fst (foldl (memory_file lib now b p) acc xs)) r = hm_get (fst acc) r"
proof (induction xs arbitrary: acc)
  case (Cons x xs)
  obtain cur out dead where acc: "acc = (cur, out, dead)" by (cases acc)
  have "hm_get (fst (memory_file lib now b p acc x)) r = hm_get (fst acc) r"
  proof (cases dead)
    case True
    then show ?thesis by (cases x) (simp add: acc memory_file_def)
  next
    case False
    then show ?thesis using Cons.prems
      by (auto simp: acc memory_file_step Let_def hm_simps split: option.split may_panic.split)
  qed
  then show ?case using Cons by simp
qed simp

lemma memory_files_quiet:
  assumes "case p of None \<Rightarrow> True | Some prev \<Rightarrow> \<forall>x \<in> set xs. hm_get prev (rel_of x) = Some (hash_of lib x)"
  shows "foldl (memory_file lib now b p) (cur, out, False) xs = (build rel_of (hash_of lib) xs cur, out, False)"
  using assms by (induction xs arbitrary: cur) (auto simp: build_def memory_file_step Let_def split: option.splits)

lemma memory_files_changed:
  assumes "distinct (map rel_of xs)" "x \<in> set xs" "hm_get prev (rel_of x) \<noteq> Some (hash_of lib x)"
  shows "fst (foldl (memory_file lib now b (Some prev)) ([], [], False) xs) \<noteq> prev"
proof -
  have "\<exists>x \<in> set xs. hm_get prev (rel_of x) \<noteq> Some (hash_of lib x)" using assms(2,3) by blast
  from split_list_first_prop [OF this] obtain ys x zs where xs: "xs = ys @ x # zs" "hm_get prev (rel_of x) \<noteq> Some (hash_of lib x)"
    "\<forall>y \<in> set ys. hm_get prev (rel_of y) = Some (hash_of lib y)" by blast
  have ys: "foldl (memory_file lib now b (Some prev)) ([], [], False) ys = (build rel_of (hash_of lib) ys [], [], False)"
    using xs(3) by (intro memory_files_quiet) simp
  have zs: "rel_of x \<notin> rel_of ` set zs" using assms(1) xs(1) by auto
  have "hm_get (fst (foldl (memory_file lib now b (Some prev)) ([], [], False) xs)) (rel_of x) = Some (hash_of lib x)"
    unfolding xs(1) foldl_append foldl_Cons ys memory_files_other [OF zs]
    by (auto simp: memory_file_step Let_def hm_simps split: may_panic.split)
  then show ?thesis using xs(2) by auto
qed

lemma memory_tick_simp:
  "memory_tick ev lib sd i st =
    (if mv_dead st then ([], st)
     else let b = (if mv_built st then mv_baseline st else fst (run_state (create_memory_baseline ev lib sd (fst i)) (snd i)));
            r = foldl (memory_file lib (fst i) b (mv_last st)) ([], [], False) (memory_files ev lib sd i st)
          in (fst (snd r), \<lparr> mv_baseline = b, mv_built = True, mv_last = Some (fst r), mv_dead = snd (snd r) \<rparr>))"
  by (cases i) (simp add: memory_tick_def memory_files_def Let_def case_prod_beta)

interpretation memory: diff_monitor "memory_tick ev lib sd" mv_last "\<lambda>i st. distinct (map rel_of (memory_files ev lib sd i st))"
  for ev lib sd
proof
  show "fst (memory_tick ev lib sd i s) = []" if "mv_last s = None" for i s
    using that by (simp add: memory_tick_simp memory_files_quiet Let_def)
  show "fst (memory_tick ev lib sd i s) = []"
    if v: "distinct (map rel_of (memory_files ev lib sd i s))" and same: "mv_last (snd (memory_tick ev lib sd i s)) = mv_last s" for i s
  proof (cases "mv_last s")
    case (Some prev)
    have "\<forall>x \<in> set (memory_files ev lib sd i s). hm_get prev (rel_of x) = Some (hash_of lib x)" if "\<not> mv_dead s"
      using same that Some memory_files_changed [OF v] by (fastforce simp: memory_tick_simp Let_def)
    then show ?thesis using Some by (auto simp: memory_tick_simp memory_files_quiet Let_def)
  qed (simp add: memory_tick_simp memory_files_quiet Let_def)
qed

subsubsection \<open>Skills\<close>

lemma traverse_split:
  "run_state (State_Monad.traverse_list f (x # xs)) s =
    (let (y, s1) = run_state (f x) s; (ys, s2) = run_state (State_Monad.traverse_list f xs) s1 in (y # ys, s2))"
  by (simp add: case_prod_beta)

lemma scan_skill_names: "fst (run_state (scan_skill_dir ev d n) fs) = [] \<or> map fst (fst (run_state (scan_skill_dir ev d n) fs)) = [n]"
  by (auto simp: scan_skill_dir_def case_prod_beta)

lemma scan_skills_names:
  assumes "run_state (State_Monad.traverse_list (scan_skill_dir ev d) ns) fs = (rs, fs')"
  shows "fst ` set (concat rs) \<subseteq> set ns \<and> (distinct ns \<longrightarrow> distinct (map fst (concat rs)))"
  using assms
proof (induction ns arbitrary: fs rs)
  case (Cons n ns)
  obtain r fs1 where r: "run_state (scan_skill_dir ev d n) fs = (r, fs1)" by fastforce
  obtain rs1 fs2 where rs1: "run_state (State_Monad.traverse_list (scan_skill_dir ev d) ns) fs1 = (rs1, fs2)" by fastforce
  have "rs = r # rs1" "fs' = fs2" using Cons.prems r rs1 by simp_all
  moreover have "r = [] \<or> map fst r = [n]" using scan_skill_names [of ev d n fs] r by simp
  moreover note Cons.IH [OF rs1 [folded \<open>fs' = fs2\<close>]]
  ultimately show ?case by (fastforce simp: image_subset_iff)
qed simp

lemma read_dir_distinct: "run_state (fs_read_dir ev p) fs = (Inr ns, fs') \<Longrightarrow> distinct ns"
  by (auto simp: fs_read_dir_def io_op_def Let_def dir_entries_def split: if_splits option.splits)

lemma scan_skills_distinct: "distinct (map fst (fst (run_state (scan_skills_dir ev sd) fs)))"
proof -
  obtain rd fs1 where rd: "run_state (fs_read_dir ev (sd @ [''skills''])) fs = (rd, fs1)" by fastforce
  show ?thesis
  proof (cases rd)
    case (Inr ns)
    obtain rs fs2 where "run_state (State_Monad.traverse_list (scan_skill_dir ev (sd @ [''skills''])) ns) fs1 = (rs, fs2)" by fastforce
    then show ?thesis using rd Inr scan_skills_names read_dir_distinct by (fastforce simp: scan_skills_dir_def)
  qed (simp add: scan_skills_dir_def rd)
qed

definition skill_hash :: "check_lib \<Rightarrow> string \<times> (string \<times> string) list \<Rightarrow> string" where
  "skill_hash lib s = hash_string (cx_sha lib) (combined (snd s))"

lemma skill_tick_simp:
  "skill_tick ev lib db sd i seen =
    (let skills = fst (run_state (scan_skills_dir ev sd) (snd i))
     in (concat (map (skill_alerts lib db (fst i) seen) skills), Some (build fst (skill_hash lib) skills [])))"
  by (cases i) (simp add: skill_tick_def build_def skill_hash_def Let_def case_prod_unfold)

lemma skill_alerts_same: "hm_get m (fst s) = Some (skill_hash lib s) \<Longrightarrow> skill_alerts lib db now (Some m) s = []"
  by (cases s) (simp add: skill_alerts_def skill_hash_def Let_def)

interpretation skill: diff_monitor "skill_tick ev lib db sd" id "\<lambda>_ _. True" for ev lib db sd
proof
  show "fst (skill_tick ev lib db sd i s) = []" if "id s = None" for i s
    using that by (auto simp: skill_tick_simp Let_def skill_alerts_def)
  show "fst (skill_tick ev lib db sd i s) = []" if "id (snd (skill_tick ev lib db sd i s)) = id s" for i s
    using that [symmetric] build_mem [OF scan_skills_distinct]
    by (auto simp: skill_tick_simp Let_def intro!: skill_alerts_same)
qed

subsection \<open>What the monitors report\<close>

lemma memory_constant:
  assumes d: "distinct (map rel_of files)"
    and same: "\<And>now fs. TickFired (now, fs) \<in> set evs \<Longrightarrow> fst (run_state (scan_memory_files ev sd) fs) = files \<and>
      fst (run_state (scan_memory_files ev sd) (snd (run_state (create_memory_baseline ev lib sd now) fs))) = files"
  shows "memory_run ev lib sd baseline evs = []"
  unfolding memory_run_def
proof (intro memory.constant_silent [where I = "\<lambda>st. \<not> mv_dead st" and v = "build rel_of (hash_of lib) files []"])
  fix i and s :: memory_vars
  assume i: "TickFired i \<in> set evs" and s: "\<not> mv_dead s" "mv_last s = None \<or> mv_last s = Some (build rel_of (hash_of lib) files [])"
  have files: "memory_files ev lib sd i s = files" using same i by (cases i) (auto simp: memory_files_def)
  have "foldl (memory_file lib now b (mv_last s)) ([], [], False) files = (build rel_of (hash_of lib) files [], [], False)" for now b
    by (rule memory_files_quiet) (use s(2) build_mem [OF d] in auto)
  then show "distinct (map rel_of (memory_files ev lib sd i s)) \<and> mv_last (snd (memory_tick ev lib sd i s)) = Some (build rel_of (hash_of lib) files []) \<and>
      \<not> mv_dead (snd (memory_tick ev lib sd i s))"
    using d s by (simp add: memory_tick_simp files Let_def)
qed (simp_all add: memory_vars_init_def)

text \<open>When a skill is unsafe: by its name, by a critical pattern in a file, or by a file of a known campaign.\<close>

definition critical_text :: "check_lib \<Rightarrow> string \<Rightarrow> bool" where
  "critical_text lib content = list_ex (\<lambda>p. dp_severity p = ''critical'' \<and> rx_match lib (dp_regex p) content) DANGEROUS_PATTERNS"

definition skill_unsafe :: "check_lib \<Rightarrow> ioc_database \<Rightarrow> string \<Rightarrow> (string \<times> string) list \<Rightarrow> bool" where
  "skill_unsafe lib db name files \<longleftrightarrow> matches_typosquat (cx_lower lib) (cx_jaro_winkler lib) db name \<or>
     list_ex (\<lambda>(f, c). critical_text lib c \<or> is_known_malicious_hash db (hash_string (cx_sha lib) c) \<noteq> None) files"

lemma note_matches_safe: "ssr_safe (foldl (note_match f) r ms) \<longleftrightarrow> ssr_safe r \<and> list_all (\<lambda>m. dp_severity m \<noteq> ''critical'') ms"
  by (induction ms arbitrary: r) (auto simp: note_match_def)

lemma scan_file_safe:
  "ssr_safe (scan_skill_file lib (Some db) r fc) \<longleftrightarrow>
    ssr_safe r \<and> \<not> critical_text lib (snd fc) \<and> is_known_malicious_hash db (hash_string (cx_sha lib) (snd fc)) = None"
  by (cases fc) (auto simp: scan_skill_file_def note_hash_def note_matches_safe scan_content_def critical_text_def Let_def
      list_all_iff list_ex_iff split: option.split)

lemma scan_files_safe:
  "ssr_safe (foldl (scan_skill_file lib (Some db)) r files) \<longleftrightarrow> ssr_safe r \<and>
    list_all (\<lambda>fc. \<not> critical_text lib (snd fc) \<and> is_known_malicious_hash db (hash_string (cx_sha lib) (snd fc)) = None) files"
  by (induction files arbitrary: r) (auto simp: scan_file_safe)

lemma scan_skill_safe_iff: "ssr_safe (scan_skill_content lib name files (Some db)) \<longleftrightarrow> \<not> skill_unsafe lib db name files"
  by (auto simp: scan_skill_content_def scan_files_safe typosquat_start_def skill_unsafe_def Let_def list_all_iff list_ex_iff)

text \<open>Whether a scan already held this skill with the same digest.\<close>

definition seen_same :: "check_lib \<Rightarrow> (string \<times> (string \<times> string) list) list \<Rightarrow> string \<times> (string \<times> string) list \<Rightarrow> bool" where
  "seen_same lib before s = list_ex (\<lambda>o1. fst o1 = fst s \<and> skill_hash lib o1 = skill_hash lib s) before"

lemma build_get_iff:
  assumes "distinct (map k xs)"
  shows "hm_get (build k v xs []) j = Some h \<longleftrightarrow> (\<exists>x \<in> set xs. k x = j \<and> v x = h)"
  using build_mem [OF assms] build_other [of j k xs v "[]"] by (auto simp: hm_get_def image_iff) force

lemma skill_alerts_after:
  assumes "distinct (map fst before)"
  shows "skill_alerts lib db now (Some (build fst (skill_hash lib) before [])) s =
    (if skill_unsafe lib db (fst s) (snd s) \<and> \<not> seen_same lib before s
     then [unsafe_skill_alert (fst s) (scan_skill_content lib (fst s) (snd s) (Some db)) now] else [])"
proof -
  have "hm_get (build fst (skill_hash lib) before []) (fst s) = Some (skill_hash lib s) \<longleftrightarrow> seen_same lib before s"
    by (auto simp: build_get_iff [OF assms] seen_same_def list_ex_iff)
  then show ?thesis by (cases s) (auto simp: skill_alerts_def scan_skill_safe_iff skill_hash_def Let_def)
qed

text \<open>
  C36: Two consecutive ticks of the skill scanner, whatever came before and whatever input/output errors the scans meet: the second
  reports exactly the skills it sees that are unsafe (their name is a typosquat, a file matches a critical pattern, or a file has a
  known malicious hash) and that the first did not see with the same digest, once each, in the order of the scan.
\<close>

theorem skill_tick_exact:
  "fst (skill_tick ev lib db sd (now2, fs2) (snd (skill_tick ev lib db sd (now1, fs1) seen))) =
    (let before = fst (run_state (scan_skills_dir ev sd) fs1); skills = fst (run_state (scan_skills_dir ev sd) fs2)
     in map (\<lambda>(name, files). unsafe_skill_alert name (scan_skill_content lib name files (Some db)) now2)
          (filter (\<lambda>(name, files). skill_unsafe lib db name files \<and> \<not> seen_same lib before (name, files)) skills))"
proof -
  let ?before = "fst (run_state (scan_skills_dir ev sd) fs1)"
  have "concat (map (skill_alerts lib db now2 (Some (build fst (skill_hash lib) ?before []))) skills) =
      map (\<lambda>(name, files). unsafe_skill_alert name (scan_skill_content lib name files (Some db)) now2)
        (filter (\<lambda>(name, files). skill_unsafe lib db name files \<and> \<not> seen_same lib ?before (name, files)) skills)" for skills
    by (induction skills) (simp_all add: skill_alerts_after [OF scan_skills_distinct] case_prod_beta)
  then show ?thesis by (simp add: skill_tick_simp Let_def)
qed

text \<open>
  A monitor reports differences between two scans of its own, never what it finds: whatever is there when the daemon starts (an
  open credential file, an injected or tampered memory file even against a baseline passed in, an unsafe skill) and then stays is
  never reported, for any number of ticks.
\<close>

theorem present_threats_never_reported:
  "((\<forall>now fs. TickFired (now, fs) \<in> set evs \<longrightarrow> fst (run_state (scan_credentials ev dm sd) fs) = creds) \<longrightarrow>
      credential_run ev dm sd evs = []) \<and>
   ((\<forall>now fs. TickFired (now, fs) \<in> set evs \<longrightarrow> fst (run_state (scan_skills_dir ev sd) fs) = skills) \<longrightarrow>
      skill_run ev lib db sd evs = []) \<and>
   (distinct (map rel_of files) \<and>
     (\<forall>now fs. TickFired (now, fs) \<in> set evs \<longrightarrow> fst (run_state (scan_memory_files ev sd) fs) = files \<and>
        fst (run_state (scan_memory_files ev sd) (snd (run_state (create_memory_baseline ev lib sd now) fs))) = files) \<longrightarrow>
      memory_run ev lib sd baseline evs = [])"
proof (intro conjI impI)
  show "credential_run ev dm sd evs = []"
    if "\<forall>now fs. TickFired (now, fs) \<in> set evs \<longrightarrow> fst (run_state (scan_credentials ev dm sd) fs) = creds"
    unfolding credential_run_def using that
    by (intro credential.constant_silent [where I = "\<lambda>_. True" and v = creds]) (auto simp: credential_tick_def Let_def)
  show "skill_run ev lib db sd evs = []"
    if "\<forall>now fs. TickFired (now, fs) \<in> set evs \<longrightarrow> fst (run_state (scan_skills_dir ev sd) fs) = skills"
    unfolding skill_run_def using that
    by (intro skill.constant_silent [where I = "\<lambda>_. True" and v = "build fst (skill_hash lib) skills []"]) (auto simp: skill_tick_simp Let_def)
  show "memory_run ev lib sd baseline evs = []"
    if "distinct (map rel_of files) \<and> (\<forall>now fs. TickFired (now, fs) \<in> set evs \<longrightarrow>
        fst (run_state (scan_memory_files ev sd) fs) = files \<and>
        fst (run_state (scan_memory_files ev sd) (snd (run_state (create_memory_baseline ev lib sd now) fs))) = files)"
    using that by (intro memory_constant) auto
qed

definition demo_lib :: check_lib where
  "demo_lib = \<lparr> cx_rx = (\<lambda>p _ txt. Some (contains txt (if starts_with p ''(?i)'' then drop 4 p else p))), cx_find_iter = (\<lambda>_ _. []),
     cx_sha = (\<lambda>s. s), cx_lower = (\<lambda>gs n. concat (drop n gs)), cx_jaro_winkler = (\<lambda>_ _. Fin 0), cx_home = None \<rparr>"

definition calm_env :: fs_env where
  "calm_env = \<lparr> ev_fault = (\<lambda>_. None), ev_cut = (\<lambda>_. None), ev_new_mode = 420 \<rparr>"

definition infected_fs :: fsys where
  "infected_fs = \<lparr> fy_files =
       [([''sd'', ''.env''], \<lparr> fd_data = ''KEY=1'', fd_mode = 420 \<rparr>),
        ([''sd'', ''agents'', ''a'', ''SOUL.md''], \<lparr> fd_data = ''exfiltrate'', fd_mode = 384 \<rparr>),
        ([''sd'', ''skills'', ''evil'', ''index.js''], \<lparr> fd_data = ''child_process'', fd_mode = 384 \<rparr>)],
     fy_dirs = [[''sd''], [''sd'', ''agents''], [''sd'', ''agents'', ''a''], [''sd'', ''skills''], [''sd'', ''skills'', ''evil'']],
     fy_tick = 0, fy_panicked = False \<rparr>"

definition demo_events :: "(string \<times> fsys) loop_event list" where
  "demo_events = [TickFired (''t0'', infected_fs), TickFired (''t1'', infected_fs), TickFired (''t2'', infected_fs), CancelFired]"

text \<open>A world-readable \<open>.env\<close>, an injected \<open>SOUL.md\<close> and an unsafe skill, present from the start: three silent monitors.\<close>

theorem present_threats_never_reported_witness:
  "credential_run calm_env (\<lambda>_. 448) [''sd''] demo_events = [] \<and> skill_run calm_env demo_lib empty_database [''sd''] demo_events = [] \<and>
   memory_run calm_env demo_lib [''sd''] \<lparr> hb_timestamp = [], hb_files = [(''agents/a/SOUL.md'', ''00'')] \<rparr> demo_events = [] \<and>
   skill_unsafe demo_lib empty_database ''evil'' [(''index.js'', ''child_process'')] \<and>
   scan_for_prompt_injection demo_lib ''exfiltrate'' \<noteq> [] \<and> permission_alert ''.env'' 420 [] \<noteq> None"
proof -
  have "distinct (map rel_of [(''SOUL.md'', ''agents/a/SOUL.md'', ''exfiltrate'')])" by simp
  moreover have "fst (run_state (scan_memory_files calm_env [''sd'']) infected_fs) = [(''SOUL.md'', ''agents/a/SOUL.md'', ''exfiltrate'')]"
    by code_simp
  moreover have "fst (run_state (scan_memory_files calm_env [''sd''])
      (snd (run_state (create_memory_baseline calm_env demo_lib [''sd''] now) infected_fs))) = [(''SOUL.md'', ''agents/a/SOUL.md'', ''exfiltrate'')]" for now
    by code_simp
  ultimately have "credential_run calm_env (\<lambda>_. 448) [''sd''] demo_events = [] \<and> skill_run calm_env demo_lib empty_database [''sd''] demo_events = [] \<and>
      memory_run calm_env demo_lib [''sd''] \<lparr> hb_timestamp = [], hb_files = [(''agents/a/SOUL.md'', ''00'')] \<rparr> demo_events = []"
    using present_threats_never_reported [of demo_events calm_env "\<lambda>_. 448" "[''sd'']" "fst (run_state (scan_credentials calm_env (\<lambda>_. 448) [''sd'']) infected_fs)"
      "fst (run_state (scan_skills_dir calm_env [''sd'']) infected_fs)" demo_lib empty_database "[(''SOUL.md'', ''agents/a/SOUL.md'', ''exfiltrate'')]"
      "\<lparr> hb_timestamp = [], hb_files = [(''agents/a/SOUL.md'', ''00'')] \<rparr>"]
    by (simp add: demo_events_def)
  moreover have "skill_unsafe demo_lib empty_database ''evil'' [(''index.js'', ''child_process'')]"
    "scan_for_prompt_injection demo_lib ''exfiltrate'' \<noteq> []" "permission_alert ''.env'' 420 [] \<noteq> None"
    by code_simp+
  ultimately show ?thesis by blast
qed

end
