(* ===== verification/CostMonitor.thy ===== *)
theory CostMonitor
  imports Monitors KillSwitch CostCheck
begin

text \<open>
  The cost monitor and its circuit breaker (\<open>secureops-monitors/src/cost.rs\<close>), on IEEE doubles: the price of an entry, the sums over
  the hourly, daily and monthly windows, the limits, the spike test and the loop that rescans the session logs on every tick.

  The lemmas show when the breaker trips and that it stays tripped, and what the spike test compares.
\<close>

definition HOUR_MS :: int where "HOUR_MS = 60 * 60 * 1000"
definition DAY_MS :: int where "DAY_MS = 24 * HOUR_MS"
definition MONTH_MS :: int where "MONTH_MS = 30 * DAY_MS"

definition token_cost :: "string \<Rightarrow> f64 \<times> f64" where
  "token_cost model =
    (if model = ''claude-opus-4'' then (round64 (15 / 1000000), round64 (75 / 1000000))
     else if model = ''claude-sonnet-4'' then (round64 (3 / 1000000), round64 (15 / 1000000))
     else if model = ''claude-haiku-4'' then (round64 (8 / 10000000), round64 (4 / 1000000))
     else if model = ''gpt-4'' then (round64 (3 / 100000), round64 (6 / 100000))
     else if model = ''gpt-4o'' then (round64 (25 / 10000000), round64 (1 / 100000))
     else (round64 (3 / 1000000), round64 (15 / 1000000)))"

record limits =
  lm_hourly_usd :: f64
  lm_daily_usd :: f64
  lm_monthly_usd :: f64
  lm_circuit_breaker_enabled :: bool

definition limits_default :: limits where
  "limits_default = \<lparr> lm_hourly_usd = Fin 2, lm_daily_usd = Fin 10, lm_monthly_usd = Fin 100, lm_circuit_breaker_enabled = True \<rparr>"

definition tokens_field :: "json \<Rightarrow> string \<Rightarrow> u64" where
  "tokens_field v k = of_nat (unwrap_or (Option.bind (json_get v k) json_as_u64) 0)"

definition estimate :: "string \<Rightarrow> u64 \<Rightarrow> u64 \<Rightarrow> f64" where
  "estimate model input_tokens output_tokens = (case token_cost model of (ci, co) \<Rightarrow>
     flt_add round64 (flt_mul round64 (f64_of_nat (unat input_tokens)) ci) (flt_mul round64 (f64_of_nat (unat output_tokens)) co))"

definition session_entry :: "json \<Rightarrow> string \<Rightarrow> cost_entry option" where
  "session_entry v now =
    (let input_tokens = tokens_field v ''inputTokens'';
         output_tokens = tokens_field v ''outputTokens'';
         model_field = Option.bind (json_get v ''model'') json_as_str;
         model = unwrap_or model_field ''default''
     in if input_tokens \<noteq> 0 \<or> output_tokens \<noteq> 0 \<or> (model_field \<noteq> None \<and> model_field \<noteq> Some []) then
          Some \<lparr> ce_timestamp = unwrap_or (Option.bind (json_get v ''timestamp'') json_as_str) now, ce_model = model,
            ce_input_tokens = input_tokens, ce_output_tokens = output_tokens, ce_estimated_cost_usd = estimate model input_tokens output_tokens \<rparr>
        else None)"

definition parse_session_log :: "(string \<Rightarrow> json option) \<Rightarrow> string \<Rightarrow> string \<Rightarrow> cost_entry list" where
  "parse_session_log from_str content now =
    List.map_filter (\<lambda>line. Option.bind (from_str line) (\<lambda>v. session_entry v now)) (filter (\<lambda>l. l \<noteq> []) (split_char newline content))"

text \<open>\<open>Iterator::sum\<close> of doubles adds from the left, starting from zero.\<close>

definition f64_sum :: "f64 list \<Rightarrow> f64" where
  "f64_sum xs = foldl (flt_add round64) (Fin 0) xs"

definition calculate_cost_for_window :: "(string \<Rightarrow> int option) \<Rightarrow> cost_entry list \<Rightarrow> int \<Rightarrow> int \<Rightarrow> f64" where
  "calculate_cost_for_window rfc3339 entries window_ms now_ms =
    f64_sum (map snd (filter (\<lambda>(t, _). now_ms - window_ms \<le> t)
      (List.map_filter (\<lambda>e. map_option (\<lambda>t. (t, ce_estimated_cost_usd e)) (parse_ms rfc3339 (ce_timestamp e))) entries)))"

definition generate_cost_report :: "(string \<Rightarrow> int option) \<Rightarrow> cost_entry list \<Rightarrow> int \<Rightarrow> bool \<Rightarrow> cost_report" where
  "generate_cost_report rfc3339 entries now_ms tripped =
    (let hourly = calculate_cost_for_window rfc3339 entries HOUR_MS now_ms;
         daily = calculate_cost_for_window rfc3339 entries DAY_MS now_ms;
         monthly = calculate_cost_for_window rfc3339 entries MONTH_MS now_ms;
         projected_daily = flt_mul round64 hourly (Fin 24);
         projected_monthly = flt_mul round64 projected_daily (Fin 30)
     in \<lparr> cr_hourly = hourly, cr_daily = daily, cr_monthly = monthly,
          cr_projection = \<lparr> cp_daily = projected_daily, cp_monthly = projected_monthly \<rparr>,
          cr_circuit_breaker_tripped = tripped, cr_entries = entries \<rparr>)"

record check_outcome =
  co_alerts :: "monitor_alert list"
  co_tripped :: bool

definition cost_alert :: "severity \<Rightarrow> string \<Rightarrow> string option \<Rightarrow> string \<Rightarrow> monitor_alert" where
  "cost_alert severity message details now_iso = \<lparr> ma_timestamp = now_iso, ma_severity = severity, ma_monitor = ''cost-monitor'',
     ma_message = message, ma_details = details \<rparr>"

definition is_recent :: "(string \<Rightarrow> int option) \<Rightarrow> int \<Rightarrow> cost_entry \<Rightarrow> bool" where
  "is_recent rfc3339 now_ms e = (case parse_ms rfc3339 (ce_timestamp e) of None \<Rightarrow> False | Some t \<Rightarrow> now_ms - t < HOUR_MS)"

definition recent_spend :: "(string \<Rightarrow> int option) \<Rightarrow> cost_entry list \<Rightarrow> int \<Rightarrow> f64" where
  "recent_spend rfc3339 entries now_ms = f64_sum (map ce_estimated_cost_usd (filter (is_recent rfc3339 now_ms) entries))"

definition is_spike :: "(string \<Rightarrow> int option) \<Rightarrow> cost_entry list \<Rightarrow> int \<Rightarrow> bool" where
  "is_spike rfc3339 entries now_ms =
    (entries \<noteq> [] \<and>
     (let avg = flt_div round64 (f64_sum (map ce_estimated_cost_usd entries)) (f64_of_nat (length entries));
          recent_total = recent_spend rfc3339 entries now_ms
      in flt_less (flt_mul round64 avg (Fin 3)) recent_total \<and> flt_less (round64 (1 / 10)) recent_total))"

text \<open>\<open>pr\<close> prints a double with \<open>{}\<close>.\<close>

definition check_limits ::
  "(f64 \<Rightarrow> string) \<Rightarrow> (string \<Rightarrow> int option) \<Rightarrow> cost_entry list \<Rightarrow> limits \<Rightarrow> int \<Rightarrow> string \<Rightarrow> check_outcome" where
  "check_limits pr rfc3339 entries lm now_ms now_iso =
    (let hourly = calculate_cost_for_window rfc3339 entries HOUR_MS now_ms;
         daily = calculate_cost_for_window rfc3339 entries DAY_MS now_ms;
         monthly = calculate_cost_for_window rfc3339 entries MONTH_MS now_ms;
         over = flt_less (lm_hourly_usd lm) hourly;
         tripped = (over \<and> lm_circuit_breaker_enabled lm)
     in \<lparr> co_alerts =
            (if over then [cost_alert Critical (''Hourly spend ($'' @ fixed2 hourly @ '') exceeds limit ($'' @ pr (lm_hourly_usd lm) @ '')'')
               (Some (''Entries in window: '' @ show_nat (length entries))) now_iso] else []) @
            (if tripped then [cost_alert Critical ''Circuit breaker TRIPPED - pausing agent sessions''
               (Some (''Hourly spend: $'' @ fixed2 hourly @ '', Limit: $'' @ pr (lm_hourly_usd lm))) now_iso] else []) @
            (if flt_less (lm_daily_usd lm) daily
             then [cost_alert High (''Daily spend ($'' @ fixed2 daily @ '') exceeds limit ($'' @ pr (lm_daily_usd lm) @ '')'') None now_iso] else []) @
            (if flt_less (lm_monthly_usd lm) monthly
             then [cost_alert High (''Monthly spend ($'' @ fixed2 monthly @ '') exceeds limit ($'' @ pr (lm_monthly_usd lm) @ '')'') None now_iso] else []) @
            (if is_spike rfc3339 entries now_ms
             then [cost_alert High (''Unusual cost spike detected: $'' @ fixed2 (recent_spend rfc3339 entries now_ms) @ '' in the last hour (3x normal)'') None now_iso]
             else []),
          co_tripped = tripped \<rparr>)"

subsection \<open>The monitor\<close>

record cost_monitor =
  cm_circuit :: circuit_state
  cm_state_dir :: path
  cm_limits :: limits
  cm_entries :: "cost_entry list"
  cm_tripped :: bool

definition cost_monitor_new :: "circuit_state \<Rightarrow> cost_monitor" where
  "cost_monitor_new c = \<lparr> cm_circuit = c, cm_state_dir = [], cm_limits = limits_default, cm_entries = [], cm_tripped = False \<rparr>"

definition cost_with_state_dir :: "path \<Rightarrow> cost_monitor \<Rightarrow> cost_monitor" where
  "cost_with_state_dir sd m = m\<lparr> cm_state_dir := sd \<rparr>"

definition cost_with_limits :: "limits \<Rightarrow> cost_monitor \<Rightarrow> cost_monitor" where
  "cost_with_limits l m = m\<lparr> cm_limits := l \<rparr>"

definition cost_record :: "(string \<Rightarrow> int option) \<Rightarrow> cost_entry \<Rightarrow> int \<Rightarrow> cost_monitor \<Rightarrow> cost_report \<times> cost_monitor" where
  "cost_record rfc3339 e now_ms m =
    (let m' = m\<lparr> cm_entries := cm_entries m @ [e] \<rparr> in (generate_cost_report rfc3339 (cm_entries m') now_ms (cm_tripped m'), m'))"

definition is_tripped :: "cost_monitor \<Rightarrow> bool" where
  "is_tripped m = cm_tripped m"

definition scan_session :: "fs_env \<Rightarrow> (string \<Rightarrow> json option) \<Rightarrow> string \<Rightarrow> path \<Rightarrow> string \<Rightarrow> cost_entry list fsm" where
  "scan_session ev from_str now d f = (if extension f \<noteq> Some ''jsonl'' then State_Monad.return [] else do {
     r \<leftarrow> fs_read_to_string ev (d @ [f]);
     State_Monad.return (case r of Inl _ \<Rightarrow> [] | Inr content \<Rightarrow> parse_session_log from_str content now)
   })"

definition scan_agent_sessions :: "fs_env \<Rightarrow> (string \<Rightarrow> json option) \<Rightarrow> string \<Rightarrow> path \<Rightarrow> string \<Rightarrow> cost_entry list fsm" where
  "scan_agent_sessions ev from_str now agents a = do {
     sd \<leftarrow> fs_read_dir ev (agents @ [a, ''sessions'']);
     case sd of Inl _ \<Rightarrow> State_Monad.return []
     | Inr fs \<Rightarrow> do { rs \<leftarrow> State_Monad.traverse_list (scan_session ev from_str now (agents @ [a, ''sessions''])) fs; State_Monad.return (concat rs) }
   }"

definition scan_state_dir :: "fs_env \<Rightarrow> (string \<Rightarrow> json option) \<Rightarrow> path \<Rightarrow> string \<Rightarrow> cost_entry list fsm" where
  "scan_state_dir ev from_str sd now = do {
     agents \<leftarrow> fs_read_dir ev (sd @ [''agents'']);
     case agents of Inl _ \<Rightarrow> State_Monad.return []
     | Inr names \<Rightarrow> do { rs \<leftarrow> State_Monad.traverse_list (scan_agent_sessions ev from_str now (sd @ [''agents''])) names; State_Monad.return (concat rs) }
   }"

record cost_env =
  cv_fs :: fs_env
  cv_from_str :: "string \<Rightarrow> json option"
  cv_rfc3339 :: "string \<Rightarrow> int option"
  cv_print :: "f64 \<Rightarrow> string"

text \<open>One tick: the time in nanoseconds and as text, and the files.\<close>

definition cost_tick :: "cost_env \<Rightarrow> int \<times> string \<times> fsys \<Rightarrow> cost_monitor \<Rightarrow> monitor_alert list \<times> cost_monitor" where
  "cost_tick cv i m = (case i of (now, now_iso, fs) \<Rightarrow>
     let now_ms = nanos_to_ms now;
         entries = fst (run_state (scan_state_dir (cv_fs cv) (cv_from_str cv) (cm_state_dir m) now_iso) fs);
         outcome = check_limits (cv_print cv) (cv_rfc3339 cv) entries (cm_limits m) now_ms now_iso;
         m' = m\<lparr> cm_entries := entries \<rparr>
     in (co_alerts outcome, if co_tripped outcome then m'\<lparr> cm_tripped := True, cm_circuit := Tripped \<rparr> else m'))"

definition cost_run :: "cost_env \<Rightarrow> cost_monitor \<Rightarrow> (int \<times> string \<times> fsys) loop_event list \<Rightarrow> monitor_alert list list \<times> cost_monitor" where
  "cost_run cv m evs = monitor_loop (cost_tick cv) m evs"

subsection \<open>The breaker\<close>

text \<open>The ticks a loop takes before it is cancelled.\<close>

fun ticks_of :: "'i loop_event list \<Rightarrow> 'i list" where
  "ticks_of [] = []"
| "ticks_of (CancelFired # evs) = []"
| "ticks_of (TickFired i # evs) = i # ticks_of evs"

definition hourly_spend :: "cost_env \<Rightarrow> path \<Rightarrow> int \<times> string \<times> fsys \<Rightarrow> f64" where
  "hourly_spend cv sd i = (case i of (now, now_iso, fs) \<Rightarrow>
     calculate_cost_for_window (cv_rfc3339 cv) (fst (run_state (scan_state_dir (cv_fs cv) (cv_from_str cv) sd now_iso) fs)) HOUR_MS (nanos_to_ms now))"

lemma cost_tick_effect:
  "cm_state_dir (snd (cost_tick cv i m)) = cm_state_dir m" "cm_limits (snd (cost_tick cv i m)) = cm_limits m"
  "cm_tripped (snd (cost_tick cv i m)) \<longleftrightarrow> cm_tripped m \<or>
     lm_circuit_breaker_enabled (cm_limits m) \<and> flt_less (lm_hourly_usd (cm_limits m)) (hourly_spend cv (cm_state_dir m) i)"
  "cm_tripped m \<longleftrightarrow> cm_circuit m = Tripped \<Longrightarrow> cm_tripped (snd (cost_tick cv i m)) \<longleftrightarrow> cm_circuit (snd (cost_tick cv i m)) = Tripped"
  by (cases i; auto simp: cost_tick_def hourly_spend_def check_limits_def Let_def)+

lemma cost_run_effect:
  "(cm_tripped (snd (cost_run cv m evs)) \<longleftrightarrow> cm_tripped m \<or> list_ex (\<lambda>i. lm_circuit_breaker_enabled (cm_limits m) \<and>
     flt_less (lm_hourly_usd (cm_limits m)) (hourly_spend cv (cm_state_dir m) i)) (ticks_of evs)) \<and>
   ((cm_tripped m \<longleftrightarrow> cm_circuit m = Tripped) \<longrightarrow> (cm_tripped (snd (cost_run cv m evs)) \<longleftrightarrow> cm_circuit (snd (cost_run cv m evs)) = Tripped))"
  unfolding cost_run_def
proof (induction evs arbitrary: m rule: ticks_of.induct)
  case (3 i evs)
  show ?case using 3 [where m = "snd (cost_tick cv i m)"] cost_tick_effect [where cv = cv and i = i and m = m] by (auto simp: case_prod_beta)
qed simp_all

text \<open>
  C25: The circuit breaker. A monitor built with the given limits has tripped, on its own flag and on the shared channel alike, exactly when the
  breaker is enabled and at some tick before the cancellation the spend of the last hour, summed in doubles over the session logs as
  they were at that tick, was above the hourly limit. In particular a later fall of the spend does not arm it again.
\<close>

theorem breaker_trips_iff:
  "let m = snd (cost_run cv (cost_with_limits l (cost_with_state_dir sd (cost_monitor_new circuit_channel))) evs)
   in is_tripped m = (lm_circuit_breaker_enabled l \<and> list_ex (\<lambda>i. flt_less (lm_hourly_usd l) (hourly_spend cv sd i)) (ticks_of evs)) \<and>
      (cm_circuit m = Tripped) = is_tripped m"
  using cost_run_effect [of cv "cost_with_limits l (cost_with_state_dir sd (cost_monitor_new circuit_channel))" evs]
  by (auto simp: cost_with_limits_def cost_with_state_dir_def cost_monitor_new_def circuit_channel_def is_tripped_def Let_def list_ex_iff)

subsection \<open>The spike test\<close>

lemma f64_sum_ones:
  assumes "list_all (\<lambda>x. x = Fin 1) xs" "length xs < 2 ^ 53" shows "f64_sum xs = Fin (of_nat (length xs))"
  using assms
proof (induction xs rule: rev_induct)
  case (snoc x xs)
  have "flt_add round64 (Fin (of_nat (length xs))) (Fin 1) = f64_of_nat (length (xs @ [x]))"
    by (simp add: f64_of_nat_def add.commute)
  also have "\<dots> = Fin (of_nat (length (xs @ [x])))" using snoc.prems(2) by (rule f64_of_nat_exact)
  finally show ?case using snoc by (simp add: f64_sum_def)
qed (simp add: f64_sum_def)

lemma round64_one: "round64 1 = Fin 1" "round64 3 = Fin 3"
  using f64_of_nat_exact [of 1] f64_of_nat_exact [of 3] by (simp_all add: f64_of_nat_def)

lemma tenth_small: "flt_less (round64 (1 / 10)) (Fin 4)"
  by code_simp

text \<open>
  The spike test compares the spend of the last hour with three times the average cost of one entry, not of one hour: a perfectly
  steady spend, any number of one-dollar entries spread over any time, is reported as a spike as soon as more than three of them fall
  within the last hour.
\<close>

theorem steady_spend_is_a_spike:
  assumes "list_all (\<lambda>e. ce_estimated_cost_usd e = Fin 1) entries" "length entries < 2 ^ 53"
    and "3 < length (filter (is_recent rfc3339 now_ms) entries)"
  shows "is_spike rfc3339 entries now_ms"
proof -
  let ?rec = "filter (is_recent rfc3339 now_ms) entries"
  have ne: "entries \<noteq> []" using assms(3) by auto
  have total: "f64_sum (map ce_estimated_cost_usd entries) = Fin (of_nat (length entries))"
    using f64_sum_ones [of "map ce_estimated_cost_usd entries"] assms(1,2) by (simp add: list.pred_map comp_def)
  have len: "length ?rec < 2 ^ 53" using le_less_trans [OF length_filter_le assms(2)] .
  have "list_all (\<lambda>x. x = Fin 1) (map ce_estimated_cost_usd ?rec)" using assms(1) by (auto simp: list_all_iff)
  then have recent: "recent_spend rfc3339 entries now_ms = Fin (of_nat (length ?rec))"
    using f64_sum_ones [of "map ce_estimated_cost_usd ?rec"] len by (simp add: recent_spend_def)
  have "flt_div round64 (Fin (of_nat (length entries))) (f64_of_nat (length entries)) = Fin 1"
    using ne by (simp add: f64_of_nat_exact [OF assms(2)] round64_one)
  moreover have "flt_less (round64 (1 / 10)) (Fin (of_nat (length ?rec)))"
    using tenth_small assms(3) by (cases "round64 (1 / 10)") (auto simp: flt_less_def)
  ultimately show ?thesis
    using ne assms(3) by (simp add: is_spike_def total recent round64_one flt_less_def Let_def)
qed

definition dollar :: "string \<Rightarrow> cost_entry" where
  "dollar t = \<lparr> ce_timestamp = t, ce_model = ''gpt-4'', ce_input_tokens = 0, ce_output_tokens = 0, ce_estimated_cost_usd = Fin 1 \<rparr>"

text \<open>One dollar every quarter of an hour for two hours.\<close>

theorem steady_spend_is_a_spike_witness:
  "is_spike (\<lambda>t. map_option (\<lambda>n. int n * 900000000000) (digits_val 0 t)) (map (\<lambda>n. dollar (show_nat n)) [0..<9]) (8 * 900000)"
proof (rule steady_spend_is_a_spike)
  show "3 < length (filter (is_recent (\<lambda>t. map_option (\<lambda>n. int n * 900000000000) (digits_val 0 t)) (8 * 900000)) (map (\<lambda>n. dollar (show_nat n)) [0..<9]))"
    by code_simp
qed (simp_all add: dollar_def list_all_iff)

end
