(* ===== verification/Daemon.thy ===== *)
theory Daemon
  imports CostMonitor Kernel AuditLog Proxy
begin

text \<open>
  The daemon (\<open>secureops-daemon\<close>): start-up behind the kill switch, the consumer of the alert bus, the chain agent
  (\<open>bpf_wire.rs\<close>), the egress proxy task, and the shutdown that waits for every task; and the monitor command of the CLI, which
  wires the same monitors.

  The tasks are concurrent. The consumer is a machine that takes turns with the publishers in any order; the shutdown is a step relation
  that removes a task when what it waits for has happened; the audit log file has two writers, the daemon and \<open>export-incident\<close>.
\<close>

subsection \<open>Audit log and start-up\<close>

record daemon_lib =
  dl_sha :: "string \<Rightarrow> string"
  dl_canon :: "json \<Rightarrow> string"
  dl_ser :: entry_printer
  dl_deser :: "string \<Rightarrow> log_entry option"

definition audit_path :: string where
  "audit_path = ''audit.jsonl''"

text \<open>The directory is made first; \<open>open_ok\<close> is whether an existing file can be opened.\<close>

definition open_audit_log :: "daemon_lib \<Rightarrow> (io_error + unit) \<Rightarrow> bool \<Rightarrow> string option \<Rightarrow> signer \<Rightarrow> string + audit_log" where
  "open_audit_log dl mkdir open_ok content sg = (case mkdir of
     Inl e \<Rightarrow> Err (io_text e)
   | Inr _ \<Rightarrow> (case open_log (dl_sha dl) (dl_canon dl) (dl_deser dl) audit_path open_ok content sg of
       Inl _ \<Rightarrow> Err ''audit log'' | Inr lg \<Rightarrow> Ok lg))"

text \<open>A failed append is only printed.\<close>

definition append_audit ::
  "daemon_lib \<Rightarrow> append_io \<Rightarrow> json \<Rightarrow> string \<Rightarrow> audit_log \<times> string option \<Rightarrow> audit_log \<times> string option" where
  "append_audit dl io payload now st = snd (log_append (dl_sha dl) (dl_canon dl) (dl_ser dl) io payload now st)"

definition severity_text :: "severity \<Rightarrow> string" where
  "severity_text s = (case s of Critical \<Rightarrow> ''Critical'' | High \<Rightarrow> ''High'' | Medium \<Rightarrow> ''Medium'' | Low \<Rightarrow> ''Low'' | Info \<Rightarrow> ''Info'')"

definition alert_payload :: "monitor_alert \<Rightarrow> json" where
  "alert_payload a = JObj [(''details'', json_opt JStr (ma_details a)), (''event'', JStr ''monitor_alert''), (''message'', JStr (ma_message a)),
     (''monitor'', JStr (ma_monitor a)), (''severity'', JStr (severity_text (ma_severity a))), (''timestamp'', JStr (ma_timestamp a))]"

text \<open>The allowlist the proxy is started with, if it is started.\<close>

definition egress_hosts :: "openclaw_config \<Rightarrow> string list option" where
  "egress_hosts config =
    (case Option.bind (oc_secureops config) so_network of
       None \<Rightarrow> None
     | Some n \<Rightarrow> if nw_egress_allowlist_enabled n = Some True then Some (unwrap_or (nw_egress_allowlist n) []) else None)"

definition bpf_mode :: "string option \<Rightarrow> enforcement_mode" where
  "bpf_mode v = (if v = Some ''1'' then Enforce else Observe)"

datatype monitor_kind = CostM | CredentialM | MemoryM | SkillM

datatype daemon_task = MonitorTask monitor_kind | CircuitWatch | EgressTask "string list" | ChainAgent enforcement_mode

definition daemon_tasks :: "openclaw_config \<Rightarrow> string option \<Rightarrow> daemon_task list" where
  "daemon_tasks config enforce_var =
    map MonitorTask [CostM, CredentialM, MemoryM, SkillM] @ [CircuitWatch] @
    (case egress_hosts config of None \<Rightarrow> [] | Some hosts \<Rightarrow> [EgressTask hosts]) @ [ChainAgent (bpf_mode enforce_var)]"

datatype daemon_outcome = StartFailed string | Refused | Started "daemon_task list"

definition start_payload :: "string \<Rightarrow> string \<Rightarrow> json" where
  "start_payload sd version = JObj [(''event'', JStr ''daemon_start''), (''stateDir'', JStr sd), (''version'', JStr version)]"

definition refused_payload :: json where
  "refused_payload = JObj [(''action'', JStr ''daemon_refused_start''), (''event'', JStr ''killswitch_active'')]"

text \<open>
  \<open>main\<close> up to the point where it waits for a signal. The log is opened and written before the kill switch is read.
\<close>

definition daemon_start ::
  "daemon_lib \<Rightarrow> (io_error + unit) \<Rightarrow> bool \<Rightarrow> append_io \<times> append_io \<Rightarrow> string option \<Rightarrow> signer \<Rightarrow> bool \<Rightarrow> openclaw_config \<Rightarrow> string option \<Rightarrow>
    string \<times> string \<times> string \<Rightarrow> daemon_outcome \<times> (audit_log \<times> string option) option" where
  "daemon_start dl mkdir open_ok ios content sg kill config enforce_var env = (case env of (sd, version, now) \<Rightarrow>
     (case open_audit_log dl mkdir open_ok content sg of
        Inl e \<Rightarrow> (StartFailed e, None)
      | Inr lg \<Rightarrow>
          let st = append_audit dl (fst ios) (start_payload sd version) now (lg, content)
          in if kill then (Refused, Some (append_audit dl (snd ios) refused_payload now st))
             else (Started (daemon_tasks config enforce_var), Some st)))"

subsection \<open>Monitors the daemon and the CLI build\<close>

definition daemon_cost_monitor :: "path \<Rightarrow> openclaw_config \<Rightarrow> cost_monitor" where
  "daemon_cost_monitor sd config = cost_with_state_dir sd (cost_monitor_new circuit_channel)"

definition cli_limits :: "openclaw_config \<Rightarrow> limits" where
  "cli_limits config = (case Option.bind (oc_secureops config) so_cost of
     None \<Rightarrow> limits_default
   | Some c \<Rightarrow> \<lparr> lm_hourly_usd = unwrap_or (cl_hourly_limit_usd c) (Fin 2), lm_daily_usd = unwrap_or (cl_daily_limit_usd c) (Fin 10),
       lm_monthly_usd = unwrap_or (cl_monthly_limit_usd c) (Fin 100),
       lm_circuit_breaker_enabled = unwrap_or (cl_circuit_breaker_enabled c) True \<rparr>)"

definition cli_cost_monitor :: "path \<Rightarrow> openclaw_config \<Rightarrow> cost_monitor" where
  "cli_cost_monitor sd config = cost_with_limits (cli_limits config) (cost_with_state_dir sd (cost_monitor_new circuit_channel))"

subsection \<open>The consumer of the alert bus\<close>

text \<open>
  One turn of the \<open>while let Ok(a) = rx.recv().await\<close> loop: an alert is appended to the log, and any error ends the task; a lag is
  an error.
\<close>

definition consumer_turn :: "alert_bus \<Rightarrow> monitor_alert drain \<Rightarrow> monitor_alert drain" where
  "consumer_turn b d =
    (if \<not> dn_running d then d
     else case recv b (dn_pos d) of
       (Received a, p) \<Rightarrow> d\<lparr> dn_pos := p, dn_rows := dn_rows d @ [a] \<rparr>
     | (Lagged _, p) \<Rightarrow> d\<lparr> dn_pos := p, dn_running := False \<rparr>
     | (WouldWait, p) \<Rightarrow> d)"

datatype bus_event = Publish monitor_alert | Turn

text \<open>The receiver goes away with its task.\<close>

definition bus_step :: "alert_bus \<times> monitor_alert drain \<Rightarrow> bus_event \<Rightarrow> alert_bus \<times> monitor_alert drain" where
  "bus_step st e = (case st of (b, d) \<Rightarrow> (case e of Publish a \<Rightarrow> (snd (publish a b), d) | Turn \<Rightarrow>
     let d' = consumer_turn b d
     in (if dn_running d \<and> \<not> dn_running d' then b\<lparr> ab_receivers := ab_receivers b - 1 \<rparr> else b, d')))"

definition consumer_start :: "alert_bus \<Rightarrow> alert_bus \<times> monitor_alert drain" where
  "consumer_start b = (case subscribe b of (p, b') \<Rightarrow> (b', \<lparr> dn_pos = p, dn_rows = [], dn_running = True \<rparr>))"

text \<open>What the log holds after the consumer has run.\<close>

definition logged :: "daemon_lib \<Rightarrow> string \<Rightarrow> monitor_alert list \<Rightarrow> audit_log \<times> string option \<Rightarrow> audit_log \<times> string option" where
  "logged dl now alerts st = foldl (\<lambda>st a. append_audit dl IoOk (alert_payload a) now st) st alerts"

subsection \<open>The chain agent\<close>

datatype agent_event = AgentCancel | AgentRecv sys_event u64 string | SourceClosed

fun run_chain_agent ::
  "(string \<Rightarrow> string) \<Rightarrow> agent_event list \<Rightarrow> chain_correlator \<times> monitor_alert list \<times> circuit_state \<Rightarrow>
    chain_correlator \<times> monitor_alert list \<times> circuit_state" where
  "run_chain_agent dbg [] st = st"
| "run_chain_agent dbg (AgentCancel # evs) st = st"
| "run_chain_agent dbg (SourceClosed # evs) st = st"
| "run_chain_agent dbg (AgentRecv ev now_ms now # evs) (c, alerts, circuit) =
    (case observe_at ev now_ms c of
       (None, c') \<Rightarrow> run_chain_agent dbg evs (c', alerts, circuit)
     | (Some chain, c') \<Rightarrow> run_chain_agent dbg evs (c', alerts @ [to_alert dbg now chain], Tripped))"

subsection \<open>Shutdown\<close>

text \<open>
  The state of the shutdown loop: the tasks not yet joined, the cancellation channel, whether the event source is closed and whether the
  proxy's listener has failed.
\<close>

record shutdown_state =
  sd_tasks :: "daemon_task list"
  sd_cancel :: cancel_channel
  sd_source_closed :: bool
  sd_listener_failed :: bool

text \<open>The tasks that hold a sender of the circuit channel.\<close>

definition holds_circuit :: "daemon_task \<Rightarrow> bool" where
  "holds_circuit t = (case t of MonitorTask k \<Rightarrow> k = CostM | ChainAgent _ \<Rightarrow> True | _ \<Rightarrow> False)"

definition may_end :: "shutdown_state \<Rightarrow> daemon_task \<Rightarrow> bool" where
  "may_end s t = (case t of
     MonitorTask _ \<Rightarrow> cancelled_resolves (sd_cancel s)
   | CircuitWatch \<Rightarrow> \<not> list_ex holds_circuit (sd_tasks s)
   | EgressTask _ \<Rightarrow> sd_listener_failed s
   | ChainAgent _ \<Rightarrow> cancelled_resolves (sd_cancel s) \<or> sd_source_closed s)"

inductive shutdown_step :: "shutdown_state \<Rightarrow> shutdown_state \<Rightarrow> bool" where
  task_ends: "t \<in> set (sd_tasks s) \<Longrightarrow> may_end s t \<Longrightarrow> shutdown_step s (s\<lparr> sd_tasks := remove1 t (sd_tasks s) \<rparr>)"

inductive_cases shutdown_stepE: "shutdown_step s s'"

definition cancel_all :: "shutdown_state \<Rightarrow> shutdown_state" where
  "cancel_all s = s\<lparr> sd_cancel := cancel (sd_cancel s) \<rparr>"

definition running :: "openclaw_config \<Rightarrow> string option \<Rightarrow> bool \<Rightarrow> shutdown_state" where
  "running config enforce_var source_closed = \<lparr> sd_tasks = daemon_tasks config enforce_var, sd_cancel = cancel_channel_new,
     sd_source_closed = source_closed, sd_listener_failed = False \<rparr>"

subsection \<open>Shutdown waits for the proxy\<close>

definition stuck :: "shutdown_state \<Rightarrow> bool" where
  "stuck s \<longleftrightarrow> \<not> list_ex (may_end s) (sd_tasks s)"

definition stopping :: "shutdown_state \<Rightarrow> bool" where
  "stopping s \<longleftrightarrow> cc_value (sd_cancel s) \<and> \<not> sd_listener_failed s"

lemma stopping_step:
  assumes "shutdown_step s s'" "stopping s"
  shows "stopping s' \<and> set (sd_tasks s') \<subseteq> set (sd_tasks s) \<and> (EgressTask h \<in> set (sd_tasks s') \<longleftrightarrow> EgressTask h \<in> set (sd_tasks s))"
proof -
  obtain t where t: "s' = s\<lparr> sd_tasks := remove1 t (sd_tasks s) \<rparr>" "may_end s t" using assms(1) by (auto elim: shutdown_stepE)
  then have "t \<noteq> EgressTask h" using assms(2) by (auto simp: may_end_def stopping_def)
  then show ?thesis using t(1) assms(2) set_remove1_subset [of t "sd_tasks s"] by (auto simp: stopping_def in_set_remove1)
qed

lemma stopping_steps: "shutdown_step\<^sup>*\<^sup>* s s' \<Longrightarrow> stopping s \<Longrightarrow> stopping s' \<and> set (sd_tasks s') \<subseteq> set (sd_tasks s) \<and>
    (EgressTask h \<in> set (sd_tasks s') \<longleftrightarrow> EgressTask h \<in> set (sd_tasks s))"
  by (induction rule: rtranclp_induct) (use stopping_step in blast)+

lemma reaches_stuck: "\<exists>s'. shutdown_step\<^sup>*\<^sup>* s s' \<and> stuck s'"
proof (induction "length (sd_tasks s)" arbitrary: s rule: less_induct)
  case less
  show ?case
  proof (cases "stuck s")
    case False
    then obtain t where t: "t \<in> set (sd_tasks s)" "may_end s t" by (auto simp: stuck_def list_ex_iff)
    let ?s = "s\<lparr> sd_tasks := remove1 t (sd_tasks s) \<rparr>"
    have "length (sd_tasks ?s) < length (sd_tasks s)" using t(1) length_pos_if_in_set [OF t(1)] by (simp add: length_remove1)
    from less [OF this] show ?thesis using shutdown_step.intros [OF t] by (meson converse_rtranclp_into_rtranclp)
  qed blast
qed

lemma stuck_only_egress:
  assumes "stopping s" "stuck s" "t \<in> set (sd_tasks s)" shows "\<exists>h. t = EgressTask h"
proof -
  have no: "\<not> may_end s u" if "u \<in> set (sd_tasks s)" for u using assms(2) that by (auto simp: stuck_def list_ex_iff)
  have "cancelled_resolves (sd_cancel s)" using assms(1) by (simp add: stopping_def cancelled_resolves_def)
  then have ends: "may_end s (MonitorTask k)" "may_end s (ChainAgent m)" for k m by (simp_all add: may_end_def)
  have "\<not> list_ex holds_circuit (sd_tasks s)"
    using no ends by (auto simp: list_ex_iff holds_circuit_def split: daemon_task.splits)
  then have "may_end s CircuitWatch" by (simp add: may_end_def)
  then show ?thesis using no [OF assms(3)] ends by (cases t) auto
qed

lemma stopping_started: "stopping (cancel_all (running config v src))"
  by (simp add: stopping_def cancel_all_def running_def cancel_def cancel_channel_new_def)

lemma egress_started: "EgressTask h \<in> set (sd_tasks (cancel_all (running config v src))) \<longleftrightarrow> egress_hosts config = Some h"
  by (auto simp: cancel_all_def running_def daemon_tasks_def split: option.split)


subsection \<open>The consumer stops at the first lag\<close>

fun published :: "bus_event list \<Rightarrow> monitor_alert list" where
  "published [] = []"
| "published (Publish a # evs) = a # published evs"
| "published (Turn # evs) = published evs"

lemma published_append [simp]: "published (es @ fs) = published es @ published fs"
  by (induction es rule: published.induct) simp_all

definition fresh_bus :: alert_bus where
  "fresh_bus = \<lparr> ab_sent = [], ab_capacity = 1024, ab_receivers = 0 \<rparr>"

definition bus_run :: "bus_event list \<Rightarrow> alert_bus \<times> monitor_alert drain" where
  "bus_run evs = foldl bus_step (consumer_start fresh_bus) evs"

definition bus_inv :: "bus_event list \<Rightarrow> alert_bus \<times> monitor_alert drain \<Rightarrow> bool" where
  "bus_inv evs st = (case st of (b, d) \<Rightarrow> ab_capacity b = 1024 \<and> prefix (dn_rows d) (published evs) \<and>
     (dn_running d \<longrightarrow> 0 < ab_receivers b \<and> ab_sent b = published evs \<and> dn_pos d \<le> length (ab_sent b) \<and> dn_rows d = take (dn_pos d) (published evs)))"

lemma bus_inv_step: "bus_inv evs st \<Longrightarrow> bus_inv (evs @ [e]) (bus_step st e)"
  by (cases e; cases st)
    (auto simp: bus_inv_def bus_step_def publish_def consumer_turn_def recv_def Let_def take_Suc_conv_app_nth [symmetric] take_is_prefix prefix_append
      split: if_splits)

lemma bus_inv_run: "bus_inv evs (bus_run evs)"
proof (induction evs rule: rev_induct)
  case Nil
  show ?case by (simp add: bus_inv_def bus_run_def consumer_start_def subscribe_def fresh_bus_def)
next
  case (snoc e evs)
  then show ?case using bus_inv_step by (simp add: bus_run_def)
qed

lemma stopped_stays: "\<not> dn_running (snd st) \<Longrightarrow> snd (foldl bus_step st evs) = snd st"
proof (induction evs arbitrary: st)
  case (Cons e evs)
  have "snd (bus_step st e) = snd st" using Cons.prems by (cases e; cases st) (simp_all add: bus_step_def consumer_turn_def)
  then show ?case using Cons by simp
qed simp

lemma publishing_keeps: "snd (foldl bus_step st (map Publish as)) = snd st"
  by (induction as arbitrary: st) (simp_all add: bus_step_def case_prod_beta)

lemma overrun_stops:
  assumes "1024 < length as" shows "\<not> dn_running (snd (bus_run (evs @ map Publish as @ [Turn])))"
proof -
  obtain b d where st: "bus_run (evs @ map Publish as) = (b, d)" by fastforce
  have d: "d = snd (bus_run evs)" using st publishing_keeps [of "bus_run evs" as] by (simp add: bus_run_def)
  have pub: "published (map Publish as) = as" by (induction as) simp_all
  have inv: "bus_inv (evs @ map Publish as) (b, d)" "bus_inv evs (bus_run evs)" using bus_inv_run st by metis+
  have "ab_capacity b < length (ab_sent b) - dn_pos d" if "dn_running d"
    using inv that assms d by (auto simp: bus_inv_def pub case_prod_beta)
  then show ?thesis using st by (auto simp: bus_run_def bus_step_def consumer_turn_def recv_def Let_def)
qed


subsection \<open>Two writers of one log\<close>

lemma append_ok_effect:
  assumes "log_append sha canon ser IoOk p t (lg, fl) = (Ok e, lg', fl')" "al_persist_path lg = Some path"
    and "entry_codec ser deser e" "unwrap_or fl [] = print_entries ser es"
  shows "le_prev_hash e = al_prev_hash lg" "recompute_hash_matches sha canon e" "fl' = Some (print_entries ser (es @ [e]))"
proof -
  obtain sig where sig: "sg_sign (al_signer lg) (chain_hash sha canon (al_prev_hash lg) p) = Ok sig"
    using assms(1) by (cases "sg_sign (al_signer lg) (chain_hash sha canon (al_prev_hash lg) p)") (auto simp: log_append_def)
  let ?e = "next_entry sha canon lg p t sig"
  have res: "fst (persist ser IoOk ?e fl) = Ok e" "fl' = snd (persist ser IoOk ?e fl)"
    using assms(1,2) log_append_signed [OF sig, of ser IoOk t fl] by (auto simp: Let_def)
  then have e: "e = ?e" by (auto simp: persist_def Let_def split: sum.splits)
  show "le_prev_hash e = al_prev_hash lg" "recompute_hash_matches sha canon e"
    by (simp_all add: e next_entry_def recompute_hash_matches_def)
  show "fl' = Some (print_entries ser (es @ [e]))" using persist_IoOk [OF assms(3,4)] res e by simp
qed


definition demo_daemon_entry :: "string \<Rightarrow> string \<Rightarrow> log_entry" where
  "demo_daemon_entry payload t = next_entry demo_sha demo_canon (log_new (in_memory_signer demo_key)) (JStr payload) t (to_hex (replicate 64 (CHR ''s'')))"

definition demo_dl :: daemon_lib where
  "demo_dl = \<lparr> dl_sha = demo_sha, dl_canon = demo_canon, dl_ser = (\<lambda>e. Ok (demo_canon (le_payload e))),
     dl_deser = map_of [(''a'', demo_daemon_entry ''a'' ''t1''), (''b'', demo_daemon_entry ''b'' ''t2'')] \<rparr>"

definition demo_open :: audit_log where
  "demo_open = (log_new (in_memory_signer demo_key))\<lparr> al_persist_path := Some audit_path \<rparr>"


end
