(* ===== verification/Plugin.thy ===== *)
theory Plugin
  imports Rollback HostAudit CostMonitor
begin

text \<open>
  The plugin surface (\<open>secureops-napi/src/plugin.rs\<close>, \<open>lib.rs\<close>): the gateway hooks, the command dispatcher and the tools an agent can call, as programs of
  the file system monad over the engines of the other theories. JSON values are built as the code builds them; their printing is serde's.

  The lemmas show that no sequence of tool calls lifts the kill switch: of all commands only \<open>resume\<close> does, and it is not a tool.
\<close>

text \<open>The outside of the dispatcher: the environment of the file system, the audit host, the libraries and the clock.\<close>

record plugin_env =
  pe_ev :: fs_env
  pe_audit :: audit_host
  pe_host :: "fsys \<Rightarrow> host"
  pe_harden :: harden_lib
  pe_cost :: cost_env
  pe_pretty_kill :: "kill_switch_record \<Rightarrow> io_error + string"
  pe_now_ms :: int

datatype plugin_reply =
    Reply json
  | AuditReply audit_report
  | ScanReply skill_scan_result
  | CostReply cost_report

definition plugin_dir :: "plugin_env \<Rightarrow> string" where
  "plugin_dir pe = resolve_state_dir (ah_target (pe_audit pe))"

text \<open>The audit reads the files as they are; \<open>State_Monad.get\<close> is that snapshot.\<close>

definition audit_now :: "plugin_env \<Rightarrow> audit_options \<Rightarrow> audit_report fsm" where
  "audit_now pe opts = do { s \<leftarrow> State_Monad.get; State_Monad.return (run_audit_report (pe_audit pe) (pe_host pe s) (plugin_dir pe) opts) }"

definition audit_to_json :: "plugin_env \<Rightarrow> bool \<Rightarrow> bool \<Rightarrow> plugin_reply fsm" where
  "audit_to_json pe deep fix = do { r \<leftarrow> audit_now pe \<lparr> ao_deep = deep, ao_fix = fix, ao_json = True \<rparr>; State_Monad.return (AuditReply r) }"

definition default_opts :: audit_options where
  "default_opts = \<lparr> ao_deep = False, ao_fix = False, ao_json = False \<rparr>"

definition has_flag :: "string list \<Rightarrow> string \<Rightarrow> bool" where
  "has_flag args flag = list_ex (\<lambda>a. a = flag) args"

definition positional :: "string list \<Rightarrow> string option" where
  "positional args = find (\<lambda>a. \<not> starts_with a ''--'') args"

definition error_reply :: "string \<Rightarrow> plugin_reply" where
  "error_reply e = Reply (JObj [(''error'', JStr e)])"

definition cmd_status :: "plugin_env \<Rightarrow> plugin_reply fsm" where
  "cmd_status pe = do {
     r \<leftarrow> audit_now pe default_opts;
     State_Monad.return (Reply (JObj [(''findings'', JInt (int (length (r_findings r)))), (''score'', JInt (int (r_score r)))]))
   }"

definition ctx_for :: "plugin_env \<Rightarrow> fsys \<Rightarrow> audit_context" where
  "ctx_for pe s = for_host (ah_target (pe_audit pe)) (pe_host pe s) (plugin_dir pe)
     (host_load_config (ah_parse (pe_audit pe)) (pe_host pe s) (plugin_dir pe)) ''native'' ''unknown''"

definition result_json :: "hardening_result \<Rightarrow> json" where
  "result_json r = JObj [(''applied'', JInt (int (length (hr_applied r)))), (''errors'', JInt (int (length (hr_errors r)))), (''module'', JStr (hr_module r))]"

definition cmd_harden :: "plugin_env \<Rightarrow> string list \<Rightarrow> plugin_reply fsm" where
  "cmd_harden pe args =
    (if has_flag args ''--rollback'' then do {
       r \<leftarrow> rollback (pe_ev pe) (plugin_dir pe) (positional args);
       State_Monad.return (case r of Inl e \<Rightarrow> error_reply e | Inr _ \<Rightarrow> Reply (JObj [(''rolledBack'', JBool True)]))
     } else do {
       s \<leftarrow> State_Monad.get;
       r \<leftarrow> harden (pe_ev pe) (pe_harden pe) (bundled_db (pe_audit pe)) (ctx_for pe s) (ah_now (pe_audit pe));
       State_Monad.return (case r of Inl e \<Rightarrow> error_reply e
         | Inr out \<Rightarrow> Reply (JObj [(''backupDir'', JStr (show_path (ho_backup_dir out))), (''results'', JArr (map result_json (ho_results out)))]))
     })"

definition cmd_kill :: "plugin_env \<Rightarrow> string list \<Rightarrow> plugin_reply fsm" where
  "cmd_kill pe args =
    (let reason = unwrap_or (positional args) ''Manual activation''
     in do {
       r \<leftarrow> activate_kill_switch (pe_ev pe) (pe_pretty_kill pe) (path_of (plugin_dir pe)) (Some reason) (ah_now (pe_audit pe));
       State_Monad.return (case r of Inl e \<Rightarrow> error_reply (io_text e)
         | Inr _ \<Rightarrow> Reply (JObj [(''killSwitch'', JStr ''activated''), (''reason'', JStr reason)]))
     })"

definition cmd_resume :: "plugin_env \<Rightarrow> plugin_reply fsm" where
  "cmd_resume pe = do {
     r \<leftarrow> deactivate_kill_switch (pe_ev pe) (path_of (plugin_dir pe));
     State_Monad.return (case r of Inl e \<Rightarrow> error_reply (io_text e) | Inr _ \<Rightarrow> Reply (JObj [(''killSwitch'', JStr ''deactivated'')]))
   }"

text \<open>\<open>str::parse::<i64>\<close>.\<close>

definition parse_i64 :: "string \<Rightarrow> int option" where
  "parse_i64 s =
    (let (neg, ds) = (case s of c # r \<Rightarrow> if c = CHR ''-'' then (True, r) else if c = CHR ''+'' then (False, r) else (False, s) | [] \<Rightarrow> (False, []))
     in if ds = [] then None
        else case digits_val 0 ds of None \<Rightarrow> None
          | Some n \<Rightarrow> (let z = if neg then - int n else int n in if - (2 ^ 63) \<le> z \<and> z < 2 ^ 63 then Some z else None))"

definition cmd_baseline :: "plugin_env \<Rightarrow> string list \<Rightarrow> plugin_reply fsm" where
  "cmd_baseline pe args =
    (let window = unwrap_or (Option.bind (positional args) parse_i64) 60
     in do {
       st \<leftarrow> get_behavioral_baseline (pe_ev pe) (cv_from_str (pe_cost pe)) (cv_rfc3339 (pe_cost pe)) (path_of (plugin_dir pe)) window (pe_now_ms pe);
       State_Monad.return (Reply (JObj [(''toolFrequency'', JObj (map (\<lambda>(k, v). (k, JInt (uint v))) (bs_tool_frequency st))),
         (''totalCalls'', JInt (uint (bs_total_calls st))), (''uniqueTools'', JInt (int (bs_unique_tools st))), (''windowMinutes'', JInt window)]))
     })"

definition cmd_scan_skill :: "plugin_env \<Rightarrow> string list \<Rightarrow> plugin_reply fsm" where
  "cmd_scan_skill pe args = (case positional args of
     None \<Rightarrow> State_Monad.return (error_reply ''usage: scan-skill <name>'')
   | Some name \<Rightarrow> do {
       skills \<leftarrow> scan_skills_dir (pe_ev pe) (path_of (plugin_dir pe));
       State_Monad.return (case find (\<lambda>s. fst s = name) skills of
         None \<Rightarrow> error_reply (''skill '' @ [CHR 0x27] @ name @ [CHR 0x27] @ '' not found'')
       | Some s \<Rightarrow> ScanReply (scan_skill_content (ah_lib (pe_audit pe)) (fst s) (snd s) (Some (bundled_db (pe_audit pe)))))
     })"

definition cmd_cost_report :: "plugin_env \<Rightarrow> plugin_reply fsm" where
  "cmd_cost_report pe = do {
     entries \<leftarrow> scan_state_dir (pe_ev pe) (cv_from_str (pe_cost pe)) (path_of (plugin_dir pe)) (ah_now (pe_audit pe));
     State_Monad.return (CostReply (generate_cost_report (cv_rfc3339 (pe_cost pe)) entries (pe_now_ms pe) False))
   }"

definition SCRIPT_COMMANDS :: "string list" where
  "SCRIPT_COMMANDS = [''skill-install'', ''skill-audit'', ''skill-update'', ''skill-uninstall'']"

definition dispatch_command :: "plugin_env \<Rightarrow> string \<Rightarrow> string list \<Rightarrow> plugin_reply fsm" where
  "dispatch_command pe cmd args =
    (if cmd = ''audit'' then audit_to_json pe (has_flag args ''--deep'') (has_flag args ''--fix'')
     else if cmd = ''status'' then cmd_status pe
     else if cmd = ''harden'' then cmd_harden pe args
     else if cmd = ''kill'' then cmd_kill pe args
     else if cmd = ''resume'' then cmd_resume pe
     else if cmd = ''baseline'' then cmd_baseline pe args
     else if cmd = ''scan-skill'' then cmd_scan_skill pe args
     else if cmd = ''cost-report'' then cmd_cost_report pe
     else if list_ex (\<lambda>c. c = cmd) SCRIPT_COMMANDS
     then State_Monad.return (Reply (JObj [(''skip'', JStr ([CHR 0x60] @ cmd @ [CHR 0x60] @ '' is shell-script managed (skill/scripts/*.sh)''))]))
     else State_Monad.return (error_reply (''unknown command: '' @ cmd)))"

definition tool_commands :: "(string \<times> string) list" where
  "tool_commands = [(''security_audit'', ''audit''), (''security_status'', ''status''), (''skill_scan'', ''scan-skill''),
     (''cost_report'', ''cost-report''), (''kill_switch'', ''kill''), (''behavioral_baseline'', ''baseline'')]"

definition call_tool :: "plugin_env \<Rightarrow> string \<Rightarrow> string list \<Rightarrow> plugin_reply fsm" where
  "call_tool pe tool args = (case map_of tool_commands tool of
     None \<Rightarrow> State_Monad.return (error_reply (''unknown tool: '' @ tool))
   | Some cmd \<Rightarrow> dispatch_command pe cmd args)"

definition plugin_manifest :: json where
  "plugin_manifest = JObj [
     (''commands'', JArr (map JStr [''audit'', ''harden'', ''status'', ''scan-skill'', ''cost-report'', ''kill'', ''resume'', ''baseline'',
        ''skill-install'', ''skill-audit'', ''skill-update'', ''skill-uninstall''])),
     (''description'', JStr ''Automated security hardening for OpenClaw''), (''name'', JStr ''secureops''),
     (''tools'', JArr (map JStr [''security_audit'', ''security_status'', ''skill_scan'', ''cost_report'', ''kill_switch'', ''behavioral_baseline''])),
     (''version'', JStr SECUREOPS_VERSION)]"

definition on_gateway_start :: "plugin_env \<Rightarrow> plugin_reply fsm" where
  "on_gateway_start pe = do {
     kill \<leftarrow> is_kill_switch_active (pe_ev pe) (path_of (plugin_dir pe));
     if kill then State_Monad.return (Reply (JObj [(''killSwitchActive'', JBool True),
       (''reason'', JStr ''KILL SWITCH ACTIVE - all operations suspended''), (''started'', JBool False)]))
     else do {
       r \<leftarrow> audit_now pe default_opts;
       m \<leftarrow> fs_metadata (pe_ev pe) (path_of (plugin_dir pe) @ [''skills'', ''secureops'', ''SKILL.md'']);
       State_Monad.return (Reply (JObj [(''critical'', JInt (int (s_critical (r_summary r)))), (''killSwitchActive'', JBool False),
         (''score'', JInt (int (r_score r))), (''skillDetected'', JBool (is_ok m)), (''started'', JBool True), (''version'', JStr SECUREOPS_VERSION)]))
     }
   }"

definition on_gateway_stop :: json where
  "on_gateway_stop = JObj [(''message'', JStr ''Background monitors stopped.''), (''stopped'', JBool True)]"

definition ioc_db_info :: "audit_host \<Rightarrow> json" where
  "ioc_db_info ah = (let db = bundled_db ah in JObj [(''c2Ips'', JInt (int (length (db_c2_ips db)))), (''lastUpdated'', JStr (db_last_updated db)),
     (''maliciousDomains'', JInt (int (length (db_malicious_domains db)))),
     (''maliciousSkillHashes'', JInt (int (hm_len (db_malicious_skill_hashes db)))), (''version'', JStr (db_version db))])"

subsection \<open>Tool calls and the kill switch\<close>

text \<open>Only a removal can lift the switch: it is an invariant of every other operation.\<close>

interpretation killed: fs_inv "killed sd" "{}" for sd
  by unfold_locales (auto simp: untimed_def killed_def)

lemma keeps_get [keeps_rules]: "keeps P State_Monad.get"
  by (simp add: keeps_def State_Monad.get_def)

lemma killed_reads [keeps_rules]:
  "keeps (killed sd) (fs_is_dir ev p)" "keeps (killed sd) (fs_is_file ev p)"
  unfolding fs_is_dir_def fs_is_file_def by (intro keeps_rules keeps_io_op; simp add: killed.inv_untimed)+

lemma killed_scans [keeps_rules]:
  "keeps (killed sd) (scan_skills_dir ev d)" "keeps (killed sd) (scan_state_dir ev js d now)" "keeps (killed sd) (get_behavioral_baseline ev js rfc d w n)"
  "keeps (killed sd) (activate_kill_switch ev pretty d reason now)"
  unfolding scan_skills_dir_def scan_skill_dir_def read_skill_file_def scan_state_dir_def scan_agent_sessions_def scan_session_def
    get_behavioral_baseline_def activate_kill_switch_def
  by (intro keeps_rules killed.inv_reads killed.inv_create_dir_all killed.inv_write; simp)+

lemma killed_commands:
  "keeps (killed sd) (audit_to_json pe deep fix)" "keeps (killed sd) (cmd_status pe)" "keeps (killed sd) (cmd_scan_skill pe args)"
  "keeps (killed sd) (cmd_cost_report pe)" "keeps (killed sd) (cmd_kill pe args)" "keeps (killed sd) (cmd_baseline pe args)"
  unfolding audit_to_json_def cmd_status_def audit_now_def cmd_scan_skill_def cmd_cost_report_def cmd_kill_def cmd_baseline_def
  by (intro keeps_rules)+

lemma dispatch_simps:
  "dispatch_command pe ''audit'' args = audit_to_json pe (has_flag args ''--deep'') (has_flag args ''--fix'')"
  "dispatch_command pe ''status'' args = cmd_status pe" "dispatch_command pe ''kill'' args = cmd_kill pe args"
  "dispatch_command pe ''baseline'' args = cmd_baseline pe args" "dispatch_command pe ''scan-skill'' args = cmd_scan_skill pe args"
  "dispatch_command pe ''cost-report'' args = cmd_cost_report pe" "dispatch_command pe ''resume'' args = cmd_resume pe"
  by (simp_all add: dispatch_command_def)

lemma tool_keeps_killed: "keeps (killed sd) (call_tool pe tool args)"
proof (cases "map_of tool_commands tool")
  case None
  then show ?thesis by (simp add: call_tool_def keeps_return)
next
  case (Some cmd)
  then have "cmd \<in> snd ` set tool_commands" by (force dest: map_of_SomeD)
  then have "keeps (killed sd) (dispatch_command pe cmd args)"
    by (auto simp: tool_commands_def dispatch_simps killed_commands)
  then show ?thesis using Some by (simp add: call_tool_def)
qed

text \<open>
  C15: An agent cannot lift the kill switch: any sequence of tool calls, with any tool names and arguments and under any pattern of input/output failures,
  leaves an active kill switch of any state directory active. (The \<open>resume\<close> command does lift it, but no tool maps to it.)
\<close>

theorem tools_never_lift_kill_switch:
  "keeps (killed sd) (State_Monad.traverse_list (\<lambda>(tool, args). call_tool pe tool args) calls)"
  by (intro keeps_rules tool_keeps_killed)

end
