(* ===== verification/Ipc.thy ===== *)
theory Ipc
  imports Json Runtime Hex
begin

text \<open>
  The control socket (\<open>secureops-ipc\<close>): the wire enumerations, the peer credentials, the connection loop of \<open>serve\<close> and the client. serde is a
  parameter. A connection is the list of lines its client sends; the loop answers each line with one line.

  The lemmas show that a request and its response survive the trip over the socket, and that the loop serves every peer: the credentials
  are handed to the handler and never checked.
\<close>

datatype ipc_error = IpcIo string | IpcCodec string | IpcUnauthorized string | IpcUnsupportedPlatform

definition ipc_error_text :: "ipc_error \<Rightarrow> string" where
  "ipc_error_text e = (case e of
     IpcIo t \<Rightarrow> ''ipc transport i/o error: '' @ t
   | IpcCodec t \<Rightarrow> ''ipc codec error: '' @ t
   | IpcUnauthorized t \<Rightarrow> ''ipc peer authentication denied: '' @ t
   | IpcUnsupportedPlatform \<Rightarrow> ''ipc peer-cred not supported on this platform'')"

datatype ipc_request =
    ReqAudit bool bool bool
  | ReqStatus
  | ReqKill "string option"
  | ReqSubscribe
  | ReqAlerts "u32 option"
  | ReqReloadPolicy
  | ReqPing

datatype ipc_response = RespOk json | RespErr string | RespAlert monitor_alert

definition response_ok :: "('a \<Rightarrow> string + json) \<Rightarrow> 'a \<Rightarrow> ipc_error + ipc_response" where
  "response_ok to_value v = (case to_value v of Inl e \<Rightarrow> Err (IpcCodec e) | Inr j \<Rightarrow> Ok (RespOk j))"

definition response_err :: "string \<Rightarrow> ipc_response" where
  "response_err msg = RespErr msg"

record peer =
  pr_uid :: u32
  pr_pid :: "32 word"

definition is_authorized :: "peer \<Rightarrow> u32 \<Rightarrow> bool" where
  "is_authorized p allowed_uid \<longleftrightarrow> pr_uid p = allowed_uid"

text \<open>What the kernel reports: the user and, where available, the process.\<close>

definition peer_cred :: "(string + u32 \<times> (32 word) option) \<Rightarrow> string + peer" where
  "peer_cred ucred = (case ucred of Inl e \<Rightarrow> Err e | Inr (uid, pid) \<Rightarrow> Ok \<lparr> pr_uid = uid, pr_pid = unwrap_or pid (- 1) \<rparr>)"

record ipc_codec =
  ic_parse_request :: "string \<Rightarrow> string + ipc_request"
  ic_print_request :: "ipc_request \<Rightarrow> string + string"
  ic_parse_response :: "string \<Rightarrow> string + ipc_response"
  ic_print_response :: "ipc_response \<Rightarrow> string + string"

definition accepted_peer :: "(string + u32 \<times> (32 word) option) \<Rightarrow> peer" where
  "accepted_peer ucred = (case peer_cred ucred of Inl _ \<Rightarrow> \<lparr> pr_uid = - 1, pr_pid = - 1 \<rparr> | Inr p \<Rightarrow> p)"

definition answer :: "ipc_codec \<Rightarrow> (peer \<Rightarrow> ipc_request \<Rightarrow> ipc_response) \<Rightarrow> peer \<Rightarrow> string \<Rightarrow> ipc_response" where
  "answer ic handler p line = (case ic_parse_request ic line of Inl e \<Rightarrow> response_err e | Inr r \<Rightarrow> handler p r)"

definition response_line :: "ipc_codec \<Rightarrow> ipc_response \<Rightarrow> string" where
  "response_line ic resp = unwrap_or (ok (ic_print_response ic resp)) [] @ [newline]"

text \<open>\<open>next_line\<close> ends the loop at the first line that is not UTF-8.\<close>

definition serve_connection ::
  "ipc_codec \<Rightarrow> (peer \<Rightarrow> ipc_request \<Rightarrow> ipc_response) \<Rightarrow> (string + u32 \<times> (32 word) option) \<Rightarrow> string \<Rightarrow> string" where
  "serve_connection ic handler ucred input =
    concat (map (\<lambda>line. response_line ic (answer ic handler (accepted_peer ucred) line)) (takeWhile utf8_valid (lines input)))"

text \<open>
  The client: one line out, one line in. Only the first line of what the server sends is read; the reader and anything it has buffered are
  dropped with the call.
\<close>

definition reply_line :: "string \<Rightarrow> string" where
  "reply_line s = takeWhile (\<lambda>c. c \<noteq> newline) s"

definition client_request :: "ipc_codec \<Rightarrow> (string \<Rightarrow> string) \<Rightarrow> ipc_request \<Rightarrow> ipc_error + ipc_response" where
  "client_request ic server r = (case ic_print_request ic r of
     Inl e \<Rightarrow> Err (IpcCodec e)
   | Inr json \<Rightarrow>
       let line = reply_line (server (json @ [newline]))
       in if \<not> utf8_valid line then Err (IpcIo ''stream did not contain valid UTF-8'')
          else (case ic_parse_response ic (trim line) of Inl e \<Rightarrow> Err (IpcCodec e) | Inr resp \<Rightarrow> Ok resp))"

subsection \<open>A request and its response\<close>

text \<open>One line of JSON: no line break, nothing to trim, valid UTF-8.\<close>

definition wire_line :: "string \<Rightarrow> bool" where
  "wire_line l \<longleftrightarrow> newline \<notin> set l \<and> strip_cr l = l \<and> trim l = l \<and> utf8_valid l"

definition request_codec :: "ipc_codec \<Rightarrow> ipc_request \<Rightarrow> bool" where
  "request_codec ic r = (case ic_print_request ic r of Inl _ \<Rightarrow> False | Inr l \<Rightarrow> wire_line l \<and> l \<noteq> [] \<and> ic_parse_request ic l = Ok r)"

definition response_codec :: "ipc_codec \<Rightarrow> ipc_response \<Rightarrow> bool" where
  "response_codec ic r = (case ic_print_response ic r of Inl _ \<Rightarrow> False | Inr l \<Rightarrow> wire_line l \<and> ic_parse_response ic l = Ok r)"

lemma reply_line_app: "newline \<notin> set l \<Longrightarrow> reply_line (l @ newline # r) = l"
  by (simp add: reply_line_def takeWhile_append)

text \<open>
  A request over the control socket reaches the handler as sent and its response comes back as returned, for any peer: also one whose credentials
  could not be read, which is served as user \<open>u32::MAX\<close>. Nothing between the two calls \<open>is_authorized\<close>.
\<close>

theorem ipc_round_trip:
  assumes "request_codec ic r" "response_codec ic (handler (accepted_peer ucred) r)"
  shows "client_request ic (serve_connection ic handler ucred) r = Ok (handler (accepted_peer ucred) r)"
proof -
  obtain l where l: "ic_print_request ic r = Ok l" "wire_line l" "l \<noteq> []" "ic_parse_request ic l = Ok r"
    using assms(1) by (auto simp: request_codec_def split: sum.splits)
  obtain m where m: "ic_print_response ic (handler (accepted_peer ucred) r) = Ok m" "wire_line m"
      "ic_parse_response ic m = Ok (handler (accepted_peer ucred) r)"
    using assms(2) by (auto simp: response_codec_def split: sum.splits)
  have "lines (l @ [newline]) = [l]" using l(2,3) lines_Cons [of l "[]"] by (simp add: wire_line_def lines_def [of "[]"] split_char_def)
  then have "serve_connection ic handler ucred (l @ [newline]) = m @ [newline]"
    using l(2,4) m(1) by (simp add: serve_connection_def wire_line_def answer_def response_line_def)
  then show ?thesis using l(1) m(2,3) by (simp add: client_request_def reply_line_app wire_line_def)
qed

definition demo_codec :: ipc_codec where
  "demo_codec = \<lparr> ic_parse_request = (\<lambda>s. if s = ''ping'' then Ok ReqPing else Err ''bad''),
     ic_print_request = (\<lambda>r. if r = ReqPing then Ok ''ping'' else Err ''unsupported''),
     ic_parse_response = (\<lambda>s. if s = ''pong'' then Ok (RespOk (JStr ''pong'')) else Err ''bad''),
     ic_print_response = (\<lambda>r. if r = RespOk (JStr ''pong'') then Ok ''pong'' else Err ''unsupported'') \<rparr>"

theorem ipc_round_trip_witness:
  "client_request demo_codec (serve_connection demo_codec (\<lambda>p r. RespOk (JStr ''pong'')) (Inl ''ENOTCONN'')) ReqPing = Ok (RespOk (JStr ''pong''))"
proof (rule ipc_round_trip)
  have "wire_line l" if "list_all is_graphic l" for l using graphic_line [OF that] by (simp add: wire_line_def)
  then have "wire_line ''ping''" "wire_line ''pong''" by (simp_all add: graphic_char)
  then show "request_codec demo_codec ReqPing" "response_codec demo_codec (RespOk (JStr ''pong''))"
    by (simp_all add: request_codec_def response_codec_def demo_codec_def)
qed

end
