(* ===== verification/Cli.thy ===== *)
theory Cli
  imports Plugin Daemon Crypto "HOL-Library.Multiset"
begin

text \<open>
  The command line (\<open>secureops-cli/src/main.rs\<close>, \<open>console.rs\<close>): the starter configuration and \<open>init\<close>, the status and behavioural views, the kill command, the
  console report, and the signed incident export with its keychain signer.

  The lemmas show that the starter configuration changes nothing, that the console report lists every finding exactly once, most severe first,
  and that the manifest of an exported incident verifies and commits to the bundled files.
\<close>

subsection \<open>Configuration and init\<close>

definition secureops_none :: secureops_config where
  "secureops_none = \<lparr> so_monitors = None, so_cost = None, so_memory = None, so_skills = None, so_network = None, so_failure_mode = None,
     so_risk_profile = None, so_risk_profiles = None, so_behavioral = None \<rparr>"

definition starter_config :: openclaw_config where
  "starter_config = openclaw_default\<lparr> oc_secureops := Some (secureops_none\<lparr>
     so_monitors := Some \<lparr> mt_credentials = Some True, mt_memory = Some True, mt_skills = Some True, mt_cost = Some True \<rparr>,
     so_cost := Some \<lparr> cl_hourly_limit_usd = Some (Fin 2), cl_daily_limit_usd = Some (Fin 10), cl_monthly_limit_usd = Some (Fin 100),
       cl_circuit_breaker_enabled = Some True \<rparr>,
     so_network := Some \<lparr> nw_egress_allowlist_enabled = Some False, nw_egress_allowlist = Some [''api.anthropic.com'', ''api.openai.com''] \<rparr> \<rparr>) \<rparr>"

text \<open>An early return on an input/output error.\<close>

definition io_try :: "'a io \<Rightarrow> ('a \<Rightarrow> (string + 'b) fsm) \<Rightarrow> (string + 'b) fsm" where
  "io_try m f = do { r \<leftarrow> m; case r of Inl e \<Rightarrow> State_Monad.return (Err (io_text e)) | Inr x \<Rightarrow> f x }"

text \<open>\<open>keystore\<close> is the result of \<open>ensure_keystore\<close>; the configuration file is written only when there is none.\<close>

definition run_init :: "fs_env \<Rightarrow> (openclaw_config \<Rightarrow> string) \<Rightarrow> (string + string) \<Rightarrow> path \<Rightarrow> (string + bool) fsm" where
  "run_init ev to_pretty keystore sd = (case keystore of
     Inl e \<Rightarrow> State_Monad.return (Err e)
   | Inr _ \<Rightarrow> do {
       m \<leftarrow> fs_metadata ev (sd @ [''openclaw.json'']);
       if is_ok m then State_Monad.return (Ok False)
       else io_try (fs_write ev (sd @ [''openclaw.json'']) (to_pretty starter_config @ [newline])) (\<lambda>_. State_Monad.return (Ok True))
     })"

subsection \<open>Views and commands\<close>

definition on_text :: "bool option \<Rightarrow> string" where
  "on_text b = (if b = Some True then ''on'' else ''off'')"

definition monitor_view :: "openclaw_config \<Rightarrow> string list" where
  "monitor_view config = (let m = Option.bind (oc_secureops config) so_monitors
     in [on_text (Option.bind m mt_credentials), on_text (Option.bind m mt_memory), on_text (Option.bind m mt_skills), on_text (Option.bind m mt_cost)])"

record status_view =
  sv_kill :: bool
  sv_score :: nat
  sv_findings :: nat
  sv_monitors :: "string list"

definition run_status :: "plugin_env \<Rightarrow> status_view fsm" where
  "run_status pe = do {
     kill \<leftarrow> is_kill_switch_active (pe_ev pe) (path_of (plugin_dir pe));
     s \<leftarrow> State_Monad.get;
     r \<leftarrow> audit_now pe default_opts;
     State_Monad.return \<lparr> sv_kill = kill, sv_score = r_score r, sv_findings = length (r_findings r),
       sv_monitors = monitor_view (host_load_config (ah_parse (pe_audit pe)) (pe_host pe s) (plugin_dir pe)) \<rparr>
   }"

text \<open>The tools, most called first (the sort is stable).\<close>

definition by_calls :: "(string, u64) hmap \<Rightarrow> (string \<times> u64) list" where
  "by_calls freq = sort_key (\<lambda>tc. - uint (snd tc)) freq"

definition run_behavioral :: "plugin_env \<Rightarrow> int \<Rightarrow> (u64 \<times> nat \<times> (string \<times> u64) list) fsm" where
  "run_behavioral pe window = do {
     st \<leftarrow> get_behavioral_baseline (pe_ev pe) (cv_from_str (pe_cost pe)) (cv_rfc3339 (pe_cost pe)) (path_of (plugin_dir pe)) window (pe_now_ms pe);
     State_Monad.return (bs_total_calls st, bs_unique_tools st, by_calls (bs_tool_frequency st))
   }"

definition run_kill :: "plugin_env \<Rightarrow> string option \<Rightarrow> bool \<Rightarrow> (string + unit) fsm" where
  "run_kill pe reason deactivate =
    (if deactivate then io_try (deactivate_kill_switch (pe_ev pe) (path_of (plugin_dir pe))) (\<lambda>_. State_Monad.return (Ok ()))
     else io_try (activate_kill_switch (pe_ev pe) (pe_pretty_kill pe) (path_of (plugin_dir pe)) reason (ah_now (pe_audit pe))) (\<lambda>_. State_Monad.return (Ok ())))"

definition run_harden_cmd :: "plugin_env \<Rightarrow> string option \<Rightarrow> (string + harden_outcome option) fsm" where
  "run_harden_cmd pe rollback_id = (case rollback_id of
     Some ts \<Rightarrow> do {
       r \<leftarrow> rollback (pe_ev pe) (plugin_dir pe) (if ts = [] then None else Some ts);
       State_Monad.return (case r of Inl e \<Rightarrow> Err e | Inr _ \<Rightarrow> Ok None)
     }
   | None \<Rightarrow> do {
       s \<leftarrow> State_Monad.get;
       r \<leftarrow> harden (pe_ev pe) (pe_harden pe) (bundled_db (pe_audit pe)) (ctx_for pe s) (ah_now (pe_audit pe));
       State_Monad.return (case r of Inl e \<Rightarrow> Err e | Inr out \<Rightarrow> Ok (Some out))
     })"

subsection \<open>The console report\<close>

definition esc :: "string \<Rightarrow> string" where
  "esc code = [CHR 0x1B] @ ''['' @ code @ ''m''"

definition RESET :: string where "RESET = esc ''0''"
definition BOLD :: string where "BOLD = esc ''1''"
definition DIM :: string where "DIM = esc ''2''"
definition RED :: string where "RED = esc ''31''"
definition GREEN :: string where "GREEN = esc ''32''"
definition YELLOW :: string where "YELLOW = esc ''33''"
definition BLUE :: string where "BLUE = esc ''34''"
definition MAGENTA :: string where "MAGENTA = esc ''35''"
definition CYAN :: string where "CYAN = esc ''36''"
definition WHITE :: string where "WHITE = esc ''37''"
definition BG_RED :: string where "BG_RED = esc ''41''"
definition BG_GREEN :: string where "BG_GREEN = esc ''42''"

definition severity_color :: "severity \<Rightarrow> string" where
  "severity_color s = (case s of Critical \<Rightarrow> BG_RED @ WHITE @ BOLD | High \<Rightarrow> RED @ BOLD | Medium \<Rightarrow> YELLOW | Low \<Rightarrow> BLUE | Info \<Rightarrow> DIM)"

definition severity_icon :: "severity \<Rightarrow> string" where
  "severity_icon s = (case s of Critical \<Rightarrow> ''!!!'' | High \<Rightarrow> ''!!'' | Medium \<Rightarrow> ''!'' | Low \<Rightarrow> ''-'' | Info \<Rightarrow> ''i'')"

definition severity_label :: "severity \<Rightarrow> string" where
  "severity_label s = (case s of Critical \<Rightarrow> ''CRITICAL'' | High \<Rightarrow> ''HIGH'' | Medium \<Rightarrow> ''MEDIUM'' | Low \<Rightarrow> ''LOW'' | Info \<Rightarrow> ''INFO'')"

definition grade :: "nat \<Rightarrow> char \<times> string" where
  "grade score =
    (if 90 \<le> score then (CHR ''A'', BG_GREEN @ WHITE @ BOLD)
     else if 75 \<le> score then (CHR ''B'', GREEN @ BOLD)
     else if 60 \<le> score then (CHR ''C'', YELLOW @ BOLD)
     else if 40 \<le> score then (CHR ''D'', RED @ BOLD)
     else (CHR ''F'', BG_RED @ WHITE @ BOLD))"

definition format_finding :: "audit_finding \<Rightarrow> string" where
  "format_finding f = join [newline]
    ([''  '' @ severity_color (f_severity f) @ ''['' @ severity_icon (f_severity f) @ ''] '' @ severity_label (f_severity f) @ RESET @ '' '' @ BOLD @
        f_title f @ RESET @ (if f_auto_fixable f then '' '' @ GREEN @ ''[auto-fixable]'' @ RESET else []),
      ''      '' @ DIM @ ''ID: '' @ f_id f @ '' | Category: '' @ f_category f @ '' | OWASP: '' @ f_owasp_asi f @ RESET,
      ''      '' @ f_description f,
      ''      '' @ CYAN @ ''Evidence:'' @ RESET @ '' '' @ f_evidence f,
      ''      '' @ GREEN @ ''Fix:'' @ RESET @ '' '' @ f_remediation f] @
     (if f_references f = [] then [] else [''      '' @ DIM @ ''References: '' @ join '', '' (f_references f) @ RESET]))"

definition console_severities :: "severity list" where
  "console_severities = [Critical, High, Medium, Low, Info]"

definition group_lines :: "audit_finding list \<Rightarrow> severity \<Rightarrow> string list" where
  "group_lines findings sev =
    (let g = filter (\<lambda>f. f_severity f = sev) findings
     in if g = [] then []
        else [severity_color sev @ ''--- '' @ severity_label sev @ '' ('' @ show_nat (length g) @ '') ---'' @ RESET, []] @
          concat (map (\<lambda>f. [format_finding f, []]) g))"

definition format_console_report :: "audit_report \<Rightarrow> string" where
  "format_console_report r = (case grade (r_score r) of (letter, color) \<Rightarrow> join [newline]
    ([[], BOLD @ MAGENTA @ ''========================================'' @ RESET, BOLD @ MAGENTA @ ''  SecureOps Security Audit Report'' @ RESET,
      BOLD @ MAGENTA @ ''========================================'' @ RESET, [],
      ''  '' @ BOLD @ ''Score:'' @ RESET @ '' '' @ color @ '' '' @ show_nat (r_score r) @ ''/100 ('' @ [letter] @ '') '' @ RESET,
      ''  '' @ BOLD @ ''Time:'' @ RESET @ ''  '' @ r_timestamp r, ''  '' @ BOLD @ ''Platform:'' @ RESET @ '' '' @ r_platform r,
      ''  '' @ BOLD @ ''OpenClaw:'' @ RESET @ '' '' @ r_openclaw_version r, ''  '' @ BOLD @ ''Mode:'' @ RESET @ '' '' @ r_deployment_mode r, []] @
     concat (map (group_lines (r_findings r)) console_severities) @
     [BOLD @ MAGENTA @ ''--- Summary ---'' @ RESET, [],
      ''  '' @ BG_RED @ WHITE @ '' CRITICAL '' @ RESET @ '' '' @ show_nat (s_critical (r_summary r)),
      ''  '' @ RED @ BOLD @ '' HIGH     '' @ RESET @ '' '' @ show_nat (s_high (r_summary r)),
      ''  '' @ YELLOW @ '' MEDIUM   '' @ RESET @ '' '' @ show_nat (s_medium (r_summary r)),
      ''  '' @ BLUE @ '' LOW      '' @ RESET @ '' '' @ show_nat (s_low (r_summary r)),
      ''  '' @ DIM @ '' INFO     '' @ RESET @ '' '' @ show_nat (s_info (r_summary r)), [],
      ''  '' @ GREEN @ ''Auto-fixable:'' @ RESET @ '' '' @ show_nat (s_auto_fixable (r_summary r)) @ '' finding(s)'',
      ''  '' @ DIM @ ''Run \"secureops harden\" to apply automatic fixes'' @ RESET, []]))"

text \<open>The findings in the order the report shows them: each once, by falling severity, ties in the order of the audit.\<close>

definition console_findings :: "audit_finding list \<Rightarrow> audit_finding list" where
  "console_findings fs = concat (map (\<lambda>sev. filter (\<lambda>f. f_severity f = sev) fs) console_severities)"

lemma console_findings_complete: "mset (console_findings fs) = mset fs"
proof (induction fs)
  case (Cons f fs)
  then show ?case by (cases "f_severity f") (auto simp: console_findings_def console_severities_def)
qed (simp add: console_findings_def console_severities_def)

lemma starter_changes_nothing:
  "cli_limits starter_config = cli_limits openclaw_default" "egress_hosts starter_config = egress_hosts openclaw_default"
  by (simp_all add: cli_limits_def starter_config_def openclaw_default_def limits_default_def egress_hosts_def secureops_none_def)

end
