(* ===== verification/Incident.thy ===== *)
theory Incident
  imports Cli
begin

text \<open>
  \<open>secureops export-incident\<close>: the bundle of an audit snapshot and the incident record, the manifest with their digests, its ed25519 signature with the key
  of the OS keychain, and the entry in the audit log.

  The property shows what a successful export leaves on disk: the manifest commits to the very bytes of the two files and its signature verifies
  under the public key it carries.
\<close>

definition KEY_ID :: string where "KEY_ID = ''secureops-incident-export''"

text \<open>
  The audit-log signer over the keychain. Its constructor has made sure of the key, so the seed is in the backend's cache and every later call
  finds it there.
\<close>

definition keychain_audit_signer_new :: "keychain_io \<Rightarrow> seed_cache \<Rightarrow> ((crypto_error + string) \<times> seed_cache) may_panic" where
  "keychain_audit_signer_new io cache = keychain_seed io KEY_ID cache"

definition signing_error :: "string \<Rightarrow> audit_log_error" where
  "signing_error m = Signing m"

definition keychain_verify :: "ed_lib \<Rightarrow> string \<Rightarrow> string \<Rightarrow> string \<Rightarrow> (audit_log_error + bool) may_panic" where
  "keychain_verify ed seed h sig =
    (let pk = ed_public ed seed
     in if length pk \<noteq> 32 then Returns (Err (signing_error ''public key not 32 bytes''))
        else if \<not> ed_from_bytes ed pk then Returns (Err (signing_error ''invalid public key''))
        else case from_hex sig of
          Panics \<Rightarrow> Panics
        | Returns None \<Rightarrow> Returns (Err (signing_error ''signature not hex''))
        | Returns (Some bs) \<Rightarrow>
            if length bs \<noteq> 64 then Returns (Err (signing_error ''signature not 64 bytes'')) else Returns (Ok (ed_check ed pk h bs)))"

definition keychain_signer :: "ed_lib \<Rightarrow> string \<Rightarrow> signer" where
  "keychain_signer ed seed = \<lparr> sg_sign = (\<lambda>h. Ok (to_hex (ed_sign_with ed seed h))), sg_verify = keychain_verify ed seed \<rparr>"

text \<open>The keychain signer is a signer: what it signs, it verifies, so all that is shown of logs by signers holds of it.\<close>

interpretation keychain: signer_backend "keychain_signer ed seed" "ed_ok ed" for ed seed
  by unfold_locales (auto simp: keychain_signer_def keychain_verify_def ed_ok_def from_hex_to_hex Let_def)

subsection \<open>The export\<close>

record incident_env =
  ie_plugin :: plugin_env
  ie_daemon :: daemon_lib
  ie_ed :: ed_lib
  ie_report :: "audit_report \<Rightarrow> string"
  ie_pretty :: "json \<Rightarrow> string"
  ie_seed :: "string + string"
  ie_open_ok :: bool
  ie_append :: append_io

definition safe_ts :: "string \<Rightarrow> string" where
  "safe_ts ts = map (\<lambda>c. if c = CHR '':'' \<or> c = CHR ''.'' then CHR ''-'' else c) ts"

definition sha256_hex :: "(string \<Rightarrow> string) \<Rightarrow> string \<Rightarrow> string" where
  "sha256_hex sha data = to_hex (sha data)"

definition incident_json :: "string \<Rightarrow> string \<Rightarrow> bool \<Rightarrow> nat \<Rightarrow> json" where
  "incident_json ts sd kill score = JObj [(''killSwitchActive'', JBool kill), (''score'', JInt (int score)),
     (''secureopsVersion'', JStr SECUREOPS_VERSION), (''stateDir'', JStr sd), (''timestamp'', JStr ts)]"

definition manifest_json :: "string \<Rightarrow> string \<Rightarrow> string \<Rightarrow> string \<Rightarrow> json" where
  "manifest_json ts pk audit_digest incident_digest = JObj [(''algorithm'', JStr ''ed25519''),
     (''files'', JObj [(''audit.json'', JStr audit_digest), (''incident.json'', JStr incident_digest)]),
     (''publicKey'', JStr pk), (''timestamp'', JStr ts)]"

definition incident_export_payload :: "string \<Rightarrow> string \<Rightarrow> json" where
  "incident_export_payload bdir digest = JObj [(''bundle'', JStr bdir), (''event'', JStr ''incident_exported''), (''manifestSha256'', JStr digest)]"

text \<open>The entry in the audit log; the log file is read and extended in place.\<close>

definition anchor_export :: "incident_env \<Rightarrow> string \<Rightarrow> path \<Rightarrow> json \<Rightarrow> string \<Rightarrow> (string + log_entry) fsm" where
  "anchor_export ie seed p payload ts = State (\<lambda>s.
     if fy_panicked s then (Err ''panicked'', s)
     else let dl = ie_daemon ie; content = map_option fd_data (lookup s p)
       in case open_log (dl_sha dl) (dl_canon dl) (dl_deser dl) (show_path p) (ie_open_ok ie) content (keychain_signer (ie_ed ie) seed) of
         Inl _ \<Rightarrow> (Err ''audit log'', s)
       | Inr lg \<Rightarrow> (case log_append (dl_sha dl) (dl_canon dl) (dl_ser dl) (ie_append ie) payload ts (lg, content) of
           (r, _, content') \<Rightarrow>
             let s' = (case content' of None \<Rightarrow> s
               | Some c \<Rightarrow> put p \<lparr> fd_data = c, fd_mode = (case lookup s p of None \<Rightarrow> ev_new_mode (pe_ev (ie_plugin ie)) | Some f \<Rightarrow> fd_mode f) \<rparr> s)
             in (case r of Inl _ \<Rightarrow> (Err ''append'', s') | Inr e \<Rightarrow> (Ok e, s'))))"

definition incident_dir :: "incident_env \<Rightarrow> path" where
  "incident_dir ie = path_of (plugin_dir (ie_plugin ie)) @ [''.secureops'', ''incidents'', safe_ts (ah_now (pe_audit (ie_plugin ie)))]"

definition audit_log_file :: "incident_env \<Rightarrow> path" where
  "audit_log_file ie = path_of (plugin_dir (ie_plugin ie)) @ [''.secureops'', ''audit.jsonl'']"

definition sign_bundle :: "incident_env \<Rightarrow> string \<Rightarrow> string \<Rightarrow> (string + log_entry) fsm" where
  "sign_bundle ie audit_text incident_text = (case ie_seed ie of
     Inl e \<Rightarrow> State_Monad.return (Err e)
   | Inr seed \<Rightarrow>
       let ev = pe_ev (ie_plugin ie); sha = dl_sha (ie_daemon ie); ts = ah_now (pe_audit (ie_plugin ie)); d = incident_dir ie;
           manifest = ie_pretty ie (manifest_json ts (to_hex (ed_public (ie_ed ie) seed)) (sha256_hex sha audit_text) (sha256_hex sha incident_text))
       in io_try (fs_write ev (d @ [''manifest.json'']) manifest) (\<lambda>_.
          io_try (fs_write ev (d @ [''manifest.sig'']) (to_hex (ed_sign_with (ie_ed ie) seed manifest))) (\<lambda>_.
          anchor_export ie seed (audit_log_file ie) (incident_export_payload (show_path d) (sha256_hex sha manifest)) ts)))"

definition run_export_incident :: "incident_env \<Rightarrow> (string + log_entry) fsm" where
  "run_export_incident ie =
    (let pe = ie_plugin ie; ev = pe_ev pe; d = incident_dir ie; ts = ah_now (pe_audit pe)
     in io_try (fs_create_dir_all ev d) (\<lambda>_. do {
       report \<leftarrow> audit_now pe default_opts;
       io_try (fs_write ev (d @ [''audit.json'']) (ie_report ie report)) (\<lambda>_. do {
         kill \<leftarrow> is_kill_switch_active ev (path_of (plugin_dir pe));
         let incident = ie_pretty ie (incident_json ts (plugin_dir pe) kill (r_score report));
         io_try (fs_write ev (d @ [''incident.json'']) incident) (\<lambda>_. sign_bundle ie (ie_report ie report) incident)
       })
     }))"

subsection \<open>What an export leaves\<close>

lemma io_try_Ok:
  "run_state (io_try m f) s = (Ok x, s') \<longleftrightarrow> (\<exists>y s1. run_state m s = (Ok y, s1) \<and> run_state (f y) s1 = (Ok x, s'))"
  by (auto simp: io_try_def split: sum.splits prod.splits)

lemma bind_split: "run_state (State_Monad.bind m f) s = (x, s') \<longleftrightarrow> (\<exists>y s1. run_state m s = (y, s1) \<and> run_state (f y) s1 = (x, s'))"
  by (auto split: prod.splits)

lemma log_append_payload: "log_append sha canon ser io payload now (lg, fl) = (Ok e, st) \<Longrightarrow> le_payload e = payload"
  by (auto simp: log_append_def persist_def Let_def split: sum.splits option.splits append_io.splits prod.splits)

lemma anchor_result:
  assumes "run_state (anchor_export ie seed p payload ts) s = (Ok e, s')"
  shows "le_payload e = payload" "q \<noteq> p \<Longrightarrow> lookup s' q = lookup s q"
  using assms
  by (auto simp: anchor_export_def Let_def split: if_splits sum.splits prod.splits option.splits dest: log_append_payload)

lemma kill_check_frame: "run_state (is_kill_switch_active ev sd) s = (b, s') \<Longrightarrow> lookup s' q = lookup s q"
  by (auto simp: is_kill_switch_active_def fs_metadata_def io_op_def Let_def split: if_splits option.splits)

lemma write_Ok:
  assumes "run_state (fs_write ev p c) s = (Ok u, s')"
  shows "text_at s' p c" "q \<noteq> p \<Longrightarrow> text_at s' q d = text_at s q d"
  using write_result [OF assms] by (auto simp: text_at_def)

definition bundle_verifies :: "incident_env \<Rightarrow> string \<Rightarrow> fsys \<Rightarrow> log_entry \<Rightarrow> bool" where
  "bundle_verifies ie seed s e \<longleftrightarrow> (\<exists>a i m sig.
     text_at s (incident_dir ie @ [''audit.json'']) a \<and> text_at s (incident_dir ie @ [''incident.json'']) i \<and>
     text_at s (incident_dir ie @ [''manifest.json'']) m \<and> text_at s (incident_dir ie @ [''manifest.sig'']) (to_hex sig) \<and>
     m = ie_pretty ie (manifest_json (ah_now (pe_audit (ie_plugin ie))) (to_hex (ed_public (ie_ed ie) seed))
       (sha256_hex (dl_sha (ie_daemon ie)) a) (sha256_hex (dl_sha (ie_daemon ie)) i)) \<and>
     verify_image_digest (ie_ed ie) (ed_public (ie_ed ie) seed) m sig \<and>
     le_payload e = incident_export_payload (show_path (incident_dir ie)) (sha256_hex (dl_sha (ie_daemon ie)) m))"

lemma sign_bundle_result:
  assumes "ed_ok (ie_ed ie)" "ie_seed ie = Ok seed" "run_state (sign_bundle ie a i) s = (Ok e, s')"
    and "text_at s (incident_dir ie @ [''audit.json'']) a" "text_at s (incident_dir ie @ [''incident.json'']) i"
  shows "bundle_verifies ie seed s' e"
proof -
  let ?d = "incident_dir ie" and ?ev = "pe_ev (ie_plugin ie)" and ?sha = "dl_sha (ie_daemon ie)"
  let ?m = "ie_pretty ie (manifest_json (ah_now (pe_audit (ie_plugin ie))) (to_hex (ed_public (ie_ed ie) seed)) (sha256_hex ?sha a) (sha256_hex ?sha i))"
  let ?sig = "ed_sign_with (ie_ed ie) seed ?m"
  obtain u s1 v s2 where w1: "run_state (fs_write ?ev (?d @ [''manifest.json'']) ?m) s = (Ok u, s1)"
    and w2: "run_state (fs_write ?ev (?d @ [''manifest.sig'']) (to_hex ?sig)) s1 = (Ok v, s2)"
    and an: "run_state (anchor_export ie seed (audit_log_file ie) (incident_export_payload (show_path ?d) (sha256_hex ?sha ?m)) (ah_now (pe_audit (ie_plugin ie)))) s2 = (Ok e, s')"
    using assms(2,3) by (auto simp: sign_bundle_def Let_def io_try_Ok)
  have apart: "?d @ [x] \<noteq> audit_log_file ie" for x by (simp add: incident_dir_def audit_log_file_def)
  have keep: "text_at s' (?d @ [x]) c = text_at s2 (?d @ [x]) c" for x c
    using anchor_result(2) [OF an apart] by (simp add: text_at_def)
  have "text_at s' (?d @ [''audit.json'']) a" "text_at s' (?d @ [''incident.json'']) i" "text_at s' (?d @ [''manifest.json'']) ?m"
    "text_at s' (?d @ [''manifest.sig'']) (to_hex ?sig)"
    using assms(4,5) write_Ok [OF w1] write_Ok [OF w2] by (simp_all add: keep)
  moreover have "verify_image_digest (ie_ed ie) (ed_public (ie_ed ie) seed) ?m ?sig"
    using assms(1) by (simp add: verify_image_digest_def ed_ok_def)
  ultimately show ?thesis using anchor_result(1) [OF an] unfolding bundle_verifies_def by blast
qed


text \<open>A fresh directory and a successful export.\<close>

definition demo_plugin :: plugin_env where
  "demo_plugin = \<lparr> pe_ev = calm_env,
     pe_audit = \<lparr> ah_lib = demo_lib, ah_print = (\<lambda>_. []), ah_parse = (\<lambda>_. None), ah_parse_ioc = (\<lambda>_. Inl []), ah_bundled_ioc = [],
       ah_connect = (\<lambda>_. None), ah_now = ''t'',
       ah_target = \<lparr> tg_os = ''linux'', tg_arch = ''x86_64'', tg_state_dir = Some ''/sd'', tg_home = None \<rparr> \<rparr>,
     pe_host = (\<lambda>s. \<lparr> hs_fs = s, hs_fails = (\<lambda>_. False), hs_dir_mode = (\<lambda>_. 448), hs_dir_len = (\<lambda>_. 0) \<rparr>),
     pe_harden = \<lparr> hl_parse = (\<lambda>_. None), hl_pretty = (\<lambda>_. Ok ''{}''), hl_pretty_docker = (\<lambda>_. Ok ''{}''), hl_pretty_manifest = (\<lambda>_. Ok ''{}''),
       hl_random = None, hl_machine = \<lparr> pbkdf2 = (\<lambda>_ _ _ _. []), gcm16_encrypt = (\<lambda>_ _ _. None), gcm16_decrypt = (\<lambda>_ _ _. None) \<rparr>,
       hl_salt = (\<lambda>_. None), hl_iv = (\<lambda>_. None), hl_machine_id = [], hl_iso_now = ''t'' \<rparr>,
     pe_cost = \<lparr> cv_fs = calm_env, cv_from_str = (\<lambda>_. None), cv_rfc3339 = (\<lambda>_. None), cv_print = (\<lambda>_. []) \<rparr>,
     pe_pretty_kill = (\<lambda>_. Ok ''{}''), pe_now_ms = 0 \<rparr>"

definition demo_incident :: incident_env where
  "demo_incident = \<lparr> ie_plugin = demo_plugin, ie_daemon = \<lparr> dl_sha = demo_sha, dl_canon = demo_canon, dl_ser = (\<lambda>_. Ok ''x''), dl_deser = (\<lambda>_. None) \<rparr>,
     ie_ed = demo_ed, ie_report = (\<lambda>_. ''report''), ie_pretty = (\<lambda>_. ''{}''), ie_seed = Ok ''seed'', ie_open_ok = True, ie_append = IoOk \<rparr>"

lemma demo_paths:
  "incident_dir demo_incident = [''sd'', ''.secureops'', ''incidents'', ''t'']" "audit_log_file demo_incident = [''sd'', ''.secureops'', ''audit.jsonl'']"
  by (simp_all add: incident_dir_def audit_log_file_def demo_incident_def demo_plugin_def plugin_dir_def resolve_state_dir_def safe_ts_def) code_simp+

lemma calm_ops:
  "\<not> fy_panicked s \<Longrightarrow> is_dir s (butlast p) \<Longrightarrow> \<not> is_dir s p \<Longrightarrow> \<exists>s1. run_state (fs_write calm_env p c) s = (Ok (), s1) \<and> fy_dirs s1 = fy_dirs s \<and> \<not> fy_panicked s1 \<and> (\<forall>q. q \<noteq> p \<longrightarrow> lookup s1 q = lookup s q)"
  "\<not> fy_panicked s \<Longrightarrow> \<exists>b s1. run_state (is_kill_switch_active calm_env sd) s = (b, s1) \<and> fy_dirs s1 = fy_dirs s \<and> \<not> fy_panicked s1 \<and> (\<forall>q. lookup s1 q = lookup s q)"
  by (auto simp: fs_write_def io_op_def Let_def calm_env_def is_kill_switch_active_def fs_metadata_def)

lemma audit_now_result: "run_state (audit_now pe opts) s = (run_audit_report (pe_audit pe) (pe_host pe s) (plugin_dir pe) opts, s)"
  by (simp add: audit_now_def State_Monad.get_def)

lemma demo_fields:
  "pe_ev (ie_plugin demo_incident) = calm_env" "ie_seed demo_incident = Ok ''seed''"
  by (simp_all add: demo_incident_def demo_plugin_def)

lemma demo_anchor:
  "\<not> fy_panicked s \<Longrightarrow> lookup s p = None \<Longrightarrow> \<exists>e s'. run_state (anchor_export demo_incident seed p payload ts) s = (Ok e, s')"
  by (simp add: anchor_export_def demo_incident_def open_log_def log_append_def keychain_signer_def persist_def Let_def)

lemma demo_export_runs: "\<exists>e s'. run_state (run_export_incident demo_incident) KillSwitch.demo_fs = (Ok e, s')"
proof -
  let ?d = "[''sd'', ''.secureops'', ''incidents'', ''t'']"
  let ?s1 = "KillSwitch.demo_fs\<lparr> fy_tick := 1, fy_dirs := [[''sd''], [''sd'', ''.secureops''], [''sd'', ''.secureops'', ''incidents''], ?d] \<rparr>"
  have mk: "run_state (fs_create_dir_all calm_env ?d) KillSwitch.demo_fs = (Ok (), ?s1)"
    by code_simp
  define good where "good s \<longleftrightarrow> fy_dirs s = fy_dirs ?s1 \<and> \<not> fy_panicked s \<and> lookup s [''sd'', ''.secureops'', ''audit.jsonl''] = None" for s
  have start: "good ?s1" by (simp add: good_def KillSwitch.demo_fs_def lookup_def hm_simps)
  have wr: "\<exists>s1. run_state (fs_write calm_env (?d @ [x]) c) s = (Ok (), s1) \<and> good s1" if "good s" for x c s
  proof -
    have "is_dir s (butlast (?d @ [x]))" "\<not> is_dir s (?d @ [x])" using that by (auto simp: is_dir_def good_def)
    then show ?thesis using calm_ops(1) [of s "?d @ [x]" c] that by (fastforce simp: good_def)
  qed
  have kl: "\<exists>b s1. run_state (is_kill_switch_active calm_env sd) s = (b, s1) \<and> good s1" if "good s" for s sd
    using calm_ops(2) [of s sd] that by (auto simp: good_def)
  have an: "\<exists>e s'. run_state (anchor_export demo_incident seed [''sd'', ''.secureops'', ''audit.jsonl''] payload ts) s = (Ok e, s')" if "good s" for s seed payload ts
    using demo_anchor that by (simp add: good_def)
  show ?thesis
    unfolding run_export_incident_def Let_def io_try_Ok bind_split demo_fields demo_paths sign_bundle_def sum.case
    using mk start wr kl an audit_now_result [of "ie_plugin demo_incident" default_opts ?s1] by meson
qed


end
