(* ===== verification/PgStore.thy ===== *)
theory PgStore
  imports Scanner
begin

text \<open>
  The Postgres store (\<open>secureops-api/src/store/pg.rs\<close>) over the schema of \<open>secureops-api/migrations\<close>.

  A table is the list of its rows, oldest first. Every statement of the source is a function on the tables:
  the constraints the migrations declare (primary keys, the \<open>CHECK\<close>s, the reference from findings to scans, the
  row-level security policy of migration 007) decide whether it fails. The rows of a \<open>SELECT \<dots> ORDER BY \<dots> DESC\<close> come in
  some order that is sorted by the key: ties are Postgres' choice, so the order is a parameter with the laws of the
  interface \<open>sql_order\<close> of \<open>PgRefinement\<close>. The clock, the state of the connection and the text of an error message are parameters too.

  Here: the tables, the statements, the store and the migration runner with its invariant; \<open>PgRefinement\<close> relates the store to the
  in-memory one.
\<close>

subsection \<open>Tables\<close>

record license_row =
  lr_lic_id :: string
  lr_tenant_id :: string
  lr_tier :: string
  lr_seats :: int
  lr_features :: json
  lr_issued :: int
  lr_expiry :: int
  lr_mode :: string
  lr_grace_days :: int

record api_key_row =
  ak_key_hash :: string
  ak_tenant_id :: string
  ak_sub :: string
  ak_tier :: string
  ak_features :: json
  ak_revoked :: bool
  ak_role :: "string option"

record scan_row =
  sr_id :: uuid
  sr_tenant_id :: string
  sr_scope :: string
  sr_kind :: string
  sr_status :: string
  sr_created_at :: int

record finding_row =
  fw_id :: uuid
  fw_tenant_id :: string
  fw_scan_id :: "uuid option"
  fw_title :: string
  fw_severity :: string
  fw_status :: string
  fw_cloud :: "string option"
  fw_blast_radius :: int
  fw_created_at :: int

record remediation_row =
  rr_id :: uuid
  rr_tenant_id :: string
  rr_finding_id :: string
  rr_playbook :: string
  rr_class :: string
  rr_state :: string
  rr_created_at :: int
  rr_updated_at :: int

record feedback_row =
  fk_tenant_id :: string
  fk_finding_id :: string
  fk_action :: string
  fk_reward :: f64

record pg =
  pg_licenses :: "license_row list"
  pg_api_keys :: "api_key_row list"
  pg_scans :: "scan_row list"
  pg_findings :: "finding_row list"
  pg_remediations :: "remediation_row list"
  pg_rl_feedback :: "feedback_row list"

text \<open>The \<open>CHECK\<close> constraints of migrations 001, 004 and 005.\<close>

definition tier_check :: "string \<Rightarrow> bool" where
  "tier_check t \<longleftrightarrow> t \<in> {''community'', ''pro'', ''enterprise''}"

definition scan_status_check :: "string \<Rightarrow> bool" where
  "scan_status_check s \<longleftrightarrow> s \<in> {''queued'', ''running'', ''completed'', ''failed''}"

definition severity_check :: "string \<Rightarrow> bool" where
  "severity_check s \<longleftrightarrow> s \<in> {''critical'', ''high'', ''medium'', ''low'', ''info''}"

definition finding_status_check :: "string \<Rightarrow> bool" where
  "finding_status_check s \<longleftrightarrow> s \<in> {''open'', ''confirmed'', ''dismissed'', ''escalated''}"

definition class_check :: "string \<Rightarrow> bool" where
  "class_check c \<longleftrightarrow> c \<in> {''safe'', ''reversible'', ''destructive''}"

definition state_check :: "string \<Rightarrow> bool" where
  "state_check s \<longleftrightarrow> s \<in> {''pending'', ''approved'', ''denied'', ''completed'', ''rolled_back'', ''aborted'', ''failed''}"

definition action_check :: "string \<Rightarrow> bool" where
  "action_check a \<longleftrightarrow> a \<in> {''confirm'', ''dismiss'', ''escalate''}"

subsection \<open>Columns and values\<close>

definition sev_to_str :: "finding_severity \<Rightarrow> string" where
  "sev_to_str s = (case s of Critical \<Rightarrow> ''critical'' | High \<Rightarrow> ''high'' | Medium \<Rightarrow> ''medium'' | Low \<Rightarrow> ''low''
     | Info \<Rightarrow> ''info'')"

definition sev_from_str :: "string \<Rightarrow> finding_severity" where
  "sev_from_str s = (if s = ''critical'' then Critical else if s = ''high'' then High else if s = ''medium'' then Medium
     else if s = ''low'' then Low else Info)"

definition status_to_str :: "scan_status \<Rightarrow> string" where
  "status_to_str s = (case s of Queued \<Rightarrow> ''queued'' | Running \<Rightarrow> ''running'' | ScanCompleted \<Rightarrow> ''completed''
     | ScanFailed \<Rightarrow> ''failed'')"

definition status_from_str :: "string \<Rightarrow> scan_status" where
  "status_from_str s = (if s = ''running'' then Running else if s = ''completed'' then ScanCompleted
     else if s = ''failed'' then ScanFailed else Queued)"

definition tier_from_str :: "string \<Rightarrow> tier" where
  "tier_from_str s = (if s = ''pro'' then Pro else if s = ''enterprise'' then Enterprise else Community)"

definition tier_to_str :: "tier \<Rightarrow> string" where
  "tier_to_str t = (case t of Community \<Rightarrow> ''community'' | Pro \<Rightarrow> ''pro'' | Enterprise \<Rightarrow> ''enterprise'')"

definition features_to_json :: "string list \<Rightarrow> json" where
  "features_to_json fs = JArr (map JStr fs)"

definition features_from_json :: "json \<Rightarrow> string list" where
  "features_from_json v = (case v of JArr xs \<Rightarrow> List.map_filter json_as_str xs | _ \<Rightarrow> [])"

text \<open>The casts between \<open>u32\<close> and the signed \<open>INTEGER\<close> columns.\<close>

definition u32_as_i32 :: "u32 \<Rightarrow> int" where
  "u32_as_i32 w = sint w"

definition i32_as_u32 :: "int \<Rightarrow> u32" where
  "i32_as_u32 i = word_of_int i"

definition SESSION_EXP :: u64 where
  "SESSION_EXP = 4102444800"

lemma column_round_trips [simp]:
  "sev_from_str (sev_to_str s) = s" "status_from_str (status_to_str st) = st" "tier_from_str (tier_to_str t) = t"
  "features_from_json (features_to_json fs) = fs" "i32_as_u32 (u32_as_i32 w) = w"
proof -
  show "features_from_json (features_to_json fs) = fs"
    by (induction fs) (auto simp: features_from_json_def features_to_json_def List.map_filter_def)
qed (auto simp: sev_from_str_def sev_to_str_def status_from_str_def status_to_str_def tier_from_str_def tier_to_str_def
      i32_as_u32_def u32_as_i32_def split: finding_severity.splits scan_status.splits tier.splits)

lemma columns_meet_checks [simp]:
  "severity_check (sev_to_str s)" "scan_status_check (status_to_str st)" "tier_check (tier_to_str t)"
  by (auto simp: severity_check_def sev_to_str_def scan_status_check_def status_to_str_def tier_check_def tier_to_str_def
      split: finding_severity.splits scan_status.splits tier.splits)

definition license_of_row :: "license_row \<Rightarrow> license" where
  "license_of_row r = \<lparr> lic_id = lr_lic_id r, lic_tenant_id = lr_tenant_id r, lic_tier = tier_from_str (lr_tier r),
     lic_seats = i32_as_u32 (lr_seats r), lic_features = features_from_json (lr_features r), lic_issued = lr_issued r,
     lic_expiry = lr_expiry r, lic_mode = lr_mode r, lic_grace_days = i32_as_u32 (lr_grace_days r) \<rparr>"

definition row_of_license :: "license \<Rightarrow> license_row" where
  "row_of_license l = \<lparr> lr_lic_id = lic_id l, lr_tenant_id = lic_tenant_id l, lr_tier = tier_to_str (lic_tier l),
     lr_seats = u32_as_i32 (lic_seats l), lr_features = features_to_json (lic_features l), lr_issued = lic_issued l,
     lr_expiry = lic_expiry l, lr_mode = lic_mode l, lr_grace_days = u32_as_i32 (lic_grace_days l) \<rparr>"

definition claims_of_row :: "api_key_row \<Rightarrow> claims" where
  "claims_of_row r = \<lparr> cl_sub = ak_sub r, cl_tenant = ak_tenant_id r, cl_tier = ak_tier r,
     cl_role = unwrap_or (ak_role r) ''member'', cl_features = features_from_json (ak_features r), cl_iss = ISSUER,
     cl_exp = SESSION_EXP \<rparr>"

definition scan_of_row :: "scan_row \<Rightarrow> scan" where
  "scan_of_row r = \<lparr> sc_id = sr_id r, sc_tenant_id = sr_tenant_id r, sc_scope = sr_scope r, sc_kind = sr_kind r,
     sc_status = status_from_str (sr_status r), sc_created_at = sr_created_at r \<rparr>"

definition row_of_scan :: "scan \<Rightarrow> scan_row" where
  "row_of_scan s = \<lparr> sr_id = sc_id s, sr_tenant_id = sc_tenant_id s, sr_scope = sc_scope s, sr_kind = sc_kind s,
     sr_status = status_to_str (sc_status s), sr_created_at = sc_created_at s \<rparr>"

definition finding_of_row :: "finding_row \<Rightarrow> finding" where
  "finding_of_row r = \<lparr> fi_id = fw_id r, fi_tenant_id = fw_tenant_id r, fi_scan_id = fw_scan_id r, fi_title = fw_title r,
     fi_severity = sev_from_str (fw_severity r), fi_status = fw_status r, fi_cloud = fw_cloud r,
     fi_blast_radius = fw_blast_radius r \<rparr>"

definition row_of_finding :: "int \<Rightarrow> finding \<Rightarrow> finding_row" where
  "row_of_finding now f = \<lparr> fw_id = fi_id f, fw_tenant_id = fi_tenant_id f, fw_scan_id = fi_scan_id f, fw_title = fi_title f,
     fw_severity = sev_to_str (fi_severity f), fw_status = fi_status f, fw_cloud = fi_cloud f,
     fw_blast_radius = fi_blast_radius f, fw_created_at = now \<rparr>"

definition remediation_of_row :: "remediation_row \<Rightarrow> remediation" where
  "remediation_of_row r = \<lparr> re_id = rr_id r, re_finding_id = rr_finding_id r, re_playbook_id = rr_playbook r,
     re_class = rr_class r, re_state = rr_state r \<rparr>"

definition row_of_remediation :: "int \<Rightarrow> string \<Rightarrow> remediation \<Rightarrow> remediation_row" where
  "row_of_remediation now tenant r = \<lparr> rr_id = re_id r, rr_tenant_id = tenant, rr_finding_id = re_finding_id r,
     rr_playbook = re_playbook_id r, rr_class = re_class r, rr_state = re_state r, rr_created_at = now,
     rr_updated_at = now \<rparr>"

subsection \<open>Statements\<close>

datatype sql_error = UniqueViolation | CheckViolation | ForeignKeyViolation | PolicyViolation | NulInText | RowCount

datatype pg_link = LinkUp | PoolErr string | LostBefore string | LostAfter string

text \<open>
  What a call meets: the connection, the time of its transaction, the session's \<open>app.tenant\<close>, the text of database
  errors, and the order in which the rows of the three ordered queries come.
\<close>

record pg_env =
  pe_link :: pg_link
  pe_now :: int
  pe_app_tenant :: "string option"
  pe_show_error :: "sql_error \<Rightarrow> string"
  pe_order_licenses :: "license_row list \<Rightarrow> license_row list"
  pe_order_findings :: "finding_row list \<Rightarrow> finding_row list"
  pe_order_remediations :: "remediation_row list \<Rightarrow> remediation_row list"

text \<open>
  A call takes a connection from the pool and runs one statement. Without a connection, or when it breaks before the
  statement commits, nothing happens; when it breaks after that, the statement has happened and the caller gets an error.
\<close>

definition pg_call :: "pg_env \<Rightarrow> (pg \<Rightarrow> (sql_error + 'a) \<times> pg) \<Rightarrow> pg \<Rightarrow> (string + 'a) \<times> pg" where
  "pg_call e stmt p = (case pe_link e of
       LinkUp \<Rightarrow> (let (r, p') = stmt p in (case r of Inl x \<Rightarrow> (Err (pe_show_error e x), p) | Inr v \<Rightarrow> (Ok v, p')))
     | PoolErr msg \<Rightarrow> (Err msg, p)
     | LostBefore msg \<Rightarrow> (Err msg, p)
     | LostAfter msg \<Rightarrow> (Err msg, (let (r, p') = stmt p in (case r of Inl x \<Rightarrow> p | Inr v \<Rightarrow> p'))))"

text \<open>A \<open>TEXT\<close> or \<open>JSONB\<close> parameter cannot hold the character NUL.\<close>

definition text_ok :: "string \<Rightarrow> bool" where
  "text_ok s \<longleftrightarrow> CHR 0x00 \<notin> set s"

definition bind_texts :: "string list \<Rightarrow> (sql_error + 'a) \<times> pg \<Rightarrow> pg \<Rightarrow> (sql_error + 'a) \<times> pg" where
  "bind_texts ts rest p = (if list_all text_ok ts then rest else (Err NulInText, p))"

text \<open>The policy \<open>tenant_isolation\<close> of migration 007, both for the rows a statement sees and for those it writes.\<close>

definition policy :: "pg_env \<Rightarrow> string \<Rightarrow> bool" where
  "policy e tenant \<longleftrightarrow> (case pe_app_tenant e of None \<Rightarrow> True | Some t \<Rightarrow> tenant = t)"

definition query_opt :: "'r list \<Rightarrow> sql_error + 'r option" where
  "query_opt rows = (case rows of [] \<Rightarrow> Ok None | [r] \<Rightarrow> Ok (Some r) | _ \<Rightarrow> Err RowCount)"

text \<open>\<open>UPDATE\<close>: the rows that match and are visible get their new values, if all of these are accepted.\<close>

definition update_rows :: "('r \<Rightarrow> bool) \<Rightarrow> ('r \<Rightarrow> 'r) \<Rightarrow> ('r \<Rightarrow> bool) \<Rightarrow> 'r list \<Rightarrow> sql_error + nat \<times> 'r list" where
  "update_rows p f chk rows =
    (if list_all (\<lambda>r. p r \<longrightarrow> chk (f r)) rows
     then Ok (length (filter p rows), map (\<lambda>r. if p r then f r else r) rows) else Err CheckViolation)"

subsection \<open>PgStore\<close>

definition pg_health :: "pg_env \<Rightarrow> pg \<Rightarrow> bool" where
  "pg_health e p = (case pe_link e of LinkUp \<Rightarrow> True | _ \<Rightarrow> False)"

definition pg_lookup_api_key :: "pg_env \<Rightarrow> string \<Rightarrow> pg \<Rightarrow> string + claims option" where
  "pg_lookup_api_key e hashed p = fst (pg_call e (\<lambda>p. bind_texts [hashed]
     (map_sum id (map_option claims_of_row) (query_opt (filter (\<lambda>r. policy e (ak_tenant_id r) \<and>
        ak_key_hash r = hashed \<and> \<not> ak_revoked r) (pg_api_keys p))), p) p) p)"

definition license_texts :: "license \<Rightarrow> string list" where
  "license_texts l = [lic_id l, lic_tenant_id l, lic_mode l] @ lic_features l"

text \<open>The upsert: a row with the same identifier is overwritten in place, its tenant included.\<close>

definition upsert_license :: "pg_env \<Rightarrow> license_row \<Rightarrow> license_row list \<Rightarrow> sql_error + license_row list" where
  "upsert_license e new rows =
    (if \<not> policy e (lr_tenant_id new) then Err PolicyViolation
     else if list_ex (\<lambda>r. lr_lic_id r = lr_lic_id new) rows then
       (if list_ex (\<lambda>r. lr_lic_id r = lr_lic_id new \<and> \<not> policy e (lr_tenant_id r)) rows then Err PolicyViolation
        else Ok (map (\<lambda>r. if lr_lic_id r = lr_lic_id new then new else r) rows))
     else Ok (rows @ [new]))"

definition pg_put_license :: "pg_env \<Rightarrow> license \<Rightarrow> pg \<Rightarrow> (string + unit) \<times> pg" where
  "pg_put_license e lic = pg_call e (\<lambda>p. bind_texts (license_texts lic)
     (case upsert_license e (row_of_license lic) (pg_licenses p) of
        Inl x \<Rightarrow> (Err x, p) | Inr rows \<Rightarrow> (Ok (), p\<lparr>pg_licenses := rows\<rparr>)) p)"

definition pg_get_license :: "pg_env \<Rightarrow> string \<Rightarrow> pg \<Rightarrow> string + license option" where
  "pg_get_license e tenant p = fst (pg_call e (\<lambda>p. bind_texts [tenant]
     (map_sum id (map_option license_of_row) (query_opt (take 1 (pe_order_licenses e
        (filter (\<lambda>r. policy e (lr_tenant_id r) \<and> lr_tenant_id r = tenant) (pg_licenses p))))), p) p) p)"

definition pg_any_license :: "pg_env \<Rightarrow> pg \<Rightarrow> string + bool" where
  "pg_any_license e p = fst (pg_call e (\<lambda>p. (Ok (list_ex (\<lambda>r. policy e (lr_tenant_id r)) (pg_licenses p)), p)) p)"

definition pg_create_scan :: "pg_env \<Rightarrow> scan \<Rightarrow> pg \<Rightarrow> (string + unit) \<times> pg" where
  "pg_create_scan e sc = pg_call e (\<lambda>p. bind_texts [sc_tenant_id sc, sc_scope sc, sc_kind sc]
     (let r = row_of_scan sc in
      if \<not> policy e (sr_tenant_id r) then (Err PolicyViolation, p)
      else if \<not> scan_status_check (sr_status r) then (Err CheckViolation, p)
      else if list_ex (\<lambda>x. sr_id x = sr_id r) (pg_scans p) then (Err UniqueViolation, p)
      else (Ok (), p\<lparr>pg_scans := pg_scans p @ [r]\<rparr>)) p)"

definition pg_get_scan :: "pg_env \<Rightarrow> string \<Rightarrow> uuid \<Rightarrow> pg \<Rightarrow> string + scan option" where
  "pg_get_scan e tenant uid p = fst (pg_call e (\<lambda>p. bind_texts [tenant]
     (map_sum id (map_option scan_of_row) (query_opt (filter (\<lambda>r. policy e (sr_tenant_id r) \<and> sr_id r = uid \<and>
        sr_tenant_id r = tenant) (pg_scans p))), p) p) p)"

definition opt_text :: "string option \<Rightarrow> string list" where
  "opt_text t = (case t of None \<Rightarrow> [] | Some s \<Rightarrow> [s])"

definition pg_list_findings :: "pg_env \<Rightarrow> string \<Rightarrow> finding_filter \<Rightarrow> pg \<Rightarrow> string + finding list" where
  "pg_list_findings e tenant f p =
    (let limit = (if ff_limit f \<le> 0 then 50 else ff_limit f); offset = max (ff_offset f) 0 in
     fst (pg_call e (\<lambda>p. bind_texts ([tenant] @ opt_text (ff_severity f) @ opt_text (ff_status f))
       (Ok (map finding_of_row (take (nat limit) (drop (nat offset) (pe_order_findings e
          (filter (\<lambda>r. policy e (fw_tenant_id r) \<and> fw_tenant_id r = tenant \<and>
             is_none_or (ff_severity f) (\<lambda>s. fw_severity r = s) \<and> is_none_or (ff_status f) (\<lambda>s. fw_status r = s))
             (pg_findings p)))))), p) p) p))"

definition pg_set_finding_status :: "pg_env \<Rightarrow> string \<Rightarrow> uuid \<Rightarrow> string \<Rightarrow> pg \<Rightarrow> (string + bool) \<times> pg" where
  "pg_set_finding_status e tenant uid status = pg_call e (\<lambda>p. bind_texts [tenant, status]
     (case update_rows (\<lambda>r. policy e (fw_tenant_id r) \<and> fw_id r = uid \<and> fw_tenant_id r = tenant)
        (fw_status_update (\<lambda>_. status)) (\<lambda>r. finding_status_check (fw_status r)) (pg_findings p) of
        Inl x \<Rightarrow> (Err x, p) | Inr (n, rows) \<Rightarrow> (Ok (n > 0), p\<lparr>pg_findings := rows\<rparr>)) p)"

definition pg_insert_finding :: "pg_env \<Rightarrow> finding \<Rightarrow> pg \<Rightarrow> (string + unit) \<times> pg" where
  "pg_insert_finding e f = pg_call e (\<lambda>p. bind_texts ([fi_tenant_id f, fi_title f, fi_status f] @ opt_text (fi_cloud f))
     (let r = row_of_finding (pe_now e) f in
      if \<not> policy e (fw_tenant_id r) then (Err PolicyViolation, p)
      else if \<not> (severity_check (fw_severity r) \<and> finding_status_check (fw_status r)) then (Err CheckViolation, p)
      else if list_ex (\<lambda>x. fw_id x = fw_id r) (pg_findings p) then (Err UniqueViolation, p)
      else if \<not> is_none_or (fw_scan_id r) (\<lambda>u. list_ex (\<lambda>s. sr_id s = u) (pg_scans p)) then (Err ForeignKeyViolation, p)
      else (Ok (), p\<lparr>pg_findings := pg_findings p @ [r]\<rparr>)) p)"

definition pg_insert_remediation :: "pg_env \<Rightarrow> string \<Rightarrow> remediation \<Rightarrow> pg \<Rightarrow> (string + unit) \<times> pg" where
  "pg_insert_remediation e tenant r = pg_call e (\<lambda>p.
     bind_texts [tenant, re_finding_id r, re_playbook_id r, re_class r, re_state r]
     (let w = row_of_remediation (pe_now e) tenant r in
      if \<not> policy e (rr_tenant_id w) then (Err PolicyViolation, p)
      else if \<not> (class_check (rr_class w) \<and> state_check (rr_state w)) then (Err CheckViolation, p)
      else if list_ex (\<lambda>x. rr_id x = rr_id w) (pg_remediations p) then (Err UniqueViolation, p)
      else (Ok (), p\<lparr>pg_remediations := pg_remediations p @ [w]\<rparr>)) p)"

definition pg_list_remediations :: "pg_env \<Rightarrow> string \<Rightarrow> pg \<Rightarrow> string + remediation list" where
  "pg_list_remediations e tenant p = fst (pg_call e (\<lambda>p. bind_texts [tenant]
     (Ok (map remediation_of_row (pe_order_remediations e
        (filter (\<lambda>r. policy e (rr_tenant_id r) \<and> rr_tenant_id r = tenant) (pg_remediations p)))), p) p) p)"

definition pg_set_remediation_state :: "pg_env \<Rightarrow> string \<Rightarrow> uuid \<Rightarrow> string \<Rightarrow> pg \<Rightarrow> (string + bool) \<times> pg" where
  "pg_set_remediation_state e tenant uid state = pg_call e (\<lambda>p. bind_texts [tenant, state]
     (case update_rows (\<lambda>r. policy e (rr_tenant_id r) \<and> rr_id r = uid \<and> rr_tenant_id r = tenant)
        (\<lambda>r. r\<lparr>rr_state := state, rr_updated_at := pe_now e\<rparr>) (\<lambda>r. state_check (rr_state r)) (pg_remediations p) of
        Inl x \<Rightarrow> (Err x, p) | Inr (n, rows) \<Rightarrow> (Ok (n > 0), p\<lparr>pg_remediations := rows\<rparr>)) p)"

definition pg_record_rl_feedback :: "pg_env \<Rightarrow> string \<Rightarrow> string \<Rightarrow> string \<Rightarrow> f64 \<Rightarrow> pg \<Rightarrow> (string + unit) \<times> pg" where
  "pg_record_rl_feedback e tenant finding_id action reward = pg_call e (\<lambda>p. bind_texts [tenant, finding_id, action]
     (if \<not> policy e tenant then (Err PolicyViolation, p)
      else if \<not> action_check action then (Err CheckViolation, p)
      else (Ok (), p\<lparr>pg_rl_feedback := pg_rl_feedback p @
        [\<lparr> fk_tenant_id = tenant, fk_finding_id = finding_id, fk_action = action, fk_reward = reward \<rparr>]\<rparr>)) p)"

definition pg_store :: "pg_env \<Rightarrow> pg store_ops" where
  "pg_store e = \<lparr> st_health = pg_health e, st_lookup_api_key = pg_lookup_api_key e,
     st_put_license = pg_put_license e, st_get_license = pg_get_license e, st_any_license = pg_any_license e,
     st_create_scan = pg_create_scan e, st_get_scan = pg_get_scan e, st_list_findings = pg_list_findings e,
     st_set_finding_status = pg_set_finding_status e, st_insert_finding = pg_insert_finding e,
     st_insert_remediation = pg_insert_remediation e, st_list_remediations = pg_list_remediations e,
     st_set_remediation_state = pg_set_remediation_state e, st_record_rl_feedback = pg_record_rl_feedback e \<rparr>"

lemma pg_store_simps [simp]:
  "st_health (pg_store e) = pg_health e" "st_lookup_api_key (pg_store e) = pg_lookup_api_key e"
  "st_put_license (pg_store e) = pg_put_license e" "st_get_license (pg_store e) = pg_get_license e"
  "st_any_license (pg_store e) = pg_any_license e" "st_create_scan (pg_store e) = pg_create_scan e"
  "st_get_scan (pg_store e) = pg_get_scan e" "st_list_findings (pg_store e) = pg_list_findings e"
  "st_set_finding_status (pg_store e) = pg_set_finding_status e" "st_insert_finding (pg_store e) = pg_insert_finding e"
  "st_insert_remediation (pg_store e) = pg_insert_remediation e"
  "st_list_remediations (pg_store e) = pg_list_remediations e"
  "st_set_remediation_state (pg_store e) = pg_set_remediation_state e"
  "st_record_rl_feedback (pg_store e) = pg_record_rl_feedback e"
  by (simp_all add: pg_store_def)

subsection \<open>Migrations\<close>

definition MIGRATIONS :: "string list" where
  "MIGRATIONS = [''001_licenses'', ''002_clouds'', ''003_assets_identities'', ''004_findings'',
     ''005_remediations_feedback'', ''006_usage_audit'', ''007_rls_roles_retention'']"

text \<open>
  The table \<open>_migrations\<close> and the rest of the schema. What the database does with the text of a migration is a
  parameter. So are the states of the connection: one for taking it and creating the table, one for each migration. A
  connection lost after the commit of a migration leaves it recorded, and the boot fails all the same.
\<close>

record 'd mig_db =
  mg_applied :: "string list"
  mg_schema :: 'd

definition migrate_one ::
  "(string \<Rightarrow> 'd \<Rightarrow> string + 'd) \<Rightarrow> (string \<Rightarrow> pg_link) \<Rightarrow> string \<Rightarrow> 'd mig_db \<Rightarrow> (string + unit) \<times> 'd mig_db" where
  "migrate_one sql link name s =
    (let (r, s') =
       (if name \<in> set (mg_applied s) then (Ok (), s)
        else (case sql name (mg_schema s) of Inl e \<Rightarrow> (Err e, s)
          | Inr d \<Rightarrow> (Ok (), s\<lparr> mg_schema := d, mg_applied := mg_applied s @ [name] \<rparr>)))
     in case link name of LinkUp \<Rightarrow> (r, s') | PoolErr e \<Rightarrow> (Err e, s) | LostBefore e \<Rightarrow> (Err e, s) | LostAfter e \<Rightarrow> (Err e, s'))"

fun migrate_all ::
  "(string \<Rightarrow> 'd \<Rightarrow> string + 'd) \<Rightarrow> (string \<Rightarrow> pg_link) \<Rightarrow> string list \<Rightarrow> 'd mig_db \<Rightarrow> (string + unit) \<times> 'd mig_db" where
  "migrate_all sql link [] s = (Ok (), s)"
| "migrate_all sql link (n # ns) s = (case migrate_one sql link n s of
     (Inl e, s') \<Rightarrow> (Err e, s') | (Inr _, s') \<Rightarrow> migrate_all sql link ns s')"

definition migrate ::
  "(string \<Rightarrow> 'd \<Rightarrow> string + 'd) \<Rightarrow> pg_link \<times> (string \<Rightarrow> pg_link) \<Rightarrow> 'd mig_db \<Rightarrow> (string + unit) \<times> 'd mig_db" where
  "migrate sql links s = (case fst links of
       LinkUp \<Rightarrow> migrate_all sql (snd links) MIGRATIONS s
     | PoolErr e \<Rightarrow> (Err e, s) | LostBefore e \<Rightarrow> (Err e, s) | LostAfter e \<Rightarrow> (Err e, s))"

text \<open>Several boots, each with its own failures.\<close>

fun boots :: "(string \<Rightarrow> 'd \<Rightarrow> string + 'd) \<Rightarrow> (pg_link \<times> (string \<Rightarrow> pg_link)) list \<Rightarrow> 'd mig_db \<Rightarrow> 'd mig_db" where
  "boots sql [] s = s"
| "boots sql (l # ls) s = boots sql ls (snd (migrate sql l s))"

text \<open>Applying the first migrations to a schema, each once.\<close>

fun apply_each :: "(string \<Rightarrow> 'd \<Rightarrow> string + 'd) \<Rightarrow> string list \<Rightarrow> 'd \<Rightarrow> string + 'd" where
  "apply_each sql [] d = Ok d"
| "apply_each sql (n # ns) d = (case sql n d of Inl e \<Rightarrow> Err e | Inr d' \<Rightarrow> apply_each sql ns d')"

lemma apply_each_snoc:
  "apply_each sql (ns @ [n]) d = (case apply_each sql ns d of Inl e \<Rightarrow> Err e | Inr d' \<Rightarrow> sql n d')"
  by (induction ns arbitrary: d) (auto split: sum.splits)

definition mig_inv :: "(string \<Rightarrow> 'd \<Rightarrow> string + 'd) \<Rightarrow> 'd \<Rightarrow> 'd mig_db \<Rightarrow> bool" where
  "mig_inv sql d0 s \<longleftrightarrow> (\<exists>k \<le> length MIGRATIONS. mg_applied s = take k MIGRATIONS) \<and>
     apply_each sql (mg_applied s) d0 = Ok (mg_schema s)"

lemma distinct_MIGRATIONS: "distinct MIGRATIONS"
  by (simp add: MIGRATIONS_def)

lemma take_member: "distinct xs \<Longrightarrow> i < length xs \<Longrightarrow> xs ! i \<in> set (take k xs) \<longleftrightarrow> i < k"
  by (auto simp: in_set_conv_nth nth_eq_iff_index_eq)

lemma migrate_one_cases:
  assumes "migrate_one sql link n s = (r, s')"
  shows "s' = s \<and> (is_ok r \<longrightarrow> n \<in> set (mg_applied s)) \<or>
    (\<exists>d. n \<notin> set (mg_applied s) \<and> sql n (mg_schema s) = Ok d \<and> s' = s\<lparr> mg_schema := d, mg_applied := mg_applied s @ [n] \<rparr>)"
  using assms by (auto simp: migrate_one_def Let_def split: pg_link.splits sum.splits if_splits)

lemma migrate_one_inv:
  assumes inv: "mig_inv sql d0 s" and i: "i < length MIGRATIONS" "i \<le> length (mg_applied s)"
    and run: "migrate_one sql link (MIGRATIONS ! i) s = (r, s')"
  shows "mig_inv sql d0 s' \<and> (is_ok r \<longrightarrow> Suc i \<le> length (mg_applied s'))"
proof -
  obtain k where k: "k \<le> length MIGRATIONS" "mg_applied s = take k MIGRATIONS" "i \<le> k"
    using inv i(2) by (auto simp: mig_inv_def)
  have mem: "MIGRATIONS ! i \<in> set (mg_applied s) \<longleftrightarrow> i < k" using take_member [OF distinct_MIGRATIONS i(1)] k(2) by simp
  from migrate_one_cases [OF run] show ?thesis
  proof (elim disjE exE conjE)
    assume "s' = s" "is_ok r \<longrightarrow> MIGRATIONS ! i \<in> set (mg_applied s)"
    then show ?thesis using inv mem k by auto
  next
    fix d assume d: "MIGRATIONS ! i \<notin> set (mg_applied s)" "sql (MIGRATIONS ! i) (mg_schema s) = Ok d"
      "s' = s\<lparr> mg_schema := d, mg_applied := mg_applied s @ [MIGRATIONS ! i] \<rparr>"
    then have "k = i" using mem k(3) by simp
    then have "mg_applied s @ [MIGRATIONS ! i] = take (Suc i) MIGRATIONS" using k(2) i(1) by (simp add: take_Suc_conv_app_nth)
    moreover have "apply_each sql (mg_applied s @ [MIGRATIONS ! i]) d0 = sql (MIGRATIONS ! i) (mg_schema s)"
      using inv by (simp add: mig_inv_def apply_each_snoc)
    ultimately show ?thesis using i(1) d by (auto simp: mig_inv_def intro!: exI [of _ "Suc i"])
  qed
qed

lemma migrate_all_inv:
  assumes "mig_inv sql d0 s" and "i \<le> length MIGRATIONS" and "i \<le> length (mg_applied s)"
  shows "mig_inv sql d0 (snd (migrate_all sql link (drop i MIGRATIONS) s)) \<and>
    (is_ok (fst (migrate_all sql link (drop i MIGRATIONS) s)) \<longrightarrow>
       mg_applied (snd (migrate_all sql link (drop i MIGRATIONS) s)) = MIGRATIONS)"
  using assms
proof (induction "length MIGRATIONS - i" arbitrary: i s)
  case 0
  then show ?case by (auto simp: mig_inv_def)
next
  case (Suc n)
  then have i: "i < length MIGRATIONS" by simp
  obtain r s' where one: "migrate_one sql link (MIGRATIONS ! i) s = (r, s')" by fastforce
  have drop: "drop i MIGRATIONS = MIGRATIONS ! i # drop (Suc i) MIGRATIONS" using i by (simp add: Cons_nth_drop_Suc)
  note keep = migrate_one_inv [OF Suc.prems(1) i Suc.prems(3) one]
  then show ?case using one Suc.hyps(1) [of "Suc i" s'] Suc.hyps(2) i by (cases r) (simp_all add: drop)
qed

lemma migrate_inv:
  assumes "mig_inv sql d0 s"
  shows "mig_inv sql d0 (snd (migrate sql links s)) \<and>
    (is_ok (fst (migrate sql links s)) \<longrightarrow> mg_applied (snd (migrate sql links s)) = MIGRATIONS)"
  using migrate_all_inv [OF assms, of 0 "snd links"] assms by (auto simp: migrate_def split: pg_link.splits)

abbreviation links_up :: "pg_link \<times> (string \<Rightarrow> pg_link)" where
  "links_up \<equiv> (LinkUp, \<lambda>_. LinkUp)"

lemma migrate_done: "mg_applied s = MIGRATIONS \<Longrightarrow> migrate sql links_up s = (Ok (), s)"
proof -
  assume a: "mg_applied s = MIGRATIONS"
  have "set ns \<subseteq> set MIGRATIONS \<Longrightarrow> migrate_all sql (\<lambda>_. LinkUp) ns s = (Ok (), s)" for ns
    by (induction ns) (auto simp: migrate_one_def a)
  then show ?thesis by (simp add: migrate_def)
qed

lemma boots_inv: "mig_inv sql d0 s \<Longrightarrow> mig_inv sql d0 (boots sql ls s)"
  by (induction ls arbitrary: s) (simp_all add: migrate_inv)

text \<open>
  C26: Migrations are applied in order and each at most once, whatever fails on the way: after any number of boots of a fresh
  database the recorded migrations are a prefix of the list, and the schema is what these migrations, run once each and in
  order, make of the empty one, also when a connection breaks between the commit of a migration and its answer. A boot that reports success has recorded all of them, and later boots change nothing.
\<close>

theorem migrations_once_in_order:
  fixes sql :: "string \<Rightarrow> 'd \<Rightarrow> string + 'd"
  shows "let s = boots sql ls \<lparr> mg_applied = [], mg_schema = d \<rparr> in
    prefix (mg_applied s) MIGRATIONS \<and> apply_each sql (mg_applied s) d = Ok (mg_schema s) \<and>
    (case migrate sql links s of (r, s') \<Rightarrow> (is_ok r \<longrightarrow> mg_applied s' = MIGRATIONS \<and> migrate sql' links_up s' = (Ok (), s')))"
proof -
  let ?s = "boots sql ls \<lparr> mg_applied = [], mg_schema = d \<rparr>"
  have "mig_inv sql d \<lparr> mg_applied = [], mg_schema = d \<rparr>" by (auto simp: mig_inv_def)
  then have inv: "mig_inv sql d ?s" by (rule boots_inv)
  then have "prefix (mg_applied ?s) MIGRATIONS" "apply_each sql (mg_applied ?s) d = Ok (mg_schema ?s)"
    by (auto simp: mig_inv_def take_is_prefix)
  moreover have "is_ok (fst (migrate sql links ?s)) \<longrightarrow> mg_applied (snd (migrate sql links ?s)) = MIGRATIONS"
    using migrate_inv [OF inv] by blast
  ultimately show ?thesis by (auto simp: Let_def migrate_done split: prod.splits)
qed

text \<open>
  A database whose schema is the list of the migrations it ran; the first boot loses its connection right after the third one has
  been committed, the second gets none.
\<close>

definition demo_sql :: "string \<Rightarrow> string list \<Rightarrow> string + string list" where
  "demo_sql n d = Ok (d @ [n])"

definition demo_links :: "(pg_link \<times> (string \<Rightarrow> pg_link)) list" where
  "demo_links = [(LinkUp, \<lambda>n. if n = ''003_assets_identities'' then LostAfter ''connection reset'' else LinkUp),
     (PoolErr ''timeout'', \<lambda>_. LinkUp)]"

definition demo_boot :: "string list mig_db" where
  "demo_boot = boots demo_sql demo_links \<lparr> mg_applied = [], mg_schema = [] \<rparr>"

theorem migrations_once_in_order_witness:
  "mg_applied demo_boot = [''001_licenses'', ''002_clouds'', ''003_assets_identities''] \<and>
   mg_schema (snd (migrate demo_sql links_up demo_boot)) = MIGRATIONS \<and>
   migrate (\<lambda>_ _. Err ''unused'') links_up (snd (migrate demo_sql links_up demo_boot)) =
     (Ok (), snd (migrate demo_sql links_up demo_boot))"
proof -
  have "is_ok (fst (migrate demo_sql links_up demo_boot))" "mg_applied demo_boot = [''001_licenses'', ''002_clouds'', ''003_assets_identities'']"
    "mg_schema (snd (migrate demo_sql links_up demo_boot)) = MIGRATIONS" by code_simp+
  then show ?thesis
    using migrations_once_in_order [where sql = demo_sql and links = links_up and sql' = "\<lambda>_ _. Err ''unused''" and
        d = "[]" and ls = demo_links]
    unfolding demo_boot_def [symmetric] by (auto simp: Let_def split: prod.splits)
qed

end
