(* ===== verification/NetAddr.thy ===== *)
theory NetAddr
  imports Hex "HOL-Library.Monad_Syntax"
begin

text \<open>
  The textual internet addresses the servers read: the parser behind \<open>str::parse::<IpAddr>()\<close> of the standard library, as the sources of
  \<open>secureops-api/src/main.rs\<close> use it, and the loopback test of that file. A reader takes the rest of the text and gives
  a value with what it left, or fails and leaves nothing consumed.
\<close>

subsection \<open>The address parser\<close>

definition to_digit :: "nat \<Rightarrow> char \<Rightarrow> nat option" where
  "to_digit radix c = (case hex_val c of Some d \<Rightarrow> if d < radix then Some d else None | None \<Rightarrow> None)"

fun number_of :: "nat \<Rightarrow> nat \<Rightarrow> string \<Rightarrow> nat" where
  "number_of radix acc [] = acc"
| "number_of radix acc (c # cs) = number_of radix (acc * radix + unwrap_or (to_digit radix c) 0) cs"

definition read_number :: "nat \<Rightarrow> nat \<Rightarrow> bool \<Rightarrow> nat \<Rightarrow> string \<Rightarrow> (nat \<times> string) option" where
  "read_number radix max_digits allow_zero_prefix mx s =
    (let ds = takeWhile (\<lambda>c. to_digit radix c \<noteq> None) s; rest = dropWhile (\<lambda>c. to_digit radix c \<noteq> None) s in
     if length ds > max_digits \<or> ds = [] then None
     else if \<not> allow_zero_prefix \<and> hd s = CHR ''0'' \<and> length ds > 1 then None
     else if number_of radix 0 ds > mx then None else Some (number_of radix 0 ds, rest))"

definition read_given_char :: "char \<Rightarrow> string \<Rightarrow> string option" where
  "read_given_char c s = (case s of x # xs \<Rightarrow> if x = c then Some xs else None | [] \<Rightarrow> None)"

definition read_octet :: "string \<Rightarrow> (nat \<times> string) option" where
  "read_octet s = read_number 10 3 False 255 s"

definition read_ipv4 :: "string \<Rightarrow> ((nat \<times> nat \<times> nat \<times> nat) \<times> string) option" where
  "read_ipv4 s = do {
     (a, s) \<leftarrow> read_octet s;
     (b, s) \<leftarrow> Option.bind (read_given_char (CHR ''.'') s) read_octet;
     (c, s) \<leftarrow> Option.bind (read_given_char (CHR ''.'') s) read_octet;
     (d, s) \<leftarrow> Option.bind (read_given_char (CHR ''.'') s) read_octet;
     Some ((a, b, c, d), s) }"

text \<open>
  Up to a number of groups, separated by colons; the last two may be an embedded IPv4 address. The groups read, whether they end in
  one, and the rest.
\<close>

fun read_groups :: "nat \<Rightarrow> bool \<Rightarrow> string \<Rightarrow> nat list \<times> bool \<times> string" where
  "read_groups 0 first s = ([], False, s)"
| "read_groups (Suc n) first s = (case (if first then Some s else read_given_char (CHR '':'') s) of
     None \<Rightarrow> ([], False, s)
   | Some s1 \<Rightarrow> (case (if n = 0 then None else read_ipv4 s1) of
       Some ((a, b, c, d), s2) \<Rightarrow> ([a * 256 + b, c * 256 + d], True, s2)
     | None \<Rightarrow> (case read_number 16 4 True 65535 s1 of
         None \<Rightarrow> ([], False, s)
       | Some (g, s2) \<Rightarrow> (let (gs, v4, s3) = read_groups n False s2 in (g # gs, v4, s3)))))"

definition read_ipv6 :: "string \<Rightarrow> (nat list \<times> string) option" where
  "read_ipv6 s = (case read_groups 8 True s of (head, v4, s1) \<Rightarrow>
     if length head = 8 then Some (head, s1)
     else if v4 then None
     else (case Option.bind (read_given_char (CHR '':'') s1) (read_given_char (CHR '':'')) of
         None \<Rightarrow> None
       | Some s2 \<Rightarrow> (case read_groups (7 - length head) True s2 of (tail, _, s3) \<Rightarrow>
           Some (head @ replicate (8 - length head - length tail) 0 @ tail, s3))))"

datatype ip_addr = V4 "nat \<times> nat \<times> nat \<times> nat" | V6 "nat list"

definition parse_ip_addr :: "string \<Rightarrow> ip_addr option" where
  "parse_ip_addr s = (case (case read_ipv4 s of Some (v, rest) \<Rightarrow> Some (V4 v, rest)
       | None \<Rightarrow> map_option (\<lambda>(v, rest). (V6 v, rest)) (read_ipv6 s)) of
     Some (v, []) \<Rightarrow> Some v | _ \<Rightarrow> None)"

definition ip_is_loopback :: "ip_addr \<Rightarrow> bool" where
  "ip_is_loopback ip = (case ip of V4 (a, _) \<Rightarrow> a = 127 | V6 gs \<Rightarrow> gs = [0, 0, 0, 0, 0, 0, 0, 1])"

subsection \<open>Loopback listen addresses\<close>

definition eq_ignore_ascii_case :: "string \<Rightarrow> string \<Rightarrow> bool" where
  "eq_ignore_ascii_case a b \<longleftrightarrow> to_ascii_lowercase a = to_ascii_lowercase b"

definition addr_host :: "string \<Rightarrow> string" where
  "addr_host addr = (let host = (case rsplit_once (CHR '':'') addr of Some (h, _) \<Rightarrow> h | None \<Rightarrow> addr)
     in trim_end_char (CHR '']'') (dropWhile (\<lambda>c. c = CHR ''['') host))"

definition is_loopback_addr :: "string \<Rightarrow> bool" where
  "is_loopback_addr addr =
    (let host = addr_host addr in
     if eq_ignore_ascii_case host ''localhost'' then True
     else (case parse_ip_addr host of Some ip \<Rightarrow> ip_is_loopback ip | None \<Rightarrow> False))"

text \<open>An octet that ends where the digits end is read back.\<close>

lemma to_digit_digit_char: "d < 10 \<Longrightarrow> to_digit 10 (digit_char d) = Some d"
  by (simp add: to_digit_def hex_val_def digit_char_def char_code_def)

lemma number_of_append: "number_of r acc (xs @ ys) = number_of r (number_of r acc xs) ys"
  by (induction xs arbitrary: acc) auto

lemma number_of_show_nat: "number_of 10 0 (show_nat n) = n"
proof (induction n rule: show_nat.induct)
  case (1 n)
  then show ?case by (cases "n < 10") (simp_all add: show_nat.simps [of n] number_of_append to_digit_digit_char)
qed

lemma show_nat_to_digit: "c \<in> set (show_nat n) \<Longrightarrow> to_digit 10 c \<noteq> None"
  using show_nat_digits [of c n] by (auto simp: to_digit_digit_char)

lemma digit_char_zero: "d < 10 \<Longrightarrow> digit_char d = CHR ''0'' \<longleftrightarrow> d = 0"
proof -
  assume "d < 10"
  then have "d \<in> {0, 1, 2, 3, 4, 5, 6, 7, 8, 9}" by auto
  then show ?thesis by (auto simp: digit_char_simps)
qed

lemma hd_show_nat: "hd (show_nat n) = CHR ''0'' \<longleftrightarrow> n = 0"
proof (induction n rule: show_nat.induct)
  case (1 n)
  then show ?case by (cases "n < 10") (simp_all add: show_nat.simps [of n] digit_char_zero)
qed

lemma length_show_octet: "n < 256 \<Longrightarrow> length (show_nat n) \<le> 3"
  by (simp add: show_nat.simps [of n] show_nat.simps [of "n div 10"] show_nat.simps [of "n div 10 div 10"])

lemma read_octet_show:
  assumes "n < 256" and "rest = [] \<or> to_digit 10 (hd rest) = None"
  shows "read_octet (show_nat n @ rest) = Some (n, rest)"
proof -
  have tw: "takeWhile (\<lambda>c. to_digit 10 c \<noteq> None) (show_nat n @ rest) = show_nat n"
    and dw: "dropWhile (\<lambda>c. to_digit 10 c \<noteq> None) (show_nat n @ rest) = rest"
    using show_nat_to_digit assms(2) by (cases rest; auto simp: takeWhile_append dropWhile_append)+
  have "\<not> (hd (show_nat n @ rest) = CHR ''0'' \<and> length (show_nat n) > 1)"
    using hd_show_nat [of n] by (auto simp: show_nat.simps [of 0])
  then show ?thesis using assms(1) length_show_octet [of n]
    unfolding read_octet_def read_number_def Let_def tw dw by (simp add: number_of_show_nat)
qed

lemma parse_ipv4_show:
  assumes "a < 256" "b < 256" "c < 256" "d < 256"
  shows "parse_ip_addr (show_nat a @ ''.'' @ show_nat b @ ''.'' @ show_nat c @ ''.'' @ show_nat d) = Some (V4 (a, b, c, d))"
proof -
  have dot: "to_digit 10 (CHR ''.'') = None" by (simp add: to_digit_def hex_val_def char_code_def)
  have last: "read_octet (show_nat d) = Some (d, [])" using read_octet_show [OF assms(4), of "[]"] by simp
  have "read_ipv4 (show_nat a @ ''.'' @ show_nat b @ ''.'' @ show_nat c @ ''.'' @ show_nat d) = Some ((a, b, c, d), [])"
    using assms by (simp add: read_ipv4_def read_octet_show dot read_given_char_def last)
  then show ?thesis by (simp add: parse_ip_addr_def)
qed

text \<open>A dotted address with a port is loopback exactly in the block 127.0.0.0/8.\<close>

lemma addr_host_plain:
  assumes "CHR ''['' \<notin> set h" "CHR '']'' \<notin> set h" "CHR '':'' \<notin> set port"
  shows "addr_host (h @ CHR '':'' # port) = h"
proof -
  have "rsplit_once (CHR '':'') (h @ CHR '':'' # port) = Some (h, port)"
    using assms(3) by (simp add: rsplit_once_Some)
  moreover have "h = [] \<or> last h \<noteq> CHR '']''" using assms(2) last_in_set by fastforce
  moreover have "dropWhile (\<lambda>c. c = CHR ''['') h = h" using assms(1) by (cases h) auto
  ultimately show ?thesis by (simp add: addr_host_def trim_end_char_id)
qed

lemma loopback_dotted:
  assumes "a < 256" "b < 256" "c < 256" "d < 256" and "CHR '':'' \<notin> set port"
  shows "is_loopback_addr (show_nat a @ ''.'' @ show_nat b @ ''.'' @ show_nat c @ ''.'' @ show_nat d @ '':'' @ port) \<longleftrightarrow> a = 127"
proof -
  let ?h = "show_nat a @ ''.'' @ show_nat b @ ''.'' @ show_nat c @ ''.'' @ show_nat d"
  have "CHR ''['' \<notin> set ?h" "CHR '']'' \<notin> set ?h" by (auto simp: show_nat_no_char char_code_def)
  then have host: "addr_host (?h @ '':'' @ port) = ?h" using addr_host_plain [of ?h port] assms(5) by simp
  have "hd (to_ascii_lowercase ?h) \<noteq> hd (to_ascii_lowercase ''localhost'')"
  proof -
    have "hd (show_nat a) \<in> set (show_nat a)" by simp
    then obtain k where "k < 10" "hd (show_nat a) = digit_char k" using show_nat_digits by blast
    moreover have "digit_char k \<noteq> CHR ''l''" using digit_char_ne [of k "CHR ''l''"] \<open>k < 10\<close> by (simp add: char_code_def)
    moreover have "char_code (digit_char k) = 48 + k" using \<open>k < 10\<close> by (simp add: digit_char_def char_code_def)
    then have "ascii_lower (digit_char k) = digit_char k" using \<open>k < 10\<close> by (simp add: ascii_lower_def)
    moreover have "ascii_lower (CHR ''l'') = CHR ''l''" by code_simp
    ultimately show ?thesis by (simp add: to_ascii_lowercase_def hd_map)
  qed
  then have "\<not> eq_ignore_ascii_case ?h ''localhost''" by (auto simp: eq_ignore_ascii_case_def)
  then show ?thesis using parse_ipv4_show [OF assms(1-4)] host by (simp add: is_loopback_addr_def Let_def ip_is_loopback_def)
qed

end
