(* ===== verification/Server.thy ===== *)
theory Server
  imports NetAddr PgRefinement Evidence RateLimit
begin

text \<open>
  The platform server around its handlers: how \<open>secureops-api/src/main.rs\<close> turns the environment into a running server (or refuses to), the
  setters of \<open>AppState\<close> (\<open>lib.rs\<close>) it uses, the health probes (\<open>health.rs\<close>), the Redis queue client (\<open>redis_queue.rs\<close>), the
  dashboard fallback with its first-run redirect (\<open>router.rs\<close>) and the live OIDC verifier (\<open>sso.rs\<close>).

  The environment is a function from names to the values that are set. Base64, the vendor key of the development seed, the
  Postgres and Redis clients, header values, sockets, HTTP and \<open>jsonwebtoken\<close> are parameters. A boot is a value: what would be
  served and where. Tracing is left out.
\<close>

subsection \<open>Environment\<close>

type_synonym env_vars = "string \<Rightarrow> string option"

definition env_nonempty :: "env_vars \<Rightarrow> string \<Rightarrow> string option" where
  "env_nonempty env k = (case env k of Some s \<Rightarrow> if s = [] then None else Some s | None \<Rightarrow> None)"

definition env_flag :: "env_vars \<Rightarrow> string \<Rightarrow> bool" where
  "env_flag env k = (case env k of Some v \<Rightarrow> v = ''1'' \<or> eq_ignore_ascii_case v ''true'' | None \<Rightarrow> False)"

definition dev_mode :: "env_vars \<Rightarrow> bool" where
  "dev_mode env = env_flag env ''SECUREOPS_DEV_MODE''"

datatype boot_error = JwtSecretRequired | PubkeyNotBase64 | PubkeyLength nat | PubkeyRequired | StoreFailed string
  | InvalidOrigin string | NoOrigins | InsecureBind string | TlsAddress string | TlsFiles string | BindFailed string

record boot_lib =
  bl_b64_decode :: "string \<Rightarrow> string option"
  bl_verifying_key :: "string \<Rightarrow> string"
  bl_pg_connect :: "string \<Rightarrow> string + unit"
  bl_pg_migrate :: "string \<Rightarrow> string + unit"
  bl_redis_pool :: "string \<Rightarrow> string + unit"
  bl_header_value :: "string \<Rightarrow> bool"
  bl_parse_i64 :: "string \<Rightarrow> int option"
  bl_live_oidc :: "(string \<Rightarrow> string \<Rightarrow> string \<Rightarrow> string \<Rightarrow> string \<Rightarrow> oidc_claims option) option"
  bl_tls :: bool
  bl_socket_addr :: "string \<Rightarrow> bool"
  bl_pem_files :: "string \<Rightarrow> string \<Rightarrow> string + unit"
  bl_bind :: "string \<Rightarrow> string + unit"

text \<open>The development seed, of which the built-in vendor key is the public half.\<close>

definition DEV_SEED :: string where
  "DEV_SEED = replicate 32 (CHR 0x07)"

definition load_jwt_secret :: "env_vars \<Rightarrow> boot_error + string" where
  "load_jwt_secret env = (case env_nonempty env ''SECUREOPS_JWT_SECRET'' of
     Some s \<Rightarrow> Ok s
   | None \<Rightarrow> if dev_mode env then Ok ''dev-insecure-secret'' else Err JwtSecretRequired)"

definition load_license_pubkey :: "boot_lib \<Rightarrow> env_vars \<Rightarrow> bool \<Rightarrow> boot_error + string" where
  "load_license_pubkey lib env dev = (case env_nonempty env ''SECUREOPS_LICENSE_PUBKEY'' of
     Some b64 \<Rightarrow> (case bl_b64_decode lib b64 of
         None \<Rightarrow> Err PubkeyNotBase64
       | Some bytes \<Rightarrow> if length bytes = 32 then Ok bytes else Err (PubkeyLength (length bytes)))
   | None \<Rightarrow> if dev then Ok (bl_verifying_key lib DEV_SEED) else Err PubkeyRequired)"

datatype store_choice = UsePostgres string | UseMemory

definition open_store :: "boot_lib \<Rightarrow> env_vars \<Rightarrow> boot_error + store_choice" where
  "open_store lib env = (case env_nonempty env ''DATABASE_URL'' of
     Some url \<Rightarrow> (case bl_pg_connect lib url of Inl e \<Rightarrow> Err (StoreFailed e)
       | Inr _ \<Rightarrow> (case bl_pg_migrate lib url of Inl e \<Rightarrow> Err (StoreFailed e) | Inr _ \<Rightarrow> Ok (UsePostgres url)))
   | None \<Rightarrow> Ok UseMemory)"

subsection \<open>AppState\<close>

text \<open>
  The parts of \<open>AppState\<close> that the handlers read are those of \<^typ>\<open>api_config\<close>; the limiter, the evidence presigner and the store go beside
  it. The first argument supplies the library parameters.
\<close>

definition BUILTIN_EXPORT_SEED :: string where
  "BUILTIN_EXPORT_SEED = replicate 32 (CHR 0x09)"

definition app_state_new :: "api_config \<Rightarrow> string \<Rightarrow> string \<Rightarrow> api_config" where
  "app_state_new libs jwt_secret license_pubkey =
    libs\<lparr> cf_auth := (cf_auth libs)\<lparr> ac_jwt_secret := jwt_secret, ac_api_key_pepper := jwt_secret \<rparr>,
      cf_license_pubkey := license_pubkey, cf_redis := False, cf_oidc := None,
      cf_export := export_from_seed BUILTIN_EXPORT_SEED \<rparr>"

definition with_export :: "incident_export \<Rightarrow> api_config \<Rightarrow> api_config" where
  "with_export ex cfg = cfg\<lparr> cf_export := ex \<rparr>"

definition with_oidc :: "(string \<Rightarrow> oidc_claims option) \<Rightarrow> api_config \<Rightarrow> api_config" where
  "with_oidc verifier cfg = cfg\<lparr> cf_oidc := Some verifier \<rparr>"

definition with_api_key_pepper :: "string \<Rightarrow> api_config \<Rightarrow> api_config" where
  "with_api_key_pepper pepper cfg = cfg\<lparr> cf_auth := (cf_auth cfg)\<lparr> ac_api_key_pepper := pepper \<rparr> \<rparr>"

definition with_redis :: "api_config \<Rightarrow> api_config" where
  "with_redis cfg = cfg\<lparr> cf_redis := True \<rparr>"

definition wire_oidc :: "boot_lib \<Rightarrow> env_vars \<Rightarrow> api_config \<Rightarrow> api_config" where
  "wire_oidc lib env cfg = (case bl_live_oidc lib of
     None \<Rightarrow> cfg
   | Some verifier \<Rightarrow> (case (env ''SECUREOPS_OIDC_JWKS_URI'', env ''SECUREOPS_OIDC_AUDIENCE'', env ''SECUREOPS_OIDC_ISSUER'') of
       (Some jwks_uri, Some audience, Some issuer) \<Rightarrow>
         if jwks_uri = [] \<or> audience = [] \<or> issuer = [] then cfg
         else with_oidc (verifier jwks_uri audience issuer (unwrap_or (env ''SECUREOPS_OIDC_DEFAULT_TENANT'') ''default'')) cfg
     | _ \<Rightarrow> cfg))"

definition wire_pepper :: "env_vars \<Rightarrow> api_config \<Rightarrow> api_config" where
  "wire_pepper env cfg = (case env_nonempty env ''SECUREOPS_API_KEY_PEPPER'' of
     Some pepper \<Rightarrow> with_api_key_pepper pepper cfg | None \<Rightarrow> cfg)"

text \<open>A Redis URL that gives no pool is only logged: scans then run in degraded mode.\<close>

definition wire_redis :: "boot_lib \<Rightarrow> env_vars \<Rightarrow> api_config \<Rightarrow> api_config" where
  "wire_redis lib env cfg = (case env_nonempty env ''REDIS_URL'' of
     Some url \<Rightarrow> (case bl_redis_pool lib url of Inr _ \<Rightarrow> with_redis cfg | Inl _ \<Rightarrow> cfg) | None \<Rightarrow> cfg)"

definition wire_evidence :: "env_vars \<Rightarrow> s3_presigner option" where
  "wire_evidence env = (case (env ''MINIO_ROOT_USER'', env ''MINIO_ROOT_PASSWORD'') of
     (Some ak, Some sk) \<Rightarrow> Some (presigner_new ak sk (unwrap_or (env ''AWS_REGION'') ''us-east-1'')
       (unwrap_or (env ''S3_ENDPOINT'') ''minio:9000'') (unwrap_or (env ''S3_SCHEME'') ''http''))
   | _ \<Rightarrow> None)"

subsection \<open>Cross-origin access\<close>

record cors =
  co_origins :: "string list"
  co_methods :: "string list"
  co_headers :: "string list"

fun parse_origins :: "boot_lib \<Rightarrow> string list \<Rightarrow> boot_error + string list" where
  "parse_origins lib [] = Ok []"
| "parse_origins lib (o1 # os) = (if \<not> bl_header_value lib o1 then Err (InvalidOrigin o1)
     else (case parse_origins lib os of Inl e \<Rightarrow> Err e | Inr ps \<Rightarrow> Ok (o1 # ps)))"

definition cors_layer :: "boot_lib \<Rightarrow> string \<Rightarrow> boot_error + cors" where
  "cors_layer lib origins =
    (case parse_origins lib (filter (\<lambda>s. s \<noteq> []) (map trim (split_char (CHR '','') origins))) of
       Inl e \<Rightarrow> Err e
     | Inr parsed \<Rightarrow> if parsed = [] then Err NoOrigins
         else Ok \<lparr> co_origins = parsed, co_methods = [''GET'', ''POST''], co_headers = [''authorization'', ''content-type''] \<rparr>)"

definition wire_cors :: "boot_lib \<Rightarrow> env_vars \<Rightarrow> boot_error + cors option" where
  "wire_cors lib env = (case env_nonempty env ''SECUREOPS_CORS_ORIGINS'' of
     None \<Rightarrow> Ok None
   | Some origins \<Rightarrow> (case cors_layer lib origins of Inl e \<Rightarrow> Err e | Inr c \<Rightarrow> Ok (Some c)))"

subsection \<open>The boot\<close>

record boot =
  bt_config :: api_config
  bt_store :: store_choice
  bt_limiter :: rate_limiter
  bt_evidence :: "s3_presigner option"
  bt_spa :: "string option"
  bt_cors :: "cors option"
  bt_addr :: string

definition insecure_bind :: "env_vars \<Rightarrow> bool" where
  "insecure_bind env = env_flag env ''SECUREOPS_ALLOW_INSECURE_BIND''"

definition guard_bind :: "env_vars \<Rightarrow> string \<Rightarrow> boot_error + unit" where
  "guard_bind env addr =
    (if dev_mode env \<and> \<not> is_loopback_addr addr \<and> \<not> insecure_bind env then Err (InsecureBind addr) else Ok ())"

definition api_boot :: "boot_lib \<Rightarrow> api_config \<Rightarrow> env_vars \<Rightarrow> boot_error + boot" where
  "api_boot lib libs env =
    (case load_jwt_secret env of Inl e \<Rightarrow> Err e | Inr jwt_secret \<Rightarrow>
    (case load_license_pubkey lib env (dev_mode env) of Inl e \<Rightarrow> Err e | Inr pubkey \<Rightarrow>
    (case open_store lib env of Inl e \<Rightarrow> Err e | Inr store \<Rightarrow>
    (let state = wire_redis lib env (wire_oidc lib env (wire_pepper env (app_state_new libs jwt_secret pubkey)));
         addr = unwrap_or (env ''SECUREOPS_API_ADDR'') ''127.0.0.1:8080''
     in case wire_cors lib env of Inl e \<Rightarrow> Err e | Inr co \<Rightarrow>
       (case guard_bind env addr of Inl e \<Rightarrow> Err e
        | Inr _ \<Rightarrow> Ok \<lparr> bt_config = state, bt_store = store, bt_limiter = limiter_from_env (bl_parse_i64 lib) env,
            bt_evidence = wire_evidence env, bt_spa = env_nonempty env ''SECUREOPS_WEB_DIR'', bt_cors = co, bt_addr = addr \<rparr>)))))"

datatype listening = Https string | PlainHttp string

definition serve_plain :: "boot_lib \<Rightarrow> string \<Rightarrow> boot_error + listening" where
  "serve_plain lib addr = (case bl_bind lib addr of Inl e \<Rightarrow> Err (BindFailed e) | Inr _ \<Rightarrow> Ok (PlainHttp addr))"

definition api_serve :: "boot_lib \<Rightarrow> env_vars \<Rightarrow> string \<Rightarrow> boot_error + listening" where
  "api_serve lib env addr =
    (if \<not> bl_tls lib then serve_plain lib addr
     else let cert = unwrap_or (env ''SECUREOPS_TLS_CERT'') []; key = unwrap_or (env ''SECUREOPS_TLS_KEY'') [] in
       if cert = [] \<or> key = [] then serve_plain lib addr
       else if \<not> bl_socket_addr lib addr then Err (TlsAddress addr)
       else (case bl_pem_files lib cert key of Inl e \<Rightarrow> Err (TlsFiles e)
         | Inr _ \<Rightarrow> (case bl_bind lib addr of Inl e \<Rightarrow> Err (BindFailed e) | Inr _ \<Rightarrow> Ok (Https addr))))"

definition api_main :: "boot_lib \<Rightarrow> api_config \<Rightarrow> env_vars \<Rightarrow> boot_error + boot \<times> listening" where
  "api_main lib libs env = (case api_boot lib libs env of Inl e \<Rightarrow> Err e
     | Inr b \<Rightarrow> (case api_serve lib env (bt_addr b) of Inl e \<Rightarrow> Err e | Inr l \<Rightarrow> Ok (b, l)))"

subsection \<open>Probes\<close>

definition livez :: http_response where
  "livez = json_response 200 (JObj [(''status'', JStr ''ok'')])"

definition readyz_response :: "bool \<Rightarrow> http_response" where
  "readyz_response db_ok = (if db_ok then json_response 200 (JObj [(''status'', JStr ''ready'')])
     else \<lparr> hr_status = 503, hr_headers = [(''retry-after'', ''5'')],
       hr_body = JObj [(''status'', JStr ''degraded''), (''reason'', JStr ''database_unreachable'')] \<rparr>)"

definition readyz :: "'s store_ops \<Rightarrow> 's \<Rightarrow> http_response" where
  "readyz ops s = readyz_response (st_health ops s)"

subsection \<open>The Redis queue\<close>

definition SCAN_QUEUE :: string where
  "SCAN_QUEUE = ''secureops:scans''"

text \<open>The lists of a Redis server; a call fails without a connection or with an error of the command.\<close>

type_synonym redis = "(string, string list) hmap"

definition queue_from_url :: "boot_lib \<Rightarrow> string \<Rightarrow> string + unit" where
  "queue_from_url lib url = bl_redis_pool lib url"

definition enqueue :: "string option \<Rightarrow> string \<Rightarrow> string \<Rightarrow> redis \<Rightarrow> (string + unit) \<times> redis" where
  "enqueue failure queue payload r = (case failure of
     Some e \<Rightarrow> (Err e, r)
   | None \<Rightarrow> (Ok (), hm_insert queue (payload # unwrap_or (hm_get r queue) []) r))"

definition redis_health :: "string option \<Rightarrow> string option \<Rightarrow> bool" where
  "redis_health pool_error reply = (case pool_error of Some _ \<Rightarrow> False | None \<Rightarrow> reply = Some ''PONG'')"

subsection \<open>The dashboard fallback\<close>

text \<open>
  A request that no route matched: the path, what \<open>any_license\<close> answers if it is asked, and what reading \<open>index.html\<close> gives. The state is
  the memo; the flag says whether the store was asked.
\<close>

record spa_request =
  sq_path :: string
  sq_any_license :: "string + bool"
  sq_index :: "string + string"

datatype spa_response = Redirected string | Page string | NotBuilt

definition spa_step :: "bool \<Rightarrow> spa_request \<Rightarrow> spa_response \<times> bool \<times> bool" where
  "spa_step activated q =
    (let page = (case sq_index q of Inr html \<Rightarrow> Page html | Inl _ \<Rightarrow> NotBuilt) in
     if sq_path q \<noteq> ''/license'' \<and> \<not> activated
     then (case sq_any_license q of Inr True \<Rightarrow> (page, True, True) | _ \<Rightarrow> (Redirected ''/license'', False, True))
     else (page, activated, False))"

fun spa_run :: "bool \<Rightarrow> spa_request list \<Rightarrow> (spa_response \<times> bool) list" where
  "spa_run activated [] = []"
| "spa_run activated (q # qs) = (let (r, activated', asked) = spa_step activated q in (r, asked) # spa_run activated' qs)"

subsection \<open>The live OIDC verifier\<close>

record 'k oidc_lib =
  ol_header_kid :: "string \<Rightarrow> string option"
  ol_fetch_json :: "string \<Rightarrow> json option"
  ol_rsa_key :: "string \<Rightarrow> string \<Rightarrow> 'k option"
  ol_decode_rs256 :: "string \<Rightarrow> 'k \<Rightarrow> string list \<Rightarrow> string list \<Rightarrow> json option"

definition json_array_at :: "json \<Rightarrow> string \<Rightarrow> json list option" where
  "json_array_at v k = (case json_get v k of Some (JArr xs) \<Rightarrow> Some xs | _ \<Rightarrow> None)"

definition http_oidc_verify :: "'k oidc_lib \<Rightarrow> string \<Rightarrow> string \<Rightarrow> string \<Rightarrow> string \<Rightarrow> string \<Rightarrow> oidc_claims option" where
  "http_oidc_verify ol jwks_uri audience issuer default_tenant token = do {
     kid \<leftarrow> ol_header_kid ol token;
     jwks \<leftarrow> ol_fetch_json ol jwks_uri;
     keys \<leftarrow> json_array_at jwks ''keys'';
     key \<leftarrow> find (\<lambda>k. json_str_field k ''kid'' = Some kid) keys;
     n \<leftarrow> json_str_field key ''n'';
     e \<leftarrow> json_str_field key ''e'';
     dk \<leftarrow> ol_rsa_key ol n e;
     payload \<leftarrow> ol_decode_rs256 ol token dk [audience] [issuer];
     Some (map_oidc_claims payload default_tenant) }"

subsection \<open>Properties\<close>

lemma api_boot_Ok:
  assumes "api_boot lib libs env = Ok b"
  shows "\<exists>jwt pubkey. load_jwt_secret env = Ok jwt \<and> load_license_pubkey lib env (dev_mode env) = Ok pubkey \<and>
    guard_bind env (bt_addr b) = Ok () \<and> bt_addr b = unwrap_or (env ''SECUREOPS_API_ADDR'') ''127.0.0.1:8080'' \<and>
    bt_config b = wire_redis lib env (wire_oidc lib env (wire_pepper env (app_state_new libs jwt pubkey)))"
  using assms by (auto simp: api_boot_def Let_def split: sum.splits)

lemma wiring_keeps:
  "cf_export (wire_redis lib env (wire_oidc lib env (wire_pepper env cfg))) = cf_export cfg"
  "cf_license_pubkey (wire_redis lib env (wire_oidc lib env (wire_pepper env cfg))) = cf_license_pubkey cfg"
  "ac_jwt_secret (cf_auth (wire_redis lib env (wire_oidc lib env (wire_pepper env cfg)))) = ac_jwt_secret (cf_auth cfg)"
  "cf_ed (wire_redis lib env (wire_oidc lib env (wire_pepper env cfg))) = cf_ed cfg"
  "cf_zip (wire_redis lib env (wire_oidc lib env (wire_pepper env cfg))) = cf_zip cfg"
  by (simp_all add: wire_redis_def wire_oidc_def wire_pepper_def with_redis_def with_oidc_def with_api_key_pepper_def
      split: option.splits sum.splits)

text \<open>
  C16: A server that starts never exposes the built-in secrets by accident. Outside development mode its session secret and its vendor
  key are the ones of the environment, the latter exactly 32 decoded bytes. In development mode, where they may be the
  built-in ones, it listens on a loopback address unless the operator set \<open>SECUREOPS_ALLOW_INSECURE_BIND\<close>; an address of
  four decimal numbers and a port then starts with 127.
\<close>

theorem dev_secrets_stay_local:
  assumes "api_boot lib libs env = Ok b"
  shows "(if dev_mode env then is_loopback_addr (bt_addr b) \<or> insecure_bind env
     else env ''SECUREOPS_JWT_SECRET'' = Some (ac_jwt_secret (cf_auth (bt_config b))) \<and> ac_jwt_secret (cf_auth (bt_config b)) \<noteq> [] \<and>
       length (cf_license_pubkey (bt_config b)) = 32 \<and>
       (\<exists>k. env ''SECUREOPS_LICENSE_PUBKEY'' = Some k \<and> bl_b64_decode lib k = Some (cf_license_pubkey (bt_config b)))) \<and>
    (\<forall>w x y z port. w < 256 \<and> x < 256 \<and> y < 256 \<and> z < 256 \<and> CHR '':'' \<notin> set port \<and> dev_mode env \<and> \<not> insecure_bind env \<and>
       bt_addr b = show_nat w @ ''.'' @ show_nat x @ ''.'' @ show_nat y @ ''.'' @ show_nat z @ '':'' @ port \<longrightarrow> w = 127)"
proof -
  obtain jwt pubkey where b: "load_jwt_secret env = Ok jwt" "load_license_pubkey lib env (dev_mode env) = Ok pubkey"
    "guard_bind env (bt_addr b) = Ok ()"
    "bt_config b = wire_redis lib env (wire_oidc lib env (wire_pepper env (app_state_new libs jwt pubkey)))"
    using api_boot_Ok [OF assms] by blast
  have "ac_jwt_secret (cf_auth (bt_config b)) = jwt" "cf_license_pubkey (bt_config b) = pubkey"
    by (simp_all add: b(4) wiring_keeps app_state_new_def)
  then show ?thesis using b(1-3) loopback_dotted
    by (auto simp: load_jwt_secret_def load_license_pubkey_def env_nonempty_def guard_bind_def split: option.splits if_splits)
qed

text \<open>A production boot and one in development mode on all interfaces, which is refused.\<close>

definition demo_boot_lib :: boot_lib where
  "demo_boot_lib = \<lparr> bl_b64_decode = (\<lambda>s. if s = ''KEY'' then Some (replicate 32 (CHR ''k'')) else None),
     bl_verifying_key = (\<lambda>s. s), bl_pg_connect = (\<lambda>_. Ok ()), bl_pg_migrate = (\<lambda>_. Ok ()), bl_redis_pool = (\<lambda>_. Ok ()),
     bl_header_value = (\<lambda>_. True), bl_parse_i64 = (\<lambda>_. None), bl_live_oidc = None, bl_tls = False,
     bl_socket_addr = (\<lambda>_. True), bl_pem_files = (\<lambda>_ _. Ok ()), bl_bind = (\<lambda>_. Ok ()) \<rparr>"

definition demo_server_env :: env_vars where
  "demo_server_env = map_of [(''SECUREOPS_JWT_SECRET'', ''hunter2''), (''SECUREOPS_LICENSE_PUBKEY'', ''KEY''), (''SECUREOPS_API_ADDR'', ''0.0.0.0:8080'')]"

definition demo_dev_env :: env_vars where
  "demo_dev_env = map_of [(''SECUREOPS_DEV_MODE'', ''TRUE''), (''SECUREOPS_API_ADDR'', ''0.0.0.0:8080'')]"

lemma demo_boot_ok: "\<exists>b. api_boot demo_boot_lib demo_config demo_server_env = Ok b"
  by (simp add: api_boot_def demo_server_env_def demo_boot_lib_def load_jwt_secret_def load_license_pubkey_def open_store_def env_nonempty_def
      wire_cors_def guard_bind_def dev_mode_def env_flag_def Let_def)

theorem dev_secrets_stay_local_witness:
  "(\<exists>b. api_boot demo_boot_lib demo_config demo_server_env = Ok b \<and> ac_jwt_secret (cf_auth (bt_config b)) = ''hunter2'') \<and>
   api_boot demo_boot_lib demo_config demo_dev_env = Err (InsecureBind ''0.0.0.0:8080'')"
proof -
  obtain b where b: "api_boot demo_boot_lib demo_config demo_server_env = Ok b" using demo_boot_ok by blast
  have "\<not> dev_mode demo_server_env" "demo_server_env ''SECUREOPS_JWT_SECRET'' = Some ''hunter2''"
    by (simp_all add: dev_mode_def env_flag_def demo_server_env_def)
  then have "ac_jwt_secret (cf_auth (bt_config b)) = ''hunter2''" using dev_secrets_stay_local [OF b] by simp
  moreover have "dev_mode demo_dev_env" "\<not> insecure_bind demo_dev_env" "\<not> is_loopback_addr ''0.0.0.0:8080''" by code_simp+
  then have "api_boot demo_boot_lib demo_config demo_dev_env = Err (InsecureBind ''0.0.0.0:8080'')"
    by (simp add: api_boot_def demo_dev_env_def [unfolded fun_eq_iff] demo_boot_lib_def load_jwt_secret_def load_license_pubkey_def
        open_store_def env_nonempty_def wire_cors_def guard_bind_def Let_def)
  ultimately show ?thesis using b by blast
qed

text \<open>
  Every server signs its incident exports with the same key, the one of the seed in the source: nothing in the boot replaces it. So anybody
  with the source can build, from any two documents, a bundle that verifies against the public key such a server publishes.
\<close>

theorem builtin_export_key_forgeable:
  assumes "api_boot lib libs env = Ok b" and "ed_ok ed" and "utf8_valid findings" "utf8_valid manifest"
    and "zip_ok zl (bundle_entries findings manifest (ed_sign_with ed BUILTIN_EXPORT_SEED (findings @ manifest)) (ed_public ed BUILTIN_EXPORT_SEED))"
  shows "\<exists>bundle. export_build ed zl (export_from_seed BUILTIN_EXPORT_SEED) findings manifest = Ok bundle \<and>
    export_verify ed zl bundle (export_public_key ed (cf_export (bt_config b))) = Returns (Ok True)"
proof -
  let ?sig = "ed_sign_with ed BUILTIN_EXPORT_SEED (findings @ manifest)" and ?pk = "ed_public ed BUILTIN_EXPORT_SEED"
  have ex: "cf_export (bt_config b) = export_from_seed BUILTIN_EXPORT_SEED"
    using api_boot_Ok [OF assms(1)] by (auto simp: wiring_keeps app_state_new_def)
  obtain z f where z: "zip_write zl (bundle_entries findings manifest ?sig ?pk) = Some z" "zip_read zl z = Some f"
    "\<And>k. f k = map_of (bundle_entries findings manifest ?sig ?pk) k"
    using assms(5) unfolding zip_ok_def by metis
  have ed: "length ?sig = 64" "ed_from_bytes ed ?pk" "ed_check ed ?pk (findings @ manifest) ?sig"
    using assms(2) by (simp_all add: ed_ok_def)
  have "export_build ed zl (export_from_seed BUILTIN_EXPORT_SEED) findings manifest = Ok z"
    using z(1) by (simp add: export_build_def export_from_seed_def export_public_key_def export_payload_def bundle_entries_def)
  moreover have "export_verify ed zl z ?pk = Returns (Ok True)"
    using export_verify_bundle [OF z(2,3) assms(3,4) ed(1), of ed ?pk] ed(2,3) by simp
  ultimately show ?thesis by (auto simp: ex export_public_key_def export_from_seed_def)
qed

definition demo_forged :: "(string \<times> string) list" where
  "demo_forged = bundle_entries ''[]'' ''{}'' (ed_sign_with demo_ed BUILTIN_EXPORT_SEED (''[]'' @ ''{}'')) (ed_public demo_ed BUILTIN_EXPORT_SEED)"

theorem builtin_export_key_forgeable_witness:
  "\<exists>b bundle. api_boot demo_boot_lib demo_config demo_server_env = Ok b \<and>
    export_build demo_ed (demo_zip demo_forged []) (export_from_seed BUILTIN_EXPORT_SEED) ''[]'' ''{}'' = Ok bundle \<and>
    export_verify demo_ed (demo_zip demo_forged []) bundle (export_public_key demo_ed (cf_export (bt_config b))) = Returns (Ok True)"
proof -
  obtain b where b: "api_boot demo_boot_lib demo_config demo_server_env = Ok b" using demo_boot_ok by blast
  have ed: "ed_ok demo_ed" by (simp add: ed_ok_def demo_ed_def)
  have u: "utf8_valid ''[]''" "utf8_valid ''{}''" by code_simp+
  show ?thesis using b builtin_export_key_forgeable [OF b ed u] demo_zip_ok(1) unfolding demo_forged_def by blast
qed

text \<open>The memo before a request, in terms of the requests before it.\<close>

definition license_seen :: "spa_request \<Rightarrow> bool" where
  "license_seen q \<longleftrightarrow> sq_path q \<noteq> ''/license'' \<and> sq_any_license q = Ok True"

lemma spa_step_memo: "fst (snd (spa_step activated q)) \<longleftrightarrow> activated \<or> license_seen q"
  by (auto simp: spa_step_def license_seen_def Let_def split: sum.splits bool.splits)

lemma spa_run_nth:
  "i < length qs \<Longrightarrow> spa_run activated qs ! i =
    (case spa_step (activated \<or> (\<exists>j<i. license_seen (qs ! j))) (qs ! i) of (r, _, asked) \<Rightarrow> (r, asked))"
proof (induction qs arbitrary: activated i)
  case (Cons q qs)
  obtain r act asked where step: "spa_step activated q = (r, act, asked)" by (metis prod_cases3)
  then have act: "act \<longleftrightarrow> activated \<or> license_seen q" using spa_step_memo [of activated q] by simp
  show ?case
  proof (cases i)
    case 0
    then show ?thesis by (simp add: step)
  next
    case (Suc k)
    have "(\<exists>j<Suc k. license_seen ((q # qs) ! j)) \<longleftrightarrow> license_seen q \<or> (\<exists>j<k. license_seen (qs ! j))"
      by (auto simp: less_Suc_eq_0_disj)
    then show ?thesis using Cons.IH [of k act] Cons.prems Suc by (simp add: step act disj_assoc)
  qed
qed simp

text \<open>
  The first-run wizard cannot be skipped and costs one store query. For any requests to the dashboard, in order, with any answers of the store:
  a path other than \<open>/license\<close> gets the dashboard exactly when this request or an earlier one (to such a path) found
  an activated license, and the redirect to \<open>/license\<close> otherwise, in particular while the store is down; and the store is
  asked exactly for such a path and only until a license was found.
\<close>

theorem dashboard_needs_license:
  assumes "i < length qs"
  shows "let q = qs ! i; seen = (\<exists>j<i. license_seen (qs ! j)); (r, asked) = spa_run False qs ! i in
    (asked \<longleftrightarrow> sq_path q \<noteq> ''/license'' \<and> \<not> seen) \<and>
    r = (if sq_path q = ''/license'' \<or> seen \<or> license_seen q then (case sq_index q of Inr html \<Rightarrow> Page html | Inl _ \<Rightarrow> NotBuilt)
         else Redirected ''/license'')"
  using assms
  by (auto simp: spa_run_nth spa_step_def license_seen_def Let_def split: sum.splits bool.splits)

theorem dashboard_needs_license_witness:
  "map fst (spa_run False [\<lparr> sq_path = ''/findings'', sq_any_license = Err ''down'', sq_index = Ok ''app'' \<rparr>,
     \<lparr> sq_path = ''/license'', sq_any_license = Ok False, sq_index = Ok ''app'' \<rparr>,
     \<lparr> sq_path = ''/findings'', sq_any_license = Ok True, sq_index = Ok ''app'' \<rparr>]) = [Redirected ''/license'', Page ''app'', Page ''app'']"
  (is "map fst (spa_run False ?qs) = _")
proof -
  have "fst (spa_run False ?qs ! 0) = Redirected ''/license''" using dashboard_needs_license [of 0 ?qs]
    by (simp add: license_seen_def Let_def split: prod.splits)
  then show ?thesis by (simp add: spa_step_def Let_def)
qed

text \<open>The readiness probe follows the connection of the Postgres store.\<close>

lemma readyz_pg: "hr_status (readyz (pg_store e) p) = (if pe_link e = LinkUp then 200 else 503)"
  by (simp add: readyz_def readyz_response_def pg_health_def split: pg_link.splits)

end
