(* ===== verification/LicenseTool.thy ===== *)
theory LicenseTool
  imports Server
begin

text \<open>
  The license server's binary (\<open>secureops-license-server/src/main.rs\<close>): the vendor commands \<open>mint\<close> and \<open>verify\<close> around the key format of
  \<open>License\<close>, and the start of the server from the environment. Argument parsing is \<open>clap\<close>'s; its defaults are those of the
  derive attributes. The clock is an argument, and what a command prints is its result.
\<close>

datatype tool_error = UnknownTier string | SigningKeyRequired | SigningKeyNotBase64 | SigningKeyLength | KeyNotGiven | KeyNotBase64
  | KeyLength | LicenseInvalid string | AdminKeyRequired | Boot boot_error

record tool_lib =
  tl_crypto :: license_crypto
  tl_verifying_key :: "string \<Rightarrow> string"
  tl_pretty :: "json \<Rightarrow> string"
  tl_bind :: "string \<Rightarrow> string + unit"

record mint_args =
  ma_tenant :: string
  ma_tier :: string
  ma_days :: u32
  ma_seats :: u32
  ma_features :: "string option"
  ma_grace_days :: u32
  ma_dev :: bool

definition mint_defaults :: "string \<Rightarrow> mint_args" where
  "mint_defaults tenant = \<lparr> ma_tenant = tenant, ma_tier = ''community'', ma_days = 365, ma_seats = 5, ma_features = None,
     ma_grace_days = 7, ma_dev = False \<rparr>"

datatype license_cmd = ServeCmd | MintCmd mint_args | VerifyCmd string "string option" bool

definition tier_features :: "tier \<Rightarrow> string list" where
  "tier_features t = (case t of Community \<Rightarrow> [] | Pro \<Rightarrow> [''threat_intel''] | Enterprise \<Rightarrow> [''threat_intel'', ''bughunt'', ''sso''])"

definition parse_tier :: "string \<Rightarrow> tool_error + tier" where
  "parse_tier s = (let t = to_ascii_lowercase s in
     if t = ''community'' then Ok Community else if t = ''pro'' then Ok Pro else if t = ''enterprise'' then Ok Enterprise
     else Err (UnknownTier t))"

subsection \<open>mint\<close>

definition load_signing_seed :: "tool_lib \<Rightarrow> env_vars \<Rightarrow> bool \<Rightarrow> tool_error + string" where
  "load_signing_seed lt env dev = (if dev then Ok DEV_SEED else
     (case env ''SECUREOPS_SIGNING_KEY'' of None \<Rightarrow> Err SigningKeyRequired
      | Some b64 \<Rightarrow> (case b64_decode (tl_crypto lt) b64 of None \<Rightarrow> Err SigningKeyNotBase64
          | Some bytes \<Rightarrow> if length bytes = 32 then Ok bytes else Err SigningKeyLength)))"

definition mint_features :: "tier \<Rightarrow> string option \<Rightarrow> string list" where
  "mint_features tier features = (case features of
     Some list \<Rightarrow> filter (\<lambda>s. s \<noteq> []) (map trim (split_char (CHR '','') list))
   | None \<Rightarrow> tier_features tier)"

definition minted_license :: "mint_args \<Rightarrow> tier \<Rightarrow> int \<Rightarrow> license" where
  "minted_license a tier now = \<lparr> lic_id = ''lic_'' @ ma_tenant a @ ''_'' @ show_int now, lic_tenant_id = ma_tenant a, lic_tier = tier,
     lic_seats = ma_seats a, lic_features = mint_features tier (ma_features a), lic_issued = now,
     lic_expiry = now + uint (ma_days a) * 86400, lic_mode = ''offline'', lic_grace_days = ma_grace_days a \<rparr>"

definition mint :: "tool_lib \<Rightarrow> env_vars \<Rightarrow> int \<Rightarrow> mint_args \<Rightarrow> tool_error + string" where
  "mint lt env now a = (case parse_tier (ma_tier a) of Inl e \<Rightarrow> Err e
     | Inr tier \<Rightarrow> (case load_signing_seed lt env (ma_dev a) of Inl e \<Rightarrow> Err e
         | Inr seed \<Rightarrow> Ok (license_sign (tl_crypto lt) (minted_license a tier now) seed)))"

subsection \<open>verify\<close>

definition load_verify_key :: "tool_lib \<Rightarrow> env_vars \<Rightarrow> string option \<Rightarrow> bool \<Rightarrow> tool_error + string" where
  "load_verify_key lt env pubkey_b64 dev = (if dev then Ok (tl_verifying_key lt DEV_SEED) else
     (case or_opt pubkey_b64 (env ''SECUREOPS_LICENSE_PUBKEY'') of None \<Rightarrow> Err KeyNotGiven
      | Some b64 \<Rightarrow> (case b64_decode (tl_crypto lt) b64 of None \<Rightarrow> Err KeyNotBase64
          | Some bytes \<Rightarrow> if length bytes = 32 then Ok bytes else Err KeyLength)))"

definition verify_key :: "tool_lib \<Rightarrow> env_vars \<Rightarrow> int \<Rightarrow> string \<Rightarrow> string option \<Rightarrow> bool \<Rightarrow> tool_error + string" where
  "verify_key lt env now key pubkey_b64 dev = (case load_verify_key lt env pubkey_b64 dev of Inl e \<Rightarrow> Err e
     | Inr pubkey \<Rightarrow> (case license_verify (tl_crypto lt) key pubkey now of
         Inr lic \<Rightarrow> Ok (tl_pretty lt (license_json lic))
       | Inl code \<Rightarrow> Err (LicenseInvalid code)))"

subsection \<open>serve\<close>

definition load_pubkey :: "tool_lib \<Rightarrow> env_vars \<Rightarrow> bool \<Rightarrow> tool_error + string" where
  "load_pubkey lt env dev = (case env_nonempty env ''SECUREOPS_LICENSE_PUBKEY'' of
     Some b64 \<Rightarrow> (case b64_decode (tl_crypto lt) b64 of
         None \<Rightarrow> Err (Boot PubkeyNotBase64)
       | Some bytes \<Rightarrow> if length bytes = 32 then Ok bytes else Err (Boot (PubkeyLength (length bytes))))
   | None \<Rightarrow> if dev then Ok (tl_verifying_key lt DEV_SEED) else Err (Boot PubkeyRequired))"

definition load_admin_key :: "env_vars \<Rightarrow> bool \<Rightarrow> tool_error + string" where
  "load_admin_key env dev = (case env_nonempty env ''SECUREOPS_ADMIN_KEY'' of
     Some k \<Rightarrow> Ok k | None \<Rightarrow> if dev then Ok ''dev-admin-key'' else Err AdminKeyRequired)"

definition license_serve :: "tool_lib \<Rightarrow> env_vars \<Rightarrow> tool_error + license_server \<times> string" where
  "license_serve lt env = (case load_pubkey lt env (dev_mode env) of Inl e \<Rightarrow> Err e
     | Inr pubkey \<Rightarrow> (case load_admin_key env (dev_mode env) of Inl e \<Rightarrow> Err e
         | Inr admin_key \<Rightarrow> (let addr = unwrap_or (env ''SECUREOPS_LICENSE_ADDR'') ''127.0.0.1:8090'' in
             case tl_bind lt addr of Inl e \<Rightarrow> Err (Boot (BindFailed e)) | Inr _ \<Rightarrow> Ok (server_new pubkey admin_key, addr))))"

datatype tool_outcome = Serving license_server string | Printed string

definition license_main :: "tool_lib \<Rightarrow> env_vars \<Rightarrow> int \<Rightarrow> license_cmd option \<Rightarrow> tool_error + tool_outcome" where
  "license_main lt env now cmd = (case unwrap_or cmd ServeCmd of
     ServeCmd \<Rightarrow> map_sum id (\<lambda>(s, addr). Serving s addr) (license_serve lt env)
   | MintCmd a \<Rightarrow> map_sum id Printed (mint lt env now a)
   | VerifyCmd key pubkey dev \<Rightarrow> map_sum id Printed (verify_key lt env now key pubkey dev))"

subsection \<open>Properties\<close>

text \<open>
  C20: A license that the tool mints works until it expires, and only until then. Whatever the arguments and whether the key is the
  development one or the vendor's: the key is accepted by \<open>verify\<close> under the matching public key, which prints exactly the
  minted claims, and it is reported active by a license server started with that public key, for \<open>days\<close> days to
  the second; later both say that it has expired, whatever the grace days.
\<close>

theorem minted_license_works:
  assumes "mint lt env now a = Ok key" and "load_signing_seed lt env (ma_dev a) = Ok seed" and "parse_tier (ma_tier a) = Ok tier"
    and "crypto_laws (tl_crypto lt) (tl_verifying_key lt seed) seed (minted_license a tier now)"
    and "load_verify_key lt env pubkey dev = Ok (tl_verifying_key lt seed)"
  shows "let lic = minted_license a tier now; ok = (later \<le> now + uint (ma_days a) * 86400) in
    lic_expiry lic = now + uint (ma_days a) * 86400 \<and> lic_tenant_id lic = ma_tenant a \<and>
    verify_key lt env later key pubkey dev = (if ok then Ok (tl_pretty lt (license_json lic)) else Err (LicenseInvalid ''license_expired'')) \<and>
    json_get (hr_body (heartbeat (tl_crypto lt) (server_new (tl_verifying_key lt seed) admin) later
      \<lparr> hb_key = key, hb_instance_fingerprint = fp, hb_version = v \<rparr>)) ''status'' = Some (JStr (if ok then ''active'' else ''expired''))"
proof -
  let ?lic = "minted_license a tier now"
  have key: "key = license_sign (tl_crypto lt) ?lic seed" using assms(1-3) by (simp add: mint_def)
  have "key_signed (tl_crypto lt) (tl_verifying_key lt seed) key (license_to_vec (tl_crypto lt) ?lic)"
    unfolding key by (rule sign_key_signed [OF assms(4)])
  then have "license_verify (tl_crypto lt) key (tl_verifying_key lt seed) later =
      (if later \<le> lic_expiry ?lic then Ok ?lic else Err ''license_expired'')"
    using assms(4) by (simp add: verify_signed crypto_laws_def is_expired_at_def)
  then show ?thesis using assms(5)
    by (simp add: verify_key_def heartbeat_def server_new_def hs_contains_def Let_def minted_license_def)
qed

definition demo_mint :: mint_args where
  "demo_mint = (mint_defaults ''acme'')\<lparr> ma_tier := ''Pro'', ma_dev := True \<rparr>"

definition demo_tool :: tool_lib where
  "demo_tool = \<lparr> tl_crypto = demo_crypto\<lparr> license_to_vec := (\<lambda>_. ''L''), license_from_slice := (\<lambda>_. Some (minted_license demo_mint Pro 1000)) \<rparr>,
     tl_verifying_key = (\<lambda>s. s), tl_pretty = (\<lambda>_. ''{}''), tl_bind = (\<lambda>_. Ok ()) \<rparr>"

lemma demo_tool_laws: "crypto_laws (tl_crypto demo_tool) DEV_SEED DEV_SEED (minted_license demo_mint Pro 1000)"
  by (auto simp: crypto_laws_def demo_tool_def demo_crypto_def demo_unb64_demo_b64) (auto simp: demo_b64_def split: if_splits)

theorem minted_license_works_witness:
  "\<exists>key. mint demo_tool (\<lambda>_. None) 1000 demo_mint = Ok key \<and>
    verify_key demo_tool (\<lambda>_. None) 31537000 key None True = Ok ''{}'' \<and>
    verify_key demo_tool (\<lambda>_. None) 31537001 key None True = Err (LicenseInvalid ''license_expired'')"
proof -
  have seed: "load_signing_seed demo_tool (\<lambda>_. None) (ma_dev demo_mint) = Ok DEV_SEED"
    "parse_tier (ma_tier demo_mint) = Ok Pro" "ma_days demo_mint = 365"
    by code_simp+
  moreover have vk: "load_verify_key demo_tool (\<lambda>_. None) None True = Ok (tl_verifying_key demo_tool DEV_SEED)"
    "tl_verifying_key demo_tool DEV_SEED = DEV_SEED" by (simp_all add: load_verify_key_def demo_tool_def)
  obtain key where key: "mint demo_tool (\<lambda>_. None) 1000 demo_mint = Ok key" using seed by (simp add: mint_def)
  note works = minted_license_works [OF key seed(1,2) _ vk(1)]
  show ?thesis
    using works [of 31537000 "[]" None None] works [of 31537001 "[]" None None] demo_tool_laws key
    by (simp add: vk(2) seed(3) Let_def) (simp add: demo_tool_def)
qed

text \<open>
  Outside development mode the server starts only with both keys of the environment. In development mode it takes built-in ones and, unlike the
  platform server, listens wherever it is told: everybody who reaches it can revoke licenses with the published key.
\<close>

lemma license_server_keys:
  assumes "license_serve lt env = Ok (s, addr)" and "\<not> dev_mode env"
  shows "env ''SECUREOPS_ADMIN_KEY'' = Some (ls_admin_key s) \<and> ls_admin_key s \<noteq> [] \<and> length (ls_pubkey s) = 32 \<and>
    (\<exists>k. env ''SECUREOPS_LICENSE_PUBKEY'' = Some k \<and> b64_decode (tl_crypto lt) k = Some (ls_pubkey s))"
  using assms
  by (auto simp: license_serve_def load_pubkey_def load_admin_key_def env_nonempty_def server_new_def Let_def
      split: sum.splits option.splits if_splits)

lemma dev_license_server_exposed:
  assumes "dev_mode env" "env ''SECUREOPS_ADMIN_KEY'' = None" "env ''SECUREOPS_LICENSE_PUBKEY'' = None"
    and "env ''SECUREOPS_LICENSE_ADDR'' = Some addr" "tl_bind lt addr = Ok ()"
  shows "\<exists>s. license_serve lt env = Ok (s, addr) \<and>
    fst (revoke s [(''x-admin-key'', ''dev-admin-key'')] \<lparr> rv_lic_id = lic, rv_reason = None \<rparr>) = s\<lparr>ls_revoked := [lic]\<rparr>"
proof -
  have "header_str [(''x-admin-key'', ''dev-admin-key'')] ''x-admin-key'' = Some ''dev-admin-key''" by code_simp
  then show ?thesis using assms
    by (simp add: license_serve_def load_pubkey_def load_admin_key_def env_nonempty_def server_new_def revoke_def revoke_authorized_def
        ct_eq_iff hs_insert_def)
qed

end
