(* ===== verification/AwsScan.thy ===== *)
theory AwsScan
  imports Server Scanner
begin

text \<open>
  The live AWS collector (\<open>secureops-scanner/src/aws.rs\<close>) and the worker binary (\<open>main.rs\<close>). The SDK is a parameter: an
  \<open>aws_account\<close> holds what its calls answer, errors included; a paginator is the list of its results. The optional members of the
  SDK's types are kept optional. The rules that turn observations into findings are those of \<^const>\<open>evaluate_s3\<close>,
  \<^const>\<open>evaluate_security_groups\<close> and \<^const>\<open>evaluate_account\<close>. Log lines are left out.
\<close>

subsection \<open>What the SDK answers\<close>

record sdk_error =
  se_code :: "string option"
  se_text :: string

record public_access_block =
  pb_block_public_acls :: "bool option"
  pb_ignore_public_acls :: "bool option"
  pb_block_public_policy :: "bool option"
  pb_restrict_public_buckets :: "bool option"

record ip_permission =
  ip_protocol :: "string option"
  ip_from_port :: "int option"
  ip_to_port :: "int option"
  ip_ranges :: "string option list option"
  ip_ipv6_ranges :: "string option list option"

record sec_group =
  sgr_group_id :: "string option"
  sgr_group_name :: "string option"
  sgr_ip_permissions :: "ip_permission list option"

record aws_account =
  aw_list_buckets :: "sdk_error + string option list option"
  aw_public_access_block :: "string \<Rightarrow> sdk_error + public_access_block option"
  aw_bucket_encryption :: "string \<Rightarrow> sdk_error + unit"
  aw_group_pages :: "(sdk_error + sec_group list option) list"
  aw_trails :: "sdk_error + string list option"
  aw_account_summary :: "sdk_error + (string, int) hmap option"

subsection \<open>The collector\<close>

definition MAX_BUCKETS :: nat where
  "MAX_BUCKETS = 200"

definition MAX_SECURITY_GROUPS :: nat where
  "MAX_SECURITY_GROUPS = 1000"

definition blocks_all :: "public_access_block option \<Rightarrow> bool" where
  "blocks_all cfg = (case cfg of None \<Rightarrow> False | Some c \<Rightarrow>
     unwrap_or (pb_block_public_acls c) False \<and> unwrap_or (pb_ignore_public_acls c) False \<and>
     unwrap_or (pb_block_public_policy c) False \<and> unwrap_or (pb_restrict_public_buckets c) False)"

text \<open>One bucket: \<open>None\<close> when it is skipped, because one of the two calls failed for another reason than an absent configuration.\<close>

definition observe_bucket :: "aws_account \<Rightarrow> string \<Rightarrow> s3_bucket_observation option" where
  "observe_bucket acct name = do {
     pab \<leftarrow> (case aw_public_access_block acct name of
         Inr cfg \<Rightarrow> Some (Some (blocks_all cfg))
       | Inl e \<Rightarrow> if se_code e = Some ''NoSuchPublicAccessBlockConfiguration'' then Some None else None);
     encrypted \<leftarrow> (case aw_bucket_encryption acct name of
         Inr _ \<Rightarrow> Some True
       | Inl e \<Rightarrow> if se_code e = Some ''ServerSideEncryptionConfigurationNotFoundError'' then Some False else None);
     Some \<lparr> s3_name = name, s3_public_access_block_all = pab, s3_encrypted = encrypted \<rparr> }"

definition observe_s3 :: "aws_account \<Rightarrow> s3_bucket_observation list" where
  "observe_s3 acct = (case aw_list_buckets acct of
     Inl _ \<Rightarrow> []
   | Inr buckets \<Rightarrow> List.map_filter (\<lambda>b. Option.bind b (observe_bucket acct)) (take MAX_BUCKETS (unwrap_or buckets [])))"

definition open_rules :: "ip_permission \<Rightarrow> (int \<times> int \<times> string) list" where
  "open_rules perm =
    (let from = unwrap_or (ip_from_port perm) (-1); to = unwrap_or (ip_to_port perm) (-1) in
     map (\<lambda>_. (from, to, ''0.0.0.0/0'')) (filter (\<lambda>r. r = Some ''0.0.0.0/0'') (unwrap_or (ip_ranges perm) [])) @
     map (\<lambda>_. (from, to, ''::/0'')) (filter (\<lambda>r. r = Some ''::/0'') (unwrap_or (ip_ipv6_ranges perm) [])))"

definition observe_group :: "sec_group \<Rightarrow> security_group_observation" where
  "observe_group g = \<lparr> sg_id = unwrap_or (sgr_group_id g) [], sg_name = unwrap_or (sgr_group_name g) [],
     sg_world_open = concat (map open_rules (unwrap_or (sgr_ip_permissions g) [])) \<rparr>"

text \<open>The groups of one page; the flag is set when the cap ends the whole loop.\<close>

fun observe_page :: "sec_group list \<Rightarrow> security_group_observation list \<Rightarrow> bool \<times> security_group_observation list" where
  "observe_page [] out = (False, out)"
| "observe_page (g # gs) out =
    (let o1 = observe_group g; out' = (if sg_world_open o1 \<noteq> [] then out @ [o1] else out)
     in if length out' \<ge> MAX_SECURITY_GROUPS then (True, out') else observe_page gs out')"

fun observe_pages ::
  "(sdk_error + sec_group list option) list \<Rightarrow> security_group_observation list \<Rightarrow> security_group_observation list" where
  "observe_pages [] out = out"
| "observe_pages (Inl _ # ps) out = out"
| "observe_pages (Inr page # ps) out =
    (let (full, out') = observe_page (unwrap_or page []) out in if full then out' else observe_pages ps out')"

definition observe_security_groups :: "aws_account \<Rightarrow> security_group_observation list" where
  "observe_security_groups acct = observe_pages (aw_group_pages acct) []"

text \<open>A failed \<open>DescribeTrails\<close> counts as one trail, so that no finding follows.\<close>

definition observe_account :: "aws_account \<Rightarrow> account_observation" where
  "observe_account acct = \<lparr>
     ao_cloudtrail_trail_count = (case aw_trails acct of Inr ts \<Rightarrow> length (unwrap_or ts []) | Inl _ \<Rightarrow> 1),
     ao_root_mfa_enabled = (case aw_account_summary acct of
         Inr m \<Rightarrow> map_option (\<lambda>v. v = 1) (Option.bind m (\<lambda>h. hm_get h ''AccountMFAEnabled''))
       | Inl _ \<Rightarrow> None) \<rparr>"

definition aws_collect :: "aws_account \<Rightarrow> scan_job \<Rightarrow> string + collector_finding list" where
  "aws_collect acct job =
    (if sj_scope job \<noteq> ''aws'' \<and> sj_scope job \<noteq> ''all'' then Ok []
     else Ok (evaluate_s3 (observe_s3 acct) @ evaluate_security_groups (observe_security_groups acct) @
       evaluate_account (observe_account acct)))"

subsection \<open>The worker binary\<close>

datatype scanner_error = NoAwsFeature | UnknownCollector string | ScannerStore string | ScannerRedis string

record scanner_lib =
  sb_boot :: boot_lib
  sb_aws :: "aws_account option"
  sb_from_str :: "string \<Rightarrow> json option"
  sb_parse_uuid :: "string \<Rightarrow> uuid option"

text \<open>\<open>sb_aws\<close> is \<open>None\<close> in a build without the feature \<open>aws\<close>.\<close>

definition collector_from_env ::
  "scanner_lib \<Rightarrow> env_vars \<Rightarrow> scanner_error + (scan_job \<Rightarrow> string + collector_finding list)" where
  "collector_from_env lib env =
    (let which = unwrap_or (env ''SECUREOPS_COLLECTOR'') ''mock'' in
     if which = ''mock'' then Ok mock_collect
     else if which = ''aws'' then (case sb_aws lib of Some acct \<Rightarrow> Ok (aws_collect acct) | None \<Rightarrow> Err NoAwsFeature)
     else Err (UnknownCollector which))"

record scanner_boot =
  sc_redis_url :: string
  sc_queue :: string
  sc_store :: store_choice
  sc_worker :: worker

definition worker_from_url ::
  "scanner_lib \<Rightarrow> string \<Rightarrow> (scan_job \<Rightarrow> string + collector_finding list) \<Rightarrow> scanner_error + worker" where
  "worker_from_url lib url collect = (case bl_redis_pool (sb_boot lib) url of
     Inl e \<Rightarrow> Err (ScannerRedis e) | Inr _ \<Rightarrow> Ok (worker_new collect (sb_from_str lib) (sb_parse_uuid lib)))"

definition scanner_store :: "scanner_lib \<Rightarrow> env_vars \<Rightarrow> scanner_error + store_choice" where
  "scanner_store lib env = (case env_nonempty env ''DATABASE_URL'' of
     Some url \<Rightarrow> (case bl_pg_connect (sb_boot lib) url of Inl e \<Rightarrow> Err (ScannerStore e) | Inr _ \<Rightarrow> Ok (UsePostgres url))
   | None \<Rightarrow> Ok UseMemory)"

definition scanner_main :: "scanner_lib \<Rightarrow> env_vars \<Rightarrow> scanner_error + scanner_boot" where
  "scanner_main lib env =
    (let redis_url = unwrap_or (env ''REDIS_URL'') ''redis://127.0.0.1:6379'';
         queue = unwrap_or (env ''SECUREOPS_SCAN_QUEUE'') SCAN_QUEUE
     in case scanner_store lib env of Inl e \<Rightarrow> Err e | Inr store \<Rightarrow>
       (case collector_from_env lib env of Inl e \<Rightarrow> Err e | Inr collect \<Rightarrow>
       (case worker_from_url lib redis_url collect of Inl e \<Rightarrow> Err e
        | Inr w \<Rightarrow> Ok \<lparr> sc_redis_url = redis_url, sc_queue = queue, sc_store = store, sc_worker = w \<rparr>)))"

subsection \<open>The loop over the pages\<close>

text \<open>The groups of the pages that arrive: those before the first error.\<close>

fun delivered :: "(sdk_error + sec_group list option) list \<Rightarrow> sec_group list" where
  "delivered [] = []"
| "delivered (Inl _ # ps) = []"
| "delivered (Inr page # ps) = unwrap_or page [] @ delivered ps"

definition open_groups :: "sec_group list \<Rightarrow> security_group_observation list" where
  "open_groups gs = filter (\<lambda>o1. sg_world_open o1 \<noteq> []) (map observe_group gs)"

lemma open_groups_simps [simp]:
  "open_groups [] = []"
  "open_groups (g # gs) = (if sg_world_open (observe_group g) \<noteq> [] then [observe_group g] else []) @ open_groups gs"
  "open_groups (gs @ hs) = open_groups gs @ open_groups hs"
  by (simp_all add: open_groups_def)

lemma observe_page_take:
  assumes "length out < MAX_SECURITY_GROUPS"
  shows "observe_page gs out = (MAX_SECURITY_GROUPS \<le> length (out @ open_groups gs), take MAX_SECURITY_GROUPS (out @ open_groups gs))"
  using assms
proof (induction gs arbitrary: out)
  case (Cons g gs)
  then show ?case by (cases "sg_world_open (observe_group g) = []") (auto simp: Let_def not_le take_Cons')
qed auto

lemma observe_pages_take:
  assumes "length out < MAX_SECURITY_GROUPS"
  shows "observe_pages ps out = take MAX_SECURITY_GROUPS (out @ open_groups (delivered ps))"
  using assms
proof (induction ps arbitrary: out rule: delivered.induct)
  case (3 page ps)
  then show ?case by (auto simp: observe_page_take not_le)
qed auto

text \<open>The early return of the loop amounts to the first groups that are open to the world.\<close>

lemma observe_security_groups_take:
  "observe_security_groups acct = take MAX_SECURITY_GROUPS (open_groups (delivered (aw_group_pages acct)))"
  by (simp add: observe_security_groups_def observe_pages_take MAX_SECURITY_GROUPS_def)

subsection \<open>Findings need evidence\<close>

text \<open>What the answers of AWS must show for a finding; nothing here depends on how the collector works.\<close>

definition listed :: "aws_account \<Rightarrow> string option list" where
  "listed acct = (case aw_list_buckets acct of Inl _ \<Rightarrow> [] | Inr bs \<Rightarrow> unwrap_or bs [])"

definition fails_with :: "sdk_error + 'a \<Rightarrow> string \<Rightarrow> bool" where
  "fails_with r code \<longleftrightarrow> (case r of Inl e \<Rightarrow> se_code e = Some code | Inr _ \<Rightarrow> False)"

abbreviation no_block :: "aws_account \<Rightarrow> string \<Rightarrow> bool" where
  "no_block acct n \<equiv> fails_with (aw_public_access_block acct n) ''NoSuchPublicAccessBlockConfiguration''"

abbreviation no_encryption :: "aws_account \<Rightarrow> string \<Rightarrow> bool" where
  "no_encryption acct n \<equiv> fails_with (aw_bucket_encryption acct n) ''ServerSideEncryptionConfigurationNotFoundError''"

definition assessed :: "aws_account \<Rightarrow> string \<Rightarrow> bool" where
  "assessed acct n \<longleftrightarrow> Some n \<in> set (listed acct) \<and> (is_ok (aw_public_access_block acct n) \<or> no_block acct n) \<and>
     (is_ok (aw_bucket_encryption acct n) \<or> no_encryption acct n)"

definition bucket_finding :: "string \<Rightarrow> string \<Rightarrow> finding_severity \<Rightarrow> int \<Rightarrow> collector_finding" where
  "bucket_finding n detail sev blast = aws_finding (''S3 bucket '' @ quoted n @ '' '' @ detail) sev blast"

inductive evidenced :: "aws_account \<Rightarrow> collector_finding \<Rightarrow> bool" for acct where
  block_absent: "assessed acct n \<Longrightarrow> no_block acct n \<Longrightarrow>
    evidenced acct (bucket_finding n ''has no public-access-block configuration'' High 70)"
| block_partial: "assessed acct n \<Longrightarrow> aw_public_access_block acct n = Ok cfg \<Longrightarrow> \<not> blocks_all cfg \<Longrightarrow>
    evidenced acct (bucket_finding n ''has an incomplete public-access-block configuration'' High 70)"
| unencrypted: "assessed acct n \<Longrightarrow> no_encryption acct n \<Longrightarrow>
    evidenced acct (bucket_finding n ''has no default encryption'' Medium 40)"
| world_open: "g \<in> set (delivered (aw_group_pages acct)) \<Longrightarrow> perm \<in> set (unwrap_or (sgr_ip_permissions g) []) \<Longrightarrow>
    cidr = ''0.0.0.0/0'' \<and> Some cidr \<in> set (unwrap_or (ip_ranges perm) []) \<or>
    cidr = ''::/0'' \<and> Some cidr \<in> set (unwrap_or (ip_ipv6_ranges perm) []) \<Longrightarrow>
    evidenced acct (evaluate_rule (observe_group g) (unwrap_or (ip_from_port perm) (-1), unwrap_or (ip_to_port perm) (-1), cidr))"
| no_trail: "aw_trails acct = Ok ts \<Longrightarrow> unwrap_or ts [] = [] \<Longrightarrow>
    evidenced acct (aws_finding ''CloudTrail is not enabled in this account/region'' High 80)"
| root_without_mfa: "aw_account_summary acct = Ok (Some m) \<Longrightarrow> hm_get m ''AccountMFAEnabled'' = Some v \<Longrightarrow> v \<noteq> 1 \<Longrightarrow>
    evidenced acct (aws_finding ''Root account has no MFA device'' Critical 95)"

lemma observe_bucket_Some:
  assumes "observe_bucket acct n = Some b" and "Some n \<in> set (listed acct)"
  shows "assessed acct n \<and> s3_name b = n \<and> (s3_encrypted b \<longleftrightarrow> \<not> no_encryption acct n) \<and>
    (case s3_public_access_block_all b of None \<Rightarrow> no_block acct n
     | Some full \<Rightarrow> \<exists>cfg. aw_public_access_block acct n = Ok cfg \<and> full = blocks_all cfg)"
  using assms
  by (auto simp: observe_bucket_def assessed_def fails_with_def split: bind_split_asm sum.splits if_splits option.splits)

lemma assessed_observed: "assessed acct n \<Longrightarrow> \<exists>b. observe_bucket acct n = Some b"
  by (auto simp: assessed_def observe_bucket_def fails_with_def is_ok_def split: sum.splits)

lemma evaluate_bucket_evidenced:
  assumes "observe_bucket acct n = Some b" and "Some n \<in> set (listed acct)" and "f \<in> set (evaluate_bucket b)"
  shows "evidenced acct f"
  using observe_bucket_Some [OF assms(1,2)] assms(3)
    block_absent [of acct n] block_partial [of acct n] unencrypted [of acct n]
  by (auto simp: evaluate_bucket_def bucket_finding_def split: option.splits if_splits)

lemma open_rules_iff:
  "(from, to, cidr) \<in> set (open_rules perm) \<longleftrightarrow> from = unwrap_or (ip_from_port perm) (-1) \<and> to = unwrap_or (ip_to_port perm) (-1) \<and>
     (cidr = ''0.0.0.0/0'' \<and> Some cidr \<in> set (unwrap_or (ip_ranges perm) []) \<or>
      cidr = ''::/0'' \<and> Some cidr \<in> set (unwrap_or (ip_ipv6_ranges perm) []))"
  by (auto simp: open_rules_def Let_def)

lemma open_group_rules:
  "o1 \<in> set (open_groups gs) \<and> rule \<in> set (sg_world_open o1) \<longleftrightarrow>
     (\<exists>g\<in>set gs. o1 = observe_group g \<and> (\<exists>perm\<in>set (unwrap_or (sgr_ip_permissions g) []). rule \<in> set (open_rules perm)))"
  by (auto simp: open_groups_def observe_group_def)

lemma s3_evidenced: "f \<in> set (evaluate_s3 (observe_s3 acct)) \<Longrightarrow> evidenced acct f"
  by (auto simp: evaluate_s3_def observe_s3_def set_map_filter listed_def split: sum.split_asm bind_split_asm
      dest!: in_set_takeD intro!: evaluate_bucket_evidenced)

lemma groups_evidenced:
  assumes "f \<in> set (evaluate_security_groups (observe_security_groups acct))"
  shows "evidenced acct f"
proof -
  obtain o1 rule where o1: "o1 \<in> set (open_groups (delivered (aw_group_pages acct)))" "rule \<in> set (sg_world_open o1)"
    "f = evaluate_rule o1 rule"
    using assms by (auto simp: evaluate_security_groups_def observe_security_groups_take dest: in_set_takeD)
  then obtain g perm where g: "g \<in> set (delivered (aw_group_pages acct))" "o1 = observe_group g"
    "perm \<in> set (unwrap_or (sgr_ip_permissions g) [])" "rule \<in> set (open_rules perm)"
    using open_group_rules by blast
  obtain lo hi cidr where rule: "rule = (lo, hi, cidr)" by (cases rule)
  show ?thesis using world_open [OF g(1,3)] g(4) by (simp add: o1(3) g(2) rule open_rules_iff)
qed

lemma account_evidenced: "f \<in> set (evaluate_account (observe_account acct)) \<longleftrightarrow>
    (\<exists>ts. aw_trails acct = Ok ts \<and> unwrap_or ts [] = [] \<and> f = aws_finding ''CloudTrail is not enabled in this account/region'' High 80) \<or>
    (\<exists>m v. aw_account_summary acct = Ok (Some m) \<and> hm_get m ''AccountMFAEnabled'' = Some v \<and> v \<noteq> 1 \<and>
       f = aws_finding ''Root account has no MFA device'' Critical 95)"
  by (auto simp: evaluate_account_def observe_account_def split: sum.splits bind_split bind_split_asm option.splits)

lemma assessed_reported:
  assumes "assessed acct n" and "length (listed acct) \<le> MAX_BUCKETS"
  shows "\<exists>b. observe_bucket acct n = Some b \<and> set (evaluate_bucket b) \<subseteq> set (evaluate_s3 (observe_s3 acct))"
proof -
  obtain b where b: "observe_bucket acct n = Some b" using assessed_observed [OF assms(1)] by blast
  moreover have "b \<in> set (observe_s3 acct)" using assms b
    by (auto simp: observe_s3_def set_map_filter listed_def assessed_def split: sum.splits intro!: bexI [of _ "Some n"])
  ultimately show ?thesis by (auto simp: evaluate_s3_def)
qed

text \<open>What an assessed bucket is reported for, on both sides of the two calls.\<close>

lemma assessed_findings:
  assumes "assessed acct n" and "length (listed acct) \<le> MAX_BUCKETS"
  shows "no_block acct n \<Longrightarrow>
      bucket_finding n ''has no public-access-block configuration'' High 70 \<in> set (evaluate_s3 (observe_s3 acct))"
    and "aw_public_access_block acct n = Ok cfg \<Longrightarrow> \<not> blocks_all cfg \<Longrightarrow>
      bucket_finding n ''has an incomplete public-access-block configuration'' High 70 \<in> set (evaluate_s3 (observe_s3 acct))"
    and "no_encryption acct n \<Longrightarrow> bucket_finding n ''has no default encryption'' Medium 40 \<in> set (evaluate_s3 (observe_s3 acct))"
proof -
  obtain b where b: "observe_bucket acct n = Some b" "set (evaluate_bucket b) \<subseteq> set (evaluate_s3 (observe_s3 acct))"
    using assessed_reported [OF assms] by blast
  have n: "Some n \<in> set (listed acct)" using assms(1) by (simp add: assessed_def)
  show "no_block acct n \<Longrightarrow>
      bucket_finding n ''has no public-access-block configuration'' High 70 \<in> set (evaluate_s3 (observe_s3 acct))"
    by (rule subsetD [OF b(2)], use observe_bucket_Some [OF b(1) n] in
        \<open>auto simp: evaluate_bucket_def bucket_finding_def fails_with_def split: option.splits\<close>)
  show "aw_public_access_block acct n = Ok cfg \<Longrightarrow> \<not> blocks_all cfg \<Longrightarrow>
      bucket_finding n ''has an incomplete public-access-block configuration'' High 70 \<in> set (evaluate_s3 (observe_s3 acct))"
    by (rule subsetD [OF b(2)], use observe_bucket_Some [OF b(1) n] in
        \<open>auto simp: evaluate_bucket_def bucket_finding_def fails_with_def split: option.splits\<close>)
  show "no_encryption acct n \<Longrightarrow> bucket_finding n ''has no default encryption'' Medium 40 \<in> set (evaluate_s3 (observe_s3 acct))"
    by (rule subsetD [OF b(2)], use observe_bucket_Some [OF b(1) n] in
        \<open>auto simp: evaluate_bucket_def bucket_finding_def split: option.splits\<close>)
qed

lemma evidenced_reported:
  assumes "evidenced acct f" and "length (listed acct) \<le> MAX_BUCKETS"
    and "length (open_groups (delivered (aw_group_pages acct))) \<le> MAX_SECURITY_GROUPS"
  shows "f \<in> set (evaluate_s3 (observe_s3 acct)) \<union> set (evaluate_security_groups (observe_security_groups acct)) \<union>
    set (evaluate_account (observe_account acct))"
  using assms(1)
proof cases
  case (world_open g perm cidr)
  let ?rule = "(unwrap_or (ip_from_port perm) (-1), unwrap_or (ip_to_port perm) (-1), cidr)"
  have "?rule \<in> set (open_rules perm)" using world_open(4) by (simp add: open_rules_iff)
  then have "observe_group g \<in> set (open_groups (delivered (aw_group_pages acct))) \<and> ?rule \<in> set (sg_world_open (observe_group g))"
    using world_open(2,3) open_group_rules by blast
  then show ?thesis using assms(3) world_open(1)
    by (auto simp: evaluate_security_groups_def observe_security_groups_take)
qed (use assessed_findings [OF _ assms(2)] in \<open>auto simp: account_evidenced\<close>)


text \<open>
  An account with a bucket that may not be read, one without encryption, and a group with an ICMP rule; the trails cannot be read.
\<close>

definition demo_icmp :: sec_group where
  "demo_icmp = \<lparr> sgr_group_id = Some ''sg-1'', sgr_group_name = Some ''ping'', sgr_ip_permissions = Some
     [\<lparr> ip_protocol = Some ''icmp'', ip_from_port = Some (-1), ip_to_port = Some (-1), ip_ranges = Some [Some ''0.0.0.0/0''],
        ip_ipv6_ranges = None \<rparr>] \<rparr>"

definition demo_account :: aws_account where
  "demo_account = \<lparr> aw_list_buckets = Ok (Some [Some ''secret'', Some ''plain'']),
     aw_public_access_block = (\<lambda>n. if n = ''secret'' then Err \<lparr> se_code = Some ''AccessDenied'', se_text = [] \<rparr>
       else Ok (Some \<lparr> pb_block_public_acls = Some True, pb_ignore_public_acls = Some True, pb_block_public_policy = Some True,
         pb_restrict_public_buckets = Some True \<rparr>)),
     aw_bucket_encryption = (\<lambda>_. Err \<lparr> se_code = Some ''ServerSideEncryptionConfigurationNotFoundError'', se_text = [] \<rparr>),
     aw_group_pages = [Ok (Some [demo_icmp])], aw_trails = Err \<lparr> se_code = None, se_text = [] \<rparr>,
     aw_account_summary = Ok None \<rparr>"

definition demo_aws_job :: scan_job where
  "demo_aws_job = \<lparr> sj_scan_id = 7, sj_scope = ''aws'', sj_kind = ''full'', sj_tenant_id = None \<rparr>"

lemma demo_aws_findings: "aws_collect demo_account demo_aws_job = Ok
    [bucket_finding ''plain'' ''has no default encryption'' Medium 40,
     aws_finding (''Security group '' @ quoted ''ping'' @ '' (sg-1) opens SSH (22) to 0.0.0.0/0 (all ports)'') Critical 90]"
  by code_simp


text \<open>
  The protocol of a rule is never read: a rule that admits only ICMP, whose ports AWS gives as -1, is reported as open to SSH with
  the highest severity.
\<close>

lemma icmp_reported_as_ssh:
  assumes "ip_from_port perm = Some (-1)" and "ip_to_port perm = Some (-1)" and "ip_ranges perm = Some [Some ''0.0.0.0/0'']"
    and "ip_protocol perm = Some ''icmp''" and "ip_ipv6_ranges perm = None"
  shows "map cg_severity (evaluate_security_groups [observe_group \<lparr> sgr_group_id = gid, sgr_group_name = gname,
    sgr_ip_permissions = Some [perm] \<rparr>]) = [Critical]"
  using assms by (simp add: evaluate_security_groups_def observe_group_def open_rules_def evaluate_rule_def range_covers_def
      aws_finding_def Let_def)

end
