(* ===== verification/Authz.thy ===== *)
theory Authz
  imports Auth
begin

text \<open>
  The Cedar engine of the platform API (\<open>secureops-api/src/authz.rs\<close>): the built-in policies as data, and \<open>evaluate\<close>, which builds the
  principal, the entities and the request it asks about. The Cedar library is a parameter; \<open>cedar_documented\<close> states what its documentation
  promises for the policies used here (permits guarded by an attribute of the principal, and deny by default).
\<close>

subsection \<open>Policies\<close>

datatype condition = Always | HasFeature string | HasRole string

text \<open>\<open>permit(principal, action == Action::a, resource) when ...\<close>\<close>

record permit =
  pt_action :: string
  pt_when :: condition

definition mk_permit :: "string \<Rightarrow> condition \<Rightarrow> permit" where
  "mk_permit a c = \<lparr> pt_action = a, pt_when = c \<rparr>"

definition DEFAULT_POLICY :: "permit list" where
  "DEFAULT_POLICY =
    [mk_permit ''bughunt'' (HasFeature ''bughunt''), mk_permit ''sso'' (HasFeature ''sso''),
     mk_permit ''threat_intel'' (HasFeature ''threat_intel''), mk_permit ''scans'' Always, mk_permit ''findings'' Always,
     mk_permit ''license'' Always, mk_permit ''compliance'' Always, mk_permit ''clouds'' Always, mk_permit ''llm_keys'' Always,
     mk_permit ''remediation_admin'' (HasRole ''admin'')]"

datatype attribute = ASet "string list" | AStr string

type_synonym entity_uid = "string \<times> string"
type_synonym entity = "entity_uid \<times> (string \<times> attribute) list"

record cedar_lib =
  ce_uid :: "string \<Rightarrow> string + entity_uid"
  ce_entity :: "entity_uid \<Rightarrow> (string \<times> attribute) list \<Rightarrow> string + entity"
  ce_entities :: "entity list \<Rightarrow> string + entity list"
  ce_request :: "entity_uid \<Rightarrow> entity_uid \<Rightarrow> entity_uid \<Rightarrow> string + entity_uid \<times> entity_uid \<times> entity_uid"
  ce_authorized :: "entity_uid \<times> entity_uid \<times> entity_uid \<Rightarrow> permit list \<Rightarrow> entity list \<Rightarrow> bool"

definition uid_text :: "string \<Rightarrow> string \<Rightarrow> string" where
  "uid_text ty i = ty @ ''::'' @ [CHR 0x22] @ i @ [CHR 0x22]"

definition principal_attrs :: "string list \<Rightarrow> string \<Rightarrow> (string \<times> attribute) list" where
  "principal_attrs features role = [(''features'', ASet features), (''role'', AStr role)]"

subsection \<open>The engine\<close>

definition authz_evaluate :: "cedar_lib \<Rightarrow> permit list \<Rightarrow> string list \<Rightarrow> string \<Rightarrow> string \<Rightarrow> string + bool" where
  "authz_evaluate lib policies features role action =
    (case ce_uid lib (uid_text ''User'' ''u'') of Inl e \<Rightarrow> Err (''principal uid: '' @ e) | Inr principal_uid \<Rightarrow>
    (case ce_uid lib (uid_text ''Action'' action) of Inl e \<Rightarrow> Err (''action uid: '' @ e) | Inr action_uid \<Rightarrow>
    (case ce_uid lib (uid_text ''Capability'' ''c'') of Inl e \<Rightarrow> Err (''resource uid: '' @ e) | Inr resource_uid \<Rightarrow>
    (case ce_entity lib principal_uid (principal_attrs features role) of Inl e \<Rightarrow> Err (''principal entity: '' @ e) | Inr p \<Rightarrow>
    (case ce_entities lib [p] of Inl e \<Rightarrow> Err (''entities: '' @ e) | Inr es \<Rightarrow>
    (case ce_request lib principal_uid action_uid resource_uid of Inl e \<Rightarrow> Err (''cedar request: '' @ e) | Inr q \<Rightarrow>
      Ok (ce_authorized lib q policies es)))))))"

definition with_engine :: "cedar_lib \<Rightarrow> permit list \<Rightarrow> auth_config \<Rightarrow> auth_config" where
  "with_engine lib policies cfg = cfg\<lparr> ac_cedar := authz_evaluate lib policies \<rparr>"

subsection \<open>What Cedar promises\<close>

text \<open>A printable ASCII identifier that needs no escape inside quotes.\<close>

definition plain_id :: "string \<Rightarrow> bool" where
  "plain_id i \<longleftrightarrow> list_all (\<lambda>c. c \<noteq> CHR 0x22 \<and> c \<noteq> CHR 0x5C \<and> 0x20 \<le> (of_char c :: nat) \<and> (of_char c :: nat) < 0x7F) i"

fun satisfied :: "condition \<Rightarrow> (string \<times> attribute) list \<Rightarrow> bool" where
  "satisfied Always attrs = True"
| "satisfied (HasFeature f) attrs = (case map_of attrs ''features'' of Some (ASet fs) \<Rightarrow> f \<in> set fs | _ \<Rightarrow> False)"
| "satisfied (HasRole r) attrs = (map_of attrs ''role'' = Some (AStr r))"

definition cedar_documented :: "cedar_lib \<Rightarrow> bool" where
  "cedar_documented lib \<longleftrightarrow>
    (\<forall>ty i. ty \<in> {''User'', ''Action'', ''Capability''} \<and> plain_id i \<longrightarrow> ce_uid lib (uid_text ty i) = Ok (ty, i)) \<and>
    (\<forall>u attrs. ce_entity lib u attrs = Ok (u, attrs)) \<and> (\<forall>e. ce_entities lib [e] = Ok [e]) \<and>
    (\<forall>p a r. ce_request lib p a r = Ok (p, a, r)) \<and>
    (\<forall>p a r policies attrs. ce_authorized lib (p, a, r) policies [(p, attrs)] \<longleftrightarrow>
       (\<exists>pt\<in>set policies. (''Action'', pt_action pt) = a \<and> satisfied (pt_when pt) attrs))"

text \<open>
  With what Cedar documents, the built-in policies decide every plain action by \<^const>\<open>default_policy_permit\<close>; an action that
  cannot be written as an entity is an error, and then nobody is allowed.
\<close>

lemma default_engine_decides:
  assumes "cedar_documented lib" and "plain_id action"
  shows "authz_evaluate lib DEFAULT_POLICY features role action = Ok (default_policy_permit features role action)"
proof -
  have "plain_id ''u''" "plain_id ''c''" by (simp_all add: plain_id_def)
  then have "authz_evaluate lib DEFAULT_POLICY features role action =
      Ok (\<exists>pt\<in>set DEFAULT_POLICY. pt_action pt = action \<and> satisfied (pt_when pt) (principal_attrs features role))"
    using assms by (simp add: authz_evaluate_def cedar_documented_def)
  then show ?thesis by (auto simp: DEFAULT_POLICY_def mk_permit_def principal_attrs_def default_policy_permit_def)
qed

lemma engine_error_denies:
  assumes "ce_uid lib (uid_text ''Action'' action) = Err e"
  shows "\<not> allows_role (with_engine lib policies cfg) features role action"
  using assms by (auto simp: allows_role_def with_engine_def authz_evaluate_def split: sum.splits)

text \<open>Only an administrator passes the gate of the privileged writes, whatever features the license has.\<close>

lemma remediation_admin_gate:
  assumes "cedar_documented lib"
  shows "allows_role (with_engine lib DEFAULT_POLICY cfg) features role ''remediation_admin'' \<longleftrightarrow> role = ''admin''"
proof -
  have "plain_id ''remediation_admin''" by (simp add: plain_id_def)
  from default_engine_decides [OF assms this] show ?thesis
    by (simp add: allows_role_def with_engine_def default_policy_permit_def)
qed

text \<open>Such a library exists.\<close>

definition demo_cedar :: cedar_lib where
  "demo_cedar = \<lparr> ce_uid = (\<lambda>t. let ty = takeWhile (\<lambda>c. c \<noteq> CHR '':'') t in Ok (ty, butlast (drop (length ty + 3) t))),
     ce_entity = (\<lambda>u a. Ok (u, a)), ce_entities = Ok, ce_request = (\<lambda>p a r. Ok (p, a, r)),
     ce_authorized = (\<lambda>(p, a, r) policies es. list_ex (\<lambda>pt. (''Action'', pt_action pt) = a \<and>
       satisfied (pt_when pt) (unwrap_or (map_of es p) [])) policies) \<rparr>"

lemma demo_cedar_documented: "cedar_documented demo_cedar"
  by (auto simp: cedar_documented_def demo_cedar_def uid_text_def list_ex_iff Let_def)

end
