(* ===== verification/Playbooks.thy ===== *)
theory Playbooks
  imports SelfHeal Monitors
begin

text \<open>
  Around the self-healing engine: the directory loader and the audit collector of \<open>secureops-selfheal/src/lib.rs\<close>, and the AWS
  backend of \<open>aws.rs\<close>. The directory, the files and the YAML parser are parameters of the loader; the two SDK calls are
  parameters of the backend, over a state of their own.
\<close>

subsection \<open>The loader\<close>

text \<open>What reading the directory gives (an entry that fails is \<open>None\<close>), what reading a file of it gives, and the YAML parser.\<close>

record playbook_dir =
  pd_read_dir :: "string + string option list"
  pd_read :: "string \<Rightarrow> string + string"
  pd_from_yaml :: "string \<Rightarrow> string + playbook"

datatype load_error = DirError string | FileError string string | ParseError string string

definition is_playbook_file :: "string \<Rightarrow> bool" where
  "is_playbook_file name \<longleftrightarrow> extension name = Some ''yaml'' \<or> extension name = Some ''yml''"

definition load_file :: "playbook_dir \<Rightarrow> string \<Rightarrow> load_error + playbook" where
  "load_file d name = (case pd_read d name of Inl e \<Rightarrow> Err (FileError name e)
     | Inr yaml \<Rightarrow> (case pd_from_yaml d yaml of Inl e \<Rightarrow> Err (ParseError name e) | Inr pb \<Rightarrow> Ok pb))"

fun load_files :: "playbook_dir \<Rightarrow> string list \<Rightarrow> load_error + playbook list" where
  "load_files d [] = Ok []"
| "load_files d (n # ns) = (case load_file d n of Inl e \<Rightarrow> Err e
     | Inr pb \<Rightarrow> (case load_files d ns of Inl e \<Rightarrow> Err e | Inr pbs \<Rightarrow> Ok (pb # pbs)))"

definition load_dir :: "playbook_dir \<Rightarrow> load_error + playbook list" where
  "load_dir d = (case pd_read_dir d of Inl e \<Rightarrow> Err (DirError e)
     | Inr es \<Rightarrow> load_files d (sort (filter is_playbook_file (List.map_filter (\<lambda>e. e) es))))"

text \<open>The append-only collector.\<close>

definition vec_audit_record :: "audit_record \<Rightarrow> audit_record list \<Rightarrow> audit_record list" where
  "vec_audit_record e entries = entries @ [e]"

lemma load_files_Ok:
  "load_files d ns = Ok pbs \<Longrightarrow> list_all2 (\<lambda>n pb. load_file d n = Ok pb) ns pbs"
  by (induction ns arbitrary: pbs) (auto split: sum.splits)

lemma load_files_Err:
  "load_files d ns = Err e \<Longrightarrow> \<exists>as n bs. ns = as @ n # bs \<and> (\<forall>m\<in>set as. is_ok (load_file d m)) \<and> load_file d n = Err e"
proof (induction ns)
  case (Cons n ns)
  show ?case
  proof (cases "load_file d n")
    case (Inl e')
    then have "n # ns = [] @ n # ns \<and> (\<forall>m\<in>set []. is_ok (load_file d m)) \<and> load_file d n = Err e" using Cons.prems by simp
    then show ?thesis by blast
  next
    case (Inr pb)
    then obtain as m bs where "ns = as @ m # bs" "\<forall>k\<in>set as. is_ok (load_file d k)" "load_file d m = Err e"
      using Cons by (auto split: sum.splits)
    then have "n # ns = (n # as) @ m # bs \<and> (\<forall>k\<in>set (n # as). is_ok (load_file d k)) \<and> load_file d m = Err e"
      using Inr by simp
    then show ?thesis by blast
  qed
qed simp

text \<open>
  The loader takes exactly the playbook files of the directory, in the order of their names, and loads all or none: a result has the
  playbook of each file, and an error is that of the first file in this order that cannot be read or parsed.
\<close>

theorem load_dir_all_or_first_error:
  assumes "pd_read_dir d = Ok es"
  shows "\<exists>ns. sorted ns \<and> mset ns = filter_mset is_playbook_file (mset (List.map_filter (\<lambda>e. e) es)) \<and>
    (case load_dir d of Inr pbs \<Rightarrow> list_all2 (\<lambda>n pb. load_file d n = Ok pb) ns pbs
     | Inl e \<Rightarrow> (\<exists>as n bs. ns = as @ n # bs \<and> (\<forall>m\<in>set as. is_ok (load_file d m)) \<and> load_file d n = Err e))"
proof -
  let ?ns = "sort (filter is_playbook_file (List.map_filter (\<lambda>e. e) es))"
  have "load_dir d = load_files d ?ns" using assms by (simp add: load_dir_def)
  then have "case load_dir d of Inr pbs \<Rightarrow> list_all2 (\<lambda>n pb. load_file d n = Ok pb) ?ns pbs
     | Inl e \<Rightarrow> (\<exists>as n bs. ?ns = as @ n # bs \<and> (\<forall>m\<in>set as. is_ok (load_file d m)) \<and> load_file d n = Err e)"
    using load_files_Ok [of d ?ns] load_files_Err [of d ?ns] by (simp split: sum.split)
  then show ?thesis by (intro exI [of _ ?ns] conjI) (simp_all add: mset_filter)
qed

subsection \<open>The AWS backend\<close>

record 's aws_api =
  ap_put_bucket_acl :: "string \<Rightarrow> string \<Rightarrow> 's \<Rightarrow> (string + unit) \<times> 's"
  ap_start_logging :: "string \<Rightarrow> 's \<Rightarrow> (string + unit) \<times> 's"

definition aws_apply :: "'s aws_api \<Rightarrow> (cloud_action \<Rightarrow> string) \<Rightarrow> cloud_action \<Rightarrow> 's \<Rightarrow> (string + string) \<times> 's" where
  "aws_apply api dbg action s = (case action of
     PutBucketAcl bucket acl \<Rightarrow> (case ap_put_bucket_acl api bucket acl s of
         (Inl e, s') \<Rightarrow> (Err e, s') | (Inr _, s') \<Rightarrow> (Ok ''s3: bucket ACL applied'', s'))
   | StartCloudTrail name \<Rightarrow> (case ap_start_logging api name s of
         (Inl e, s') \<Rightarrow> (Err e, s') | (Inr _, s') \<Rightarrow> (Ok ''cloudtrail: logging started'', s'))
   | other \<Rightarrow> (Err (''AwsCloud does not handle '' @ dbg other), s))"

definition aws_cloud :: "'s aws_api \<Rightarrow> (cloud_action \<Rightarrow> string) \<Rightarrow> 's cloud_backend" where
  "aws_cloud api dbg = \<lparr>
     cb_dry_run = (\<lambda>step s. (Ok (''aws dry-run: '' @ dbg (parse_step step)), s)),
     cb_snapshot = (\<lambda>_ s. (Ok ''aws-snapshot'', s)),
     cb_execute = (\<lambda>step. aws_apply api dbg (parse_step step)),
     cb_health_check = (\<lambda>_ s. (Ok True, s)),
     cb_rollback = (\<lambda>_ _ s. (Ok (), s)) \<rparr>"

text \<open>
  What a reversible playbook means on AWS: whatever its snapshot, health check and rollback say, the run amounts to its execute step.
  It completes when the call succeeds; otherwise it is reported as rolled back, and the account stays as the failed call left it.
\<close>

theorem aws_reversible_is_execute:
  assumes "pk_class pb = Reversible" and "\<not> is_open (es_breaker w) Reversible"
  shows "case aws_apply api dbg (parse_step (pk_execute pb)) (es_cloud w) of (r, s) \<Rightarrow>
    es_cloud (snd (run (aws_cloud api dbg) pb approv now w)) = s \<and>
    eo_state (fst (run (aws_cloud api dbg) pb approv now w)) = (if is_ok r then Completed else RolledBack)"
  using assms
  by (cases "aws_apply api dbg (parse_step (pk_execute pb)) (es_cloud w)"; cases "fst (aws_apply api dbg (parse_step (pk_execute pb)) (es_cloud w))")
    (auto simp: run_def aws_cloud_def Let_def split: option.splits)

lemma aws_dry_run_accepts_all: "is_ok (fst (cb_dry_run (aws_cloud api dbg) step s))"
  by (simp add: aws_cloud_def)

end
