(* ===== verification/Neo4j.thy ===== *)
theory Neo4j
  imports GraphPaths
begin

text \<open>
  The Neo4j backend of the knowledge graph (\<open>secureops-graph/src/neo4j.rs\<close>): it reads the nodes and edges of a tenant and builds the
  in-memory graph. The database is a parameter: the answer to each query is an error or a stream of rows, in which an element may be an
  error too; each column of a row is a value or the error of reading it.
\<close>

record node_row =
  nr_id :: "string + string"
  nr_kind :: "string + string"
  nr_exposed :: "string + bool"
  nr_sensitive :: "string + bool"

record edge_row =
  ew_from :: "string + string"
  ew_to :: "string + string"
  ew_kind :: "string + string"
  ew_difficulty :: "string + f64"

record neo4j =
  nj_nodes :: "string \<Rightarrow> string + (string + node_row) list"
  nj_edges :: "string \<Rightarrow> string + (string + edge_row) list"

definition edge_kind_from_str :: "string \<Rightarrow> edge_kind" where
  "edge_kind_from_str s =
    (if s = ''CAN_ASSUME'' then CanAssume else if s = ''HAS_PERMISSION'' then HasPermission else if s = ''EXPOSES'' then Exposes
     else if s = ''HAS_VULN'' then HasVuln else if s = ''VIOLATES'' then Violates else if s = ''OWNS'' then Owns else ConnectsTo)"

definition f64_as_f32 :: "f64 \<Rightarrow> f32" where
  "f64_as_f32 x = (case x of Fin q \<Rightarrow> round32 q | _ \<Rightarrow> x)"

definition load_node :: "node_row \<Rightarrow> security_graph \<Rightarrow> string + security_graph" where
  "load_node row g = (case nr_id row of Inl e \<Rightarrow> Err e | Inr i \<Rightarrow> (case nr_kind row of Inl e \<Rightarrow> Err e | Inr k \<Rightarrow>
     Ok (add_node ((node_new i k)\<lparr> nd_exposed := unwrap_or (ok (nr_exposed row)) False, nd_sensitive := unwrap_or (ok (nr_sensitive row)) False \<rparr>) g)))"

definition load_edge :: "edge_row \<Rightarrow> security_graph \<Rightarrow> string + security_graph" where
  "load_edge row g = (case ew_from row of Inl e \<Rightarrow> Err e | Inr a \<Rightarrow> (case ew_to row of Inl e \<Rightarrow> Err e | Inr b \<Rightarrow>
     (case ew_kind row of Inl e \<Rightarrow> Err e | Inr k \<Rightarrow>
       Ok (add_edge a b (edge_kind_from_str k) (f64_as_f32 (unwrap_or (ok (ew_difficulty row)) (Fin 1))) g))))"

text \<open>\<open>while let Some(row) = rows.next().await?\<close>: the first error ends the load.\<close>

fun load_rows :: "('r \<Rightarrow> security_graph \<Rightarrow> string + security_graph) \<Rightarrow> (string + 'r) list \<Rightarrow> security_graph \<Rightarrow> string + security_graph" where
  "load_rows f [] g = Ok g"
| "load_rows f (Inl e # rs) g = Err e"
| "load_rows f (Inr r # rs) g = (case f r g of Inl e \<Rightarrow> Err e | Inr g' \<Rightarrow> load_rows f rs g')"

definition neo4j_load :: "neo4j \<Rightarrow> string \<Rightarrow> string + security_graph" where
  "neo4j_load db tenant = (case nj_nodes db tenant of Inl e \<Rightarrow> Err e | Inr nodes \<Rightarrow>
     (case load_rows load_node nodes graph_new of Inl e \<Rightarrow> Err e | Inr g \<Rightarrow>
     (case nj_edges db tenant of Inl e \<Rightarrow> Err e | Inr es \<Rightarrow> load_rows load_edge es g)))"

subsection \<open>What is loaded\<close>

lemma is_f32_cast: "is_f32 (f64_as_f32 x)"
  by (cases x) (simp_all add: f64_as_f32_def is_f32_def [of NaN] is_f32_def [of PInf] is_f32_def [of NInf])

lemma load_node_built: "built g \<Longrightarrow> load_node r g = Ok g' \<Longrightarrow> built g'"
  by (auto simp: load_node_def intro: built.node split: sum.splits)

lemma load_edge_built: "built g \<Longrightarrow> load_edge r g = Ok g' \<Longrightarrow> built g'"
  by (auto simp: load_edge_def is_f32_cast intro: built.edge split: sum.splits)

lemma load_rows_keeps:
  assumes "\<And>r g g'. I g \<Longrightarrow> f r g = Ok g' \<Longrightarrow> I g'"
  shows "I g \<Longrightarrow> load_rows f rs g = Ok g' \<Longrightarrow> I g'"
proof (induction rs arbitrary: g)
  case (Cons r rs)
  then show ?case by (cases r) (auto split: sum.splits intro: assms)
qed simp

text \<open>The edge a row stands for.\<close>

definition row_edge :: "edge_row \<Rightarrow> (string \<times> edge_ref) option" where
  "row_edge row = (case (ew_from row, ew_to row, ew_kind row) of
     (Inr a, Inr b, Inr k) \<Rightarrow> Some (a, \<lparr> er_to = b, er_kind = edge_kind_from_str k,
        er_difficulty = flt_max (f64_as_f32 (unwrap_or (ok (ew_difficulty row)) (Fin 1))) (Fin 0) \<rparr>)
   | _ \<Rightarrow> None)"

definition edges_at :: "string \<Rightarrow> (string + edge_row) list \<Rightarrow> edge_ref list" where
  "edges_at n rs = map snd (filter (\<lambda>p. fst p = n) (List.map_filter (\<lambda>r. Option.bind (ok r) row_edge) rs))"

lemma load_edge_edges:
  assumes "load_edge r g = Ok g'"
  shows "edges g' n = edges g n @ edges_at n [Ok r]"
  using assms by (auto simp: load_edge_def row_edge_def edges_at_def edges_add_edge map_filter_simps split: sum.splits)

lemma edges_at_Cons: "edges_at n (r # rs) = edges_at n [r] @ edges_at n rs"
  by (simp add: edges_at_def map_filter_simps split: option.split)

lemma load_edges_edges: "load_rows load_edge rs g = Ok g' \<Longrightarrow> edges g' n = edges g n @ edges_at n rs"
proof (induction load_edge rs g rule: load_rows.induct)
  case (3 r rs g)
  then show ?case by (auto simp: load_edge_edges edges_at_Cons [of n "Inr r" rs] split: sum.splits)
qed (auto simp: edges_at_def map_filter_simps)

lemma load_nodes_edges: "load_rows load_node rs g = Ok g' \<Longrightarrow> edges g n = [] \<Longrightarrow> edges g' n = []"
  by (rule load_rows_keeps [where I = "\<lambda>g. edges g n = []"]) (auto simp: load_node_def edges_add_node split: sum.splits)

text \<open>
  A load that succeeds yields a graph of the kind the searches are correct for, with exactly the edges of the rows, in their
  order, whatever their difficulties (a NaN or a negative one becomes 0); one bad row or one lost connection yields no graph at all.
\<close>

theorem neo4j_load_exact:
  assumes "neo4j_load db tenant = Ok g"
  shows "built g" and "\<exists>nodes es. nj_nodes db tenant = Ok nodes \<and> nj_edges db tenant = Ok es \<and> list_all is_ok nodes \<and> list_all is_ok es \<and>
    (\<forall>n. edges g n = edges_at n es)"
proof -
  obtain nodes es g1 where l: "nj_nodes db tenant = Ok nodes" "nj_edges db tenant = Ok es" "load_rows load_node nodes graph_new = Ok g1"
    "load_rows load_edge es g1 = Ok g"
    using assms by (auto simp: neo4j_load_def split: sum.splits)
  have "built g1" using load_rows_keeps [where I = built, OF _ built.new l(3)] load_node_built by blast
  then show "built g" using load_rows_keeps [where I = built, OF _ _ l(4)] load_edge_built by blast
  have oks: "load_rows f rs h = Ok h' \<Longrightarrow> list_all is_ok rs" for f :: "'r \<Rightarrow> _" and rs h h'
    by (induction f rs h rule: load_rows.induct) (auto split: sum.splits)
  have "edges graph_new n = []" for n by (simp add: edges_def graph_new_def hm_get_def)
  then have "edges g n = edges_at n es" for n using load_edges_edges [OF l(4)] load_nodes_edges [OF l(3)] by simp
  then show "\<exists>nodes es. nj_nodes db tenant = Ok nodes \<and> nj_edges db tenant = Ok es \<and> list_all is_ok nodes \<and> list_all is_ok es \<and>
    (\<forall>n. edges g n = edges_at n es)"
    using l oks [OF l(3)] oks [OF l(4)] by blast
qed

end
