(* ===== verification/KernelLoad.thy ===== *)
theory KernelLoad
  imports Daemon Server
begin

text \<open>
  Bringing up the kernel enforcement point: \<open>load\<close> of \<open>secureops-bpf/src/lib.rs\<close> with its Linux and macOS loaders, the demo event
  source, and \<open>spawn\<close> of \<open>secureops-daemon/src/bpf_wire.rs\<close>, which chooses the event source by the features of the build. Reading the object
  file and the BPF library are parameters; the attached hooks are the result of a load.
\<close>

subsection \<open>Loading\<close>

record bpf_build =
  bb_linux :: bool
  bb_macos :: bool
  bb_ebpf :: bool
  bb_mock :: bool

text \<open>
  What the library makes of an object file: an error, or for each program name nothing, or the result of loading it as a tracepoint and
  attaching it.
\<close>

record bpf_lib =
  bp_read :: "string \<Rightarrow> string + string"
  bp_load :: "string \<Rightarrow> string + (string \<Rightarrow> (string + unit) option)"

definition hooks :: "(string \<times> string) list" where
  "hooks = [(''secureops_openat'', ''sys_enter_openat''), (''secureops_connect'', ''sys_enter_connect''), (''secureops_execve'', ''sys_enter_execve'')]"

fun attach_hooks :: "(string \<Rightarrow> (string + unit) option) \<Rightarrow> (string \<times> string) list \<Rightarrow> string + (string \<times> string) list" where
  "attach_hooks obj [] = Ok []"
| "attach_hooks obj ((prog_name, syscall) # hs) = (case obj prog_name of
     None \<Rightarrow> attach_hooks obj hs
   | Some (Inl e) \<Rightarrow> Err e
   | Some (Inr _) \<Rightarrow> (case attach_hooks obj hs of Inl e \<Rightarrow> Err e | Inr as \<Rightarrow> Ok ((prog_name, syscall) # as)))"

definition linux_load :: "bpf_lib \<Rightarrow> env_vars \<Rightarrow> string + (string \<times> string) list" where
  "linux_load lib env =
    (let bpf_path = unwrap_or (env ''SECUREOPS_BPF_OBJ'') ''target/bpfel-unknown-none/release/secureops-ebpf'' in
     case bp_read lib bpf_path of Inl e \<Rightarrow> Err (''BPF object not found at '' @ bpf_path @ '': '' @ e)
     | Inr bytes \<Rightarrow> (case bp_load lib bytes of Inl e \<Rightarrow> Err e | Inr obj \<Rightarrow> attach_hooks obj hooks))"

definition macos_load :: "string + (string \<times> string) list" where
  "macos_load = Err ''Endpoint Security framework client not compiled''"

definition pep_load :: "bpf_build \<Rightarrow> bpf_lib \<Rightarrow> env_vars \<Rightarrow> string + (string \<times> string) list" where
  "pep_load b lib env = (if bb_linux b \<and> bb_ebpf b then linux_load lib env
     else if bb_macos b then macos_load else Err ''secureops-bpf: no kernel PEP in this build'')"

subsection \<open>The event source and the agent\<close>

definition event_new :: "32 word \<Rightarrow> string \<Rightarrow> syscall_kind \<Rightarrow> string \<Rightarrow> sys_event" where
  "event_new pid comm kind path_or_host = \<lparr> sy_pid = pid, sy_comm = comm, sy_kind = kind, sy_path_or_host = path_or_host \<rparr>"

definition demo_events :: "sys_event list" where
  "demo_events = [event_new 4242 ''agent'' Openat ''/home/agent/.env'', event_new 4242 ''agent'' Connect ''203.0.113.7:443'']"

text \<open>
  What the channel delivers to the agent: in a \<open>mock\<close> build the two demo events, in every other build the end at once, since the only sender is
  dropped. The times are those at which the agent takes the events.
\<close>

definition event_source :: "bpf_build \<Rightarrow> (nat \<Rightarrow> u64 \<times> string) \<Rightarrow> agent_event list" where
  "event_source b clock = (if bb_mock b
     then map (\<lambda>(i, ev). AgentRecv ev (fst (clock i)) (snd (clock i))) (zip [0..<length demo_events] demo_events) @ [SourceClosed]
     else [SourceClosed])"

text \<open>\<open>spawn\<close>: the result of the load is only printed. The cancellation may arrive before any event, after \<open>n\<close> of them.\<close>

definition spawn_agent ::
  "bpf_build \<Rightarrow> (string \<Rightarrow> string) \<Rightarrow> (nat \<Rightarrow> u64 \<times> string) \<Rightarrow> nat option \<Rightarrow> circuit_state \<Rightarrow>
    chain_correlator \<times> monitor_alert list \<times> circuit_state" where
  "spawn_agent b dbg clock cancelled circuit =
    (let evs = event_source b clock
     in run_chain_agent dbg (case cancelled of None \<Rightarrow> evs | Some n \<Rightarrow> take n evs @ [AgentCancel]) (with_default_ttl, [], circuit))"

subsection \<open>What it achieves\<close>

lemma attach_hooks_present: "attach_hooks obj hs = Ok as \<Longrightarrow> as = filter (\<lambda>h. obj (fst h) \<noteq> None) hs"
proof (induction hs arbitrary: as)
  case (Cons h hs)
  then show ?case by (cases h) (auto split: option.splits sum.splits)
qed simp

text \<open>
  A load reports success for any object that parses, with whatever hooks it happens to contain: an object with none of the three programs
  loads as well, and nothing is watched.
\<close>

lemma load_without_hooks:
  assumes "bp_read lib (unwrap_or (env ''SECUREOPS_BPF_OBJ'') ''target/bpfel-unknown-none/release/secureops-ebpf'') = Ok bytes"
    and "bp_load lib bytes = Ok (\<lambda>_. None)"
  shows "linux_load lib env = Ok []"
  using assms by (simp add: linux_load_def hooks_def)

text \<open>
  Outside the demo build the kernel enforcement point detects nothing. In every build without the \<open>mock\<close> feature, also on
  Linux with all eBPF hooks attached, the agent ends without an alert and leaves the circuit as it was; in the demo build it
  raises one alert and trips the circuit exactly when the two demo events are taken at most 500 ms apart.
\<close>

theorem kernel_pep_detects_only_demo:
  "\<not> bb_mock b \<Longrightarrow> snd (spawn_agent b dbg clock cancelled circuit) = ([], circuit)"
  "bb_mock b \<Longrightarrow> fst (clock 0) \<le> fst (clock 1) \<Longrightarrow>
     (case spawn_agent b dbg clock None Armed of (_, alerts, c) \<Rightarrow>
        if fst (clock 1) - fst (clock 0) \<le> 500 then length alerts = 1 \<and> c = Tripped else alerts = [] \<and> c = Armed)"
proof -
  show "\<not> bb_mock b \<Longrightarrow> snd (spawn_agent b dbg clock cancelled circuit) = ([], circuit)"
    by (cases cancelled; cases "the cancelled") (simp_all add: spawn_agent_def event_source_def)
  assume "bb_mock b" "fst (clock 0) \<le> fst (clock 1)"
  moreover have "is_secret_read (event_new 4242 ''agent'' Openat ''/home/agent/.env'')" by code_simp
  ultimately show "case spawn_agent b dbg clock None Armed of (_, alerts, c) \<Rightarrow>
      if fst (clock 1) - fst (clock 0) \<le> 500 then length alerts = 1 \<and> c = Tripped else alerts = [] \<and> c = Armed"
    by (auto simp: spawn_agent_def event_source_def demo_events_def observe_at_def with_default_ttl_def correlator_new_def default_ttl_ms_def
        event_new_def saturating_sub_def hm_get_def hm_insert_def upt_rec Let_def dest: leD)
qed

end
