(* ===== verification/MockContext.thy ===== *)
theory MockContext
  imports HostAudit
begin

text \<open>
  The in-memory audit context of \<open>secureops-checks/src/mock.rs\<close>, which the unit tests of the checks use, with its builder. The lemmas say
  where it answers as the real context of \<open>HostAudit\<close> does and where it does not.
\<close>

record mock_audit_context =
  mk_state_dir :: string
  mk_config :: openclaw_config
  mk_platform :: string
  mk_deployment_mode :: string
  mk_openclaw_version :: string
  mk_files :: "(string, string) hmap"
  mk_perms :: "(string, u32) hmap"
  mk_dirs :: "(string, string list) hmap"
  mk_channels :: "channel_config list"
  mk_skills :: "skill_metadata list"
  mk_docker :: "docker_compose_config option"
  mk_session_logs :: "string list"
  mk_connection_logs :: "string list"

subsection \<open>The builder\<close>

definition mock_new :: mock_audit_context where
  "mock_new = \<lparr> mk_state_dir = ''/state'', mk_config = openclaw_default, mk_platform = ''darwin-arm64'', mk_deployment_mode = ''native'',
     mk_openclaw_version = ''unknown'', mk_files = [], mk_perms = [], mk_dirs = [], mk_channels = [], mk_skills = [], mk_docker = None,
     mk_session_logs = [], mk_connection_logs = [] \<rparr>"

definition mock_with_config :: "openclaw_config \<Rightarrow> mock_audit_context \<Rightarrow> mock_audit_context" where
  "mock_with_config config m = m\<lparr> mk_config := config \<rparr>"

definition mock_with_platform :: "string \<Rightarrow> mock_audit_context \<Rightarrow> mock_audit_context" where
  "mock_with_platform platform m = m\<lparr> mk_platform := platform \<rparr>"

definition mock_with_file :: "string \<Rightarrow> string \<Rightarrow> mock_audit_context \<Rightarrow> mock_audit_context" where
  "mock_with_file path content m = m\<lparr> mk_files := hm_insert path content (mk_files m) \<rparr>"

definition mock_with_perms :: "string \<Rightarrow> u32 \<Rightarrow> mock_audit_context \<Rightarrow> mock_audit_context" where
  "mock_with_perms path mode m = m\<lparr> mk_perms := hm_insert path mode (mk_perms m) \<rparr>"

definition mock_with_dir :: "string \<Rightarrow> string list \<Rightarrow> mock_audit_context \<Rightarrow> mock_audit_context" where
  "mock_with_dir path entries m = m\<lparr> mk_dirs := hm_insert path entries (mk_dirs m) \<rparr>"

definition mock_with_skills :: "skill_metadata list \<Rightarrow> mock_audit_context \<Rightarrow> mock_audit_context" where
  "mock_with_skills skills m = m\<lparr> mk_skills := skills \<rparr>"

definition mock_with_channels :: "channel_config list \<Rightarrow> mock_audit_context \<Rightarrow> mock_audit_context" where
  "mock_with_channels channels m = m\<lparr> mk_channels := channels \<rparr>"

definition mock_with_docker :: "docker_compose_config \<Rightarrow> mock_audit_context \<Rightarrow> mock_audit_context" where
  "mock_with_docker docker m = m\<lparr> mk_docker := Some docker \<rparr>"

definition mock_with_connection_logs :: "string list \<Rightarrow> mock_audit_context \<Rightarrow> mock_audit_context" where
  "mock_with_connection_logs logs m = m\<lparr> mk_connection_logs := logs \<rparr>"

definition mock_with_session_logs :: "string list \<Rightarrow> mock_audit_context \<Rightarrow> mock_audit_context" where
  "mock_with_session_logs logs m = m\<lparr> mk_session_logs := logs \<rparr>"

subsection \<open>The context\<close>

definition mock_file_info :: "mock_audit_context \<Rightarrow> string \<Rightarrow> file_info" where
  "mock_file_info m path = (case hm_get (mk_files m) path of
     Some content \<Rightarrow> \<lparr> fi_path = path, fi_permissions = hm_get (mk_perms m) path, fi_content = None, fi_exists = Some True,
       fi_size = Some (of_nat (length content)) \<rparr>
   | None \<Rightarrow> \<lparr> fi_path = path, fi_permissions = None, fi_content = None, fi_exists = Some False, fi_size = None \<rparr>)"

definition mock_context :: "mock_audit_context \<Rightarrow> audit_context" where
  "mock_context m = \<lparr> cx_state_dir = mk_state_dir m, cx_config = mk_config m, cx_platform = mk_platform m,
     cx_deployment_mode = mk_deployment_mode m, cx_openclaw_version = mk_openclaw_version m,
     cx_file_info = mock_file_info m, cx_read_file = hm_get (mk_files m),
     cx_list_dir = (\<lambda>path. unwrap_or (hm_get (mk_dirs m) path) []),
     cx_file_exists = (\<lambda>path. hm_get (mk_files m) path \<noteq> None \<or> hm_get (mk_dirs m) path \<noteq> None),
     cx_get_file_permissions = hm_get (mk_perms m), cx_channels = mk_channels m, cx_skills = mk_skills m,
     cx_docker_compose = mk_docker m, cx_session_logs = mk_session_logs m, cx_connection_logs = mk_connection_logs m \<rparr>"

subsection \<open>Against the real context\<close>

text \<open>
  What a mock mirrors: the readable text files with their modes, the directories with their entries, and no attached metadata. Directories have no
  mode in the mock.
\<close>

definition mirrors :: "mock_audit_context \<Rightarrow> host \<Rightarrow> bool" where
  "mirrors m h \<longleftrightarrow>
    (\<forall>path. hm_get (mk_files m) path = real_read_file h path) \<and>
    (\<forall>path. unwrap_or (hm_get (mk_dirs m) path) [] = real_list_dir h path) \<and>
    (\<forall>path. hm_get (mk_files m) path \<noteq> None \<or> hm_get (mk_dirs m) path \<noteq> None \<longleftrightarrow> real_file_exists h path) \<and>
    (\<forall>path. hm_get (mk_perms m) path = real_get_file_permissions h path) \<and>
    mk_channels m = [] \<and> mk_skills m = [] \<and> mk_docker m = None \<and> mk_session_logs m = [] \<and> mk_connection_logs m = []"

text \<open>
  A mock that mirrors a host gives the checks the same answers as the host to every question but one: \<open>file_info\<close> of a directory, which the
  real context reports as existing and the mock as absent.
\<close>

lemma mock_mirrors_real:
  assumes "mirrors m h"
  shows "mock_context m = (real_context h (mk_state_dir m) (mk_config m) (mk_platform m) (mk_deployment_mode m) (mk_openclaw_version m))
    \<lparr> cx_file_info := mock_file_info m \<rparr>"
proof -
  have "hm_get (mk_files m) = real_read_file h" "(\<lambda>path. unwrap_or (hm_get (mk_dirs m) path) []) = real_list_dir h"
    "(\<lambda>path. hm_get (mk_files m) path \<noteq> None \<or> hm_get (mk_dirs m) path \<noteq> None) = real_file_exists h"
    "hm_get (mk_perms m) = real_get_file_permissions h"
    using assms by (auto simp: mirrors_def)
  then show ?thesis using assms by (simp add: mock_context_def real_context_def mirrors_def)
qed

lemma mock_misses_directories:
  assumes "mirrors m h" and "real_read_file h path = None" and "real_file_exists h path"
  shows "fi_exists (mock_file_info m path) = Some False" and "fi_exists (real_file_info h path) = Some True"
  using assms by (auto simp: mirrors_def mock_file_info_def real_file_info_def real_file_exists_def)

end
