(* ===== verification/CliMain.thy ===== *)
theory CliMain
  imports Incident
begin

text \<open>
  The entry point of the command line (\<open>secureops-cli/src/main.rs\<close>): the subcommands with their arguments and defaults, their
  dispatch to the handlers, the exit code of the process, and the monitor command. Argument parsing itself is \<open>clap\<close>; a command here is the
  value it yields. The printed text is the returned view.
\<close>

subsection \<open>Commands\<close>

datatype command =
    CInit
  | CAudit bool bool u32
  | CHarden bool "string option"
  | CMonitor
  | CKill "string option" bool
  | CExportIncident
  | CStatus
  | CBehavioral int

definition default_audit :: command where
  "default_audit = CAudit False False DEFAULT_SCORE_THRESHOLD"

definition default_behavioral :: command where
  "default_behavioral = CBehavioral 60"

text \<open>
  The monitor command: the four monitors it starts, with the limits of the configuration, and the state of the loop that joins them. There is
  no circuit watcher, proxy or chain agent.
\<close>

definition monitor_tasks :: "daemon_task list" where
  "monitor_tasks = map MonitorTask [CostM, CredentialM, MemoryM, SkillM]"

definition run_monitor :: "path \<Rightarrow> openclaw_config \<Rightarrow> cost_monitor \<times> shutdown_state" where
  "run_monitor sd config = (cli_cost_monitor sd config,
     \<lparr> sd_tasks = monitor_tasks, sd_cancel = cancel_channel_new, sd_source_closed = False, sd_listener_failed = False \<rparr>)"

datatype cli_reply =
    InitDone bool
  | Audited audit_report int
  | Hardened "harden_outcome option"
  | Monitoring "cost_monitor \<times> shutdown_state"
  | KillDone
  | Exported log_entry
  | StatusShown status_view
  | BehavioralShown "u64 \<times> nat \<times> (string \<times> u64) list"

text \<open>The environment of all handlers; \<open>ce_keystore\<close> is the result of \<open>ensure_keystore\<close>, \<open>ce_signal\<close> that of waiting for the signal.\<close>

record cli_env =
  ce_incident :: incident_env
  ce_keystore :: "string + string"
  ce_pretty_config :: "openclaw_config \<Rightarrow> string"
  ce_signal :: "string + unit"

abbreviation ce_plugin :: "cli_env \<Rightarrow> plugin_env" where
  "ce_plugin ce \<equiv> ie_plugin (ce_incident ce)"

definition load_config :: "plugin_env \<Rightarrow> openclaw_config fsm" where
  "load_config pe = do {
     s \<leftarrow> State_Monad.get;
     State_Monad.return (host_load_config (ah_parse (pe_audit pe)) (pe_host pe s) (plugin_dir pe))
   }"

definition reply :: "('a \<Rightarrow> cli_reply) \<Rightarrow> (string + 'a) fsm \<Rightarrow> (string + cli_reply) fsm" where
  "reply f m = do { r \<leftarrow> m; State_Monad.return (case r of Inl e \<Rightarrow> Err e | Inr x \<Rightarrow> Ok (f x)) }"

definition cli_main :: "cli_env \<Rightarrow> command \<Rightarrow> (string + cli_reply) fsm" where
  "cli_main ce cmd = (let pe = ce_plugin ce in case cmd of
     CInit \<Rightarrow> reply InitDone (run_init (pe_ev pe) (ce_pretty_config ce) (ce_keystore ce) (path_of (plugin_dir pe)))
   | CAudit deep json threshold \<Rightarrow> do {
       s \<leftarrow> State_Monad.get;
       let (report, code) = run_audit_cmd (pe_audit pe) (pe_host pe s) deep json threshold;
       State_Monad.return (Ok (Audited report code))
     }
   | CHarden full rb \<Rightarrow> reply Hardened (run_harden_cmd pe rb)
   | CMonitor \<Rightarrow> do {
       config \<leftarrow> load_config pe;
       State_Monad.return (case ce_signal ce of Inl e \<Rightarrow> Err e | Inr _ \<Rightarrow> Ok (Monitoring (run_monitor (path_of (plugin_dir pe)) config)))
     }
   | CKill reason deactivate \<Rightarrow> reply (\<lambda>_. KillDone) (run_kill pe reason deactivate)
   | CExportIncident \<Rightarrow> reply Exported (run_export_incident (ce_incident ce))
   | CStatus \<Rightarrow> do { v \<leftarrow> run_status pe; State_Monad.return (Ok (StatusShown v)) }
   | CBehavioral window \<Rightarrow> do { v \<leftarrow> run_behavioral pe window; State_Monad.return (Ok (BehavioralShown v)) })"

text \<open>The exit status of the process: an error from \<open>main\<close> is 1, the JSON audit exits by itself, everything else is 0.\<close>

definition exit_status :: "string + cli_reply \<Rightarrow> int" where
  "exit_status r = (case r of Inl _ \<Rightarrow> 1 | Inr (Audited _ code) \<Rightarrow> code | Inr _ \<Rightarrow> 0)"

subsection \<open>Commands that only look\<close>

definition same_disk :: "fsys \<Rightarrow> fsys \<Rightarrow> bool" where
  "same_disk s0 s \<longleftrightarrow> fy_files s = fy_files s0 \<and> fy_dirs s = fy_dirs s0"

lemma untimed_same_disk: "untimed (same_disk s0)"
  by (simp add: untimed_def same_disk_def)

lemma keeps_reads [keeps_rules]:
  "keeps (same_disk s0) (fs_metadata ev p)" "keeps (same_disk s0) (fs_read_to_string ev p)" "keeps P State_Monad.get"
  by (auto simp: fs_metadata_def fs_read_to_string_def State_Monad.get_def keeps_def [of _ "State _"]
      intro!: keeps_io_op untimed_same_disk split: option.split)

definition observes :: "command \<Rightarrow> bool" where
  "observes cmd = (case cmd of CAudit _ _ _ \<Rightarrow> True | CMonitor \<Rightarrow> True | CStatus \<Rightarrow> True | CBehavioral _ \<Rightarrow> True | _ \<Rightarrow> False)"

lemma keeps_observers: "observes cmd \<Longrightarrow> keeps (same_disk s0) (cli_main ce cmd)"
  by (cases cmd)
    (auto simp: observes_def cli_main_def Let_def load_config_def run_status_def run_behavioral_def audit_now_def is_kill_switch_active_def
      get_behavioral_baseline_def intro!: keeps_rules split: prod.split)

definition gate_score :: "cli_env \<Rightarrow> fsys \<Rightarrow> bool \<Rightarrow> u32" where
  "gate_score ce s deep = of_nat (r_score (run_audit_report (pe_audit (ce_plugin ce)) (pe_host (ce_plugin ce) s)
     (plugin_dir (ce_plugin ce)) \<lparr> ao_deep = deep, ao_fix = False, ao_json = True \<rparr>))"

lemma gate_code:
  "snd (run_audit_cmd (pe_audit (ce_plugin ce)) (pe_host (ce_plugin ce) s) deep json t) = (if json \<and> gate_score ce s deep < t then 2 else 0)"
  by (cases json) (simp_all add: run_audit_cmd_def gate_score_def plugin_dir_def audit_exit_code_def EXIT_GATE_FAILED_def Let_def)

text \<open>
  The exit status of the command line. It is 2 exactly for the JSON audit of a host whose score is below the threshold, whatever
  else happens on the host, and 1 exactly when a handler reports an error; an audit never reports one, so a pipeline that runs the
  gate sees 0 or 2. The audit, monitor, status and behavioural commands leave every file and directory as it was, whatever input and output
  fails meanwhile.
\<close>

theorem cli_exit_and_effects:
  assumes "run_state (cli_main ce cmd) s = (r, s')"
  shows "exit_status r = 2 \<longleftrightarrow> (\<exists>deep t. cmd = CAudit deep True t \<and> gate_score ce s deep < t)"
    and "exit_status r = 1 \<longleftrightarrow> \<not> is_ok r"
    and "cmd = CAudit deep json t \<Longrightarrow> is_ok r"
    and "observes cmd \<Longrightarrow> fy_files s' = fy_files s \<and> fy_dirs s' = fy_dirs s"
proof -
  have audit: "\<exists>report. r = Ok (Audited report (if j \<and> gate_score ce s d < t then 2 else 0))" if "cmd = CAudit d j t" for d j t
    using assms gate_code [of ce s d j t] by (auto simp: that cli_main_def Let_def State_Monad.get_def split: prod.splits)
  have other: "exit_status r = (if is_ok r then 0 else 1)" if "\<nexists>d j t. cmd = CAudit d j t"
    using assms that by (cases cmd) (auto simp: cli_main_def Let_def reply_def exit_status_def split: prod.splits sum.splits)
  show "exit_status r = 2 \<longleftrightarrow> (\<exists>deep t. cmd = CAudit deep True t \<and> gate_score ce s deep < t)" "exit_status r = 1 \<longleftrightarrow> \<not> is_ok r"
    using audit other by (cases cmd; fastforce simp: exit_status_def split: if_splits)+
  show "cmd = CAudit deep json t \<Longrightarrow> is_ok r" using audit by auto
  show "observes cmd \<Longrightarrow> fy_files s' = fy_files s \<and> fy_dirs s' = fy_dirs s"
    using keepsD [OF keeps_observers [of cmd s ce] _ assms] by (simp add: same_disk_def)
qed

subsection \<open>Stopping the monitor command\<close>

text \<open>
  Unlike the daemon, the monitor command always stops: after the signal, every state the joining loop can reach leads to the
  end, and it stops nowhere else.
\<close>

theorem monitor_command_stops:
  assumes "shutdown_step\<^sup>*\<^sup>* (cancel_all (snd (run_monitor sd config))) s"
  shows "(stuck s \<longrightarrow> sd_tasks s = []) \<and> (\<exists>s'. shutdown_step\<^sup>*\<^sup>* s s' \<and> sd_tasks s' = [])"
proof -
  let ?s = "cancel_all (snd (run_monitor sd config))"
  have start: "stopping ?s" by (simp add: stopping_def run_monitor_def cancel_all_def cancel_def)
  have empty: "sd_tasks u = []" if "shutdown_step\<^sup>*\<^sup>* ?s u" "stuck u" for u
  proof -
    have "stopping u" "set (sd_tasks u) \<subseteq> set monitor_tasks"
      using stopping_steps [OF that(1) start] by (simp_all add: run_monitor_def cancel_all_def)
    then show ?thesis using that(2)
      by (cases "sd_tasks u") (auto simp: stuck_def stopping_def monitor_tasks_def may_end_def cancelled_resolves_def)
  qed
  obtain s' where "shutdown_step\<^sup>*\<^sup>* s s'" "stuck s'" using reaches_stuck by blast
  then show ?thesis using empty assms by (meson rtranclp_trans)
qed

end
