(* ===== verification/Bench.thy ===== *)
theory Bench
  imports GraphPaths
begin

text \<open>The synthetic graph of the benchmarks (\<open>secureops-bench/src/lib.rs\<close>).\<close>

definition bench_node :: "nat \<Rightarrow> string" where
  "bench_node i = ''n'' @ show_nat i"

definition bench_prev :: "nat \<Rightarrow> string" where
  "bench_prev i = (case i of 0 \<Rightarrow> ''internet'' | Suc j \<Rightarrow> bench_node j)"

definition synthetic_nodes :: "nat \<Rightarrow> security_graph" where
  "synthetic_nodes n = foldl (\<lambda>g i. add_node ((node_new (bench_node i) ''asset'')\<lparr> nd_sensitive := (i = n - 1) \<rparr>) g)
     (add_node ((node_new ''internet'' ''net'')\<lparr> nd_exposed := True \<rparr>) graph_new) [0..<n]"

definition synthetic_graph :: "nat \<Rightarrow> security_graph" where
  "synthetic_graph n = foldl (\<lambda>g i. add_edge (bench_prev i) (bench_node i) Exposes (Fin 1) g) (synthetic_nodes n) [0..<n]"

text \<open>
  The graph is documented as a mesh with a fan-out tree. It is a single path: every node has at most one edge, so the search it is used to
  measure never has a choice.
\<close>

lemma bench_node_ne: "bench_node i \<noteq> ''internet''"
  by (simp add: bench_node_def)

lemma bench_prev_inject: "bench_prev i = bench_prev j \<Longrightarrow> i = j"
  using bench_node_ne bench_node_ne [symmetric]
  by (cases i; cases j) (auto simp: bench_prev_def bench_node_def show_nat_inject)

lemma edges_foldl_nodes: "edges (foldl (\<lambda>g i. add_node (f i) g) g is) x = edges g x"
  by (induction "is" arbitrary: g) simp_all

lemma edges_foldl_edges:
  "edges (foldl (\<lambda>g i. add_edge (a i) (b i) k d g) g is) x =
    edges g x @ map (\<lambda>i. \<lparr> er_to = b i, er_kind = k, er_difficulty = flt_max d (Fin 0) \<rparr>) (filter (\<lambda>i. a i = x) is)"
  by (induction "is" arbitrary: g) (auto simp: edges_add_edge)

lemma synthetic_edges:
  "map er_to (edges (synthetic_graph n) x) = map bench_node (filter (\<lambda>i. bench_prev i = x) [0..<n])"
proof -
  have "edges graph_new x = []" by (simp add: edges_def graph_new_def hm_get_def)
  then show ?thesis by (simp add: synthetic_graph_def synthetic_nodes_def edges_foldl_edges edges_foldl_nodes)
qed

lemma synthetic_graph_is_path: "length (edges (synthetic_graph n) x) \<le> 1"
proof -
  have "distinct xs \<Longrightarrow> length (filter (\<lambda>i. bench_prev i = x) xs) \<le> 1" for xs
  proof (induction xs)
    case (Cons i xs)
    then show ?case by (cases "bench_prev i = x") (auto simp: filter_empty_conv dest!: bench_prev_inject)
  qed simp
  then have "length (filter (\<lambda>i. bench_prev i = x) [0..<n]) \<le> 1" by simp
  then show ?thesis using synthetic_edges [of n x, THEN arg_cong [of _ _ length]] by simp
qed

end
