(* ===== verification/Cosine.thy ===== *)
theory Cosine
  imports TokenBudget Core
begin

text \<open>
  \<open>cosine_similarity\<close> of \<open>secureops-tokenbudget/src/lib.rs\<close> over \<open>f32\<close>, with the correctly rounded square root, and the
  remaining constructors of the packer. The square root is computed over integers; the lemma \<open>f32_sqrt_nearest\<close> says that it is within half a
  unit in the last place of the exact root.
\<close>

subsection \<open>Square root\<close>

function isqrt :: "nat \<Rightarrow> nat" where
  "isqrt n = (if n = 0 then 0 else let r = 2 * isqrt (n div 4) in if (r + 1) * (r + 1) \<le> n then r + 1 else r)"
  by pat_completeness auto
termination by (relation "measure id") auto

declare isqrt.simps [simp del]

lemma isqrt_bounds: "isqrt n * isqrt n \<le> n \<and> n < (isqrt n + 1) * (isqrt n + 1)"
proof (induction n rule: isqrt.induct)
  case (1 n)
  show ?case
  proof (cases "n = 0")
    case True
    then show ?thesis by (simp add: isqrt.simps)
  next
    case False
    let ?s = "isqrt (n div 4)"
    have "?s * ?s \<le> n div 4" "n div 4 + 1 \<le> (?s + 1) * (?s + 1)" using 1 [OF False] by simp_all
    then have "4 * (?s * ?s) \<le> 4 * (n div 4)" "4 * (n div 4) + 4 \<le> 4 * ((?s + 1) * (?s + 1))" by linarith+
    moreover have "4 * (n div 4) \<le> n" "n < 4 * (n div 4) + 4" by simp_all
    ultimately have "4 * (?s * ?s) \<le> n" "n < 4 * ((?s + 1) * (?s + 1))" by linarith+
    moreover have "(2 * ?s) * (2 * ?s) = 4 * (?s * ?s)" "(2 * ?s + 1 + 1) * (2 * ?s + 1 + 1) = 4 * ((?s + 1) * (?s + 1))"
      by (simp_all add: algebra_simps)
    ultimately show ?thesis using False by (subst (1 2 3 4) isqrt.simps) (auto simp: Let_def not_le)
  qed
qed

definition sqrt_unit :: "rat \<Rightarrow> rat" where
  "sqrt_unit q = 2 powi (bexp q div 2 - 23)"

definition sqrt_units :: "rat \<Rightarrow> nat" where
  "sqrt_units x =
    (let m = isqrt (nat \<lfloor>x\<rfloor>); h = (of_nat m + 1 / 2) * (of_nat m + 1 / 2)
     in if x < h then m else if h < x then m + 1 else if even m then m else m + 1)"

definition f32_sqrt :: "f32 \<Rightarrow> f32" where
  "f32_sqrt v = (case v of
     NaN \<Rightarrow> NaN | NInf \<Rightarrow> NaN | PInf \<Rightarrow> PInf
   | Fin q \<Rightarrow> if q < 0 then NaN else if q = 0 then Fin 0
       else Fin (of_nat (sqrt_units (q / (sqrt_unit q * sqrt_unit q))) * sqrt_unit q))"

lemma sqrt_units_near:
  assumes "1 \<le> x"
  shows "(of_nat (sqrt_units x) - 1 / 2) * (of_nat (sqrt_units x) - 1 / 2) \<le> (x :: rat)"
    and "x \<le> (of_nat (sqrt_units x) + 1 / 2) * (of_nat (sqrt_units x) + 1 / 2)"
proof -
  let ?m = "isqrt (nat \<lfloor>x\<rfloor>)"
  have f: "of_nat (nat \<lfloor>x\<rfloor>) \<le> x" "x < of_nat (nat \<lfloor>x\<rfloor>) + 1" using assms floor_correct [of x] by (simp_all add: of_nat_nat)
  have "(of_nat (?m * ?m) :: rat) \<le> of_nat (nat \<lfloor>x\<rfloor>)" "(of_nat (nat \<lfloor>x\<rfloor> + 1) :: rat) \<le> of_nat ((?m + 1) * (?m + 1))"
    using isqrt_bounds [of "nat \<lfloor>x\<rfloor>"] by (simp_all only: of_nat_le_iff Suc_eq_plus1 [symmetric] Suc_le_eq)
  then have "of_nat ?m * of_nat ?m \<le> (of_nat (nat \<lfloor>x\<rfloor>) :: rat)" "of_nat (nat \<lfloor>x\<rfloor>) + 1 \<le> (of_nat ?m + 1) * (of_nat ?m + 1 :: rat)"
    by (simp_all only: of_nat_mult of_nat_add of_nat_1)
  then have m: "of_nat ?m * of_nat ?m \<le> x" "x < (of_nat ?m + 1) * (of_nat ?m + 1)" using f by linarith+
  have low: "(of_nat ?m - 1 / 2) * (of_nat ?m - 1 / 2) \<le> x"
  proof (cases "?m = 0")
    case True
    then show ?thesis using assms by simp
  next
    case False
    then have "(1 :: rat) \<le> of_nat ?m" by simp
    then have "(of_nat ?m - 1 / 2) * (of_nat ?m - 1 / 2) \<le> of_nat ?m * (of_nat ?m :: rat)" by (intro mult_mono) auto
    then show ?thesis using m(1) by linarith
  qed
  have "(of_nat ?m + 1) * (of_nat ?m + 1) \<le> (of_nat ?m + 1 + 1 / 2) * (of_nat ?m + 1 + 1 / 2 :: rat)" by (intro mult_mono) auto
  then have high: "x \<le> (of_nat ?m + 1 + 1 / 2) * (of_nat ?m + 1 + 1 / 2)" using m(2) by linarith
  let ?h = "(of_nat ?m + 1 / 2) * (of_nat ?m + 1 / 2)"
  have next_up: "of_nat (?m + 1) - 1 / 2 = (of_nat ?m + 1 / 2 :: rat)" "of_nat (?m + 1) + 1 / 2 = (of_nat ?m + 1 + 1 / 2 :: rat)" by simp_all
  have "sqrt_units x = ?m \<and> x \<le> ?h \<or> sqrt_units x = ?m + 1 \<and> ?h \<le> x" by (auto simp: sqrt_units_def Let_def)
  then show "(of_nat (sqrt_units x) - 1 / 2) * (of_nat (sqrt_units x) - 1 / 2) \<le> x"
    "x \<le> (of_nat (sqrt_units x) + 1 / 2) * (of_nat (sqrt_units x) + 1 / 2)"
    using low high by (elim disjE conjE; simp only: next_up)+
qed

lemma f32_sqrt_nearest:
  assumes "0 < q"
  shows "\<exists>r. f32_sqrt (Fin q) = Fin r \<and> (r - sqrt_unit q / 2) * (r - sqrt_unit q / 2) \<le> q \<and>
    q \<le> (r + sqrt_unit q / 2) * (r + sqrt_unit q / 2)"
proof -
  define u where "u = sqrt_unit q"
  define k where "k = (of_nat (sqrt_units (q / (u * u))) :: rat)"
  have u: "0 < u" by (simp add: u_def sqrt_unit_def)
  have "u * u = 2 powi (2 * (bexp q div 2) - 46)" by (simp add: u_def sqrt_unit_def flip: power_int_add)
  also have "\<dots> \<le> 2 powi (bexp q)" by (intro power_int_increasing) auto
  also have "\<dots> \<le> q" using bexp_bounds [OF assms] by simp
  finally have "1 \<le> q / (u * u)" using u by (simp add: le_divide_eq)
  then have "(k - 1 / 2) * (k - 1 / 2) \<le> q / (u * u)" "q / (u * u) \<le> (k + 1 / 2) * (k + 1 / 2)"
    unfolding k_def using sqrt_units_near by blast+
  then have "(k - 1 / 2) * (k - 1 / 2) * (u * u) \<le> q" "q \<le> (k + 1 / 2) * (k + 1 / 2) * (u * u)"
    using u by (simp_all add: le_divide_eq divide_le_eq)
  moreover have "(k * u - u / 2) * (k * u - u / 2) = (k - 1 / 2) * (k - 1 / 2) * (u * u)"
    "(k * u + u / 2) * (k * u + u / 2) = (k + 1 / 2) * (k + 1 / 2) * (u * u)" by (simp_all add: algebra_simps)
  moreover have "f32_sqrt (Fin q) = Fin (k * u)" using assms by (simp add: f32_sqrt_def k_def u_def)
  ultimately show ?thesis unfolding u_def [symmetric] by auto
qed

subsection \<open>Similarity\<close>

text \<open>A \<open>BTreeMap\<close> from words to counts: sorted by word. The entry of a word starts at 0 and grows by 1.\<close>

fun count_word :: "string \<Rightarrow> (string \<times> f32) list \<Rightarrow> (string \<times> f32) list" where
  "count_word w [] = [(w, flt_add round32 (Fin 0) (Fin 1))]"
| "count_word w ((k, c) # m) = (if w = k then (k, flt_add round32 c (Fin 1)) # m
     else if w < k then (w, flt_add round32 (Fin 0) (Fin 1)) # (k, c) # m
     else (k, c) # count_word w m)"

definition word_freq :: "string \<Rightarrow> (string \<times> f32) list" where
  "word_freq s = foldl (\<lambda>m w. count_word w m) [] (split_whitespace s)"

definition f32_sum :: "f32 list \<Rightarrow> f32" where
  "f32_sum xs = foldl (flt_add round32) (Fin 0) xs"

definition freq_norm :: "(string \<times> f32) list \<Rightarrow> f32" where
  "freq_norm m = f32_sqrt (f32_sum (map (\<lambda>(_, v). flt_mul round32 v v) m))"

definition freq_dot :: "(string \<times> f32) list \<Rightarrow> (string \<times> f32) list \<Rightarrow> f32" where
  "freq_dot fa fb = f32_sum (map (\<lambda>(k, va). case map_of fb k of Some vb \<Rightarrow> flt_mul round32 va vb | None \<Rightarrow> Fin 0) fa)"

definition cosine_similarity :: "string \<Rightarrow> string \<Rightarrow> f32" where
  "cosine_similarity a b =
    (let fa = word_freq a; fb = word_freq b in
     if fa = [] \<or> fb = [] then Fin 0
     else let na = freq_norm fa; nb = freq_norm fb in
       if flt_eq na (Fin 0) \<or> flt_eq nb (Fin 0) then Fin 0 else flt_div round32 (freq_dot fa fb) (flt_mul round32 na nb))"

definition budget_new :: "string \<Rightarrow> nat \<Rightarrow> nat \<Rightarrow> token_budget" where
  "budget_new model window reserved_output = \<lparr> tb_model = model, tb_window = window, tb_reserved_output = reserved_output \<rparr>"

definition anthropic_cache_control :: "(string \<times> string) list" where
  "anthropic_cache_control = [(''type'', ''ephemeral'')]"

lemma keys_count_word: "set (map fst (count_word w m)) = insert w (set (map fst m))"
  by (induction w m rule: count_word.induct) auto

lemma sorted_count_word: "sorted_wrt (<) (map fst m) \<Longrightarrow> sorted_wrt (<) (map fst (count_word w m))"
proof (induction w m rule: count_word.induct)
  case (2 w k c m)
  then show ?case using keys_count_word [of w m] by (cases "w = k"; cases "w < k") (auto simp: not_less_iff_gr_or_eq dest: less_trans)
qed simp

lemma sorted_word_freq: "sorted_wrt (<) (map fst (word_freq s))"
proof -
  have "sorted_wrt (<) (map fst m) \<Longrightarrow> sorted_wrt (<) (map fst (foldl (\<lambda>m w. count_word w m) m ws))" for m ws
    by (induction ws arbitrary: m) (simp_all add: sorted_count_word)
  then show ?thesis by (simp add: word_freq_def)
qed

lemma add_zero: "is_f32 v \<Longrightarrow> flt_add round32 v (Fin 0) = v"
  by (cases v) (simp_all add: is_f32_def)

lemma foldl_skip_zero:
  "is_f32 acc \<Longrightarrow> (\<And>x. x \<in> set xs \<Longrightarrow> \<not> P x \<Longrightarrow> g x = Fin 0) \<Longrightarrow>
    foldl (flt_add round32) acc (map g xs) = foldl (flt_add round32) acc (map g (filter P xs))"
  by (induction xs arbitrary: acc) (auto simp: add_zero)

text \<open>The dot product is a sum over the words both texts have, in order.\<close>

lemma freq_dot_common:
  assumes "sorted_wrt (<) (map fst fa)"
  shows "freq_dot fa fb = f32_sum (map (\<lambda>k. flt_mul round32 (the (map_of fa k)) (the (map_of fb k)))
    (filter (\<lambda>k. k \<in> set (map fst fb)) (map fst fa)))"
proof -
  have dist: "distinct (map fst fa)" using assms strict_sorted_iff by blast
  let ?g = "\<lambda>(k, va). case map_of fb k of Some vb \<Rightarrow> flt_mul round32 va vb | None \<Rightarrow> Fin 0"
  have "freq_dot fa fb = f32_sum (map ?g (filter (\<lambda>p. fst p \<in> set (map fst fb)) fa))"
    unfolding freq_dot_def f32_sum_def
    by (rule foldl_skip_zero) (auto simp: is_f32_def round32_def fp_round_def fp_near_def map_of_eq_None_iff [THEN iffD2])
  also have "map ?g (filter (\<lambda>p. fst p \<in> set (map fst fb)) fa) =
      map (\<lambda>k. flt_mul round32 (the (map_of fa k)) (the (map_of fb k))) (map fst (filter (\<lambda>p. fst p \<in> set (map fst fb)) fa))"
  proof -
    have "?g p = flt_mul round32 (the (map_of fa (fst p))) (the (map_of fb (fst p)))" if "p \<in> set fa" "fst p \<in> set (map fst fb)" for p
    proof -
      have "map_of fa (fst p) = Some (snd p)" using dist that(1) by (simp add: map_of_eq_Some_iff)
      moreover have "map_of fb (fst p) \<noteq> None" using that(2) by (simp only: map_of_eq_None_iff) simp
      ultimately show ?thesis by (auto simp: case_prod_beta)
    qed
    then show ?thesis by simp
  qed
  finally show ?thesis by (simp add: filter_map comp_def)
qed

lemma flt_mul_commute: "flt_mul rnd a b = flt_mul rnd b a"
  by (cases a; cases b) (simp_all add: mult.commute)

lemma freq_dot_commute:
  assumes "sorted_wrt (<) (map fst fa)" "sorted_wrt (<) (map fst fb)"
  shows "freq_dot fa fb = freq_dot fb fa"
proof -
  have "sorted_wrt (<) (filter P (map fst m))" if "sorted_wrt (<) (map fst m)" for P and m :: "(string \<times> f32) list"
    using that by (rule sorted_wrt_filter)
  then have "filter (\<lambda>k. k \<in> set (map fst fb)) (map fst fa) = filter (\<lambda>k. k \<in> set (map fst fa)) (map fst fb)"
    using assms by (intro strict_sorted_equal) auto
  then show ?thesis unfolding freq_dot_common [OF assms(1)] freq_dot_common [OF assms(2)]
    by (simp only: flt_mul_commute [of _ "the (map_of fa _)"])
qed

lemma cosine_symmetric: "cosine_similarity a b = cosine_similarity b a"
  using freq_dot_commute [OF sorted_word_freq sorted_word_freq, of a b] flt_mul_commute
  by (auto simp: cosine_similarity_def Let_def)

text \<open>
  The similarity is documented to lie between 0 and 1, and equal texts are meant to be collapsed. The rounding of the two roots breaks both: a text of two
  words is more similar to itself than 1, and one of three words, one of them twice, less, so that at a threshold of 1 an exact duplicate is kept.
\<close>

lemma round_half_even_at:
  assumes "of_int k - 1 / 2 < q" "q < of_int k + 1 / 2"
  shows "round_half_even q = k"
proof -
  have "\<bar>of_int (round_half_even q) - of_int k\<bar> < (1 :: rat)" using round_half_even_near [of q] assms by linarith
  then have "\<bar>of_int (round_half_even q - k)\<bar> < (1 :: rat)" by simp
  then show ?thesis by linarith
qed

lemma round32_at:
  assumes "2 powi e \<le> x" "x < 2 powi (e + 1)" "-126 \<le> e" "e \<le> 126"
    and at: "of_int k - 1 / 2 < x / 2 powi (e - 23)" "x / 2 powi (e - 23) < of_int k + 1 / 2" and k: "0 \<le> k" "k \<le> 2 ^ 24"
  shows "round32 x = Fin (of_int k * 2 powi (e - 23))"
proof -
  have "x \<noteq> 0" using assms(1) by (metis not_le zero_less_numeral zero_less_power_int)
  moreover have "0 < x" using assms(1) by (metis less_le_trans zero_less_numeral zero_less_power_int)
  ultimately have near: "fp_near 24 (-126) x = of_int k * 2 powi (e - 23)"
    using bexp_unique [OF assms(1,2)] assms(3) round_half_even_at [OF at] by (simp add: fp_near_def fp_ulp_def)
  have "(of_int k :: rat) \<le> 2 powi 24" using k(2) by (simp add: of_int_le_iff flip: of_int_power)
  then have "of_int k * 2 powi (e - 23) \<le> (2 powi 24 * 2 powi (e - 23) :: rat)" by (intro mult_right_mono) auto
  also have "\<dots> = 2 powi (24 + (e - 23))" by (rule power_int_add [symmetric]) simp
  also have "\<dots> < 2 powi 128" using assms(4) by (intro power_int_strict_increasing) auto
  finally have "of_int k * 2 powi (e - 23) < (2 powi 128 :: rat)" .
  moreover have "0 \<le> (of_int k * 2 powi (e - 23) :: rat)" using k(1) by simp
  ultimately show ?thesis by (simp add: round32_def fp_round_def near Let_def not_le not_less)
qed

lemma sqrt_two: "f32_sqrt (Fin 2) = Fin (11863283 / 8388608)"
proof -
  have "bexp 2 = 1" by (rule bexp_unique) simp_all
  then have u: "sqrt_unit 2 = 1 / 8388608" by (simp add: sqrt_unit_def power_int_minus)
  have "sqrt_units 140737488355328 = 11863283" by (simp add: sqrt_units_def isqrt.simps Let_def)
  then show ?thesis by (simp add: f32_sqrt_def u)
qed

lemma sqrt_six: "f32_sqrt (Fin 6) = Fin (10273905 / 4194304)"
proof -
  have "bexp 6 = 2" by (rule bexp_unique) simp_all
  then have u: "sqrt_unit 6 = 1 / 4194304" by (simp add: sqrt_unit_def power_int_minus)
  have "sqrt_units 105553116266496 = 10273905" by (simp add: sqrt_units_def isqrt.simps Let_def)
  then show ?thesis by (simp add: f32_sqrt_def u)
qed

lemma round32_small: "round32 1 = Fin 1" "round32 2 = Fin 2" "round32 3 = Fin 3" "round32 4 = Fin 4" "round32 5 = Fin 5" "round32 6 = Fin 6"
  using f32_of_nat_exact [of 1] f32_of_nat_exact [of 2] f32_of_nat_exact [of 3] f32_of_nat_exact [of 4] f32_of_nat_exact [of 5] f32_of_nat_exact [of 6]
  by (simp_all add: f32_of_nat_def)

lemma demo_freqs:
  "word_freq ''a b'' = [(''a'', Fin 1), (''b'', Fin 1)]"
  "word_freq ''a a b c'' = [(''a'', Fin 2), (''b'', Fin 1), (''c'', Fin 1)]"
proof -
  have "split_whitespace (join '' '' [''a'', ''b'']) = [''a'', ''b'']"
    "split_whitespace (join '' '' [''a'', ''a'', ''b'', ''c'']) = [''a'', ''a'', ''b'', ''c'']"
    by (rule split_whitespace_join; code_simp)+
  then show "word_freq ''a b'' = [(''a'', Fin 1), (''b'', Fin 1)]"
    "word_freq ''a a b c'' = [(''a'', Fin 2), (''b'', Fin 1), (''c'', Fin 1)]"
    by (simp_all add: word_freq_def round32_small less_char_def)
qed

lemma self_similarity_off_by_rounding:
  "cosine_similarity ''a b'' ''a b'' = Fin (8388609 / 8388608)"
  "cosine_similarity ''a a b c'' ''a a b c'' = Fin (16777215 / 16777216)"
proof -
  have two: "round32 (11863283 / 8388608 * (11863283 / 8388608)) = Fin (16777215 / 8388608)"
    using round32_at [of 0 "11863283 / 8388608 * (11863283 / 8388608)" 16777215] by (simp add: power_int_minus)
  have two': "round32 (16777216 / 16777215) = Fin (8388609 / 8388608)"
    using round32_at [of 0 "16777216 / 16777215" 8388609] by (simp add: power_int_minus)
  have six: "round32 (10273905 / 4194304 * (10273905 / 4194304)) = Fin (12582913 / 2097152)"
    using round32_at [of 2 "10273905 / 4194304 * (10273905 / 4194304)" 12582913] by (simp add: power_int_minus)
  have six': "round32 (12582912 / 12582913) = Fin (16777215 / 16777216)"
    using round32_at [of "-1" "12582912 / 12582913" 16777215] by (simp add: power_int_minus)
  show "cosine_similarity ''a b'' ''a b'' = Fin (8388609 / 8388608)"
    using two two' by (simp add: cosine_similarity_def demo_freqs freq_norm_def freq_dot_def f32_sum_def round32_small sqrt_two flt_eq_def)
  show "cosine_similarity ''a a b c'' ''a a b c'' = Fin (16777215 / 16777216)"
    using six six' by (simp add: cosine_similarity_def demo_freqs freq_norm_def freq_dot_def f32_sum_def round32_small sqrt_six flt_eq_def)
qed

lemma exact_duplicate_survives:
  assumes "ev_raw e1 = ''a a b c''" "ev_raw e2 = ''a a b c''"
  shows "cosine_dedup cosine_similarity [e1, e2] (Fin 1) = ([e1, e2], 0)"
  using assms by (simp add: cosine_dedup_def dedup_step_def self_similarity_off_by_rounding)

end
