(* ===== verification/Spec2Isabelle.thy ===== *)
theory Spec2Isabelle
  imports Prelude RustStr Floats Json Core AuditRun Policy Proxy Hex AuditLog SelfHeal Graph GraphPaths TokenBudget Runtime Kernel
    Http License Metrics RateLimit Store Auth Rl Api Isolation Crypto MachineKey BugHunt Compliance Export Intel
    Checks CheckGateway CheckFiles CheckContent CostCheck AllChecks
    FileSys Redact HardenConfig Harden Rollback
    HostAudit Scanner Chaos Evidence Sandbox KillSwitch Monitors CostMonitor Daemon Plugin Ipc Cli Incident
    PgStore PgRefinement NetAddr Server LicenseTool AwsScan Authz Playbooks Neo4j KernelLoad MockContext CliMain Bench Cosine
begin

text \<open>
  \<^bold>\<open>SecureOps: a verification library.\<close>

  SecureOps is a Rust workspace (\<open>src/crates\<close>) around one product: it audits, hardens and watches the host of an AI agent, stands between the
  agent and the network, and offers a multi-tenant platform on top. This library models the workspace crate by crate as functions of HOL and proves what
  makes each part correct, on every branch the code has.

  \<^bold>\<open>The parts and how they interact.\<close>
  The \<^emph>\<open>audit\<close> runs a list of checks over a context (configuration, files, ports), scores the findings and reports. The \<^emph>\<open>hardening engine\<close> changes
  the configuration and files of the host after backing them up, and can roll back. The \<^emph>\<open>monitors\<close> poll the host and publish alerts on a bus; the
  \<^emph>\<open>daemon\<close> starts them behind the kill switch, logs the alerts in a hash-chained \<^emph>\<open>audit log\<close>, trips a circuit breaker on cost and on exfiltration chains
  seen by the \<^emph>\<open>kernel\<close> correlator, and runs the \<^emph>\<open>egress proxy\<close>, which asks the \<^emph>\<open>policy\<close> engine. Skills run in a WASM \<^emph>\<open>sandbox\<close> whose
  capabilities the policy grants. The \<^emph>\<open>platform API\<close> keeps scans, findings and remediations per tenant, fed by the \<^emph>\<open>scan worker\<close>; it has a
  knowledge graph with attack paths, self-healing playbooks behind their own breakers, a ranker, a bug-hunt loop over language models, compliance reports and signed
  exports. Keys, licenses, threat intelligence and redaction serve all of them. The command line, the plugin and the control socket are the ways in.

  \<^bold>\<open>Theories and sources.\<close>
  \<^item> \<open>Prelude\<close>, \<open>RustStr\<close>, \<open>Hex\<close>, \<open>Floats\<close>, \<open>Json\<close>, \<open>Http\<close>: what the code uses of Rust and its standard library: hash maps (association lists with distinct keys,
    specified by the locale \<open>hash_map\<close>), saturating arithmetic on words, results and panics, UTF-8 strings as byte lists, IEEE binary32/64 arithmetic with rounding to nearest,
    JSON values.
  \<^item> \<open>Core\<close>, \<open>AuditRun\<close>, \<open>Checks\<close>, \<open>CheckGateway\<close>, \<open>CheckFiles\<close>, \<open>CheckContent\<close>, \<open>CostCheck\<close>, \<open>AllChecks\<close>: the crates \<open>secureops-core\<close> and \<open>secureops-checks\<close>: finding model, scoring,
    context, orchestrator and every check. \<open>HostAudit\<close> is the context of a real host (\<open>secureops-fs\<close>) and the entry points of \<open>secureops-napi\<close> and the CLI.
  \<^item> \<open>FileSys\<close>: files, directories and \<open>tokio::fs\<close> as a state monad with an environment that may make any operation fail; the rules \<open>keeps_rules\<close> and the locale
    \<open>fs_inv\<close> carry the frame proofs of \<open>Redact\<close>, \<open>HardenConfig\<close>, \<open>Harden\<close>, \<open>Rollback\<close> (\<open>secureops-harden\<close>), \<open>KillSwitch\<close> (\<open>killswitch.rs\<close>, \<open>behavioral.rs\<close>), \<open>Plugin\<close>, \<open>Cli\<close>, \<open>Incident\<close>.
  \<^item> \<open>Monitors\<close>, \<open>CostMonitor\<close> (\<open>secureops-monitors\<close>): the alert bus, the four monitors as loops over ticks; the locale \<open>diff_monitor\<close> is the contract the three polling monitors
    share. \<open>Daemon\<close> (\<open>secureops-daemon\<close>): start-up, alert consumer, chain agent, shutdown as a step relation.
  \<^item> \<open>Kernel\<close> (\<open>secureops-bpf\<close>), \<open>Policy\<close> (\<open>secureops-policy\<close>), \<open>Proxy\<close> (\<open>secureops-proxy\<close>), \<open>Sandbox\<close> (\<open>secureops-sandbox\<close>): the enforcement points; decision points are
    interfaces (locales) interpreted on the allowlist and on the policy engines.
  \<^item> \<open>AuditLog\<close> (\<open>secureops-auditlog\<close>), \<open>Crypto\<close>, \<open>MachineKey\<close> (\<open>secureops-crypto\<close>), \<open>License\<close> (\<open>secureops-license-server\<close>, \<open>license.rs\<close>), \<open>Intel\<close> (\<open>secureops-intel\<close>): chains, keys, signed
    data. The locale \<open>signer_backend\<close> is interpreted on the in-memory signer of the daemon and the keychain signer of the CLI.
  \<^item> \<open>Store\<close>, \<open>Auth\<close>, \<open>Api\<close>, \<open>Isolation\<close>, \<open>Metrics\<close>, \<open>RateLimit\<close>, \<open>Compliance\<close>, \<open>Export\<close>, \<open>Evidence\<close> (\<open>secureops-api\<close>), \<open>Scanner\<close> (\<open>secureops-scanner\<close>), \<open>Chaos\<close> (\<open>secureops-chaos\<close>):
    the platform. \<open>Graph\<close>, \<open>GraphPaths\<close> (\<open>secureops-graph\<close>), \<open>SelfHeal\<close> (\<open>secureops-selfheal\<close>), \<open>Rl\<close> (\<open>secureops-rl\<close>), \<open>TokenBudget\<close> (\<open>secureops-tokenbudget\<close>), \<open>BugHunt\<close>
    (\<open>secureops-bughunt\<close>): its engines.
  \<^item> \<open>PgStore\<close>, \<open>PgRefinement\<close>: the second store of the platform (\<open>secureops-api/src/store/pg.rs\<close>, its migrations and row-level security policies): tables as lists of
    rows, one definition per statement, a connection that may be lost before or after a commit. The locale \<open>sql_order\<close> is the contract of an \<open>ORDER BY\<close>.
  \<^item> \<open>NetAddr\<close>, \<open>Server\<close>: the server binary (\<open>main.rs\<close>, \<open>health.rs\<close>, \<open>redis_queue.rs\<close>, the dashboard fallback of \<open>router.rs\<close>): configuration, secrets, choice of the backends,
    probes, and the socket addresses it parses. \<open>LicenseTool\<close>: the license binary (\<open>secureops-license-server/src/main.rs\<close>): key generation, minting, verification, serving.
  \<^item> \<open>Authz\<close> (\<open>authz.rs\<close>), \<open>Playbooks\<close> (\<open>secureops-selfheal\<close>: \<open>load_dir\<close>, \<open>aws.rs\<close>), \<open>Neo4j\<close> (\<open>secureops-graph/src/neo4j.rs\<close>), \<open>AwsScan\<close> (\<open>secureops-scanner\<close>: \<open>aws.rs\<close>, \<open>main.rs\<close>),
    \<open>KernelLoad\<close> (\<open>secureops-bpf\<close>: loaders; \<open>secureops-daemon/src/bpf_wire.rs\<close>): the parts that drive third-party engines; the code's own logic around their answers is modelled, the answers are arguments.
  \<^item> \<open>Ipc\<close> (\<open>secureops-ipc\<close>), \<open>Plugin\<close> (\<open>secureops-napi\<close>), \<open>Cli\<close>, \<open>CliMain\<close>, \<open>Incident\<close> (\<open>secureops-cli\<close>): the ways in; \<open>CliMain\<close> has the dispatch of every command and the exit status.
  \<^item> \<open>MockContext\<close> (\<open>secureops-checks/src/mock.rs\<close>), \<open>Bench\<close> (\<open>secureops-bench\<close>), \<open>Cosine\<close> (the similarity of \<open>secureops-tokenbudget\<close>, with its own square root): the test double of the
    audit, the synthetic graph, and near-duplicate removal.

  A Rust struct is a record with prefixed fields, an enum a datatype, a function a definition of the same name where the name is free; \<open>Result\<close> is a sum (\<open>Err\<close> is
  \<open>Inl\<close>, \<open>Ok\<close> is \<open>Inr\<close>), a call that may panic returns \<open>may_panic\<close>, mutable state is passed and returned. Each theory opens with what it holds.

  \<^bold>\<open>What is shown.\<close>
  \<^item> Isolation and authority: no operation of one tenant changes or reveals what another sees; a database session bound to a tenant touches no row of another; privileged writes need the
    role; license keys and heartbeats; a minted license is accepted for exactly its term; secrets of development mode are used on a loopback address only.
  \<^item> Refinement: the Postgres store answers as the in-memory store does, up to the order of listings, for any sequence of calls the schema accepts; migrations run once and in order
    whatever boot fails; the kill switch is a flag; the keystore is a map; Dijkstra over binary32 computes least route costs.
  \<^item> Fail-closed enforcement: the policy engine and the proxy deny on every error; the decision cache is bounded and its entries expire; negotiation in the sandbox.
  \<^item> Integrity: a verified log commits to its history and appended logs verify; a successful incident export verifies; redaction and presigned URLs admit no leak or injection.
  \<^item> Host changes: hardening never loses data wherever it fails, and rollback restores; no tool call of an agent lifts the kill switch.
  \<^item> Runtime: when chains are detected, when breakers open and the cost breaker trips, what the skill scanner reports, that the bug-hunt loop terminates within its bounds, that a scan
    created through the API is carried out, that every finding of the cloud scan has its evidence, and that the daemon's shutdown completes exactly when the proxy is off.
  \<^item> Algorithms: attack paths, the ridge solution of the ranker, compliance reports, rate limits, score and summary of a report, the catalogue of the default audit.
  \<^item> Library theorems beside these: recovery of a log from disk, replacement of the feed by verified bytes only, the sinkhole, the API-key scan, what the context packer keeps and in which
    order, the agreement of the test double with a host, a square root correct to the last bit, the Cedar gate of the privileged writes.
  \<^item> Where the code does not do what it means to, the theorem states what it does: a log forked by two writers, an alert consumer that stops at the first lag, threats present from the start
    that no monitor reports, finding ids a real audit cannot produce, a \<open>.env\<close> file reachable through a granted directory, a kernel enforcement point that detects nothing outside the
    demonstration build, an export that anyone can sign with the built-in key, ICMP rules reported as open SSH, an exact duplicate that rounding
    lets survive.

  \<^bold>\<open>Termination, fuel and bounds.\<close>
  Loops are structural or have a termination proof. Fuel appears in two places: the recursive descent parser of \<open>CostCheck\<close>, where each call consumes input and the given fuel (twice the length
  of the line plus one) is shown to be never exhausted, and the \<open>for attempt in 0..n\<close> loop of the drill in \<open>Chaos\<close>, whose fuel is the code's own bound. A service loop that never returns (the worker, the
  monitors, the daemon) is a function of the finite list of events it has processed, so a statement about all lists is a statement about every moment of every run. Machine integers have the
  width of the code (\<open>u8\<close> to \<open>u64\<close> words; \<open>usize\<close> is a natural number where it counts memory).

  \<^bold>\<open>Parameters and hypotheses.\<close>
  Third-party code is a parameter: SHA-256, HMAC, ed25519, AEAD and KDFs, regular expressions, tree-sitter, Jaro-Winkler, serde, the RFC 3339 parser, wasmtime, Cedar, Rego, Postgres as the executor of the modelled statements, Redis, Neo4j, the BPF
  library, the cloud SDKs, HTTP and TLS clients and language models.
  A property that relies on them names what it relies on (a signature verifies what was signed, an entry line parses back) and has a witness in which it holds. The file system model assumes that a failing
  operation leaves the files as they were; everything else about failures is quantified over. Concurrency is modelled where it matters to a statement (the bus, the shutdown, the two writers of the log) as
  all interleavings of atomic steps.

  \<^bold>\<open>Not modelled.\<close>
  What is left is the outermost layer. The node bindings (\<open>napi_surface.rs\<close>) and the module re-exports hold no logic of their own. Command-line parsing, serde and YAML are derived code,
  given as parameters where a function uses them. Binding and accepting sockets, telemetry and console logging of the binaries, and the SQLite schema of the alert table have effects that no
  other code of the workspace reads. Calendar arithmetic of the \<open>time\<close> crate enters through the time stamps it returns. The broadcast channel of the realtime hub is seen from its receivers, as the
  sequence of messages one of them gets.
\<close>

end
